(* ===== verification/Prelude.thy ===== *)
theory Prelude
  imports Main "HOL-Library.Char_ord" "HOL-Library.List_Lexorder" "HOL-Library.Product_Lexorder"
    "HOL-Library.Multiset"
begin

text \<open>
  What every component theory shares: the result types of the program, instants on the
  database clock, the relational operations the SQL statements of the program denote, and the
  generic lemmas about them.

  A table is the list of its rows. A statement \<open>UPDATE t SET f WHERE p\<close> is
  \<open>sql_update p f t\<close>, its \<open>RETURNING\<close> clause \<open>sql_returning\<close>, an
  \<open>INSERT ... ON CONFLICT (key) DO NOTHING\<close> is \<open>sql_insert_ignore\<close>, and
  \<open>SELECT ... WHERE p ORDER BY k LIMIT n\<close> is \<open>sql_select\<close>. A \<open>NULL\<close>
  column is \<open>None\<close>, and a comparison with it is not satisfied.
\<close>

section \<open>Results, thrown errors, instants\<close>

type_synonym ('t, 'e) result = "'e + 't"
type_synonym 'a throws = "string + 'a"
type_synonym instant = int
type_synonym ident = string

datatype json = JNull | JBool bool | JNum int | JStr string | JArr "json list" | JObj "(string \<times> json) list"

abbreviation ok :: "'t \<Rightarrow> ('t, 'e) result" where
  "ok \<equiv> Inr"

abbreviation fail :: "'e \<Rightarrow> ('t, 'e) result" where
  "fail \<equiv> Inl"

named_theorems table_simps \<open>how the relational operations act on tables\<close>
named_theorems key_simps \<open>which operations keep the keys of a table\<close>

section \<open>Relational operations on tables\<close>

definition sql_update :: "('r \<Rightarrow> bool) \<Rightarrow> ('r \<Rightarrow> 'r) \<Rightarrow> 'r list \<Rightarrow> 'r list" where
  "sql_update p f t = map (\<lambda>r. if p r then f r else r) t"

definition sql_returning :: "('r \<Rightarrow> bool) \<Rightarrow> ('r \<Rightarrow> 'r) \<Rightarrow> 'r list \<Rightarrow> 'r list" where
  "sql_returning p f t = map f (filter p t)"

definition sql_select :: "('r \<Rightarrow> bool) \<Rightarrow> ('r \<Rightarrow> 'k::linorder) \<Rightarrow> nat \<Rightarrow> 'r list \<Rightarrow> 'r list" where
  "sql_select p k n t = take n (sort_key k (filter p t))"

definition sql_delete :: "('r \<Rightarrow> bool) \<Rightarrow> 'r list \<Rightarrow> 'r list" where
  "sql_delete p t = filter (\<lambda>r. \<not> p r) t"

fun sql_insert_ignore :: "('r \<Rightarrow> 'k) \<Rightarrow> 'r list \<Rightarrow> 'r list \<Rightarrow> 'r list" where
  "sql_insert_ignore key [] t = t"
| "sql_insert_ignore key (r # rs) t =
     sql_insert_ignore key rs (if key r \<in> key ` set t then t else t @ [r])"

text \<open>A key column: no two rows of the table carry the same value in it.\<close>

definition keyed :: "('r \<Rightarrow> 'k) \<Rightarrow> 'r list \<Rightarrow> bool" where
  "keyed key t \<longleftrightarrow> distinct (map key t)"

definition row_of :: "('r \<Rightarrow> 'k) \<Rightarrow> 'k \<Rightarrow> 'r list \<Rightarrow> 'r option" where
  "row_of key k t = find (\<lambda>r. key r = k) t"

lemma set_sql_update [table_simps]:
  "set (sql_update p f t) = (\<lambda>r. if p r then f r else r) ` set t"
  by (simp add: sql_update_def)

lemma length_sql_update [simp]: "length (sql_update p f t) = length t"
  by (simp add: sql_update_def)

lemma set_sql_returning [table_simps]: "set (sql_returning p f t) = f ` {r \<in> set t. p r}"
  by (auto simp: sql_returning_def)

lemma sql_update_id: "(\<And>r. r \<in> set t \<Longrightarrow> \<not> p r) \<Longrightarrow> sql_update p f t = t"
  by (induction t) (auto simp: sql_update_def)

lemma sql_update_Nil [simp]: "sql_update p f [] = []"
  by (simp add: sql_update_def)

lemma sql_update_Cons [simp]:
  "sql_update p f (r # t) = (if p r then f r else r) # sql_update p f t"
  by (simp add: sql_update_def)

lemma keys_sql_update [key_simps]:
  "(\<And>r. r \<in> set t \<Longrightarrow> p r \<Longrightarrow> key (f r) = key r) \<Longrightarrow> map key (sql_update p f t) = map key t"
  by (auto simp: sql_update_def)

lemma keyed_sql_update [key_simps]:
  "(\<And>r. r \<in> set t \<Longrightarrow> p r \<Longrightarrow> key (f r) = key r) \<Longrightarrow> keyed key (sql_update p f t) = keyed key t"
  by (simp add: keyed_def keys_sql_update)

lemma keyed_insert_ignore [key_simps]: "keyed key t \<Longrightarrow> keyed key (sql_insert_ignore key rs t)"
  by (induction key rs t rule: sql_insert_ignore.induct) (auto simp: keyed_def)

lemma set_insert_ignore_mono: "set t \<subseteq> set (sql_insert_ignore key rs t)"
  by (induction key rs t rule: sql_insert_ignore.induct) auto

lemma keys_insert_ignore: "key ` set (sql_insert_ignore key rs t) = key ` set t \<union> key ` set rs"
  by (induction key rs t rule: sql_insert_ignore.induct) auto

lemma set_insert_ignore: "set (sql_insert_ignore key rs t) \<subseteq> set t \<union> set rs"
  by (induction key rs t rule: sql_insert_ignore.induct) (auto split: if_splits)

lemma insert_ignore_id: "key ` set rs \<subseteq> key ` set t \<Longrightarrow> sql_insert_ignore key rs t = t"
  by (induction key rs t rule: sql_insert_ignore.induct) auto

lemma insert_ignore_idem:
  "sql_insert_ignore key rs (sql_insert_ignore key rs t) = sql_insert_ignore key rs t"
  by (rule insert_ignore_id) (auto simp: keys_insert_ignore)

lemma set_sql_select: "set (sql_select p k n t) \<subseteq> {r \<in> set t. p r}"
  by (auto simp: sql_select_def dest: in_set_takeD)

lemma length_sql_select: "length (sql_select p k n t) \<le> n"
  by (simp add: sql_select_def)

lemma sql_select_all: "length (filter p t) \<le> n \<Longrightarrow> set (sql_select p k n t) = {r \<in> set t. p r}"
  by (auto simp: sql_select_def)

lemma sorted_sql_select: "sorted (map k (sql_select p k n t))"
  by (simp add: sql_select_def take_map [symmetric])

lemma distinct_sql_select: "distinct t \<Longrightarrow> distinct (sql_select p k n t)"
  by (simp add: sql_select_def)

lemma keyed_sql_delete [key_simps]: "keyed key t \<Longrightarrow> keyed key (sql_delete p t)"
  by (auto simp: keyed_def sql_delete_def distinct_map intro: inj_on_subset)

lemma set_sql_delete [table_simps]: "set (sql_delete p t) = {r \<in> set t. \<not> p r}"
  by (auto simp: sql_delete_def)

lemma row_of_Some: "row_of key k t = Some r \<Longrightarrow> r \<in> set t \<and> key r = k"
  by (auto simp: row_of_def find_Some_iff)

lemma row_of_None: "row_of key k t = None \<longleftrightarrow> k \<notin> key ` set t"
  by (auto simp: row_of_def find_None_iff)

lemma row_of_keyed: "keyed key t \<Longrightarrow> r \<in> set t \<Longrightarrow> row_of key (key r) t = Some r"
  by (induction t) (auto simp: keyed_def row_of_def)

lemma keyed_unique: "keyed key t \<Longrightarrow> r \<in> set t \<Longrightarrow> s \<in> set t \<Longrightarrow> key r = key s \<Longrightarrow> r = s"
  by (auto simp: keyed_def distinct_map inj_on_def)

lemma keyed_distinct: "keyed key t \<Longrightarrow> distinct t"
  by (simp add: keyed_def distinct_map)

lemma row_of_sql_update:
  assumes "\<And>r. key (f r) = key r"
  shows "row_of key k (sql_update p f t)
    = map_option (\<lambda>r. if p r then f r else r) (row_of key k t)"
  using assms by (induction t) (auto simp: row_of_def)

lemma update_keeps:
  assumes "x \<in> set (sql_update p f t)" and "\<And>r. key (f r) = key r"
    and "\<And>y. y \<in> set t \<Longrightarrow> key y = key x \<Longrightarrow> \<not> p y"
  shows "x \<in> set t"
proof -
  obtain y where y: "y \<in> set t" "x = (if p y then f y else y)" using assms(1) by (auto simp: set_sql_update)
  then show ?thesis using assms(2,3) by (cases "p y") auto
qed

lemma row_of_append: "k \<notin> key ` set new \<Longrightarrow> row_of key k (t @ new) = row_of key k t"
  using row_of_None [of key k new] by (induction t) (auto simp: row_of_def)

section \<open>Text\<close>

text \<open>\<open>s.split(c)\<close> for a single character, \<open>String(n)\<close>, and a digit's value.\<close>

fun split_on :: "char \<Rightarrow> string \<Rightarrow> string list" where
  "split_on sep [] = [[]]"
| "split_on sep (c # cs) =
     (if c = sep then [] # split_on sep cs
      else case split_on sep cs of [] \<Rightarrow> [[c]] | p # ps \<Rightarrow> (c # p) # ps)"

fun show_nat :: "nat \<Rightarrow> string" where
  "show_nat n = (if n < 10 then [char_of (48 + n)] else show_nat (n div 10) @ [char_of (48 + n mod 10)])"

declare show_nat.simps [simp del]

definition is_digit :: "char \<Rightarrow> bool" where
  "is_digit c \<longleftrightarrow> CHR ''0'' \<le> c \<and> c \<le> CHR ''9''"

definition decimal :: "string \<Rightarrow> nat" where
  "decimal s = foldl (\<lambda>n c. n * 10 + (of_char c - 48)) 0 s"

lemma split_on_nonempty: "split_on sep s \<noteq> []"
  by (induction sep s rule: split_on.induct) (auto split: list.split)

lemma split_on_none: "sep \<notin> set s \<Longrightarrow> split_on sep s = [s]"
  by (induction sep s rule: split_on.induct) auto

lemma split_on_append: "sep \<notin> set a \<Longrightarrow> split_on sep (a @ sep # b) = a # split_on sep b"
  by (induction a) auto

text \<open>\<open>LIKE\<close>: \<open>%\<close> stands for any text, \<open>_\<close> for any character, and a backslash takes the next one literally.\<close>

fun sql_like :: "string \<Rightarrow> string \<Rightarrow> bool" where
  "sql_like [] s = (s = [])"
| "sql_like (c # p) s =
     (if c = CHR ''%'' then sql_like p s \<or> (case s of [] \<Rightarrow> False | _ # s' \<Rightarrow> sql_like (c # p) s')
      else if c = CHR 0x5C then (case p of [] \<Rightarrow> False | d # p' \<Rightarrow> (case s of [] \<Rightarrow> False | e # s' \<Rightarrow> d = e \<and> sql_like p' s'))
      else (case s of [] \<Rightarrow> False | e # s' \<Rightarrow> (c = CHR ''_'' \<or> c = e) \<and> sql_like p s'))"

section \<open>Loops that await\<close>

text \<open>\<open>for (const x of xs) await f(x)\<close>: stops at the first throw.\<close>

fun for_each :: "('a \<Rightarrow> 's \<Rightarrow> 's \<times> string option) \<Rightarrow> 'a list \<Rightarrow> 's \<Rightarrow> 's \<times> string option" where
  "for_each f [] s = (s, None)"
| "for_each f (x # xs) s = (case f x s of (s', Some e) \<Rightarrow> (s', Some e) | (s', None) \<Rightarrow> for_each f xs s')"

lemma for_each_inv:
  assumes "\<And>x s. x \<in> set xs \<Longrightarrow> P s \<Longrightarrow> P (fst (f x s))" and "P s"
  shows "P (fst (for_each f xs s))"
  using assms
proof (induction xs arbitrary: s)
  case (Cons x xs)
  obtain s1 e where f: "f x s = (s1, e)" by (cases "f x s")
  have "P s1" using Cons.prems(1) [of x s] Cons.prems(2) f by simp
  then show ?case using Cons f by (cases e) simp_all
qed simp

text \<open>\<open>slice(i * n, (i + 1) * n)\<close> for every \<open>i\<close>: pieces of \<open>n\<close>, the last one shorter.\<close>

function chunks_of :: "nat \<Rightarrow> 'a list \<Rightarrow> 'a list list" where
  "chunks_of n xs = (if xs = [] \<or> n = 0 then [] else take n xs # chunks_of n (drop n xs))"
  by pat_completeness auto
termination by (relation "measure (\<lambda>(n, xs). length xs)") auto

declare chunks_of.simps [simp del]

lemma concat_chunks_of: "0 < n \<Longrightarrow> concat (chunks_of n xs) = xs"
  by (induction n xs rule: chunks_of.induct) (subst chunks_of.simps, auto)

lemma chunks_of_bound: "c \<in> set (chunks_of n xs) \<Longrightarrow> c \<noteq> [] \<and> length c \<le> n"
proof (induction n xs rule: chunks_of.induct)
  case (1 n xs)
  then show ?case by (subst (asm) (2) chunks_of.simps) (auto split: if_splits)
qed

lemma chunks_of_subset: "c \<in> set (chunks_of n xs) \<Longrightarrow> set c \<subseteq> set xs"
proof (induction n xs rule: chunks_of.induct)
  case (1 n xs)
  then show ?case
    by (subst (asm) (2) chunks_of.simps) (auto split: if_splits dest: in_set_takeD in_set_dropD)
qed

text \<open>A \<open>Map\<close> of buckets in the order of first insertion.\<close>

fun push_bucket :: "'k \<Rightarrow> 'a \<Rightarrow> ('k \<times> 'a list) list \<Rightarrow> ('k \<times> 'a list) list" where
  "push_bucket k x [] = [(k, [x])]"
| "push_bucket k x ((j, xs) # bs) = (if j = k then (j, xs @ [x]) # bs else (j, xs) # push_bucket k x bs)"

definition group_by_key :: "('a \<Rightarrow> 'k) \<Rightarrow> 'a list \<Rightarrow> ('k \<times> 'a list) list" where
  "group_by_key key xs = fold (\<lambda>x. push_bucket (key x) x) xs []"

lemma push_bucket_mset:
  "mset (concat (map snd (push_bucket k x bs))) = add_mset x (mset (concat (map snd bs)))"
  by (induction k x bs rule: push_bucket.induct) auto

lemma push_bucket_keys: "fst ` set (push_bucket k x bs) = insert k (fst ` set bs)"
  by (induction k x bs rule: push_bucket.induct) auto

definition buckets_ok :: "('a \<Rightarrow> 'k) \<Rightarrow> ('k \<times> 'a list) list \<Rightarrow> bool" where
  "buckets_ok key bs \<longleftrightarrow> distinct (map fst bs) \<and> (\<forall>(k, xs) \<in> set bs. xs \<noteq> [] \<and> (\<forall>x \<in> set xs. key x = k))"

lemma push_bucket_ok: "buckets_ok key bs \<Longrightarrow> buckets_ok key (push_bucket (key x) x bs)"
proof (induction "key x" x bs rule: push_bucket.induct)
  case (2 x j xs bs)
  then show ?case using push_bucket_keys [of "key x" x bs]
    by (auto simp: buckets_ok_def simp flip: set_map)
qed (simp add: buckets_ok_def)

lemma group_by_key_props:
  "mset (concat (map snd (group_by_key key xs))) = mset xs \<and> buckets_ok key (group_by_key key xs)"
proof -
  have "mset (concat (map snd (fold (\<lambda>x. push_bucket (key x) x) xs bs))) = mset (concat (map snd bs)) + mset xs
      \<and> buckets_ok key (fold (\<lambda>x. push_bucket (key x) x) xs bs)" if "buckets_ok key bs" for bs
    using that by (induction xs arbitrary: bs) (auto simp: push_bucket_mset push_bucket_ok)
  from this [of "[]"] show ?thesis by (simp add: group_by_key_def buckets_ok_def)
qed

end
