(* ===== verification/Primitives.thy ===== *)
theory Primitives
  imports Prelude
begin

text \<open>
  \<open>packages/ddd-kit/src/primitives/option.ts\<close> and \<open>result.ts\<close>: the
  \<open>Option\<close> and \<open>Result\<close> values every service returns. \<open>Some\<close> and
  \<open>None\<close> of the program are the constructors of HOL's option type, a
  \<open>Result\<close> is a sum with the error on the left, and a method that throws returns
  \<open>Inl\<close> of the message. A thunk argument is a function from \<open>unit\<close>.
\<close>

section \<open>Option\<close>

datatype 'a nullable = JsNull | JsUndefined | JsValue 'a

datatype ('e) error_or_thunk = Plain 'e | Thunk "unit \<Rightarrow> 'e"

fun from_nullable :: "'a nullable \<Rightarrow> 'a option" where
  "from_nullable (JsValue v) = Some v"
| "from_nullable JsNull = None"
| "from_nullable JsUndefined = None"

fun opt_is_some :: "'a option \<Rightarrow> bool" where
  "opt_is_some (Some _) = True"
| "opt_is_some None = False"

fun opt_is_none :: "'a option \<Rightarrow> bool" where
  "opt_is_none (Some _) = False"
| "opt_is_none None = True"

fun opt_unwrap :: "'a option \<Rightarrow> 'a throws" where
  "opt_unwrap (Some v) = Inr v"
| "opt_unwrap None = Inl ''Called unwrap on a None value''"

fun opt_unwrap_or :: "'a \<Rightarrow> 'a option \<Rightarrow> 'a" where
  "opt_unwrap_or d (Some v) = v"
| "opt_unwrap_or d None = d"

fun opt_unwrap_or_else :: "(unit \<Rightarrow> 'a) \<Rightarrow> 'a option \<Rightarrow> 'a" where
  "opt_unwrap_or_else f (Some v) = v"
| "opt_unwrap_or_else f None = f ()"

fun opt_map :: "('a \<Rightarrow> 'b) \<Rightarrow> 'a option \<Rightarrow> 'b option" where
  "opt_map f (Some v) = Some (f v)"
| "opt_map f None = None"

fun opt_filter :: "('a \<Rightarrow> bool) \<Rightarrow> 'a option \<Rightarrow> 'a option" where
  "opt_filter p (Some v) = (if p v then Some v else None)"
| "opt_filter p None = None"

fun opt_or :: "'a option \<Rightarrow> 'a option \<Rightarrow> 'a option" where
  "opt_or (Some v) b = Some v"
| "opt_or None b = b"

fun opt_or_else :: "'a option \<Rightarrow> (unit \<Rightarrow> 'a option) \<Rightarrow> 'a option" where
  "opt_or_else (Some v) f = Some v"
| "opt_or_else None f = f ()"

fun opt_xor :: "'a option \<Rightarrow> 'a option \<Rightarrow> 'a option" where
  "opt_xor (Some v) b = (if opt_is_none b then Some v else None)"
| "opt_xor None b = (if opt_is_some b then b else None)"

fun opt_flat_map :: "('a \<Rightarrow> 'b option) \<Rightarrow> 'a option \<Rightarrow> 'b option" where
  "opt_flat_map f (Some v) = f v"
| "opt_flat_map f None = None"

fun opt_to_undefined :: "'a option \<Rightarrow> 'a nullable" where
  "opt_to_undefined (Some v) = JsValue v"
| "opt_to_undefined None = JsUndefined"

fun opt_to_null :: "'a option \<Rightarrow> 'a nullable" where
  "opt_to_null (Some v) = JsValue v"
| "opt_to_null None = JsNull"

fun opt_to_result :: "'e error_or_thunk \<Rightarrow> 'a option \<Rightarrow> ('a, 'e) result" where
  "opt_to_result e (Some v) = ok v"
| "opt_to_result (Thunk f) None = fail (f ())"
| "opt_to_result (Plain e) None = fail e"

fun opt_equals :: "('a \<Rightarrow> 'a \<Rightarrow> bool) \<Rightarrow> 'a option \<Rightarrow> 'a option \<Rightarrow> bool" where
  "opt_equals same (Some v) b = (case b of Some w \<Rightarrow> same v w | None \<Rightarrow> False)"
| "opt_equals same None b = opt_is_none b"

fun opt_match :: "('a \<Rightarrow> 'u) \<Rightarrow> (unit \<Rightarrow> 'u) \<Rightarrow> 'a option \<Rightarrow> 'u" where
  "opt_match on_some on_none (Some v) = on_some v"
| "opt_match on_some on_none None = on_none ()"

section \<open>Result\<close>

fun is_success :: "('t, 'e) result \<Rightarrow> bool" where
  "is_success (Inr _) = True"
| "is_success (Inl _) = False"

fun is_failure :: "('t, 'e) result \<Rightarrow> bool" where
  "is_failure (Inr _) = False"
| "is_failure (Inl _) = True"

fun get_value :: "('t, 'e) result \<Rightarrow> 't throws" where
  "get_value (Inr v) = Inr v"
| "get_value (Inl e) = Inl ''Can't get value from failure result''"

fun get_error :: "('t, 'e) result \<Rightarrow> 'e throws" where
  "get_error (Inl e) = Inr e"
| "get_error (Inr v) = Inl ''Can't get error from success result''"

fun res_unwrap_or :: "'t \<Rightarrow> ('t, 'e) result \<Rightarrow> 't" where
  "res_unwrap_or d (Inr v) = v"
| "res_unwrap_or d (Inl e) = d"

fun res_map :: "('t \<Rightarrow> 'u) \<Rightarrow> ('t, 'e) result \<Rightarrow> ('u, 'e) result" where
  "res_map f (Inr v) = ok (f v)"
| "res_map f (Inl e) = fail e"

fun res_flat_map :: "('t \<Rightarrow> ('u, 'e) result) \<Rightarrow> ('t, 'e) result \<Rightarrow> ('u, 'e) result" where
  "res_flat_map f (Inr v) = f v"
| "res_flat_map f (Inl e) = fail e"

fun res_map_error :: "('e \<Rightarrow> 'f) \<Rightarrow> ('t, 'e) result \<Rightarrow> ('t, 'f) result" where
  "res_map_error f (Inr v) = ok v"
| "res_map_error f (Inl e) = fail (f e)"

fun res_match :: "('t \<Rightarrow> 'u) \<Rightarrow> ('e \<Rightarrow> 'u) \<Rightarrow> ('t, 'e) result \<Rightarrow> 'u" where
  "res_match on_ok on_fail (Inr v) = on_ok v"
| "res_match on_ok on_fail (Inl e) = on_fail e"

fun res_combine :: "('t, 'e) result list \<Rightarrow> (unit, 'e) result" where
  "res_combine [] = ok ()"
| "res_combine (r # rs) = (case r of Inl e \<Rightarrow> fail e | Inr _ \<Rightarrow> res_combine rs)"

definition res_all :: "('t, 'e) result list \<Rightarrow> ('t list, 'e) result" where
  "res_all rs =
     (case find is_failure rs of
        Some (Inl e) \<Rightarrow> fail e
      | _ \<Rightarrow> ok (concat (map (\<lambda>r. case r of Inr v \<Rightarrow> [v] | Inl _ \<Rightarrow> []) rs)))"

fun opt_try_map :: "('a \<Rightarrow> ('b, 'e) result) \<Rightarrow> 'a option \<Rightarrow> ('b option, 'e) result" where
  "opt_try_map f (Some v) = res_map Some (f v)"
| "opt_try_map f None = ok None"

section \<open>Laws\<close>

lemma opt_unwrap_Inr_iff [simp]: "opt_unwrap x = Inr v \<longleftrightarrow> x = Some v"
  by (cases x) auto

lemma get_value_Inr_iff [simp]: "get_value r = Inr v \<longleftrightarrow> r = Inr v"
  by (cases r) auto

lemma is_failure_iff: "is_failure r \<longleftrightarrow> (\<exists>e. r = Inl e)"
  by (cases r) auto

lemma opt_xor_comm: "opt_xor a b = opt_xor b a"
  by (cases a; cases b) auto

lemma res_combine_ok_iff: "res_combine rs = ok () \<longleftrightarrow> (\<forall>r \<in> set rs. is_success r)"
  by (induction rs) (auto split: sum.splits)

lemma res_all_eq_map:
  assumes "\<forall>r \<in> set rs. is_success r"
  shows "map Inr (projr (res_all rs)) = rs \<and> is_success (res_all rs)"
proof -
  have none: "find is_failure rs = None"
    using assms by (fastforce simp: find_None_iff is_failure_iff)
  have "map Inr (concat (map (\<lambda>r. case r of Inr v \<Rightarrow> [v] | Inl _ \<Rightarrow> []) rs)) = rs"
    using assms by (induction rs) (auto split: sum.splits)
  with none show ?thesis by (simp add: res_all_def)
qed

end
