(* ===== verification/Watched_List.thy ===== *)
theory Watched_List
  imports Prelude
begin

text \<open>
  \<open>packages/ddd-kit/src/domain/watched-list.ts\<close>: a collection that remembers what it
  held at first and which items were added and removed since, so that a repository writes the
  difference only. \<open>compareItems\<close> is abstract in the source: here it is the parameter
  \<open>eq\<close>, with its arguments in the order each method passes them.
\<close>

section \<open>State and operations\<close>

record 'a watched_list =
  current_items :: "'a list"
  initial_items :: "'a list"
  new_items :: "'a list"
  removed_items :: "'a list"

definition wl_make :: "'a list option \<Rightarrow> 'a watched_list" where
  "wl_make initial =
     (let xs = (case initial of None \<Rightarrow> [] | Some ys \<Rightarrow> ys)
      in \<lparr>current_items = xs, initial_items = xs, new_items = [], removed_items = []\<rparr>)"

definition wl_has_changes :: "'a watched_list \<Rightarrow> bool" where
  "wl_has_changes w \<longleftrightarrow> 0 < length (new_items w) \<or> 0 < length (removed_items w)"

definition is_current_item :: "('a \<Rightarrow> 'a \<Rightarrow> bool) \<Rightarrow> 'a watched_list \<Rightarrow> 'a \<Rightarrow> bool" where
  "is_current_item eq w x = list_ex (\<lambda>v. eq x v) (current_items w)"

definition is_new_item :: "('a \<Rightarrow> 'a \<Rightarrow> bool) \<Rightarrow> 'a watched_list \<Rightarrow> 'a \<Rightarrow> bool" where
  "is_new_item eq w x = list_ex (\<lambda>v. eq x v) (new_items w)"

definition is_removed_item :: "('a \<Rightarrow> 'a \<Rightarrow> bool) \<Rightarrow> 'a watched_list \<Rightarrow> 'a \<Rightarrow> bool" where
  "is_removed_item eq w x = list_ex (\<lambda>v. eq x v) (removed_items w)"

definition was_added_initially :: "('a \<Rightarrow> 'a \<Rightarrow> bool) \<Rightarrow> 'a watched_list \<Rightarrow> 'a \<Rightarrow> bool" where
  "was_added_initially eq w x = list_ex (\<lambda>v. eq x v) (initial_items w)"

definition remove_from_new :: "('a \<Rightarrow> 'a \<Rightarrow> bool) \<Rightarrow> 'a \<Rightarrow> 'a watched_list \<Rightarrow> 'a watched_list" where
  "remove_from_new eq x w = w\<lparr>new_items := filter (\<lambda>v. \<not> eq v x) (new_items w)\<rparr>"

definition remove_from_current :: "('a \<Rightarrow> 'a \<Rightarrow> bool) \<Rightarrow> 'a \<Rightarrow> 'a watched_list \<Rightarrow> 'a watched_list" where
  "remove_from_current eq x w = w\<lparr>current_items := filter (\<lambda>v. \<not> eq x v) (current_items w)\<rparr>"

definition remove_from_removed :: "('a \<Rightarrow> 'a \<Rightarrow> bool) \<Rightarrow> 'a \<Rightarrow> 'a watched_list \<Rightarrow> 'a watched_list" where
  "remove_from_removed eq x w = w\<lparr>removed_items := filter (\<lambda>v. \<not> eq v x) (removed_items w)\<rparr>"

definition wl_add :: "('a \<Rightarrow> 'a \<Rightarrow> bool) \<Rightarrow> 'a \<Rightarrow> 'a watched_list \<Rightarrow> 'a watched_list" where
  "wl_add eq x w =
     (let w1 = (if is_removed_item eq w x then remove_from_removed eq x w else w);
          w2 = (if \<not> is_new_item eq w1 x \<and> \<not> was_added_initially eq w1 x
                then w1\<lparr>new_items := new_items w1 @ [x]\<rparr> else w1)
      in if \<not> is_current_item eq w2 x
         then w2\<lparr>current_items := current_items w2 @ [x]\<rparr> else w2)"

definition wl_remove :: "('a \<Rightarrow> 'a \<Rightarrow> bool) \<Rightarrow> 'a \<Rightarrow> 'a watched_list \<Rightarrow> 'a watched_list" where
  "wl_remove eq x w =
     (let w1 = remove_from_current eq x w
      in if is_new_item eq w1 x then remove_from_new eq x w1
         else if \<not> is_removed_item eq w1 x
              then w1\<lparr>removed_items := removed_items w1 @ [x]\<rparr> else w1)"

definition wl_find :: "('a \<Rightarrow> bool) \<Rightarrow> 'a watched_list \<Rightarrow> 'a option" where
  "wl_find p w = find p (current_items w)"

definition wl_exists :: "('a \<Rightarrow> 'a \<Rightarrow> bool) \<Rightarrow> 'a \<Rightarrow> 'a watched_list \<Rightarrow> bool" where
  "wl_exists eq x w = is_current_item eq w x"

definition wl_count :: "'a watched_list \<Rightarrow> nat" where
  "wl_count w = length (current_items w)"

datatype 'a wl_op = Add 'a | Remove 'a

fun wl_step :: "('a \<Rightarrow> 'a \<Rightarrow> bool) \<Rightarrow> 'a wl_op \<Rightarrow> 'a watched_list \<Rightarrow> 'a watched_list" where
  "wl_step eq (Add x) w = wl_add eq x w"
| "wl_step eq (Remove x) w = wl_remove eq x w"

section \<open>The difference the list records is the difference there is\<close>

text \<open>
  The invariant, for the plain equality an id comparison amounts to: what is held now is what
  was held at first without the removed items, with the new ones; an item is never new and
  initial, nor new and removed.
\<close>

definition wl_inv :: "'a watched_list \<Rightarrow> bool" where
  "wl_inv w \<longleftrightarrow>
     set (current_items w) = (set (initial_items w) - set (removed_items w)) \<union> set (new_items w)
   \<and> set (new_items w) \<inter> set (initial_items w) = {}
   \<and> set (new_items w) \<inter> set (removed_items w) = {}"

lemmas wl_defs = is_current_item_def is_new_item_def is_removed_item_def was_added_initially_def
  remove_from_new_def remove_from_current_def remove_from_removed_def list_ex_iff

lemma wl_inv_make: "wl_inv (wl_make initial)"
  by (simp add: wl_inv_def wl_make_def Let_def)

lemma wl_add_initial [simp]: "initial_items (wl_add eq x w) = initial_items w"
  unfolding wl_add_def Let_def remove_from_removed_def by simp

lemma wl_remove_initial [simp]: "initial_items (wl_remove eq x w) = initial_items w"
  unfolding wl_remove_def Let_def remove_from_new_def remove_from_current_def by simp

lemma wl_step_initial [simp]: "initial_items (wl_step eq e w) = initial_items w"
  by (cases e) simp_all

lemma wl_add_sets:
  "set (current_items (wl_add (=) x w)) = insert x (set (current_items w))"
  "set (removed_items (wl_add (=) x w)) = set (removed_items w) - {x}"
  "set (new_items (wl_add (=) x w))
    = (if x \<in> set (initial_items w) then set (new_items w) else insert x (set (new_items w)))"
  unfolding wl_add_def Let_def wl_defs by auto

lemma wl_remove_sets:
  "set (current_items (wl_remove (=) x w)) = set (current_items w) - {x}"
  "set (new_items (wl_remove (=) x w)) = set (new_items w) - {x}"
  "set (removed_items (wl_remove (=) x w))
    = (if x \<in> set (new_items w) then set (removed_items w) else insert x (set (removed_items w)))"
  unfolding wl_remove_def Let_def wl_defs by auto

lemma wl_inv_add: "wl_inv w \<Longrightarrow> wl_inv (wl_add (=) x w)"
  unfolding wl_inv_def wl_add_sets wl_add_initial by (cases "x \<in> set (initial_items w)") auto

lemma wl_inv_remove: "wl_inv w \<Longrightarrow> wl_inv (wl_remove (=) x w)"
  unfolding wl_inv_def wl_remove_sets wl_remove_initial by (cases "x \<in> set (new_items w)") auto

lemma wl_inv_step: "wl_inv w \<Longrightarrow> wl_inv (wl_step (=) e w)"
  by (cases e) (simp_all add: wl_inv_add wl_inv_remove)

definition wl_run :: "'a list \<Rightarrow> 'a wl_op list \<Rightarrow> 'a watched_list" where
  "wl_run xs es = fold (wl_step (=)) es (wl_make (Some xs))"

lemma wl_inv_run: "wl_inv (wl_run xs es)"
proof -
  have "wl_inv w \<Longrightarrow> wl_inv (fold (wl_step (=)) es w)" for w
    by (induction es arbitrary: w) (simp_all add: wl_inv_step)
  then show ?thesis by (simp add: wl_run_def wl_inv_make)
qed

lemma wl_run_initial: "initial_items (wl_run xs es) = xs"
proof -
  have "initial_items (fold (wl_step (=)) es w) = initial_items w" for w
    by (induction es arbitrary: w) simp_all
  then show ?thesis by (simp add: wl_run_def wl_make_def)
qed

text \<open>
  Whatever sequence of \<open>add\<close> and \<open>remove\<close> calls is applied to a tracked list
  built on \<open>xs\<close>, replaying the recorded difference on \<open>xs\<close> (dropping the removed
  items, inserting the new ones) gives exactly the items held at the end; no item is recorded
  both as new and as removed, and none held at first is recorded as new.
\<close>
theorem watched_list_diff_replays:
  "set (current_items (wl_run xs es))
     = (set xs - set (removed_items (wl_run xs es))) \<union> set (new_items (wl_run xs es))
   \<and> set (new_items (wl_run xs es)) \<inter> set (removed_items (wl_run xs es)) = {}
   \<and> set (new_items (wl_run xs es)) \<inter> set xs = {}"
  using wl_inv_run [of xs es] by (simp add: wl_inv_def wl_run_initial)

end
