(* ===== verification/Lease.thy ===== *)
theory Lease
  imports Prelude Complex_Main
begin

text \<open>
  The lease every work queue of the program uses: \<open>packages/drizzle/src/lease.ts\<close> (the
  columns, the due test, the claim and release updates), \<open>packages/outbox/src/jitter.ts\<close>
  (when a failed row is retried and when it is dead) and
  \<open>packages/outbox/src/lease-budget.ts\<close> (how much work fits in a lease).

  Instants are milliseconds of the database clock; \<open>now\<close> is the start of the statement's
  transaction (\<open>now()\<close>), \<open>clock\<close> the wall clock (\<open>clock_timestamp()\<close>).
  \<open>Math.random()\<close> is the argument \<open>u\<close>, of which the source relies on
  \<open>0 \<le> u < 1\<close>. The doubles of the jitter are reals here: up to 33 attempts every
  product is below 2^53 and exact.

  The locale \<open>leased_queue\<close> is the contract the outbox, the email queue and the webhook
  queue have in common; each interprets it with its own statements.
\<close>

section \<open>The lease columns\<close>

record lease_row =
  row_id :: ident
  attempts :: int
  next_attempt_at :: "instant option"

type_synonym lease_key = "ident \<times> int"

definition dead_share_of :: "nat \<Rightarrow> nat" where
  "dead_share_of limit = (limit + 3) div 4"

definition is_due :: "instant \<Rightarrow> instant option \<Rightarrow> bool" where
  "is_due now next_at = (case next_at of None \<Rightarrow> True | Some t \<Rightarrow> t \<le> now)"

definition is_dead_due :: "instant \<Rightarrow> instant option \<Rightarrow> bool" where
  "is_dead_due now next_at = (case next_at of None \<Rightarrow> False | Some t \<Rightarrow> t \<le> now)"

text \<open>\<open>ORDER BY next_attempt_at\<close> over rows that have one.\<close>

definition due_key :: "'a lease_row_scheme \<Rightarrow> instant" where
  "due_key r = (case next_attempt_at r of None \<Rightarrow> 0 | Some t \<Rightarrow> t)"

definition seconds_from_now :: "instant \<Rightarrow> int \<Rightarrow> instant" where
  "seconds_from_now now secs = now + secs * 1000"

definition seconds_from_clock :: "instant \<Rightarrow> int \<Rightarrow> instant" where
  "seconds_from_clock clock secs = clock + secs * 1000"

definition leased_by :: "'a lease_row_scheme \<Rightarrow> lease_key \<Rightarrow> bool" where
  "leased_by r lease \<longleftrightarrow> row_id r = fst lease \<and> attempts r = snd lease"

definition claimed_set :: "instant \<Rightarrow> int \<Rightarrow> 'a lease_row_scheme \<Rightarrow> 'a lease_row_scheme" where
  "claimed_set now lease_seconds r =
     r\<lparr>attempts := attempts r + 1, next_attempt_at := Some (seconds_from_now now lease_seconds)\<rparr>"

definition released_set :: "instant \<Rightarrow> 'a lease_row_scheme \<Rightarrow> 'a lease_row_scheme" where
  "released_set now r = r\<lparr>attempts := attempts r - 1, next_attempt_at := Some now\<rparr>"

definition lease_of :: "'a lease_row_scheme \<Rightarrow> lease_key" where
  "lease_of r = (row_id r, attempts r)"

lemma dead_share_of_ceiling: "dead_share_of limit = nat \<lceil>real limit / 4\<rceil>"
proof -
  have "int ((limit + 3) div 4) = \<lceil>real limit / 4\<rceil>"
  proof (rule sym, rule ceiling_unique)
    have "4 * ((limit + 3) div 4) < limit + 4" by simp
    then show "of_int (int ((limit + 3) div 4)) - 1 < real limit / 4" by linarith
    have "limit \<le> 4 * ((limit + 3) div 4)" by linarith
    then show "real limit / 4 \<le> of_int (int ((limit + 3) div 4))" by linarith
  qed
  then show ?thesis by (simp add: dead_share_of_def)
qed

lemma dead_share_of_le: "dead_share_of limit \<le> limit"
  by (simp add: dead_share_of_def)

lemma dead_share_of_pos: "0 < limit \<Longrightarrow> 0 < dead_share_of limit"
  by (simp add: dead_share_of_def)

lemma claimed_set_sel [simp]:
  "row_id (claimed_set now s r) = row_id r"
  "attempts (claimed_set now s r) = attempts r + 1"
  "next_attempt_at (claimed_set now s r) = Some (now + s * 1000)"
  by (simp_all add: claimed_set_def seconds_from_now_def)

lemma released_set_sel [simp]:
  "row_id (released_set now r) = row_id r"
  "attempts (released_set now r) = attempts r - 1"
  "next_attempt_at (released_set now r) = Some now"
  by (simp_all add: released_set_def)

section \<open>Retry delays\<close>

definition JITTER_BASE_MS :: int where "JITTER_BASE_MS = 1000"
definition JITTER_CAP_MS :: int where "JITTER_CAP_MS = 12 * 60 * 60 * 1000"
definition JITTER_MULTIPLIER :: int where "JITTER_MULTIPLIER = 3"

definition next_delay_ms :: "real \<Rightarrow> int \<Rightarrow> int" where
  "next_delay_ms u last_delay =
     (let upper = max JITTER_BASE_MS (last_delay * JITTER_MULTIPLIER);
          delay = of_int JITTER_BASE_MS + u * of_int (upper - JITTER_BASE_MS)
      in min JITTER_CAP_MS \<lfloor>delay\<rfloor>)"

definition expected_delay_from_attempts :: "int \<Rightarrow> int" where
  "expected_delay_from_attempts n = JITTER_BASE_MS * JITTER_MULTIPLIER ^ nat (max 0 n)"

definition retry_after_seconds :: "real \<Rightarrow> int \<Rightarrow> int" where
  "retry_after_seconds u n = \<lceil>real_of_int (next_delay_ms u (expected_delay_from_attempts n)) / 1000\<rceil>"

record failure_policy =
  was_dead :: bool
  max_attempts :: int
  dead_retry_seconds :: int

definition failure_schedule :: "real \<Rightarrow> int \<Rightarrow> failure_policy \<Rightarrow> bool \<times> int" where
  "failure_schedule u n policy =
     (let dead = (was_dead policy \<or> max_attempts policy \<le> n)
      in (dead, if dead then dead_retry_seconds policy else retry_after_seconds u n))"

lemmas jitter_defs = JITTER_BASE_MS_def JITTER_CAP_MS_def JITTER_MULTIPLIER_def

lemma next_delay_ms_bounds:
  assumes "0 \<le> u" and "u < 1"
  shows "JITTER_BASE_MS \<le> next_delay_ms u d \<and> next_delay_ms u d \<le> JITTER_CAP_MS
    \<and> next_delay_ms u d \<le> max JITTER_BASE_MS (d * JITTER_MULTIPLIER)"
proof -
  define w where "w = max JITTER_BASE_MS (d * JITTER_MULTIPLIER) - JITTER_BASE_MS"
  have w: "0 \<le> w" by (simp add: w_def)
  have lo: "0 \<le> u * of_int w" using assms w by simp
  have hi: "u * of_int w \<le> of_int w" using assms w by (simp add: mult_left_le_one_le)
  have "\<lfloor>of_int JITTER_BASE_MS + u * of_int w\<rfloor> \<ge> JITTER_BASE_MS"
    using lo by (simp add: le_floor_iff)
  moreover have "\<lfloor>of_int JITTER_BASE_MS + u * of_int w\<rfloor> \<le> JITTER_BASE_MS + w"
    using hi by (simp add: floor_le_iff)
  ultimately show ?thesis
    by (simp add: next_delay_ms_def w_def [symmetric] Let_def)
       (simp add: w_def jitter_defs)
qed

lemma retry_after_seconds_bounds:
  assumes "0 \<le> u" and "u < 1"
  shows "1 \<le> retry_after_seconds u n \<and> retry_after_seconds u n \<le> 12 * 60 * 60"
proof -
  let ?m = "next_delay_ms u (expected_delay_from_attempts n)"
  have "1000 \<le> ?m" "?m \<le> 12 * 60 * 60 * 1000"
    using next_delay_ms_bounds [OF assms] by (simp_all add: jitter_defs)
  then show ?thesis by (simp add: retry_after_seconds_def ceiling_le_iff le_ceiling_iff)
qed

section \<open>How much work fits in a lease\<close>

record lease_budget =
  unit_seconds :: int
  margin_seconds :: int

definition units_within_lease :: "int \<Rightarrow> lease_budget \<Rightarrow> int" where
  "units_within_lease lease_seconds b = max 1 ((lease_seconds - margin_seconds b) div unit_seconds b)"

text \<open>\<open>leaseCountdown\<close> reads the clock once when it is made and once per question.\<close>

definition covers_next_unit :: "int \<Rightarrow> lease_budget \<Rightarrow> int \<Rightarrow> int \<Rightarrow> bool" where
  "covers_next_unit lease_seconds b made_at asked_at \<longleftrightarrow>
     (let deadline = made_at + lease_seconds * 1000;
          needed_ms = (unit_seconds b + margin_seconds b) * 1000
      in needed_ms \<le> deadline - asked_at)"

text \<open>A unit begun when the countdown covers it ends, with its margin, inside the lease.\<close>

lemma covers_next_unit_inside:
  "covers_next_unit l b made asked \<Longrightarrow>
     asked + unit_seconds b * 1000 + margin_seconds b * 1000 \<le> made + l * 1000"
  by (simp add: covers_next_unit_def Let_def algebra_simps)

section \<open>The contract of a leased queue\<close>

text \<open>
  A lease names a row and the attempt number its claim gave it. Whoever still owes a settlement
  holds a lease: the claims, settlements and crashes of every process leave a list \<open>out\<close>
  of outstanding leases beside the table. The fencing invariant says the leases out are
  pairwise different and none is ahead of its row.
\<close>

definition lease_inv :: "('t \<Rightarrow> ident \<Rightarrow> int option) \<Rightarrow> 't \<Rightarrow> lease_key list \<Rightarrow> bool" where
  "lease_inv attempt_of t out \<longleftrightarrow>
     distinct out \<and> (\<forall>(k, a) \<in> set out. \<forall>n. attempt_of t k = Some n \<longrightarrow> a \<le> n)"

locale leased_queue =
  fixes attempt_of :: "'t \<Rightarrow> ident \<Rightarrow> int option"
    and open_row :: "'t \<Rightarrow> ident \<Rightarrow> bool"
    and wf :: "'t \<Rightarrow> bool"
    and claim :: "'q \<Rightarrow> 't \<Rightarrow> 't \<times> lease_key list"
    and settle :: "'c \<Rightarrow> lease_key \<Rightarrow> 't \<Rightarrow> 't \<times> bool"
    and gives_back :: "'c \<Rightarrow> bool"
  assumes claim_wf: "wf t \<Longrightarrow> wf (fst (claim q t))"
    and claim_distinct: "wf t \<Longrightarrow> distinct (map fst (snd (claim q t)))"
    and claim_granted: "wf t \<Longrightarrow> (k, a) \<in> set (snd (claim q t)) \<Longrightarrow>
          open_row (fst (claim q t)) k \<and> attempt_of t k = Some (a - 1) \<and> attempt_of (fst (claim q t)) k = Some a"
    and claim_others: "wf t \<Longrightarrow> k \<notin> fst ` set (snd (claim q t)) \<Longrightarrow>
          attempt_of (fst (claim q t)) k = attempt_of t k"
    and settle_wf: "wf t \<Longrightarrow> wf (fst (settle c l t))"
    and settle_hit: "wf t \<Longrightarrow> snd (settle c (k, a) t) \<longleftrightarrow> attempt_of t k = Some a \<and> open_row t k"
    and settle_miss: "wf t \<Longrightarrow> \<not> snd (settle c l t) \<Longrightarrow> fst (settle c l t) = t"
    and settle_attempts: "wf t \<Longrightarrow> snd (settle c (k, a) t) \<Longrightarrow>
          attempt_of (fst (settle c (k, a) t)) k = Some (if gives_back c then a - 1 else a)"
    and settle_others: "wf t \<Longrightarrow> k' \<noteq> fst l \<Longrightarrow>
          attempt_of (fst (settle c l t)) k' = attempt_of t k'"
begin

lemma claim_keeps_inv:
  assumes wf: "wf t" and inv: "lease_inv attempt_of t out"
  shows "lease_inv attempt_of (fst (claim q t)) (snd (claim q t) @ out)"
proof -
  let ?new = "snd (claim q t)"
  have fresh: "l \<notin> set out" if "l \<in> set ?new" for l
  proof
    obtain k a where l: "l = (k, a)" by (cases l)
    assume "l \<in> set out"
    moreover have "attempt_of t k = Some (a - 1)" using claim_granted [OF wf] that l by blast
    ultimately show False using inv l by (auto simp: lease_inv_def)
  qed
  have bound: "a \<le> n" if "(k, a) \<in> set (?new @ out)" and n: "attempt_of (fst (claim q t)) k = Some n" for k a n
  proof (cases "k \<in> fst ` set ?new")
    case True
    then obtain b where b: "(k, b) \<in> set ?new" by force
    have nb: "n = b" "attempt_of t k = Some (b - 1)" using claim_granted [OF wf b] n by auto
    show ?thesis
    proof (cases "(k, a) \<in> set ?new")
      case True
      then show ?thesis using claim_granted [OF wf True] n by auto
    next
      case False
      then have "(k, a) \<in> set out" using that(1) by simp
      then have "a \<le> b - 1" using inv nb by (auto simp: lease_inv_def)
      then show ?thesis using nb by simp
    qed
  next
    case False
    then have "(k, a) \<in> set out" "attempt_of t k = Some n"
      using that n claim_others [OF wf False] by force+
    then show ?thesis using inv by (auto simp: lease_inv_def)
  qed
  have "distinct ?new" using claim_distinct [OF wf] by (simp add: distinct_map)
  then have "distinct (?new @ out)" using inv fresh by (auto simp: lease_inv_def)
  then show ?thesis unfolding lease_inv_def using bound by blast
qed

lemma settle_keeps_inv:
  assumes wf: "wf t" and inv: "lease_inv attempt_of t out" and held: "l \<in> set out"
  shows "lease_inv attempt_of (fst (settle c l t)) (removeAll l out)"
proof (cases "snd (settle c l t)")
  case False
  then show ?thesis using settle_miss [OF wf False] inv by (auto simp: lease_inv_def distinct_removeAll)
next
  case True
  obtain k a where l: "l = (k, a)" by (cases l)
  have now: "attempt_of t k = Some a" using True settle_hit [OF wf] l by blast
  have after: "attempt_of (fst (settle c l t)) k = Some (if gives_back c then a - 1 else a)"
    using settle_attempts [OF wf] True l by blast
  have "b \<le> n" if "(k', b) \<in> set (removeAll l out)" "attempt_of (fst (settle c l t)) k' = Some n" for k' b n
  proof (cases "k' = k")
    case True
    have "b \<noteq> a" "b \<le> a" using that inv now True l by (auto simp: lease_inv_def)
    then show ?thesis using that(2) after True by (auto split: if_splits)
  next
    case False
    then have "attempt_of t k' = Some n" using settle_others [OF wf, of k' l c] that(2) l by simp
    then show ?thesis using that(1) inv by (auto simp: lease_inv_def)
  qed
  moreover have "distinct (removeAll l out)" using inv by (simp add: lease_inv_def distinct_removeAll)
  ultimately show ?thesis unfolding lease_inv_def by blast
qed

lemma drop_keeps_inv: "lease_inv attempt_of t out \<Longrightarrow> lease_inv attempt_of t (filter p out)"
  by (auto simp: lease_inv_def)

text \<open>Two leases out for one row: at most one of them still fits it.\<close>

lemma one_effective:
  assumes "wf t" "lease_inv attempt_of t out" "(k, a) \<in> set out" "(k, b) \<in> set out"
    and "snd (settle c (k, a) t)" "snd (settle d (k, b) t)"
  shows "a = b"
  using assms settle_hit by force

text \<open>A row claimed again fences off every lease handed out for it before.\<close>

lemma stale_settle_writes_nothing:
  assumes wf: "wf t" and inv: "lease_inv attempt_of t out" and old: "(k, a) \<in> set out"
    and again: "k \<in> fst ` set (snd (claim q t))"
  shows "settle c (k, a) (fst (claim q t)) = (fst (claim q t), False)"
proof -
  obtain b where b: "(k, b) \<in> set (snd (claim q t))" using again by force
  have "attempt_of t k = Some (b - 1)" "attempt_of (fst (claim q t)) k = Some b"
    using claim_granted [OF wf b] by auto
  then have "a < b" using inv old by (auto simp: lease_inv_def)
  then have "\<not> snd (settle c (k, a) (fst (claim q t)))"
    using settle_hit [OF claim_wf [OF wf]] \<open>attempt_of (fst (claim q t)) k = Some b\<close> by simp
  moreover from this have "fst (settle c (k, a) (fst (claim q t))) = fst (claim q t)"
    by (rule settle_miss [OF claim_wf [OF wf]])
  ultimately show ?thesis by (simp add: prod_eq_iff)
qed

end

end
