(* ===== verification/Outbox_Store.thy ===== *)
theory Outbox_Store
  imports Lease
begin

text \<open>
  The transactional outbox table: \<open>packages/drizzle/src/schema/outbox.ts\<close>, the mapping of a
  domain event to a row (\<open>packages/ddd-kit/src/events/outbox-mapping.ts\<close>) and
  \<open>packages/outbox/src/drizzle-outbox.repository.ts\<close>, each query written as the
  relational operation it denotes.

  What the statements read from outside comes in as arguments: the clocks, whether the driver
  raises (\<open>db_error\<close>, its message), and \<open>locked\<close>, the rows another transaction holds
  locked, which \<open>FOR UPDATE SKIP LOCKED\<close> passes over. The payload schemas of
  \<open>PayloadByEventType\<close> are the argument \<open>schema\<close>: no entry, or a parser that
  accepts (\<open>None\<close>) or explains its refusal.
\<close>

section \<open>Rows, events and records\<close>

type_synonym deliveries = "string \<rightharpoonup> instant"

record outbox_metadata =
  meta_source :: string
  meta_subject :: "string option"
  meta_traceparent :: "string option"
  meta_request_id :: "string option"

record outbox_row = lease_row +
  event_type :: string
  aggregate_id :: string
  aggregate_type :: string
  organization_id :: "string option"
  payload :: json
  metadata :: outbox_metadata
  occurred_at :: instant
  dispatched_at :: "instant option"
  last_error :: "string option"
  dead_at :: "instant option"
  delivered_to :: deliveries

record domain_event =
  ev_id :: "ident option"
  ev_type :: string
  ev_date :: instant
  ev_aggregate :: string
  ev_payload :: json

record enqueue_scope =
  sc_source :: string
  sc_organization :: "string option"
  sc_aggregate_type :: "string option"
  sc_traceparent :: "string option"

text \<open>The table and the number of notifications sent on the channel.\<close>

record outbox_db =
  outbox_rows :: "outbox_row list"
  notified :: nat

type_synonym payload_schema = "string \<Rightarrow> (json \<Rightarrow> string option) option"

section \<open>Writing events\<close>

definition domain_event_to_outbox_row ::
  "ident \<Rightarrow> string option \<Rightarrow> domain_event \<Rightarrow> enqueue_scope \<Rightarrow> outbox_row" where
  "domain_event_to_outbox_row fresh request_id ev scope =
     \<lparr>row_id = (case ev_id ev of None \<Rightarrow> fresh | Some i \<Rightarrow> i),
      attempts = 0,
      next_attempt_at = None,
      event_type = ev_type ev,
      aggregate_id = ev_aggregate ev,
      aggregate_type = (case sc_aggregate_type scope of None \<Rightarrow> ''unknown'' | Some a \<Rightarrow> a),
      organization_id = sc_organization scope,
      payload = ev_payload ev,
      metadata = \<lparr>meta_source = sc_source scope, meta_subject = Some (ev_aggregate ev),
                  meta_traceparent = sc_traceparent scope, meta_request_id = request_id\<rparr>,
      occurred_at = ev_date ev,
      dispatched_at = None,
      last_error = None,
      dead_at = None,
      delivered_to = Map.empty\<rparr>"

definition assert_payload_valid :: "payload_schema \<Rightarrow> domain_event \<Rightarrow> string option" where
  "assert_payload_valid schema ev =
     (case schema (ev_type ev) of
        None \<Rightarrow> Some (''outbox: unknown event type \"'' @ ev_type ev @ ''\" (not in PayloadByEventType)'')
      | Some parse \<Rightarrow>
          (case parse (ev_payload ev) of
             None \<Rightarrow> None
           | Some msg \<Rightarrow> Some (''outbox: payload validation failed for \"'' @ ev_type ev @ ''\": '' @ msg)))"

fun first_invalid :: "payload_schema \<Rightarrow> domain_event list \<Rightarrow> string option" where
  "first_invalid schema [] = None"
| "first_invalid schema (e # es) =
     (case assert_payload_valid schema e of Some msg \<Rightarrow> Some msg | None \<Rightarrow> first_invalid schema es)"

text \<open>
  \<open>enqueue\<close>: validates every event, inserts the rows, notifies; a raise leaves no row of its
  own. \<open>fresh i\<close> is the id \<open>uuidv7()\<close> gives the \<open>i\<close>-th event of the call.
\<close>

definition enqueue ::
  "string option \<Rightarrow> payload_schema \<Rightarrow> string option \<Rightarrow> (nat \<Rightarrow> ident) \<Rightarrow>
   domain_event list \<Rightarrow> enqueue_scope \<Rightarrow> outbox_db \<Rightarrow> outbox_db throws" where
  "enqueue db_error schema request_id fresh events scope db =
     (if events = [] then Inr db
      else case first_invalid schema events of
        Some msg \<Rightarrow> Inl msg
      | None \<Rightarrow>
          (case db_error of
             Some msg \<Rightarrow> Inl msg
           | None \<Rightarrow>
               let rows = map (\<lambda>(i, e). domain_event_to_outbox_row (fresh i) request_id e scope)
                              (enumerate 0 events)
               in Inr (db\<lparr>outbox_rows := sql_insert_ignore row_id rows (outbox_rows db),
                          notified := Suc (notified db)\<rparr>)))"

section \<open>Claiming by lease\<close>

definition unavailable :: "string \<Rightarrow> string" where
  "unavailable msg = ''outbox_unavailable: '' @ msg"

definition live_row :: "outbox_row \<Rightarrow> bool" where
  "live_row r \<longleftrightarrow> dispatched_at r = None \<and> dead_at r = None"

definition dead_row :: "outbox_row \<Rightarrow> bool" where
  "dead_row r \<longleftrightarrow> dispatched_at r = None \<and> dead_at r \<noteq> None"

definition by_occurrence :: "outbox_row \<Rightarrow> instant \<times> ident" where
  "by_occurrence r = (occurred_at r, row_id r)"

record claim_request =
  cl_limit :: nat
  cl_types :: "string list"
  cl_lease :: int

definition live_candidates :: "instant \<Rightarrow> ident list \<Rightarrow> claim_request \<Rightarrow> outbox_row list \<Rightarrow> outbox_row list" where
  "live_candidates now locked q t =
     sql_select (\<lambda>r. live_row r \<and> event_type r \<in> set (cl_types q) \<and> is_due now (next_attempt_at r)
                     \<and> row_id r \<notin> set locked)
       by_occurrence (cl_limit q) t"

definition dead_candidates :: "instant \<Rightarrow> ident list \<Rightarrow> claim_request \<Rightarrow> outbox_row list \<Rightarrow> outbox_row list" where
  "dead_candidates now locked q t =
     sql_select (\<lambda>r. dead_row r \<and> event_type r \<in> set (cl_types q) \<and> is_dead_due now (next_attempt_at r)
                     \<and> row_id r \<notin> set locked)
       due_key (dead_share_of (cl_limit q)) t"

definition due_rows :: "instant \<Rightarrow> ident list \<Rightarrow> claim_request \<Rightarrow> outbox_row list \<Rightarrow> outbox_row list" where
  "due_rows now locked q t =
     take (cl_limit q)
       (sort_key by_occurrence (live_candidates now locked q t @ dead_candidates now locked q t))"

definition claim_query ::
  "instant \<Rightarrow> ident list \<Rightarrow> claim_request \<Rightarrow> outbox_row list \<Rightarrow> outbox_row list \<times> outbox_row list" where
  "claim_query now locked q t =
     (let due = map row_id (due_rows now locked q t);
          hit = (\<lambda>r. row_id r \<in> set due)
      in (sql_update hit (claimed_set now (cl_lease q)) t,
          sql_returning hit (claimed_set now (cl_lease q)) t))"

definition outbox_claim ::
  "string option \<Rightarrow> instant \<Rightarrow> ident list \<Rightarrow> claim_request \<Rightarrow> outbox_row list \<Rightarrow>
   outbox_row list \<times> (outbox_row list, string) result" where
  "outbox_claim db_error now locked q t =
     (if cl_types q = [] then (t, ok [])
      else case db_error of
        Some msg \<Rightarrow> (t, fail (unavailable msg))
      | None \<Rightarrow> (fst (claim_query now locked q t),
                 ok (sort_key by_occurrence (snd (claim_query now locked q t)))))"

section \<open>Settling under the lease\<close>

record outbox_failure =
  f_last_error :: string
  f_retry_after :: int
  f_dead :: bool
  f_deliveries :: deliveries

definition leased :: "lease_key \<Rightarrow> outbox_row \<Rightarrow> bool" where
  "leased lease r \<longleftrightarrow> leased_by r lease \<and> dispatched_at r = None"

datatype settlement = Delivered deliveries | Failed outbox_failure | Released

fun changes :: "instant \<Rightarrow> settlement \<Rightarrow> outbox_row \<Rightarrow> outbox_row" where
  "changes now (Delivered d) r =
     r\<lparr>dispatched_at := Some now, next_attempt_at := None, dead_at := None,
       delivered_to := delivered_to r ++ d\<rparr>"
| "changes now (Failed f) r =
     r\<lparr>last_error := Some (f_last_error f),
       next_attempt_at := Some (seconds_from_now now (f_retry_after f)),
       delivered_to := delivered_to r ++ f_deliveries f,
       dead_at := (if f_dead f
                   then (case dead_at r of None \<Rightarrow> Some now | Some d \<Rightarrow> Some d)
                   else dead_at r)\<rparr>"
| "changes now Released r = released_set now r"

definition outbox_settle ::
  "string option \<Rightarrow> instant \<Rightarrow> settlement \<Rightarrow> lease_key \<Rightarrow> outbox_row list \<Rightarrow>
   outbox_row list \<times> (bool, string) result" where
  "outbox_settle db_error now s lease t =
     (case db_error of
        Some msg \<Rightarrow> (t, fail (unavailable msg))
      | None \<Rightarrow>
          (sql_update (leased lease) (changes now s) t,
           ok (sql_returning (leased lease) (changes now s) t \<noteq> [])))"

definition mark_delivered where
  "mark_delivered db_error now lease d t = outbox_settle db_error now (Delivered d) lease t"

definition mark_failed where
  "mark_failed db_error now lease f t = outbox_settle db_error now (Failed f) lease t"

definition outbox_release where
  "outbox_release db_error now lease t = outbox_settle db_error now Released lease t"

definition requeue_dead ::
  "string option \<Rightarrow> instant \<Rightarrow> instant \<Rightarrow> ident list \<Rightarrow> int \<Rightarrow> outbox_row list \<Rightarrow>
   outbox_row list \<times> (ident list, string) result" where
  "requeue_dead db_error now clock ids lease_seconds t =
     (let hit = (\<lambda>r. row_id r \<in> set ids \<and> dead_row r
                     \<and> (case next_attempt_at r of None \<Rightarrow> False
                        | Some n \<Rightarrow> seconds_from_clock clock lease_seconds < n));
          f = (\<lambda>r. r\<lparr>next_attempt_at := Some now\<rparr>)
      in case db_error of
           Some msg \<Rightarrow> (t, fail (unavailable msg))
         | None \<Rightarrow> (sql_update hit f t, ok (map row_id (sql_returning hit f t))))"

section \<open>What is pending\<close>

record pending_state =
  due_in_ms :: "int option"
  oldest_pending_seconds :: real

definition min_of :: "int list \<Rightarrow> int option" where
  "min_of xs = (case xs of [] \<Rightarrow> None | y # ys \<Rightarrow> Some (fold min ys y))"

definition soonest_due :: "int option \<Rightarrow> int option \<Rightarrow> int option" where
  "soonest_due live dead =
     (case live of
        Some ms \<Rightarrow> Some (min ms (case dead of None \<Rightarrow> ms | Some d \<Rightarrow> d))
      | None \<Rightarrow> dead)"

definition pending_rows :: "string list \<Rightarrow> outbox_row list \<Rightarrow> outbox_row list" where
  "pending_rows types t = filter (\<lambda>r. (live_row r \<or> dead_row r) \<and> event_type r \<in> set types) t"

definition pending_state_of ::
  "string option \<Rightarrow> instant \<Rightarrow> string list \<Rightarrow> outbox_row list \<Rightarrow> (pending_state, string) result" where
  "pending_state_of db_error clock types t =
     (if types = [] then ok \<lparr>due_in_ms = None, oldest_pending_seconds = 0\<rparr>
      else case db_error of
        Some msg \<Rightarrow> fail (unavailable msg)
      | None \<Rightarrow>
          (let rows = pending_rows types t;
               lives = filter (\<lambda>r. dead_at r = None) rows;
               deads = filter (\<lambda>r. dead_at r \<noteq> None) rows;
               live_due = map_option (\<lambda>m. max 0 (m - clock))
                 (min_of (map (\<lambda>r. case next_attempt_at r of None \<Rightarrow> clock | Some n \<Rightarrow> n) lives));
               dead_due = map_option (\<lambda>m. max 0 (m - clock))
                 (min_of (concat (map (\<lambda>r. case next_attempt_at r of None \<Rightarrow> [] | Some n \<Rightarrow> [n]) deads)));
               oldest = (case min_of (map occurred_at lives) of
                           None \<Rightarrow> 0 | Some o1 \<Rightarrow> real_of_int (clock - o1) / 1000)
           in ok \<lparr>due_in_ms = soonest_due live_due dead_due, oldest_pending_seconds = max 0 oldest\<rparr>))"

end
