(* ===== verification/Outbox_Lease.thy ===== *)
theory Outbox_Lease
  imports Outbox_Store
begin

text \<open>
  The laws of the outbox table: its key survives every statement, a claim takes only rows that
  are due and unlocked and never more than it asked for, a dispatched row is final, and the
  table is a leased queue, whatever the interleaving of claims, settlements and crashes.
\<close>

section \<open>Keys\<close>

lemma changes_row_id [simp]: "row_id (changes now s r) = row_id r"
  by (cases s) simp_all

lemma changes_attempts [simp]:
  "attempts (changes now s r) = (if s = Released then attempts r - 1 else attempts r)"
  by (cases s) simp_all

lemma keyed_claim_query [key_simps]:
  "keyed row_id (fst (claim_query now locked q t)) = keyed row_id t"
  by (simp add: claim_query_def Let_def keyed_sql_update)

lemma keyed_outbox_claim [key_simps]:
  "keyed row_id (fst (outbox_claim e now locked q t)) = keyed row_id t"
  by (simp add: outbox_claim_def keyed_claim_query split: option.split)

lemma keyed_outbox_settle [key_simps]:
  "keyed row_id (fst (outbox_settle e now s lease t)) = keyed row_id t"
  by (simp add: outbox_settle_def keyed_sql_update split: option.split)

lemma keyed_requeue_dead [key_simps]:
  "keyed row_id (fst (requeue_dead e now clock ids secs t)) = keyed row_id t"
  by (simp add: requeue_dead_def Let_def keyed_sql_update split: option.split)

lemma keyed_enqueue [key_simps]:
  "keyed row_id (outbox_rows db) \<Longrightarrow> enqueue e schema rid fresh events scope db = Inr db' \<Longrightarrow>
     keyed row_id (outbox_rows db')"
  by (auto simp: enqueue_def Let_def keyed_insert_ignore split: if_splits option.splits)

section \<open>What a claim takes\<close>

definition claimable :: "instant \<Rightarrow> ident list \<Rightarrow> claim_request \<Rightarrow> outbox_row \<Rightarrow> bool" where
  "claimable now locked q r \<longleftrightarrow>
     dispatched_at r = None \<and> event_type r \<in> set (cl_types q) \<and> row_id r \<notin> set locked
   \<and> (if dead_at r = None then is_due now (next_attempt_at r) else is_dead_due now (next_attempt_at r))"

lemma set_live_candidates:
  "set (live_candidates now locked q t) \<subseteq> {r \<in> set t. claimable now locked q r \<and> dead_at r = None}"
  by (auto simp: live_candidates_def claimable_def live_row_def dest!: subsetD [OF set_sql_select])

lemma set_dead_candidates:
  "set (dead_candidates now locked q t) \<subseteq> {r \<in> set t. claimable now locked q r \<and> dead_at r \<noteq> None}"
  by (auto simp: dead_candidates_def claimable_def dead_row_def dest!: subsetD [OF set_sql_select])

lemma set_due_rows: "set (due_rows now locked q t) \<subseteq> {r \<in> set t. claimable now locked q r}"
  using set_live_candidates [of now locked q t] set_dead_candidates [of now locked q t]
  by (auto simp: due_rows_def dest!: in_set_takeD)

lemma length_due_rows: "length (due_rows now locked q t) \<le> cl_limit q"
  by (simp add: due_rows_def)

lemma due_dead_share:
  assumes "distinct t"
  shows "length (filter (\<lambda>r. dead_at r \<noteq> None) (due_rows now locked q t)) \<le> dead_share_of (cl_limit q)"
proof -
  let ?D = "{r \<in> set (due_rows now locked q t). dead_at r \<noteq> None}"
  have "set (live_candidates now locked q t) \<inter> set (dead_candidates now locked q t) = {}"
    using set_live_candidates [of now locked q t] set_dead_candidates [of now locked q t] by blast
  moreover have "distinct (live_candidates now locked q t)" "distinct (dead_candidates now locked q t)"
    using assms by (simp_all add: distinct_sql_select live_candidates_def dead_candidates_def)
  ultimately have d: "distinct (due_rows now locked q t)" by (simp add: due_rows_def)
  have "?D \<subseteq> set (dead_candidates now locked q t)"
    using set_live_candidates [of now locked q t]
    by (auto simp: due_rows_def dest!: in_set_takeD)
  then have "card ?D \<le> card (set (dead_candidates now locked q t))"
    by (rule card_mono [rotated]) simp
  also have "\<dots> \<le> length (dead_candidates now locked q t)" by (rule card_length)
  also have "\<dots> \<le> dead_share_of (cl_limit q)"
    by (simp add: dead_candidates_def length_sql_select)
  finally show ?thesis
    using distinct_card [OF distinct_filter [OF d], of "\<lambda>r. dead_at r \<noteq> None"] by simp
qed

lemma due_ids_iff:
  assumes "keyed row_id t" "r \<in> set t"
  shows "row_id r \<in> row_id ` set (due_rows now locked q t) \<longleftrightarrow> r \<in> set (due_rows now locked q t)"
  using assms set_due_rows [of now locked q t] by (auto dest: keyed_unique)

lemma claim_query_rows:
  assumes "keyed row_id t"
  shows "fst (claim_query now locked q t)
      = sql_update (\<lambda>r. r \<in> set (due_rows now locked q t)) (claimed_set now (cl_lease q)) t"
    and "snd (claim_query now locked q t)
      = sql_returning (\<lambda>r. r \<in> set (due_rows now locked q t)) (claimed_set now (cl_lease q)) t"
proof -
  have "\<And>r. r \<in> set t \<Longrightarrow> (row_id r \<in> set (map row_id (due_rows now locked q t)))
        = (r \<in> set (due_rows now locked q t))"
    using due_ids_iff [OF assms] by simp
  then show "fst (claim_query now locked q t)
      = sql_update (\<lambda>r. r \<in> set (due_rows now locked q t)) (claimed_set now (cl_lease q)) t"
    and "snd (claim_query now locked q t)
      = sql_returning (\<lambda>r. r \<in> set (due_rows now locked q t)) (claimed_set now (cl_lease q)) t"
    by (auto simp: claim_query_def Let_def sql_update_def sql_returning_def
             intro!: map_cong filter_cong arg_cong [of _ _ "map (claimed_set now (cl_lease q))"])
qed

lemma claim_returns:
  assumes "keyed row_id t" and "s \<in> set (snd (claim_query now locked q t))"
  obtains r where "r \<in> set t" "claimable now locked q r" "s = claimed_set now (cl_lease q) r"
    "r \<in> set (due_rows now locked q t)"
  using assms set_due_rows [of now locked q t]
  by (auto simp: claim_query_rows(2) set_sql_returning)

lemma length_claim_query:
  assumes "keyed row_id t"
  shows "length (snd (claim_query now locked q t)) \<le> cl_limit q"
proof -
  let ?D = "set (due_rows now locked q t)"
  have "distinct (filter (\<lambda>r. r \<in> ?D) t)" using keyed_distinct [OF assms] by simp
  then have "length (filter (\<lambda>r. r \<in> ?D) t) = card (set (filter (\<lambda>r. r \<in> ?D) t))"
    by (rule distinct_card [symmetric])
  also have "\<dots> \<le> card ?D" by (rule card_mono) auto
  also have "\<dots> \<le> cl_limit q"
    using card_length [of "due_rows now locked q t"] length_due_rows [of now locked q t] by linarith
  finally show ?thesis by (simp add: claim_query_rows(2) [OF assms] sql_returning_def)
qed

section \<open>The outbox is a leased queue\<close>

definition outbox_attempt :: "outbox_row list \<Rightarrow> ident \<Rightarrow> int option" where
  "outbox_attempt t k = map_option attempts (row_of row_id k t)"

definition outbox_open :: "outbox_row list \<Rightarrow> ident \<Rightarrow> bool" where
  "outbox_open t k \<longleftrightarrow> (\<exists>r. row_of row_id k t = Some r \<and> dispatched_at r = None)"

definition claim_step ::
  "instant \<times> ident list \<times> claim_request \<Rightarrow> outbox_row list \<Rightarrow> outbox_row list \<times> lease_key list" where
  "claim_step w t = (case w of (now, locked, q) \<Rightarrow>
     (case outbox_claim None now locked q t of
        (t', Inr rs) \<Rightarrow> (t', map lease_of rs)
      | (t', Inl _) \<Rightarrow> (t', [])))"

definition settle_step ::
  "instant \<times> settlement \<Rightarrow> lease_key \<Rightarrow> outbox_row list \<Rightarrow> outbox_row list \<times> bool" where
  "settle_step c lease t = (case c of (now, s) \<Rightarrow>
     (case outbox_settle None now s lease t of
        (t', Inr b) \<Rightarrow> (t', b)
      | (t', Inl _) \<Rightarrow> (t', False)))"

lemma claim_step_eq:
  "claim_step (now, locked, q) t =
     (if cl_types q = [] then (t, [])
      else (fst (claim_query now locked q t),
            map lease_of (sort_key by_occurrence (snd (claim_query now locked q t)))))"
  by (simp add: claim_step_def outbox_claim_def)

lemma settle_step_eq:
  "settle_step (now, s) lease t =
     (sql_update (leased lease) (changes now s) t, \<exists>r \<in> set t. leased lease r)"
  by (auto simp: settle_step_def outbox_settle_def sql_returning_def filter_empty_conv)

lemma claim_step_granted:
  assumes wf: "keyed row_id t" and l: "(k, a) \<in> set (snd (claim_step (now, locked, q) t))"
  obtains r where "row_of row_id k t = Some r" "attempts r = a - 1" "claimable now locked q r"
    "row_of row_id k (fst (claim_step (now, locked, q) t)) = Some (claimed_set now (cl_lease q) r)"
proof -
  obtain s where s: "s \<in> set (snd (claim_query now locked q t))" "lease_of s = (k, a)"
    and ne: "cl_types q \<noteq> []"
    using l by (auto simp: claim_step_eq split: if_splits)
  obtain r where r: "r \<in> set t" "claimable now locked q r" "s = claimed_set now (cl_lease q) r"
    "r \<in> set (due_rows now locked q t)"
    using claim_returns [OF wf s(1)] by blast
  have k: "row_id r = k" "attempts r = a - 1" using s(2) r(3) by (auto simp: lease_of_def)
  have row: "row_of row_id k t = Some r" using row_of_keyed [OF wf r(1)] k by simp
  have "row_of row_id k (fst (claim_query now locked q t)) = Some (claimed_set now (cl_lease q) r)"
    using row r(4) by (simp add: claim_query_rows(1) [OF wf] row_of_sql_update)
  then show ?thesis using that [OF row k(2) r(2)] ne by (simp add: claim_step_eq)
qed

lemma claim_step_others:
  assumes wf: "keyed row_id t" and out: "k \<notin> fst ` set (snd (claim_step (now, locked, q) t))"
  shows "row_of row_id k (fst (claim_step (now, locked, q) t)) = row_of row_id k t"
proof (cases "cl_types q = []")
  case False
  have "r \<notin> set (due_rows now locked q t)" if "row_of row_id k t = Some r" for r
  proof
    assume r: "r \<in> set (due_rows now locked q t)"
    have "r \<in> set t" "row_id r = k" using row_of_Some [OF that] by auto
    then have "lease_of (claimed_set now (cl_lease q) r) \<in> set (snd (claim_step (now, locked, q) t))"
      using r False by (auto simp: claim_step_eq claim_query_rows(2) [OF wf] set_sql_returning)
    then have "k \<in> fst ` set (snd (claim_step (now, locked, q) t))"
      using \<open>row_id r = k\<close> by (force simp: lease_of_def)
    with out show False by blast
  qed
  then show ?thesis using False
    by (cases "row_of row_id k t") (auto simp: claim_step_eq claim_query_rows(1) [OF wf] row_of_sql_update)
qed (simp add: claim_step_eq)

lemma claim_step_distinct:
  assumes wf: "keyed row_id t"
  shows "distinct (map fst (snd (claim_step (now, locked, q) t)))"
proof -
  let ?rs = "snd (claim_query now locked q t)"
  have m: "map fst (map lease_of (sort_key by_occurrence ?rs)) = map row_id (sort_key by_occurrence ?rs)"
    by (simp add: lease_of_def comp_def)
  have "distinct (map row_id (filter p t))" for p
    using wf by (auto simp: keyed_def distinct_map intro: inj_on_subset)
  then have "distinct (map row_id ?rs)"
    by (simp add: claim_query_def Let_def sql_returning_def comp_def)
  then have "distinct (map row_id (sort_key by_occurrence ?rs))"
    by (auto simp: distinct_map)
  then show ?thesis by (simp add: claim_step_eq m del: map_map)
qed

lemma leased_row_of:
  "keyed row_id t \<Longrightarrow>
     (\<exists>r \<in> set t. leased (k, a) r) \<longleftrightarrow> (\<exists>r. row_of row_id k t = Some r \<and> attempts r = a \<and> dispatched_at r = None)"
  by (auto simp: leased_def leased_by_def row_of_keyed dest: row_of_Some)

interpretation oq: leased_queue outbox_attempt outbox_open "keyed row_id" claim_step settle_step
    "\<lambda>c. snd c = Released"
proof (unfold_locales, goal_cases)
  case (1 t w)
  then show ?case by (cases w) (simp add: claim_step_eq keyed_claim_query)
next
  case (2 t w)
  then show ?case by (cases w) (simp only: claim_step_distinct)
next
  case (3 t k a w)
  obtain now locked q where w: "w = (now, locked, q)" by (cases w)
  obtain r where "row_of row_id k t = Some r" "attempts r = a - 1" "claimable now locked q r"
    "row_of row_id k (fst (claim_step w t)) = Some (claimed_set now (cl_lease q) r)"
    using claim_step_granted [OF 3(1)] 3(2) unfolding w by blast
  moreover have "dispatched_at (claimed_set now (cl_lease q) r) = dispatched_at r" by (simp add: claimed_set_def)
  ultimately show ?case by (simp add: outbox_attempt_def outbox_open_def claimable_def)
next
  case (4 t k w)
  then show ?case by (cases w) (simp add: outbox_attempt_def claim_step_others)
next
  case (5 t c l)
  then show ?case by (cases c) (simp add: settle_step_eq keyed_sql_update)
next
  case (6 t c k a)
  then show ?case
    by (cases c) (auto simp: settle_step_eq leased_row_of outbox_attempt_def outbox_open_def)
next
  case (7 t c l)
  then show ?case by (cases c) (auto simp: settle_step_eq intro!: sql_update_id)
next
  case (8 t c k a)
  obtain now s where c: "c = (now, s)" by (cases c)
  obtain r where r: "row_of row_id k t = Some r" "attempts r = a" "dispatched_at r = None"
    using 8 leased_row_of [OF 8(1)] by (auto simp: c settle_step_eq)
  then have "leased (k, a) r" by (auto simp: leased_def leased_by_def dest: row_of_Some)
  with r show ?case by (simp add: c settle_step_eq outbox_attempt_def row_of_sql_update)
next
  case (9 t k' l c)
  then show ?case
    by (cases c; cases "row_of row_id k' t")
       (auto simp: settle_step_eq outbox_attempt_def row_of_sql_update leased_def leased_by_def
          dest: row_of_Some)
qed

end
