(* ===== verification/Sweep.thy ===== *)
theory Sweep
  imports Prelude "HOL-Library.AList"
begin

text \<open>
  The retention sweeps of \<open>apps/api/src/shared/internal-routes\<close>: \<open>sweep-runner.ts\<close> (batches under a
  budget), \<open>sweep-purge.ts\<close> and \<open>sweep-route.ts\<close> (one batched delete of a table), \<open>sweep-lock.ts\<close>
  (a lease per label), \<open>sweep-result.ts\<close>, \<open>sweep-heartbeat.ts\<close> and \<open>sweep-cadence.ts\<close> (what is reported).

  \<open>clock i\<close> is what the clock reads before the \<open>i\<close>-th batch; \<open>'s\<close> is the state a batch changes.
\<close>

section \<open>Batches\<close>

definition MAX_BATCHES :: nat where "MAX_BATCHES = 1000"
definition DEFAULT_SWEEP_DEADLINE_MS :: int where "DEFAULT_SWEEP_DEADLINE_MS = 90000"

datatype stop_reason = Exhausted | BudgetSpent | BatchCap | BatchError
datatype error_decision = BreakOff | Rethrow

record sweep_run_result =
  sr_deleted :: nat
  sr_batches :: nat
  sr_reason :: stop_reason

type_synonym 's purge = "nat \<Rightarrow> 's \<Rightarrow> ('s \<times> nat) throws"

text \<open>The while loop, with as many turns left as there are batches before the cap.\<close>

fun sweep_loop ::
  "'s purge \<Rightarrow> (string \<Rightarrow> error_decision) option \<Rightarrow> int option \<Rightarrow> (nat \<Rightarrow> int) \<Rightarrow> nat \<Rightarrow> nat \<Rightarrow> 's \<Rightarrow> sweep_run_result \<Rightarrow>
   's \<times> sweep_run_result throws" where
  "sweep_loop purge on_error deadline clock amount 0 s acc = (s, Inr acc)"
| "sweep_loop purge on_error deadline clock amount (Suc left) s acc =
     (if (case deadline of None \<Rightarrow> False | Some d \<Rightarrow> d \<le> clock (sr_batches acc)) then (s, Inr (acc\<lparr>sr_reason := BudgetSpent\<rparr>))
      else case purge amount s of
        Inl e \<Rightarrow>
          (case (case on_error of None \<Rightarrow> Rethrow | Some f \<Rightarrow> f e) of
             Rethrow \<Rightarrow> (s, Inl e)
           | BreakOff \<Rightarrow> (s, Inr (acc\<lparr>sr_reason := BatchError\<rparr>)))
      | Inr (s', n) \<Rightarrow>
          (let acc' = acc\<lparr>sr_deleted := sr_deleted acc + n, sr_batches := Suc (sr_batches acc)\<rparr>
           in if n = 0 then (s', Inr acc') else sweep_loop purge on_error deadline clock amount left s' acc'))"

definition run_batched_sweep ::
  "'s purge \<Rightarrow> nat throws \<Rightarrow> bool \<Rightarrow> (string \<Rightarrow> error_decision) option \<Rightarrow> int option \<Rightarrow> (nat \<Rightarrow> int) \<Rightarrow> nat \<Rightarrow> 's \<Rightarrow>
   's \<times> sweep_run_result throws" where
  "run_batched_sweep purge eligible dry_run on_error deadline clock amount s =
     (if dry_run
      then (s, case eligible of Inl e \<Rightarrow> Inl e | Inr n \<Rightarrow> Inr \<lparr>sr_deleted = n, sr_batches = 0, sr_reason = Exhausted\<rparr>)
      else case sweep_loop purge on_error deadline clock amount MAX_BATCHES s \<lparr>sr_deleted = 0, sr_batches = 0, sr_reason = Exhausted\<rparr> of
        (s', Inl e) \<Rightarrow> (s', Inl e)
      | (s', Inr acc) \<Rightarrow>
          (s', Inr (if sr_reason acc = Exhausted \<and> MAX_BATCHES \<le> sr_batches acc then acc\<lparr>sr_reason := BatchCap\<rparr> else acc)))"

section \<open>One batch of a table\<close>

text \<open>
  \<open>purgeBatchWithTimeout\<close> over \<open>lockedBatch\<close>: a missing predicate is refused; \<open>locked\<close> rows are
  skipped; \<open>db_error\<close> is what the driver raises, a timeout or a reference that forbids the delete.
\<close>

definition locked_batch :: "('r \<Rightarrow> 'k) \<Rightarrow> ('r \<Rightarrow> bool) \<Rightarrow> ('r \<Rightarrow> 'o :: linorder) \<Rightarrow> nat \<Rightarrow> 'k list \<Rightarrow> 'r list \<Rightarrow> 'r list" where
  "locked_batch key eligible order amount locked t = sql_select (\<lambda>r. eligible r \<and> key r \<notin> set locked) order amount t"

definition purge_batch_with_timeout ::
  "('r \<Rightarrow> 'k) \<Rightarrow> ('r \<Rightarrow> bool) option \<Rightarrow> ('r \<Rightarrow> 'o :: linorder) \<Rightarrow> string option \<Rightarrow> 'k list \<Rightarrow> nat \<Rightarrow> 'r list \<Rightarrow> ('r list \<times> nat) throws" where
  "purge_batch_with_timeout key filt order db_error locked amount t =
     (case filt of
        None \<Rightarrow> Inl ''purgeBatchWithTimeout: refusing an unfiltered delete''
      | Some eligible \<Rightarrow>
          (case db_error of
             Some e \<Rightarrow> Inl e
           | None \<Rightarrow>
               (let ids = map key (locked_batch key eligible order amount locked t)
                in Inr (sql_delete (\<lambda>r. key r \<in> set ids) t, length (filter (\<lambda>r. key r \<in> set ids) t)))))"

definition require_filter :: "'f option \<Rightarrow> string \<Rightarrow> 'f throws" where
  "require_filter f label = (case f of
     None \<Rightarrow> Inl (label @ '': refusing a sweep filter that resolved to no predicate'') | Some g \<Rightarrow> Inr g)"

definition count_eligible :: "string option \<Rightarrow> ('r \<Rightarrow> bool) option \<Rightarrow> 'r list \<Rightarrow> nat throws" where
  "count_eligible db_error filt t = (case db_error of
     Some e \<Rightarrow> Inl e | None \<Rightarrow> Inr (length (case filt of None \<Rightarrow> t | Some p \<Rightarrow> filter p t)))"

section \<open>A run over several passes\<close>

record 's retention_pass =
  rp_label :: string
  rp_days :: int
  rp_purge :: "instant \<Rightarrow> 's purge"
  rp_count :: "instant \<Rightarrow> 's \<Rightarrow> nat throws"
  rp_on_error :: "(string \<Rightarrow> error_decision) option"
  rp_clock :: "nat \<Rightarrow> int"

record sweep_response =
  sp_deleted :: nat
  sp_dry_run :: bool
  sp_batches :: nat
  sp_per_pass :: "(string \<times> nat) list"
  sp_reasons :: "(string \<times> stop_reason) list"
  sp_truncated :: bool
  sp_skipped :: bool

definition run_pass :: "instant \<Rightarrow> int \<Rightarrow> bool \<Rightarrow> nat \<Rightarrow> 's retention_pass \<Rightarrow> 's \<Rightarrow> 's \<times> sweep_run_result throws" where
  "run_pass start deadline dry_run amount p s =
     (let cutoff = start - rp_days p * 24 * 60 * 60 * 1000
      in run_batched_sweep (rp_purge p cutoff) (rp_count p cutoff s) dry_run (rp_on_error p) (Some deadline) (rp_clock p) amount s)"

fun run_passes ::
  "instant \<Rightarrow> int \<Rightarrow> bool \<Rightarrow> nat \<Rightarrow> 's retention_pass list \<Rightarrow> 's \<Rightarrow> sweep_response \<Rightarrow> 's \<times> sweep_response throws" where
  "run_passes start deadline dry_run amount [] s acc = (s, Inr acc)"
| "run_passes start deadline dry_run amount (p # ps) s acc =
     (case run_pass start deadline dry_run amount p s of
        (s', Inl e) \<Rightarrow> (s', Inl e)
      | (s', Inr r) \<Rightarrow>
          run_passes start deadline dry_run amount ps s'
            (acc\<lparr>sp_deleted := sp_deleted acc + sr_deleted r, sp_batches := sp_batches acc + sr_batches r,
              sp_per_pass := AList.update (rp_label p) (sr_deleted r) (sp_per_pass acc),
              sp_reasons := AList.update (rp_label p) (sr_reason r) (sp_reasons acc)\<rparr>))"

text \<open>\<open>acquired\<close> is what taking the lease said; the release decides nothing.\<close>

definition run_retention_sweep ::
  "instant \<Rightarrow> int option \<Rightarrow> bool option \<Rightarrow> nat option \<Rightarrow> bool throws \<Rightarrow> 's retention_pass list \<Rightarrow> 's \<Rightarrow> 's \<times> sweep_response throws" where
  "run_retention_sweep start deadline_ms dry batch acquired passes s =
     (let dry_run = (case dry of None \<Rightarrow> False | Some b \<Rightarrow> b);
          amount = (case batch of None \<Rightarrow> 5000 | Some n \<Rightarrow> n);
          nothing = \<lparr>sp_deleted = 0, sp_dry_run = dry_run, sp_batches = 0, sp_per_pass = [], sp_reasons = [],
                     sp_truncated = False, sp_skipped = False\<rparr>
      in case acquired of
           Inl e \<Rightarrow> (s, Inl e)
         | Inr False \<Rightarrow> (s, Inr (nothing\<lparr>sp_skipped := True\<rparr>))
         | Inr True \<Rightarrow>
             (case run_passes start (start + (case deadline_ms of None \<Rightarrow> DEFAULT_SWEEP_DEADLINE_MS | Some d \<Rightarrow> d)) dry_run amount passes s nothing of
                (s', Inl e) \<Rightarrow> (s', Inl e)
              | (s', Inr r) \<Rightarrow>
                  (s', Inr (r\<lparr>sp_truncated := list_ex (\<lambda>(l, why). why = BudgetSpent \<or> why = BatchCap) (sp_reasons r)\<rparr>))))"

section \<open>Reports\<close>

datatype classification = SkippedRun | BatchErrors "string list" | TruncatedRun | OkRun

definition classify_sweep_result :: "sweep_response \<Rightarrow> nat \<Rightarrow> classification" where
  "classify_sweep_result r failed =
     (if sp_skipped r then SkippedRun
      else let errored = map fst (filter (\<lambda>(l, why). why = BatchError) (sp_reasons r))
           in if errored \<noteq> [] then BatchErrors errored
              else if 0 < failed then BatchErrors []
              else if sp_truncated r then TruncatedRun else OkRun)"

datatype sweep_outcome = OutcomeOk | OutcomeTruncated | OutcomeBatchError | OutcomeFailed

definition beat_of_sweep :: "sweep_response \<Rightarrow> (sweep_outcome \<times> nat) option" where
  "beat_of_sweep r =
     (if sp_dry_run r then None
      else case classify_sweep_result r 0 of
        SkippedRun \<Rightarrow> None
      | BatchErrors _ \<Rightarrow> Some (OutcomeBatchError, sp_deleted r)
      | TruncatedRun \<Rightarrow> Some (OutcomeTruncated, sp_deleted r)
      | OkRun \<Rightarrow> Some (OutcomeOk, sp_deleted r))"

record sweep_run_row =
  sw_label :: string
  sw_started :: instant
  sw_finished :: instant
  sw_outcome :: sweep_outcome
  sw_duration :: int
  sw_count :: nat

text \<open>The row a heartbeat upserts; \<open>store_error\<close> is swallowed, whatever it is.\<close>

definition record_run :: "bool \<Rightarrow> sweep_run_row \<Rightarrow> sweep_run_row list \<Rightarrow> sweep_run_row list" where
  "record_run store_error r t =
     (if store_error then t
      else if sw_label r \<in> sw_label ` set t then sql_update (\<lambda>x. sw_label x = sw_label r) (\<lambda>_. r) t
      else t @ [r])"

definition with_sweep_heartbeat ::
  "string \<Rightarrow> bool \<Rightarrow> bool \<Rightarrow> instant \<Rightarrow> instant \<Rightarrow> ('t \<Rightarrow> (sweep_outcome \<times> nat) option) \<Rightarrow> 't throws \<Rightarrow> sweep_run_row list \<Rightarrow>
   sweep_run_row list \<times> 't throws" where
  "with_sweep_heartbeat label dry_run store_error started finished beat_of response t =
     (let beat = (\<lambda>outcome n. record_run store_error \<lparr>sw_label = label, sw_started = started, sw_finished = finished,
                    sw_outcome = outcome, sw_duration = finished - started, sw_count = n\<rparr> t)
      in case response of
           Inl e \<Rightarrow> (if dry_run then t else beat OutcomeFailed 0, Inl e)
         | Inr r \<Rightarrow> (case beat_of r of None \<Rightarrow> t | Some (outcome, n) \<Rightarrow> beat outcome n, Inr r))"

definition DAILY_LATE_AFTER_MS :: int where "DAILY_LATE_AFTER_MS = 26 * 3600000"

definition is_sweep_late :: "string \<Rightarrow> instant \<Rightarrow> instant \<Rightarrow> bool" where
  "is_sweep_late label finished now \<longleftrightarrow>
     (if label = ''flush-notification-emails'' then 15 * 60000 else DAILY_LATE_AFTER_MS) < now - finished"

section \<open>The lease of a label\<close>

record sweep_lock_row =
  lk_label :: string
  lk_owner :: ident
  lk_at :: instant
  lk_until :: instant

text \<open>
  \<open>date\<close> is the process's clock, which writes \<open>lockedUntil\<close>; \<open>now\<close> is the database's, which compares it.
\<close>

definition acquire_sweep_lease ::
  "instant \<Rightarrow> instant \<Rightarrow> ident \<Rightarrow> string \<Rightarrow> int \<Rightarrow> sweep_lock_row list \<Rightarrow> sweep_lock_row list \<times> ident option" where
  "acquire_sweep_lease now date owner label ttl t =
     (let row = \<lparr>lk_label = label, lk_owner = owner, lk_at = date, lk_until = date + ttl\<rparr>
      in if label \<notin> lk_label ` set t then (t @ [row], Some owner)
         else if list_ex (\<lambda>r. lk_label r = label \<and> lk_until r < now) t
         then (sql_update (\<lambda>r. lk_label r = label \<and> lk_until r < now) (\<lambda>_. row) t, Some owner)
         else (t, None))"

definition release_sweep_lease :: "string \<Rightarrow> ident \<Rightarrow> sweep_lock_row list \<Rightarrow> sweep_lock_row list" where
  "release_sweep_lease label owner t = sql_delete (\<lambda>r. lk_label r = label \<and> lk_owner r = owner) t"

text \<open>What \<open>sweepLockFor\<close> keeps of a label: the token of the lease it holds; the TTL is twice the budget.\<close>

definition lock_acquire ::
  "instant \<Rightarrow> instant \<Rightarrow> ident \<Rightarrow> string \<Rightarrow> int \<Rightarrow> sweep_lock_row list \<Rightarrow> ident option \<times> sweep_lock_row list \<times> bool" where
  "lock_acquire now date fresh label deadline_ms t =
     (case acquire_sweep_lease now date fresh label (deadline_ms * 2) t of (t', owner) \<Rightarrow> (owner, t', owner \<noteq> None))"

definition lock_release :: "string \<Rightarrow> ident option \<Rightarrow> sweep_lock_row list \<Rightarrow> ident option \<times> sweep_lock_row list" where
  "lock_release label owner t = (case owner of None \<Rightarrow> (None, t) | Some i \<Rightarrow> (None, release_sweep_lease label i t))"

end
