(* ===== verification/Outbox_Protocol.thy ===== *)
theory Outbox_Protocol
  imports Outbox_Lease Sweep
begin

text \<open>
  The outbox under concurrency. A configuration is the table and the list of outstanding leases,
  those whose holder has neither settled nor died. A step is one statement of one process:
  a claim, a settlement by a holder, an enqueue, a requeue by staff, or the loss of holders.
  No step is atomic with another, and holders may be arbitrarily late. The retention sweep, which
  deletes rows days after their dispatch, is added by \<open>outbox_life\<close> below.
\<close>

section \<open>Steps\<close>

type_synonym outbox_conf = "outbox_row list \<times> lease_key list"

inductive outbox_step :: "outbox_conf \<Rightarrow> outbox_conf \<Rightarrow> bool" where
  claims: "claim_step w t = (t', granted) \<Longrightarrow> outbox_step (t, out) (t', granted @ out)"
| settles: "l \<in> set out \<Longrightarrow> settle_step c l t = (t', wrote) \<Longrightarrow> outbox_step (t, out) (t', removeAll l out)"
| enqueues: "enqueue None schema rid fresh events scope \<lparr>outbox_rows = t, notified = n\<rparr> = Inr db \<Longrightarrow>
     outbox_step (t, out) (outbox_rows db, out)"
| requeues: "requeue_dead None now clock ids secs t = (t', res) \<Longrightarrow> outbox_step (t, out) (t', out)"
| crashes: "outbox_step (t, out) (t, filter survives out)"

inductive_cases outbox_stepE: "outbox_step (t, out) (t', out')"

definition outbox_reach :: "outbox_conf \<Rightarrow> bool" where
  "outbox_reach conf \<longleftrightarrow> (\<exists>t. keyed row_id t \<and> outbox_step\<^sup>*\<^sup>* (t, []) conf)"

definition outbox_inv :: "outbox_conf \<Rightarrow> bool" where
  "outbox_inv conf \<longleftrightarrow> (case conf of (t, out) \<Rightarrow>
     keyed row_id t \<and> lease_inv outbox_attempt t out \<and> fst ` set out \<subseteq> row_id ` set t)"

lemma outbox_attempt_insert:
  assumes "k \<in> row_id ` set t" "keyed row_id t"
  shows "outbox_attempt (sql_insert_ignore row_id rs t) k = outbox_attempt t k"
proof -
  obtain r where r: "r \<in> set t" "row_id r = k" using assms by auto
  then have "row_of row_id k t = Some r" using row_of_keyed [OF assms(2)] by blast
  moreover have "row_of row_id k (sql_insert_ignore row_id rs t) = Some r"
    using row_of_keyed [OF keyed_insert_ignore [OF assms(2)]] r set_insert_ignore_mono [of t row_id rs]
    by blast
  ultimately show ?thesis by (simp add: outbox_attempt_def)
qed

lemma enqueue_rows:
  assumes "enqueue e schema rid fresh events scope db = Inr db'"
  shows "\<exists>rs. outbox_rows db' = sql_insert_ignore row_id rs (outbox_rows db)"
proof (cases "events = []")
  case True
  then show ?thesis using assms by (auto simp: enqueue_def intro!: exI [of _ "[]"])
next
  case False
  then show ?thesis using assms by (auto simp: enqueue_def Let_def split: option.splits)
qed

lemma requeue_attempts:
  "requeue_dead e now clock ids secs t = (t', res) \<Longrightarrow> outbox_attempt t' k = outbox_attempt t k"
  by (cases "row_of row_id k t")
     (auto simp: requeue_dead_def Let_def outbox_attempt_def row_of_sql_update split: option.splits)

lemma requeue_ids:
  "requeue_dead e now clock ids secs t = (t', res) \<Longrightarrow> map row_id t' = map row_id t"
  by (auto simp: requeue_dead_def Let_def keys_sql_update split: option.splits)

lemma claim_step_ids: "map row_id (fst (claim_step w t)) = map row_id t"
  by (cases w) (simp add: claim_step_eq claim_query_def Let_def keys_sql_update)

lemma settle_step_ids: "map row_id (fst (settle_step c l t)) = map row_id t"
  by (cases c) (simp add: settle_step_eq keys_sql_update)

lemma claim_step_known: "keyed row_id t \<Longrightarrow> fst ` set (snd (claim_step w t)) \<subseteq> row_id ` set t"
  by (cases w) (force elim: claim_step_granted dest: row_of_Some)

lemma same_ids: "map row_id t' = map row_id t \<Longrightarrow> row_id ` set t' = row_id ` set t"
  by (metis set_map)

lemma outbox_step_inv:
  assumes "outbox_step conf conf'" and "outbox_inv conf"
  shows "outbox_inv conf'"
  using assms
proof (induction rule: outbox_step.induct)
  case (claims w t t' granted out)
  have wf: "keyed row_id t" using claims.prems by (simp add: outbox_inv_def)
  have eq: "t' = fst (claim_step w t)" "granted = snd (claim_step w t)" using claims.hyps by simp_all
  have "lease_inv outbox_attempt t' (granted @ out)"
    using oq.claim_keeps_inv [OF wf] claims.prems by (simp add: outbox_inv_def eq)
  moreover have "keyed row_id t'" using oq.claim_wf [OF wf] eq by simp
  moreover have "fst ` set (granted @ out) \<subseteq> row_id ` set t'"
    using claims.prems claim_step_known [OF wf, of w] same_ids [OF claim_step_ids [of w t]] eq
    by (auto simp: outbox_inv_def)
  ultimately show ?case by (simp add: outbox_inv_def)
next
  case (settles l out c t t' wrote)
  have wf: "keyed row_id t" using settles.prems by (simp add: outbox_inv_def)
  have eq: "t' = fst (settle_step c l t)" using settles.hyps by simp
  have "lease_inv outbox_attempt t' (removeAll l out)"
    using oq.settle_keeps_inv [OF wf _ settles.hyps(1)] settles.prems by (simp add: outbox_inv_def eq)
  moreover have "keyed row_id t'" using oq.settle_wf [OF wf] eq by simp
  moreover have "row_id ` set t' = row_id ` set t" using same_ids [OF settle_step_ids] eq by simp
  ultimately show ?case using settles.prems by (auto simp: outbox_inv_def)
next
  case (enqueues schema rid fresh events scope t n db out)
  obtain rs where rs: "outbox_rows db = sql_insert_ignore row_id rs t"
    using enqueue_rows [OF enqueues.hyps] by auto
  have wf: "keyed row_id t" and out: "fst ` set out \<subseteq> row_id ` set t"
    using enqueues.prems by (simp_all add: outbox_inv_def)
  have "lease_inv outbox_attempt (outbox_rows db) out"
    unfolding lease_inv_def
  proof (intro conjI ballI)
    show "distinct out" using enqueues.prems by (simp add: outbox_inv_def lease_inv_def)
    fix l assume l: "l \<in> set out"
    then have "fst l \<in> row_id ` set t" using out by blast
    then have "outbox_attempt (outbox_rows db) (fst l) = outbox_attempt t (fst l)"
      unfolding rs using wf by (rule outbox_attempt_insert)
    then show "case l of (k, a) \<Rightarrow> \<forall>n. outbox_attempt (outbox_rows db) k = Some n \<longrightarrow> a \<le> n"
      using enqueues.prems l by (cases l) (auto simp: outbox_inv_def lease_inv_def)
  qed
  then show ?case
    using wf out by (auto simp: outbox_inv_def rs keyed_insert_ignore keys_insert_ignore)
next
  case (requeues now clock ids secs t t' res out)
  have "t' = fst (requeue_dead None now clock ids secs t)" using requeues.hyps by simp
  then have "keyed row_id t'"
    using requeues.prems by (simp only: keyed_requeue_dead) (simp add: outbox_inv_def)
  then show ?case
    using requeues.prems requeue_attempts [OF requeues.hyps] same_ids [OF requeue_ids [OF requeues.hyps]]
    by (simp add: outbox_inv_def lease_inv_def)
next
  case (crashes t out survives)
  then show ?case using oq.drop_keeps_inv by (auto simp: outbox_inv_def)
qed

lemma outbox_reach_inv: "outbox_reach conf \<Longrightarrow> outbox_inv conf"
proof -
  assume "outbox_reach conf"
  then obtain t where t: "keyed row_id t" "outbox_step\<^sup>*\<^sup>* (t, []) conf" by (auto simp: outbox_reach_def)
  have "outbox_inv (t, [])" using t by (simp add: outbox_inv_def lease_inv_def)
  with t(2) show "outbox_inv conf" by (induction rule: rtranclp_induct) (simp_all add: outbox_step_inv)
qed

section \<open>A concrete outbox\<close>

definition example_event :: "ident \<Rightarrow> outbox_row" where
  "example_event i = domain_event_to_outbox_row i None
     \<lparr>ev_id = None, ev_type = ''user.created'', ev_date = 5, ev_aggregate = ''u1'', ev_payload = JNull\<rparr>
     \<lparr>sc_source = ''api'', sc_organization = None, sc_aggregate_type = None, sc_traceparent = None\<rparr>"

definition example_request :: claim_request where
  "example_request = \<lparr>cl_limit = 8, cl_types = [''user.created''], cl_lease = 60\<rparr>"

abbreviation example_claimed :: "instant \<Rightarrow> outbox_row \<Rightarrow> outbox_row" where
  "example_claimed now \<equiv> claimed_set now 60"

lemmas example_simps = example_event_def example_request_def domain_event_to_outbox_row_def outbox_claim_def
  claim_step_def claim_query_def due_rows_def live_candidates_def dead_candidates_def sql_select_def
  live_row_def dead_row_def is_due_def is_dead_due_def sql_returning_def lease_of_def claimed_set_def
  seconds_from_now_def settle_step_def outbox_settle_def leased_def leased_by_def by_occurrence_def keyed_def

lemma example_claim:
  "claim_step (1000, [], example_request) [example_event ''e1''] =
     ([example_claimed 1000 (example_event ''e1'')], [(''e1'', 1)])"
  by (simp add: example_simps Let_def)

lemma example_reach: "outbox_reach ([example_claimed 1000 (example_event ''e1'')], [(''e1'', 1)])"
proof -
  have "outbox_step ([example_event ''e1''], []) ([example_claimed 1000 (example_event ''e1'')], [(''e1'', 1)] @ [])"
    using example_claim by (rule outbox_step.claims)
  then show ?thesis by (auto simp: outbox_reach_def keyed_def intro!: exI [of _ "[example_event ''e1'']"])
qed

section \<open>What no interleaving breaks\<close>

text \<open>
  C1: in every reachable configuration, however claims, settlements, enqueues, requeues and
  crashes interleaved, at most one of the leases out for a row can still write to it: of two
  processes that both believe they hold a row, one settlement is refused.
\<close>
theorem outbox_fencing:
  assumes "outbox_reach (t, out)"
  shows "distinct out \<and> card {l \<in> set out. fst l = k \<and> snd (settle_step c l t)} \<le> 1"
proof -
  have inv: "keyed row_id t" "lease_inv outbox_attempt t out"
    using outbox_reach_inv [OF assms] by (simp_all add: outbox_inv_def)
  have "x = y" if "x \<in> {l \<in> set out. fst l = k \<and> snd (settle_step c l t)}"
    "y \<in> {l \<in> set out. fst l = k \<and> snd (settle_step c l t)}" for x y
    using that oq.one_effective [OF inv, of k "snd x" "snd y" c c] by (cases x; cases y) auto
  then have "card {l \<in> set out. fst l = k \<and> snd (settle_step c l t)} \<le> 1"
    by (auto simp: card_le_Suc0_iff_eq)
  then show ?thesis using inv by (simp add: lease_inv_def)
qed

theorem outbox_fencing_witness:
  "card {l \<in> set [(''e1'', 1)]. fst l = ''e1''
     \<and> snd (settle_step (2000, Released) l [example_claimed 1000 (example_event ''e1'')])} \<le> 1"
  using outbox_fencing [OF example_reach, of "''e1''" "(2000, Released)"] by simp

text \<open>
  When a row whose lease ran out is claimed again, the settlement of every older holder of
  it leaves the table as it is and reports that it wrote nothing.
\<close>
theorem outbox_late_settle_fenced:
  assumes "outbox_reach (t, out)" and "(k, a) \<in> set out"
    and "k \<in> fst ` set (snd (claim_step w t))"
  shows "settle_step c (k, a) (fst (claim_step w t)) = (fst (claim_step w t), False)"
  using outbox_reach_inv [OF assms(1)] oq.stale_settle_writes_nothing [OF _ _ assms(2,3)]
  by (simp add: outbox_inv_def)

theorem outbox_late_settle_fenced_witness:
  "settle_step (70000, Delivered [''audit'' \<mapsto> 70000]) (''e1'', 1)
       [example_claimed 61000 (example_claimed 1000 (example_event ''e1''))]
     = ([example_claimed 61000 (example_claimed 1000 (example_event ''e1''))], False)"
proof -
  have "claim_step (61000, [], example_request) [example_claimed 1000 (example_event ''e1'')]
      = ([example_claimed 61000 (example_claimed 1000 (example_event ''e1''))], [(''e1'', 2)])"
    by (simp add: example_simps Let_def)
  then show ?thesis
    using outbox_late_settle_fenced [OF example_reach, of "''e1''" 1 "(61000, [], example_request)"
        "(70000, Delivered [''audit'' \<mapsto> 70000])"] by (simp only: fst_conv snd_conv) simp
qed

lemma claim_keeps_dispatched:
  assumes "keyed row_id t" "r \<in> set t" "dispatched_at r \<noteq> None"
  shows "r \<in> set (fst (claim_step w t))"
proof -
  obtain now locked q where w: "w = (now, locked, q)" by (cases w)
  have "r \<notin> set (due_rows now locked q t)"
    using assms(3) set_due_rows [of now locked q t] by (auto simp: claimable_def)
  then show ?thesis using assms(2)
    by (auto simp: w claim_step_eq claim_query_rows(1) [OF assms(1)] set_sql_update image_iff
             intro!: bexI [of _ r])
qed

lemma keyed_step:
  assumes "outbox_step conf conf'" "keyed row_id (fst conf)"
  shows "keyed row_id (fst conf')"
  using assms
proof (induction rule: outbox_step.induct)
  case (claims w t t' granted out)
  then show ?case using oq.claim_wf [of t w] by simp
next
  case (settles l out c t t' wrote)
  then show ?case using oq.settle_wf [of t c l] by simp
next
  case (enqueues schema rid fresh events scope t n db out)
  then show ?case using enqueue_rows [OF enqueues.hyps] by (auto simp: keyed_insert_ignore)
next
  case (requeues now clock ids secs t t' res out)
  then show ?case using keyed_requeue_dead [of None now clock ids secs t] by simp
qed auto

lemma step_keeps_dispatched:
  assumes "outbox_step conf conf'" "keyed row_id (fst conf)" "r \<in> set (fst conf)" "dispatched_at r \<noteq> None"
  shows "keyed row_id (fst conf') \<and> r \<in> set (fst conf')"
  using assms
proof (induction rule: outbox_step.induct)
  case (claims w t t' granted out)
  then show ?case using claim_keeps_dispatched [of t r w] oq.claim_wf [of t w] by simp
next
  case (settles l out c t t' wrote)
  obtain now s where c: "c = (now, s)" by (cases c)
  have "t' = sql_update (leased l) (changes now s) t" using settles.hyps by (simp add: c settle_step_eq)
  then show ?case using settles.prems oq.settle_wf [of t c l] settles.hyps
    by (auto simp: set_sql_update leased_def image_iff intro!: bexI [of _ r])
next
  case (enqueues schema rid fresh events scope t n db out)
  obtain rs where rs: "outbox_rows db = sql_insert_ignore row_id rs t"
    using enqueue_rows [OF enqueues.hyps] by auto
  then show ?case using enqueues.prems set_insert_ignore_mono [of t row_id rs]
    by (auto simp: keyed_insert_ignore)
next
  case (requeues now clock ids secs t t' res out)
  have "r \<in> set t'" using requeues
    by (auto simp: requeue_dead_def Let_def set_sql_update dead_row_def image_iff intro!: bexI [of _ r])
  then show ?case using requeues keyed_requeue_dead [of None now clock ids secs t] by simp
qed auto

section \<open>The retention sweep\<close>

text \<open>
  \<open>buildPurgeFilter\<close> of \<open>sweep-outbox.route.ts\<close> and the batch it runs. The second part of a
  life lists what the sweeps deleted, with the cutoff of the sweep that did.
\<close>

definition build_purge_filter :: "instant \<Rightarrow> outbox_row \<Rightarrow> bool" where
  "build_purge_filter cutoff r = (case dispatched_at r of None \<Rightarrow> False | Some d \<Rightarrow> d < cutoff)"

definition dispatch_order :: "outbox_row \<Rightarrow> instant" where
  "dispatch_order r = (case dispatched_at r of None \<Rightarrow> 0 | Some d \<Rightarrow> d)"

definition outbox_purge :: "instant \<Rightarrow> string option \<Rightarrow> ident list \<Rightarrow> nat \<Rightarrow> outbox_row list \<Rightarrow> (outbox_row list \<times> nat) throws" where
  "outbox_purge cutoff = purge_batch_with_timeout row_id (Some (build_purge_filter cutoff)) dispatch_order"

inductive outbox_life :: "outbox_conf \<times> (instant \<times> outbox_row) list \<Rightarrow> outbox_conf \<times> (instant \<times> outbox_row) list \<Rightarrow> bool" where
  statement: "outbox_step conf conf' \<Longrightarrow> outbox_life (conf, swept) (conf', swept)"
| sweeps: "outbox_purge cutoff e locked amount t = Inr (t', n) \<Longrightarrow>
     outbox_life ((t, out), swept) ((t', out), map (Pair cutoff) (filter (\<lambda>r. r \<notin> set t') t) @ swept)"

lemma outbox_purge_rows:
  assumes "outbox_purge cutoff e locked amount t = Inr (t', n)"
  obtains rs where "t' = sql_delete (\<lambda>r. row_id r \<in> row_id ` set rs) t" "set rs \<subseteq> {r \<in> set t. build_purge_filter cutoff r}"
proof
  let ?rs = "locked_batch row_id (build_purge_filter cutoff) dispatch_order amount locked t"
  show "t' = sql_delete (\<lambda>r. row_id r \<in> row_id ` set ?rs) t"
    using assms by (auto simp: outbox_purge_def purge_batch_with_timeout_def Let_def split: option.splits)
  show "set ?rs \<subseteq> {r \<in> set t. build_purge_filter cutoff r}"
    by (auto simp: locked_batch_def dest: subsetD [OF set_sql_select])
qed

text \<open>Only delivered rows are deleted, each past its cutoff.\<close>

lemma outbox_purge_old:
  assumes "outbox_purge cutoff e locked amount t = Inr (t', n)" and "keyed row_id t" and "r \<in> set t" and "r \<notin> set t'"
  shows "\<exists>d. dispatched_at r = Some d \<and> d < cutoff"
proof -
  obtain rs where rs: "t' = sql_delete (\<lambda>r. row_id r \<in> row_id ` set rs) t" "set rs \<subseteq> {r \<in> set t. build_purge_filter cutoff r}"
    using outbox_purge_rows [OF assms(1)] .
  obtain s where "s \<in> set rs" "row_id s = row_id r" using rs(1) assms(3,4) by (auto simp: set_sql_delete)
  then have "build_purge_filter cutoff r" using rs(2) keyed_unique [OF assms(2) _ assms(3)] by blast
  then show ?thesis by (auto simp: build_purge_filter_def split: option.splits)
qed

lemma outbox_life_keeps:
  assumes "outbox_life\<^sup>*\<^sup>* ((t, out), []) c" and "keyed row_id t" and "r \<in> set t" and "dispatched_at r \<noteq> None"
  shows "keyed row_id (fst (fst c)) \<and> (r \<in> set (fst (fst c)) \<or> r \<in> snd ` set (snd c))
    \<and> (\<forall>(cutoff, s) \<in> set (snd c). \<exists>d. dispatched_at s = Some d \<and> d < cutoff)"
  using assms(1)
proof (induction rule: rtranclp_induct)
  case base
  then show ?case using assms(2,3) by simp
next
  case (step c d)
  from step.hyps(2) step.IH show ?case
  proof cases
    case (statement conf conf' swept)
    have "keyed row_id (fst conf')" using statement step.IH keyed_step [OF statement(3)] by simp
    moreover have "r \<in> set (fst conf) \<Longrightarrow> r \<in> set (fst conf')"
      using step_keeps_dispatched [OF statement(3) _ _ assms(4)] statement step.IH by simp
    ultimately show ?thesis using statement step.IH by auto
  next
    case (sweeps cutoff e locked amount t t' n out swept)
    have k: "keyed row_id t" using sweeps step.IH by simp
    have "keyed row_id t'" using outbox_purge_rows [OF sweeps(3)] k by (metis keyed_sql_delete)
    moreover have "r \<in> set t' \<or> r \<in> set (filter (\<lambda>r. r \<notin> set t') t) \<or> r \<in> snd ` set swept"
      using sweeps(1) step.IH by auto
    then have "r \<in> set t' \<or> r \<in> snd ` set (snd d)" by (auto simp: sweeps(2) image_Un image_image)
    moreover have "\<forall>(cutoff, s) \<in> set (snd d). \<exists>d. dispatched_at s = Some d \<and> d < cutoff"
      using sweeps(1,2) step.IH outbox_purge_old [OF sweeps(3) k] by auto
    ultimately show ?thesis by (simp add: sweeps(2))
  qed
qed

text \<open>
  C2: a delivered event is final. Whatever claims, settlements, enqueues, requeues, crashes and
  retention sweeps run afterwards, in whatever order, its row stays in the table with every column
  as it was, never claimed, settled or requeued again, until a retention sweep deletes it; and the
  sweeps delete only delivered rows, each one delivered before the cutoff of its sweep.
\<close>
theorem outbox_dispatched_final:
  assumes "outbox_life\<^sup>*\<^sup>* ((t, out), []) ((t', out'), swept)" and "keyed row_id t"
    and "r \<in> set t" and "dispatched_at r \<noteq> None"
  shows "(row_of row_id (row_id r) t' = Some r \<or> r \<in> snd ` set swept)
    \<and> (\<forall>(cutoff, s) \<in> set swept. \<exists>d. dispatched_at s = Some d \<and> d < cutoff)"
  using outbox_life_keeps [OF assms] row_of_keyed by fastforce

theorem outbox_dispatched_final_witness:
  "row_of row_id ''e1'' (fst (claim_step (1000, [], example_request) [(example_event ''e1'')\<lparr>dispatched_at := Some 9\<rparr>]))
     = Some ((example_event ''e1'')\<lparr>dispatched_at := Some 9\<rparr>)"
proof -
  let ?t = "[(example_event ''e1'')\<lparr>dispatched_at := Some 9\<rparr>]"
  let ?w = "(1000, [], example_request)"
  have "outbox_step (?t, []) (fst (claim_step ?w ?t), snd (claim_step ?w ?t) @ [])"
    by (rule outbox_step.claims) simp
  then have "outbox_life\<^sup>*\<^sup>* ((?t, []), []) ((fst (claim_step ?w ?t), snd (claim_step ?w ?t) @ []), [])"
    by (intro r_into_rtranclp outbox_life.statement)
  from outbox_dispatched_final [OF this, of "hd ?t"] show ?thesis
    by (simp add: keyed_def) (simp add: example_event_def domain_event_to_outbox_row_def)
qed

text \<open>The dead rows of a batch are those of the rows it was made of.\<close>

lemma dead_in_batch:
  assumes "keyed row_id t"
  shows "length (filter (\<lambda>r. dead_at r \<noteq> None) (snd (claim_query now locked q t))) \<le> dead_share_of (cl_limit q)"
proof -
  let ?D = "due_rows now locked q t" and ?dead = "\<lambda>r. dead_at r \<noteq> None"
  have "length (filter ?dead (snd (claim_query now locked q t))) = length (filter (\<lambda>r. r \<in> set ?D \<and> ?dead r) t)"
    by (simp add: claim_query_rows(2) [OF assms] sql_returning_def filter_map comp_def claimed_set_def)
  also have "\<dots> = card (set (filter (\<lambda>r. r \<in> set ?D \<and> ?dead r) t))"
    using keyed_distinct [OF assms] by (intro distinct_card [symmetric]) simp
  also have "\<dots> \<le> card (set (filter ?dead ?D))" by (rule card_mono) auto
  also have "\<dots> \<le> length (filter ?dead ?D)" by (rule card_length)
  also have "\<dots> \<le> dead_share_of (cl_limit q)" by (rule due_dead_share [OF keyed_distinct [OF assms]])
  finally show ?thesis .
qed

lemma length_filter_sort_key: "length (filter p (sort_key f xs)) = length (filter p xs)"
  by (metis length_sort filter_sort)

text \<open>
  C6: a claim returns at most as many rows as it asked for, each unlocked, of a wanted type, not
  dispatched and due (a dead one only when its retry time has come), each with its attempt
  counted and its next attempt moved to the end of the lease; at most a quarter of the limit, rounded up, is
  spent on dead rows, however many are due, so a backlog of them cannot crowd out live events.
\<close>
theorem outbox_claim_sound:
  assumes "keyed row_id t"
    and "outbox_claim None now locked q t = (t', Inr rs)"
  shows "length rs \<le> cl_limit q
    \<and> length (filter (\<lambda>r. dead_at r \<noteq> None) rs) \<le> dead_share_of (cl_limit q)
    \<and> (\<forall>s \<in> set rs. \<exists>r \<in> set t. claimable now locked q r \<and> s = claimed_set now (cl_lease q) r)
    \<and> set rs \<subseteq> set t'"
proof (cases "cl_types q = []")
  case True
  then show ?thesis using assms by (auto simp: outbox_claim_def)
next
  case False
  have rs: "t' = fst (claim_query now locked q t)"
      "rs = sort_key by_occurrence (snd (claim_query now locked q t))"
    using assms(2) False by (auto simp: outbox_claim_def)
  have "set rs \<subseteq> set t'"
    by (auto simp: rs claim_query_rows [OF assms(1)] set_sql_returning set_sql_update image_iff)
  moreover have "\<forall>s \<in> set rs. \<exists>r \<in> set t. claimable now locked q r \<and> s = claimed_set now (cl_lease q) r"
    by (auto simp: rs elim!: claim_returns [OF assms(1)])
  ultimately show ?thesis
    using dead_in_batch [OF assms(1)] length_claim_query [OF assms(1)] by (simp add: rs length_filter_sort_key)
qed

theorem outbox_claim_sound_witness:
  "length [example_claimed 1000 (example_event ''e1'')] \<le> 8
   \<and> claimable 1000 [] example_request (example_event ''e1'')"
  using outbox_claim_sound [of "[example_event ''e1'']" 1000 "[]" example_request
      "[example_claimed 1000 (example_event ''e1'')]" "[example_claimed 1000 (example_event ''e1'')]"]
  by (simp add: example_simps Let_def)

text \<open>
  Writing events is idempotent in their ids: enqueuing again events that carry an id (the
  derived ids of handlers, a retried request) after a first success leaves every row as it was.
\<close>
theorem outbox_enqueue_idempotent:
  assumes "\<forall>e \<in> set events. ev_id e \<noteq> None"
    and "enqueue None schema rid fresh events scope db = Inr db1"
    and "enqueue None schema rid' fresh' events scope db1 = Inr db2"
  shows "outbox_rows db2 = outbox_rows db1"
proof (cases "events = []")
  case False
  let ?rows = "\<lambda>rid fresh. map (\<lambda>(i, e). domain_event_to_outbox_row (fresh i) rid e scope) (enumerate 0 events)"
  have ids: "row_id ` set (?rows rid fresh) = (\<lambda>e. the (ev_id e)) ` set events" for rid fresh
  proof -
    have "map row_id (?rows rid fresh) = map (\<lambda>e. the (ev_id e)) events"
    proof (rule nth_equalityI)
      fix i assume "i < length (map row_id (?rows rid fresh))"
      then have i: "i < length events" by simp
      then obtain k where "ev_id (events ! i) = Some k" using assms(1) nth_mem by blast
      then show "map row_id (?rows rid fresh) ! i = map (\<lambda>e. the (ev_id e)) events ! i"
        using i by (simp add: nth_enumerate_eq domain_event_to_outbox_row_def)
    qed simp
    then show ?thesis by (metis set_map)
  qed
  have one: "outbox_rows db1 = sql_insert_ignore row_id (?rows rid fresh) (outbox_rows db)"
    using assms(2) False by (auto simp: enqueue_def Let_def split: option.splits)
  have two: "outbox_rows db2 = sql_insert_ignore row_id (?rows rid' fresh') (outbox_rows db1)"
    using assms(3) False by (auto simp: enqueue_def Let_def split: option.splits)
  have "row_id ` set (?rows rid' fresh') \<subseteq> row_id ` set (outbox_rows db1)"
    unfolding one keys_insert_ignore ids by blast
  then show ?thesis unfolding two by (rule insert_ignore_id)
qed (use assms in \<open>simp add: enqueue_def\<close>)

theorem outbox_enqueue_idempotent_witness:
  "outbox_rows \<lparr>outbox_rows = [example_event ''e1''], notified = 2\<rparr>
   = outbox_rows \<lparr>outbox_rows = [example_event ''e1''], notified = 1\<rparr>"
  by (rule outbox_enqueue_idempotent [of
        "[\<lparr>ev_id = Some ''e1'', ev_type = ''user.created'', ev_date = 5, ev_aggregate = ''u1'', ev_payload = JNull\<rparr>]"
        "\<lambda>_. Some (\<lambda>_. None)" None "\<lambda>_. ''x''"
        "\<lparr>sc_source = ''api'', sc_organization = None, sc_aggregate_type = None, sc_traceparent = None\<rparr>"
        "\<lparr>outbox_rows = [], notified = 0\<rparr>" _ None "\<lambda>_. ''y''"])
     (simp_all add: enqueue_def assert_payload_valid_def domain_event_to_outbox_row_def example_event_def)

section \<open>When the next row is due\<close>

lemma min_of_le: "x \<in> set xs \<Longrightarrow> \<exists>m. min_of xs = Some m \<and> m \<le> x"
proof (cases xs)
  case (Cons y ys)
  assume x: "x \<in> set xs"
  have "fold min zs z = Min (insert z (set zs))" for z :: int and zs
    by (metis List.finite_set Min.set_eq_fold list.simps(15))
  then show ?thesis using x Cons by (auto simp: min_of_def intro!: Min_le)
qed simp

text \<open>
  The wait \<open>pendingState\<close> reports never oversleeps a row: it is at most the time left until
  any undelivered row of the wanted types may be claimed, and zero when one is due already.
\<close>
theorem pending_state_never_oversleeps:
  assumes "pending_state_of None clock types t = Inr st"
    and "r \<in> set t" and "event_type r \<in> set types" and "dispatched_at r = None"
    and "next_attempt_at r = Some n \<or> (next_attempt_at r = None \<and> dead_at r = None \<and> n = clock)"
  shows "\<exists>d. due_in_ms st = Some d \<and> 0 \<le> d \<and> d \<le> max 0 (n - clock)"
proof -
  have ne: "types \<noteq> []" using assms(3) by auto
  have r: "r \<in> set (pending_rows types t)"
    using assms(2-4) by (auto simp: pending_rows_def live_row_def dead_row_def)
  let ?live = "map (\<lambda>r. case next_attempt_at r of None \<Rightarrow> clock | Some n \<Rightarrow> n)
    (filter (\<lambda>r. dead_at r = None) (pending_rows types t))"
  let ?dead = "concat (map (\<lambda>r. case next_attempt_at r of None \<Rightarrow> [] | Some n \<Rightarrow> [n])
    (filter (\<lambda>r. dead_at r \<noteq> None) (pending_rows types t)))"
  have st: "due_in_ms st = soonest_due (map_option (\<lambda>m. max 0 (m - clock)) (min_of ?live))
      (map_option (\<lambda>m. max 0 (m - clock)) (min_of ?dead))"
    using assms(1) ne by (auto simp: pending_state_of_def Let_def)
  have "n \<in> set ?live \<or> n \<in> set ?dead"
    using r assms(5) by (cases "dead_at r") (force intro: rev_image_eqI)+
  then obtain m where "min_of ?live = Some m \<or> min_of ?dead = Some m" "m \<le> n"
    using min_of_le by metis
  then show ?thesis unfolding st soonest_due_def by (auto split: option.splits)
qed

theorem pending_state_never_oversleeps_witness:
  "\<exists>d. due_in_ms \<lparr>due_in_ms = Some 0, oldest_pending_seconds = 2\<rparr> = Some d \<and> 0 \<le> d \<and> d \<le> max 0 (2005 - 2005)"
  by (rule pending_state_never_oversleeps [of 2005 "[''user.created'']" "[example_event ''e1'']" _ "example_event ''e1''"])
     (simp_all add: pending_state_of_def pending_rows_def live_row_def dead_row_def min_of_def soonest_due_def
        example_event_def domain_event_to_outbox_row_def)

end
