(* ===== verification/Event_Catalog.thy ===== *)
theory Event_Catalog
  imports Prelude
begin

text \<open>
  The event catalogue, \<open>packages/events/src\<close>: the table of event names
  (\<open>event-types.ts\<close>), their visibility (\<open>visibility-map.ts\<close>), how long the audit
  log keeps them (\<open>retention-map.ts\<close>), who is notified of them with which fields
  (\<open>notification-map.ts\<close>), and the functions that read these tables. A frozen object
  literal is the association list of its entries, in the source's order.
\<close>

section \<open>The tables\<close>

definition EVENT_TYPES :: "(string \<times> string) list" where
  "EVENT_TYPES = [
   (''USER_CREATED'', ''user.created''),
   (''USER_SIGNED_IN'', ''user.signed_in''),
   (''USER_SIGNED_OUT'', ''user.signed_out''),
   (''USER_EMAIL_VERIFIED'', ''user.email_verified''),
   (''USER_PASSWORD_RESET_REQUESTED'', ''user.password_reset.requested''),
   (''USER_PASSWORD_CHANGED'', ''user.password_changed''),
   (''USER_MAGIC_LINK_REQUESTED'', ''user.magic_link.requested''),
   (''USER_MFA_ENABLED'', ''user.mfa.enabled''),
   (''USER_MFA_DISABLED'', ''user.mfa.disabled''),
   (''USER_MFA_BACKUP_CODES_REGENERATED'', ''user.mfa.backup_codes_regenerated''),
   (''USER_MFA_BACKUP_CODE_USED'', ''user.mfa.backup_code_used''),
   (''USER_PASSKEY_ADDED'', ''user.passkey.added''),
   (''USER_PASSKEY_REMOVED'', ''user.passkey.removed''),
   (''USER_ACCOUNT_LINKED'', ''user.account.linked''),
   (''USER_ACCOUNT_UNLINKED'', ''user.account.unlinked''),
   (''USER_DELETION_REQUESTED'', ''user.deletion.requested''),
   (''USER_DELETION_CANCELLED'', ''user.deletion.cancelled''),
   (''USER_DELETED'', ''user.deleted''),
   (''USER_PROFILE_UPDATED'', ''user.profile.updated''),
   (''USER_EMAIL_CHANGE_REQUESTED'', ''user.email.change_requested''),
   (''USER_EXPORT_REQUESTED'', ''user.export.requested''),
   (''USER_EXPORT_COMPLETED'', ''user.export.completed''),
   (''USER_LOCALE_CHANGED'', ''user.locale.changed''),
   (''ORG_CREATED'', ''org.created''),
   (''ORG_UPDATED'', ''org.updated''),
   (''ORG_DELETED'', ''org.deleted''),
   (''ORG_MEMBER_INVITED'', ''org.member.invited''),
   (''ORG_MEMBER_JOINED'', ''org.member.joined''),
   (''ORG_INVITATION_CANCELLED'', ''org.invitation.cancelled''),
   (''ORG_MEMBER_REMOVED'', ''org.member.removed''),
   (''ORG_MEMBER_ROLE_CHANGED'', ''org.member.role_changed''),
   (''UPLOAD_REQUESTED'', ''upload.requested''),
   (''UPLOAD_CONFIRMED'', ''upload.confirmed''),
   (''UPLOAD_DELETED'', ''upload.deleted''),
   (''WEBHOOK_ENDPOINT_CREATED'', ''webhook.endpoint.created''),
   (''WEBHOOK_ENDPOINT_UPDATED'', ''webhook.endpoint.updated''),
   (''WEBHOOK_ENDPOINT_DELETED'', ''webhook.endpoint.deleted''),
   (''WEBHOOK_TEST'', ''webhook.test''),
   (''WEBHOOK_ENDPOINT_SECRET_ROTATED'', ''webhook.endpoint.secret_rotated''),
   (''WEBHOOK_ENDPOINT_DISABLED'', ''webhook.endpoint.disabled''),
   (''WEBHOOK_DELIVERY_EXHAUSTED'', ''webhook.delivery.exhausted''),
   (''WEBHOOK_DELIVERY_REPLAYED'', ''webhook.delivery.replayed''),
   (''API_TOKEN_CREATED'', ''api_token.created''),
   (''API_TOKEN_REVOKED'', ''api_token.revoked''),
   (''API_TOKEN_USED'', ''api_token.used''),
   (''USER_POLICY_ACCEPTED'', ''user.policy.accepted''),
   (''USER_COOKIE_CONSENT_GRANTED'', ''user.cookie_consent.granted''),
   (''USER_COOKIE_CONSENT_WITHDRAWN'', ''user.cookie_consent.withdrawn''),
   (''USER_COOKIE_CONSENT_LINKED'', ''user.cookie_consent.linked''),
   (''SECURITY_RATE_LIMIT_EXCEEDED'', ''security.rate_limit.exceeded''),
   (''SECURITY_CSP_VIOLATION'', ''security.csp.violation''),
   (''SECURITY_CSRF_REJECTED'', ''security.csrf.rejected''),
   (''SECURITY_PASSWORD_BREACHED'', ''security.password.breached''),
   (''SECURITY_SIGNUP_REJECTED'', ''security.signup.rejected''),
   (''SECURITY_OPERATOR_AUDIT_ACCESSED'', ''security.operator.audit_accessed''),
   (''SECURITY_IMPOSSIBLE_TRAVEL_DETECTED'', ''security.impossible_travel.detected''),
   (''SECURITY_GEO_DENIED'', ''security.geo.denied''),
   (''BILLING_SUBSCRIPTION_CREATED'', ''billing.subscription.created''),
   (''BILLING_SUBSCRIPTION_UPDATED'', ''billing.subscription.updated''),
   (''BILLING_SUBSCRIPTION_CANCELLED'', ''billing.subscription.cancelled''),
   (''BILLING_PAYMENT_FAILED'', ''billing.payment.failed''),
   (''BILLING_QUOTA_EXCEEDED'', ''billing.quota.exceeded''),
   (''ADMIN_IMPERSONATION_STARTED'', ''admin.impersonation.started''),
   (''ADMIN_IMPERSONATION_STOPPED'', ''admin.impersonation.stopped''),
   (''ADMIN_USER_BANNED'', ''admin.user.banned''),
   (''ADMIN_USER_UNBANNED'', ''admin.user.unbanned''),
   (''ADMIN_USER_PASSWORD_RESET'', ''admin.user.password_reset''),
   (''ADMIN_USER_SESSIONS_REVOKED'', ''admin.user.sessions_revoked''),
   (''ADMIN_STAFF_ADDED'', ''admin.staff.added''),
   (''ADMIN_STAFF_ROLE_CHANGED'', ''admin.staff.role_changed''),
   (''ADMIN_STAFF_REVOKED'', ''admin.staff.revoked''),
   (''ADMIN_STAFF_OVERRIDE_SET'', ''admin.staff.override_set''),
   (''ADMIN_STAFF_OVERRIDE_REVOKED'', ''admin.staff.override_revoked''),
   (''ADMIN_OPS_OUTBOX_REQUEUED'', ''admin.ops.outbox_requeued''),
   (''ADMIN_OPS_STRIPE_EVENT_REPLAYED'', ''admin.ops.stripe_event_replayed''),
   (''ADMIN_PLAN_OVERRIDE_SET'', ''admin.plan_override.set''),
   (''ADMIN_PLAN_OVERRIDE_REVOKED'', ''admin.plan_override.revoked''),
   (''ADMIN_NOTE_ADDED'', ''admin.note.added''),
   (''ADMIN_VIEW_SAVED'', ''admin.view.saved''),
   (''ADMIN_VIEW_DELETED'', ''admin.view.deleted''),
   (''ADMIN_STEP_UP_VERIFIED'', ''admin.step_up.verified''),
   (''ADMIN_STEP_UP_FAILED'', ''admin.step_up.failed''),
   (''ADMIN_APPROVAL_REQUESTED'', ''admin.approval.requested''),
   (''ADMIN_APPROVAL_DECIDED'', ''admin.approval.decided''),
   (''ADMIN_APPROVAL_CANCELLED'', ''admin.approval.cancelled''),
   (''ADMIN_APPROVAL_EXPIRED'', ''admin.approval.expired''),
   (''ADMIN_APPROVAL_EXECUTED'', ''admin.approval.executed''),
   (''ADMIN_APPROVAL_FAILED'', ''admin.approval.failed''),
   (''EMAIL_DELIVERY_EXHAUSTED'', ''email.delivery.exhausted''),
   (''OUTBOX_EVENT_DEAD'', ''outbox.event_dead''),
   (''NOTIFICATION_PREFERENCE_UPDATED'', ''notification.preference.updated''),
   (''NOTIFICATION_ORG_PREFERENCE_UPDATED'', ''notification.org_preference.updated''),
   (''NOTIFICATION_READ'', ''notification.read''),
   (''SSO_PROVIDER_REGISTERED'', ''sso.provider.registered''),
   (''SSO_PROVIDER_UPDATED'', ''sso.provider.updated''),
   (''SSO_PROVIDER_DELETED'', ''sso.provider.deleted''),
   (''SSO_DOMAIN_VERIFIED'', ''sso.domain.verified''),
   (''SSO_ENFORCEMENT_CHANGED'', ''sso.enforcement.changed''),
   (''SSO_LOGIN_SUCCESS'', ''sso.login.success''),
   (''SSO_LOGIN_FAILURE'', ''sso.login.failure''),
   (''SCIM_CONNECTION_CREATED'', ''scim.connection.created''),
   (''SCIM_CONNECTION_DELETED'', ''scim.connection.deleted''),
   (''SCIM_CONNECTION_TOKEN_ROTATED'', ''scim.connection.token_rotated''),
   (''SCIM_USER_CREATED'', ''scim.user.created''),
   (''SCIM_USER_UPDATED'', ''scim.user.updated''),
   (''SCIM_USER_DEACTIVATED'', ''scim.user.deactivated''),
   (''SCIM_USER_DEPROVISIONED'', ''scim.user.deprovisioned'')]"

datatype visibility = Public | Internal

definition VISIBILITY :: "(string \<times> visibility) list" where
  "VISIBILITY = [
   (''user.created'', Public),
   (''user.signed_in'', Public),
   (''user.signed_out'', Public),
   (''user.email_verified'', Public),
   (''user.password_reset.requested'', Internal),
   (''user.password_changed'', Internal),
   (''user.magic_link.requested'', Internal),
   (''user.mfa.enabled'', Internal),
   (''user.mfa.disabled'', Internal),
   (''user.mfa.backup_codes_regenerated'', Internal),
   (''user.mfa.backup_code_used'', Internal),
   (''user.passkey.added'', Internal),
   (''user.passkey.removed'', Internal),
   (''user.account.linked'', Internal),
   (''user.account.unlinked'', Internal),
   (''user.deletion.requested'', Public),
   (''user.deletion.cancelled'', Public),
   (''user.deleted'', Public),
   (''user.profile.updated'', Public),
   (''user.email.change_requested'', Internal),
   (''user.export.requested'', Internal),
   (''user.export.completed'', Internal),
   (''user.locale.changed'', Public),
   (''org.created'', Public),
   (''org.updated'', Public),
   (''org.deleted'', Public),
   (''org.member.invited'', Public),
   (''org.member.joined'', Public),
   (''org.invitation.cancelled'', Public),
   (''org.member.removed'', Public),
   (''org.member.role_changed'', Public),
   (''upload.requested'', Public),
   (''upload.confirmed'', Public),
   (''upload.deleted'', Public),
   (''webhook.endpoint.created'', Internal),
   (''webhook.endpoint.updated'', Internal),
   (''webhook.endpoint.deleted'', Internal),
   (''webhook.test'', Internal),
   (''webhook.endpoint.secret_rotated'', Internal),
   (''webhook.endpoint.disabled'', Internal),
   (''webhook.delivery.exhausted'', Internal),
   (''webhook.delivery.replayed'', Internal),
   (''api_token.created'', Public),
   (''api_token.revoked'', Public),
   (''api_token.used'', Internal),
   (''user.policy.accepted'', Public),
   (''user.cookie_consent.granted'', Public),
   (''user.cookie_consent.withdrawn'', Public),
   (''user.cookie_consent.linked'', Internal),
   (''security.rate_limit.exceeded'', Internal),
   (''security.csp.violation'', Internal),
   (''security.csrf.rejected'', Internal),
   (''security.password.breached'', Internal),
   (''security.signup.rejected'', Internal),
   (''security.operator.audit_accessed'', Internal),
   (''security.impossible_travel.detected'', Internal),
   (''security.geo.denied'', Internal),
   (''billing.subscription.created'', Public),
   (''billing.subscription.updated'', Public),
   (''billing.subscription.cancelled'', Public),
   (''billing.payment.failed'', Public),
   (''billing.quota.exceeded'', Internal),
   (''admin.impersonation.started'', Internal),
   (''admin.impersonation.stopped'', Internal),
   (''admin.user.banned'', Internal),
   (''admin.user.unbanned'', Internal),
   (''admin.user.password_reset'', Internal),
   (''admin.user.sessions_revoked'', Internal),
   (''admin.staff.added'', Internal),
   (''admin.staff.role_changed'', Internal),
   (''admin.staff.revoked'', Internal),
   (''admin.staff.override_set'', Internal),
   (''admin.staff.override_revoked'', Internal),
   (''admin.ops.outbox_requeued'', Internal),
   (''admin.ops.stripe_event_replayed'', Internal),
   (''admin.plan_override.set'', Internal),
   (''admin.plan_override.revoked'', Internal),
   (''admin.note.added'', Internal),
   (''admin.view.saved'', Internal),
   (''admin.view.deleted'', Internal),
   (''admin.step_up.verified'', Internal),
   (''admin.step_up.failed'', Internal),
   (''admin.approval.requested'', Internal),
   (''admin.approval.decided'', Internal),
   (''admin.approval.cancelled'', Internal),
   (''admin.approval.expired'', Internal),
   (''admin.approval.executed'', Internal),
   (''admin.approval.failed'', Internal),
   (''email.delivery.exhausted'', Internal),
   (''outbox.event_dead'', Internal),
   (''notification.preference.updated'', Internal),
   (''notification.org_preference.updated'', Internal),
   (''notification.read'', Internal),
   (''sso.provider.registered'', Internal),
   (''sso.provider.updated'', Internal),
   (''sso.provider.deleted'', Internal),
   (''sso.domain.verified'', Internal),
   (''sso.enforcement.changed'', Internal),
   (''sso.login.success'', Public),
   (''sso.login.failure'', Public),
   (''scim.connection.created'', Internal),
   (''scim.connection.deleted'', Internal),
   (''scim.connection.token_rotated'', Internal),
   (''scim.user.created'', Public),
   (''scim.user.updated'', Public),
   (''scim.user.deactivated'', Public),
   (''scim.user.deprovisioned'', Public)]"

datatype retention_policy = Operational | Compliance | NoRetention

definition RETENTION_MAP :: "(string \<times> retention_policy) list" where
  "RETENTION_MAP = [
   (''user.created'', Compliance),
   (''user.signed_in'', Compliance),
   (''user.signed_out'', Compliance),
   (''user.email_verified'', Compliance),
   (''user.password_reset.requested'', Compliance),
   (''user.password_changed'', Compliance),
   (''user.magic_link.requested'', Compliance),
   (''user.mfa.enabled'', Compliance),
   (''user.mfa.disabled'', Compliance),
   (''user.mfa.backup_codes_regenerated'', Compliance),
   (''user.mfa.backup_code_used'', Compliance),
   (''user.passkey.added'', Compliance),
   (''user.passkey.removed'', Compliance),
   (''user.account.linked'', Compliance),
   (''user.account.unlinked'', Compliance),
   (''user.deletion.requested'', Compliance),
   (''user.deletion.cancelled'', Compliance),
   (''user.deleted'', Compliance),
   (''user.profile.updated'', Compliance),
   (''user.email.change_requested'', Compliance),
   (''user.export.requested'', Compliance),
   (''user.export.completed'', Compliance),
   (''user.locale.changed'', Operational),
   (''org.created'', Compliance),
   (''org.updated'', Compliance),
   (''org.deleted'', Compliance),
   (''org.member.invited'', Compliance),
   (''org.member.joined'', Compliance),
   (''org.invitation.cancelled'', Compliance),
   (''org.member.removed'', Compliance),
   (''org.member.role_changed'', Compliance),
   (''upload.requested'', Compliance),
   (''upload.confirmed'', Compliance),
   (''upload.deleted'', Compliance),
   (''webhook.endpoint.created'', Compliance),
   (''webhook.endpoint.updated'', Compliance),
   (''webhook.endpoint.deleted'', Compliance),
   (''webhook.test'', Operational),
   (''webhook.endpoint.secret_rotated'', Compliance),
   (''webhook.endpoint.disabled'', Operational),
   (''webhook.delivery.exhausted'', Operational),
   (''webhook.delivery.replayed'', Operational),
   (''user.policy.accepted'', Compliance),
   (''user.cookie_consent.granted'', Compliance),
   (''user.cookie_consent.withdrawn'', Compliance),
   (''user.cookie_consent.linked'', Compliance),
   (''security.rate_limit.exceeded'', Operational),
   (''security.csp.violation'', Operational),
   (''security.csrf.rejected'', Operational),
   (''security.password.breached'', Operational),
   (''security.signup.rejected'', Operational),
   (''security.operator.audit_accessed'', Compliance),
   (''security.impossible_travel.detected'', Operational),
   (''security.geo.denied'', Operational),
   (''billing.subscription.created'', Compliance),
   (''billing.subscription.updated'', Compliance),
   (''billing.subscription.cancelled'', Compliance),
   (''billing.payment.failed'', Compliance),
   (''billing.quota.exceeded'', Operational),
   (''email.delivery.exhausted'', Operational),
   (''outbox.event_dead'', Operational),
   (''admin.impersonation.started'', Compliance),
   (''admin.impersonation.stopped'', Compliance),
   (''admin.user.banned'', Compliance),
   (''admin.user.unbanned'', Compliance),
   (''admin.user.password_reset'', Compliance),
   (''admin.user.sessions_revoked'', Compliance),
   (''admin.staff.added'', Compliance),
   (''admin.staff.role_changed'', Compliance),
   (''admin.staff.revoked'', Compliance),
   (''admin.staff.override_set'', Compliance),
   (''admin.staff.override_revoked'', Compliance),
   (''admin.ops.outbox_requeued'', Compliance),
   (''admin.ops.stripe_event_replayed'', Compliance),
   (''admin.plan_override.set'', Compliance),
   (''admin.plan_override.revoked'', Compliance),
   (''admin.note.added'', Compliance),
   (''admin.view.saved'', Compliance),
   (''admin.view.deleted'', Compliance),
   (''admin.step_up.verified'', Compliance),
   (''admin.step_up.failed'', Compliance),
   (''admin.approval.requested'', Compliance),
   (''admin.approval.decided'', Compliance),
   (''admin.approval.cancelled'', Compliance),
   (''admin.approval.expired'', Compliance),
   (''admin.approval.executed'', Compliance),
   (''admin.approval.failed'', Compliance),
   (''api_token.created'', Compliance),
   (''api_token.revoked'', Compliance),
   (''api_token.used'', Operational),
   (''notification.preference.updated'', Compliance),
   (''notification.org_preference.updated'', Compliance),
   (''notification.read'', Operational),
   (''sso.provider.registered'', Compliance),
   (''sso.provider.updated'', Compliance),
   (''sso.provider.deleted'', Compliance),
   (''sso.domain.verified'', Compliance),
   (''sso.enforcement.changed'', Compliance),
   (''sso.login.success'', Compliance),
   (''sso.login.failure'', Compliance),
   (''scim.connection.created'', Compliance),
   (''scim.connection.deleted'', Compliance),
   (''scim.connection.token_rotated'', Compliance),
   (''scim.user.created'', Compliance),
   (''scim.user.updated'', Compliance),
   (''scim.user.deactivated'', Compliance),
   (''scim.user.deprovisioned'', Compliance)]"

datatype audience = Self | Actor | OrgAll | Can "(string \<times> string list) list" | Staff string
datatype notification_category = Security | Org | Billing | Activity
datatype group_by = ByActor | ByResource
datatype dedup_window = Hour | Day

record notification_config =
  nc_audience :: audience
  nc_category :: notification_category
  nc_payload_fields :: "string list"
  nc_forced :: bool
  nc_group_by :: "group_by option"
  nc_dedup_window :: "dedup_window option"

definition notice :: "audience \<Rightarrow> notification_category \<Rightarrow> string list \<Rightarrow> notification_config" where
  "notice a c fs =
     \<lparr>nc_audience = a, nc_category = c, nc_payload_fields = fs, nc_forced = False,
      nc_group_by = None, nc_dedup_window = None\<rparr>"

definition forced_notice :: "audience \<Rightarrow> notification_category \<Rightarrow> string list \<Rightarrow> notification_config" where
  "forced_notice a c fs = (notice a c fs)\<lparr>nc_forced := True\<rparr>"

definition APPROVAL_NOTICE :: "string list \<Rightarrow> notification_config" where
  "APPROVAL_NOTICE fs = forced_notice (Staff ''approvals.decide'') Security fs"

definition org_update :: audience where "org_update = Can [(''organization'', [''update''])]"
definition billing_read :: audience where "billing_read = Can [(''billing'', [''read''])]"

definition NOTIFICATION_MAP :: "(string \<times> notification_config) list" where
  "NOTIFICATION_MAP = [
   (''admin.approval.requested'', APPROVAL_NOTICE [''approvalId'', ''action'', ''userId'']),
   (''admin.approval.cancelled'', APPROVAL_NOTICE [''approvalId'', ''action'', ''userId'']),
   (''admin.approval.expired'', APPROVAL_NOTICE [''approvalId'', ''action'', ''userId'']),
   (''admin.approval.executed'', APPROVAL_NOTICE [''approvalId'', ''action'', ''userId'']),
   (''admin.approval.decided'', APPROVAL_NOTICE [''approvalId'', ''action'', ''userId'', ''outcome'']),
   (''admin.approval.failed'', APPROVAL_NOTICE [''approvalId'', ''action'', ''userId'', ''reason'']),
   (''user.password_changed'', forced_notice Self Security []),
   (''user.mfa.enabled'', forced_notice Self Security []),
   (''user.mfa.disabled'', forced_notice Self Security []),
   (''user.mfa.backup_code_used'', forced_notice Self Security []),
   (''user.passkey.added'', forced_notice Self Security [''deviceType'']),
   (''user.passkey.removed'', forced_notice Self Security []),
   (''user.email.change_requested'', forced_notice Self Security [''newEmail'']),
   (''user.export.completed'', notice Self Activity [''expiresAt'']),
   (''user.deletion.requested'', forced_notice Self Security [''pendingDeletionUntil'']),
   (''user.deletion.cancelled'', forced_notice Self Security []),
   (''org.member.joined'', (notice org_update Org [''role''])\<lparr>nc_group_by := Some ByResource\<rparr>),
   (''org.member.removed'', notice org_update Org []),
   (''org.member.role_changed'', notice Self Org [''previousRole'', ''newRole'']),
   (''org.member.invited'', notice org_update Org [''email'', ''role'']),
   (''billing.payment.failed'', forced_notice billing_read Billing []),
   (''billing.subscription.created'', notice billing_read Billing [''tier'', ''status'']),
   (''billing.subscription.updated'', notice billing_read Billing [''tier'', ''status'']),
   (''billing.subscription.cancelled'', forced_notice billing_read Billing [''tier'', ''status'']),
   (''billing.quota.exceeded'',
     (notice billing_read Billing [''resource'', ''limit'', ''attempted'', ''tier''])
       \<lparr>nc_dedup_window := Some Day\<rparr>),
   (''webhook.endpoint.disabled'',
     notice (Can [(''webhooks'', [''read''])]) Activity [''reason'', ''consecutiveFailures'']),
   (''api_token.created'', forced_notice Self Security [''name''])]"

section \<open>Reading the tables\<close>

definition ALL_EVENT_TYPES :: "string list" where
  "ALL_EVENT_TYPES = map snd EVENT_TYPES"

definition is_known_event_type :: "string \<Rightarrow> bool" where
  "is_known_event_type v = list_ex (\<lambda>t. t = v) ALL_EVENT_TYPES"

definition is_public_event :: "string \<Rightarrow> bool" where
  "is_public_event t = (map_of VISIBILITY t = Some Public)"

definition SUBSCRIBABLE_EVENT_TYPES :: "string list" where
  "SUBSCRIBABLE_EVENT_TYPES = filter is_public_event ALL_EVENT_TYPES"

definition event_group_of :: "string \<Rightarrow> string" where
  "event_group_of t = takeWhile (\<lambda>c. c \<noteq> CHR ''.'') t"

definition matches_subscription :: "string \<Rightarrow> string list \<Rightarrow> bool" where
  "matches_subscription t subs =
     (if \<not> is_public_event t then False
      else if ''*'' \<in> set subs then True
      else if t \<in> set subs then True
      else (event_group_of t @ ''.*'') \<in> set subs)"

definition ends_with :: "string \<Rightarrow> string \<Rightarrow> bool" where
  "ends_with s suffix \<longleftrightarrow> length suffix \<le> length s \<and> drop (length s - length suffix) s = suffix"

definition is_subscribable_selector :: "string \<Rightarrow> bool" where
  "is_subscribable_selector v =
     (if v = ''*'' then True
      else if \<not> ends_with v ''.*'' then list_ex (\<lambda>t. t = v) SUBSCRIBABLE_EVENT_TYPES
      else list_ex (\<lambda>t. event_group_of t = take (length v - 2) v) SUBSCRIBABLE_EVENT_TYPES)"

definition retention_for :: "string \<Rightarrow> retention_policy option" where
  "retention_for t = (if \<not> is_known_event_type t then Some NoRetention else map_of RETENTION_MAP t)"

definition notification_config_of :: "string \<Rightarrow> notification_config option" where
  "notification_config_of t =
     (if \<not> is_known_event_type t then None else map_of NOTIFICATION_MAP t)"

definition is_notifiable :: "string \<Rightarrow> bool" where
  "is_notifiable t \<longleftrightarrow> notification_config_of t \<noteq> None"

text \<open>
  \<open>Object.entries\<close> of a payload: its members, and of an array (an object too) its elements
  under their decimal indices, which is the argument \<open>index_name\<close>.
\<close>

definition public_notification_payload ::
  "(nat \<Rightarrow> string) \<Rightarrow> string \<Rightarrow> json \<Rightarrow> (string \<times> json) list" where
  "public_notification_payload index_name t payload =
     (case notification_config_of t of
        None \<Rightarrow> []
      | Some config \<Rightarrow>
          (case payload of
             JObj entries \<Rightarrow> filter (\<lambda>(f, _). f \<in> set (nc_payload_fields config)) entries
           | JArr xs \<Rightarrow> filter (\<lambda>(f, _). f \<in> set (nc_payload_fields config))
                          (map (\<lambda>(i, x). (index_name i, x)) (enumerate 0 xs))
           | _ \<Rightarrow> []))"

datatype forced_level = ForcedAll | ForcedSome | ForcedNone

definition forced_level_of :: "notification_category \<Rightarrow> forced_level" where
  "forced_level_of c =
     (let configs = filter (\<lambda>g. nc_category g = c) (map snd NOTIFICATION_MAP);
          forced = length (filter nc_forced configs)
      in if configs = [] then ForcedNone
         else if forced = length configs then ForcedAll
         else if 0 < forced then ForcedSome else ForcedNone)"

section \<open>Names the services emit\<close>
definition OUTBOX_EVENT_DEAD :: string where "OUTBOX_EVENT_DEAD = ''outbox.event_dead''"
definition EMAIL_DELIVERY_EXHAUSTED :: string where "EMAIL_DELIVERY_EXHAUSTED = ''email.delivery.exhausted''"
definition WEBHOOK_DELIVERY_EXHAUSTED :: string where "WEBHOOK_DELIVERY_EXHAUSTED = ''webhook.delivery.exhausted''"
definition WEBHOOK_ENDPOINT_DISABLED :: string where "WEBHOOK_ENDPOINT_DISABLED = ''webhook.endpoint.disabled''"
definition WEBHOOK_ENDPOINT_CREATED :: string where "WEBHOOK_ENDPOINT_CREATED = ''webhook.endpoint.created''"
definition WEBHOOK_ENDPOINT_UPDATED :: string where "WEBHOOK_ENDPOINT_UPDATED = ''webhook.endpoint.updated''"
definition WEBHOOK_ENDPOINT_DELETED :: string where "WEBHOOK_ENDPOINT_DELETED = ''webhook.endpoint.deleted''"
definition WEBHOOK_TEST :: string where "WEBHOOK_TEST = ''webhook.test''"
definition WEBHOOK_ENDPOINT_SECRET_ROTATED :: string where "WEBHOOK_ENDPOINT_SECRET_ROTATED = ''webhook.endpoint.secret_rotated''"
definition WEBHOOK_DELIVERY_REPLAYED :: string where "WEBHOOK_DELIVERY_REPLAYED = ''webhook.delivery.replayed''"

section \<open>Coherence of the tables\<close>

lemma visibility_covers: "map fst VISIBILITY = ALL_EVENT_TYPES"
  by (simp add: VISIBILITY_def ALL_EVENT_TYPES_def EVENT_TYPES_def)

text \<open>The retention table lists the same names with two blocks moved.\<close>

lemma retention_blocks:
  "map fst RETENTION_MAP =
     take 42 ALL_EVENT_TYPES @ drop 45 (take 62 ALL_EVENT_TYPES) @ drop 88 (take 90 ALL_EVENT_TYPES)
     @ drop 62 (take 88 ALL_EVENT_TYPES) @ drop 42 (take 45 ALL_EVENT_TYPES) @ drop 90 ALL_EVENT_TYPES"
  by code_simp

lemma set_slice: "i \<le> j \<Longrightarrow> set (take i xs) \<union> set (drop i (take j xs)) = set (take j xs)"
  by (metis append_take_drop_id min.absorb1 set_append take_take)

lemma retention_covers: "set (map fst RETENTION_MAP) = set ALL_EVENT_TYPES"
proof -
  let ?E = ALL_EVENT_TYPES
  have "set (take 42 ?E) \<union> set (drop 42 (take 45 ?E)) \<union> set (drop 45 (take 62 ?E))
      \<union> set (drop 62 (take 88 ?E)) \<union> set (drop 88 (take 90 ?E)) \<union> set (drop 90 ?E)
      = set (take 90 ?E) \<union> set (drop 90 ?E)"
    by (simp add: set_slice)
  also have "\<dots> = set ?E" by (metis append_take_drop_id set_append)
  finally show ?thesis unfolding retention_blocks by auto
qed

lemma all_event_types_visible: "t \<in> set ALL_EVENT_TYPES \<Longrightarrow> map_of VISIBILITY t \<noteq> None"
  by (simp add: map_of_eq_None_iff visibility_covers [symmetric])

lemma is_known_event_type_iff: "is_known_event_type t \<longleftrightarrow> t \<in> set ALL_EVENT_TYPES"
  by (auto simp: is_known_event_type_def list_ex_iff)

lemma public_is_known: "is_public_event t \<Longrightarrow> t \<in> set ALL_EVENT_TYPES"
  by (auto simp: is_public_event_def visibility_covers [symmetric] dest: map_of_SomeD intro: rev_image_eqI)

lemma set_SUBSCRIBABLE: "set SUBSCRIBABLE_EVENT_TYPES = {t. is_public_event t}"
  by (auto simp: SUBSCRIBABLE_EVENT_TYPES_def public_is_known)

section \<open>What subscribers and members of an audience see\<close>

lemma event_group_no_dot: "CHR ''.'' \<notin> set (event_group_of t)"
  by (auto simp: event_group_of_def dest: set_takeWhileD)

lemma ends_with_append: "ends_with (s @ suffix) suffix"
  by (simp add: ends_with_def)

lemma ends_withD: "ends_with s suffix \<Longrightarrow> s = take (length s - length suffix) s @ suffix"
  by (metis append_take_drop_id ends_with_def)

lemma names_plain: "list_all (\<lambda>(t, _). t \<noteq> ''*'' \<and> \<not> ends_with t ''.*'') VISIBILITY"
  by code_simp

lemma public_plain: "is_public_event t \<Longrightarrow> t \<noteq> ''*'' \<and> \<not> ends_with t ''.*''"
  using names_plain by (auto simp: is_public_event_def list_all_iff dest!: map_of_SomeD)

text \<open>
  The selectors a webhook endpoint may register are exactly those some event can match: a
  selector accepted by the validation is never dead, and one refused would never have matched.
\<close>
theorem selector_accepted_iff_matchable:
  "is_subscribable_selector v \<longleftrightarrow> (\<exists>t. matches_subscription t [v])"
proof (cases "v = ''*'' \<or> \<not> ends_with v ''.*''")
  case True
  have pub: "is_public_event ''user.created''" by code_simp
  have star: "ends_with (event_group_of t @ ''.*'') ''.*''" for t by (rule ends_with_append)
  have "event_group_of t @ ''.*'' \<noteq> v" if "v \<noteq> ''*''" for t using True that star by metis
  then show ?thesis
    using True pub by (auto simp: is_subscribable_selector_def matches_subscription_def list_ex_iff set_SUBSCRIBABLE)
next
  case False
  have v: "v = take (length v - 2) v @ ''.*''" using False ends_withD [of v "''.*''"] by (simp add: numeral_2_eq_2)
  have "\<not> is_public_event v"
    using public_plain False by blast
  then have "matches_subscription t [v] \<longleftrightarrow>
      is_public_event t \<and> event_group_of t = take (length v - 2) v" for t
  proof -
    have "matches_subscription t [v] \<longleftrightarrow> is_public_event t \<and> event_group_of t @ ''.*'' = v"
      using False \<open>\<not> is_public_event v\<close> by (auto simp: matches_subscription_def)
    then show ?thesis using v by (metis append_same_eq)
  qed
  then show ?thesis
    using False by (auto simp: is_subscribable_selector_def list_ex_iff set_SUBSCRIBABLE)
qed

text \<open>
  The tables cover the catalogue: every event name has a visibility and a retention policy,
  an internal event matches no subscription, whatever it selects, and an unknown name is kept by
  no policy.
\<close>
theorem catalogue_total:
  "retention_for t \<noteq> None
   \<and> (is_known_event_type t \<longrightarrow> map_of VISIBILITY t \<noteq> None)
   \<and> (\<not> is_known_event_type t \<longrightarrow> retention_for t = Some NoRetention)
   \<and> (map_of VISIBILITY t \<noteq> Some Public \<longrightarrow> \<not> matches_subscription t subs)"
proof -
  have "is_known_event_type t \<Longrightarrow> map_of RETENTION_MAP t \<noteq> None"
    using retention_covers by (simp add: is_known_event_type_iff map_of_eq_None_iff)
  then show ?thesis
    by (auto simp: retention_for_def is_known_event_type_iff all_event_types_visible
        matches_subscription_def is_public_event_def)
qed

theorem catalogue_total_witness:
  "retention_for ''user.created'' \<noteq> None \<and> retention_for ''no.such'' = Some NoRetention
   \<and> \<not> matches_subscription ''no.such'' [''*'']"
proof -
  have "\<not> is_known_event_type ''no.such''" "map_of VISIBILITY ''no.such'' \<noteq> Some Public" by code_simp+
  then show ?thesis
    using catalogue_total [of "''user.created''" "[]"] catalogue_total [of "''no.such''" "[''*'']"] by blast
qed

text \<open>
  What a notification shows is bounded by the table: every member of the payload sent to an
  inbox is a member of the event's payload and one of the fields declared for that event, so the
  invitation id of \<open>org.member.invited\<close> (an event with four fields) never leaves.
\<close>
theorem notification_payload_declared:
  "(f, v) \<in> set (public_notification_payload ix t (JObj members)) \<longleftrightarrow>
     (f, v) \<in> set members \<and> (\<exists>c. notification_config_of t = Some c \<and> f \<in> set (nc_payload_fields c))"
  by (cases "notification_config_of t") (auto simp: public_notification_payload_def)

end
