(* ===== verification/Unit_Of_Work.thy ===== *)
theory Unit_Of_Work
  imports Prelude
begin

text \<open>
  The unit of work: \<open>packages/drizzle/src/services/transaction-manager.service.ts\<close> over
  \<open>packages/ddd-kit/src/application/unit-of-work-context.ts\<close> and
  \<open>packages/ddd-kit/src/events/event-collector.ts\<close>.

  The callback a caller passes to \<open>run\<close> is a tree of what it may do: write rows, hand events
  to the collector, call \<open>run\<close> again (on the same or another \<open>TransactionService\<close>),
  open a \<open>savepoint\<close>, call \<open>runOutermost\<close>, and finally return a value, return a failed
  \<open>Result\<close> or throw. The flag of an inner call says whether the caller catches what it
  throws. The asynchronous context is the innermost scope of the state; the database is the log of
  its committed writes and of those of the open transaction, and a commit the server refuses is an
  argument of the call that opens the transaction.
\<close>

section \<open>Values, throws, works\<close>

datatype run_value = Plain string | FailedResult string
datatype thrown = FailedResultRollback run_value | Error string
datatype finish = Return run_value | Throw string

text \<open>A \<open>TransactionService\<close> is known by its flush handler, if it has one.\<close>

type_synonym service = "string option"

datatype 'e act =
    Write string
  | Collect "'e list"
  | Run service "'e work" bool
  | Savepoint "'e work" bool
  | RunOutermost service "string option" "'e work" bool
and 'e work = Work "'e act list" finish

datatype 'e entry = Wrote string | Flushed string "'e list"

record 'e outermost_run =
  doom :: "thrown option"
  pending :: "(service \<times> 'e list) list"

record 'e uow_state =
  committed :: "'e entry list"
  tx_log :: "'e entry list"
  scope_events :: "'e list"
  outermost :: "'e outermost_run option"

fun is_failed_result :: "run_value \<Rightarrow> bool" where
  "is_failed_result (Plain v) = False"
| "is_failed_result (FailedResult e) = True"

section \<open>Dooming, collecting, flushing\<close>

definition doom_with :: "thrown \<Rightarrow> 'e uow_state \<Rightarrow> 'e uow_state" where
  "doom_with cause s =
     (case outermost s of
        None \<Rightarrow> s
      | Some run \<Rightarrow> (case doom run of
          Some _ \<Rightarrow> s
        | None \<Rightarrow> s\<lparr>outermost := Some (run\<lparr>doom := Some cause\<rparr>)\<rparr>))"

text \<open>\<open>pending.set(key, [...(pending.get(key) ?? []), ...drained])\<close>: a key keeps its place.\<close>

fun pending_set :: "service \<Rightarrow> 'e list \<Rightarrow> (service \<times> 'e list) list \<Rightarrow> (service \<times> 'e list) list" where
  "pending_set k es [] = [(k, es)]"
| "pending_set k es ((j, fs) # p) = (if j = k then (j, fs @ es) # p else (j, fs) # pending_set k es p)"

definition collect_into :: "service \<Rightarrow> 'e uow_state \<Rightarrow> 'e uow_state" where
  "collect_into k s =
     (case outermost s of
        None \<Rightarrow> s
      | Some run \<Rightarrow>
          if scope_events s = [] then s
          else s\<lparr>scope_events := [],
                 outermost := Some (run\<lparr>pending := pending_set k (scope_events s) (pending run)\<rparr>)\<rparr>)"

text \<open>
  \<open>flush\<close> hands the events to their handlers in order; \<open>refuses\<close> is what a handler throws
  for them, if it does.
\<close>

fun flush ::
  "(string \<Rightarrow> 'e list \<Rightarrow> string option) \<Rightarrow> (service \<times> 'e list) list \<Rightarrow> 'e entry list throws" where
  "flush refuses [] = Inr []"
| "flush refuses ((k, es) # p) =
     (if es = [] then flush refuses p
      else case k of
        None \<Rightarrow> Inl ''EventsWithoutOutbox''
      | Some h \<Rightarrow>
          (case refuses h es of
             Some msg \<Rightarrow> Inl msg
           | None \<Rightarrow> (case flush refuses p of Inl msg \<Rightarrow> Inl msg | Inr ws \<Rightarrow> Inr (Flushed h es # ws))))"

definition enter :: "'e uow_state \<Rightarrow> 'e uow_state" where
  "enter s = s\<lparr>scope_events := []\<rparr>"

definition enter_savepoint :: "'e uow_state \<Rightarrow> 'e uow_state" where
  "enter_savepoint s = s\<lparr>scope_events := [], outermost := None\<rparr>"

definition begin_transaction :: "'e uow_state \<Rightarrow> 'e uow_state" where
  "begin_transaction s =
     \<lparr>committed = committed s, tx_log = [], scope_events = [], outermost = Some \<lparr>doom = None, pending = []\<rparr>\<rparr>"

text \<open>What \<open>runNested\<close> does once the work has ended.\<close>

definition end_nested ::
  "service \<Rightarrow> 'e uow_state \<times> (thrown + run_value) \<Rightarrow> 'e uow_state \<times> (thrown + run_value)" where
  "end_nested k out =
     (case out of
        (s, Inr v) \<Rightarrow>
          if is_failed_result v
          then (doom_with (FailedResultRollback v) s, Inl (FailedResultRollback v))
          else (collect_into k s, Inr v)
      | (s, Inl (FailedResultRollback v)) \<Rightarrow> (s, Inl (FailedResultRollback v))
      | (s, Inl (Error e)) \<Rightarrow> (doom_with (Error e) s, Inl (Error e)))"

text \<open>What \<open>complete\<close> does once the work has ended: the entries to add to the log, or a throw.\<close>

definition completes ::
  "(string \<Rightarrow> 'e list \<Rightarrow> string option) \<Rightarrow> service \<Rightarrow> 'e uow_state \<Rightarrow> run_value \<Rightarrow> thrown + 'e entry list" where
  "completes refuses k s v =
     (if is_failed_result v then Inl (FailedResultRollback v)
      else case Option.bind (outermost s) doom of
        Some cause \<Rightarrow> Inl cause
      | None \<Rightarrow>
          (case outermost (collect_into k s) of
             None \<Rightarrow> Inr []
           | Some run \<Rightarrow> (case flush refuses (pending run) of Inl msg \<Rightarrow> Inl (Error msg) | Inr ws \<Rightarrow> Inr ws)))"

text \<open>
  \<open>openTransaction\<close>: commits what \<open>complete\<close> let through, rolls back otherwise, and turns
  the rollback of a failed \<open>Result\<close> back into that result.
\<close>

definition end_transaction ::
  "(string \<Rightarrow> 'e list \<Rightarrow> string option) \<Rightarrow> service \<Rightarrow> string option \<Rightarrow>
   'e uow_state \<times> (thrown + run_value) \<Rightarrow> 'e entry list \<times> (thrown + run_value)" where
  "end_transaction refuses k commit_error out =
     (case out of
        (s, Inl (FailedResultRollback v)) \<Rightarrow> (committed s, Inr v)
      | (s, Inl (Error e)) \<Rightarrow> (committed s, Inl (Error e))
      | (s, Inr v) \<Rightarrow>
          (case completes refuses k s v of
             Inl (FailedResultRollback r) \<Rightarrow> (committed s, Inr r)
           | Inl (Error e) \<Rightarrow> (committed s, Inl (Error e))
           | Inr ws \<Rightarrow>
               (case commit_error of
                  Some e \<Rightarrow> (committed s, Inl (Error e))
                | None \<Rightarrow> (committed s @ tx_log s @ ws, Inr v))))"

definition end_savepoint ::
  "'e uow_state \<Rightarrow> 'e uow_state \<times> (thrown + run_value) \<Rightarrow> 'e uow_state \<times> (thrown + run_value)" where
  "end_savepoint s out =
     (case out of
        (s', Inl e) \<Rightarrow> (s\<lparr>committed := committed s'\<rparr>, Inl e)
      | (s', Inr v) \<Rightarrow> (s\<lparr>committed := committed s', tx_log := tx_log s'\<rparr>, Inr v))"

text \<open>A caller that catches goes on; another one passes the throw up.\<close>

definition settle_call :: "bool \<Rightarrow> thrown + run_value \<Rightarrow> thrown option" where
  "settle_call catches out = (case out of Inl e \<Rightarrow> if catches then None else Some e | Inr _ \<Rightarrow> None)"

fun run_act :: "(string \<Rightarrow> 'e list \<Rightarrow> string option) \<Rightarrow> 'e act \<Rightarrow> 'e uow_state \<Rightarrow> 'e uow_state \<times> thrown option"
and run_acts :: "(string \<Rightarrow> 'e list \<Rightarrow> string option) \<Rightarrow> 'e act list \<Rightarrow> 'e uow_state \<Rightarrow> 'e uow_state \<times> thrown option"
and run_work :: "(string \<Rightarrow> 'e list \<Rightarrow> string option) \<Rightarrow> 'e work \<Rightarrow> 'e uow_state \<Rightarrow> 'e uow_state \<times> (thrown + run_value)"
where
  "run_act refuses (Write x) s = (s\<lparr>tx_log := tx_log s @ [Wrote x]\<rparr>, None)"
| "run_act refuses (Collect es) s = (s\<lparr>scope_events := scope_events s @ es\<rparr>, None)"
| "run_act refuses (Run k w catches) s =
     (case end_nested k (run_work refuses w (enter s)) of
        (s', out) \<Rightarrow> (s'\<lparr>scope_events := scope_events s\<rparr>, settle_call catches out))"
| "run_act refuses (Savepoint w catches) s =
     (case end_savepoint s (run_work refuses w (enter_savepoint s)) of
        (s', out) \<Rightarrow> (s', settle_call catches out))"
| "run_act refuses (RunOutermost k commit_error w catches) s =
     (case end_transaction refuses k commit_error (run_work refuses w (begin_transaction s)) of
        (db, out) \<Rightarrow> (s\<lparr>committed := db\<rparr>, settle_call catches out))"
| "run_acts refuses [] s = (s, None)"
| "run_acts refuses (a # as) s =
     (case run_act refuses a s of
        (s', Some e) \<Rightarrow> (s', Some e)
      | (s', None) \<Rightarrow> run_acts refuses as s')"
| "run_work refuses (Work as fin) s =
     (case run_acts refuses as s of
        (s', Some e) \<Rightarrow> (s', Inl e)
      | (s', None) \<Rightarrow> (s', case fin of Return v \<Rightarrow> Inr v | Throw e \<Rightarrow> Inl (Error e)))"

definition open_transaction ::
  "(string \<Rightarrow> 'e list \<Rightarrow> string option) \<Rightarrow> service \<Rightarrow> string option \<Rightarrow> 'e work \<Rightarrow> 'e entry list \<Rightarrow>
   'e entry list \<times> (thrown + run_value)" where
  "open_transaction refuses k commit_error w db =
     end_transaction refuses k commit_error
       (run_work refuses w
          \<lparr>committed = db, tx_log = [], scope_events = [], outermost = Some \<lparr>doom = None, pending = []\<rparr>\<rparr>)"

section \<open>Shapes of works\<close>

text \<open>No call opens a transaction of its own.\<close>

fun one_tx_act :: "'e act \<Rightarrow> bool" and one_tx :: "'e work \<Rightarrow> bool" where
  "one_tx_act (Run k w c) = one_tx w"
| "one_tx_act (Savepoint w c) = one_tx w"
| "one_tx_act (RunOutermost k ce w c) = False"
| "one_tx_act a = True"
| "one_tx (Work as fin) = list_all one_tx_act as"

text \<open>No savepoint calls \<open>run\<close>.\<close>

fun flat_act :: "bool \<Rightarrow> 'e act \<Rightarrow> bool" and flat :: "bool \<Rightarrow> 'e work \<Rightarrow> bool" where
  "flat_act inside (Run k w c) = (\<not> inside \<and> flat False w)"
| "flat_act inside (Savepoint w c) = flat True w"
| "flat_act inside (RunOutermost k ce w c) = True"
| "flat_act inside a = True"
| "flat inside (Work as fin) = list_all (flat_act inside) as"

text \<open>
  The rows a work writes, in order, read off its text; \<open>None\<close> if it throws. What a savepoint that
  throws had written is taken back, and with it the throw if the caller catches it.
\<close>

fun written_act :: "'e act \<Rightarrow> string list option" and written_acts :: "'e act list \<Rightarrow> string list option"
and written :: "'e work \<Rightarrow> string list option" where
  "written_act (Write x) = Some [x]"
| "written_act (Run k w c) = written w"
| "written_act (Savepoint w c) = (case written w of None \<Rightarrow> if c then Some [] else None | Some xs \<Rightarrow> Some xs)"
| "written_act a = Some []"
| "written_acts [] = Some []"
| "written_acts (a # as) =
     (case (written_act a, written_acts as) of (Some xs, Some ys) \<Rightarrow> Some (xs @ ys) | _ \<Rightarrow> None)"
| "written (Work as fin) = (case fin of Throw e \<Rightarrow> None | Return v \<Rightarrow> written_acts as)"

text \<open>Every run of the transaction, at any depth, ends with a value.\<close>

fun clean_act :: "'e act \<Rightarrow> bool" and clean :: "'e work \<Rightarrow> bool" where
  "clean_act (Run k w c) = clean w"
| "clean_act a = True"
| "clean (Work as fin) = (list_all clean_act as \<and> (case fin of Return v \<Rightarrow> \<not> is_failed_result v | Throw e \<Rightarrow> False))"

text \<open>The calls to the collector that reach the transaction, inner runs first.\<close>

fun collected_act :: "'e act \<Rightarrow> (service \<times> 'e list) list" and collected :: "service \<Rightarrow> 'e work \<Rightarrow> (service \<times> 'e list) list" where
  "collected_act (Run k w c) = collected k w"
| "collected_act a = []"
| "collected k (Work as fin) =
     concat (map collected_act as)
     @ [(k, concat (map (\<lambda>a. case a of Collect es \<Rightarrow> es | _ \<Rightarrow> []) as))]"

definition events_for :: "service \<Rightarrow> (service \<times> 'e list) list \<Rightarrow> 'e list" where
  "events_for k p = concat (map snd (filter (\<lambda>(j, _). j = k) p))"

definition flushed_to :: "string \<Rightarrow> 'e entry list \<Rightarrow> 'e list" where
  "flushed_to h ws = concat (map (\<lambda>x. case x of Flushed j es \<Rightarrow> if j = h then es else [] | _ \<Rightarrow> []) ws)"

definition doomed :: "'e uow_state \<Rightarrow> bool" where
  "doomed s \<longleftrightarrow> Option.bind (outermost s) doom \<noteq> None"

named_theorems uow_simps \<open>the small steps of a unit of work\<close>

lemma end_nested_cases [uow_simps]:
  "end_nested k (s, Inr v) = (if is_failed_result v then (doom_with (FailedResultRollback v) s, Inl (FailedResultRollback v))
                              else (collect_into k s, Inr v))"
  "end_nested k (s, Inl (FailedResultRollback v)) = (s, Inl (FailedResultRollback v))"
  "end_nested k (s, Inl (Error e)) = (doom_with (Error e) s, Inl (Error e))"
  by (simp_all add: end_nested_def)

lemma doom_with_sel [uow_simps]:
  "committed (doom_with c s) = committed s" "tx_log (doom_with c s) = tx_log s"
  "scope_events (doom_with c s) = scope_events s"
  "outermost (doom_with c s) = None \<longleftrightarrow> outermost s = None"
  "doomed (doom_with c s) \<longleftrightarrow> outermost s \<noteq> None"
  by (auto simp: doom_with_def doomed_def split: option.splits)

lemma collect_into_sel [uow_simps]:
  "committed (collect_into k s) = committed s" "tx_log (collect_into k s) = tx_log s"
  "outermost (collect_into k s) = None \<longleftrightarrow> outermost s = None"
  "doomed (collect_into k s) = doomed s"
  by (auto simp: collect_into_def doomed_def split: option.splits)

lemma enter_sel [uow_simps]:
  "committed (enter s) = committed s" "tx_log (enter s) = tx_log s" "scope_events (enter s) = []"
  "outermost (enter s) = outermost s" "doomed (enter s) = doomed s"
  by (simp_all add: enter_def doomed_def)

lemma enter_savepoint_sel [uow_simps]:
  "committed (enter_savepoint s) = committed s" "tx_log (enter_savepoint s) = tx_log s"
  "outermost (enter_savepoint s) = None"
  by (simp_all add: enter_savepoint_def)

lemma settle_call_cases [uow_simps]:
  "settle_call c (Inr v) = None" "settle_call True out = None" "settle_call False (Inl e) = Some e"
  "settle_call c out = None \<longleftrightarrow> c \<or> (\<exists>v. out = Inr v)"
  "settle_call c out = Some e \<longleftrightarrow> \<not> c \<and> out = Inl e"
  by (cases out; simp add: settle_call_def)+

section \<open>What one transaction does to the log\<close>

lemma end_nested_fst [uow_simps]:
  "committed (fst (end_nested k x)) = committed (fst x)" "tx_log (fst (end_nested k x)) = tx_log (fst x)"
  "outermost (fst (end_nested k x)) = None \<longleftrightarrow> outermost (fst x) = None"
  by (auto simp: end_nested_def uow_simps split: prod.split sum.split thrown.split)

lemma end_savepoint_fst [uow_simps]:
  "committed (fst (end_savepoint s x)) = committed (fst x)"
  "outermost (fst (end_savepoint s x)) = outermost s"
  "scope_events (fst (end_savepoint s x)) = scope_events s"
  "doomed (fst (end_savepoint s x)) = doomed s"
  "tx_log (fst (end_savepoint s x)) = (case snd x of Inl e \<Rightarrow> tx_log s | Inr v \<Rightarrow> tx_log (fst x))"
  by (auto simp: end_savepoint_def doomed_def split: prod.split sum.split)

lemma run_act_fst [uow_simps]:
  "fst (run_act refuses (Run k w c) s)
     = (fst (end_nested k (run_work refuses w (enter s))))\<lparr>scope_events := scope_events s\<rparr>"
  "fst (run_act refuses (Savepoint w c) s) = fst (end_savepoint s (run_work refuses w (enter_savepoint s)))"
  "snd (run_act refuses (Run k w c) s) = settle_call c (snd (end_nested k (run_work refuses w (enter s))))"
  "snd (run_act refuses (Savepoint w c) s)
     = settle_call c (snd (end_savepoint s (run_work refuses w (enter_savepoint s))))"
  by (simp_all add: split_beta)

lemma run_acts_Cons [uow_simps]:
  "run_acts refuses (a # as) s =
     (if snd (run_act refuses a s) = None then run_acts refuses as (fst (run_act refuses a s))
      else run_act refuses a s)"
  by (auto split: prod.split option.split)

lemma run_work_fst [uow_simps]:
  "fst (run_work refuses (Work as fin) s) = fst (run_acts refuses as s)"
  by (simp split: prod.split option.split)

lemma doomed_scope [uow_simps]: "doomed (s\<lparr>scope_events := es\<rparr>) = doomed s"
  "doomed (s\<lparr>tx_log := l\<rparr>) = doomed s" "doomed (s\<lparr>committed := db\<rparr>) = doomed s"
  by (simp_all add: doomed_def)

section \<open>What one transaction does to the log\<close>

lemmas uow_induct = run_act_run_acts_run_work.induct

declare run_act.simps(3,4) [simp del] run_acts.simps(2) [simp del] run_work.simps [simp del]

lemma run_committed:
  "one_tx_act a \<Longrightarrow> committed (fst (run_act refuses a s)) = committed s"
  "list_all one_tx_act as \<Longrightarrow> committed (fst (run_acts refuses as s)) = committed s"
  "one_tx w \<Longrightarrow> committed (fst (run_work refuses w s)) = committed s"
proof (induction refuses a s and refuses as s and refuses w s rule: uow_induct)
  case (7 refuses a as s)
  then show ?case by (cases "run_act refuses a s") (auto simp: uow_simps)
qed (simp_all add: uow_simps)

section \<open>A failed run dooms its transaction\<close>

lemma doomed_open: "doomed s \<Longrightarrow> outermost s \<noteq> None"
  by (cases "outermost s") (auto simp: doomed_def)

lemma doomed_end_nested: "doomed (fst x) \<Longrightarrow> doomed (fst (end_nested k x))"
  by (auto simp: end_nested_def uow_simps dest: doomed_open split: prod.split sum.split thrown.split)

lemma run_outermost:
  "(outermost (fst (run_act refuses a s)) = None \<longleftrightarrow> outermost s = None)
     \<and> (doomed s \<longrightarrow> doomed (fst (run_act refuses a s)))"
  "(outermost (fst (run_acts refuses as s)) = None \<longleftrightarrow> outermost s = None)
     \<and> (doomed s \<longrightarrow> doomed (fst (run_acts refuses as s)))"
  "(outermost (fst (run_work refuses w s)) = None \<longleftrightarrow> outermost s = None)
     \<and> (doomed s \<longrightarrow> doomed (fst (run_work refuses w s)))"
proof (induction refuses a s and refuses as s and refuses w s rule: uow_induct)
  case (7 refuses a as s)
  then show ?case by (cases "run_act refuses a s") (auto simp: uow_simps)
qed (auto simp: uow_simps doomed_end_nested split: prod.split)

text \<open>
  A rollback travels up only out of runs, each of which has doomed the transaction; a savepoint
  that calls \<open>run\<close> is excluded here because it breaks this, see
  \<open>savepoint_hides_a_failed_run\<close>.
\<close>

lemma run_rollback:
  "flat_act inside a \<Longrightarrow> snd (run_act refuses a s) = Some (FailedResultRollback v) \<Longrightarrow>
     \<not> inside \<and> (outermost s = None \<or> doomed (fst (run_act refuses a s)))"
  "list_all (flat_act inside) as \<Longrightarrow> snd (run_acts refuses as s) = Some (FailedResultRollback v) \<Longrightarrow>
     \<not> inside \<and> (outermost s = None \<or> doomed (fst (run_acts refuses as s)))"
  "flat inside w \<Longrightarrow> snd (run_work refuses w s) = Inl (FailedResultRollback v) \<Longrightarrow>
     \<not> inside \<and> (outermost s = None \<or> doomed (fst (run_work refuses w s)))"
proof (induction refuses a s and refuses as s and refuses w s arbitrary: inside v and inside v and inside v rule: uow_induct)
  case (3 refuses k w c s)
  let ?x = "run_work refuses w (enter s)"
  obtain s1 o1 where x: "?x = (s1, o1)" by (cases ?x)
  have o: "outermost s1 = None \<longleftrightarrow> outermost s = None"
    using run_outermost(3) [of refuses w "enter s"] by (simp add: x uow_simps)
  have e: "snd (end_nested k ?x) = Inl (FailedResultRollback v)" using 3 by (simp add: uow_simps)
  show ?case
  proof (cases o1)
    case (Inr v')
    then show ?thesis using 3 e o by (auto simp: x uow_simps split: if_splits)
  next
    case (Inl t)
    then have "t = FailedResultRollback v" using e by (cases t) (auto simp: x uow_simps)
    then show ?thesis using 3 e o Inl by (auto simp: x uow_simps)
  qed
next
  case (4 refuses w c s)
  then have "snd (run_work refuses w (enter_savepoint s)) = Inl (FailedResultRollback v)"
    by (auto simp: uow_simps end_savepoint_def split: prod.splits sum.splits)
  then show ?case using 4 by fastforce
next
  case (5 refuses k ce w c s)
  then show ?case
    by (auto simp: end_transaction_def uow_simps split: prod.splits sum.splits thrown.splits option.splits)
next
  case (7 refuses a as s)
  show ?case
  proof (cases "snd (run_act refuses a s) = None")
    case True
    then show ?thesis using 7 run_outermost(1) [of refuses a s]
      by (cases "run_act refuses a s") (auto simp: uow_simps)
  next
    case False
    then have "run_acts refuses (a # as) s = run_act refuses a s"
      by (simp only: run_acts_Cons if_False)
    then show ?thesis using "7.IH"(1) [of inside v] "7.prems" by simp
  qed
next
  case (8 refuses as fin s)
  then show ?case
    by (cases "run_acts refuses as s"; cases "snd (run_acts refuses as s)"; cases fin)
       (auto simp: run_work.simps)
qed simp_all

text \<open>A run of a transaction that is not doomed ended with a value.\<close>

lemma nested_run_ended:
  assumes "flat_act False (Run k w c)" and "outermost s \<noteq> None"
    and "\<not> doomed (fst (run_act refuses (Run k w c) s))"
  obtains s1 v where "run_work refuses w (enter s) = (s1, Inr v)" "\<not> is_failed_result v" "\<not> doomed s1"
    "outermost s1 \<noteq> None"
proof -
  obtain s1 o1 where x: "run_work refuses w (enter s) = (s1, o1)" by (cases "run_work refuses w (enter s)")
  have o: "outermost s1 \<noteq> None"
    using assms(2) run_outermost(3) [of refuses w "enter s"] by (simp add: x uow_simps)
  have nd: "\<not> doomed s1" using assms(3) doomed_end_nested [of "(s1, o1)" k] by (auto simp: x uow_simps)
  have "\<exists>v. o1 = Inr v \<and> \<not> is_failed_result v"
  proof (cases o1)
    case (Inr v')
    then show ?thesis using assms(3) nd o by (cases v') (auto simp: x uow_simps)
  next
    case (Inl t)
    show ?thesis
    proof (cases t)
      case (FailedResultRollback r)
      then have "doomed s1" using run_rollback(3) [of False w refuses "enter s" r] assms(1,2) Inl
        by (auto simp: x uow_simps)
      then show ?thesis using nd by blast
    next
      case (Error e)
      then show ?thesis using assms(3) o Inl by (auto simp: x uow_simps)
    qed
  qed
  then show ?thesis using that [OF _ _ nd o] x by blast
qed

lemma run_clean:
  "flat_act False a \<Longrightarrow> outermost s \<noteq> None \<Longrightarrow> \<not> doomed (fst (run_act refuses a s)) \<Longrightarrow>
     snd (run_act refuses a s) = None \<Longrightarrow> clean_act a"
  "list_all (flat_act False) as \<Longrightarrow> outermost s \<noteq> None \<Longrightarrow> \<not> doomed (fst (run_acts refuses as s)) \<Longrightarrow>
     snd (run_acts refuses as s) = None \<Longrightarrow> list_all clean_act as"
  "flat False w \<Longrightarrow> outermost s \<noteq> None \<Longrightarrow> \<not> doomed (fst (run_work refuses w s)) \<Longrightarrow>
     snd (run_work refuses w s) = Inr (Plain v) \<Longrightarrow> clean w"
proof (induction refuses a s and refuses as s and refuses w s arbitrary: v and v and v rule: uow_induct)
  case (3 refuses k w c s)
  obtain s1 u where x: "run_work refuses w (enter s) = (s1, Inr u)" "\<not> is_failed_result u" "\<not> doomed s1" "outermost s1 \<noteq> None"
    using nested_run_ended [OF 3(2-4)] .
  then obtain v' where "u = Plain v'" by (cases u) simp_all
  then show ?case using "3.IH" [of v'] "3.prems"(1,2) x by (simp add: uow_simps)
next
  case (7 refuses a as s)
  have "snd (run_act refuses a s) = None" using 7 by (auto simp: uow_simps split: if_splits)
  then show ?case using 7 run_outermost(1) [of refuses a s] run_outermost(2) [of refuses as "fst (run_act refuses a s)"]
    by (cases "run_act refuses a s") (auto simp: uow_simps)
next
  case (8 refuses as fin s)
  then show ?case
    by (cases "run_acts refuses as s"; cases "snd (run_acts refuses as s)"; cases fin)
       (auto simp: run_work.simps)
qed simp_all

section \<open>Where the events go\<close>

definition pend :: "'e uow_state \<Rightarrow> (service \<times> 'e list) list" where
  "pend s = (case outermost s of None \<Rightarrow> [] | Some run \<Rightarrow> pending run)"

fun own_events :: "'e act \<Rightarrow> 'e list" where
  "own_events (Collect es) = es"
| "own_events a = []"

lemma events_for_simps [simp]:
  "events_for k [] = []" "events_for k (p @ q) = events_for k p @ events_for k q"
  "events_for k ((j, es) # p) = (if j = k then es else []) @ events_for k p"
  by (simp_all add: events_for_def)

lemma keys_pending_set: "fst ` set (pending_set k es p) = insert k (fst ` set p)"
  by (induction k es p rule: pending_set.induct) auto

lemma distinct_pending_set: "distinct (map fst p) \<Longrightarrow> distinct (map fst (pending_set k es p))"
  by (induction k es p rule: pending_set.induct) (auto simp: keys_pending_set)

lemma events_for_absent: "k \<notin> fst ` set p \<Longrightarrow> events_for k p = []"
  by (induction p) auto

lemma events_for_pending_set:
  "distinct (map fst p) \<Longrightarrow>
     events_for k (pending_set j es p) = events_for k p @ (if j = k then es else [])"
  by (induction j es p rule: pending_set.induct) (auto simp: events_for_absent)

lemma pend_collect_into:
  assumes "outermost s \<noteq> None" "distinct (map fst (pend s))"
  shows "distinct (map fst (pend (collect_into k s)))"
    and "events_for j (pend (collect_into k s)) = events_for j (pend s) @ (if k = j then scope_events s else [])"
  using assms by (auto simp: collect_into_def pend_def distinct_pending_set events_for_pending_set)

lemma pend_updates [uow_simps]:
  "pend (s\<lparr>scope_events := es\<rparr>) = pend s" "pend (s\<lparr>tx_log := l\<rparr>) = pend s"
  "pend (s\<lparr>committed := db\<rparr>) = pend s" "pend (enter s) = pend s"
  by (simp_all add: pend_def enter_def)

lemma pend_end_savepoint [uow_simps]: "pend (fst (end_savepoint s x)) = pend s"
  by (simp add: pend_def uow_simps)

definition gathers :: "(service \<times> 'e list) list \<Rightarrow> 'e uow_state \<Rightarrow> 'e uow_state \<Rightarrow> bool" where
  "gathers new s s' \<longleftrightarrow> distinct (map fst (pend s'))
     \<and> (\<forall>j. events_for j (pend s') = events_for j (pend s) @ events_for j new)"

lemma run_gathers:
  "flat_act False a \<Longrightarrow> outermost s \<noteq> None \<Longrightarrow> distinct (map fst (pend s)) \<Longrightarrow>
     \<not> doomed (fst (run_act refuses a s)) \<Longrightarrow> snd (run_act refuses a s) = None \<Longrightarrow>
     gathers (collected_act a) s (fst (run_act refuses a s))
     \<and> scope_events (fst (run_act refuses a s)) = scope_events s @ own_events a"
  "list_all (flat_act False) as \<Longrightarrow> outermost s \<noteq> None \<Longrightarrow> distinct (map fst (pend s)) \<Longrightarrow>
     \<not> doomed (fst (run_acts refuses as s)) \<Longrightarrow> snd (run_acts refuses as s) = None \<Longrightarrow>
     gathers (concat (map collected_act as)) s (fst (run_acts refuses as s))
     \<and> scope_events (fst (run_acts refuses as s)) = scope_events s @ concat (map own_events as)"
  "flat False w \<Longrightarrow> outermost s \<noteq> None \<Longrightarrow> distinct (map fst (pend s)) \<Longrightarrow> scope_events s = [] \<Longrightarrow>
     \<not> doomed (fst (run_work refuses w s)) \<Longrightarrow> snd (run_work refuses w s) = Inr v \<Longrightarrow>
     gathers (collected k w) s (collect_into k (fst (run_work refuses w s)))"
proof (induction refuses a s and refuses as s and refuses w s arbitrary: v k and v k and v k rule: uow_induct)
  case (3 refuses k1 w c s)
  obtain s1 u where x: "run_work refuses w (enter s) = (s1, Inr u)" "\<not> is_failed_result u" "\<not> doomed s1" "outermost s1 \<noteq> None"
    using nested_run_ended [OF "3.prems"(1,2,4)] .
  have "gathers (collected k1 w) (enter s) (collect_into k1 s1)"
    using "3.IH" [of u k1] 3 x by (simp add: uow_simps)
  then show ?case using x by (simp add: uow_simps gathers_def)
next
  case (4 refuses w c s)
  then show ?case by (simp add: uow_simps gathers_def)
next
  case (5 refuses k ce w c s)
  then show ?case by (auto simp: uow_simps gathers_def split: prod.splits)
next
  case (7 refuses a as s)
  obtain s1 e1 where a: "run_act refuses a s = (s1, e1)" by (cases "run_act refuses a s")
  have e1: "e1 = None" using 7 by (auto simp: uow_simps a split: if_splits)
  have o: "outermost s1 \<noteq> None" "\<not> doomed s1"
    using 7 e1 run_outermost(1) [of refuses a s] run_outermost(2) [of refuses as s1]
    by (auto simp: uow_simps a)
  have 1: "gathers (collected_act a) s s1 \<and> scope_events s1 = scope_events s @ own_events a"
    using 7 o e1 by (simp add: a)
  then have "gathers (concat (map collected_act as)) s1 (fst (run_acts refuses as s1))
     \<and> scope_events (fst (run_acts refuses as s1)) = scope_events s1 @ concat (map own_events as)"
    using "7.IH"(2) [of s1 e1] 7 o e1 by (auto simp: a uow_simps gathers_def)
  then show ?case using 1 e1 by (simp add: uow_simps a gathers_def)
next
  case (8 refuses as fin s)
  obtain s1 e1 where a: "run_acts refuses as s = (s1, e1)" by (cases "run_acts refuses as s")
  have e1: "e1 = None" using 8 by (auto simp: run_work.simps a split: option.splits)
  have own: "(\<lambda>a. case a of Collect es \<Rightarrow> es | _ \<Rightarrow> []) = (own_events :: 'a act \<Rightarrow> _)"
    by (rule ext) (auto split: act.split)
  have o: "outermost s1 \<noteq> None" using 8 run_outermost(2) [of refuses as s] by (simp add: a)
  have "gathers (concat (map collected_act as)) s s1 \<and> scope_events s1 = concat (map own_events as)"
    using 8 e1 by (simp add: a uow_simps)
  then show ?case
    using pend_collect_into [OF o] by (simp add: uow_simps a gathers_def own)
qed (auto simp: uow_simps gathers_def)

section \<open>Which rows are written\<close>

lemma run_written:
  "flat_act inside a \<Longrightarrow> one_tx_act a \<Longrightarrow> inside \<or> outermost s \<noteq> None \<and> \<not> doomed (fst (run_act refuses a s)) \<Longrightarrow>
     (if snd (run_act refuses a s) = None
      then \<exists>xs. written_act a = Some xs \<and> tx_log (fst (run_act refuses a s)) = tx_log s @ map Wrote xs
      else written_act a = None)"
  "list_all (flat_act inside) as \<Longrightarrow> list_all one_tx_act as \<Longrightarrow> inside \<or> outermost s \<noteq> None \<and> \<not> doomed (fst (run_acts refuses as s)) \<Longrightarrow>
     (if snd (run_acts refuses as s) = None
      then \<exists>xs. written_acts as = Some xs \<and> tx_log (fst (run_acts refuses as s)) = tx_log s @ map Wrote xs
      else written_acts as = None)"
  "flat inside w \<Longrightarrow> one_tx w \<Longrightarrow> inside \<or> outermost s \<noteq> None \<and> \<not> doomed (fst (run_work refuses w s)) \<Longrightarrow>
     (case snd (run_work refuses w s) of
        Inr v \<Rightarrow> \<exists>xs. written w = Some xs \<and> tx_log (fst (run_work refuses w s)) = tx_log s @ map Wrote xs
      | Inl e \<Rightarrow> written w = None)"
proof (induction refuses a s and refuses as s and refuses w s arbitrary: inside and inside and inside rule: uow_induct)
  case (3 refuses k w c s)
  then have out: "outermost s \<noteq> None" "flat_act False (Run k w c)" "\<not> doomed (fst (run_act refuses (Run k w c) s))" by auto
  obtain s1 u where x: "run_work refuses w (enter s) = (s1, Inr u)" "\<not> is_failed_result u" "\<not> doomed s1" "outermost s1 \<noteq> None"
    using nested_run_ended [OF out(2,1,3)] .
  then show ?case using "3.IH" [of False] "3.prems" out by (simp add: uow_simps)
next
  case (4 refuses w c s)
  then have "case snd (run_work refuses w (enter_savepoint s)) of
        Inr v \<Rightarrow> \<exists>xs. written w = Some xs \<and> tx_log (fst (run_work refuses w (enter_savepoint s))) = tx_log s @ map Wrote xs
      | Inl e \<Rightarrow> written w = None" using "4.IH" [of True] by (auto simp: uow_simps split: sum.splits)
  then show ?case
    by (cases "run_work refuses w (enter_savepoint s)") (auto simp: uow_simps end_savepoint_def split: sum.splits)
next
  case (7 refuses a as s)
  obtain s1 e1 where a: "run_act refuses a s = (s1, e1)" by (cases "run_act refuses a s")
  have *: "inside \<or> outermost s \<noteq> None \<and> \<not> doomed s1"
    using "7.prems"(3) run_outermost(2) [of refuses as s1] by (auto simp: uow_simps a split: if_splits)
  note 1 = "7.IH"(1) [of inside]
  show ?case
  proof (cases e1)
    case (Some e)
    then show ?thesis using 1 "7.prems" * by (simp add: uow_simps a)
  next
    case None
    have "inside \<or> outermost s1 \<noteq> None \<and> \<not> doomed (fst (run_acts refuses as s1))"
      using "7.prems"(3) run_outermost(1) [of refuses a s] None by (auto simp: uow_simps a)
    then show ?thesis using 1 "7.IH"(2) [OF a [symmetric] None, of inside] "7.prems" * None
      by (auto simp: uow_simps a split: if_splits)
  qed
next
  case (8 refuses as fin s)
  then show ?case
    by (cases "run_acts refuses as s"; cases "snd (run_acts refuses as s)"; cases fin) (auto simp: run_work.simps)
qed (simp_all add: uow_simps)

lemma flush_events:
  "flush refuses p = Inr ws \<Longrightarrow>
     (\<forall>h. flushed_to h ws = events_for (Some h) p) \<and> events_for None p = [] \<and> (\<forall>x \<in> set ws. \<exists>h es. x = Flushed h es)"
  by (induction refuses p arbitrary: ws rule: flush.induct)
     (auto simp: flushed_to_def split: if_splits option.splits sum.splits)

section \<open>What a caller may rely on\<close>

definition start :: "'e entry list \<Rightarrow> 'e uow_state" where
  "start db = \<lparr>committed = db, tx_log = [], scope_events = [], outermost = Some \<lparr>doom = None, pending = []\<rparr>\<rparr>"

lemma start_sel [simp]:
  "committed (start db) = db" "tx_log (start db) = []" "scope_events (start db) = []"
  "outermost (start db) \<noteq> None" "pend (start db) = []"
  by (simp_all add: start_def pend_def)

lemma open_transaction_start:
  "open_transaction refuses k ce w db = end_transaction refuses k ce (run_work refuses w (start db))"
  by (simp add: open_transaction_def start_def)

text \<open>Only failed results travel as rollbacks, and only they are remembered as one.\<close>

definition honest :: "'e uow_state \<Rightarrow> bool" where
  "honest s \<longleftrightarrow> (\<forall>v. Option.bind (outermost s) doom = Some (FailedResultRollback v) \<longrightarrow> is_failed_result v)"

lemma honest_start [simp]: "honest (start db)"
  by (simp add: honest_def start_def)

lemma honest_updates [uow_simps]:
  "honest (s\<lparr>scope_events := es\<rparr>) = honest s" "honest (s\<lparr>tx_log := l\<rparr>) = honest s"
  "honest (s\<lparr>committed := db\<rparr>) = honest s" "honest (enter s) = honest s"
  "honest (fst (end_savepoint s x)) = honest s"
  by (simp_all add: honest_def enter_def uow_simps)

lemma honest_end_nested:
  "honest (fst x) \<Longrightarrow> (\<And>v. snd x = Inl (FailedResultRollback v) \<Longrightarrow> is_failed_result v) \<Longrightarrow>
     honest (fst (end_nested k x))
     \<and> (\<forall>v. snd (end_nested k x) = Inl (FailedResultRollback v) \<longrightarrow> is_failed_result v)"
  by (cases x; cases "snd x"; cases "projl (snd x)"; cases "outermost (fst x)")
     (auto simp: uow_simps honest_def doom_with_def collect_into_def split: option.splits if_splits)

lemma run_honest:
  "(honest s \<longrightarrow> honest (fst (run_act refuses a s)))
     \<and> (\<forall>v. snd (run_act refuses a s) = Some (FailedResultRollback v) \<longrightarrow> is_failed_result v)"
  "(honest s \<longrightarrow> honest (fst (run_acts refuses as s)))
     \<and> (\<forall>v. snd (run_acts refuses as s) = Some (FailedResultRollback v) \<longrightarrow> is_failed_result v)"
  "(honest s \<longrightarrow> honest (fst (run_work refuses w s)))
     \<and> (\<forall>v. snd (run_work refuses w s) = Inl (FailedResultRollback v) \<longrightarrow> is_failed_result v)"
proof (induction refuses a s and refuses as s and refuses w s rule: uow_induct)
  case (3 refuses k w c s)
  let ?x = "run_work refuses w (enter s)"
  have "\<And>v. snd ?x = Inl (FailedResultRollback v) \<Longrightarrow> is_failed_result v" using 3 by blast
  then have r: "\<And>v. snd (end_nested k ?x) = Inl (FailedResultRollback v) \<Longrightarrow> is_failed_result v"
    by (cases ?x; cases "snd ?x"; cases "projl (snd ?x)") (auto simp: uow_simps split: if_splits)
  then show ?case using 3 honest_end_nested [of ?x k] by (auto simp: uow_simps)
next
  case (4 refuses w c s)
  then show ?case
    by (auto simp: uow_simps end_savepoint_def split: prod.splits sum.splits)
next
  case (5 refuses k ce w c s)
  show ?case
    by (auto simp: end_transaction_def uow_simps split: prod.splits sum.splits thrown.splits option.splits)
next
  case (7 refuses a as s)
  then show ?case by (cases "run_act refuses a s"; cases "snd (run_act refuses a s)") (auto simp: uow_simps)
next
  case (8 refuses as fin s)
  then show ?case
    by (cases "run_acts refuses as s"; cases "snd (run_acts refuses as s)"; cases fin)
       (auto simp: run_work.simps)
qed (auto simp: uow_simps)

lemma end_transaction_Plain:
  assumes "end_transaction refuses k ce (s, out) = (db', Inr (Plain v))"
    and "\<And>r. out = Inl (FailedResultRollback r) \<Longrightarrow> is_failed_result r"
    and "\<And>r. Option.bind (outermost s) doom = Some (FailedResultRollback r) \<Longrightarrow> is_failed_result r"
    and "outermost s \<noteq> None"
  shows "out = Inr (Plain v) \<and> \<not> doomed s \<and>
    (\<exists>fl. flush refuses (pend (collect_into k s)) = Inr fl \<and> db' = committed s @ tx_log s @ fl)"
  using assms
  by (auto simp: end_transaction_def completes_def doomed_def pend_def uow_simps
      split: sum.splits thrown.splits if_splits option.splits)

lemma open_transaction_Plain:
  assumes "open_transaction refuses k ce w db = (db', Inr (Plain v))"
  shows "\<exists>s fl. run_work refuses w (start db) = (s, Inr (Plain v)) \<and> \<not> doomed s
    \<and> flush refuses (pend (collect_into k s)) = Inr fl \<and> db' = committed s @ tx_log s @ fl"
proof -
  obtain s out where r: "run_work refuses w (start db) = (s, out)" by (cases "run_work refuses w (start db)")
  have "honest s" "\<And>v. out = Inl (FailedResultRollback v) \<Longrightarrow> is_failed_result v" "outermost s \<noteq> None"
    using run_honest(3) [of "start db" refuses w] run_outermost(3) [of refuses w "start db"]
    by (auto simp: r)
  then show ?thesis
    using end_transaction_Plain [of refuses k ce s out db' v] assms
    by (auto simp: open_transaction_start r honest_def)
qed

text \<open>
  A transaction whose caller is told it succeeded had no failed part: every \<open>run\<close> nested in
  it, at any depth, ended with a value, even where the code around it caught the error. (Works
  whose savepoints call \<open>run\<close> are excluded, see \<open>savepoint_hides_a_failed_run\<close>.)
\<close>
theorem uow_success_is_clean:
  assumes "flat False w" and "open_transaction refuses k ce w db = (db', Inr (Plain v))"
  shows "clean w"
proof -
  obtain s fl where "run_work refuses w (start db) = (s, Inr (Plain v))" "\<not> doomed s"
    using open_transaction_Plain [OF assms(2)] by blast
  then show ?thesis using run_clean(3) [OF assms(1), of "start db" refuses v] by simp
qed

theorem uow_success_is_clean_witness:
  "clean (Work [Write ''a'', Run (Some ''outbox'') (Work [Collect [1::nat]] (Return (Plain ''x''))) True]
      (Return (Plain ''y'')))"
  by (rule uow_success_is_clean [of _ "\<lambda>_ _. None" "Some ''outbox''" None "[]"
        "[Wrote ''a'', Flushed ''outbox'' [1]]" "''y''"])
     (simp_all add: open_transaction_start start_def enter_def end_transaction_def completes_def
        end_nested_def collect_into_def settle_call_def run_acts.simps run_work.simps run_act.simps)



text \<open>
  A failed \<open>run\<close> inside a savepoint does not doom the transaction, as it should not while the
  savepoint contains it; but what leaves the savepoint is a \<open>FailedResultRollback\<close>, which the
  \<open>run\<close> around the savepoint takes for a failure already recorded. Caught above, the outer
  transaction commits the rows of a run that threw.
\<close>
lemma savepoint_hides_a_failed_run:
  "open_transaction (\<lambda>_ _. None) (Some ''outbox'') None
     (Work [Run (Some ''outbox'')
              (Work [Write ''half'', Savepoint (Work [Run (Some ''outbox'') (Work [] (Return (FailedResult ''no''))) False]
                                                  (Return (Plain ''x''))) False]
                 (Return (Plain ''y''))) True]
        (Return (Plain ''z''))) []
   = ([Wrote ''half'' :: nat entry], Inr (Plain ''z''))"
  by (simp add: open_transaction_start start_def enter_def enter_savepoint_def end_savepoint_def
      end_transaction_def completes_def end_nested_def collect_into_def doom_with_def settle_call_def
      run_acts.simps run_work.simps run_act.simps)

end
