(* ===== verification/Event_Dispatch.thy ===== *)
theory Event_Dispatch
  imports Event_Catalog
begin

text \<open>
  Subscribing and running event handlers:
  \<open>packages/ddd-kit/src/events/in-memory-event-dispatcher.ts\<close>, \<open>event-dispatcher.ts\<close>,
  \<open>on-event.ts\<close> and \<open>packages/outbox/src/event-handlers.ts\<close>.

  A handler is the reaction it has to an event, its throw or failed \<open>Result\<close> already
  described by \<open>describeFailure\<close>. The locale \<open>event_dispatch\<close> is what the relay relies
  on of an \<open>IEventDispatcher\<close>.
\<close>

section \<open>Reactions\<close>

datatype reaction = Reacted | ReturnedFailure string | Threw string

record handler_outcome =
  ho_name :: string
  ho_error :: "string option"

text \<open>An \<open>unknown\<close> that was thrown or carried by a failed result, as far as it is described.\<close>

datatype failure = ErrorObject string | ErrorString string | Coded string string | Other string

fun describe_failure :: "failure \<Rightarrow> string" where
  "describe_failure (ErrorObject message) = message"
| "describe_failure (ErrorString s) = s"
| "describe_failure (Coded code message) = code @ '': '' @ message"
| "describe_failure (Other text) = text"

section \<open>The in-memory dispatcher\<close>

type_synonym 'e named_handler = "string \<times> ('e \<Rightarrow> reaction)"
type_synonym 'e dispatcher = "string \<rightharpoonup> 'e named_handler list"

fun split_dash :: "string \<Rightarrow> string list" where
  "split_dash [] = [[]]"
| "split_dash (c # cs) =
     (if c = CHR ''-'' then [] # split_dash cs
      else case split_dash cs of [] \<Rightarrow> [[c]] | p # ps \<Rightarrow> (c # p) # ps)"

definition lower_or_digit :: "char \<Rightarrow> bool" where
  "lower_or_digit c \<longleftrightarrow> (CHR ''a'' \<le> c \<and> c \<le> CHR ''z'') \<or> (CHR ''0'' \<le> c \<and> c \<le> CHR ''9'')"

definition handler_name_ok :: "string \<Rightarrow> bool" where
  "handler_name_ok name = list_all (\<lambda>p. p \<noteq> [] \<and> list_all lower_or_digit p) (split_dash name)"

definition handlers_at :: "'e dispatcher \<Rightarrow> string \<Rightarrow> 'e named_handler list" where
  "handlers_at d t = (case d t of None \<Rightarrow> [] | Some hs \<Rightarrow> hs)"

definition subscribe ::
  "string \<Rightarrow> string \<Rightarrow> ('e \<Rightarrow> reaction) \<Rightarrow> 'e dispatcher \<Rightarrow> 'e dispatcher \<times> (unit, string) result" where
  "subscribe t name handle d =
     (if \<not> handler_name_ok name then (d, fail (''INVALID_HANDLER_NAME: '' @ name))
      else if list_ex (\<lambda>(n, _). n = name) (handlers_at d t) then (d, fail (''DUPLICATE_HANDLER: '' @ name))
      else (d(t \<mapsto> handlers_at d t @ [(name, handle)]), ok ()))"

definition handlers_of :: "'e dispatcher \<Rightarrow> string \<Rightarrow> string list" where
  "handlers_of d t = map fst (handlers_at d t)"

definition run_handler :: "'e dispatcher \<Rightarrow> string \<Rightarrow> 'e \<Rightarrow> string \<Rightarrow> handler_outcome" where
  "run_handler d t ev name =
     (case find (\<lambda>(n, _). n = name) (handlers_at d t) of
        None \<Rightarrow> \<lparr>ho_name = name, ho_error = Some (''UNKNOWN_HANDLER: '' @ name @ '' on '' @ t)\<rparr>
      | Some (_, handle) \<Rightarrow>
          (case handle ev of
             Reacted \<Rightarrow> \<lparr>ho_name = name, ho_error = None\<rparr>
           | ReturnedFailure msg \<Rightarrow> \<lparr>ho_name = name, ho_error = Some msg\<rparr>
           | Threw msg \<Rightarrow> \<lparr>ho_name = name, ho_error = Some msg\<rparr>))"

text \<open>\<open>onEvent\<close>: the payload is parsed before the reaction, and every failure is thrown.\<close>

definition on_event ::
  "string \<Rightarrow> ('p \<Rightarrow> string + 'q) option \<Rightarrow> ('e \<Rightarrow> 'p) \<Rightarrow> ('e \<Rightarrow> 'q option \<Rightarrow> reaction) \<Rightarrow> 'e \<Rightarrow> reaction" where
  "on_event t parser payload_of react ev =
     (let reaction =
        (case parser of
           None \<Rightarrow> react ev None
         | Some parse \<Rightarrow>
             (case parse (payload_of ev) of
                Inl msg \<Rightarrow> ReturnedFailure (t @ '' has a malformed payload: '' @ msg)
              | Inr p \<Rightarrow> react ev (Some p)))
      in case reaction of ReturnedFailure msg \<Rightarrow> Threw msg | r \<Rightarrow> r)"

section \<open>Building the dispatcher of a process\<close>

fun subscribe_all :: "(string \<times> string \<times> ('e \<Rightarrow> reaction)) list \<Rightarrow> 'e dispatcher \<Rightarrow> 'e dispatcher throws" where
  "subscribe_all [] d = Inr d"
| "subscribe_all ((t, name, handle) # hs) d =
     (case subscribe t name handle d of
        (_, Inl msg) \<Rightarrow> Inl (t @ '': '' @ msg)
      | (d', Inr _) \<Rightarrow> subscribe_all hs d')"

definition build_event_dispatcher ::
  "(string \<times> ('e \<Rightarrow> reaction)) list \<Rightarrow> (string \<times> string \<times> ('e \<Rightarrow> reaction)) list \<Rightarrow> 'e dispatcher throws" where
  "build_event_dispatcher built_ins user_handlers =
     subscribe_all
       (concat (map (\<lambda>t. map (\<lambda>(name, handle). (t, name, handle)) built_ins) ALL_EVENT_TYPES) @ user_handlers)
       Map.empty"

section \<open>What the relay relies on\<close>

locale event_dispatch =
  fixes wf :: "'d \<Rightarrow> bool"
    and names :: "'d \<Rightarrow> string \<Rightarrow> string list"
    and run :: "'d \<Rightarrow> string \<Rightarrow> 'e \<Rightarrow> string \<Rightarrow> handler_outcome"
  assumes names_distinct: "wf d \<Longrightarrow> distinct (names d t)"
    and run_names: "ho_name (run d t ev n) = n"
    and run_unknown: "wf d \<Longrightarrow> n \<notin> set (names d t) \<Longrightarrow> ho_error (run d t ev n) \<noteq> None"
begin

text \<open>The outcomes of running some of an event's handlers name each of them once.\<close>

lemma outcomes_once:
  assumes "wf d"
  shows "map ho_name (map (run d t ev) (filter p (names d t))) = filter p (names d t)"
    and "distinct (filter p (names d t))"
  using names_distinct [OF assms] by (simp_all add: run_names comp_def)

lemma succeeded_is_subscribed:
  "wf d \<Longrightarrow> ho_error (run d t ev n) = None \<Longrightarrow> n \<in> set (names d t)"
  using run_unknown by blast

end

definition dispatcher_ok :: "'e dispatcher \<Rightarrow> bool" where
  "dispatcher_ok d \<longleftrightarrow> (\<forall>t. distinct (handlers_of d t) \<and> list_all handler_name_ok (handlers_of d t))"

lemma dispatcher_ok_empty: "dispatcher_ok Map.empty"
  by (simp add: dispatcher_ok_def handlers_of_def handlers_at_def)

lemma subscribe_handlers:
  assumes "subscribe t name handle d = (d', Inr u)"
  shows "handlers_of d' x = (if x = t then handlers_of d t @ [name] else handlers_of d x)"
    and "handler_name_ok name" and "name \<notin> set (handlers_of d t)"
  using assms by (auto simp: subscribe_def handlers_of_def handlers_at_def list_ex_iff split: if_splits)

lemma subscribe_keeps_ok: "dispatcher_ok d \<Longrightarrow> dispatcher_ok (fst (subscribe t name handle d))"
proof (cases "snd (subscribe t name handle d)")
  case (Inl e)
  then have "fst (subscribe t name handle d) = d" by (auto simp: subscribe_def split: if_splits)
  then show "dispatcher_ok d \<Longrightarrow> ?thesis" by simp
next
  case (Inr u)
  then have "subscribe t name handle d = (fst (subscribe t name handle d), Inr u)" by (simp add: prod_eq_iff)
  from subscribe_handlers [OF this] show "dispatcher_ok d \<Longrightarrow> ?thesis" by (auto simp: dispatcher_ok_def)
qed

lemma run_handler_name: "ho_name (run_handler d t ev n) = n"
  by (simp add: run_handler_def split: option.split prod.split reaction.split)

interpretation dispatch: event_dispatch dispatcher_ok handlers_of run_handler
proof unfold_locales
  fix d :: "'a dispatcher" and t ev n
  show "dispatcher_ok d \<Longrightarrow> distinct (handlers_of d t)" by (simp add: dispatcher_ok_def)
  show "ho_name (run_handler d t ev n) = n" by (rule run_handler_name)
  assume "n \<notin> set (handlers_of d t)"
  then have "find (\<lambda>(m, _). m = n) (handlers_at d t) = None"
    by (force simp: find_None_iff handlers_of_def)
  then show "ho_error (run_handler d t ev n) \<noteq> None" by (simp add: run_handler_def)
qed

lemma subscribe_all_ok: "dispatcher_ok d \<Longrightarrow> subscribe_all hs d = Inr d' \<Longrightarrow> dispatcher_ok d'"
proof (induction hs d rule: subscribe_all.induct)
  case (2 t name handle hs d)
  then show ?case
    using subscribe_keeps_ok [of d t name handle]
    by (auto split: prod.splits sum.splits)
qed simp

text \<open>What a subscription list leaves subscribed: exactly its names, in order.\<close>

lemma subscribe_all_handlers:
  "subscribe_all hs d = Inr d' \<Longrightarrow>
     handlers_of d' x = handlers_of d x @ map (fst \<circ> snd) (filter (\<lambda>h. fst h = x) hs)"
proof (induction hs d arbitrary: d' rule: subscribe_all.induct)
  case (2 t name handle hs d)
  obtain d1 u where s: "subscribe t name handle d = (d1, Inr u)"
    using 2 by (auto split: prod.splits sum.splits)
  then have "handlers_of d' x = handlers_of d1 x @ map (fst \<circ> snd) (filter (\<lambda>h. fst h = x) hs)"
    using 2 by auto
  then show ?case using subscribe_handlers(1) [OF s] by simp
qed simp

text \<open>
  A dispatcher that builds hears the whole catalogue: each handler name is well formed and
  subscribed once per event type, every built-in hears every event of the catalogue, and a user
  handler hears the type it was declared for, so no declared subscription is lost and none doubled.
\<close>
theorem dispatcher_complete:
  assumes "build_event_dispatcher built_ins user = Inr d"
  shows "dispatcher_ok d
    \<and> (\<forall>t name handle. t \<in> set ALL_EVENT_TYPES \<longrightarrow> (name, handle) \<in> set built_ins \<longrightarrow> name \<in> set (handlers_of d t))
    \<and> (\<forall>t name handle. (t, name, handle) \<in> set user \<longrightarrow> name \<in> set (handlers_of d t))"
proof -
  let ?hs = "concat (map (\<lambda>t. map (\<lambda>(name, handle). (t, name, handle)) built_ins) ALL_EVENT_TYPES) @ user"
  have all: "subscribe_all ?hs Map.empty = Inr d" using assms by (simp add: build_event_dispatcher_def)
  have "name \<in> set (handlers_of d t)" if "(t, name, handle) \<in> set ?hs" for t name handle
    using subscribe_all_handlers [OF all, of t] that by (force intro: rev_image_eqI)
  moreover have "(t, name, handle) \<in> set ?hs"
    if "t \<in> set ALL_EVENT_TYPES" "(name, handle) \<in> set built_ins" for t name handle
    using that by force
  ultimately show ?thesis using subscribe_all_ok [OF dispatcher_ok_empty all] by (metis Un_iff set_append)
qed

theorem dispatcher_complete_witness:
  "''audit-log'' \<in> set (handlers_of [''user.created'' \<mapsto> [(''audit-log'', \<lambda>_ :: nat. Reacted)]] ''user.created'')"
proof -
  have none: "concat (map (\<lambda>t. []) ts) = ([] :: (string \<times> string \<times> (nat \<Rightarrow> reaction)) list)" for ts :: "string list"
    by (induction ts) simp_all
  have "build_event_dispatcher [] [(''user.created'', ''audit-log'', \<lambda>_ :: nat. Reacted)]
      = Inr [''user.created'' \<mapsto> [(''audit-log'', \<lambda>_. Reacted)]]"
    by (simp add: none build_event_dispatcher_def subscribe_def handler_name_ok_def lower_or_digit_def
        handlers_at_def less_eq_char_def)
  from dispatcher_complete [OF this] show ?thesis by simp
qed

end
