(* ===== verification/Lanes.thy ===== *)
theory Lanes
  imports Prelude "HOL-Library.Multiset"
begin

text \<open>
  \<open>eachBounded\<close> of \<open>packages/outbox/src/outbox-relay.ts\<close>: a fixed number of lanes share one
  cursor over the records. A turn of an idle lane takes the next record, a turn of a working lane
  lets its work take effect; a lane whose work throws is rejected and takes no more. The schedule is
  the list of the lanes' turns, so works overlap and take effect in any order.
\<close>

datatype 'r lane = Idle | Working 'r | Rejected string

record ('r, 's) pool =
  cursor :: "'r list"
  lanes :: "'r lane list"
  world :: 's

type_synonym ('r, 's) work = "'r \<Rightarrow> 's \<Rightarrow> 's \<times> string option"

definition start_pool :: "int \<Rightarrow> 'r list \<Rightarrow> 's \<Rightarrow> ('r, 's) pool" where
  "start_pool concurrency rs s =
     \<lparr>cursor = rs, lanes = replicate (min (nat concurrency) (length rs)) Idle, world = s\<rparr>"

definition lane_turn :: "('r, 's) work \<Rightarrow> nat \<Rightarrow> ('r, 's) pool \<Rightarrow> ('r, 's) pool" where
  "lane_turn work l p =
     (if length (lanes p) \<le> l then p
      else case lanes p ! l of
        Idle \<Rightarrow> (case cursor p of
            [] \<Rightarrow> p
          | r # rs \<Rightarrow> p\<lparr>cursor := rs, lanes := (lanes p)[l := Working r]\<rparr>)
      | Working r \<Rightarrow> (case work r (world p) of
            (s, None) \<Rightarrow> p\<lparr>lanes := (lanes p)[l := Idle], world := s\<rparr>
          | (s, Some e) \<Rightarrow> p\<lparr>lanes := (lanes p)[l := Rejected e], world := s\<rparr>)
      | Rejected e \<Rightarrow> p)"

definition run_lanes :: "('r, 's) work \<Rightarrow> nat list \<Rightarrow> ('r, 's) pool \<Rightarrow> ('r, 's) pool" where
  "run_lanes work sched p = fold (lane_turn work) sched p"

text \<open>Every lane has ended: it found no more records, or it was rejected.\<close>

fun lane_ended :: "'r list \<Rightarrow> 'r lane \<Rightarrow> bool" where
  "lane_ended rest Idle = (rest = [])"
| "lane_ended rest (Working r) = False"
| "lane_ended rest (Rejected e) = True"

definition pool_ended :: "('r, 's) pool \<Rightarrow> bool" where
  "pool_ended p = list_all (lane_ended (cursor p)) (lanes p)"

fun first_rejected :: "'r lane list \<Rightarrow> string option" where
  "first_rejected [] = None"
| "first_rejected (Rejected e # ls) = Some e"
| "first_rejected (l # ls) = first_rejected ls"

section \<open>Every record is worked once\<close>

fun held :: "'r lane \<Rightarrow> 'r list" where
  "held (Working r) = [r]"
| "held l = []"

definition effects :: "('r, 's) work \<Rightarrow> 'r list \<Rightarrow> 's \<Rightarrow> 's" where
  "effects work rs s = fold (\<lambda>r s. fst (work r s)) rs s"

lemma effects_snoc [simp]: "effects work (rs @ [r]) s = fst (work r (effects work rs s))"
  by (simp add: effects_def)

lemma held_update:
  "l < length ls \<Longrightarrow> mset (concat (map held (ls[l := x]))) + mset (held (ls ! l))
     = mset (concat (map held ls)) + mset (held x)"
proof (induction ls arbitrary: l)
  case (Cons y ys)
  then show ?case by (cases l) (auto simp: ac_simps)
qed simp

text \<open>\<open>ds\<close> is the order in which works took effect.\<close>

definition accounts :: "('r, 's) work \<Rightarrow> 'r list \<Rightarrow> 's \<Rightarrow> 'r list \<Rightarrow> ('r, 's) pool \<Rightarrow> bool" where
  "accounts work rs s ds p \<longleftrightarrow> world p = effects work ds s
     \<and> mset ds + mset (concat (map held (lanes p))) + mset (cursor p) = mset rs"

lemma accounts_turn:
  assumes "accounts work rs s ds p"
  shows "\<exists>ds'. accounts work rs s ds' (lane_turn work l p)"
proof (cases "length (lanes p) \<le> l")
  case True
  then show ?thesis using assms by (auto simp: lane_turn_def)
next
  case False
  then have l: "l < length (lanes p)" by simp
  show ?thesis
  proof (cases "lanes p ! l")
    case Idle
    then show ?thesis using assms l held_update [OF l, of "Working (hd (cursor p))"]
      by (cases "cursor p")
         (auto simp: lane_turn_def accounts_def ac_simps intro!: exI [of _ ds])
  next
    case (Working r)
    obtain s' e where w: "work r (world p) = (s', e)" by (cases "work r (world p)")
    have "accounts work rs s (ds @ [r]) (lane_turn work l p)"
    proof (cases e)
      case None
      then show ?thesis using assms l w Working held_update [OF l, of Idle, symmetric]
        by (auto simp: lane_turn_def accounts_def ac_simps)
    next
      case (Some m)
      then show ?thesis using assms l w Working held_update [OF l, of "Rejected m", symmetric]
        by (auto simp: lane_turn_def accounts_def ac_simps)
    qed
    then show ?thesis by blast
  next
    case (Rejected e)
    then show ?thesis using assms l by (auto simp: lane_turn_def)
  qed
qed

lemma accounts_run:
  "accounts work rs s ds p \<Longrightarrow> \<exists>ds'. accounts work rs s ds' (run_lanes work sched p)"
proof (induction sched arbitrary: ds p)
  case Nil
  then show ?case by (auto simp: run_lanes_def)
next
  case (Cons l ls)
  from accounts_turn [OF Cons.prems] obtain d where d: "accounts work rs s d (lane_turn work l p)" ..
  have "run_lanes work (l # ls) p = run_lanes work ls (lane_turn work l p)" by (simp add: run_lanes_def)
  then show ?case using Cons.IH [OF d] by (simp only:)
qed

lemma accounts_start: "accounts work rs s [] (start_pool c rs s)"
  by (simp add: accounts_def start_pool_def effects_def map_replicate_const)

lemma start_accounts: "\<exists>d. accounts work rs s d (run_lanes work sched (start_pool c rs s))"
  by (rule accounts_run [OF accounts_start])

lemma held_concat_Nil: "(\<And>l. l \<in> set ls \<Longrightarrow> held l = []) \<Longrightarrow> concat (map held ls) = []"
  by (induction ls) auto

lemma ended_holds_nothing: "pool_ended p \<Longrightarrow> concat (map held (lanes p)) = []"
proof (rule held_concat_Nil)
  fix l assume "pool_ended p" "l \<in> set (lanes p)"
  then show "held l = []" by (cases l) (auto simp: pool_ended_def list_all_iff)
qed

lemma first_rejected_None: "first_rejected ls = None \<longleftrightarrow> (\<forall>e. Rejected e \<notin> set ls)"
  by (induction ls rule: first_rejected.induct) auto

lemma length_lanes_run: "length (lanes (run_lanes work sched p)) = length (lanes p)"
proof (induction sched arbitrary: p)
  case (Cons l ls)
  have "length (lanes (lane_turn work l p)) = length (lanes p)"
    by (auto simp: lane_turn_def split: lane.split list.split prod.split option.split)
  then show ?case using Cons by (simp add: run_lanes_def)
qed (simp add: run_lanes_def)

text \<open>
  A pool that ended without a rejection worked every record exactly once, in some order of their
  effects; a rejection leaves a record unworked only when no lane is left idle.
\<close>

lemma pool_works_all:
  assumes "0 < c" and "p = run_lanes work sched (start_pool c rs s)" and "pool_ended p"
    and "first_rejected (lanes p) = None \<or> Idle \<in> set (lanes p)"
  shows "\<exists>order. mset order = mset rs \<and> world p = effects work order s"
proof -
  have "\<exists>d. accounts work rs s d p" unfolding assms(2) by (rule start_accounts)
  then obtain d where d: "accounts work rs s d p" ..
  have "cursor p = []"
  proof (cases "Idle \<in> set (lanes p)")
    case True
    then show ?thesis using assms(3) by (auto simp: pool_ended_def list_all_iff)
  next
    case False
    have "lanes p = []"
    proof (rule ccontr)
      assume "lanes p \<noteq> []"
      then obtain l where l: "l \<in> set (lanes p)" by (cases "lanes p") auto
      have none: "first_rejected (lanes p) = None" using assms(4) False by blast
      show False
      proof (cases l)
        case Idle
        then show False using l False by blast
      next
        case (Working r)
        then show False using l assms(3) by (auto simp: pool_ended_def list_all_iff)
      next
        case (Rejected e)
        then show False using l none by (auto simp: first_rejected_None)
      qed
    qed
    then have "rs = []" using length_lanes_run [of work sched "start_pool c rs s"] assms(1,2)
      by (auto simp: start_pool_def min_def split: if_splits)
    then show ?thesis using d by (simp add: accounts_def)
  qed
  then have "mset d = mset rs" using d ended_holds_nothing [OF assms(3)] by (simp add: accounts_def)
  then show ?thesis using d by (auto simp: accounts_def)
qed

text \<open>Whatever the schedule, what took effect is some of the records, each at most once.\<close>

lemma pool_works_some:
  "\<exists>order. mset order \<subseteq># mset rs \<and> world (run_lanes work sched (start_pool c rs s)) = effects work order s"
proof -
  have "\<exists>d. accounts work rs s d (run_lanes work sched (start_pool c rs s))" by (rule start_accounts)
  then obtain d where "accounts work rs s d (run_lanes work sched (start_pool c rs s))" ..
  then show ?thesis unfolding accounts_def by (metis mset_subset_eq_add_left union_assoc)
qed

section \<open>A pool ends\<close>

text \<open>Turns left: two for a record not picked up, one for a record held.\<close>

definition turns_left :: "('r, 's) pool \<Rightarrow> nat" where
  "turns_left p = 2 * length (cursor p) + length (concat (map held (lanes p)))"

lemma length_held_update:
  "l < length ls \<Longrightarrow> length (concat (map held (ls[l := x]))) + length (held (ls ! l))
     = length (concat (map held ls)) + length (held x)"
  using arg_cong [OF held_update, of l ls size x] by (simp add: size_mset)

lemma lane_turn_progress:
  assumes "\<not> pool_ended p"
  shows "\<exists>l < length (lanes p). turns_left (lane_turn work l p) < turns_left p"
proof -
  obtain l where l: "l < length (lanes p)" "\<not> lane_ended (cursor p) (lanes p ! l)"
    using assms by (auto simp: pool_ended_def list_all_length)
  show ?thesis
  proof (cases "lanes p ! l")
    case Idle
    then show ?thesis using l length_held_update [OF l(1), of "Working (hd (cursor p))"]
      by (cases "cursor p") (auto simp: lane_turn_def turns_left_def intro!: exI [of _ l])
  next
    case (Working r)
    obtain s' e where w: "work r (world p) = (s', e)" by (cases "work r (world p)")
    show ?thesis using l Working w length_held_update [OF l(1), of Idle]
        length_held_update [OF l(1), of "Rejected (the e)"]
      by (cases e) (auto simp: lane_turn_def turns_left_def intro!: exI [of _ l])
  qed (use l in auto)
qed

lemma pool_can_end:
  "\<exists>sched. length sched \<le> turns_left p \<and> pool_ended (run_lanes work sched p)"
proof (induction "turns_left p" arbitrary: p rule: less_induct)
  case less
  show ?case
  proof (cases "pool_ended p")
    case True
    then show ?thesis by (intro exI [of _ "[]"]) (simp add: run_lanes_def)
  next
    case False
    then obtain l where l: "turns_left (lane_turn work l p) < turns_left p"
      using lane_turn_progress by blast
    obtain sched where "length sched \<le> turns_left (lane_turn work l p)"
      "pool_ended (run_lanes work sched (lane_turn work l p))" using less [OF l] by blast
    then show ?thesis using l by (intro exI [of _ "l # sched"]) (simp add: run_lanes_def)
  qed
qed

end
