(* ===== verification/Outbox_Relay.thy ===== *)
theory Outbox_Relay
  imports Outbox_Protocol Event_Dispatch Lanes
begin

text \<open>
  The relay that delivers outbox rows to their handlers:
  \<open>packages/outbox/src/outbox-relay.ts\<close> and \<open>race-with-timeout.ts\<close>.

  What one record's delivery reads from outside is the record \<open>work_env\<close>: the clocks, the
  random number and fresh id it draws, which of handler, interruption and timeout wins the race of
  each handler, whether the relay is halted when a lane picks the record up, and whether the driver
  raises. \<open>eachBounded\<close> is a pool of lanes driven by a schedule: a turn of a lane either picks
  the next record or lets the work on the one it holds take effect, so any number of records are in
  progress at once and their effects come in any order.
\<close>

section \<open>Options, events, errors\<close>

definition OUTBOX_SETTLE_MARGIN_SECONDS :: int where "OUTBOX_SETTLE_MARGIN_SECONDS = 10"
definition OUTBOX_LAST_ERROR_MAX_LENGTH :: nat where "OUTBOX_LAST_ERROR_MAX_LENGTH = 1000"
definition TIMED_OUT :: string where "TIMED_OUT = ''timed out''"

record relay_options =
  ro_event_types :: "string list"
  ro_batch_size :: int
  ro_max_attempts :: int
  ro_lease_seconds :: int
  ro_dead_retry_seconds :: int
  ro_concurrency :: int
  ro_handler_budget :: int

record drain_outcome =
  n_dispatched :: nat
  n_failed :: nat
  n_died :: nat
  n_released :: nat

definition claim_limit_of :: "relay_options \<Rightarrow> int" where
  "claim_limit_of o1 =
     (let usable = ro_lease_seconds o1 - OUTBOX_SETTLE_MARGIN_SECONDS;
          rounds = max 1 (usable div ro_handler_budget o1)
      in min (ro_batch_size o1) (rounds * max 1 (ro_concurrency o1)))"

record delivered_event =
  de_id :: ident
  de_type :: string
  de_aggregate :: string
  de_aggregate_type :: string
  de_organization :: "string option"
  de_request :: "string option"
  de_date :: instant
  de_payload :: json

definition to_delivered_event :: "outbox_row \<Rightarrow> delivered_event" where
  "to_delivered_event r =
     \<lparr>de_id = row_id r, de_type = event_type r, de_aggregate = aggregate_id r,
      de_aggregate_type = aggregate_type r, de_organization = organization_id r,
      de_request = meta_request_id (metadata r), de_date = occurred_at r, de_payload = payload r\<rparr>"

fun join_with :: "string \<Rightarrow> string list \<Rightarrow> string" where
  "join_with sep [] = []"
| "join_with sep [s] = s"
| "join_with sep (s # ss) = s @ sep @ join_with sep ss"

definition stored_error :: "(string \<Rightarrow> string) \<Rightarrow> (string \<times> string) list \<Rightarrow> string" where
  "stored_error scrub fs =
     take OUTBOX_LAST_ERROR_MAX_LENGTH (join_with ''; '' (map (\<lambda>(n, e). n @ '': '' @ scrub e) fs))"

section \<open>Running the handlers of one record\<close>

datatype race_winner = HandlerWins | InterruptWins | TimeoutWins
datatype handler_run = RanOk | RanFailed string | Interrupted

record work_env =
  w_halted :: bool
  w_race :: "string \<Rightarrow> race_winner"
  w_at :: instant
  w_now :: instant
  w_random :: real
  w_settle_error :: "string option"
  w_fresh :: ident
  w_date :: instant
  w_enqueue_error :: "string option"
  w_commit_error :: "string option"

text \<open>
  \<open>name in record.deliveries\<close>: the deliveries are a parsed JSON object, and \<open>in\<close> also
  finds what it inherits from \<open>Object.prototype\<close>.
\<close>

definition OBJECT_PROTOTYPE :: "string list" where
  "OBJECT_PROTOTYPE = [''constructor'', ''hasOwnProperty'', ''isPrototypeOf'', ''propertyIsEnumerable'',
     ''toLocaleString'', ''toString'', ''valueOf'', ''__proto__'', ''__defineGetter__'',
     ''__defineSetter__'', ''__lookupGetter__'', ''__lookupSetter__'']"

definition in_object :: "string \<Rightarrow> deliveries \<Rightarrow> bool" where
  "in_object name d \<longleftrightarrow> d name \<noteq> None \<or> name \<in> set OBJECT_PROTOTYPE"

definition run_one ::
  "delivered_event dispatcher \<Rightarrow> work_env \<Rightarrow> delivered_event \<Rightarrow> string \<Rightarrow> handler_run" where
  "run_one d env ev name =
     (case w_race env name of
        InterruptWins \<Rightarrow> Interrupted
      | TimeoutWins \<Rightarrow> RanFailed TIMED_OUT
      | HandlerWins \<Rightarrow>
          (case ho_error (run_handler d (de_type ev) ev name) of
             None \<Rightarrow> RanOk
           | Some e \<Rightarrow> RanFailed e))"

datatype delivery = DeliveryInterrupted | DeliveryDone deliveries "(string \<times> string) list"

definition deliver ::
  "delivered_event dispatcher \<Rightarrow> work_env \<Rightarrow> outbox_row \<Rightarrow> string list \<Rightarrow> delivery" where
  "deliver d env r names =
     (let ev = to_delivered_event r;
          runs = map (\<lambda>n. (n, run_one d env ev n)) (filter (\<lambda>n. \<not> in_object n (delivered_to r)) names)
      in if list_ex (\<lambda>(_, run). run = Interrupted) runs then DeliveryInterrupted
         else DeliveryDone
           (map_of (map (\<lambda>(n, _). (n, w_at env)) (filter (\<lambda>(_, run). run = RanOk) runs)))
           (concat (map (\<lambda>(n, run). case run of RanFailed e \<Rightarrow> [(n, e)] | _ \<Rightarrow> []) runs)))"

section \<open>Settling\<close>

text \<open>
  \<open>uow.run\<close> around one body, outside any other: a failed \<open>Result\<close> or a throw rolls back.
\<close>

definition uow_run ::
  "string option \<Rightarrow> ('db \<Rightarrow> ('db \<times> ('a, string) result) throws) \<Rightarrow> 'db \<Rightarrow> 'db \<times> ('a, string) result throws" where
  "uow_run commit_error body db =
     (case body db of
        Inl e \<Rightarrow> (db, Inl e)
      | Inr (db', Inl e) \<Rightarrow> (db, Inr (fail e))
      | Inr (db', Inr a) \<Rightarrow> (case commit_error of Some e \<Rightarrow> (db, Inl e) | None \<Rightarrow> (db', Inr (ok a))))"

type_synonym relay_state = "outbox_db \<times> drain_outcome"

definition death_event :: "work_env \<Rightarrow> outbox_row \<Rightarrow> string \<Rightarrow> string list \<Rightarrow> domain_event" where
  "death_event env r last_err failed_handlers =
     \<lparr>ev_id = Some (w_fresh env),
      ev_type = OUTBOX_EVENT_DEAD,
      ev_date = w_date env,
      ev_aggregate = row_id r,
      ev_payload = JObj
        [(''eventId'', JStr (row_id r)), (''eventType'', JStr (event_type r)),
         (''aggregateId'', JStr (aggregate_id r)), (''attempts'', JNum (attempts r)),
         (''lastError'', JStr last_err), (''failedHandlers'', JArr (map JStr failed_handlers)),
         (''actorUserId'', JNull)]\<rparr>"

definition death_scope :: enqueue_scope where
  "death_scope = \<lparr>sc_source = ''app/api/outbox-relay'', sc_organization = None,
     sc_aggregate_type = Some ''outbox_event'', sc_traceparent = None\<rparr>"

definition announce_death ::
  "payload_schema \<Rightarrow> work_env \<Rightarrow> outbox_row \<Rightarrow> string \<Rightarrow> string list \<Rightarrow> outbox_db \<Rightarrow> outbox_db throws" where
  "announce_death schema env r last_err failed_handlers db =
     enqueue (w_enqueue_error env) schema None (\<lambda>_. w_fresh env)
       [death_event env r last_err failed_handlers] death_scope db"

definition schedule_of :: "relay_options \<Rightarrow> work_env \<Rightarrow> outbox_row \<Rightarrow> bool \<times> int" where
  "schedule_of opts env r =
     failure_schedule (w_random env) (attempts r)
       \<lparr>was_dead = (dead_at r \<noteq> None), max_attempts = ro_max_attempts opts,
        dead_retry_seconds = ro_dead_retry_seconds opts\<rparr>"

definition announces :: "relay_options \<Rightarrow> work_env \<Rightarrow> outbox_row \<Rightarrow> bool" where
  "announces opts env r \<longleftrightarrow>
     fst (schedule_of opts env r) \<and> dead_at r = None \<and> event_type r \<noteq> OUTBOX_EVENT_DEAD"

definition fail_body ::
  "relay_options \<Rightarrow> payload_schema \<Rightarrow> work_env \<Rightarrow> outbox_row \<Rightarrow> deliveries \<Rightarrow> string list \<Rightarrow> string \<Rightarrow>
   outbox_db \<Rightarrow> (outbox_db \<times> (bool, string) result) throws" where
  "fail_body opts schema env r d failed_handlers last_err db =
     (let (dead, retry) = schedule_of opts env r
      in case mark_failed (w_settle_error env) (w_now env) (lease_of r)
             \<lparr>f_last_error = last_err, f_retry_after = retry, f_dead = dead, f_deliveries = d\<rparr>
             (outbox_rows db) of
           (rows, written) \<Rightarrow>
             if written \<noteq> ok True \<or> \<not> announces opts env r then Inr (db\<lparr>outbox_rows := rows\<rparr>, written)
             else case announce_death schema env r last_err failed_handlers (db\<lparr>outbox_rows := rows\<rparr>) of
                    Inl e \<Rightarrow> Inl e
                  | Inr db' \<Rightarrow> Inr (db', written))"

definition settle_failure ::
  "relay_options \<Rightarrow> payload_schema \<Rightarrow> work_env \<Rightarrow> outbox_row \<Rightarrow> deliveries \<Rightarrow> string list \<Rightarrow> string \<Rightarrow>
   relay_state \<Rightarrow> relay_state \<times> string option" where
  "settle_failure opts schema env r d failed_handlers last_err s =
     (case uow_run (w_commit_error env) (fail_body opts schema env r d failed_handlers last_err) (fst s) of
        (db, Inl e) \<Rightarrow> ((db, snd s), Some e)
      | (db, Inr (Inl e)) \<Rightarrow> ((db, snd s), Some e)
      | (db, Inr (Inr False)) \<Rightarrow> ((db, snd s), None)
      | (db, Inr (Inr True)) \<Rightarrow>
          (let dead = fst (schedule_of opts env r);
               out = (snd s)\<lparr>n_failed := Suc (n_failed (snd s))\<rparr>
           in ((db, if \<not> dead \<or> dead_at r \<noteq> None then out else out\<lparr>n_died := Suc (n_died out)\<rparr>), None)))"

definition relay_release :: "work_env \<Rightarrow> outbox_row \<Rightarrow> relay_state \<Rightarrow> relay_state \<times> string option" where
  "relay_release env r s =
     (case outbox_release (w_settle_error env) (w_now env) (lease_of r) (outbox_rows (fst s)) of
        (rows, Inl e) \<Rightarrow> (((fst s)\<lparr>outbox_rows := rows\<rparr>, snd s), Some e)
      | (rows, Inr b) \<Rightarrow>
          (((fst s)\<lparr>outbox_rows := rows\<rparr>,
            if b then (snd s)\<lparr>n_released := Suc (n_released (snd s))\<rparr> else snd s), None))"

definition relay_settle ::
  "relay_options \<Rightarrow> payload_schema \<Rightarrow> (string \<Rightarrow> string) \<Rightarrow> delivered_event dispatcher \<Rightarrow> work_env \<Rightarrow> outbox_row \<Rightarrow>
   relay_state \<Rightarrow> relay_state \<times> string option" where
  "relay_settle opts schema scrub disp env r s =
     (let names = handlers_of disp (event_type r)
      in if names = []
         then settle_failure opts schema env r Map.empty []
                (event_type r @ '' has no subscriber in this process'') s
         else case deliver disp env r names of
             DeliveryInterrupted \<Rightarrow> relay_release env r s
           | DeliveryDone d [] \<Rightarrow>
               (case mark_delivered (w_settle_error env) (w_now env) (lease_of r) d (outbox_rows (fst s)) of
                  (rows, Inl e) \<Rightarrow> (((fst s)\<lparr>outbox_rows := rows\<rparr>, snd s), Some e)
                | (rows, Inr b) \<Rightarrow>
                    (((fst s)\<lparr>outbox_rows := rows\<rparr>,
                      if b then (snd s)\<lparr>n_dispatched := Suc (n_dispatched (snd s))\<rparr> else snd s), None))
           | DeliveryDone d failures \<Rightarrow>
               settle_failure opts schema env r d (map fst failures) (stored_error scrub failures) s)"

definition relay_work where
  "relay_work opts schema scrub disp env_of r s =
     (if w_halted (env_of r) then relay_release (env_of r) r s
      else relay_settle opts schema scrub disp (env_of r) r s)"

section \<open>Draining once\<close>

definition no_outcome :: drain_outcome where
  "no_outcome = \<lparr>n_dispatched = 0, n_failed = 0, n_died = 0, n_released = 0\<rparr>"

definition relay_claim_request :: "relay_options \<Rightarrow> claim_request" where
  "relay_claim_request opts =
     \<lparr>cl_limit = nat (claim_limit_of opts), cl_types = ro_event_types opts, cl_lease = ro_lease_seconds opts\<rparr>"

text \<open>
  The pool the claimed records are worked in, after the turns of the schedule; \<open>None\<close> when the
  relay is halted or the claim failed.
\<close>

definition drain_pool where
  "drain_pool opts schema scrub disp env_of claim_error now locked sched db =
     (case outbox_claim claim_error now locked (relay_claim_request opts) (outbox_rows db) of
        (rows, Inl e) \<Rightarrow> Inl e
      | (rows, Inr records) \<Rightarrow>
          Inr (run_lanes (relay_work opts schema scrub disp env_of) sched
                 (start_pool (ro_concurrency opts) records (db\<lparr>outbox_rows := rows\<rparr>, no_outcome))))"

definition drain_once where
  "drain_once halted opts schema scrub disp env_of claim_error now locked sched db =
     (if halted then (db, Inr no_outcome)
      else case drain_pool opts schema scrub disp env_of claim_error now locked sched db of
        Inl e \<Rightarrow> (db, Inl e)
      | Inr p \<Rightarrow> (case first_rejected (lanes p) of
            Some e \<Rightarrow> (fst (world p), Inl e)
          | None \<Rightarrow> (fst (world p), Inr (snd (world p)))))"

section \<open>A claim fits its lease\<close>

text \<open>
  What a relay claims it can finish: with a budget that fits the lease at all, working the
  whole batch in rounds of the relay's concurrency, each taking at most the handler budget, ends
  before the lease does, with the settlement margin to spare.
\<close>
theorem claim_fits_lease:
  assumes "0 < ro_handler_budget opts" and "1 \<le> ro_concurrency opts"
    and "ro_handler_budget opts + OUTBOX_SETTLE_MARGIN_SECONDS \<le> ro_lease_seconds opts"
    and "rounds = (claim_limit_of opts + ro_concurrency opts - 1) div ro_concurrency opts"
  shows "rounds * ro_handler_budget opts + OUTBOX_SETTLE_MARGIN_SECONDS \<le> ro_lease_seconds opts"
proof -
  define u where "u = (ro_lease_seconds opts - OUTBOX_SETTLE_MARGIN_SECONDS) div ro_handler_budget opts"
  have "ro_handler_budget opts div ro_handler_budget opts \<le> u"
    unfolding u_def using assms(1,3) by (intro zdiv_mono1) auto
  then have u: "1 \<le> u" using assms(1) by simp
  have "claim_limit_of opts \<le> u * ro_concurrency opts"
    using assms(2) u by (simp add: claim_limit_of_def Let_def u_def [symmetric])
  then have "rounds \<le> (u * ro_concurrency opts + ro_concurrency opts - 1) div ro_concurrency opts"
    unfolding assms(4) using assms(2) by (intro zdiv_mono1) auto
  also have "\<dots> = u"
    by (rule int_div_pos_eq [of _ _ _ "ro_concurrency opts - 1"]) (use assms(2) in \<open>auto simp: algebra_simps\<close>)
  finally have "rounds * ro_handler_budget opts \<le> u * ro_handler_budget opts"
    using assms(1) by simp
  also have "\<dots> \<le> ro_lease_seconds opts - OUTBOX_SETTLE_MARGIN_SECONDS"
    using minus_mod_eq_div_mult [of "ro_lease_seconds opts - OUTBOX_SETTLE_MARGIN_SECONDS" "ro_handler_budget opts"]
      pos_mod_sign [OF assms(1), of "ro_lease_seconds opts - OUTBOX_SETTLE_MARGIN_SECONDS"]
    unfolding u_def by linarith
  finally show ?thesis by simp
qed

theorem claim_fits_lease_witness: "2 * 20 + OUTBOX_SETTLE_MARGIN_SECONDS \<le> (60 :: int)"
  using claim_fits_lease [of "\<lparr>ro_event_types = [], ro_batch_size = 100, ro_max_attempts = 5, ro_lease_seconds = 60,
      ro_dead_retry_seconds = 900, ro_concurrency = 4, ro_handler_budget = 20\<rparr>" 2]
  by (simp add: claim_limit_of_def OUTBOX_SETTLE_MARGIN_SECONDS_def)

section \<open>Deliveries\<close>

lemma ok_runs:
  "map_of (map (\<lambda>(n, _). (n, stamp)) (filter (\<lambda>(_, run). run = RanOk) (map (\<lambda>n. (n, f n)) ns))) n
     = (if n \<in> set ns \<and> f n = RanOk then Some stamp else None)"
  by (induction ns) auto

lemma failed_runs:
  "n \<in> fst ` set (concat (map (\<lambda>(n, run). case run of RanFailed e \<Rightarrow> [(n, e)] | _ \<Rightarrow> [])
       (map (\<lambda>n. (n, f n)) ns))) \<longleftrightarrow> n \<in> set ns \<and> (\<exists>e. f n = RanFailed e)"
proof (induction ns)
  case (Cons m ns)
  then show ?case by (cases "f m"; cases "n = m") auto
qed simp

lemma deliver_done:
  assumes "deliver disp env r names = DeliveryDone d failures" and "distinct names"
  shows "\<forall>n \<in> set names. in_object n (delivered_to r) \<or> d n \<noteq> None \<or> n \<in> fst ` set failures"
    and "\<forall>n. d n \<noteq> None \<longrightarrow> n \<in> set names \<and> \<not> in_object n (delivered_to r)
           \<and> run_one disp env (to_delivered_event r) n = RanOk"
proof -
  let ?ev = "to_delivered_event r"
  let ?todo = "filter (\<lambda>n. \<not> in_object n (delivered_to r)) names"
  let ?runs = "map (\<lambda>n. (n, run_one disp env ?ev n)) ?todo"
  have none: "\<forall>n \<in> set ?todo. run_one disp env ?ev n \<noteq> Interrupted"
    and d: "d = map_of (map (\<lambda>(n, _). (n, w_at env)) (filter (\<lambda>(_, run). run = RanOk) ?runs))"
    and f: "failures = concat (map (\<lambda>(n, run). case run of RanFailed e \<Rightarrow> [(n, e)] | _ \<Rightarrow> []) ?runs)"
    using assms(1) by (auto simp: deliver_def Let_def list_ex_iff split: if_splits)
  have dom: "d n \<noteq> None \<longleftrightarrow> n \<in> set ?todo \<and> run_one disp env ?ev n = RanOk" for n
    using ok_runs [of "w_at env" "run_one disp env ?ev" ?todo n] by (simp add: d del: map_map)
  have failed: "n \<in> fst ` set failures" if "n \<in> set ?todo" "run_one disp env ?ev n = RanFailed e" for n e
    using failed_runs [of n "run_one disp env ?ev" ?todo] that by (simp add: f del: map_map)
  show "\<forall>n \<in> set names. in_object n (delivered_to r) \<or> d n \<noteq> None \<or> n \<in> fst ` set failures"
  proof
    fix n assume "n \<in> set names"
    then show "in_object n (delivered_to r) \<or> d n \<noteq> None \<or> n \<in> fst ` set failures"
      using dom [of n] none failed [of n] by (cases "run_one disp env ?ev n") auto
  qed
  show "\<forall>n. d n \<noteq> None \<longrightarrow> n \<in> set names \<and> \<not> in_object n (delivered_to r)
           \<and> run_one disp env ?ev n = RanOk"
    using dom by auto
qed

end
