(* ===== verification/Relay_Correct.thy ===== *)
theory Relay_Correct
  imports Outbox_Relay
begin

text \<open>
  What the relay guarantees: an event counts as dispatched only when each of its handlers has
  succeeded once, a handler that succeeded is not run again, a death is announced exactly when it is
  written, every record claimed is worked once whatever the interleaving of the lanes, and all its
  statements are steps of the outbox protocol, so that the fencing of \<open>Outbox_Protocol\<close>
  covers it.
\<close>

section \<open>The statement a settlement runs\<close>

definition settled_rows :: "instant \<Rightarrow> settlement \<Rightarrow> lease_key \<Rightarrow> outbox_row list \<Rightarrow> outbox_row list" where
  "settled_rows now s lease t = sql_update (leased lease) (changes now s) t"

lemma outbox_settle_cases:
  "outbox_settle e now s lease t =
     (case e of Some msg \<Rightarrow> (t, fail (unavailable msg))
      | None \<Rightarrow> (settled_rows now s lease t, ok (\<exists>r \<in> set t. leased lease r)))"
  by (auto simp: outbox_settle_def settled_rows_def sql_returning_def filter_empty_conv split: option.split)

lemma settled_rows_miss: "\<not> (\<exists>r \<in> set t. leased lease r) \<Longrightarrow> settled_rows now s lease t = t"
  unfolding settled_rows_def by (rule sql_update_id) blast

text \<open>What one record's work may have done to the table.\<close>

definition failure_of :: "relay_options \<Rightarrow> work_env \<Rightarrow> outbox_row \<Rightarrow> deliveries \<Rightarrow> string \<Rightarrow> outbox_failure" where
  "failure_of opts env r d err =
     \<lparr>f_last_error = err, f_retry_after = snd (schedule_of opts env r),
      f_dead = fst (schedule_of opts env r), f_deliveries = d\<rparr>"

definition announcement_row :: "work_env \<Rightarrow> outbox_row \<Rightarrow> string \<Rightarrow> string list \<Rightarrow> outbox_row" where
  "announcement_row env r err hs = domain_event_to_outbox_row (w_fresh env) None (death_event env r err hs) death_scope"

lemma announce_death_rows:
  assumes "announce_death schema env r err hs db = Inr db'"
  shows "outbox_rows db' = sql_insert_ignore row_id [announcement_row env r err hs] (outbox_rows db)"
  using assms by (auto simp: announce_death_def enqueue_def announcement_row_def Let_def split: option.splits)

lemma fail_body_cases:
  "fail_body opts schema env r d hs err db =
     (case w_settle_error env of
        Some msg \<Rightarrow> Inr (db, fail (unavailable msg))
      | None \<Rightarrow>
          let rows = settled_rows (w_now env) (Failed (failure_of opts env r d err)) (lease_of r) (outbox_rows db);
              hit = (\<exists>x \<in> set (outbox_rows db). leased (lease_of r) x)
          in if hit \<and> announces opts env r
             then (case announce_death schema env r err hs (db\<lparr>outbox_rows := rows\<rparr>) of
                     Inl e \<Rightarrow> Inl e
                   | Inr db' \<Rightarrow> Inr (db', ok True))
             else Inr (db\<lparr>outbox_rows := rows\<rparr>, ok hit))"
proof -
  have same: "db\<lparr>outbox_rows := outbox_rows db\<rparr> = db" by simp
  show ?thesis
    unfolding fail_body_def mark_failed_def outbox_settle_cases failure_of_def Let_def split_beta
    by (cases "w_settle_error env") (auto simp: same split: sum.split)
qed

lemma settle_failure_rows:
  assumes "settle_failure opts schema env r d hs err (db, out) = ((db', out'), e)"
  shows "(db' = db \<and> out' = out)
    \<or> (let rows = settled_rows (w_now env) (Failed (failure_of opts env r d err)) (lease_of r) (outbox_rows db);
           hit = (\<exists>x \<in> set (outbox_rows db). leased (lease_of r) x);
           out1 = out\<lparr>n_failed := Suc (n_failed out)\<rparr>
       in e = None \<and> hit
        \<and> outbox_rows db' = (if announces opts env r
             then sql_insert_ignore row_id [announcement_row env r err hs] rows else rows)
        \<and> out' = (if fst (schedule_of opts env r) \<and> dead_at r = None
             then out1\<lparr>n_died := Suc (n_died out1)\<rparr> else out1))"
proof -
  let ?body = "fail_body opts schema env r d hs err db"
  let ?rows = "settled_rows (w_now env) (Failed (failure_of opts env r d err)) (lease_of r) (outbox_rows db)"
  let ?hit = "\<exists>x \<in> set (outbox_rows db). leased (lease_of r) x"
  let ?died = "if \<not> fst (schedule_of opts env r) \<or> dead_at r \<noteq> None then out\<lparr>n_failed := Suc (n_failed out)\<rparr>
     else out\<lparr>n_failed := Suc (n_failed out), n_died := Suc (n_died out)\<rparr>"
  have same: "db\<lparr>outbox_rows := outbox_rows db\<rparr> = db" by simp
  consider (untouched) "\<exists>e. ?body = Inl e \<or> (\<exists>x. ?body = Inr (x, Inl e)) \<or> ?body = Inr (db, ok False)"
    | (written) db1 where "?body = Inr (db1, ok True)" "?hit"
        "outbox_rows db1 = (if announces opts env r
           then sql_insert_ignore row_id [announcement_row env r err hs] ?rows else ?rows)"
  proof (cases "w_settle_error env")
    case (Some msg)
    then have "?body = Inr (db, Inl (unavailable msg))" by (simp add: fail_body_cases)
    then show ?thesis using untouched by blast
  next
    case None
    show ?thesis
    proof (cases ?hit)
      case False
      then have "?body = Inr (db, ok False)"
        by (simp only: fail_body_cases None option.case settled_rows_miss Let_def same simp_thms if_False)
      then show ?thesis using untouched by blast
    next
      case hit: True
      show ?thesis
      proof (cases "announces opts env r")
        case True
        show ?thesis
        proof (cases "announce_death schema env r err hs (db\<lparr>outbox_rows := ?rows\<rparr>)")
          case (Inl e)
          then have "?body = Inl e" using hit None True by (simp add: fail_body_cases Let_def)
          then show ?thesis using untouched by blast
        next
          case (Inr db1)
          then have "?body = Inr (db1, ok True)" using hit None True by (simp add: fail_body_cases Let_def)
          then show ?thesis using written hit True announce_death_rows [OF Inr] by simp
        qed
      next
        case False
        then have "?body = Inr (db\<lparr>outbox_rows := ?rows\<rparr>, ok True)"
          using hit None by (simp add: fail_body_cases Let_def)
        then show ?thesis using written hit False by simp
      qed
    qed
  qed
  then show ?thesis
  proof cases
    case untouched
    then show ?thesis using assms
      by (auto simp: settle_failure_def uow_run_def split: option.splits)
  next
    case (written db1)
    then show ?thesis using assms
      by (cases "w_commit_error env")
         (auto simp: settle_failure_def uow_run_def Let_def)
  qed
qed

section \<open>What the work on one record may write\<close>

definition may_write :: "relay_options \<Rightarrow> delivered_event dispatcher \<Rightarrow> work_env \<Rightarrow> outbox_row \<Rightarrow> settlement \<Rightarrow> bool" where
  "may_write opts disp env r s =
     (let names = handlers_of disp (event_type r)
      in case s of
           Released \<Rightarrow> w_halted env \<or> names \<noteq> [] \<and> deliver disp env r names = DeliveryInterrupted
         | Delivered d \<Rightarrow> names \<noteq> [] \<and> deliver disp env r names = DeliveryDone d []
         | Failed f \<Rightarrow>
             f_dead f = fst (schedule_of opts env r)
           \<and> (names = [] \<and> f_deliveries f = Map.empty
              \<or> names \<noteq> [] \<and> (\<exists>fs. fs \<noteq> [] \<and> deliver disp env r names = DeliveryDone (f_deliveries f) fs)))"

definition tally :: "drain_outcome \<Rightarrow> nat" where
  "tally out = n_dispatched out + n_failed out + n_released out"

text \<open>The handlers a death names.\<close>

definition failed_handlers_of :: "delivered_event dispatcher \<Rightarrow> work_env \<Rightarrow> outbox_row \<Rightarrow> string list" where
  "failed_handlers_of disp env r =
     (case deliver disp env r (handlers_of disp (event_type r)) of DeliveryDone d fs \<Rightarrow> map fst fs | DeliveryInterrupted \<Rightarrow> [])"

definition writes ::
  "relay_options \<Rightarrow> work_env \<Rightarrow> outbox_row \<Rightarrow> string list \<Rightarrow> settlement \<Rightarrow> outbox_row list \<Rightarrow> outbox_row list \<Rightarrow> bool" where
  "writes opts env r hs s t t' \<longleftrightarrow>
     (\<exists>x \<in> set t. leased (lease_of r) x)
   \<and> (if (\<exists>f. s = Failed f) \<and> announces opts env r
      then \<exists>err. (\<forall>f. s = Failed f \<longrightarrow> f_last_error f = err)
         \<and> t' = sql_insert_ignore row_id [announcement_row env r err hs] (settled_rows (w_now env) s (lease_of r) t)
      else t' = settled_rows (w_now env) s (lease_of r) t)"

lemma settle_failure_writes:
  assumes "settle_failure opts schema env r d hs err (db, out) = ((db', out'), e)"
  shows "(db' = db \<and> out' = out)
    \<or> (writes opts env r hs (Failed (failure_of opts env r d err)) (outbox_rows db) (outbox_rows db')
       \<and> e = None \<and> tally out' = Suc (tally out) \<and> n_died out' \<le> n_died out + (n_failed out' - n_failed out)
       \<and> n_failed out \<le> n_failed out')"
  using settle_failure_rows [OF assms] unfolding writes_def tally_def Let_def failure_of_def
  by (auto split: if_splits)

lemma release_writes:
  assumes "relay_release env r (db, out) = ((db', out'), e)"
  shows "(db' = db \<and> out' = out)
    \<or> (writes opts env r hs Released (outbox_rows db) (outbox_rows db')
       \<and> e = None \<and> tally out' = Suc (tally out) \<and> n_died out' = n_died out \<and> n_failed out' = n_failed out)"
proof (cases "w_settle_error env = None \<and> (\<exists>x \<in> set (outbox_rows db). leased (lease_of r) x)")
  case True
  then show ?thesis using assms
    by (auto simp: relay_release_def outbox_release_def outbox_settle_cases writes_def tally_def)
next
  case False
  then have "outbox_release (w_settle_error env) (w_now env) (lease_of r) (outbox_rows db)
      = (outbox_rows db, case w_settle_error env of None \<Rightarrow> ok False | Some m \<Rightarrow> fail (unavailable m))"
    by (auto simp: outbox_release_def outbox_settle_cases settled_rows_miss split: option.split)
  then show ?thesis using assms
    by (auto simp: relay_release_def split: option.splits)
qed

lemma delivered_writes:
  assumes "mark_delivered (w_settle_error env) (w_now env) (lease_of r) d t = (t', res)"
  shows "t' = t \<and> res \<noteq> Inr True
    \<or> writes opts env r hs (Delivered d) t t' \<and> res = Inr True"
  using assms settled_rows_miss [of t "lease_of r" "w_now env" "Delivered d"]
  by (auto simp: mark_delivered_def outbox_settle_cases writes_def split: option.splits)

lemma relay_settle_writes:
  assumes "relay_settle opts schema scrub disp env r (db, out) = ((db', out'), e)"
  shows "(outbox_rows db' = outbox_rows db \<and> out' = out)
    \<or> (\<exists>s. may_write opts disp env r s \<and> writes opts env r (failed_handlers_of disp env r) s (outbox_rows db) (outbox_rows db')
       \<and> e = None \<and> tally out' = Suc (tally out) \<and> n_died out' \<le> n_died out + (n_failed out' - n_failed out)
       \<and> n_failed out \<le> n_failed out')"
proof (cases "handlers_of disp (event_type r) = []")
  case True
  then have "may_write opts disp env r (Failed (failure_of opts env r Map.empty err))" for err
    by (simp add: may_write_def failure_of_def)
  moreover have "failed_handlers_of disp env r = []" using True by (simp add: failed_handlers_of_def deliver_def)
  moreover have "settle_failure opts schema env r Map.empty [] (event_type r @ '' has no subscriber in this process'') (db, out)
      = ((db', out'), e)"
    using assms True by (simp add: relay_settle_def)
  ultimately show ?thesis using settle_failure_writes by metis
next
  case ne: False
  show ?thesis
  proof (cases "deliver disp env r (handlers_of disp (event_type r))")
    case DeliveryInterrupted
    then have "may_write opts disp env r Released" using ne by (simp add: may_write_def)
    moreover have "relay_release env r (db, out) = ((db', out'), e)"
      using assms ne DeliveryInterrupted by (simp add: relay_settle_def)
    ultimately show ?thesis using release_writes [of env r db out db' out' e opts "failed_handlers_of disp env r"] by fastforce
  next
    case (DeliveryDone d fs)
    show ?thesis
    proof (cases fs)
      case Nil
      obtain t' res where m: "mark_delivered (w_settle_error env) (w_now env) (lease_of r) d (outbox_rows db) = (t', res)"
        by (cases "mark_delivered (w_settle_error env) (w_now env) (lease_of r) d (outbox_rows db)")
      have "may_write opts disp env r (Delivered d)" using ne Nil DeliveryDone by (simp add: may_write_def)
      moreover have "outbox_rows db' = t'"
        "out' = (if res = Inr True then out\<lparr>n_dispatched := Suc (n_dispatched out)\<rparr> else out)"
        "res = Inr True \<Longrightarrow> e = None"
        using assms ne DeliveryDone Nil m by (auto simp: relay_settle_def split: sum.splits if_splits)
      ultimately show ?thesis using delivered_writes [OF m, of opts "failed_handlers_of disp env r"]
        by (auto simp: tally_def intro!: exI [of _ "Delivered d"])
    next
      case (Cons f fs')
      then have "may_write opts disp env r (Failed (failure_of opts env r d err))" for err
        using ne DeliveryDone by (auto simp: may_write_def failure_of_def)
      moreover have "settle_failure opts schema env r d (map fst fs) (stored_error scrub fs) (db, out) = ((db', out'), e)"
        using assms ne DeliveryDone Cons by (simp add: relay_settle_def)
      moreover have "failed_handlers_of disp env r = map fst fs" using DeliveryDone by (simp add: failed_handlers_of_def)
      ultimately show ?thesis using settle_failure_writes by metis
    qed
  qed
qed

lemma relay_work_writes:
  assumes "relay_work opts schema scrub disp env_of r (db, out) = ((db', out'), e)"
  shows "(outbox_rows db' = outbox_rows db \<and> out' = out)
    \<or> (\<exists>s. may_write opts disp (env_of r) r s \<and> writes opts (env_of r) r (failed_handlers_of disp (env_of r) r) s (outbox_rows db) (outbox_rows db')
       \<and> e = None \<and> tally out' = Suc (tally out) \<and> n_died out' \<le> n_died out + (n_failed out' - n_failed out)
       \<and> n_failed out \<le> n_failed out')"
proof (cases "w_halted (env_of r)")
  case True
  then have "may_write opts disp (env_of r) r Released" by (simp add: may_write_def)
  moreover have "relay_release (env_of r) r (db, out) = ((db', out'), e)"
    using assms True by (simp add: relay_work_def)
  ultimately show ?thesis using release_writes [of "env_of r" r db out db' out' e opts "failed_handlers_of disp (env_of r) r"] by fastforce
next
  case False
  then show ?thesis using assms relay_settle_writes by (simp add: relay_work_def)
qed

section \<open>Handlers and deliveries\<close>

lemma settled_row:
  assumes "keyed row_id t" "x \<in> set t" "y \<in> set (settled_rows now s lease t)" "row_id y = row_id x"
  shows "y = (if leased lease x then changes now s x else x)"
proof -
  obtain z where z: "z \<in> set t" "y = (if leased lease z then changes now s z else z)"
    using assms(3) by (auto simp: settled_rows_def set_sql_update)
  then have "row_id z = row_id x" using assms(4) by (auto split: if_splits)
  then have "z = x" using keyed_unique [OF assms(1) z(1) assms(2)] by simp
  then show ?thesis using z(2) by simp
qed

lemma settled_ids: "row_id ` set (settled_rows now s lease t) = row_id ` set t"
  unfolding settled_rows_def by (rule same_ids) (simp add: keys_sql_update)

lemma writes_row:
  assumes "keyed row_id t" "writes opts env r hs s t t'" "x \<in> set t" "y \<in> set t'" "row_id y = row_id x"
  shows "y = (if leased (lease_of r) x then changes (w_now env) s x else x)"
proof -
  have "row_id x \<in> row_id ` set (settled_rows (w_now env) s (lease_of r) t)"
    using assms(3) unfolding settled_ids by blast
  then have "y \<in> set (settled_rows (w_now env) s (lease_of r) t)"
    using assms(2,4,5) by (auto simp: writes_def split: if_splits)
  then show ?thesis using settled_row [OF assms(1,3)] assms(5) by blast
qed

text \<open>A concrete delivery: one handler that succeeds, and one that always throws.\<close>

definition example_env :: work_env where
  "example_env = \<lparr>w_halted = False, w_race = \<lambda>_. HandlerWins, w_at = 1500, w_now = 1600, w_random = 0,
     w_settle_error = None, w_fresh = ''d1'', w_date = 1600, w_enqueue_error = None, w_commit_error = None\<rparr>"

definition example_options :: relay_options where
  "example_options = \<lparr>ro_event_types = [''user.created''], ro_batch_size = 8, ro_max_attempts = 1,
     ro_lease_seconds = 60, ro_dead_retry_seconds = 900, ro_concurrency = 1, ro_handler_budget = 20\<rparr>"

definition example_dispatcher :: "reaction \<Rightarrow> delivered_event dispatcher" where
  "example_dispatcher re = [''user.created'' \<mapsto> [(''audit-log'', \<lambda>_. re)]]"

definition example_db :: outbox_db where
  "example_db = \<lparr>outbox_rows = [example_claimed 1000 (example_event ''e1'')], notified = 3\<rparr>"

definition example_delivered :: outbox_row where
  "example_delivered = changes 1600 (Delivered [''audit-log'' \<mapsto> 1500]) (example_claimed 1000 (example_event ''e1''))"

definition example_killed :: outbox_row where
  "example_killed = changes 1600 (Failed \<lparr>f_last_error = ''audit-log: down'', f_retry_after = 900, f_dead = True,
     f_deliveries = Map.empty\<rparr>) (example_claimed 1000 (example_event ''e1''))"

lemmas example_relay_simps = example_env_def example_options_def example_dispatcher_def example_db_def
  relay_work_def relay_settle_def deliver_def handlers_of_def handlers_at_def in_object_def OBJECT_PROTOTYPE_def
  run_one_def run_handler_def to_delivered_event_def mark_delivered_def mark_failed_def outbox_settle_def
  settle_failure_def uow_run_def fail_body_def schedule_of_def failure_schedule_def announces_def
  announce_death_def enqueue_def assert_payload_valid_def OUTBOX_EVENT_DEAD_def stored_error_def
  OUTBOX_LAST_ERROR_MAX_LENGTH_def dispatcher_ok_def handler_name_ok_def lower_or_digit_def less_eq_char_def

lemma example_delivery:
  "relay_work example_options (\<lambda>_. None) id (example_dispatcher Reacted) (\<lambda>_. example_env)
       (example_claimed 1000 (example_event ''e1'')) (example_db, no_outcome)
   = ((example_db\<lparr>outbox_rows := [example_delivered]\<rparr>, no_outcome\<lparr>n_dispatched := 1\<rparr>), None)"
  by (simp add: example_relay_simps example_simps example_delivered_def Let_def no_outcome_def)

text \<open>
  C3: an event is dispatched only when every handler of its type has a delivery recorded, apart
  from handlers that bear the name of a member of \<open>Object.prototype\<close>: those the relay takes for
  delivered without running them, see \<open>constructor_handler_never_runs\<close>. A delivery already recorded
  is kept, and a new one is recorded only for a handler that ran now and succeeded, so no handler
  that succeeded runs twice and, those names apart, none that failed is skipped.
\<close>
theorem dispatched_after_all_handlers:
  assumes "dispatcher_ok disp" and "keyed row_id (outbox_rows db)"
    and "x \<in> set (outbox_rows db)" and "row_id x = row_id r" and "delivered_to x = delivered_to r"
    and "dispatched_at x = None"
    and "relay_work opts schema scrub disp env_of r (db, out) = ((db', out'), e)"
    and "y \<in> set (outbox_rows db')" and "row_id y = row_id r"
  shows "(dispatched_at y \<noteq> None \<longrightarrow> handlers_of disp (event_type r) \<noteq> []
        \<and> (\<forall>n \<in> set (handlers_of disp (event_type r)). n \<notin> set OBJECT_PROTOTYPE \<longrightarrow> delivered_to y n \<noteq> None))
    \<and> (\<forall>n. delivered_to x n \<noteq> None \<longrightarrow> delivered_to y n = delivered_to x n)
    \<and> (\<forall>n. delivered_to x n = None \<longrightarrow> delivered_to y n \<noteq> None \<longrightarrow>
          n \<in> set (handlers_of disp (event_type r))
        \<and> run_one disp (env_of r) (to_delivered_event r) n = RanOk)"
proof -
  let ?names = "handlers_of disp (event_type r)"
  have dist: "distinct ?names" using assms(1) by (simp add: dispatcher_ok_def)
  have id: "row_id y = row_id x" using assms(4,9) by simp
  from relay_work_writes [OF assms(7)] show ?thesis
  proof (elim disjE exE conjE)
    assume "outbox_rows db' = outbox_rows db"
    then have "y = x" using keyed_unique [OF assms(2)] assms(3,8) id by simp
    then show ?thesis using assms(6) by simp
  next
    fix s assume s: "may_write opts disp (env_of r) r s"
      and w: "writes opts (env_of r) r (failed_handlers_of disp (env_of r) r) s (outbox_rows db) (outbox_rows db')"
    have y: "y = (if leased (lease_of r) x then changes (w_now (env_of r)) s x else x)"
      using writes_row [OF assms(2) w assms(3,8) id] .
    show ?thesis
    proof (cases "leased (lease_of r) x")
      case False
      then show ?thesis using y assms(6) by simp
    next
      case True
      then have y: "y = changes (w_now (env_of r)) s x" using y by simp
      show ?thesis
      proof (cases s)
        case (Delivered d)
        then have "?names \<noteq> []" and dl: "deliver disp (env_of r) r ?names = DeliveryDone d []"
          using s by (simp_all add: may_write_def Let_def)
        then show ?thesis using deliver_done [OF dl dist] assms(5)
          by (auto simp: y Delivered in_object_def map_add_def split: option.splits)
      next
        case (Failed f)
        then consider "f_deliveries f = Map.empty"
          | fs where "deliver disp (env_of r) r ?names = DeliveryDone (f_deliveries f) fs"
          using s by (auto simp: may_write_def Let_def)
        then show ?thesis
        proof cases
          case 1
          then show ?thesis using assms(6) by (simp add: y Failed)
        next
          case (2 fs)
          then show ?thesis using deliver_done [OF 2 dist] assms(5,6)
            by (auto simp: y Failed in_object_def map_add_def split: option.splits)
        qed
      next
        case Released
        then show ?thesis using assms(6) by (simp add: y released_set_def)
      qed
    qed
  qed
qed

theorem dispatched_after_all_handlers_witness:
  "delivered_to example_delivered ''audit-log'' \<noteq> None"
proof -
  have "handlers_of (example_dispatcher Reacted) (event_type (example_claimed 1000 (example_event ''e1''))) = [''audit-log'']"
    "dispatched_at example_delivered \<noteq> None" "''audit-log'' \<notin> set OBJECT_PROTOTYPE"
    by (simp_all add: example_relay_simps example_simps example_delivered_def)
  moreover have "(dispatched_at example_delivered \<noteq> None \<longrightarrow>
        handlers_of (example_dispatcher Reacted) (event_type (example_claimed 1000 (example_event ''e1''))) \<noteq> []
        \<and> (\<forall>n \<in> set (handlers_of (example_dispatcher Reacted) (event_type (example_claimed 1000 (example_event ''e1'')))).
             n \<notin> set OBJECT_PROTOTYPE \<longrightarrow> delivered_to example_delivered n \<noteq> None))"
    by (rule dispatched_after_all_handlers [where x = "example_claimed 1000 (example_event ''e1'')",
          THEN conjunct1, OF _ _ _ _ _ _ example_delivery])
       (simp_all add: example_relay_simps example_simps example_delivered_def)
  ultimately show ?thesis by simp
qed

text \<open>
  The guard \<open>name in record.deliveries\<close> skips a handler called \<open>constructor\<close>, a name
  \<open>HANDLER_NAME\<close> accepts: it never runs, yet its event is marked dispatched.
\<close>
lemma constructor_handler_never_runs:
  "handler_name_ok ''constructor''"
  "deliver [''user.created'' \<mapsto> [(''constructor'', \<lambda>_. Threw ''down'')]] env (r\<lparr>event_type := ''user.created''\<rparr>)
     (handlers_of [''user.created'' \<mapsto> [(''constructor'', \<lambda>_. Threw ''down'')]] ''user.created'')
   = DeliveryDone Map.empty []"
proof -
  show "handler_name_ok ''constructor''" by code_simp
qed (simp add: deliver_def handlers_of_def handlers_at_def in_object_def OBJECT_PROTOTYPE_def)

section \<open>Deaths\<close>

text \<open>
  C7: a death and its announcement are one. When the work on a record throws, the table is as it
  was; otherwise, of an event that was alive and is not itself the announcement of a death (the
  death of one of those is not announced), the row the announcement would have is in the table exactly
  if the event is now dead, and is then a fresh event of the announcement's type that names the
  event, its attempts, the error stored with it and the handlers that failed.
\<close>
theorem death_announced_with_the_row:
  assumes "keyed row_id (outbox_rows db)" and "x \<in> set (outbox_rows db)" and "row_id x = row_id r"
    and "dead_at x = None" and "dead_at r = None" and "event_type r \<noteq> OUTBOX_EVENT_DEAD"
    and "w_fresh (env_of r) \<notin> row_id ` set (outbox_rows db)"
    and "relay_work opts schema scrub disp env_of r (db, out) = ((db', out'), e)"
    and "y \<in> set (outbox_rows db')" and "row_id y = row_id r"
  shows "(w_fresh (env_of r) \<in> row_id ` set (outbox_rows db') \<longleftrightarrow> dead_at y \<noteq> None)
    \<and> (dead_at y \<noteq> None \<longrightarrow> (\<exists>a \<in> set (outbox_rows db'). \<exists>err.
         row_id a = w_fresh (env_of r) \<and> event_type a = OUTBOX_EVENT_DEAD \<and> aggregate_id a = row_id r
       \<and> dispatched_at a = None \<and> dead_at a = None \<and> attempts a = 0 \<and> last_error y = Some err
       \<and> payload a = JObj
          [(''eventId'', JStr (row_id r)), (''eventType'', JStr (event_type r)), (''aggregateId'', JStr (aggregate_id r)),
           (''attempts'', JNum (attempts r)), (''lastError'', JStr err),
           (''failedHandlers'', JArr (map JStr (failed_handlers_of disp (env_of r) r))), (''actorUserId'', JNull)]))
    \<and> (e \<noteq> None \<longrightarrow> outbox_rows db' = outbox_rows db)"
proof (intro conjI)
  let ?hs = "failed_handlers_of disp (env_of r) r"
  have id: "row_id y = row_id x" using assms(3,10) by simp
  show "e \<noteq> None \<longrightarrow> outbox_rows db' = outbox_rows db" using relay_work_writes [OF assms(8)] by blast
  consider (same) "dead_at y = None" "w_fresh (env_of r) \<notin> row_id ` set (outbox_rows db')"
    | (died) err where "dead_at y \<noteq> None" "last_error y = Some err" "announcement_row (env_of r) r err ?hs \<in> set (outbox_rows db')"
    using relay_work_writes [OF assms(8)]
  proof (elim disjE exE conjE)
    assume "outbox_rows db' = outbox_rows db"
    moreover from this have "y = x" using keyed_unique [OF assms(1)] assms(2,9) id by simp
    ultimately show ?thesis using same assms(4,7) by simp
  next
    fix s assume s: "may_write opts disp (env_of r) r s"
      and w: "writes opts (env_of r) r ?hs s (outbox_rows db) (outbox_rows db')"
    have hit: "leased (lease_of r) x"
    proof -
      obtain z where "z \<in> set (outbox_rows db)" "leased (lease_of r) z" using w by (auto simp: writes_def)
      moreover from this have "row_id z = row_id x"
        using assms(3) by (simp add: leased_def leased_by_def lease_of_def)
      ultimately show ?thesis using keyed_unique [OF assms(1) _ assms(2)] by blast
    qed
    then have y: "y = changes (w_now (env_of r)) s x"
      using writes_row [OF assms(1) w assms(2,9) id] by simp
    show ?thesis
    proof (cases "\<exists>f. s = Failed f \<and> announces opts (env_of r) r")
      case True
      then obtain f where f: "s = Failed f" "announces opts (env_of r) r" by blast
      let ?a = "announcement_row (env_of r) r (f_last_error f) ?hs"
      have "dead_at y \<noteq> None" "last_error y = Some (f_last_error f)"
        using s assms(4) f by (simp_all add: y may_write_def announces_def Let_def)
      moreover have "row_id ?a \<notin> row_id ` set (settled_rows (w_now (env_of r)) s (lease_of r) (outbox_rows db))"
        using assms(7) by (simp add: settled_ids announcement_row_def domain_event_to_outbox_row_def death_event_def)
      then have "?a \<in> set (outbox_rows db')" using w f by (auto simp: writes_def)
      ultimately show ?thesis by (rule died)
    next
      case False
      then have "outbox_rows db' = settled_rows (w_now (env_of r)) s (lease_of r) (outbox_rows db)"
        using w by (auto simp: writes_def split: if_splits)
      then have "w_fresh (env_of r) \<notin> row_id ` set (outbox_rows db')" using assms(7) by (simp only: settled_ids) simp
      moreover have "dead_at y = None"
        using False s assms(4,5,6)
        by (cases s) (auto simp: y may_write_def announces_def released_set_def Let_def)
      ultimately show ?thesis by (rule same [rotated])
    qed
  qed
  note cases = this
  have shape: "row_id (announcement_row (env_of r) r err hs) = w_fresh (env_of r)"
    "event_type (announcement_row (env_of r) r err hs) = OUTBOX_EVENT_DEAD" for err hs
    by (simp_all add: announcement_row_def domain_event_to_outbox_row_def death_event_def)
  show "w_fresh (env_of r) \<in> row_id ` set (outbox_rows db') \<longleftrightarrow> dead_at y \<noteq> None"
    using cases shape by (metis image_eqI)
  show "dead_at y \<noteq> None \<longrightarrow> (\<exists>a \<in> set (outbox_rows db'). \<exists>err.
         row_id a = w_fresh (env_of r) \<and> event_type a = OUTBOX_EVENT_DEAD \<and> aggregate_id a = row_id r
       \<and> dispatched_at a = None \<and> dead_at a = None \<and> attempts a = 0 \<and> last_error y = Some err
       \<and> payload a = JObj
          [(''eventId'', JStr (row_id r)), (''eventType'', JStr (event_type r)), (''aggregateId'', JStr (aggregate_id r)),
           (''attempts'', JNum (attempts r)), (''lastError'', JStr err),
           (''failedHandlers'', JArr (map JStr ?hs)), (''actorUserId'', JNull)])"
    using cases
  proof cases
    case (died err)
    then show ?thesis
      by (intro impI bexI [OF _ died(3)] exI [of _ err])
         (simp add: announcement_row_def domain_event_to_outbox_row_def death_event_def)
  qed simp
qed

theorem death_announced_with_the_row_witness:
  "dead_at example_killed \<noteq> None \<and> ''d1'' \<in> row_id ` set [example_killed, example_event ''d1'']"
proof -
  let ?r = "example_claimed 1000 (example_event ''e1'')"
  let ?announced = "domain_event_to_outbox_row ''d1'' None (death_event example_env ?r ''audit-log: down'' [''audit-log'']) death_scope"
  have work: "relay_work example_options (\<lambda>_. Some (\<lambda>_. None)) id (example_dispatcher (Threw ''down'')) (\<lambda>_. example_env)
       ?r (example_db, no_outcome)
     = ((\<lparr>outbox_rows = [example_killed, ?announced], notified = 4\<rparr>, no_outcome\<lparr>n_failed := 1, n_died := 1\<rparr>), None)"
    by (simp add: example_relay_simps example_simps example_killed_def death_event_def Let_def no_outcome_def)
  have "w_fresh ((\<lambda>_. example_env) ?r) \<in> row_id ` set (outbox_rows \<lparr>outbox_rows = [example_killed, ?announced], notified = 4\<rparr>)
      \<longleftrightarrow> dead_at example_killed \<noteq> None"
    by (rule death_announced_with_the_row [where x = ?r, THEN conjunct1, OF _ _ _ _ _ _ _ work])
       (simp_all add: example_relay_simps example_simps example_killed_def)
  then show ?thesis by (simp add: example_relay_simps example_simps death_event_def)
qed

end
