(* ===== verification/Relay_Drain.thy ===== *)
theory Relay_Drain
  imports Relay_Correct
begin

text \<open>
  A whole drain: the claim and the works of its records in any interleaving of the lanes. Each
  record is worked once, the counters never exceed the claim, and the statements form a run of the
  outbox protocol.
\<close>

lemma claim_length:
  assumes "keyed row_id t" and "outbox_claim e now locked q t = (t', Inr rs)"
  shows "length rs \<le> cl_limit q"
  using assms length_claim_query [OF assms(1), of now locked q]
  by (auto simp: outbox_claim_def split: if_splits option.splits)

lemma drain_pool_cases:
  assumes "drain_pool opts schema scrub disp env_of ce now locked sched db = Inr p"
  shows "\<exists>rows records. outbox_claim ce now locked (relay_claim_request opts) (outbox_rows db) = (rows, Inr records)
    \<and> p = run_lanes (relay_work opts schema scrub disp env_of) sched
            (start_pool (ro_concurrency opts) records (db\<lparr>outbox_rows := rows\<rparr>, no_outcome))"
  using assms by (auto simp: drain_pool_def split: prod.splits sum.splits)

text \<open>A concrete drain, of one lane and one event.\<close>

lemma example_pool:
  "drain_pool example_options (\<lambda>_. None) id (example_dispatcher Reacted) (\<lambda>_. example_env) None 1000 [] [0, 0]
       \<lparr>outbox_rows = [example_event ''e1''], notified = 3\<rparr>
   = Inr \<lparr>cursor = [], lanes = [Idle],
       world = (example_db\<lparr>outbox_rows := [example_delivered]\<rparr>, no_outcome\<lparr>n_dispatched := 1\<rparr>)\<rparr>"
proof -
  have "outbox_claim None 1000 [] (relay_claim_request example_options) [example_event ''e1'']
      = ([example_claimed 1000 (example_event ''e1'')], Inr [example_claimed 1000 (example_event ''e1'')])"
    by (simp add: example_simps relay_claim_request_def example_options_def claim_limit_of_def
        OUTBOX_SETTLE_MARGIN_SECONDS_def Let_def)
  then show ?thesis
    using example_delivery
    by (simp add: drain_pool_def run_lanes_def lane_turn_def start_pool_def example_db_def) (simp add: example_options_def)
qed

lemma example_drain:
  "drain_once False example_options (\<lambda>_. None) id (example_dispatcher Reacted) (\<lambda>_. example_env) None 1000 [] [0, 0]
       \<lparr>outbox_rows = [example_event ''e1''], notified = 3\<rparr>
   = (example_db\<lparr>outbox_rows := [example_delivered]\<rparr>, Inr (no_outcome\<lparr>n_dispatched := 1\<rparr>))"
  by (simp add: drain_once_def example_pool)

text \<open>
  Once its lanes have ended, a drain has worked every record it claimed exactly once, in some
  order, unless works threw in every lane: overlapping lanes neither skip a record nor take one
  twice, and a throw in one lane leaves the rest to the others.
\<close>
theorem drain_works_each_once:
  assumes "drain_pool opts schema scrub disp env_of ce now locked sched db = Inr p"
    and "1 \<le> ro_concurrency opts" and "pool_ended p"
    and "first_rejected (lanes p) = None \<or> Idle \<in> set (lanes p)"
  shows "\<exists>rows records order. outbox_claim ce now locked (relay_claim_request opts) (outbox_rows db) = (rows, Inr records)
    \<and> mset order = mset records
    \<and> world p = effects (relay_work opts schema scrub disp env_of) order (db\<lparr>outbox_rows := rows\<rparr>, no_outcome)"
proof -
  obtain rows records where c:
    "outbox_claim ce now locked (relay_claim_request opts) (outbox_rows db) = (rows, Inr records)"
    "p = run_lanes (relay_work opts schema scrub disp env_of) sched
       (start_pool (ro_concurrency opts) records (db\<lparr>outbox_rows := rows\<rparr>, no_outcome))"
    using drain_pool_cases [OF assms(1)] by blast
  have "0 < ro_concurrency opts" using assms(2) by simp
  from pool_works_all [OF this c(2) assms(3,4)] show ?thesis using c(1) by blast
qed

theorem drain_works_each_once_witness:
  "\<exists>rows records order. outbox_claim None 1000 [] (relay_claim_request example_options) [example_event ''e1''] = (rows, Inr records)
    \<and> mset order = mset records
    \<and> (example_db\<lparr>outbox_rows := [example_delivered]\<rparr>, no_outcome\<lparr>n_dispatched := 1\<rparr>)
      = effects (relay_work example_options (\<lambda>_. None) id (example_dispatcher Reacted) (\<lambda>_. example_env)) order
          (\<lparr>outbox_rows = [example_event ''e1''], notified = 3\<rparr>\<lparr>outbox_rows := rows\<rparr>, no_outcome)"
  using drain_works_each_once [OF example_pool] by (simp add: pool_ended_def example_options_def)

section \<open>Counters\<close>

definition counted :: "nat \<Rightarrow> drain_outcome \<Rightarrow> bool" where
  "counted n out \<longleftrightarrow> tally out \<le> n \<and> n_died out \<le> n_failed out"

lemma relay_work_counted:
  assumes "counted n (snd s)"
  shows "counted (Suc n) (snd (fst (relay_work opts schema scrub disp env_of r s)))"
proof -
  obtain db out where s: "s = (db, out)" by (cases s)
  obtain db' out' e where w: "relay_work opts schema scrub disp env_of r s = ((db', out'), e)"
    by (metis prod.exhaust)
  have out': "snd (fst (relay_work opts schema scrub disp env_of r s)) = out'" by (simp only: w fst_conv snd_conv)
  from relay_work_writes [OF w [unfolded s]] show ?thesis
    using assms unfolding out' by (auto simp: s counted_def)
qed

lemma effects_Cons: "effects work (r # rs) s = effects work rs (fst (work r s))"
  by (simp add: effects_def)

lemma effects_counted:
  "counted n (snd s) \<Longrightarrow> counted (n + length order) (snd (effects (relay_work opts schema scrub disp env_of) order s))"
proof (induction order arbitrary: n s)
  case (Cons r rs)
  show ?case
    using Cons.IH [OF relay_work_counted [OF Cons.prems, of opts schema scrub disp env_of r]]
    by (simp add: effects_Cons)
qed (simp add: effects_def)

text \<open>
  A drain reports no more than it claimed: dispatched, failed and released rows together are
  at most the claim limit, and every death is among the failures, at every interleaving.
\<close>
theorem drain_counts_bounded:
  assumes "keyed row_id (outbox_rows db)"
    and "drain_once halted opts schema scrub disp env_of ce now locked sched db = (db', Inr out)"
  shows "n_dispatched out + n_failed out + n_released out \<le> nat (claim_limit_of opts)
    \<and> n_died out \<le> n_failed out"
proof (cases halted)
  case True
  then show ?thesis using assms(2) by (auto simp: drain_once_def no_outcome_def)
next
  case False
  then obtain p where p: "drain_pool opts schema scrub disp env_of ce now locked sched db = Inr p"
      "out = snd (world p)"
    using assms(2) by (auto simp: drain_once_def split: sum.splits option.splits)
  obtain rows records where c:
    "outbox_claim ce now locked (relay_claim_request opts) (outbox_rows db) = (rows, Inr records)"
    "p = run_lanes (relay_work opts schema scrub disp env_of) sched
       (start_pool (ro_concurrency opts) records (db\<lparr>outbox_rows := rows\<rparr>, no_outcome))"
    using drain_pool_cases [OF p(1)] by blast
  have "length records \<le> nat (claim_limit_of opts)"
    using claim_length [OF assms(1) c(1)] by (simp add: relay_claim_request_def)
  moreover obtain order where o: "mset order \<subseteq># mset records"
    "world p = effects (relay_work opts schema scrub disp env_of) order (db\<lparr>outbox_rows := rows\<rparr>, no_outcome)"
    using pool_works_some c(2) by metis
  have "length order \<le> length records" using size_mset_mono [OF o(1)] by simp
  moreover have "counted (0 + length order) (snd (world p))"
    unfolding o(2) by (rule effects_counted) (simp add: counted_def no_outcome_def tally_def)
  ultimately show ?thesis using p(2) by (simp add: counted_def tally_def)
qed

theorem drain_counts_bounded_witness:
  "n_dispatched (no_outcome\<lparr>n_dispatched := 1\<rparr>) \<le> nat (claim_limit_of example_options)"
  using drain_counts_bounded [OF _ example_drain] by (simp add: keyed_def no_outcome_def)

section \<open>The relay is a client of the protocol\<close>

lemma announcement_step:
  "outbox_step (t, out) (sql_insert_ignore row_id [announcement_row env r err hs] t, out)"
proof -
  have "enqueue None (\<lambda>_. Some (\<lambda>_. None)) None (\<lambda>_. w_fresh env) [death_event env r err hs] death_scope
      \<lparr>outbox_rows = t, notified = 0\<rparr>
    = Inr \<lparr>outbox_rows = sql_insert_ignore row_id [announcement_row env r err hs] t, notified = Suc 0\<rparr>"
    by (simp add: enqueue_def assert_payload_valid_def announcement_row_def Let_def)
  from enqueues [OF this] show ?thesis by simp
qed

lemma writes_steps:
  assumes "writes opts env r hs s t t'" and "lease_of r \<in> set out"
  shows "outbox_step\<^sup>*\<^sup>* (t, out) (t', removeAll (lease_of r) out)"
proof -
  let ?mid = "settled_rows (w_now env) s (lease_of r) t"
  have one: "outbox_step (t, out) (?mid, removeAll (lease_of r) out)"
    by (rule settles [OF assms(2), of "(w_now env, s)"]) (simp add: settle_step_eq settled_rows_def)
  show ?thesis
  proof (cases "(\<exists>f. s = Failed f) \<and> announces opts env r")
    case True
    then have "\<exists>err. t' = sql_insert_ignore row_id [announcement_row env r err hs] ?mid"
      using assms(1) True unfolding writes_def by (simp only: if_True simp_thms) blast
    then obtain err where t': "t' = sql_insert_ignore row_id [announcement_row env r err hs] ?mid" by blast
    show ?thesis unfolding t' using one announcement_step by (rule converse_rtranclp_into_rtranclp [OF _ r_into_rtranclp])
  next
    case False
    then have "t' = ?mid" using assms(1) by (simp only: writes_def if_False)
    then show ?thesis using one by blast
  qed
qed

lemma relay_work_steps:
  assumes "lease_of r \<in> set out"
  shows "\<exists>out'. outbox_step\<^sup>*\<^sup>* (outbox_rows (fst s), out)
      (outbox_rows (fst (fst (relay_work opts schema scrub disp env_of r s))), out')
    \<and> set out - {lease_of r} \<subseteq> set out'"
proof -
  obtain db o1 where s: "s = (db, o1)" by (cases s)
  obtain db' o2 e where w: "relay_work opts schema scrub disp env_of r s = ((db', o2), e)"
    by (metis prod.exhaust)
  have eq: "fst (fst (relay_work opts schema scrub disp env_of r s)) = db'" by (simp only: w fst_conv)
  from relay_work_writes [OF w [unfolded s]] show ?thesis
  proof (elim disjE exE conjE)
    assume "outbox_rows db' = outbox_rows db"
    then show ?thesis unfolding eq by (intro exI [of _ out]) (simp add: s)
  next
    fix st assume "writes opts (env_of r) r (failed_handlers_of disp (env_of r) r) st (outbox_rows db) (outbox_rows db')"
    from writes_steps [OF this assms] show ?thesis unfolding eq
      by (intro exI [of _ "removeAll (lease_of r) out"]) (simp add: s)
  qed
qed

lemma effects_steps:
  assumes "distinct (map lease_of order)" and "lease_of ` set order \<subseteq> set out"
  shows "\<exists>out'. outbox_step\<^sup>*\<^sup>* (outbox_rows (fst s), out)
      (outbox_rows (fst (effects (relay_work opts schema scrub disp env_of) order s)), out')"
  using assms
proof (induction order arbitrary: s out)
  case Nil
  then show ?case by (intro exI [of _ out]) (simp add: effects_def)
next
  case (Cons r rs)
  let ?s1 = "fst (relay_work opts schema scrub disp env_of r s)"
  have "lease_of r \<in> set out" using Cons.prems by simp
  then obtain out1 where 1: "outbox_step\<^sup>*\<^sup>* (outbox_rows (fst s), out) (outbox_rows (fst ?s1), out1)"
    "set out - {lease_of r} \<subseteq> set out1"
    using relay_work_steps by blast
  have "lease_of ` set rs \<subseteq> set out1" using Cons.prems 1(2) by (force simp del: map_map)
  then obtain out2 where "outbox_step\<^sup>*\<^sup>* (outbox_rows (fst ?s1), out1)
      (outbox_rows (fst (effects (relay_work opts schema scrub disp env_of) rs ?s1)), out2)"
    using Cons.IH Cons.prems(1) by (metis distinct.simps(2) list.simps(9))
  then show ?case using 1(1) by (auto simp: effects_Cons intro: rtranclp_trans)
qed

text \<open>
  C8: a drain refines the outbox protocol: whatever it did to the table, in whatever
  interleaving, with whatever errors, is a sequence of claims, settlements under leases it was
  granted, and enqueues. What holds of every run of the protocol (the fencing, the finality of
  dispatched rows) holds of the relay.
\<close>
theorem drain_refines_protocol:
  assumes "keyed row_id (outbox_rows db)"
    and "drain_once halted opts schema scrub disp env_of None now locked sched db = (db', res)"
  shows "\<exists>out'. outbox_step\<^sup>*\<^sup>* (outbox_rows db, out) (outbox_rows db', out')"
proof -
  let ?q = "relay_claim_request opts"
  obtain rows res1 where c: "outbox_claim None now locked ?q (outbox_rows db) = (rows, res1)"
    by (cases "outbox_claim None now locked ?q (outbox_rows db)")
  then obtain records where r: "res1 = Inr records" by (auto simp: outbox_claim_def split: if_splits)
  show ?thesis
  proof (cases halted)
    case True
    then show ?thesis using assms(2) by (auto simp: drain_once_def)
  next
    case False
    let ?work = "relay_work opts schema scrub disp env_of"
    let ?p = "run_lanes ?work sched (start_pool (ro_concurrency opts) records (db\<lparr>outbox_rows := rows\<rparr>, no_outcome))"
    have db': "db' = fst (world ?p)"
      using assms(2) False c r by (auto simp: drain_once_def drain_pool_def split: option.splits)
    obtain order where o: "mset order \<subseteq># mset records"
      "world ?p = effects ?work order (db\<lparr>outbox_rows := rows\<rparr>, no_outcome)"
      using pool_works_some by metis
    have claimed: "claim_step (now, locked, ?q) (outbox_rows db) = (rows, map lease_of records)"
      using c r by (simp add: claim_step_def)
    have "distinct (map fst (map lease_of records))"
      using claim_step_distinct [OF assms(1), of now locked ?q] claimed by simp
    then have "distinct (map lease_of records)" by (simp add: distinct_map inj_on_def)
    moreover obtain rest where "mset records = mset (order @ rest)"
      using o(1) by (metis ex_mset mset_append mset_subset_eq_exists_conv)
    then have "mset (map lease_of records) = mset (map lease_of (order @ rest))" by simp
    ultimately have "distinct (map lease_of (order @ rest))" using mset_eq_imp_distinct_iff by blast
    then have "distinct (map lease_of order)" by simp
    moreover have "lease_of ` set order \<subseteq> set (map lease_of records @ out)"
      using o(1) by (auto dest!: set_mset_mono)
    ultimately have "\<exists>out'. outbox_step\<^sup>*\<^sup>*
        (outbox_rows (fst (db\<lparr>outbox_rows := rows\<rparr>, no_outcome)), map lease_of records @ out)
        (outbox_rows (fst (world ?p)), out')"
      unfolding o(2) by (rule effects_steps)
    then obtain out' where
      "outbox_step\<^sup>*\<^sup>* (rows, map lease_of records @ out) (outbox_rows (fst (world ?p)), out')" by auto
    moreover have "outbox_step (outbox_rows db, out) (rows, map lease_of records @ out)"
      by (rule claims [OF claimed])
    ultimately show ?thesis unfolding db' by (meson converse_rtranclp_into_rtranclp)
  qed
qed

theorem drain_refines_protocol_witness:
  "\<exists>out'. outbox_step\<^sup>*\<^sup>* ([example_event ''e1''], []) ([example_delivered], out')"
  using drain_refines_protocol [OF _ example_drain, of "[]"] by (simp add: keyed_def)

end
