(* ===== verification/Pg_Listener.thy ===== *)
theory Pg_Listener
  imports Prelude
begin

text \<open>
  \<open>packages/outbox/src/pg-listener.ts\<close>: one dedicated \<open>LISTEN\<close> connection that survives
  its backend dying. The listener is a state machine over the events the driver and the runtime
  deliver; a client is a number, in the order of creation. A client is wired from its creation until
  its listeners are removed: only a wired client relays notifications and reports its errors.
\<close>

section \<open>State\<close>

record pg_listener =
  listen_client :: "nat option"
  reconnect_timer :: bool
  heartbeat :: "nat option"
  ever_connected :: bool
  stopping :: bool
  reconnect_backoff :: nat
  clients :: nat
  wired :: "nat list"
  connecting :: "nat list"
  disposed :: "nat list"

record backoff_options =
  base_backoff :: nat
  max_backoff :: nat

definition RECONNECT_BACKOFF_MS :: nat where "RECONNECT_BACKOFF_MS = 250"
definition RECONNECT_MAX_BACKOFF_MS :: nat where "RECONNECT_MAX_BACKOFF_MS = 15000"

definition default_backoff :: backoff_options where
  "default_backoff = \<lparr>base_backoff = RECONNECT_BACKOFF_MS, max_backoff = RECONNECT_MAX_BACKOFF_MS\<rparr>"

definition new_listener :: "backoff_options \<Rightarrow> pg_listener" where
  "new_listener o1 =
     \<lparr>listen_client = None, reconnect_timer = False, heartbeat = None, ever_connected = False,
      stopping = False, reconnect_backoff = base_backoff o1, clients = 0, wired = [], connecting = [],
      disposed = []\<rparr>"

section \<open>Operations\<close>

definition pg_connect :: "pg_listener \<Rightarrow> pg_listener" where
  "pg_connect s =
     (if stopping s then s
      else s\<lparr>clients := Suc (clients s), wired := clients s # wired s, connecting := clients s # connecting s\<rparr>)"

definition pg_start :: "pg_listener \<Rightarrow> pg_listener" where
  "pg_start s = pg_connect (s\<lparr>stopping := False\<rparr>)"

definition pg_stop :: "pg_listener \<Rightarrow> pg_listener" where
  "pg_stop s =
     s\<lparr>stopping := True, reconnect_timer := False, heartbeat := None, listen_client := None,
       wired := (case listen_client s of None \<Rightarrow> wired s | Some c \<Rightarrow> removeAll c (wired s))\<rparr>"

definition pg_dispose :: "nat \<Rightarrow> pg_listener \<Rightarrow> pg_listener" where
  "pg_dispose c s =
     (if c \<in> set (disposed s) then s
      else let s1 = s\<lparr>disposed := c # disposed s, wired := removeAll c (wired s)\<rparr>
           in if listen_client s1 = Some c then s1\<lparr>listen_client := None, heartbeat := None\<rparr> else s1)"

definition schedule_reconnect :: "backoff_options \<Rightarrow> pg_listener \<Rightarrow> pg_listener" where
  "schedule_reconnect o1 s =
     (if stopping s \<or> reconnect_timer s then s
      else s\<lparr>reconnect_backoff := min (2 * reconnect_backoff s) (max_backoff o1), reconnect_timer := True\<rparr>)"

definition timer_fires :: "pg_listener \<Rightarrow> pg_listener" where
  "timer_fires s = pg_connect (s\<lparr>reconnect_timer := False\<rparr>)"

definition on_error :: "backoff_options \<Rightarrow> nat \<Rightarrow> pg_listener \<Rightarrow> pg_listener" where
  "on_error o1 c s = schedule_reconnect o1 (pg_dispose c s)"

definition on_end :: "backoff_options \<Rightarrow> nat \<Rightarrow> pg_listener \<Rightarrow> pg_listener" where
  "on_end o1 c s = (if stopping s then s else schedule_reconnect o1 (pg_dispose c s))"

text \<open>\<open>client.connect()\<close> and \<open>LISTEN\<close> both resolved.\<close>

definition on_connected :: "backoff_options \<Rightarrow> nat \<Rightarrow> pg_listener \<Rightarrow> pg_listener" where
  "on_connected o1 c s =
     (let s1 = s\<lparr>connecting := removeAll c (connecting s)\<rparr>
      in if c \<in> set (disposed s1) \<or> stopping s1 then pg_dispose c s1
         else s1\<lparr>listen_client := Some c, reconnect_backoff := base_backoff o1, heartbeat := Some c,
                 ever_connected := True\<rparr>)"

definition on_connect_failed :: "backoff_options \<Rightarrow> nat \<Rightarrow> pg_listener \<Rightarrow> pg_listener" where
  "on_connect_failed o1 c s =
     schedule_reconnect o1 (pg_dispose c (s\<lparr>connecting := removeAll c (connecting s)\<rparr>))"

definition on_heartbeat_failed :: "backoff_options \<Rightarrow> nat \<Rightarrow> pg_listener \<Rightarrow> pg_listener" where
  "on_heartbeat_failed o1 c s =
     (if c \<in> set (disposed s) then s else schedule_reconnect o1 (pg_dispose c s))"

section \<open>Steps\<close>

text \<open>
  \<open>prompt\<close> tells whether a client that emitted \<open>error\<close> or \<open>end\<close> while it was connecting
  settles its \<open>connect()\<close> before the reconnection it caused starts, as the driver does (both
  happen within a tick, the backoff is at least 250 ms).
\<close>

inductive pg_step :: "backoff_options \<Rightarrow> bool \<Rightarrow> pg_listener \<Rightarrow> pg_listener \<Rightarrow> bool"
  for o1 :: backoff_options and prompt :: bool where
  errors: "c \<in> set (wired s) \<Longrightarrow> pg_step o1 prompt s (on_error o1 c s)"
| ends: "c \<in> set (wired s) \<Longrightarrow> pg_step o1 prompt s (on_end o1 c s)"
| connects: "c \<in> set (connecting s) \<Longrightarrow> pg_step o1 prompt s (on_connected o1 c s)"
| connect_fails: "c \<in> set (connecting s) \<Longrightarrow> pg_step o1 prompt s (on_connect_failed o1 c s)"
| heartbeat_fails: "c < clients s \<Longrightarrow> c \<notin> set (connecting s) \<Longrightarrow> pg_step o1 prompt s (on_heartbeat_failed o1 c s)"
| fires: "reconnect_timer s \<Longrightarrow> prompt \<longrightarrow> connecting s = [] \<Longrightarrow> pg_step o1 prompt s (timer_fires s)"
| stops: "pg_step o1 prompt s (pg_stop s)"

inductive_cases pg_stepE: "pg_step o1 prompt s s'"

text \<open>The states of a listener started once.\<close>

definition pg_reach :: "backoff_options \<Rightarrow> bool \<Rightarrow> pg_listener \<Rightarrow> bool" where
  "pg_reach o1 prompt s \<longleftrightarrow> (pg_step o1 prompt)\<^sup>*\<^sup>* (pg_start (new_listener o1)) s"

section \<open>One client at a time\<close>

text \<open>
  Running, the listener is in one of three phases: it holds a connected client, it is connecting
  one, or it waits for the timer; stopped, at most a client still connecting is left.
\<close>

definition phase_ok :: "pg_listener \<Rightarrow> bool" where
  "phase_ok s \<longleftrightarrow>
     (\<exists>c. wired s = [c] \<and> listen_client s = Some c \<and> connecting s = [] \<and> \<not> reconnect_timer s \<and> c \<notin> set (disposed s))
   \<or> (\<exists>c. wired s = [c] \<and> listen_client s = None \<and> connecting s = [c] \<and> \<not> reconnect_timer s \<and> c \<notin> set (disposed s))
   \<or> (wired s = [] \<and> listen_client s = None \<and> reconnect_timer s \<and> length (connecting s) \<le> 1 \<and> set (connecting s) \<subseteq> set (disposed s))
   \<or> (stopping s \<and> listen_client s = None \<and> \<not> reconnect_timer s \<and> length (wired s) \<le> 1 \<and> length (connecting s) \<le> 1)"

definition pg_inv :: "pg_listener \<Rightarrow> bool" where
  "pg_inv s \<longleftrightarrow> phase_ok s
     \<and> (\<forall>c < clients s. c \<in> set (wired s) \<or> c \<in> set (disposed s) \<or> stopping s)
     \<and> (\<forall>c \<in> set (disposed s). c < clients s) \<and> (\<forall>c \<in> set (wired s) \<union> set (connecting s). c < clients s)
     \<and> (heartbeat s \<noteq> None \<longrightarrow> heartbeat s = listen_client s)"

lemmas pg_defs = on_error_def on_end_def on_connected_def on_connect_failed_def on_heartbeat_failed_def
  timer_fires_def pg_connect_def pg_dispose_def schedule_reconnect_def pg_stop_def Let_def

lemma phase_cases:
  assumes "phase_ok s"
  obtains (held) c where "wired s = [c]" "listen_client s = Some c" "connecting s = []" "\<not> reconnect_timer s"
      "c \<notin> set (disposed s)"
    | (joining) c where "wired s = [c]" "listen_client s = None" "connecting s = [c]" "\<not> reconnect_timer s"
      "c \<notin> set (disposed s)"
    | (waiting) "wired s = []" "listen_client s = None" "reconnect_timer s" "length (connecting s) \<le> 1"
      "set (connecting s) \<subseteq> set (disposed s)"
    | (stopped) "stopping s" "listen_client s = None" "\<not> reconnect_timer s" "length (wired s) \<le> 1"
      "length (connecting s) \<le> 1"
  using assms unfolding phase_ok_def
  apply (elim disjE exE conjE)
     apply (rule held; assumption)
    apply (rule joining; assumption)
   apply (rule waiting; assumption)
  apply (rule stopped; assumption)
  done

lemma le1_removeAll: "length xs \<le> 1 \<Longrightarrow> length (removeAll c xs) \<le> 1"
  using length_removeAll_less_eq [of c xs] by linarith

lemma inv_dispose_schedule:
  assumes "pg_inv s" "c \<in> set (wired s)"
  shows "pg_inv (schedule_reconnect o1 (pg_dispose c s))"
proof -
  have "phase_ok s" using assms(1) by (simp add: pg_inv_def)
  then show ?thesis
  proof (cases rule: phase_cases)
    case (held d)
    then show ?thesis using assms
      by (cases "stopping s") (auto simp: pg_inv_def phase_ok_def pg_dispose_def schedule_reconnect_def Let_def)
  next
    case (joining d)
    then show ?thesis using assms
      by (cases "stopping s") (auto simp: pg_inv_def phase_ok_def pg_dispose_def schedule_reconnect_def Let_def)
  next
    case waiting
    then show ?thesis using assms by simp
  next
    case stopped
    then show ?thesis using assms le1_removeAll [of "wired s" c]
      by (auto simp: pg_inv_def phase_ok_def pg_dispose_def schedule_reconnect_def Let_def)
  qed
qed

lemma inv_end:
  assumes "pg_inv s" "c \<in> set (wired s)"
  shows "pg_inv (on_end o1 c s)"
  using inv_dispose_schedule [OF assms] assms(1) by (simp add: on_end_def)

lemma inv_connected:
  assumes "pg_inv s" "c \<in> set (connecting s)"
  shows "pg_inv (on_connected o1 c s)"
proof -
  have "phase_ok s" using assms(1) by (simp add: pg_inv_def)
  then show ?thesis
  proof (cases rule: phase_cases)
    case (held d)
    then show ?thesis using assms by simp
  next
    case (joining d)
    then show ?thesis using assms
      by (cases "stopping s") (auto simp: pg_inv_def phase_ok_def pg_dispose_def on_connected_def Let_def)
  next
    case waiting
    then have "c \<in> set (disposed s)" using assms(2) by blast
    moreover have "length (removeAll c (connecting s)) \<le> 1" by (rule le1_removeAll [OF waiting(4)])
    ultimately show ?thesis using assms waiting
      unfolding pg_inv_def phase_ok_def pg_dispose_def on_connected_def Let_def by auto
  next
    case stopped
    then show ?thesis using assms le1_removeAll [of "wired s" c] le1_removeAll [of "connecting s" c]
      unfolding pg_inv_def phase_ok_def pg_dispose_def on_connected_def Let_def by auto
  qed
qed

lemma inv_connect_failed:
  assumes "pg_inv s" "c \<in> set (connecting s)"
  shows "pg_inv (on_connect_failed o1 c s)"
proof -
  have "phase_ok s" using assms(1) by (simp add: pg_inv_def)
  then show ?thesis
  proof (cases rule: phase_cases)
    case (held d)
    then show ?thesis using assms by simp
  next
    case (joining d)
    then show ?thesis using assms
      by (cases "stopping s")
         (auto simp: pg_inv_def phase_ok_def pg_dispose_def on_connect_failed_def schedule_reconnect_def Let_def)
  next
    case waiting
    then have "c \<in> set (disposed s)" using assms(2) by blast
    moreover have "length (removeAll c (connecting s)) \<le> 1" by (rule le1_removeAll [OF waiting(4)])
    ultimately show ?thesis using assms waiting
      unfolding pg_inv_def phase_ok_def pg_dispose_def on_connect_failed_def schedule_reconnect_def Let_def by auto
  next
    case stopped
    then show ?thesis using assms le1_removeAll [of "wired s" c] le1_removeAll [of "connecting s" c]
      by (cases "c \<in> set (disposed s)")
         (auto simp: pg_inv_def phase_ok_def pg_dispose_def on_connect_failed_def schedule_reconnect_def Let_def)
  qed
qed

lemma inv_heartbeat_failed:
  assumes "pg_inv s" "c < clients s" "c \<notin> set (connecting s)"
  shows "pg_inv (on_heartbeat_failed o1 c s)"
proof (cases "c \<in> set (disposed s)")
  case True
  then show ?thesis using assms by (simp add: on_heartbeat_failed_def)
next
  case False
  show ?thesis
  proof (cases "c \<in> set (wired s)")
    case True
    then show ?thesis using inv_dispose_schedule [OF assms(1) True] False by (simp add: on_heartbeat_failed_def)
  next
    case unwired: False
    then have st: "stopping s" using assms(1,2) False by (auto simp: pg_inv_def)
    have "listen_client s \<noteq> Some c" using assms(1) unwired by (auto simp: pg_inv_def phase_ok_def)
    moreover have "removeAll c (wired s) = wired s" using unwired by simp
    ultimately show ?thesis using assms st False
      by (auto simp: pg_inv_def phase_ok_def pg_dispose_def on_heartbeat_failed_def schedule_reconnect_def Let_def)
  qed
qed

lemma inv_fires:
  assumes "pg_inv s" "reconnect_timer s" "connecting s = []"
  shows "pg_inv (timer_fires s)"
proof -
  have "phase_ok s" using assms(1) by (simp add: pg_inv_def)
  then show ?thesis
  proof (cases rule: phase_cases)
    case waiting
    then show ?thesis using assms
      by (cases "stopping s") (auto simp: pg_inv_def phase_ok_def timer_fires_def pg_connect_def less_Suc_eq)
  qed (use assms in simp_all)
qed

lemma inv_stop:
  assumes "pg_inv s"
  shows "pg_inv (pg_stop s)"
proof -
  have "phase_ok s" using assms(1) by (simp add: pg_inv_def)
  then show ?thesis
    by (cases rule: phase_cases) (use assms in \<open>auto simp: pg_inv_def phase_ok_def pg_stop_def\<close>)
qed

lemma pg_step_inv: "pg_step o1 True s s' \<Longrightarrow> pg_inv s \<Longrightarrow> pg_inv s'"
  by (induction rule: pg_step.induct)
     (simp_all add: on_error_def inv_dispose_schedule inv_end inv_connected inv_connect_failed
        inv_heartbeat_failed inv_fires inv_stop)

lemma pg_start_inv: "pg_inv (pg_start (new_listener o1))"
  by (auto simp: pg_start_def pg_connect_def new_listener_def pg_inv_def phase_ok_def)

lemma pg_reach_inv: "pg_reach o1 True s \<Longrightarrow> pg_inv s"
proof -
  assume "pg_reach o1 True s"
  then have "(pg_step o1 True)\<^sup>*\<^sup>* (pg_start (new_listener o1)) s" by (simp add: pg_reach_def)
  then show "pg_inv s" by (induction rule: rtranclp_induct) (auto intro: pg_start_inv pg_step_inv)
qed

lemma backoff_step:
  "pg_step o1 prompt s s' \<Longrightarrow> base_backoff o1 \<le> max_backoff o1 \<Longrightarrow>
     base_backoff o1 \<le> reconnect_backoff s \<and> reconnect_backoff s \<le> max_backoff o1 \<Longrightarrow>
     base_backoff o1 \<le> reconnect_backoff s' \<and> reconnect_backoff s' \<le> max_backoff o1"
  by (induction rule: pg_step.induct) (auto simp: pg_defs)

text \<open>
  A dead connection is replaced, by exactly one. In every state a listener started once can
  reach, at most one client is wired, so a notification is relayed at most once; and until it is
  stopped it is never stuck: it holds a connected client, or is connecting one, or the
  reconnection timer is set, and exactly one of the three, with the backoff in its bounds.
\<close>
theorem listener_replaces_once:
  assumes "pg_reach o1 True s" and "base_backoff o1 \<le> max_backoff o1"
  shows "length (wired s) \<le> 1
    \<and> (\<not> stopping s \<longrightarrow>
        (case listen_client s of
           Some c \<Rightarrow> wired s = [c] \<and> connecting s = [] \<and> \<not> reconnect_timer s
         | None \<Rightarrow> reconnect_timer s \<noteq> (\<exists>c. wired s = [c] \<and> connecting s = [c])))
    \<and> base_backoff o1 \<le> reconnect_backoff s \<and> reconnect_backoff s \<le> max_backoff o1"
proof -
  have "phase_ok s" using pg_reach_inv [OF assms(1)] by (simp add: pg_inv_def)
  then have "length (wired s) \<le> 1
    \<and> (\<not> stopping s \<longrightarrow>
        (case listen_client s of
           Some c \<Rightarrow> wired s = [c] \<and> connecting s = [] \<and> \<not> reconnect_timer s
         | None \<Rightarrow> reconnect_timer s \<noteq> (\<exists>c. wired s = [c] \<and> connecting s = [c])))"
    by (cases rule: phase_cases) auto
  moreover have "base_backoff o1 \<le> reconnect_backoff s \<and> reconnect_backoff s \<le> max_backoff o1"
    using assms(1) unfolding pg_reach_def
  proof (induction rule: rtranclp_induct)
    case base
    then show ?case using assms(2) by (simp add: pg_start_def pg_connect_def new_listener_def)
  next
    case (step y z)
    then show ?case using backoff_step assms(2) by blast
  qed
  ultimately show ?thesis by blast
qed

theorem listener_replaces_once_witness:
  "length (wired (on_error default_backoff 0 (pg_start (new_listener default_backoff)))) \<le> 1
   \<and> reconnect_timer (on_error default_backoff 0 (pg_start (new_listener default_backoff)))"
proof -
  let ?s0 = "pg_start (new_listener default_backoff)"
  let ?s1 = "on_error default_backoff 0 ?s0"
  note ev = pg_defs pg_start_def new_listener_def default_backoff_def
  have "pg_step default_backoff True ?s0 ?s1" by (rule errors) (simp add: ev)
  then have reach: "pg_reach default_backoff True ?s1" by (auto simp: pg_reach_def)
  have "base_backoff default_backoff \<le> max_backoff default_backoff"
    by (simp add: default_backoff_def RECONNECT_BACKOFF_MS_def RECONNECT_MAX_BACKOFF_MS_def)
  from listener_replaces_once [OF reach this] show ?thesis by (simp add: ev)
qed

text \<open>
  Without the driver's promptness the listener can leave two clients relaying: \<open>error\<close> fires
  while the first client is connecting, the reconnection starts a second one, and the rejection of
  the first \<open>connect()\<close>, arriving last, schedules a third.
\<close>
lemma late_rejection_leaves_two_clients:
  "\<exists>s. pg_reach default_backoff False s \<and> length (wired s) = 2 \<and> connecting s = []"
proof -
  let ?o = default_backoff
  let ?s0 = "pg_start (new_listener ?o)"
  let ?s1 = "on_error ?o 0 ?s0"
  let ?s2 = "timer_fires ?s1"
  let ?s3 = "on_connected ?o 1 ?s2"
  let ?s4 = "on_connect_failed ?o 0 ?s3"
  let ?s5 = "timer_fires ?s4"
  let ?s6 = "on_connected ?o 2 ?s5"
  note ev = pg_defs pg_start_def new_listener_def default_backoff_def
  have "pg_step ?o False ?s0 ?s1" by (rule errors) (simp add: ev)
  moreover have "pg_step ?o False ?s1 ?s2" by (rule fires) (simp_all add: ev)
  moreover have "pg_step ?o False ?s2 ?s3" by (rule connects) (simp add: ev)
  moreover have "pg_step ?o False ?s3 ?s4" by (rule connect_fails) (simp add: ev)
  moreover have "pg_step ?o False ?s4 ?s5" by (rule fires) (simp_all add: ev)
  moreover have "pg_step ?o False ?s5 ?s6" by (rule connects) (simp add: ev)
  ultimately have "pg_reach ?o False ?s6"
    unfolding pg_reach_def by (meson rtranclp.rtrancl_refl rtranclp.rtrancl_into_rtrancl)
  moreover have "length (wired ?s6) = 2 \<and> connecting ?s6 = []" by (simp add: ev)
  ultimately show ?thesis by blast
qed

text \<open>
  Nor may it be stopped and started again while it is connecting: \<open>start\<close> lowers the flag the
  first client would have been refused by, and both are adopted in turn.
\<close>
lemma restart_leaves_two_clients:
  "wired (on_connected default_backoff 1 (on_connected default_backoff 0
     (pg_start (pg_stop (pg_start (new_listener default_backoff)))))) = [1, 0]"
  by (simp add: pg_defs pg_start_def new_listener_def default_backoff_def)

end
