(* ===== verification/Outbox_Dispatcher.thy ===== *)
theory Outbox_Dispatcher
  imports Prelude Complex_Main
begin

text \<open>
  \<open>packages/outbox/src/outbox-dispatcher.ts\<close>: when the outbox is drained. A notification, a
  reconnection of the listener or the timer wakes the dispatcher; one drain runs at a time, a wake
  that arrives during it makes it drain again, and between drains a timer is set for the next row
  due. The drain itself is its result: it threw, or the counts and the pending state it read.
\<close>

definition OUTBOX_BATCH_SIZE :: int where "OUTBOX_BATCH_SIZE = 50"
definition POLL_INTERVAL_MS :: int where "POLL_INTERVAL_MS = 30000"
definition EMPTY_DRAIN_FLOOR_MS :: int where "EMPTY_DRAIN_FLOOR_MS = 50"
definition FAILED_DRAIN_RETRY_MS :: int where "FAILED_DRAIN_RETRY_MS = 2000"

datatype drain_result = DrainThrew | Drained nat nat "real option"

text \<open>The arguments of \<open>Drained\<close>: dispatched, failed, \<open>dueInMs\<close>.\<close>

fun plan_next_wake :: "bool \<Rightarrow> drain_result \<Rightarrow> int" where
  "plan_next_wake False res = POLL_INTERVAL_MS"
| "plan_next_wake True DrainThrew = FAILED_DRAIN_RETRY_MS"
| "plan_next_wake True (Drained dispatched failed due) =
     (let floor_ms = (if dispatched + failed = 0 then EMPTY_DRAIN_FLOOR_MS else 0);
          next_due = max floor_ms \<lceil>case due of None \<Rightarrow> of_int POLL_INTERVAL_MS | Some d \<Rightarrow> d\<rceil>
      in min next_due POLL_INTERVAL_MS)"

record dispatcher_state =
  d_relay :: bool
  d_started :: bool
  d_stopped :: bool
  d_draining :: bool
  d_wake_requested :: bool
  d_timer :: "int option"
  d_starting :: bool
  d_halted :: bool

definition new_dispatcher :: dispatcher_state where
  "new_dispatcher =
     \<lparr>d_relay = False, d_started = False, d_stopped = True, d_draining = False, d_wake_requested = False,
      d_timer = None, d_starting = False, d_halted = False\<rparr>"

text \<open>\<open>start\<close> up to its first \<open>await\<close>, and the wake it ends with.\<close>

definition begin_start :: "dispatcher_state \<Rightarrow> dispatcher_state" where
  "begin_start s =
     (if d_started s then s
      else s\<lparr>d_started := True, d_stopped := False, d_relay := True, d_halted := False, d_starting := True\<rparr>)"

definition wake :: "dispatcher_state \<Rightarrow> dispatcher_state" where
  "wake s =
     (if d_stopped s then s
      else if d_draining s then s\<lparr>d_wake_requested := True\<rparr>
      else s\<lparr>d_timer := None, d_draining := True, d_wake_requested := False\<rparr>)"

definition end_start :: "dispatcher_state \<Rightarrow> dispatcher_state" where
  "end_start s = (wake s)\<lparr>d_starting := False\<rparr>"

definition dispatcher_stop :: "dispatcher_state \<Rightarrow> dispatcher_state" where
  "dispatcher_stop s = s\<lparr>d_started := False, d_stopped := True, d_timer := None, d_halted := True\<rparr>"

text \<open>The end of one turn of the loop of \<open>drainUntilQuiet\<close>, and of the loop.\<close>

definition drain_ends :: "drain_result \<Rightarrow> dispatcher_state \<Rightarrow> dispatcher_state" where
  "drain_ends res s =
     (let next_wake = plan_next_wake (d_relay s) res
      in if \<not> d_stopped s \<and> (d_wake_requested s \<or> next_wake = 0)
         then s\<lparr>d_wake_requested := False\<rparr>
         else if d_stopped s then s\<lparr>d_draining := False\<rparr>
         else s\<lparr>d_draining := False, d_timer := Some next_wake\<rparr>)"

definition wake_timer_fires :: "dispatcher_state \<Rightarrow> dispatcher_state" where
  "wake_timer_fires s = wake (s\<lparr>d_timer := None\<rparr>)"

inductive dispatcher_step :: "dispatcher_state \<Rightarrow> dispatcher_state \<Rightarrow> bool" where
  starts: "dispatcher_step s (begin_start s)"
| started: "d_starting s \<Longrightarrow> dispatcher_step s (end_start s)"
| woken: "dispatcher_step s (wake s)"
| drained: "d_draining s \<Longrightarrow> dispatcher_step s (drain_ends res s)"
| timer: "d_timer s \<noteq> None \<Longrightarrow> dispatcher_step s (wake_timer_fires s)"
| stops: "dispatcher_step s (dispatcher_stop s)"

definition dispatcher_reach :: "dispatcher_state \<Rightarrow> bool" where
  "dispatcher_reach s \<longleftrightarrow> dispatcher_step\<^sup>*\<^sup>* new_dispatcher s"

section \<open>The next wake\<close>

lemma plan_bounds: "0 \<le> plan_next_wake relay res \<and> plan_next_wake relay res \<le> POLL_INTERVAL_MS
    \<or> (\<exists>n m d. res = Drained n m (Some d) \<and> d < 0)"
proof (cases "(relay, res)" rule: plan_next_wake.cases)
  case (3 n m due)
  then show ?thesis
    by (cases due) (auto simp: Let_def POLL_INTERVAL_MS_def EMPTY_DRAIN_FLOOR_MS_def le_max_iff_disj)
qed (auto simp: POLL_INTERVAL_MS_def FAILED_DRAIN_RETRY_MS_def)

text \<open>
  The next wake is never later than the next row due, than two seconds after a failed drain or
  than the poll interval; and a drain that moved nothing never wakes again at once, so an
  undrainable row cannot spin the loop.
\<close>
theorem next_wake_bounds:
  assumes "due = None \<or> (\<exists>d. due = Some d \<and> 0 \<le> d)"
  shows "plan_next_wake True (Drained n m due) \<le> POLL_INTERVAL_MS
    \<and> 0 \<le> plan_next_wake True (Drained n m due)
    \<and> (n + m = 0 \<longrightarrow> EMPTY_DRAIN_FLOOR_MS \<le> plan_next_wake True (Drained n m due))
    \<and> (\<forall>d. due = Some d \<longrightarrow> real_of_int (plan_next_wake True (Drained n m due)) < max (real_of_int EMPTY_DRAIN_FLOOR_MS) d + 1)
    \<and> plan_next_wake True DrainThrew = FAILED_DRAIN_RETRY_MS"
proof -
  have "real_of_int (plan_next_wake True (Drained n m (Some d))) < max (real_of_int EMPTY_DRAIN_FLOOR_MS) d + 1"
    if "0 \<le> d" for d
  proof -
    have "plan_next_wake True (Drained n m (Some d)) \<le> max EMPTY_DRAIN_FLOOR_MS \<lceil>d\<rceil>"
      by (auto simp: Let_def EMPTY_DRAIN_FLOOR_MS_def POLL_INTERVAL_MS_def min_def max_def)
    then have "real_of_int (plan_next_wake True (Drained n m (Some d))) \<le> max (real_of_int EMPTY_DRAIN_FLOOR_MS) (real_of_int \<lceil>d\<rceil>)"
      by (metis of_int_le_iff of_int_max)
    also have "\<dots> < max (real_of_int EMPTY_DRAIN_FLOOR_MS) d + 1"
      using ceiling_correct [of d] by (auto simp: max_def)
    finally show ?thesis .
  qed
  moreover have "0 \<le> plan_next_wake True (Drained n m due) \<and> plan_next_wake True (Drained n m due) \<le> POLL_INTERVAL_MS"
    using plan_bounds [of True "Drained n m due"] assms by auto
  moreover have "n + m = 0 \<longrightarrow> EMPTY_DRAIN_FLOOR_MS \<le> plan_next_wake True (Drained n m due)"
    by (simp add: Let_def EMPTY_DRAIN_FLOOR_MS_def POLL_INTERVAL_MS_def)
  ultimately show ?thesis using assms by auto
qed

theorem next_wake_bounds_witness: "plan_next_wake True (Drained 3 0 (Some 250)) \<le> POLL_INTERVAL_MS"
  using next_wake_bounds [of "Some 250" 3 0] by simp

section \<open>Never asleep for good\<close>

definition dispatcher_inv :: "dispatcher_state \<Rightarrow> bool" where
  "dispatcher_inv s \<longleftrightarrow>
     (\<not> d_stopped s \<longrightarrow> d_draining s \<or> d_timer s \<noteq> None \<or> d_starting s)
   \<and> (d_timer s \<noteq> None \<longrightarrow> \<not> d_draining s \<and> \<not> d_stopped s)
   \<and> (d_started s \<longleftrightarrow> \<not> d_stopped s)
   \<and> (\<not> d_stopped s \<longrightarrow> d_relay s)"

lemma dispatcher_step_inv: "dispatcher_step s s' \<Longrightarrow> dispatcher_inv s \<Longrightarrow> dispatcher_inv s'"
  by (induction rule: dispatcher_step.induct)
     (auto simp: dispatcher_inv_def begin_start_def end_start_def wake_def drain_ends_def
        wake_timer_fires_def dispatcher_stop_def Let_def)

lemma dispatcher_reach_inv: "dispatcher_reach s \<Longrightarrow> dispatcher_inv s"
proof -
  assume "dispatcher_reach s"
  then have "dispatcher_step\<^sup>*\<^sup>* new_dispatcher s" by (simp add: dispatcher_reach_def)
  then show "dispatcher_inv s"
  proof (induction rule: rtranclp_induct)
    case base
    then show ?case by (simp add: dispatcher_inv_def new_dispatcher_def)
  next
    case (step y z)
    then show ?case by (blast intro: dispatcher_step_inv)
  qed
qed

text \<open>
  C9: a started dispatcher never sleeps for good and never misses a wake: it is draining, or has
  a timer set, or is still starting, in every reachable state; a wake during a drain makes it drain
  again before it sleeps; and once stopped, the drain in flight is the last.
\<close>
theorem dispatcher_never_misses_a_wake:
  assumes "dispatcher_reach s"
  shows "(\<not> d_stopped s \<longrightarrow> d_draining s \<or> d_timer s \<noteq> None \<or> d_starting s)
    \<and> (\<not> d_stopped s \<longrightarrow> d_draining (wake s))
    \<and> (\<not> d_stopped s \<longrightarrow> d_draining s \<longrightarrow> d_draining (drain_ends res (wake s)))
    \<and> (d_stopped s \<longrightarrow> wake s = s \<and> \<not> d_draining (drain_ends res s) \<and> d_timer (drain_ends res s) = None)"
  using dispatcher_reach_inv [OF assms]
  by (auto simp: dispatcher_inv_def wake_def drain_ends_def Let_def)

theorem dispatcher_never_misses_a_wake_witness:
  "d_draining (drain_ends DrainThrew (wake (wake (end_start (begin_start new_dispatcher)))))"
proof -
  let ?s = "wake (end_start (begin_start new_dispatcher))"
  have "dispatcher_step new_dispatcher (begin_start new_dispatcher)"
    "dispatcher_step (begin_start new_dispatcher) (end_start (begin_start new_dispatcher))"
    "dispatcher_step (end_start (begin_start new_dispatcher)) ?s"
    by (rule starts, rule started, simp add: begin_start_def new_dispatcher_def, rule woken)
  then have "dispatcher_reach ?s"
    unfolding dispatcher_reach_def by (meson rtranclp.rtrancl_refl rtranclp.rtrancl_into_rtrancl)
  from dispatcher_never_misses_a_wake [OF this, of DrainThrew] show ?thesis
    by (simp add: begin_start_def end_start_def new_dispatcher_def wake_def)
qed

end
