(* ===== verification/Email_Queue.thy ===== *)
theory Email_Queue
  imports Lease
begin

text \<open>
  The e-mail queue: \<open>packages/drizzle/src/schema/email.ts\<close>,
  \<open>packages/email/src/email-queue.port.ts\<close>, \<open>drizzle-email-queue.ts\<close> and
  \<open>email.service.ts\<close>, and its reading as a leased queue.

  As for the outbox, \<open>locked\<close> are the rows other transactions hold, \<open>db_error\<close> is a
  driver error, and where a query leaves the order of ties open the order of the table is taken.
\<close>

section \<open>Rows\<close>

datatype email_kind = TemplateMail | RawMail
datatype email_status = EPending | ESent | EFailed | EDead

record email_row = lease_row +
  em_kind :: email_kind
  em_template :: "string option"
  em_to :: string
  em_subject :: string
  em_locale :: "string option"
  em_payload :: json
  em_status :: email_status
  em_sent_at :: "instant option"
  em_last_error :: "string option"
  em_provider_id :: "string option"
  em_idempotency :: "string option"
  em_batch :: "string option"
  em_created :: instant

record email_insert =
  ei_kind :: email_kind
  ei_template :: "string option"
  ei_to :: string
  ei_subject :: string
  ei_locale :: string
  ei_payload :: json
  ei_idempotency :: "string option"

text \<open>A claimed row and how many rows of its batch are unsettled, if it has a batch.\<close>

type_synonym email_record = "email_row \<times> nat option"

record email_claim =
  ec_limit :: nat
  ec_lease :: int
  ec_window_hours :: int

datatype email_failure = Final string | Retried string bool int

text \<open>\<open>Retried err dead secs\<close> stands for the status \<open>dead\<close> or \<open>pending\<close>.\<close>

definition LAST_ERROR_MAX_LENGTH :: nat where "LAST_ERROR_MAX_LENGTH = 2000"

definition unsettled :: "email_row \<Rightarrow> bool" where
  "unsettled r \<longleftrightarrow> em_status r = EPending \<or> em_status r = EDead"

section \<open>Enqueuing\<close>

definition email_insert_row :: "instant \<Rightarrow> ident \<Rightarrow> email_insert \<Rightarrow> email_row" where
  "email_insert_row now fresh r =
     \<lparr>row_id = fresh, attempts = 0, next_attempt_at = None, em_kind = ei_kind r,
      em_template = ei_template r, em_to = ei_to r, em_subject = ei_subject r, em_locale = Some (ei_locale r),
      em_payload = ei_payload r, em_status = EPending, em_sent_at = None, em_last_error = None,
      em_provider_id = None, em_idempotency = ei_idempotency r, em_batch = None, em_created = now\<rparr>"

text \<open>
  \<open>ON CONFLICT (idempotency_key) DO NOTHING ... RETURNING id\<close>: a row whose key is in the table
  already is skipped; a \<open>NULL\<close> key never conflicts.
\<close>

fun insert_unless_key :: "email_row list \<Rightarrow> email_row list \<Rightarrow> email_row list \<times> nat" where
  "insert_unless_key [] t = (t, 0)"
| "insert_unless_key (r # rs) t =
     (if em_idempotency r \<noteq> None \<and> em_idempotency r \<in> em_idempotency ` set t
      then insert_unless_key rs t
      else case insert_unless_key rs (t @ [r]) of (t', n) \<Rightarrow> (t', Suc n))"

definition email_enqueue ::
  "string option \<Rightarrow> instant \<Rightarrow> (nat \<Rightarrow> ident) \<Rightarrow> email_insert list \<Rightarrow> email_row list \<Rightarrow>
   email_row list \<times> (nat, string) result" where
  "email_enqueue db_error now fresh rows t =
     (if rows = [] then (t, ok 0)
      else case db_error of
        Some msg \<Rightarrow> (t, fail msg)
      | None \<Rightarrow>
          (case insert_unless_key (map (\<lambda>(i, r). email_insert_row now (fresh i) r) (enumerate 0 rows)) t of
             (t', n) \<Rightarrow> (t', ok n)))"

text \<open>\<open>QueuedEmailService.enqueue\<close>: a write that was suppressed whole is a failure.\<close>

definition service_enqueue ::
  "string option \<Rightarrow> instant \<Rightarrow> (nat \<Rightarrow> ident) \<Rightarrow> email_insert list \<Rightarrow> email_row list \<Rightarrow>
   email_row list \<times> (unit, string) result" where
  "service_enqueue db_error now fresh rows t =
     (case email_enqueue db_error now fresh rows t of
        (t', Inl msg) \<Rightarrow> (t', fail msg)
      | (t', Inr written) \<Rightarrow>
          (t', if rows \<noteq> [] \<and> written = 0
               then fail ''email enqueue fully suppressed: 0 row(s) written'' else ok ()))"

definition batch_row_key :: "string option \<Rightarrow> nat \<Rightarrow> string option" where
  "batch_row_key batch_key index =
     (case batch_key of
        None \<Rightarrow> None
      | Some k \<Rightarrow> if k = [] then None else Some (k @ ''#'' @ show_nat index))"

section \<open>Claiming\<close>

definition pending_due :: "instant \<Rightarrow> email_row \<Rightarrow> bool" where
  "pending_due now r \<longleftrightarrow> em_status r = EPending \<and> is_due now (next_attempt_at r)"

definition in_window :: "instant \<Rightarrow> email_claim \<Rightarrow> email_row \<Rightarrow> bool" where
  "in_window now q r \<longleftrightarrow> now - ec_window_hours q * 3600000 < em_created r"

definition dead_due :: "instant \<Rightarrow> email_claim \<Rightarrow> email_row \<Rightarrow> bool" where
  "dead_due now q r \<longleftrightarrow> em_status r = EDead \<and> is_dead_due now (next_attempt_at r) \<and> in_window now q r"

definition replayable :: "instant \<Rightarrow> email_claim \<Rightarrow> email_row \<Rightarrow> bool" where
  "replayable now q r \<longleftrightarrow> unsettled r \<and> (em_status r = EPending \<or> in_window now q r)"

definition picked_rows :: "instant \<Rightarrow> ident list \<Rightarrow> email_claim \<Rightarrow> email_row list \<Rightarrow> email_row list" where
  "picked_rows now locked q t =
     (let live = sql_select (\<lambda>r. pending_due now r \<and> row_id r \<notin> set locked) em_created (ec_limit q) t;
          dead = sql_select (\<lambda>r. dead_due now q r \<and> row_id r \<notin> set locked) due_key (dead_share_of (ec_limit q)) t
      in take (ec_limit q) (sort_key em_created (live @ dead)))"

definition sibling_rows :: "instant \<Rightarrow> ident list \<Rightarrow> email_claim \<Rightarrow> email_row list \<Rightarrow> email_row list" where
  "sibling_rows now locked q t =
     filter (\<lambda>r. em_batch r \<noteq> None \<and> em_batch r \<in> em_batch ` set (picked_rows now locked q t)
               \<and> (pending_due now r \<or> dead_due now q r) \<and> row_id r \<notin> set locked) t"

definition due_mail :: "instant \<Rightarrow> ident list \<Rightarrow> email_claim \<Rightarrow> email_row list \<Rightarrow> email_row \<Rightarrow> bool" where
  "due_mail now locked q t r \<longleftrightarrow>
     row_id r \<in> row_id ` (set (picked_rows now locked q t) \<union> set (sibling_rows now locked q t)) \<and> unsettled r"

definition batch_size :: "instant \<Rightarrow> email_claim \<Rightarrow> email_row list \<Rightarrow> string option \<Rightarrow> nat option" where
  "batch_size now q t b =
     (case b of
        None \<Rightarrow> None
      | Some k \<Rightarrow> let n = length (filter (\<lambda>r. em_batch r = Some k \<and> replayable now q r) t)
                  in if n = 0 then None else Some n)"

definition email_claim_query ::
  "instant \<Rightarrow> ident list \<Rightarrow> email_claim \<Rightarrow> email_row list \<Rightarrow> email_row list \<times> email_record list" where
  "email_claim_query now locked q t =
     (sql_update (due_mail now locked q t) (claimed_set now (ec_lease q)) t,
      map (\<lambda>r. (claimed_set now (ec_lease q) r, batch_size now q t (em_batch r)))
          (filter (due_mail now locked q t) t))"

definition is_locale :: "string \<Rightarrow> bool" where
  "is_locale l \<longleftrightarrow> l = ''en'' \<or> l = ''fr''"

definition to_record :: "email_record \<Rightarrow> email_record" where
  "to_record rec =
     ((fst rec)\<lparr>em_locale := (case em_locale (fst rec) of None \<Rightarrow> None | Some l \<Rightarrow> if is_locale l then Some l else None)\<rparr>,
      snd rec)"

definition email_claim_rows ::
  "string option \<Rightarrow> instant \<Rightarrow> ident list \<Rightarrow> email_claim \<Rightarrow> email_row list \<Rightarrow>
   email_row list \<times> (email_record list, string) result" where
  "email_claim_rows db_error now locked q t =
     (case db_error of
        Some msg \<Rightarrow> (t, fail msg)
      | None \<Rightarrow>
          (fst (email_claim_query now locked q t),
           ok (sort_key (\<lambda>rec. (em_created (fst rec), row_id (fst rec)))
                 (map to_record (snd (email_claim_query now locked q t))))))"

section \<open>Settling under the leases\<close>

definition leased_all :: "lease_key list \<Rightarrow> email_row \<Rightarrow> bool" where
  "leased_all leases r \<longleftrightarrow> list_ex (leased_by r) leases \<and> unsettled r"

definition update_leased ::
  "string option \<Rightarrow> (email_row \<Rightarrow> email_row) \<Rightarrow> lease_key list \<Rightarrow> email_row list \<Rightarrow>
   email_row list \<times> (lease_key list, string) result" where
  "update_leased db_error change leases t =
     (if leases = [] then (t, ok [])
      else case db_error of
        Some msg \<Rightarrow> (t, fail msg)
      | None \<Rightarrow> (sql_update (leased_all leases) change t,
                 ok (map lease_of (sql_returning (leased_all leases) change t))))"

fun failure_changes :: "instant \<Rightarrow> email_failure \<Rightarrow> email_row \<Rightarrow> email_row" where
  "failure_changes now (Final err) r =
     r\<lparr>em_status := EFailed, em_last_error := Some (take LAST_ERROR_MAX_LENGTH err), next_attempt_at := None\<rparr>"
| "failure_changes now (Retried err dead secs) r =
     r\<lparr>em_status := (if dead then EDead else EPending), em_last_error := Some (take LAST_ERROR_MAX_LENGTH err),
       next_attempt_at := Some (seconds_from_now now secs)\<rparr>"

definition sent_changes :: "instant \<Rightarrow> (ident \<rightharpoonup> string) \<Rightarrow> email_row \<Rightarrow> email_row" where
  "sent_changes now provider_ids r =
     r\<lparr>em_status := ESent, em_sent_at := Some now, next_attempt_at := None, em_last_error := None,
       em_provider_id := provider_ids (row_id r)\<rparr>"

definition release_changes :: "instant \<Rightarrow> int \<Rightarrow> email_row \<Rightarrow> email_row" where
  "release_changes now delay r =
     (released_set now r)\<lparr>next_attempt_at := Some (seconds_from_now now delay)\<rparr>"

definition email_mark_sent where
  "email_mark_sent db_error now leases provider_ids t =
     update_leased db_error (sent_changes now provider_ids) leases t"

definition email_assign_batch where
  "email_assign_batch db_error leases key t =
     update_leased db_error (\<lambda>r. r\<lparr>em_batch := Some key\<rparr>) leases t"

definition email_mark_failed where
  "email_mark_failed db_error now leases failure t =
     update_leased db_error (failure_changes now failure) leases t"

definition email_release ::
  "string option \<Rightarrow> instant \<Rightarrow> lease_key list \<Rightarrow> int \<Rightarrow> email_row list \<Rightarrow> email_row list \<times> (nat, string) result" where
  "email_release db_error now leases delay t =
     (case update_leased db_error (release_changes now delay) leases t of
        (t', Inl e) \<Rightarrow> (t', fail e)
      | (t', Inr written) \<Rightarrow> (t', ok (length written)))"

end
