(* ===== verification/Lease_Table.thy ===== *)
theory Lease_Table
  imports Lease "HOL-Library.Multiset"
begin

text \<open>
  Queues whose lease lives in a table keyed by row id and whose statements are a claim
  (\<open>UPDATE ... SET attempts = attempts + 1\<close> of the rows due) and settlements (\<open>UPDATE ...
  WHERE leased AND open\<close>). The locale \<open>lease_table\<close> states what such a queue must provide;
  it gives the contract \<open>leased_queue\<close>, and adds settling many leases in one statement.
\<close>

definition table_attempt :: "'a lease_row_scheme list \<Rightarrow> ident \<Rightarrow> int option" where
  "table_attempt t k = map_option attempts (row_of row_id k t)"

definition table_open :: "('a lease_row_scheme \<Rightarrow> bool) \<Rightarrow> 'a lease_row_scheme list \<Rightarrow> ident \<Rightarrow> bool" where
  "table_open opened t k \<longleftrightarrow> (case row_of row_id k t of None \<Rightarrow> False | Some r \<Rightarrow> opened r)"

definition table_claim ::
  "('q \<Rightarrow> 'a lease_row_scheme list \<Rightarrow> 'a lease_row_scheme \<Rightarrow> bool) \<Rightarrow>
   ('q \<Rightarrow> 'a lease_row_scheme \<Rightarrow> 'a lease_row_scheme) \<Rightarrow>
   'q \<Rightarrow> 'a lease_row_scheme list \<Rightarrow> 'a lease_row_scheme list \<times> lease_key list" where
  "table_claim due claimed q t =
     (sql_update (due q t) (claimed q) t, map lease_of (sql_returning (due q t) (claimed q) t))"

definition leased_any :: "('a lease_row_scheme \<Rightarrow> bool) \<Rightarrow> lease_key list \<Rightarrow> 'a lease_row_scheme \<Rightarrow> bool" where
  "leased_any opened ls r \<longleftrightarrow> list_ex (leased_by r) ls \<and> opened r"

definition table_settle_all ::
  "('a lease_row_scheme \<Rightarrow> bool) \<Rightarrow> ('c \<Rightarrow> 'a lease_row_scheme \<Rightarrow> 'a lease_row_scheme) \<Rightarrow>
   'c \<Rightarrow> lease_key list \<Rightarrow> 'a lease_row_scheme list \<Rightarrow> 'a lease_row_scheme list" where
  "table_settle_all opened settled c ls t = sql_update (leased_any opened ls) (settled c) t"

definition table_settle ::
  "('a lease_row_scheme \<Rightarrow> bool) \<Rightarrow> ('c \<Rightarrow> 'a lease_row_scheme \<Rightarrow> 'a lease_row_scheme) \<Rightarrow>
   'c \<Rightarrow> lease_key \<Rightarrow> 'a lease_row_scheme list \<Rightarrow> 'a lease_row_scheme list \<times> bool" where
  "table_settle opened settled c l t =
     (table_settle_all opened settled c [l] t, list_ex (leased_any opened [l]) t)"

lemma leased_by_iff: "leased_by r l \<longleftrightarrow> l = lease_of r"
  by (cases l) (auto simp: leased_by_def lease_of_def)

lemma leased_any_iff: "leased_any opened ls r \<longleftrightarrow> lease_of r \<in> set ls \<and> opened r"
  by (auto simp: leased_any_def list_ex_iff leased_by_iff)

lemma table_attempt_iff:
  "keyed row_id t \<Longrightarrow> table_attempt t k = Some n \<longleftrightarrow> (\<exists>r \<in> set t. row_id r = k \<and> attempts r = n)"
  by (auto simp: table_attempt_def row_of_keyed dest: row_of_Some)

lemma table_attempt_row: "keyed row_id t \<Longrightarrow> r \<in> set t \<Longrightarrow> table_attempt t (row_id r) = Some (attempts r)"
  by (simp add: table_attempt_def row_of_keyed)

lemma lease_inv_mset:
  "mset out = mset out' \<Longrightarrow> lease_inv f t out = lease_inv f t out'"
  using mset_eq_imp_distinct_iff [of out out'] mset_eq_setD [of out out'] by (simp add: lease_inv_def)

lemma lease_inv_cong:
  "(\<And>k a. (k, a) \<in> set out \<Longrightarrow> f t' k = f t k) \<Longrightarrow> lease_inv f t out \<Longrightarrow> lease_inv f t' out"
  by (auto simp: lease_inv_def)

locale lease_table =
  fixes opened :: "'a lease_row_scheme \<Rightarrow> bool"
    and due :: "'q \<Rightarrow> 'a lease_row_scheme list \<Rightarrow> 'a lease_row_scheme \<Rightarrow> bool"
    and claimed :: "'q \<Rightarrow> 'a lease_row_scheme \<Rightarrow> 'a lease_row_scheme"
    and settled :: "'c \<Rightarrow> 'a lease_row_scheme \<Rightarrow> 'a lease_row_scheme"
    and gives_back :: "'c \<Rightarrow> bool"
  assumes due_opened: "r \<in> set t \<Longrightarrow> due q t r \<Longrightarrow> opened (claimed q r)"
    and claimed_id: "row_id (claimed q r) = row_id r"
    and claimed_attempts: "attempts (claimed q r) = attempts r + 1"
    and settled_id: "row_id (settled c r) = row_id r"
    and settled_attempts: "attempts (settled c r) = (if gives_back c then attempts r - 1 else attempts r)"
begin

lemma keyed_claim: "keyed row_id (fst (table_claim due claimed q t)) = keyed row_id t"
  by (simp add: table_claim_def keyed_sql_update claimed_id)

lemma keyed_settle_all: "keyed row_id (table_settle_all opened settled c ls t) = keyed row_id t"
  by (simp add: table_settle_all_def keyed_sql_update settled_id)

lemma ids_settle_all: "map row_id (table_settle_all opened settled c ls t) = map row_id t"
  by (simp add: table_settle_all_def keys_sql_update settled_id)

lemma ids_claim: "map row_id (fst (table_claim due claimed q t)) = map row_id t"
  by (simp add: table_claim_def keys_sql_update claimed_id)

lemma attempt_settle_all:
  "table_attempt (table_settle_all opened settled c ls t) k =
     map_option (\<lambda>r. if leased_any opened ls r \<and> gives_back c then attempts r - 1 else attempts r) (row_of row_id k t)"
  by (cases "row_of row_id k t")
     (auto simp: table_attempt_def table_settle_all_def row_of_sql_update settled_id settled_attempts)

lemma attempt_claim:
  "table_attempt (fst (table_claim due claimed q t)) k =
     map_option (\<lambda>r. if due q t r then attempts r + 1 else attempts r) (row_of row_id k t)"
  by (cases "row_of row_id k t")
     (auto simp: table_attempt_def table_claim_def row_of_sql_update claimed_id claimed_attempts)

lemma granted_iff:
  "(k, a) \<in> set (snd (table_claim due claimed q t)) \<longleftrightarrow>
     (\<exists>r \<in> set t. due q t r \<and> row_id r = k \<and> a = attempts r + 1)"
proof -
  have "lease_of (claimed q r) = (row_id r, attempts r + 1)" for r
    by (simp add: lease_of_def claimed_id claimed_attempts)
  then show ?thesis by (auto simp: table_claim_def set_sql_returning image_image image_iff)
qed

text \<open>Settling many leases in one statement keeps the fencing invariant for the others.\<close>

lemma settle_all_keeps_inv:
  assumes wf: "keyed row_id t" and inv: "lease_inv table_attempt t out"
  shows "lease_inv table_attempt (table_settle_all opened settled c ls t) (filter (\<lambda>l. l \<notin> set ls) out)"
proof -
  have "b \<le> n" if l: "(k, b) \<in> set out" "(k, b) \<notin> set ls"
    and n: "table_attempt (table_settle_all opened settled c ls t) k = Some n" for k b n
  proof -
    obtain r where r: "row_of row_id k t = Some r"
      "n = (if leased_any opened ls r \<and> gives_back c then attempts r - 1 else attempts r)"
      using n by (auto simp: attempt_settle_all)
    have "b \<le> attempts r" using inv l(1) r(1) by (auto simp: lease_inv_def table_attempt_def)
    moreover have "b \<noteq> attempts r" if "leased_any opened ls r"
      using that l(2) row_of_Some [OF r(1)] by (auto simp: leased_any_iff lease_of_def)
    ultimately show ?thesis using r(2) by (auto split: if_splits)
  qed
  then show ?thesis using inv by (auto simp: lease_inv_def)
qed

lemma settle_hit_row:
  "keyed row_id t \<Longrightarrow> snd (table_settle opened settled c (k, a) t) \<longleftrightarrow>
     (\<exists>r. row_of row_id k t = Some r \<and> attempts r = a \<and> opened r)"
  by (auto simp: table_settle_def list_ex_iff leased_any_iff lease_of_def row_of_keyed dest: row_of_Some)

end

sublocale lease_table \<subseteq> leased_queue table_attempt "table_open opened" "keyed row_id"
    "table_claim due claimed" "table_settle opened settled" gives_back
proof (unfold_locales, goal_cases)
  case (1 t q)
  then show ?case by (simp add: keyed_claim)
next
  case (2 t q)
  then have "distinct (map row_id (filter (due q t) t))"
    by (auto simp: keyed_def distinct_map intro: inj_on_subset)
  then show ?case by (simp add: table_claim_def sql_returning_def lease_of_def comp_def claimed_id)
next
  case (3 t k a q)
  then obtain r where r: "r \<in> set t" "due q t r" "row_id r = k" "a = attempts r + 1"
    using granted_iff by blast
  then have row: "row_of row_id k t = Some r" using row_of_keyed [OF 3(1) r(1)] by simp
  then have "table_attempt t k = Some (attempts r)" by (simp add: table_attempt_def)
  moreover have "row_of row_id k (fst (table_claim due claimed q t)) = Some (claimed q r)"
    using row r(2) by (simp add: table_claim_def row_of_sql_update claimed_id)
  ultimately show ?case using r row due_opened by (simp add: attempt_claim table_open_def)
next
  case (4 t k q)
  show ?case
  proof (cases "row_of row_id k t")
    case (Some r)
    have "\<not> due q t r"
    proof
      assume "due q t r"
      then have "(k, attempts r + 1) \<in> set (snd (table_claim due claimed q t))"
        using row_of_Some [OF Some] granted_iff by blast
      then show False using 4(2) by force
    qed
    then show ?thesis using Some by (simp add: attempt_claim) (simp add: table_attempt_def)
  qed (simp add: attempt_claim, simp add: table_attempt_def)
next
  case (5 t c l)
  then show ?case by (simp add: table_settle_def keyed_settle_all)
next
  case (6 t c k a)
  then show ?case using settle_hit_row by (auto simp: table_attempt_def table_open_def split: option.splits)
next
  case (7 t c l)
  then show ?case by (auto simp: table_settle_def table_settle_all_def list_ex_iff intro!: sql_update_id)
next
  case (8 t c k a)
  then obtain r where r: "row_of row_id k t = Some r" "attempts r = a" "opened r"
    using settle_hit_row by blast
  then have "leased_any opened [(k, a)] r"
    using row_of_Some [OF r(1)] by (auto simp: leased_any_iff lease_of_def)
  then show ?case using r by (simp add: table_settle_def attempt_settle_all)
next
  case (9 t k' l c)
  show ?case
  proof (cases "row_of row_id k' t")
    case (Some r)
    then have "\<not> leased_any opened [l] r"
      using 9 row_of_Some [OF Some] by (auto simp: leased_any_iff lease_of_def)
    then show ?thesis using Some by (simp add: table_settle_def attempt_settle_all) (simp add: table_attempt_def)
  qed (simp add: table_settle_def attempt_settle_all, simp add: table_attempt_def)
qed

end
