(* ===== verification/Email_Protocol.thy ===== *)
theory Email_Protocol
  imports Email_Queue Lease_Table
begin

text \<open>
  The e-mail queue is a leased queue: its statements satisfy the contract of \<open>Lease_Table\<close>, so
  every interleaving of claims, settlements of whole chunks, batch assignments, enqueues and crashes
  keeps at most one effective lease per message, and a message that was sent or has failed is final.
\<close>

section \<open>The interpretation\<close>

datatype email_settlement = MarkSent "ident \<rightharpoonup> string" | MarkFailed email_failure | Release int

fun email_changes :: "instant \<times> email_settlement \<Rightarrow> email_row \<Rightarrow> email_row" where
  "email_changes (now, MarkSent ids) r = sent_changes now ids r"
| "email_changes (now, MarkFailed f) r = failure_changes now f r"
| "email_changes (now, Release delay) r = release_changes now delay r"

definition is_release :: "instant \<times> email_settlement \<Rightarrow> bool" where
  "is_release c \<longleftrightarrow> (\<exists>d. snd c = Release d)"

type_synonym email_work = "instant \<times> ident list \<times> email_claim"

definition email_due :: "email_work \<Rightarrow> email_row list \<Rightarrow> email_row \<Rightarrow> bool" where
  "email_due w t r = (case w of (now, locked, q) \<Rightarrow> due_mail now locked q t r)"

definition email_claimed :: "email_work \<Rightarrow> email_row \<Rightarrow> email_row" where
  "email_claimed w r = (case w of (now, locked, q) \<Rightarrow> claimed_set now (ec_lease q) r)"

lemma failure_changes_lease [simp]:
  "row_id (failure_changes now f r) = row_id r" "attempts (failure_changes now f r) = attempts r"
  by (cases f; simp)+

lemma email_changes_lease:
  "row_id (email_changes (now, s) r) = row_id r"
  "attempts (email_changes (now, s) r) = (if is_release (now, s) then attempts r - 1 else attempts r)"
  by (cases s; simp add: is_release_def sent_changes_def release_changes_def)+

interpretation mail: lease_table unsettled email_due email_claimed email_changes is_release
proof (unfold_locales, goal_cases)
  case (1 r t w)
  then show ?case by (cases w) (simp add: email_due_def due_mail_def email_claimed_def unsettled_def claimed_set_def)
next
  case (2 w r)
  then show ?case by (cases w) (simp add: email_claimed_def)
next
  case (3 w r)
  then show ?case by (cases w) (simp add: email_claimed_def)
next
  case (4 c r)
  then show ?case by (cases c) (simp add: email_changes_lease)
next
  case (5 c r)
  then show ?case by (cases c) (simp add: email_changes_lease)
qed

text \<open>The statements of the queue are those of the contract.\<close>

definition email_claim_step :: "email_work \<Rightarrow> email_row list \<Rightarrow> email_row list \<times> lease_key list" where
  "email_claim_step w t = (case w of (now, locked, q) \<Rightarrow>
     (case email_claim_rows None now locked q t of
        (t', Inr recs) \<Rightarrow> (t', map (lease_of \<circ> fst) recs)
      | (t', Inl _) \<Rightarrow> (t', [])))"

lemma lease_of_to_record: "lease_of (fst (to_record rec)) = lease_of (fst rec)"
  by (simp add: to_record_def lease_of_def)

lemma email_claim_step_table:
  "fst (email_claim_step w t) = fst (table_claim email_due email_claimed w t)"
  "mset (snd (email_claim_step w t)) = mset (snd (table_claim email_due email_claimed w t))"
proof -
  obtain now locked q where w: "w = (now, locked, q)" by (cases w)
  have due: "email_due w t = due_mail now locked q t" "email_claimed w = claimed_set now (ec_lease q)"
    by (auto simp: w email_due_def email_claimed_def)
  show "fst (email_claim_step w t) = fst (table_claim email_due email_claimed w t)"
    unfolding table_claim_def due by (simp add: w email_claim_step_def email_claim_rows_def email_claim_query_def)
  have "mset (map (lease_of \<circ> fst) (map to_record recs)) = mset (map (lease_of \<circ> fst) recs)" for recs
    by (simp add: lease_of_to_record comp_def)
  then show "mset (snd (email_claim_step w t)) = mset (snd (table_claim email_due email_claimed w t))"
    unfolding table_claim_def due
    by (simp add: w email_claim_step_def email_claim_rows_def email_claim_query_def sql_returning_def
        comp_def lease_of_to_record multiset.map_comp)
qed

lemma leased_all_any: "leased_all ls = leased_any unsettled ls"
  by (auto simp: leased_all_def leased_any_def)

lemma update_leased_table:
  "ls \<noteq> [] \<Longrightarrow> update_leased None (email_changes c) ls t =
     (table_settle_all unsettled email_changes c ls t,
      ok (map lease_of (sql_returning (leased_all ls) (email_changes c) t)))"
  by (simp add: update_leased_def table_settle_all_def leased_all_any)

section \<open>Interleavings\<close>

type_synonym email_conf = "email_row list \<times> lease_key list"

text \<open>
  A settlement (\<open>markSent\<close>, \<open>markFailed\<close>, \<open>release\<close>) of a chunk ends the leases it
  names; \<open>assignBatch\<close> keeps them.
\<close>

inductive email_step :: "email_conf \<Rightarrow> email_conf \<Rightarrow> bool" where
  email_claims: "email_claim_step w t = (t', granted) \<Longrightarrow> email_step (t, out) (t', granted @ out)"
| email_settles: "set ls \<subseteq> set out \<Longrightarrow> update_leased None (email_changes c) ls t = (t', res) \<Longrightarrow>
     email_step (t, out) (t', filter (\<lambda>l. l \<notin> set ls) out)"
| email_assigns: "email_assign_batch None ls key t = (t', res) \<Longrightarrow> email_step (t, out) (t', out)"
| email_enqueues: "email_enqueue None now fresh rows t = (t', res) \<Longrightarrow>
     distinct (map fresh [0..<length rows]) \<Longrightarrow> (\<forall>i < length rows. fresh i \<notin> row_id ` set t) \<Longrightarrow>
     email_step (t, out) (t', out)"
| email_crashes: "email_step (t, out) (t, filter survives out)"

inductive_cases email_stepE: "email_step (t, out) (t', out')"

definition email_inv :: "email_conf \<Rightarrow> bool" where
  "email_inv conf \<longleftrightarrow> (case conf of (t, out) \<Rightarrow>
     keyed row_id t \<and> lease_inv table_attempt t out \<and> fst ` set out \<subseteq> row_id ` set t)"

definition email_reach :: "email_conf \<Rightarrow> bool" where
  "email_reach conf \<longleftrightarrow> (\<exists>t. keyed row_id t \<and> email_step\<^sup>*\<^sup>* (t, []) conf)"

lemma insert_unless_key_sets:
  "insert_unless_key rs t = (t', n) \<Longrightarrow>
     \<exists>new. t' = t @ new \<and> set new \<subseteq> set rs \<and> (distinct (map row_id rs) \<longrightarrow> distinct (map row_id new)) \<and> n = length new"
proof (induction rs t arbitrary: t' n rule: insert_unless_key.induct)
  case (2 r rs t)
  show ?case
  proof (cases "em_idempotency r \<noteq> None \<and> em_idempotency r \<in> em_idempotency ` set t")
    case True
    then have "insert_unless_key rs t = (t', n)" using 2(3) by simp
    from 2(1) [OF True this] show ?thesis by auto
  next
    case False
    then obtain m where m: "insert_unless_key rs (t @ [r]) = (t', m)" "n = Suc m"
      using 2(3) by (auto split: prod.splits)
    obtain new where new: "t' = (t @ [r]) @ new" "set new \<subseteq> set rs"
      "distinct (map row_id rs) \<longrightarrow> distinct (map row_id new)" "m = length new"
      using 2(2) [OF False m(1)] by blast
    then show ?thesis using m(2) by (intro exI [of _ "r # new"]) auto
  qed
qed simp

lemma email_enqueue_grows:
  assumes "email_enqueue None now fresh rows t = (t', res)" "distinct (map fresh [0..<length rows])"
    "\<forall>i < length rows. fresh i \<notin> row_id ` set t" "keyed row_id t"
  shows "\<exists>new. t' = t @ new \<and> keyed row_id t' \<and> row_id ` set new \<inter> row_id ` set t = {}"
proof -
  let ?rs = "map (\<lambda>(i, r). email_insert_row now (fresh i) r) (enumerate 0 rows)"
  obtain n where i: "insert_unless_key ?rs t = (t', n)"
    using assms(1) by (cases "rows = []") (auto simp: email_enqueue_def split: prod.splits)
  have ids: "map row_id ?rs = map fresh [0..<length rows]"
    by (rule nth_equalityI) (simp_all add: nth_enumerate_eq email_insert_row_def)
  obtain new where new: "t' = t @ new" "set new \<subseteq> set ?rs" "distinct (map row_id new)"
    using insert_unless_key_sets [OF i] ids assms(2) by auto
  have "row_id ` set new \<subseteq> set (map fresh [0..<length rows])" using new(2) ids by (metis image_mono set_map)
  moreover have "\<forall>k \<in> set (map fresh [0..<length rows]). k \<notin> row_id ` set t" using assms(3) by auto
  ultimately have disj: "row_id ` set new \<inter> row_id ` set t = {}" by blast
  then show ?thesis using new assms(4) by (auto simp: keyed_def)
qed

lemma same_attempts:
  fixes t t' :: "'a lease_row_scheme list"
  shows "map row_id t' = map row_id t \<Longrightarrow> map attempts t' = map attempts t \<Longrightarrow> table_attempt t' k = table_attempt t k"
proof (induction t' arbitrary: t)
  case (Cons r t')
  then obtain s ts where "t = s # ts" by (cases t) auto
  then show ?case using Cons by (auto simp: table_attempt_def row_of_def)
qed (simp add: table_attempt_def)

lemma email_step_inv: "email_step conf conf' \<Longrightarrow> email_inv conf \<Longrightarrow> email_inv conf'"
proof (induction rule: email_step.induct)
  case (email_claims w t t' granted out)
  have t': "t' = fst (table_claim email_due email_claimed w t)"
    using email_claims.hyps email_claim_step_table(1) [of w t] by simp
  have g: "mset granted = mset (snd (table_claim email_due email_claimed w t))"
    using email_claims.hyps email_claim_step_table(2) [of w t] by simp
  have wf: "keyed row_id t" "lease_inv table_attempt t out" using email_claims.prems by (simp_all add: email_inv_def)
  have "lease_inv table_attempt t' (snd (table_claim email_due email_claimed w t) @ out)"
    unfolding t' by (rule mail.claim_keeps_inv [OF wf])
  then have "lease_inv table_attempt t' (granted @ out)"
    by (subst lease_inv_mset [of _ "snd (table_claim email_due email_claimed w t) @ out"]) (simp_all add: g)
  moreover have "row_id ` set t' = row_id ` set t" using mail.ids_claim [of w t] t' by (metis set_map)
  moreover have "fst ` set granted \<subseteq> row_id ` set t"
    using mail.granted_iff [of _ _ w t] mset_eq_setD [OF g] by force
  ultimately show ?case using email_claims.prems t' mail.claim_wf [OF wf(1), of w] by (auto simp: email_inv_def)
next
  case (email_settles ls out c t t' res)
  show ?case
  proof (cases "ls = []")
    case True
    then show ?thesis using email_settles by (simp add: update_leased_def)
  next
    case False
    then have t': "t' = table_settle_all unsettled email_changes c ls t"
      using email_settles.hyps(2) by (simp add: update_leased_table)
    have "row_id ` set t' = row_id ` set t" using mail.ids_settle_all [of c ls t] t' by (metis set_map)
    then show ?thesis
      using email_settles.prems mail.settle_all_keeps_inv [of t out c ls] mail.keyed_settle_all [of c ls t]
      by (auto simp: email_inv_def t')
  qed
next
  case (email_assigns ls key t t' res out)
  have "map row_id t' = map row_id t" "map attempts t' = map attempts t"
    using email_assigns.hyps by (auto simp: email_assign_batch_def update_leased_def keys_sql_update split: if_splits)
  then show ?case using email_assigns.prems same_attempts [of t' t]
    by (auto simp: email_inv_def lease_inv_def keyed_def simp flip: set_map)
next
  case (email_enqueues now fresh rows t t' res out)
  have wf: "keyed row_id t" using email_enqueues.prems by (simp add: email_inv_def)
  obtain new where new: "t' = t @ new" "keyed row_id t'" "row_id ` set new \<inter> row_id ` set t = {}"
    using email_enqueue_grows [OF email_enqueues.hyps wf] by blast
  have "table_attempt t' k = table_attempt t k" if "k \<in> row_id ` set t" for k
  proof -
    from that obtain r where "k = row_id r" "r \<in> set t" by (rule imageE)
    then show ?thesis using wf new(1,2) table_attempt_row [of t r] table_attempt_row [of t' r] by simp
  qed
  then have "table_attempt t' k = table_attempt t k" if "(k, a) \<in> set out" for k a
    using that email_enqueues.prems by (force simp: email_inv_def)
  then have "lease_inv table_attempt t' out"
    using lease_inv_cong [of out table_attempt t' t] email_enqueues.prems by (simp add: email_inv_def)
  then show ?case using email_enqueues.prems new by (auto simp: email_inv_def)
next
  case (email_crashes t out survives)
  then show ?case using mail.drop_keeps_inv by (auto simp: email_inv_def)
qed

lemma email_reach_inv: "email_reach conf \<Longrightarrow> email_inv conf"
proof -
  assume "email_reach conf"
  then obtain t where t: "keyed row_id t" "email_step\<^sup>*\<^sup>* (t, []) conf" by (auto simp: email_reach_def)
  from t(2) show "email_inv conf"
  proof (induction rule: rtranclp_induct)
    case base
    then show ?case using t(1) by (simp add: email_inv_def lease_inv_def)
  next
    case (step y z)
    then show ?case using email_step_inv by blast
  qed
qed

section \<open>What no interleaving breaks\<close>

section \<open>A concrete queue\<close>

definition example_mail :: "ident \<Rightarrow> email_insert" where
  "example_mail key = \<lparr>ei_kind = RawMail, ei_template = None, ei_to = ''a@b.c'', ei_subject = ''hi'', ei_locale = ''en'',
     ei_payload = JObj [(''html'', JStr ''<p>hi</p>'')], ei_idempotency = Some key\<rparr>"

definition example_mail_row :: "ident \<Rightarrow> email_row" where
  "example_mail_row i = email_insert_row 5 i (example_mail i)"

definition example_mail_claim :: email_claim where
  "example_mail_claim = \<lparr>ec_limit = 100, ec_lease = 60, ec_window_hours = 24\<rparr>"

lemmas example_mail_simps = example_mail_def example_mail_row_def example_mail_claim_def email_insert_row_def
  email_claim_step_def email_claim_rows_def email_claim_query_def due_mail_def picked_rows_def sibling_rows_def
  pending_due_def dead_due_def unsettled_def is_due_def sql_select_def to_record_def is_locale_def lease_of_def
  claimed_set_def keyed_def seconds_from_now_def

lemma example_mail_claimed:
  "email_claim_step (1000, [], example_mail_claim) [example_mail_row ''m1'']
     = ([claimed_set 1000 60 (example_mail_row ''m1'')], [(''m1'', 1)])"
  by (simp add: example_mail_simps Let_def)

lemma example_mail_reach: "email_reach ([claimed_set 1000 60 (example_mail_row ''m1'')], [(''m1'', 1)])"
proof -
  have "email_step ([example_mail_row ''m1''], []) ([claimed_set 1000 60 (example_mail_row ''m1'')], [(''m1'', 1)] @ [])"
    using example_mail_claimed by (rule email_step.email_claims)
  then show ?thesis by (auto simp: email_reach_def keyed_def intro!: exI [of _ "[example_mail_row ''m1'']"])
qed

text \<open>
  Of the leases out for one message at most one can still write: two workers that both
  believe they hold a message never both settle it, so it is not sent twice under two outcomes.
\<close>
theorem email_fencing:
  assumes "email_reach (t, out)"
  shows "distinct out \<and> card {l \<in> set out. fst l = k \<and> (\<exists>r \<in> set t. leased_all [l] r)} \<le> 1"
proof -
  have inv: "keyed row_id t" "lease_inv table_attempt t out"
    using email_reach_inv [OF assms] by (simp_all add: email_inv_def)
  have hit: "(\<exists>r \<in> set t. leased_all [l] r) \<longleftrightarrow> snd (table_settle unsettled email_changes c l t)" for c l
    by (auto simp: table_settle_def leased_all_any list_ex_iff)
  have "x = y" if "x \<in> {l \<in> set out. fst l = k \<and> (\<exists>r \<in> set t. leased_all [l] r)}"
    "y \<in> {l \<in> set out. fst l = k \<and> (\<exists>r \<in> set t. leased_all [l] r)}" for x y
    using that mail.one_effective [OF inv, of k "snd x" "snd y" "(0, Release 0)" "(0, Release 0)"]
    unfolding hit [where c = "(0, Release 0)"] by (cases x; cases y) auto
  then have "card {l \<in> set out. fst l = k \<and> (\<exists>r \<in> set t. leased_all [l] r)} \<le> 1"
    by (auto simp: card_le_Suc0_iff_eq)
  then show ?thesis using inv by (simp add: lease_inv_def)
qed

theorem email_fencing_witness:
  "card {l \<in> set [(''m1'', 1)]. fst l = ''m1''
     \<and> (\<exists>r \<in> set [claimed_set 1000 60 (example_mail_row ''m1'')]. leased_all [l] r)} \<le> 1"
  using email_fencing [OF example_mail_reach, of "''m1''"] by simp

lemma email_step_final:
  assumes "email_step conf conf'" "r \<in> set (fst conf)" "\<not> unsettled r"
  shows "r \<in> set (fst conf')"
  using assms
proof (induction rule: email_step.induct)
  case (email_claims w t t' granted out)
  obtain now locked q where w: "w = (now, locked, q)" by (cases w)
  have "\<not> due_mail now locked q t r" using email_claims.prems by (simp add: due_mail_def)
  moreover have "t' = sql_update (due_mail now locked q t) (claimed_set now (ec_lease q)) t"
    using email_claims.hyps by (simp add: w email_claim_step_def email_claim_rows_def email_claim_query_def)
  ultimately show ?case using email_claims.prems
    by (auto simp: set_sql_update image_iff intro!: bexI [of _ r])
next
  case (email_settles ls out c t t' res)
  then show ?case
    by (auto simp: update_leased_def set_sql_update leased_all_def image_iff split: if_splits intro!: bexI [of _ r])
next
  case (email_assigns ls key t t' res out)
  then show ?case
    by (auto simp: email_assign_batch_def update_leased_def set_sql_update leased_all_def image_iff
        split: if_splits intro!: bexI [of _ r])
next
  case (email_enqueues now fresh rows t t' res out)
  obtain n where "insert_unless_key (map (\<lambda>(i, r). email_insert_row now (fresh i) r) (enumerate 0 rows)) t = (t', n)"
    using email_enqueues.hyps(1) by (cases "rows = []") (auto simp: email_enqueue_def split: prod.splits)
  from insert_unless_key_sets [OF this] show ?case using email_enqueues.prems by auto
qed simp

text \<open>
  A message sent, or failed for good, is final: no later statement, from whichever worker
  and in whichever order, changes any column of it, so it is never claimed and sent again.
\<close>
theorem email_settled_final:
  assumes "email_step\<^sup>*\<^sup>* (t, out) (t', out')" and "r \<in> set t"
    and "em_status r = ESent \<or> em_status r = EFailed"
  shows "r \<in> set t'"
proof -
  have "\<not> unsettled r" using assms(3) by (auto simp: unsettled_def)
  moreover have "email_step\<^sup>*\<^sup>* c d \<Longrightarrow> r \<in> set (fst c) \<Longrightarrow> r \<in> set (fst d)" if "\<not> unsettled r" for c d
  proof (induction rule: rtranclp_induct)
    case (step y z)
    then show ?case using email_step_final that by blast
  qed
  ultimately show ?thesis using assms(1,2) by fastforce
qed

theorem email_settled_final_witness:
  "(example_mail_row ''m1'')\<lparr>em_status := ESent\<rparr>
     \<in> set (fst (email_claim_step (1000, [], example_mail_claim) [(example_mail_row ''m1'')\<lparr>em_status := ESent\<rparr>]))"
proof -
  let ?t = "[(example_mail_row ''m1'')\<lparr>em_status := ESent\<rparr>]"
  let ?w = "(1000, [], example_mail_claim)"
  have "email_step (?t, []) (fst (email_claim_step ?w ?t), snd (email_claim_step ?w ?t) @ [])"
    by (rule email_step.email_claims) simp
  then have "email_step\<^sup>*\<^sup>* (?t, []) (fst (email_claim_step ?w ?t), snd (email_claim_step ?w ?t) @ [])" ..
  then show ?thesis by (rule email_settled_final) simp_all
qed

section \<open>Idempotent sending\<close>

lemma insert_unless_key_present:
  "\<forall>r \<in> set rs. em_idempotency r \<noteq> None \<and> em_idempotency r \<in> em_idempotency ` set t \<Longrightarrow>
     insert_unless_key rs t = (t, 0)"
  by (induction rs t rule: insert_unless_key.induct) auto

lemma insert_unless_key_keys:
  "insert_unless_key rs t = (t', n) \<Longrightarrow> \<forall>r \<in> set rs. em_idempotency r \<noteq> None \<longrightarrow>
     em_idempotency r \<in> em_idempotency ` set t'"
proof (induction rs t arbitrary: t' n rule: insert_unless_key.induct)
  case (2 r rs t)
  show ?case
  proof (cases "em_idempotency r \<noteq> None \<and> em_idempotency r \<in> em_idempotency ` set t")
    case True
    then have i: "insert_unless_key rs t = (t', n)" using 2(3) by simp
    obtain new where "t' = t @ new" using insert_unless_key_sets [OF i] by blast
    then show ?thesis using 2(1) [OF True i] True by auto
  next
    case False
    then obtain m where m: "insert_unless_key rs (t @ [r]) = (t', m)"
      using 2(3) by (auto split: prod.splits)
    obtain new where "t' = (t @ [r]) @ new" using insert_unless_key_sets [OF m] by blast
    then show ?thesis using 2(2) [OF False m] by auto
  qed
qed simp

text \<open>
  C10: queuing is idempotent in the idempotency keys and never silently empty: queuing again
  messages that all carry a key, after a first call that wrote at least one, leaves the queue as it
  was and tells the caller so with a failure.
\<close>
theorem requeue_suppressed:
  assumes "rows \<noteq> []" and "\<forall>r \<in> set rows. ei_idempotency r \<noteq> None"
    and "service_enqueue None now fresh rows t = (t1, Inr ())"
  shows "\<exists>msg. service_enqueue None now' fresh' rows t1 = (t1, Inl msg)"
proof -
  let ?rs = "\<lambda>now fresh. map (\<lambda>(i, r). email_insert_row now (fresh i) r) (enumerate 0 rows)"
  obtain n where i: "insert_unless_key (?rs now fresh) t = (t1, n)"
    using assms(1,3) by (auto simp: service_enqueue_def email_enqueue_def split: prod.splits if_splits)
  have keys: "map em_idempotency (?rs now fresh) = map ei_idempotency rows" for now fresh
    by (rule nth_equalityI) (simp_all add: nth_enumerate_eq email_insert_row_def)
  have present: "k \<in> em_idempotency ` set t1" if "k \<in> set (map ei_idempotency rows)" for k
  proof -
    have "k \<noteq> None" using that assms(2) by auto
    moreover have "k \<in> em_idempotency ` set (?rs now fresh)" using that keys [of now fresh] by (metis set_map)
    ultimately show ?thesis using insert_unless_key_keys [OF i] by fastforce
  qed
  have "\<forall>r \<in> set (?rs now' fresh'). em_idempotency r \<noteq> None \<and> em_idempotency r \<in> em_idempotency ` set t1"
  proof
    fix r assume "r \<in> set (?rs now' fresh')"
    then have "em_idempotency r \<in> set (map em_idempotency (?rs now' fresh'))" by (simp only: set_map imageI)
    then have "em_idempotency r \<in> set (map ei_idempotency rows)" by (simp only: keys)
    then show "em_idempotency r \<noteq> None \<and> em_idempotency r \<in> em_idempotency ` set t1"
      using present assms(2) by auto
  qed
  then have "insert_unless_key (?rs now' fresh') t1 = (t1, 0)" by (rule insert_unless_key_present)
  then show ?thesis using assms(1) by (simp add: service_enqueue_def email_enqueue_def)
qed

theorem requeue_suppressed_witness:
  "\<exists>msg. service_enqueue None 9 (\<lambda>_. ''y'') [example_mail ''m1''] [example_mail_row ''m1'']
     = ([example_mail_row ''m1''], Inl msg)"
  by (rule requeue_suppressed [of _ 5 "\<lambda>_. ''m1''" "[]"])
     (simp_all add: service_enqueue_def email_enqueue_def example_mail_row_def, simp_all add: example_mail_def email_insert_row_def)

end
