(* ===== verification/Email_Worker.thy ===== *)
theory Email_Worker
  imports Email_Protocol Outbox_Store Event_Catalog
begin

text \<open>
  \<open>packages/email/src/email-delivery-worker.ts\<close>: one drain of the e-mail queue. The world it
  acts on is the queue, the outbox and the log of what was handed to the provider.

  Arguments of the model: \<open>sha\<close> (SHA-256 in hexadecimal), \<open>canon\<close> (\<open>canonicalize\<close>),
  \<open>render\<close> (the templates of \<open>packages/emails\<close>), and the record \<open>email_env\<close>: the
  clocks, random number and fresh ids, what the provider answers, and which statements the driver
  refuses. Statements of a chunk that share a kind share its answer, keyed by message where the
  code runs one per message.
\<close>

section \<open>Options and environment\<close>

definition EMAIL_BATCH_CHUNK_SIZE :: nat where "EMAIL_BATCH_CHUNK_SIZE = 100"
definition MAX_CHUNKS_PER_CLAIM :: int where "MAX_CHUNKS_PER_CLAIM = 3"
definition EMAIL_MAX_ATTEMPTS :: int where "EMAIL_MAX_ATTEMPTS = 4"
definition STILL_PROCESSING_RETRY_SECONDS :: int where "STILL_PROCESSING_RETRY_SECONDS = 60"

definition CHUNK_BUDGET :: lease_budget where
  "CHUNK_BUDGET = \<lparr>unit_seconds = 30, margin_seconds = 15\<rparr>"

definition TEMPLATE_IDS :: "(string \<times> string) list" where
  "TEMPLATE_IDS = [(''verify_email'', ''''), (''reset_password'', ''''), (''magic_link'', ''''),
     (''org_invitation'', ''''), (''data_export_ready'', ''''), (''delete_requested'', ''''),
     (''delete_cancelled'', ''''), (''delete_completed'', ''''), (''change_email'', ''''),
     (''backup_code_used'', ''''), (''notification_digest'', '''')]"

datatype batch_error_kind = Retryable | InFlight | Conflict | RejectedBatch

datatype batch_result =
    BatchError batch_error_kind string
  | BatchAccepted "string list option" "(nat \<times> string) list"

text \<open>The string of a \<open>BatchError\<close> is \<open>HTTP status: message\<close>.\<close>

datatype entry_body = HtmlText json "json option" | TemplateRef string json

record batch_entry =
  be_from :: "string option"
  be_to :: string
  be_subject :: string
  be_body :: entry_body

record email_options =
  eo_lease :: int
  eo_dead_retry :: int
  eo_window :: int
  eo_from :: "string option"

record email_env =
  v_now :: instant
  v_random :: real
  v_fresh :: "ident \<Rightarrow> ident"
  v_date :: instant
  v_assign_error :: "string option"
  v_sent_error :: "string option"
  v_release_error :: "string option"
  v_settle_error :: "ident \<Rightarrow> string option"
  v_enqueue_error :: "ident \<Rightarrow> string option"
  v_commit_error :: "ident \<Rightarrow> string option"
  v_provider :: "batch_entry list \<Rightarrow> string \<Rightarrow> batch_result"

record email_world =
  mails :: "email_row list"
  mail_outbox :: outbox_db
  provider_calls :: "(string \<times> ident list) list"

type_synonym email_action = "email_world \<Rightarrow> email_world \<times> string option"

definition email_claim_limit :: "email_options \<Rightarrow> int" where
  "email_claim_limit o1 =
     min MAX_CHUNKS_PER_CLAIM (units_within_lease (eo_lease o1) CHUNK_BUDGET) * int EMAIL_BATCH_CHUNK_SIZE"

section \<open>Groups and chunks\<close>

datatype group_key = BatchGroup string | LooseGroup email_kind string bool int

definition group_key_of :: "email_record \<Rightarrow> group_key" where
  "group_key_of rec =
     (case em_batch (fst rec) of
        Some b \<Rightarrow> BatchGroup b
      | None \<Rightarrow> LooseGroup (em_kind (fst rec))
          (case em_template (fst rec) of None \<Rightarrow> [] | Some t \<Rightarrow> t)
          (em_status (fst rec) = EDead) (attempts (fst rec)))"

definition group_rows :: "email_record list \<Rightarrow> email_record list list" where
  "group_rows recs = map snd (group_by_key group_key_of recs)"

definition is_whole_batch :: "email_record list \<Rightarrow> bool" where
  "is_whole_batch g = list_all (\<lambda>rec. (case snd rec of None \<Rightarrow> 0 | Some n \<Rightarrow> n) \<le> length g) g"

text \<open>
  The plan of a drain: the incomplete groups it releases, the chunks it sends, and the rows it
  releases when it is stopped or its lease no longer covers a chunk. \<open>stop_at i\<close> and
  \<open>covers i\<close> are what the loop finds before the \<open>i\<close>-th chunk.
\<close>

fun plan_chunks :: "(nat \<Rightarrow> bool) \<Rightarrow> (nat \<Rightarrow> bool) \<Rightarrow> nat \<Rightarrow> 'a list list \<Rightarrow> 'a list list \<times> 'a list" where
  "plan_chunks stop_at covers i [] = ([], [])"
| "plan_chunks stop_at covers i (c # cs) =
     (if stop_at i \<or> (0 < i \<and> \<not> covers i) then ([], concat (c # cs))
      else case plan_chunks stop_at covers (Suc i) cs of (sent, rest) \<Rightarrow> (c # sent, rest))"

definition plan_drain ::
  "(nat \<Rightarrow> bool) \<Rightarrow> (nat \<Rightarrow> bool) \<Rightarrow> email_record list \<Rightarrow>
   email_record list \<times> email_record list list \<times> email_record list" where
  "plan_drain stop_at covers recs =
     (let groups = group_rows recs;
          incomplete = filter (\<lambda>g. \<not> is_whole_batch g) groups;
          chunks = concat (map (chunks_of EMAIL_BATCH_CHUNK_SIZE) (filter is_whole_batch groups))
      in (concat incomplete, plan_chunks stop_at covers 0 chunks))"

section \<open>Rendering\<close>

fun json_member :: "string \<Rightarrow> json \<Rightarrow> json option" where
  "json_member k (JObj ms) = map_of ms k"
| "json_member k j = None"

definition to_entry ::
  "(string option \<Rightarrow> json \<Rightarrow> string \<Rightarrow> (json \<times> json) throws) \<Rightarrow> string option \<Rightarrow> email_row \<Rightarrow> batch_entry throws" where
  "to_entry render sender r =
     (let base = \<lparr>be_from = sender, be_to = em_to r, be_subject = em_subject r, be_body = HtmlText (JStr []) None\<rparr>;
          template_id = (case em_template r of
             None \<Rightarrow> []
           | Some t \<Rightarrow> if t = [] then [] else (case map_of TEMPLATE_IDS t of None \<Rightarrow> [] | Some i \<Rightarrow> i))
      in if em_kind r = RawMail
         then if em_payload r = JNull then Inl ''null is not an object''
              else Inr (base\<lparr>be_body := HtmlText
                     (case json_member ''html'' (em_payload r) of None \<Rightarrow> JStr [] | Some JNull \<Rightarrow> JStr [] | Some h \<Rightarrow> h)
                     (json_member ''text'' (em_payload r))\<rparr>)
         else if template_id \<noteq> [] then Inr (base\<lparr>be_body := TemplateRef template_id (em_payload r)\<rparr>)
         else case render (em_template r) (em_payload r) (case em_locale r of None \<Rightarrow> ''en'' | Some l \<Rightarrow> l) of
                Inl e \<Rightarrow> Inl e
              | Inr (html, text) \<Rightarrow> Inr (base\<lparr>be_body := HtmlText html (Some text)\<rparr>))"

section \<open>Settling\<close>

definition exhausted_event ::
  "(string \<Rightarrow> string) \<Rightarrow> email_env \<Rightarrow> email_row \<Rightarrow> string \<Rightarrow> domain_event" where
  "exhausted_event sha env r err =
     \<lparr>ev_id = Some (v_fresh env (row_id r)), ev_type = EMAIL_DELIVERY_EXHAUSTED, ev_date = v_date env,
      ev_aggregate = row_id r,
      ev_payload = JObj [(''messageId'', JStr (row_id r)),
        (''template'', case em_template r of None \<Rightarrow> JNull | Some t \<Rightarrow> JStr t),
        (''toHash'', JStr (sha (em_to r))), (''attempts'', JNum (attempts r)),
        (''lastError'', JStr err), (''actorUserId'', JNull)]\<rparr>"

definition exhausted_scope :: enqueue_scope where
  "exhausted_scope = \<lparr>sc_source = ''app/api'', sc_organization = None,
     sc_aggregate_type = Some ''email_message'', sc_traceparent = None\<rparr>"

definition announce_exhausted ::
  "payload_schema \<Rightarrow> (string \<Rightarrow> string) \<Rightarrow> email_env \<Rightarrow> string \<Rightarrow> email_row \<Rightarrow> outbox_db \<Rightarrow> outbox_db \<times> string option" where
  "announce_exhausted schema sha env err r db =
     (case enqueue (v_enqueue_error env (row_id r)) schema None (\<lambda>_. v_fresh env (row_id r))
             [exhausted_event sha env r err] exhausted_scope db of
        Inl e \<Rightarrow> (db, Some e)
      | Inr db' \<Rightarrow> (db', None))"

fun error_of :: "email_failure \<Rightarrow> string" where
  "error_of (Final err) = err"
| "error_of (Retried err dead secs) = err"

fun stays_pending :: "email_failure \<Rightarrow> bool" where
  "stays_pending (Final err) = False"
| "stays_pending (Retried err dead secs) = (\<not> dead)"

text \<open>
  \<open>settleFailures\<close>: one unit of work writes the failure and announces every message it
  exhausted; a driver error is logged, a throw goes up, both leave queue and outbox as they were.
\<close>

definition announced_rows :: "email_failure \<Rightarrow> lease_key list \<Rightarrow> email_row list \<Rightarrow> email_row list" where
  "announced_rows failure written rows =
     (if stays_pending failure then []
      else filter (\<lambda>r. row_id r \<in> fst ` set written \<and> em_status r \<noteq> EDead) rows)"

definition settle_failures ::
  "payload_schema \<Rightarrow> (string \<Rightarrow> string) \<Rightarrow> email_env \<Rightarrow> email_row list \<Rightarrow> email_failure \<Rightarrow> email_action" where
  "settle_failures schema sha env rows failure w =
     (let key = (case rows of [] \<Rightarrow> [] | r # _ \<Rightarrow> row_id r)
      in case email_mark_failed (v_settle_error env key) (v_now env) (map lease_of rows) failure (mails w) of
           (_, Inl e) \<Rightarrow> (w, None)
         | (t', Inr written) \<Rightarrow>
             (case for_each (announce_exhausted schema sha env (error_of failure))
                     (announced_rows failure written rows) (mail_outbox w) of
                (_, Some e) \<Rightarrow> (w, Some e)
              | (db', None) \<Rightarrow>
                  (case v_commit_error env key of
                     Some e \<Rightarrow> (w, Some e)
                   | None \<Rightarrow> (w\<lparr>mails := t', mail_outbox := db'\<rparr>, None))))"

definition release_rows :: "email_env \<Rightarrow> email_row list \<Rightarrow> int \<Rightarrow> email_action" where
  "release_rows env rows delay w =
     (case email_release (v_release_error env) (v_now env) (map lease_of rows) delay (mails w) of
        (t', _) \<Rightarrow> (w\<lparr>mails := t'\<rparr>, None))"

definition failure_of_chunk :: "email_options \<Rightarrow> email_env \<Rightarrow> email_row list \<Rightarrow> string \<Rightarrow> email_failure" where
  "failure_of_chunk opts env chunk err =
     (case failure_schedule (v_random env) (Max (attempts ` set chunk))
             \<lparr>was_dead = list_ex (\<lambda>r. em_status r = EDead) chunk, max_attempts = EMAIL_MAX_ATTEMPTS,
              dead_retry_seconds = eo_dead_retry opts\<rparr> of
        (dead, secs) \<Rightarrow> Retried err dead secs)"

definition conflict_error :: "string \<Rightarrow> string" where
  "conflict_error err = err @ '' (the provider already holds a different payload under this chunk's idempotency key; not resent to avoid a duplicate)''"

definition settle_rejected ::
  "payload_schema \<Rightarrow> (string \<Rightarrow> string) \<Rightarrow> email_options \<Rightarrow> email_env \<Rightarrow> email_row list \<Rightarrow> batch_error_kind \<Rightarrow> string \<Rightarrow> email_action" where
  "settle_rejected schema sha opts env chunk kind err w =
     (case kind of
        InFlight \<Rightarrow> release_rows env chunk STILL_PROCESSING_RETRY_SECONDS w
      | Retryable \<Rightarrow> settle_failures schema sha env chunk (failure_of_chunk opts env chunk err) w
      | Conflict \<Rightarrow> settle_failures schema sha env chunk (Final (conflict_error err)) w
      | RejectedBatch \<Rightarrow> settle_failures schema sha env chunk (Final err) w)"

section \<open>Sending a chunk\<close>

definition chunk_batch_key :: "(string \<Rightarrow> string) \<Rightarrow> email_row list \<Rightarrow> string" where
  "chunk_batch_key sha chunk =
     sha (case sort (map row_id chunk) of [] \<Rightarrow> [] | i # is \<Rightarrow> i @ concat (map (\<lambda>j. ''|'' @ j) is))"

definition chunk_idempotency_key ::
  "(string \<Rightarrow> string) \<Rightarrow> (batch_entry list \<Rightarrow> string) \<Rightarrow> string \<Rightarrow> batch_entry list \<Rightarrow> string" where
  "chunk_idempotency_key sha canon batch_key entries = sha (batch_key @ ''|'' @ canon entries)"

definition batch_key_of :: "(string \<Rightarrow> string) \<Rightarrow> email_row list \<Rightarrow> string" where
  "batch_key_of sha chunk =
     (case Option.bind (case chunk of [] \<Rightarrow> None | r # _ \<Rightarrow> Some r) em_batch of
        Some b \<Rightarrow> b
      | None \<Rightarrow> chunk_batch_key sha chunk)"

text \<open>\<open>assignBatch\<close>: whether the whole chunk is still held and now carries the key.\<close>

definition assign_batch :: "email_env \<Rightarrow> email_row list \<Rightarrow> string \<Rightarrow> email_world \<Rightarrow> email_world \<times> bool" where
  "assign_batch env chunk key w =
     (case email_assign_batch (v_assign_error env) (map lease_of chunk) key (mails w) of
        (t', Inl _) \<Rightarrow> (w\<lparr>mails := t'\<rparr>, False)
      | (t', Inr held) \<Rightarrow> (w\<lparr>mails := t'\<rparr>, \<not> length held < length chunk))"

definition settle_accepted ::
  "payload_schema \<Rightarrow> (string \<Rightarrow> string) \<Rightarrow> email_env \<Rightarrow> email_row list \<Rightarrow> string list option \<Rightarrow> (nat \<times> string) list \<Rightarrow> email_action" where
  "settle_accepted schema sha env chunk ids errors w =
     (let failures = map_of (rev errors);
          indexed = enumerate 0 chunk;
          sent = map snd (filter (\<lambda>(i, _). failures i = None) indexed);
          aligned = (case ids of None \<Rightarrow> False | Some xs \<Rightarrow> length xs = length chunk);
          provider_ids = (if aligned
             then map_of (map (\<lambda>(i, r). (row_id r, the ids ! i)) (filter (\<lambda>(i, _). failures i = None \<and> the ids ! i \<noteq> []) indexed))
             else Map.empty)
      in case for_each (\<lambda>(i, r). settle_failures schema sha env [r] (Final (the (failures i))))
                 (filter (\<lambda>(i, _). failures i \<noteq> None) indexed) w of
           (w', Some e) \<Rightarrow> (w', Some e)
         | (w', None) \<Rightarrow>
             if sent = [] then (w', None)
             else case email_mark_sent (v_sent_error env) (v_now env) (map lease_of sent) provider_ids (mails w') of
                    (t', _) \<Rightarrow> (w'\<lparr>mails := t'\<rparr>, None))"

definition send_chunk ::
  "payload_schema \<Rightarrow> (string \<Rightarrow> string) \<Rightarrow> (batch_entry list \<Rightarrow> string) \<Rightarrow>
   (string option \<Rightarrow> json \<Rightarrow> string \<Rightarrow> (json \<times> json) throws) \<Rightarrow> email_options \<Rightarrow> email_env \<Rightarrow> email_row list \<Rightarrow> email_action" where
  "send_chunk schema sha canon render opts env claimed w =
     (let rendered = map (\<lambda>r. (r, to_entry render (eo_from opts) r)) claimed;
          good = concat (map (\<lambda>(r, x). case x of Inr entry \<Rightarrow> [(r, entry)] | Inl _ \<Rightarrow> []) rendered);
          bad = concat (map (\<lambda>(r, x). case x of Inl e \<Rightarrow> [(r, e)] | Inr _ \<Rightarrow> []) rendered);
          chunk = map fst good; entries = map snd good
      in case for_each (\<lambda>(r, e). settle_failures schema sha env [r] (Final (''render failed: '' @ e))) bad w of
           (w1, Some e) \<Rightarrow> (w1, Some e)
         | (w1, None) \<Rightarrow>
             if chunk = [] then (w1, None)
             else let key = batch_key_of sha chunk
                  in case assign_batch env chunk key w1 of
                       (w2, False) \<Rightarrow> release_rows env chunk 0 w2
                     | (w2, True) \<Rightarrow>
                         let idem = chunk_idempotency_key sha canon key entries;
                             w3 = w2\<lparr>provider_calls := provider_calls w2 @ [(idem, map row_id chunk)]\<rparr>
                         in case v_provider env entries idem of
                              BatchError kind err \<Rightarrow> settle_rejected schema sha opts env chunk kind err w3
                            | BatchAccepted ids errors \<Rightarrow> settle_accepted schema sha env chunk ids errors w3)"

section \<open>One drain\<close>

definition email_drain_once where
  "email_drain_once busy schema sha canon render opts env_of claim_error now locked stop_at covers w =
     (if busy then (w, None)
      else case email_claim_rows claim_error now locked
             \<lparr>ec_limit = nat (email_claim_limit opts), ec_lease = eo_lease opts, ec_window_hours = eo_window opts\<rparr> (mails w) of
        (t', Inl e) \<Rightarrow> (w\<lparr>mails := t'\<rparr>, None)
      | (t', Inr recs) \<Rightarrow>
          (case plan_drain stop_at covers recs of
             (incomplete, sent, rest) \<Rightarrow>
               let w1 = (if incomplete = [] then w\<lparr>mails := t'\<rparr>
                         else fst (release_rows (env_of 0) (map fst incomplete) 0 (w\<lparr>mails := t'\<rparr>)))
               in case for_each (\<lambda>(i, c). send_chunk schema sha canon render opts (env_of (Suc i)) (map fst c))
                         (enumerate 0 sent) w1 of
                    (w2, Some e) \<Rightarrow> (w2, Some e)
                  | (w2, None) \<Rightarrow>
                      if rest = [] then (w2, None)
                      else release_rows (env_of (Suc (length sent))) (map fst rest) 0 w2))"

end
