(* ===== verification/Email_Correct.thy ===== *)
theory Email_Correct
  imports Email_Worker
begin

text \<open>
  What the e-mail worker guarantees: every claimed message is sent in exactly one chunk or released,
  a batch goes out whole or not at all, nothing is handed to the provider that is not held and
  recorded under its batch key, and a message given up is announced with the write that gives it up.
\<close>

section \<open>The plan of a drain\<close>

lemma bucket_is_filter:
  "buckets_ok key bs \<Longrightarrow> (k, b) \<in> set bs \<Longrightarrow> filter (\<lambda>x. key x = k) (concat (map snd bs)) = b"
proof (induction bs)
  case (Cons kb bs)
  obtain j c where kb: "kb = (j, c)" by (cases kb)
  have ok: "buckets_ok key bs" "j \<notin> fst ` set bs" "\<forall>x \<in> set c. key x = j"
    using Cons.prems(1) by (auto simp: kb buckets_ok_def)
  show ?case
  proof (cases "k = j")
    case True
    then have b: "b = c" using Cons.prems(2) ok(2) by (force simp: kb)
    have "key x \<noteq> j" if x: "x \<in> set (concat (map snd bs))" for x
    proof -
      obtain i xs where i: "(i, xs) \<in> set bs" "x \<in> set xs" using x by auto
      then have "key x = i" using ok(1) by (auto simp: buckets_ok_def)
      moreover have "i \<noteq> j" using i(1) ok(2) by force
      ultimately show ?thesis by simp
    qed
    then have "filter (\<lambda>x. key x = j) (concat (map snd bs)) = []" by (simp only: filter_empty_conv) blast
    then show ?thesis using ok(3) by (simp add: kb True b filter_id_conv)
  next
    case False
    then have "filter (\<lambda>x. key x = k) c = []" using ok(3) by (auto simp: filter_empty_conv)
    moreover have "(k, b) \<in> set bs" using Cons.prems(2) False by (simp add: kb)
    ultimately show ?thesis using Cons.IH [OF ok(1)] by (simp add: kb)
  qed
qed simp

lemma plan_chunks_mset:
  "plan_chunks stop_at covers i cs = (sent, rest) \<Longrightarrow>
     concat sent @ rest = concat cs \<and> set sent \<subseteq> set cs"
proof (induction stop_at covers i cs arbitrary: sent rest rule: plan_chunks.induct)
  case (2 stop_at covers i c cs)
  show ?case
  proof (cases "stop_at i \<or> (0 < i \<and> \<not> covers i)")
    case True
    then show ?thesis using 2(2) by simp
  next
    case False
    obtain s1 r1 where p: "plan_chunks stop_at covers (Suc i) cs = (s1, r1)"
      by (cases "plan_chunks stop_at covers (Suc i) cs")
    from 2(1) [OF False p] show ?thesis using 2(2) False p by auto
  qed
qed simp

lemma chunks_mset: "mset (concat (concat (map (chunks_of EMAIL_BATCH_CHUNK_SIZE) gs))) = mset (concat gs)"
  by (induction gs) (simp_all add: concat_chunks_of EMAIL_BATCH_CHUNK_SIZE_def)

lemma split_mset: "mset (concat (filter p gs)) + mset (concat (filter (\<lambda>g. \<not> p g) gs)) = mset (concat gs)"
  by (induction gs) (auto simp: ac_simps)

lemma small_chunk: "c \<in> set (chunks_of n g) \<Longrightarrow> length g \<le> n \<Longrightarrow> c = g"
  by (cases "g = [] \<or> n = 0") (auto simp: chunks_of.simps [of n g] chunks_of.simps [of n "[]"])

text \<open>
  A drain deals with every message it claimed exactly once: released because its batch is
  incomplete, sent in one chunk, or released because the worker stops or its lease runs out; no
  chunk is empty or above the provider's limit of a hundred, and a batch that fits one chunk goes
  out whole, none of its unsettled messages missing, or not at all.
\<close>
theorem drain_plan_partitions:
  assumes "plan_drain stop_at covers recs = (incomplete, sent, rest)"
  shows "mset incomplete + mset (concat sent) + mset rest = mset recs
    \<and> (\<forall>c \<in> set sent. c \<noteq> [] \<and> length c \<le> EMAIL_BATCH_CHUNK_SIZE)
    \<and> (\<forall>c \<in> set sent. \<forall>rec \<in> set c. \<forall>b. em_batch (fst rec) = Some b \<longrightarrow>
         length (filter (\<lambda>x. em_batch (fst x) = Some b) recs) \<le> EMAIL_BATCH_CHUNK_SIZE \<longrightarrow>
           mset c = mset (filter (\<lambda>x. em_batch (fst x) = Some b) recs)
         \<and> (\<forall>n. snd rec = Some n \<longrightarrow> n \<le> length c))"
proof -
  let ?gs = "group_rows recs"
  let ?cs = "concat (map (chunks_of EMAIL_BATCH_CHUNK_SIZE) (filter is_whole_batch ?gs))"
  have inc: "incomplete = concat (filter (\<lambda>g. \<not> is_whole_batch g) ?gs)"
    and p: "plan_chunks stop_at covers 0 ?cs = (sent, rest)"
    using assms by (simp_all add: plan_drain_def Let_def)
  note props = group_by_key_props [of group_key_of recs]
  have all: "mset (concat ?gs) = mset recs" using props by (simp add: group_rows_def)
  have "concat sent @ rest = concat ?cs" and sub: "set sent \<subseteq> set ?cs" using plan_chunks_mset [OF p] by auto
  then have "mset (concat sent) + mset rest = mset (concat ?cs)" by (metis mset_append)
  also have "\<dots> = mset (concat (filter is_whole_batch ?gs))" by (rule chunks_mset)
  finally have whole: "mset (concat sent) + mset rest = mset (concat (filter is_whole_batch ?gs))" .
  have "mset incomplete + mset (concat sent) + mset rest
      = mset (concat (filter is_whole_batch ?gs)) + mset incomplete"
    unfolding whole [symmetric] by (simp only: ac_simps)
  then have "mset incomplete + mset (concat sent) + mset rest = mset recs"
    unfolding inc split_mset all .
  moreover have "\<forall>c \<in> set sent. c \<noteq> [] \<and> length c \<le> EMAIL_BATCH_CHUNK_SIZE"
    using sub by (auto dest!: subsetD [OF sub] chunks_of_bound)
  moreover have "mset c = mset (filter (\<lambda>x. em_batch (fst x) = Some b) recs) \<and> (\<forall>n. snd rec = Some n \<longrightarrow> n \<le> length c)"
    if c: "c \<in> set sent" "rec \<in> set c" and b: "em_batch (fst rec) = Some b"
      and small: "length (filter (\<lambda>x. em_batch (fst x) = Some b) recs) \<le> EMAIL_BATCH_CHUNK_SIZE" for c rec b
  proof -
    obtain g where g: "g \<in> set ?gs" "is_whole_batch g" "c \<in> set (chunks_of EMAIL_BATCH_CHUNK_SIZE g)"
      using sub c(1) by auto
    then obtain k where k: "(k, g) \<in> set (group_by_key group_key_of recs)" by (auto simp: group_rows_def)
    have "rec \<in> set g" using chunks_of_subset [OF g(3)] c(2) by blast
    then have "group_key_of rec = k" using props k by (auto simp: buckets_ok_def)
    then have "k = BatchGroup b" using b by (simp add: group_key_of_def)
    moreover have "group_key_of x = BatchGroup b \<longleftrightarrow> em_batch (fst x) = Some b" for x
      by (auto simp: group_key_of_def split: option.splits)
    ultimately have "filter (\<lambda>x. em_batch (fst x) = Some b) (concat ?gs) = g"
      using bucket_is_filter [OF conjunct2 [OF props] k] by (simp add: group_rows_def)
    then have "mset g = filter_mset (\<lambda>x. em_batch (fst x) = Some b) (mset (concat ?gs))"
      by (metis mset_filter)
    then have "mset g = mset (filter (\<lambda>x. em_batch (fst x) = Some b) recs)"
      by (simp only: all mset_filter)
    moreover from this have "c = g" using small_chunk [OF g(3)] small by (metis size_mset)
    moreover have "n \<le> length g" if "snd rec = Some n" for n
      using g(2) \<open>rec \<in> set g\<close> that by (auto simp: is_whole_batch_def list_all_iff)
    ultimately show ?thesis by simp
  qed
  ultimately show ?thesis by blast
qed

theorem drain_plan_partitions_witness:
  "mset (concat [[(example_mail_row ''m1'', None)]]) = mset [(example_mail_row ''m1'', None :: nat option)]"
proof -
  have "plan_drain (\<lambda>_. False) (\<lambda>_. True) [(example_mail_row ''m1'', None)] = ([], [[(example_mail_row ''m1'', None)]], [])"
    by (simp add: plan_drain_def group_rows_def group_by_key_def is_whole_batch_def EMAIL_BATCH_CHUNK_SIZE_def
        chunks_of.simps Let_def)
  from drain_plan_partitions [OF this] show ?thesis by simp
qed

section \<open>Giving up\<close>

lemma domain_event_row_id:
  "row_id (domain_event_to_outbox_row fresh rid ev sc) = (case ev_id ev of None \<Rightarrow> fresh | Some i \<Rightarrow> i)"
  by (simp add: domain_event_to_outbox_row_def)

lemma exhausted_event_id: "ev_id (exhausted_event sha env r err) = Some (v_fresh env (row_id r))"
  by (simp add: exhausted_event_def)

lemma announce_exhausted_ids:
  assumes "announce_exhausted schema sha env err r db = (db', None)"
  shows "row_id ` set (outbox_rows db') = insert (v_fresh env (row_id r)) (row_id ` set (outbox_rows db))"
proof -
  let ?new = "domain_event_to_outbox_row (v_fresh env (row_id r)) None (exhausted_event sha env r err) exhausted_scope"
  have "outbox_rows db' = sql_insert_ignore row_id [?new] (outbox_rows db)"
    using assms by (auto simp: announce_exhausted_def enqueue_def Let_def split: sum.splits option.splits)
  then show ?thesis
    by (simp only: keys_insert_ignore) (simp add: domain_event_row_id exhausted_event_id)
qed

lemma announce_all_ids:
  "for_each (announce_exhausted schema sha env err) rs db = (db', None) \<Longrightarrow>
     row_id ` set (outbox_rows db') = row_id ` set (outbox_rows db) \<union> (\<lambda>r. v_fresh env (row_id r)) ` set rs"
proof (induction rs arbitrary: db)
  case (Cons r rs)
  then obtain db1 where 1: "announce_exhausted schema sha env err r db = (db1, None)"
    "for_each (announce_exhausted schema sha env err) rs db1 = (db', None)"
    by (auto split: prod.splits option.splits)
  then show ?case using Cons.IH [OF 1(2)] announce_exhausted_ids [OF 1(1)] by auto
qed simp

lemma settle_failures_written:
  assumes "settle_failures schema sha env rows failure w = (w', e)"
  shows "(e \<noteq> None \<longrightarrow> w' = w)
    \<and> (w' = w \<or> (\<exists>written t'.
        email_mark_failed None (v_now env) (map lease_of rows) failure (mails w) = (t', Inr written)
      \<and> mails w' = t'
      \<and> row_id ` set (outbox_rows (mail_outbox w')) = row_id ` set (outbox_rows (mail_outbox w))
          \<union> (\<lambda>r. v_fresh env (row_id r)) ` {r \<in> set rows. \<not> stays_pending failure
               \<and> row_id r \<in> fst ` set written \<and> em_status r \<noteq> EDead}))"
proof -
  let ?key = "case rows of [] \<Rightarrow> [] | r # _ \<Rightarrow> row_id r"
  obtain t' res where m: "email_mark_failed (v_settle_error env ?key) (v_now env) (map lease_of rows) failure (mails w) = (t', res)"
    by (cases "email_mark_failed (v_settle_error env ?key) (v_now env) (map lease_of rows) failure (mails w)")
  show ?thesis
  proof (cases res)
    case (Inl msg)
    then show ?thesis using assms m by (simp add: settle_failures_def Let_def)
  next
    case (Inr written)
    have m': "email_mark_failed None (v_now env) (map lease_of rows) failure (mails w) = (t', Inr written)"
      using m Inr by (auto simp: email_mark_failed_def update_leased_def split: if_splits option.splits)
    let ?ann = "announced_rows failure written rows"
    obtain db' a where f: "for_each (announce_exhausted schema sha env (error_of failure)) ?ann (mail_outbox w) = (db', a)"
      by (cases "for_each (announce_exhausted schema sha env (error_of failure)) ?ann (mail_outbox w)")
    have ann: "set ?ann = {r \<in> set rows. \<not> stays_pending failure \<and> row_id r \<in> fst ` set written \<and> em_status r \<noteq> EDead}"
      by (auto simp: announced_rows_def)
    show ?thesis
    proof (cases "a = None \<and> v_commit_error env ?key = None")
      case True
      then have "w' = w\<lparr>mails := t', mail_outbox := db'\<rparr>" "e = None"
        using assms m Inr f by (simp_all add: settle_failures_def Let_def)
      moreover have "row_id ` set (outbox_rows db') = row_id ` set (outbox_rows (mail_outbox w))
          \<union> (\<lambda>r. v_fresh env (row_id r)) ` set ?ann"
        using announce_all_ids f True by blast
      ultimately show ?thesis using m' by (auto simp: ann)
    next
      case False
      then have "w' = w" using assms m Inr f
        by (auto simp: settle_failures_def Let_def split: option.splits)
      then show ?thesis by blast
    qed
  qed
qed

text \<open>A concrete worker: one message it holds, and a provider that accepts it.\<close>

definition example_mail_env :: email_env where
  "example_mail_env = \<lparr>v_now = 1600, v_random = 0, v_fresh = \<lambda>i. ''x'' @ i, v_date = 1600, v_assign_error = None,
     v_sent_error = None, v_release_error = None, v_settle_error = \<lambda>_. None, v_enqueue_error = \<lambda>_. None,
     v_commit_error = \<lambda>_. None, v_provider = \<lambda>_ _. BatchAccepted (Some [''p1'']) []\<rparr>"

definition example_held :: email_row where
  "example_held = claimed_set 1000 60 (example_mail_row ''m1'')"

definition example_mail_world :: email_world where
  "example_mail_world = \<lparr>mails = [example_held], mail_outbox = \<lparr>outbox_rows = [], notified = 0\<rparr>, provider_calls = []\<rparr>"

lemmas example_worker_simps = example_mail_env_def example_held_def example_mail_world_def example_mail_def
  example_mail_row_def email_insert_row_def claimed_set_def lease_of_def leased_by_def leased_all_def unsettled_def
  update_leased_def email_mark_failed_def email_mark_sent_def email_assign_batch_def sql_returning_def

text \<open>
  Giving up is atomic with its announcement: a throw leaves queue and outbox untouched, and
  otherwise the outbox gained exactly the announcements of the messages this write gave up, those it
  wrote as failed or dead that were not dead before; a retry announces nothing.
\<close>
theorem exhausted_announced_with_write:
  assumes "settle_failures schema sha env rows failure w = (w', e)"
  shows "(e \<noteq> None \<longrightarrow> w' = w)
    \<and> (w' = w \<or> (\<exists>written t'.
        email_mark_failed None (v_now env) (map lease_of rows) failure (mails w) = (t', Inr written)
      \<and> mails w' = t'
      \<and> row_id ` set (outbox_rows (mail_outbox w')) = row_id ` set (outbox_rows (mail_outbox w))
          \<union> (\<lambda>r. v_fresh env (row_id r)) ` {r \<in> set rows. \<not> stays_pending failure
               \<and> row_id r \<in> fst ` set written \<and> em_status r \<noteq> EDead}))"
  using settle_failures_written [OF assms] .

theorem exhausted_announced_with_write_witness:
  "\<exists>w'. settle_failures (\<lambda>_. Some (\<lambda>_. None)) id example_mail_env [example_held] (Final ''550'') example_mail_world = (w', None)
    \<and> w' \<noteq> example_mail_world \<and> row_id ` set (outbox_rows (mail_outbox w')) = {''xm1''}"
proof -
  let ?res = "settle_failures (\<lambda>_. Some (\<lambda>_. None)) id example_mail_env [example_held] (Final ''550'') example_mail_world"
  obtain w' e where w: "?res = (w', e)" by (cases ?res)
  have ok: "e = None \<and> em_status (hd (mails w')) = EFailed"
    using w by (auto simp: settle_failures_def example_worker_simps announced_rows_def announce_exhausted_def enqueue_def
        assert_payload_valid_def domain_event_to_outbox_row_def exhausted_event_def exhausted_scope_def)
  then have "w' \<noteq> example_mail_world" by (auto simp: example_worker_simps)
  with exhausted_announced_with_write [OF w]
  obtain written t' where s: "email_mark_failed None 1600 [(''m1'', 1)] (Final ''550'') [example_held] = (t', Inr written)"
    "row_id ` set (outbox_rows (mail_outbox w')) = {''x'' @ row_id r |r. r \<in> {example_held} \<and> row_id r \<in> fst ` set written \<and> em_status r \<noteq> EDead}"
    by (auto simp: example_mail_env_def example_mail_world_def lease_of_def example_held_def example_mail_row_def
        email_insert_row_def image_def)
  then have "written = [(''m1'', 1)]" by (simp add: example_worker_simps)
  then have "row_id ` set (outbox_rows (mail_outbox w')) = {''xm1''}" using s(2) by (auto simp: example_worker_simps)
  then show ?thesis using w ok \<open>w' \<noteq> example_mail_world\<close> by blast
qed

section \<open>Nothing is sent that is not held\<close>

text \<open>A message of the table carries a batch key.\<close>

definition carries :: "string \<Rightarrow> ident \<Rightarrow> email_row list \<Rightarrow> bool" where
  "carries b k t \<longleftrightarrow> (\<exists>m \<in> set t. row_id m = k \<and> em_batch m = Some b)"

lemma carries_update:
  assumes "carries b k t" and "\<And>m. row_id (f m) = row_id m" and "\<And>m. em_batch (f m) = em_batch m"
  shows "carries b k (sql_update p f t)"
proof -
  obtain m where m: "m \<in> set t" "row_id m = k" "em_batch m = Some b" using assms(1) unfolding carries_def by blast
  then have "(if p m then f m else m) \<in> set (sql_update p f t)" unfolding set_sql_update by blast
  then show ?thesis unfolding carries_def by (rule bexI [rotated]) (use m assms(2,3) in simp)
qed

lemma carries_update_leased:
  assumes "carries b k t" and "\<And>m. row_id (f m) = row_id m" and "\<And>m. em_batch (f m) = em_batch m"
  shows "carries b k (fst (update_leased e f ls t))"
  using assms carries_update [of b k t f] by (simp add: update_leased_def split: option.split)

lemma changes_batch [simp]:
  "em_batch (failure_changes now f m) = em_batch m" "em_batch (sent_changes now ids m) = em_batch m"
  "row_id (sent_changes now ids m) = row_id m" "em_batch (release_changes now d m) = em_batch m"
  "row_id (release_changes now d m) = row_id m"
  by (cases f; simp add: sent_changes_def release_changes_def released_set_def)+

lemma settle_failures_carries:
  "carries b k (mails w) \<Longrightarrow> carries b k (mails (fst (settle_failures schema sha env rows f w)))"
  using settle_failures_written [of schema sha env rows f w "fst (settle_failures schema sha env rows f w)"
      "snd (settle_failures schema sha env rows f w)"]
    carries_update_leased [of b k "mails w" "failure_changes (v_now env) f" None "map lease_of rows"]
  by (auto simp: email_mark_failed_def)

lemma settle_failures_calls [simp]:
  "provider_calls (fst (settle_failures schema sha env rows f w)) = provider_calls w"
  by (auto simp: settle_failures_def Let_def split: prod.split sum.split option.split)

lemma release_rows_keeps [simp]:
  "provider_calls (fst (release_rows env rows d w)) = provider_calls w"
  "carries b k (mails w) \<Longrightarrow> carries b k (mails (fst (release_rows env rows d w)))"
proof -
  show "provider_calls (fst (release_rows env rows d w)) = provider_calls w"
    by (auto simp: release_rows_def split: prod.split)
  assume "carries b k (mails w)"
  then have "carries b k (fst (update_leased e (release_changes now d) ls (mails w)))" for e now ls
    by (rule carries_update_leased) simp_all
  then show "carries b k (mails (fst (release_rows env rows d w)))"
    by (simp add: release_rows_def email_release_def split_beta split: sum.split)
qed

text \<open>Failures settled for some messages leave the rows of the others alone.\<close>

lemma settle_failures_others:
  assumes "m \<in> set (mails (fst (settle_failures schema sha env [b] f w)))" and "lease_of m \<noteq> lease_of b"
  shows "m \<in> set (mails w)"
proof -
  let ?w' = "fst (settle_failures schema sha env [b] f w)"
  have "?w' = w \<or> mails ?w' = sql_update (leased_all [lease_of b]) (failure_changes (v_now env) f) (mails w)"
    using settle_failures_written [of schema sha env "[b]" f w ?w' "snd (settle_failures schema sha env [b] f w)"]
    by (auto simp: email_mark_failed_def update_leased_def)
  then show ?thesis
  proof
    assume "mails ?w' = sql_update (leased_all [lease_of b]) (failure_changes (v_now env) f) (mails w)"
    then obtain m0 where m0: "m0 \<in> set (mails w)"
      "m = (if leased_all [lease_of b] m0 then failure_changes (v_now env) f m0 else m0)"
      using assms(1) by (auto simp: set_sql_update)
    have "lease_of (failure_changes (v_now env) f m0) = lease_of m0" by (simp add: lease_of_def)
    then have "\<not> leased_all [lease_of b] m0"
      using m0(2) assms(2) by (auto simp: leased_all_any leased_any_iff split: if_splits)
    then show ?thesis using m0 by simp
  qed (use assms(1) in simp)
qed

lemma settle_each_others:
  "m \<in> set (mails (fst (for_each (\<lambda>(r, e). settle_failures schema sha env [r] (F e)) bad w))) \<Longrightarrow>
     lease_of m \<notin> lease_of ` fst ` set bad \<Longrightarrow> m \<in> set (mails w)"
proof (induction bad arbitrary: w)
  case (Cons re bad)
  obtain r e where re: "re = (r, e)" by (cases re)
  obtain w1 x where s: "settle_failures schema sha env [r] (F e) w = (w1, x)"
    by (cases "settle_failures schema sha env [r] (F e) w")
  have "m \<in> set (mails w1)"
    using Cons by (cases x) (auto simp: re s)
  moreover have "lease_of m \<noteq> lease_of r" using Cons.prems(2) by (auto simp: re)
  ultimately show ?case using settle_failures_others [of m schema sha env r "F e" w] by (simp add: s)
qed simp

lemma assign_batch_held:
  assumes "assign_batch env chunk key w = (w', True)" and "keyed row_id (mails w)" and "distinct (map row_id chunk)"
    and "r \<in> set chunk"
  shows "(\<exists>m \<in> set (mails w). lease_of m = lease_of r \<and> unsettled m) \<and> carries key (row_id r) (mails w')
    \<and> provider_calls w' = provider_calls w"
proof -
  let ?ls = "map lease_of chunk"
  let ?f = "\<lambda>r :: email_row. r\<lparr>em_batch := Some key\<rparr>"
  let ?H = "filter (leased_all ?ls) (mails w)"
  have ne: "?ls \<noteq> []" using assms(4) by auto
  have t: "mails w' = sql_update (leased_all ?ls) ?f (mails w)" "provider_calls w' = provider_calls w"
    and len: "length chunk \<le> length ?H"
    using assms(1) ne
    by (auto simp: assign_batch_def email_assign_batch_def update_leased_def sql_returning_def
        split: if_splits option.splits)
  have "distinct (map row_id ?H)" using assms(2) by (auto simp: keyed_def distinct_map intro: inj_on_subset)
  then have "distinct (map lease_of ?H)" by (auto simp: distinct_map inj_on_def lease_of_def)
  then have "card (lease_of ` set ?H) = length ?H" by (metis distinct_card length_map set_map)
  moreover have "card (lease_of ` set chunk) \<le> length chunk" by (metis card_length length_map set_map)
  moreover have sub: "lease_of ` set ?H \<subseteq> lease_of ` set chunk" by (auto simp: leased_all_any leased_any_iff)
  ultimately have "lease_of ` set ?H = lease_of ` set chunk"
    using card_seteq [OF _ sub] len by simp
  then have "lease_of r \<in> lease_of ` set ?H" using assms(4) by blast
  then obtain m where m: "m \<in> set (mails w)" "leased_all ?ls m" "lease_of m = lease_of r" by auto
  then have "?f m \<in> set (mails w')" unfolding t(1) set_sql_update by (metis (mono_tags, lifting) image_eqI)
  then have "carries key (row_id r) (mails w')"
    unfolding carries_def using m(3) by (intro bexI [of _ "?f m"]) (simp_all add: lease_of_def)
  moreover have "unsettled m" using m(2) by (simp add: leased_all_any leased_any_iff)
  ultimately show ?thesis using m t(2) by blast
qed

lemma settle_accepted_keeps:
  "provider_calls (fst (settle_accepted schema sha env chunk ids errors w)) = provider_calls w"
  "carries b k (mails w) \<Longrightarrow> carries b k (mails (fst (settle_accepted schema sha env chunk ids errors w)))"
proof -
  define xs where "xs = filter (\<lambda>(i, _). map_of (rev errors) i \<noteq> None) (enumerate 0 chunk)"
  define f where "f = (\<lambda>(i, r). settle_failures schema sha env [r] (Final (the (map_of (rev errors) i))))"
  have calls: "provider_calls (fst (for_each f xs w)) = provider_calls w"
    by (rule for_each_inv [where P = "\<lambda>v. provider_calls v = provider_calls w"]) (auto simp: f_def)
  have carry: "carries b k (mails w) \<Longrightarrow> carries b k (mails (fst (for_each f xs w)))"
    by (rule for_each_inv [where P = "\<lambda>v. carries b k (mails v)"]) (auto simp: f_def settle_failures_carries)
  have sent: "carries b k t \<Longrightarrow> carries b k (fst (email_mark_sent e now ls ids' t))" for e now ls ids' t
    unfolding email_mark_sent_def by (rule carries_update_leased) simp_all
  obtain w1 x where w1: "for_each f xs w = (w1, x)" by (cases "for_each f xs w")
  show "provider_calls (fst (settle_accepted schema sha env chunk ids errors w)) = provider_calls w"
    using calls unfolding settle_accepted_def Let_def xs_def [symmetric] f_def [symmetric] w1
    by (auto split: option.split prod.split)
  assume "carries b k (mails w)"
  then have "carries b k (mails w1)" using carry w1 by simp
  then show "carries b k (mails (fst (settle_accepted schema sha env chunk ids errors w)))"
    using sent unfolding settle_accepted_def Let_def xs_def [symmetric] f_def [symmetric] w1
    by (auto simp: split_beta split: option.split)
qed

lemma settle_rejected_keeps:
  "provider_calls (fst (settle_rejected schema sha opts env chunk kind err w)) = provider_calls w"
  "carries b k (mails w) \<Longrightarrow> carries b k (mails (fst (settle_rejected schema sha opts env chunk kind err w)))"
  by (cases kind; simp add: settle_rejected_def settle_failures_carries)+

lemma keyed_update_leased:
  "(\<And>m. row_id (f m) = row_id m) \<Longrightarrow> keyed row_id (fst (update_leased er f ls t)) = keyed row_id t"
  by (simp add: update_leased_def keyed_sql_update split: option.split)

lemma keyed_settle_failures:
  assumes "keyed row_id (mails w)"
  shows "keyed row_id (mails (fst (settle_failures schema sha env rows f w)))"
proof -
  let ?w' = "fst (settle_failures schema sha env rows f w)"
  have "?w' = w \<or> (\<exists>written. email_mark_failed None (v_now env) (map lease_of rows) f (mails w) = (mails ?w', Inr written))"
    using settle_failures_written [of schema sha env rows f w ?w' "snd (settle_failures schema sha env rows f w)"]
    by (metis prod.collapse)
  then show ?thesis
  proof
    assume "\<exists>written. email_mark_failed None (v_now env) (map lease_of rows) f (mails w) = (mails ?w', Inr written)"
    then have "mails ?w' = fst (update_leased None (failure_changes (v_now env) f) (map lease_of rows) (mails w))"
      unfolding email_mark_failed_def by force
    then show ?thesis using assms keyed_update_leased [of "failure_changes (v_now env) f"] by simp
  qed (use assms in simp)
qed

text \<open>
  C5: the provider is given only what the worker holds, and never more than one batch per chunk:
  whatever fails around it, a call names messages of the chunk, each leased by this worker when the
  call was decided, and each left carrying the batch key the call's idempotency key was derived
  from, so that a retry of the batch finds the same messages under the same key.
\<close>
theorem sends_only_what_it_holds:
  assumes "keyed row_id (mails w)" and "distinct (map row_id claimed)"
    and "send_chunk schema sha canon render opts env claimed w = (w', e)"
  shows "provider_calls w' = provider_calls w
    \<or> (\<exists>chunk key entries.
        provider_calls w' = provider_calls w @ [(chunk_idempotency_key sha canon key entries, map row_id chunk)]
      \<and> chunk \<noteq> [] \<and> set chunk \<subseteq> set claimed
      \<and> (\<forall>r \<in> set chunk. (\<exists>m \<in> set (mails w). lease_of m = lease_of r \<and> unsettled m)
             \<and> carries key (row_id r) (mails w')))"
proof -
  define rendered where "rendered = map (\<lambda>r. (r, to_entry render (eo_from opts) r)) claimed"
  define good where "good = concat (map (\<lambda>(r, x). case x of Inr entry \<Rightarrow> [(r, entry)] | Inl _ \<Rightarrow> []) rendered)"
  define bad where "bad = concat (map (\<lambda>(r, x). case x of Inl e \<Rightarrow> [(r, e)] | Inr _ \<Rightarrow> []) rendered)"
  define F where "F = (\<lambda>e. Final (''render failed: '' @ e))"
  define chunk where "chunk = map fst good"
  let ?loop = "for_each (\<lambda>(r, e). settle_failures schema sha env [r] (F e)) bad w"
  have good: "map fst good = filter (\<lambda>r. \<exists>x. to_entry render (eo_from opts) r = Inr x) claimed"
    unfolding good_def rendered_def by (induction claimed) (auto split: sum.split)
  have bad: "fst ` set bad \<subseteq> {r \<in> set claimed. \<nexists>x. to_entry render (eo_from opts) r = Inr x}"
    unfolding bad_def rendered_def by (auto split: sum.splits)
  have sub: "set chunk \<subseteq> set claimed" and dist: "distinct (map row_id chunk)"
    using assms(2) unfolding chunk_def good by (auto simp: distinct_map intro: inj_on_subset)
  obtain w1 x where w1: "?loop = (w1, x)" by (cases ?loop)
  have calls: "provider_calls (fst ?loop) = provider_calls w"
    by (rule for_each_inv [where P = "\<lambda>v. provider_calls v = provider_calls w"]) auto
  have keyed: "keyed row_id (mails (fst ?loop))"
    using assms(1) by (rule for_each_inv [where P = "\<lambda>v. keyed row_id (mails v)", rotated]) (auto simp: keyed_settle_failures)
  have apart: "lease_of m \<notin> lease_of ` fst ` set bad" if "lease_of m = lease_of r" "r \<in> set chunk" for m r
  proof
    assume "lease_of m \<in> lease_of ` fst ` set bad"
    then obtain q where "lease_of m = lease_of q" and q1: "q \<in> fst ` set bad" by (rule imageE)
    with that(1) have q: "q \<in> fst ` set bad" "lease_of r = lease_of q" by simp_all
    then have "row_id r = row_id q" "r \<in> set claimed" "q \<in> set claimed"
      using that(2) sub bad by (auto simp: lease_of_def)
    then have "r = q" using assms(2) by (auto simp: distinct_map inj_on_def)
    then show False using that(2) q(1) bad unfolding chunk_def good by auto
  qed
  have step: "send_chunk schema sha canon render opts env claimed w =
      (case ?loop of
         (w1, Some e) \<Rightarrow> (w1, Some e)
       | (w1, None) \<Rightarrow>
           if chunk = [] then (w1, None)
           else case assign_batch env chunk (batch_key_of sha chunk) w1 of
                  (w2, False) \<Rightarrow> release_rows env chunk 0 w2
                | (w2, True) \<Rightarrow>
                    let idem = chunk_idempotency_key sha canon (batch_key_of sha chunk) (map snd good);
                        w3 = w2\<lparr>provider_calls := provider_calls w2 @ [(idem, map row_id chunk)]\<rparr>
                    in case v_provider env (map snd good) idem of
                         BatchError kind err \<Rightarrow> settle_rejected schema sha opts env chunk kind err w3
                       | BatchAccepted ids errors \<Rightarrow> settle_accepted schema sha env chunk ids errors w3)"
    unfolding send_chunk_def Let_def chunk_def good_def bad_def rendered_def F_def ..
  show ?thesis
  proof (cases "x = None \<and> chunk \<noteq> []")
    case False
    then show ?thesis using assms(3) calls by (auto simp: step w1 split: option.splits)
  next
    case True
    let ?key = "batch_key_of sha chunk"
    obtain w2 held where a: "assign_batch env chunk ?key w1 = (w2, held)" by (cases "assign_batch env chunk ?key w1")
    have calls2: "provider_calls w2 = provider_calls w"
      using a calls by (auto simp: w1 assign_batch_def split: prod.splits sum.splits)
    show ?thesis
    proof (cases held)
      case False
      then have "(w', e) = release_rows env chunk 0 w2" using assms(3) True a by (simp add: step w1)
      then have "provider_calls w' = provider_calls w" using calls2 by (metis fst_conv release_rows_keeps(1))
      then show ?thesis by blast
    next
      case held: True
      then have a': "assign_batch env chunk ?key w1 = (w2, True)" using a by simp
      let ?idem = "chunk_idempotency_key sha canon ?key (map snd good)"
      let ?w3 = "w2\<lparr>provider_calls := provider_calls w2 @ [(?idem, map row_id chunk)]\<rparr>"
      have end_: "w' = fst (case v_provider env (map snd good) ?idem of
           BatchError kind err \<Rightarrow> settle_rejected schema sha opts env chunk kind err ?w3
         | BatchAccepted ids errors \<Rightarrow> settle_accepted schema sha env chunk ids errors ?w3)"
        using assms(3) True a' by (simp add: step w1 Let_def)
      have "provider_calls w' = provider_calls w @ [(?idem, map row_id chunk)]"
        unfolding end_ by (cases "v_provider env (map snd good) ?idem")
          (simp_all add: settle_rejected_keeps settle_accepted_keeps calls2)
      moreover have "(\<exists>m \<in> set (mails w). lease_of m = lease_of r \<and> unsettled m) \<and> carries ?key (row_id r) (mails w')"
        if r: "r \<in> set chunk" for r
      proof -
        have h: "(\<exists>m \<in> set (mails w1). lease_of m = lease_of r \<and> unsettled m) \<and> carries ?key (row_id r) (mails w2)"
          using assign_batch_held [OF a' _ dist r] keyed by (simp add: w1)
        then obtain m where m: "m \<in> set (mails w1)" "lease_of m = lease_of r" "unsettled m" by blast
        have "m \<in> set (mails w)" using settle_each_others [of m schema sha env F bad w] m apart [OF m(2) r] by (simp add: w1)
        moreover have "carries ?key (row_id r) (mails w')"
          unfolding end_ using h by (cases "v_provider env (map snd good) ?idem")
            (simp_all add: settle_rejected_keeps settle_accepted_keeps)
        ultimately show ?thesis using m by blast
      qed
      ultimately show ?thesis using True sub by blast
    qed
  qed
qed

theorem sends_only_what_it_holds_witness:
  "\<exists>w' chunk key entries.
     send_chunk (\<lambda>_. None) id (\<lambda>_. ''canon'') (\<lambda>_ _ _. Inl ''none'') \<lparr>eo_lease = 60, eo_dead_retry = 900, eo_window = 24, eo_from = None\<rparr>
       example_mail_env [example_held] example_mail_world = (w', None)
   \<and> provider_calls w' = [(chunk_idempotency_key id (\<lambda>_. ''canon'') key entries, map row_id chunk)]
   \<and> set chunk \<subseteq> {example_held}"
proof -
  let ?res = "send_chunk (\<lambda>_. None) id (\<lambda>_. ''canon'') (\<lambda>_ _ _. Inl ''none'')
    \<lparr>eo_lease = 60, eo_dead_retry = 900, eo_window = 24, eo_from = None\<rparr> example_mail_env [example_held] example_mail_world"
  obtain w' e where w: "?res = (w', e)" by (cases ?res)
  have ok: "e = None \<and> provider_calls w' \<noteq> []"
    using w by (auto simp: send_chunk_def to_entry_def example_worker_simps assign_batch_def settle_accepted_def Let_def)
  have "keyed row_id (mails example_mail_world)" "distinct (map row_id [example_held])"
    by (simp_all add: example_mail_world_def keyed_def)
  from sends_only_what_it_holds [OF this w] show ?thesis
    using w ok by (auto simp: example_mail_world_def)
qed

end
