(* ===== verification/Event_Emit.thy ===== *)
theory Event_Emit
  imports Outbox_Store
begin

text \<open>
  Emitting one event outside an aggregate: \<open>packages/outbox/src/event-emitter.ts\<close>, and who an
  event's payload says triggered it: \<open>packages/outbox/src/event-actor.ts\<close>. \<open>sha\<close> is SHA-256
  in hexadecimal.
\<close>

section \<open>Emitting\<close>

definition SOURCE :: string where "SOURCE = ''app/api''"

record emit_options =
  op_organization :: "string option"
  op_traceparent :: "string option"
  op_event_id :: "ident option"

definition no_options :: emit_options where
  "no_options = \<lparr>op_organization = None, op_traceparent = None, op_event_id = None\<rparr>"

definition for_org :: "string \<Rightarrow> emit_options" where
  "for_org org = no_options\<lparr>op_organization := Some org\<rparr>"

text \<open>What an emission reads from outside: the driver, the request, a fresh id, the date.\<close>

record emit_env =
  et_db_error :: "string option"
  et_request :: "string option"
  et_fresh :: ident
  et_date :: instant

text \<open>\<open>s.slice(a, b)\<close>.\<close>

definition slice :: "nat \<Rightarrow> nat \<Rightarrow> 'a list \<Rightarrow> 'a list" where
  "slice a b s = take (b - a) (drop a s)"

definition derived_event_id :: "(string \<Rightarrow> string) \<Rightarrow> ident \<Rightarrow> string \<Rightarrow> ident" where
  "derived_event_id sha source_id event =
     (let hash = sha (source_id @ '':'' @ event)
      in slice 0 8 hash @ ''-'' @ slice 8 12 hash @ ''-8'' @ slice 13 16 hash @ ''-8'' @ slice 17 20 hash
           @ ''-'' @ slice 20 32 hash)"

definition emitted_event :: "emit_env \<Rightarrow> string \<Rightarrow> ident \<Rightarrow> json \<Rightarrow> emit_options \<Rightarrow> domain_event" where
  "emitted_event env event aggregate body opts =
     \<lparr>ev_id = Some (case op_event_id opts of None \<Rightarrow> et_fresh env | Some i \<Rightarrow> i), ev_type = event,
      ev_date = et_date env, ev_aggregate = aggregate, ev_payload = body\<rparr>"

definition emit_event ::
  "payload_schema \<Rightarrow> emit_env \<Rightarrow> string \<Rightarrow> string \<Rightarrow> ident \<Rightarrow> json \<Rightarrow> emit_options \<Rightarrow> outbox_db \<Rightarrow> (outbox_db \<times> ident) throws" where
  "emit_event schema env event aggregate_kind aggregate body opts db =
     (let ev = emitted_event env event aggregate body opts
      in case enqueue (et_db_error env) schema (et_request env) (\<lambda>_. et_fresh env) [ev]
             \<lparr>sc_source = SOURCE, sc_organization = op_organization opts, sc_aggregate_type = Some aggregate_kind,
              sc_traceparent = op_traceparent opts\<rparr> db of
           Inl e \<Rightarrow> Inl e
         | Inr db' \<Rightarrow> Inr (db', the (ev_id ev)))"

definition emit_event_best_effort ::
  "payload_schema \<Rightarrow> emit_env \<Rightarrow> string \<Rightarrow> string \<Rightarrow> ident \<Rightarrow> json \<Rightarrow> outbox_db \<Rightarrow> outbox_db" where
  "emit_event_best_effort schema env event aggregate_kind aggregate body db =
     (case emit_event schema env event aggregate_kind aggregate body no_options db of
        Inl e \<Rightarrow> db
      | Inr (db', i) \<Rightarrow> db')"

text \<open>An emission that does not throw has the event in the outbox, and only inserts.\<close>

lemma emit_event_Inr:
  assumes "emit_event schema env event kind agg body opts db = Inr (db', i)"
  shows "i = (case op_event_id opts of None \<Rightarrow> et_fresh env | Some j \<Rightarrow> j)"
    and "row_id ` set (outbox_rows db') = insert i (row_id ` set (outbox_rows db))"
    and "set (outbox_rows db) \<subseteq> set (outbox_rows db')"
  using assms
  by (auto simp: emit_event_def Let_def enqueue_def emitted_event_def domain_event_to_outbox_row_def
      split: option.splits if_splits)

lemma emit_event_accepted:
  assumes "et_db_error env = None" and "schema event = Some parse" and "parse body = None"
  shows "\<exists>db' i. emit_event schema env event kind agg body opts db = Inr (db', i)"
  using assms by (auto simp: emit_event_def Let_def enqueue_def emitted_event_def assert_payload_valid_def)

lemma emit_event_refused:
  "emit_event schema env event kind agg body opts db = Inl e \<Longrightarrow>
     et_db_error env \<noteq> None \<or> schema event = None \<or> (\<exists>parse. schema event = Some parse \<and> parse body \<noteq> None)"
  by (auto simp: emit_event_def Let_def enqueue_def emitted_event_def assert_payload_valid_def
      split: option.splits)

lemma length_slice: "b \<le> length s \<Longrightarrow> length (slice a b s) = b - a"
  by (simp add: slice_def)

lemma derived_event_id_length:
  assumes "length (sha (source_id @ '':'' @ event)) = 64"
  shows "length (derived_event_id sha source_id event) = 36"
  using assms by (simp add: derived_event_id_def Let_def length_slice)

section \<open>Who acted\<close>

definition ACTOR_KEYS :: "string list" where
  "ACTOR_KEYS = [''actorUserId'', ''inviterUserId'', ''ownerUserId'', ''userId'']"

fun member_of :: "json \<Rightarrow> string \<Rightarrow> json option" where
  "member_of (JObj ms) k = map_of ms k"
| "member_of j k = None"

fun read_user_id :: "json \<Rightarrow> string list \<Rightarrow> string option" where
  "read_user_id body [] = None"
| "read_user_id body (k # ks) =
     (case member_of body k of
        Some (JStr s) \<Rightarrow> if s \<noteq> [] then Some s else read_user_id body ks
      | _ \<Rightarrow> read_user_id body ks)"

definition read_actor_id :: "json \<Rightarrow> string option" where
  "read_actor_id body =
     (if member_of body ''actorUserId'' = Some JNull then None else read_user_id body ACTOR_KEYS)"

lemma read_user_id_Some:
  "read_user_id body ks = Some u \<Longrightarrow> u \<noteq> [] \<and> (\<exists>k \<in> set ks. member_of body k = Some (JStr u))"
  by (induction ks) (auto split: option.splits json.splits if_splits)

lemma read_actor_id_system:
  "member_of body ''actorUserId'' = Some JNull \<Longrightarrow> read_actor_id body = None"
  by (simp add: read_actor_id_def)

end
