(* ===== verification/Webhook_Store.thy ===== *)
theory Webhook_Store
  imports Lease_Table Event_Emit
begin

text \<open>
  The tables of the webhooks, \<open>packages/drizzle/src/schema/webhooks.ts\<close>, and their two
  repositories, \<open>drizzle-webhook-endpoint.repository.ts\<close> and
  \<open>drizzle-webhook-delivery.repository.ts\<close> of
  \<open>apps/api/src/modules/webhooks/infrastructure/repositories\<close>.

  As for the other queues, \<open>db_error\<close> is what the driver raises, \<open>locked\<close> the rows
  other transactions hold, \<open>now\<close> the start of the transaction; \<open>date\<close> is the process's
  clock, which \<open>$onUpdate\<close> reads. The foreign key of a delivery to its endpoint, its cascade and
  the unique idempotency key are part of the model; a violation is a failed statement.
\<close>

section \<open>Rows\<close>

record webhook_endpoint =
  we_id :: ident
  we_org :: string
  we_url :: string
  we_secret :: string
  we_event_types :: "string list"
  we_enabled :: bool
  we_previous_secret :: "string option"
  we_previous_expires :: "instant option"
  we_failures :: int
  we_first_failed :: "instant option"
  we_disabled :: "instant option"
  we_created :: instant
  we_updated :: instant

datatype delivery_status = DPending | DSuccess | DFailed | DDead

record delivery_row = lease_row +
  wd_endpoint :: ident
  wd_event :: ident
  wd_type :: string
  wd_payload :: json
  wd_status :: delivery_status
  wd_last_error :: "string option"
  wd_last_response :: "int option"
  wd_key :: string
  wd_created :: instant

type_synonym headers = "(string \<times> string) list"

record attempt_log =
  al_request_headers :: "headers option"
  al_request_body :: "string option"
  al_response_status :: "int option"
  al_response_headers :: "headers option"
  al_response_body :: "string option"
  al_duration :: "int option"
  al_error :: "string option"

record attempt_row = attempt_log +
  wa_id :: ident
  wa_delivery :: ident
  wa_number :: int
  wa_created :: instant

record webhook_db =
  wh_endpoints :: "webhook_endpoint list"
  wh_deliveries :: "delivery_row list"
  wh_attempts :: "attempt_row list"

abbreviation own_endpoint :: "ident \<Rightarrow> string \<Rightarrow> webhook_endpoint \<Rightarrow> bool" where
  "own_endpoint i org e \<equiv> we_id e = i \<and> we_org e = org"

section \<open>Endpoints\<close>

record endpoint_create =
  ce_id :: ident
  ce_org :: string
  ce_url :: string
  ce_secret :: string
  ce_event_types :: "string list"
  ce_enabled :: bool

record endpoint_update =
  ue_id :: ident
  ue_org :: string
  ue_url :: "string option"
  ue_event_types :: "string list option"
  ue_enabled :: "bool option"

definition new_endpoint :: "instant \<Rightarrow> endpoint_create \<Rightarrow> webhook_endpoint" where
  "new_endpoint now a =
     \<lparr>we_id = ce_id a, we_org = ce_org a, we_url = ce_url a, we_secret = ce_secret a,
      we_event_types = ce_event_types a, we_enabled = ce_enabled a, we_previous_secret = None,
      we_previous_expires = None, we_failures = 0, we_first_failed = None, we_disabled = None,
      we_created = now, we_updated = now\<rparr>"

definition endpoint_insert ::
  "string option \<Rightarrow> instant \<Rightarrow> endpoint_create \<Rightarrow> webhook_db \<Rightarrow> webhook_db \<times> (webhook_endpoint, string) result" where
  "endpoint_insert db_error now a db =
     (if db_error \<noteq> None \<or> ce_id a \<in> we_id ` set (wh_endpoints db)
      then (db, fail ''webhook endpoint create failed'')
      else (db\<lparr>wh_endpoints := wh_endpoints db @ [new_endpoint now a]\<rparr>, ok (new_endpoint now a)))"

text \<open>\<open>UPDATE webhook_endpoint SET ... WHERE id = ... AND organization_id = ... RETURNING *\<close>.\<close>

definition endpoint_write ::
  "ident \<Rightarrow> string \<Rightarrow> (webhook_endpoint \<Rightarrow> webhook_endpoint) \<Rightarrow> webhook_db \<Rightarrow> webhook_db \<times> webhook_endpoint option" where
  "endpoint_write i org f db =
     (db\<lparr>wh_endpoints := sql_update (own_endpoint i org) f (wh_endpoints db)\<rparr>,
      map_option f (find (own_endpoint i org) (wh_endpoints db)))"

definition endpoint_change :: "instant \<Rightarrow> endpoint_update \<Rightarrow> webhook_endpoint \<Rightarrow> webhook_endpoint" where
  "endpoint_change date a e =
     (let e1 = (case ue_url a of None \<Rightarrow> e | Some u \<Rightarrow> e\<lparr>we_url := u\<rparr>);
          e2 = (case ue_event_types a of None \<Rightarrow> e1 | Some ts \<Rightarrow> e1\<lparr>we_event_types := ts\<rparr>);
          e3 = (case ue_enabled a of None \<Rightarrow> e2 | Some b \<Rightarrow> e2\<lparr>we_enabled := b\<rparr>);
          e4 = (if ue_enabled a = Some True
                then e3\<lparr>we_failures := 0, we_first_failed := None, we_disabled := None\<rparr> else e3)
      in e4\<lparr>we_updated := date\<rparr>)"

definition endpoint_modify ::
  "string option \<Rightarrow> instant \<Rightarrow> endpoint_update \<Rightarrow> webhook_db \<Rightarrow> webhook_db \<times> (webhook_endpoint option, string) result" where
  "endpoint_modify db_error date a db =
     (if db_error \<noteq> None \<or> (ue_url a = None \<and> ue_event_types a = None \<and> ue_enabled a = None)
      then (db, fail ''webhook endpoint update failed'')
      else case endpoint_write (ue_id a) (ue_org a) (endpoint_change date a) db of (db', row) \<Rightarrow> (db', ok row))"

text \<open>A delete takes the deliveries of the endpoint with it, and their attempts.\<close>

definition endpoint_delete ::
  "string option \<Rightarrow> ident \<Rightarrow> string \<Rightarrow> webhook_db \<Rightarrow> webhook_db \<times> (bool, string) result" where
  "endpoint_delete db_error i org db =
     (if db_error \<noteq> None then (db, fail ''webhook endpoint delete failed'')
      else let hit = list_ex (own_endpoint i org) (wh_endpoints db);
               gone = (\<lambda>d. hit \<and> wd_endpoint d = i);
               lost = row_id ` set (filter gone (wh_deliveries db))
           in (\<lparr>wh_endpoints = sql_delete (own_endpoint i org) (wh_endpoints db),
                wh_deliveries = sql_delete gone (wh_deliveries db),
                wh_attempts = sql_delete (\<lambda>a. wa_delivery a \<in> lost) (wh_attempts db)\<rparr>, ok hit))"

definition endpoint_find ::
  "string option \<Rightarrow> ident \<Rightarrow> string \<Rightarrow> webhook_db \<Rightarrow> (webhook_endpoint option, string) result" where
  "endpoint_find db_error i org db =
     (if db_error \<noteq> None then fail ''webhook endpoint lookup failed''
      else ok (find (own_endpoint i org) (wh_endpoints db)))"

definition endpoint_find_enabled ::
  "string option \<Rightarrow> ident \<Rightarrow> webhook_db \<Rightarrow> (webhook_endpoint option, string) result" where
  "endpoint_find_enabled db_error i db =
     (if db_error \<noteq> None then fail ''webhook endpoint lookup failed''
      else ok (find (\<lambda>e. we_id e = i \<and> we_enabled e) (wh_endpoints db)))"

definition endpoint_list ::
  "string option \<Rightarrow> string \<Rightarrow> webhook_db \<Rightarrow> (webhook_endpoint list, string) result" where
  "endpoint_list db_error org db =
     (if db_error \<noteq> None then fail ''webhook endpoint list failed''
      else ok (filter (\<lambda>e. we_org e = org) (wh_endpoints db)))"

definition apply_secret_rotation ::
  "string option \<Rightarrow> instant \<Rightarrow> ident \<Rightarrow> string \<Rightarrow> string \<Rightarrow> string \<Rightarrow> instant \<Rightarrow> webhook_db \<Rightarrow>
   webhook_db \<times> (webhook_endpoint option, string) result" where
  "apply_secret_rotation db_error date i org secret previous expires db =
     (if db_error \<noteq> None then (db, fail ''webhook endpoint applySecretRotation failed'')
      else case endpoint_write i org
             (\<lambda>e. e\<lparr>we_secret := secret, we_previous_secret := Some previous, we_previous_expires := Some expires,
                 we_updated := date\<rparr>) db of
             (db', row) \<Rightarrow> (db', ok row))"

definition bump_failure ::
  "string option \<Rightarrow> instant \<Rightarrow> instant \<Rightarrow> ident \<Rightarrow> string \<Rightarrow> webhook_db \<Rightarrow>
   webhook_db \<times> ((int \<times> instant) option, string) result" where
  "bump_failure db_error now date i org db =
     (if db_error \<noteq> None then (db, fail ''webhook endpoint bumpFailure failed'')
      else case endpoint_write i org
             (\<lambda>e. e\<lparr>we_failures := we_failures e + 1,
                 we_first_failed := (case we_first_failed e of None \<Rightarrow> Some now | Some t \<Rightarrow> Some t),
                 we_updated := date\<rparr>) db of
             (db', None) \<Rightarrow> (db', ok None)
           | (db', Some e) \<Rightarrow> (db', ok (map_option (\<lambda>t. (we_failures e, t)) (we_first_failed e))))"

definition reset_failure ::
  "string option \<Rightarrow> instant \<Rightarrow> ident \<Rightarrow> string \<Rightarrow> webhook_db \<Rightarrow> webhook_db \<times> (unit, string) result" where
  "reset_failure db_error date i org db =
     (if db_error \<noteq> None then (db, fail ''webhook endpoint resetFailure failed'')
      else (fst (endpoint_write i org (\<lambda>e. e\<lparr>we_failures := 0, we_first_failed := None, we_updated := date\<rparr>) db), ok ()))"

definition mark_disabled ::
  "string option \<Rightarrow> instant \<Rightarrow> ident \<Rightarrow> string \<Rightarrow> instant \<Rightarrow> webhook_db \<Rightarrow> webhook_db \<times> (unit, string) result" where
  "mark_disabled db_error date i org disabled_at db =
     (if db_error \<noteq> None then (db, fail ''webhook endpoint markDisabled failed'')
      else (fst (endpoint_write i org
              (\<lambda>e. e\<lparr>we_enabled := False, we_disabled := Some disabled_at, we_updated := date\<rparr>) db), ok ()))"

section \<open>Claiming and settling deliveries\<close>

definition unsettled_delivery :: "delivery_row \<Rightarrow> bool" where
  "unsettled_delivery r \<longleftrightarrow> wd_status r \<in> {DPending, DFailed, DDead} \<and> next_attempt_at r \<noteq> None"

record delivery_claim =
  dc_limit :: nat
  dc_lease :: int

definition live_deliveries :: "instant \<Rightarrow> ident list \<Rightarrow> delivery_claim \<Rightarrow> delivery_row list \<Rightarrow> delivery_row list" where
  "live_deliveries now locked q t =
     sql_select (\<lambda>r. wd_status r \<in> {DPending, DFailed} \<and> is_due now (next_attempt_at r) \<and> row_id r \<notin> set locked)
       wd_created (dc_limit q) t"

definition dead_deliveries :: "instant \<Rightarrow> ident list \<Rightarrow> delivery_claim \<Rightarrow> delivery_row list \<Rightarrow> delivery_row list" where
  "dead_deliveries now locked q t =
     sql_select (\<lambda>r. wd_status r = DDead \<and> is_dead_due now (next_attempt_at r) \<and> row_id r \<notin> set locked)
       due_key (dead_share_of (dc_limit q)) t"

definition due_deliveries :: "instant \<Rightarrow> ident list \<Rightarrow> delivery_claim \<Rightarrow> delivery_row list \<Rightarrow> delivery_row list" where
  "due_deliveries now locked q t =
     take (dc_limit q) (sort_key wd_created (live_deliveries now locked q t @ dead_deliveries now locked q t))"

definition delivery_claim_query ::
  "instant \<Rightarrow> ident list \<Rightarrow> delivery_claim \<Rightarrow> delivery_row list \<Rightarrow> delivery_row list \<times> delivery_row list" where
  "delivery_claim_query now locked q t =
     (let hit = (\<lambda>r. row_id r \<in> row_id ` set (due_deliveries now locked q t))
      in (sql_update hit (claimed_set now (dc_lease q)) t, sql_returning hit (claimed_set now (dc_lease q)) t))"

definition by_creation :: "delivery_row \<Rightarrow> instant \<times> ident" where
  "by_creation r = (wd_created r, row_id r)"

definition claim_deliveries ::
  "string option \<Rightarrow> instant \<Rightarrow> ident list \<Rightarrow> delivery_claim \<Rightarrow> webhook_db \<Rightarrow>
   webhook_db \<times> (delivery_row list, string) result" where
  "claim_deliveries db_error now locked q db =
     (if db_error \<noteq> None then (db, fail ''webhook delivery claim failed'')
      else (db\<lparr>wh_deliveries := fst (delivery_claim_query now locked q (wh_deliveries db))\<rparr>,
            ok (sort_key by_creation (snd (delivery_claim_query now locked q (wh_deliveries db))))))"

record delivery_failure =
  df_error :: string
  df_response :: "int option"
  df_dead :: bool
  df_retry :: "int option"

datatype delivery_settlement =
    DeliverySucceeded "int option"
  | DeliveryFailed delivery_failure
  | DeliveryReleased

fun delivery_changes :: "instant \<times> delivery_settlement \<Rightarrow> delivery_row \<Rightarrow> delivery_row" where
  "delivery_changes (now, DeliverySucceeded status) r =
     r\<lparr>wd_status := DSuccess, next_attempt_at := None, wd_last_error := None, wd_last_response := status\<rparr>"
| "delivery_changes (now, DeliveryFailed f) r =
     r\<lparr>wd_status := (if df_dead f then DDead else DFailed),
       next_attempt_at := map_option (seconds_from_now now) (df_retry f),
       wd_last_error := Some (df_error f), wd_last_response := df_response f\<rparr>"
| "delivery_changes (now, DeliveryReleased) r = released_set now r"

definition settle_name :: "delivery_settlement \<Rightarrow> string" where
  "settle_name s = (case s of DeliverySucceeded _ \<Rightarrow> ''markSuccess'' | DeliveryFailed _ \<Rightarrow> ''markFailed''
                            | DeliveryReleased \<Rightarrow> ''release'')"

definition settle_delivery ::
  "string option \<Rightarrow> instant \<Rightarrow> delivery_settlement \<Rightarrow> lease_key \<Rightarrow> webhook_db \<Rightarrow> webhook_db \<times> (bool, string) result" where
  "settle_delivery db_error now s lease db =
     (let hit = (\<lambda>r. leased_by r lease \<and> unsettled_delivery r)
      in if db_error \<noteq> None then (db, fail (''webhook delivery '' @ settle_name s @ '' failed''))
         else (db\<lparr>wh_deliveries := sql_update hit (delivery_changes (now, s)) (wh_deliveries db)\<rparr>,
               ok (list_ex hit (wh_deliveries db))))"

section \<open>Reading and adding deliveries\<close>

text \<open>\<open>INNER JOIN webhook_endpoint ... WHERE organization_id = org\<close>.\<close>

definition visible_to :: "string \<Rightarrow> webhook_db \<Rightarrow> delivery_row \<Rightarrow> bool" where
  "visible_to org db r \<longleftrightarrow> list_ex (own_endpoint (wd_endpoint r) org) (wh_endpoints db)"

record list_args =
  la_endpoint :: ident
  la_org :: string
  la_status :: "delivery_status option"
  la_limit :: "nat option"
  la_cursor :: "string option"

text \<open>\<open>parse_date\<close> is \<open>new Date(s)\<close>, \<open>None\<close> when it is \<open>NaN\<close>; the cursor of the next page is the date itself.\<close>

definition cursor_date :: "(string \<Rightarrow> instant option) \<Rightarrow> string option \<Rightarrow> instant option" where
  "cursor_date parse_date c = (case c of None \<Rightarrow> None | Some s \<Rightarrow> if s = [] then None else parse_date s)"

definition listed :: "(string \<Rightarrow> instant option) \<Rightarrow> list_args \<Rightarrow> webhook_db \<Rightarrow> delivery_row \<Rightarrow> bool" where
  "listed parse_date a db r \<longleftrightarrow>
     visible_to (la_org a) db r \<and> wd_endpoint r = la_endpoint a
   \<and> (case la_status a of None \<Rightarrow> True | Some s \<Rightarrow> wd_status r = s)
   \<and> (case cursor_date parse_date (la_cursor a) of None \<Rightarrow> True | Some t \<Rightarrow> wd_created r < t)"

definition list_deliveries ::
  "string option \<Rightarrow> (string \<Rightarrow> instant option) \<Rightarrow> list_args \<Rightarrow> webhook_db \<Rightarrow>
   (delivery_row list \<times> instant option, string) result" where
  "list_deliveries db_error parse_date a db =
     (if db_error \<noteq> None then fail ''webhook delivery list failed''
      else let limit = min (case la_limit a of None \<Rightarrow> 50 | Some n \<Rightarrow> n) 200;
               rows = sql_select (listed parse_date a db) (\<lambda>r. - wd_created r) (limit + 1) (wh_deliveries db);
               has_more = limit < length rows;
               items = (if has_more then take limit rows else rows)
           in ok (items, if has_more \<and> items \<noteq> [] then Some (wd_created (last items)) else None))"

definition find_delivery ::
  "string option \<Rightarrow> ident \<Rightarrow> string \<Rightarrow> webhook_db \<Rightarrow> (delivery_row option, string) result" where
  "find_delivery db_error i org db =
     (if db_error \<noteq> None then fail ''webhook delivery lookup failed''
      else ok (find (\<lambda>r. row_id r = i \<and> visible_to org db r) (wh_deliveries db)))"

definition find_with_attempts ::
  "string option \<Rightarrow> ident \<Rightarrow> ident \<Rightarrow> string \<Rightarrow> webhook_db \<Rightarrow>
   ((delivery_row \<times> attempt_row list) option, string) result" where
  "find_with_attempts db_error i endpoint org db =
     (if db_error \<noteq> None then fail ''webhook delivery lookup failed''
      else case find (\<lambda>r. row_id r = i \<and> wd_endpoint r = endpoint \<and> visible_to org db r) (wh_deliveries db) of
        None \<Rightarrow> ok None
      | Some r \<Rightarrow> ok (Some (r, sort_key wa_number (filter (\<lambda>a. wa_delivery a = i) (wh_attempts db)))))"

text \<open>One row inserted: refused when its id or key is taken, or when its endpoint is not there.\<close>

definition insert_delivery :: "delivery_row \<Rightarrow> webhook_db \<Rightarrow> webhook_db option" where
  "insert_delivery r db =
     (if row_id r \<in> row_id ` set (wh_deliveries db) \<or> wd_key r \<in> wd_key ` set (wh_deliveries db)
       \<or> wd_endpoint r \<notin> we_id ` set (wh_endpoints db)
      then None else Some (db\<lparr>wh_deliveries := wh_deliveries db @ [r]\<rparr>))"

definition pending_delivery ::
  "ident \<Rightarrow> ident \<Rightarrow> ident \<Rightarrow> string \<Rightarrow> json \<Rightarrow> instant option \<Rightarrow> string \<Rightarrow> instant \<Rightarrow> delivery_row" where
  "pending_delivery i endpoint event kind body next_at key now =
     \<lparr>row_id = i, attempts = 0, next_attempt_at = next_at, wd_endpoint = endpoint, wd_event = event, wd_type = kind,
      wd_payload = body, wd_status = DPending, wd_last_error = None, wd_last_response = None, wd_key = key,
      wd_created = now\<rparr>"

definition enqueue_replay ::
  "string option \<Rightarrow> instant \<Rightarrow> ident \<Rightarrow> ident \<Rightarrow> ident \<Rightarrow> ident \<Rightarrow> string \<Rightarrow> webhook_db \<Rightarrow>
   webhook_db \<times> (delivery_row option, string) result" where
  "enqueue_replay db_error now fresh fresh_key i endpoint org db =
     (if db_error \<noteq> None then (db, fail ''webhook delivery enqueueReplay failed'')
      else case find (\<lambda>r. row_id r = i \<and> wd_endpoint r = endpoint \<and> visible_to org db r) (wh_deliveries db) of
        None \<Rightarrow> (db, ok None)
      | Some r \<Rightarrow>
          (let new = pending_delivery fresh (wd_endpoint r) (wd_event r) (wd_type r) (wd_payload r) (Some now)
                       (''replay:'' @ fresh_key) now
           in case insert_delivery new db of
                None \<Rightarrow> (db, fail ''webhook delivery enqueueReplay failed'')
              | Some db' \<Rightarrow> (db', ok (Some new))))"

definition create_attempt ::
  "string option \<Rightarrow> instant \<Rightarrow> ident \<Rightarrow> ident \<Rightarrow> int \<Rightarrow> attempt_log \<Rightarrow> webhook_db \<Rightarrow>
   webhook_db \<times> (unit, string) result" where
  "create_attempt db_error now fresh delivery number entry db =
     (if db_error \<noteq> None \<or> delivery \<notin> row_id ` set (wh_deliveries db) \<or> fresh \<in> wa_id ` set (wh_attempts db)
      then (db, fail ''webhook delivery createAttempt failed'')
      else (db\<lparr>wh_attempts := wh_attempts db @
              [attempt_log.extend entry (attempt_row.fields fresh delivery number now)]\<rparr>, ok ()))"

definition enqueue_targeted ::
  "string option \<Rightarrow> instant \<Rightarrow> ident \<Rightarrow> ident \<Rightarrow> ident \<Rightarrow> string \<Rightarrow> json \<Rightarrow> string \<Rightarrow> webhook_db \<Rightarrow>
   webhook_db \<times> (delivery_row, string) result" where
  "enqueue_targeted db_error now fresh endpoint event kind body key db =
     (let new = pending_delivery fresh endpoint event kind body None key now
      in if db_error \<noteq> None then (db, fail ''webhook delivery enqueueTargeted failed'')
         else case insert_delivery new db of
           None \<Rightarrow> (db, fail ''webhook delivery enqueueTargeted failed'')
         | Some db' \<Rightarrow> (db', ok new))"

end
