(* ===== verification/Webhook_Fanout.thy ===== *)
theory Webhook_Fanout
  imports Webhook_Store Outbox_Relay
begin

text \<open>
  The built-in handler that turns an event of an organisation into one delivery per endpoint that
  subscribed to it: \<open>apps/api/src/shared/services/webhook-fanout-subscriber.ts\<close>.
\<close>

definition subscribed_endpoints :: "string \<Rightarrow> string \<Rightarrow> webhook_db \<Rightarrow> webhook_endpoint list" where
  "subscribed_endpoints org t db =
     filter (\<lambda>e. matches_subscription t (we_event_types e))
       (filter (\<lambda>e. we_org e = org \<and> we_enabled e) (wh_endpoints db))"

definition fanout_key :: "ident \<Rightarrow> ident \<Rightarrow> string" where
  "fanout_key event endpoint = event @ '':'' @ endpoint"

definition fanout_rows :: "instant \<Rightarrow> (nat \<Rightarrow> ident) \<Rightarrow> delivered_event \<Rightarrow> webhook_endpoint list \<Rightarrow> delivery_row list" where
  "fanout_rows now fresh ev es =
     map (\<lambda>(i, e). pending_delivery (fresh i) (we_id e) (de_id ev) (de_type ev) (de_payload ev) (Some now)
                     (fanout_key (de_id ev) (we_id e)) now) (enumerate 0 es)"

text \<open>
  The insert statement: a row whose key is taken is skipped; a new row whose id is taken aborts
  the statement.
\<close>

fun insert_unless_taken :: "delivery_row list \<Rightarrow> delivery_row list \<Rightarrow> delivery_row list option" where
  "insert_unless_taken [] t = Some t"
| "insert_unless_taken (r # rs) t =
     (if wd_key r \<in> wd_key ` set t then insert_unless_taken rs t
      else if row_id r \<in> row_id ` set t then None
      else insert_unless_taken rs (t @ [r]))"

definition fanout_handle ::
  "string option \<Rightarrow> string option \<Rightarrow> instant \<Rightarrow> (nat \<Rightarrow> ident) \<Rightarrow> delivered_event \<Rightarrow> webhook_db \<Rightarrow> webhook_db throws" where
  "fanout_handle db_error commit_error now fresh ev db =
     (case de_organization ev of
        None \<Rightarrow> Inr db
      | Some org \<Rightarrow>
          if org = [] \<or> \<not> is_known_event_type (de_type ev) \<or> \<not> is_public_event (de_type ev) then Inr db
          else case uow_run commit_error (\<lambda>db1.
                 (case db_error of
                    Some e \<Rightarrow> Inl e
                  | None \<Rightarrow>
                      (let es = subscribed_endpoints org (de_type ev) db1
                       in if es = [] then Inr (db1, ok ())
                          else case insert_unless_taken (fanout_rows now fresh ev es) (wh_deliveries db1) of
                            None \<Rightarrow> Inl ''duplicate key''
                          | Some t \<Rightarrow> Inr (db1\<lparr>wh_deliveries := t\<rparr>, ok ())))) db of
             (_, Inl e) \<Rightarrow> Inl e
           | (db', Inr _) \<Rightarrow> Inr db')"

section \<open>Which deliveries it adds\<close>

lemma insert_unless_taken_Some:
  "insert_unless_taken rs t = Some t' \<Longrightarrow>
     \<exists>new. t' = t @ new \<and> set new \<subseteq> set rs \<and> wd_key ` set t' = wd_key ` set t \<union> wd_key ` set rs
       \<and> (keyed row_id t \<longrightarrow> keyed row_id t') \<and> (keyed wd_key t \<longrightarrow> keyed wd_key t')"
proof (induction rs t arbitrary: t' rule: insert_unless_taken.induct)
  case (2 r rs t)
  show ?case
  proof (cases "wd_key r \<in> wd_key ` set t")
    case True
    then have "insert_unless_taken rs t = Some t'" using 2(3) by simp
    from 2(1) [OF True this] show ?thesis using True by auto
  next
    case False
    then have fresh: "row_id r \<notin> row_id ` set t" and rest: "insert_unless_taken rs (t @ [r]) = Some t'"
      using 2(3) by (auto split: if_splits)
    from 2(2) [OF False fresh rest] obtain new where
      new: "t' = (t @ [r]) @ new" "set new \<subseteq> set rs"
        "wd_key ` set t' = wd_key ` set (t @ [r]) \<union> wd_key ` set rs"
        "keyed row_id (t @ [r]) \<longrightarrow> keyed row_id t'" "keyed wd_key (t @ [r]) \<longrightarrow> keyed wd_key t'"
      by blast
    have "keyed row_id t \<longrightarrow> keyed row_id (t @ [r])" "keyed wd_key t \<longrightarrow> keyed wd_key (t @ [r])"
      using fresh False by (auto simp: keyed_def)
    then show ?thesis using new by (intro exI [of _ "r # new"]) auto
  qed
qed simp

lemma insert_unless_taken_again:
  "wd_key ` set rs \<subseteq> wd_key ` set t \<Longrightarrow> insert_unless_taken rs t = Some t"
  by (induction rs) auto

lemma fanout_rows_endpoint:
  "r \<in> set (fanout_rows now fresh ev es) \<Longrightarrow>
     \<exists>i e. e \<in> set es \<and> i < length es \<and>
       r = pending_delivery (fresh i) (we_id e) (de_id ev) (de_type ev) (de_payload ev) (Some now)
             (fanout_key (de_id ev) (we_id e)) now"
  by (auto simp: fanout_rows_def in_set_enumerate_eq) (metis nth_mem)

lemma fanout_rows_keys:
  "wd_key ` set (fanout_rows now fresh ev es) = (\<lambda>e. fanout_key (de_id ev) (we_id e)) ` set es"
proof -
  have "map wd_key (fanout_rows now fresh ev es) = map (\<lambda>e. fanout_key (de_id ev) (we_id e)) es"
    by (rule nth_equalityI) (simp_all add: fanout_rows_def nth_enumerate_eq pending_delivery_def)
  then show ?thesis by (metis set_map)
qed

lemma fanout_cases:
  assumes "fanout_handle db_error commit_error now fresh ev db = Inr db'"
  shows "db' = db \<and> (\<forall>org. de_organization ev = Some org \<longrightarrow> org \<noteq> [] \<longrightarrow>
              is_known_event_type (de_type ev) \<longrightarrow> is_public_event (de_type ev) \<longrightarrow>
              subscribed_endpoints org (de_type ev) db = [])
    \<or> (\<exists>org t. de_organization ev = Some org \<and> org \<noteq> [] \<and> is_public_event (de_type ev)
        \<and> insert_unless_taken (fanout_rows now fresh ev (subscribed_endpoints org (de_type ev) db)) (wh_deliveries db) = Some t
        \<and> db' = db\<lparr>wh_deliveries := t\<rparr>)"
proof (cases "de_organization ev")
  case (Some org)
  show ?thesis
  proof (cases "org = [] \<or> \<not> is_known_event_type (de_type ev) \<or> \<not> is_public_event (de_type ev)")
    case True
    then show ?thesis using assms Some by (auto simp: fanout_handle_def)
  next
    case False
    then show ?thesis using assms Some
      by (auto simp: fanout_handle_def uow_run_def Let_def split: option.splits if_splits sum.splits)
  qed
qed (use assms in \<open>simp add: fanout_handle_def\<close>)

lemma fanout_key_inj: "fanout_key e i = fanout_key e j \<longleftrightarrow> i = j"
  by (simp add: fanout_key_def)

lemma keyed_once: "keyed f t \<Longrightarrow> x \<in> f ` set t \<Longrightarrow> length (filter (\<lambda>r. f r = x) t) = 1"
proof (induction t)
  case (Cons a t)
  then show ?case by (cases "f a = x") (auto simp: keyed_def filter_empty_conv rev_image_eqI)
qed simp

text \<open>
  C11: a public event that has an organisation reaches exactly the endpoints it is for. The deliveries
  the handler adds are pending, carry the event's payload, and are each of an enabled endpoint of the
  event's own organisation that selected its type; every such endpoint has, afterwards, exactly one
  delivery under the key of the event and the endpoint; endpoints, attempts and the deliveries there
  before are untouched; and handling the event again, as a retry of the relay does, adds nothing.
\<close>
theorem fanout_exact:
  assumes "fanout_handle db_error commit_error now fresh ev db = Inr db'"
    and "de_organization ev = Some org" and "org \<noteq> []"
    and "is_known_event_type (de_type ev)" and "is_public_event (de_type ev)"
    and "keyed wd_key (wh_deliveries db)"
  shows "(\<exists>new. wh_deliveries db' = wh_deliveries db @ new \<and> (\<forall>r \<in> set new.
            \<exists>e \<in> set (wh_endpoints db). wd_endpoint r = we_id e \<and> we_org e = org \<and> we_enabled e
              \<and> matches_subscription (de_type ev) (we_event_types e) \<and> wd_key r = fanout_key (de_id ev) (we_id e)
              \<and> wd_event r = de_id ev \<and> wd_type r = de_type ev \<and> wd_payload r = de_payload ev \<and> wd_status r = DPending))
    \<and> (\<forall>e \<in> set (wh_endpoints db). we_org e = org \<longrightarrow> we_enabled e \<longrightarrow>
            matches_subscription (de_type ev) (we_event_types e) \<longrightarrow>
            length (filter (\<lambda>r. wd_key r = fanout_key (de_id ev) (we_id e)) (wh_deliveries db')) = 1)
    \<and> wh_endpoints db' = wh_endpoints db \<and> wh_attempts db' = wh_attempts db
    \<and> fanout_handle None None now2 fresh2 ev db' = Inr db'"
proof -
  let ?es = "subscribed_endpoints org (de_type ev) db"
  obtain t where t: "insert_unless_taken (fanout_rows now fresh ev ?es) (wh_deliveries db) = Some t"
    "db' = db\<lparr>wh_deliveries := t\<rparr>"
  proof (cases "?es = []")
    case True
    then have "db' = db" "fanout_rows now fresh ev ?es = []"
      using fanout_cases [OF assms(1)] assms(2) by (auto simp: fanout_rows_def)
    then show ?thesis using that [of "wh_deliveries db"] by simp
  next
    case False
    then show ?thesis using fanout_cases [OF assms(1)] assms(2-5) that by auto
  qed
  obtain new where new: "t = wh_deliveries db @ new" "set new \<subseteq> set (fanout_rows now fresh ev ?es)"
    "wd_key ` set t = wd_key ` set (wh_deliveries db) \<union> wd_key ` set (fanout_rows now fresh ev ?es)" "keyed wd_key t"
    using insert_unless_taken_Some [OF t(1)] assms(6) by blast
  have "\<exists>e \<in> set (wh_endpoints db). wd_endpoint r = we_id e \<and> we_org e = org \<and> we_enabled e
      \<and> matches_subscription (de_type ev) (we_event_types e) \<and> wd_key r = fanout_key (de_id ev) (we_id e)
      \<and> wd_event r = de_id ev \<and> wd_type r = de_type ev \<and> wd_payload r = de_payload ev \<and> wd_status r = DPending" if "r \<in> set new" for r
    using fanout_rows_endpoint [of r now fresh ev ?es] new(2) that
    by (force simp: subscribed_endpoints_def pending_delivery_def)
  then have "\<exists>new. wh_deliveries db' = wh_deliveries db @ new \<and> (\<forall>r \<in> set new.
            \<exists>e \<in> set (wh_endpoints db). wd_endpoint r = we_id e \<and> we_org e = org \<and> we_enabled e
              \<and> matches_subscription (de_type ev) (we_event_types e) \<and> wd_key r = fanout_key (de_id ev) (we_id e)
              \<and> wd_event r = de_id ev \<and> wd_type r = de_type ev \<and> wd_payload r = de_payload ev \<and> wd_status r = DPending)"
    using new(1) by (intro exI [of _ new]) (simp add: t(2))
  moreover have "subscribed_endpoints org (de_type ev) db' = ?es"
    by (simp add: subscribed_endpoints_def t(2))
  then have "fanout_handle None None now2 fresh2 ev db' = Inr db'"
    using insert_unless_taken_again [of "fanout_rows now2 fresh2 ev ?es" t] assms(2-5) new(3)
    by (auto simp: fanout_handle_def uow_run_def t(2) fanout_rows_keys Let_def)
  moreover have "length (filter (\<lambda>r. wd_key r = fanout_key (de_id ev) (we_id e)) (wh_deliveries db')) = 1" if "e \<in> set ?es" for e
  proof -
    have "fanout_key (de_id ev) (we_id e) \<in> wd_key ` set t" using that by (simp add: new(3) fanout_rows_keys)
    then show ?thesis using keyed_once [OF new(4)] by (simp add: t(2))
  qed
  then have "\<forall>e \<in> set (wh_endpoints db). we_org e = org \<longrightarrow> we_enabled e \<longrightarrow>
            matches_subscription (de_type ev) (we_event_types e) \<longrightarrow>
            length (filter (\<lambda>r. wd_key r = fanout_key (de_id ev) (we_id e)) (wh_deliveries db')) = 1"
    by (simp add: subscribed_endpoints_def)
  ultimately show ?thesis by (simp only: t(2) simp_thms) simp
qed

theorem fanout_exact_witness:
  "length (filter (\<lambda>r. wd_key r = fanout_key ''ev'' ''h1'') (wh_deliveries
     \<lparr>wh_endpoints = [new_endpoint 1 \<lparr>ce_id = ''h1'', ce_org = ''o'', ce_url = ''https://x'', ce_secret = ''s'',
        ce_event_types = [''*''], ce_enabled = True\<rparr>],
      wh_deliveries = [pending_delivery ''d1'' ''h1'' ''ev'' ''user.created'' JNull (Some 5) ''ev:h1'' 5],
      wh_attempts = []\<rparr>)) = 1"
proof -
  let ?e = "new_endpoint 1 \<lparr>ce_id = ''h1'', ce_org = ''o'', ce_url = ''https://x'', ce_secret = ''s'',
        ce_event_types = [''*''], ce_enabled = True\<rparr>"
  let ?ev = "\<lparr>de_id = ''ev'', de_type = ''user.created'', de_aggregate = ''u'', de_aggregate_type = ''user'',
    de_organization = Some ''o'', de_request = None, de_date = 1, de_payload = JNull\<rparr>"
  let ?db = "\<lparr>wh_endpoints = [?e], wh_deliveries = [], wh_attempts = []\<rparr>"
  let ?db' = "?db\<lparr>wh_deliveries := [pending_delivery ''d1'' ''h1'' ''ev'' ''user.created'' JNull (Some 5) ''ev:h1'' 5]\<rparr>"
  have pub: "is_public_event ''user.created''" "is_known_event_type ''user.created''"
    "matches_subscription ''user.created'' [''*'']" by code_simp+
  have run: "fanout_handle None None 5 (\<lambda>_. ''d1'') ?ev ?db = Inr ?db'"
    using pub by (simp add: fanout_handle_def uow_run_def subscribed_endpoints_def fanout_rows_def
        new_endpoint_def fanout_key_def pending_delivery_def Let_def)
  show ?thesis
    using fanout_exact [OF run, of "''o''" 6 "\<lambda>_. ''d2''"] pub by (simp add: new_endpoint_def keyed_def)
qed

end
