(* ===== verification/Webhook_Protocol.thy ===== *)
theory Webhook_Protocol
  imports Webhook_Fanout
begin

text \<open>
  The webhook deliveries are a leased queue: claims, settlements, the fan-out of events, replays,
  test deliveries and the removal of endpoints interleave in any order, and a delivery that
  succeeded or was given up for good is never touched again.
\<close>

section \<open>The interpretation\<close>

type_synonym delivery_work = "instant \<times> ident list \<times> delivery_claim"

definition delivery_due :: "delivery_work \<Rightarrow> delivery_row list \<Rightarrow> delivery_row \<Rightarrow> bool" where
  "delivery_due w t r = (case w of (now, locked, q) \<Rightarrow> row_id r \<in> row_id ` set (due_deliveries now locked q t))"

definition delivery_claimed :: "delivery_work \<Rightarrow> delivery_row \<Rightarrow> delivery_row" where
  "delivery_claimed w r = (case w of (now, locked, q) \<Rightarrow> claimed_set now (dc_lease q) r)"

definition delivery_gives_back :: "instant \<times> delivery_settlement \<Rightarrow> bool" where
  "delivery_gives_back c \<longleftrightarrow> snd c = DeliveryReleased"

lemma delivery_changes_lease:
  "row_id (delivery_changes c r) = row_id r"
  "attempts (delivery_changes c r) = (if delivery_gives_back c then attempts r - 1 else attempts r)"
  by (cases c; cases "snd c"; auto simp: delivery_gives_back_def)+

lemma due_deliveries_due:
  assumes "r \<in> set (due_deliveries now locked q t)"
  shows "r \<in> set t \<and> row_id r \<notin> set locked
    \<and> (wd_status r \<in> {DPending, DFailed} \<and> is_due now (next_attempt_at r)
       \<or> wd_status r = DDead \<and> is_dead_due now (next_attempt_at r))"
proof -
  have "r \<in> set (live_deliveries now locked q t) \<or> r \<in> set (dead_deliveries now locked q t)"
    using in_set_takeD [OF assms [unfolded due_deliveries_def]] by simp
  then show ?thesis
    unfolding live_deliveries_def dead_deliveries_def using set_sql_select by fast
qed

lemma due_deliveries_of_keyed:
  assumes "keyed row_id t" "r \<in> set t" "delivery_due (now, locked, q) t r"
  shows "r \<in> set (due_deliveries now locked q t)"
proof -
  obtain d where d: "d \<in> set (due_deliveries now locked q t)" "row_id d = row_id r"
    using assms(3) by (auto simp: delivery_due_def)
  then have "d = r" using keyed_unique [OF assms(1)] due_deliveries_due [OF d(1)] assms(2) by blast
  then show ?thesis using d by simp
qed

text \<open>
  A claim goes by id, so a row it hits is due as long as ids are unique; the contract is stated for
  the rows that are due themselves, the hit test of a keyed table being the same.
\<close>

definition delivery_ripe :: "delivery_work \<Rightarrow> delivery_row list \<Rightarrow> delivery_row \<Rightarrow> bool" where
  "delivery_ripe w t r = (case w of (now, locked, q) \<Rightarrow> r \<in> set (due_deliveries now locked q t))"

interpretation hook: lease_table unsettled_delivery delivery_ripe delivery_claimed delivery_changes delivery_gives_back
proof (unfold_locales, goal_cases)
  case (1 r t w)
  obtain now locked q where w: "w = (now, locked, q)" by (cases w)
  have "wd_status r \<noteq> DSuccess"
    using 1 due_deliveries_due [of r now locked q t] by (auto simp: w delivery_ripe_def)
  then show ?case by (cases "wd_status r") (simp_all add: w delivery_claimed_def unsettled_delivery_def claimed_set_def)
next
  case (2 w r)
  then show ?case by (cases w) (simp add: delivery_claimed_def)
next
  case (3 w r)
  then show ?case by (cases w) (simp add: delivery_claimed_def)
qed (simp_all add: delivery_changes_lease)

text \<open>The statements of the repository are those of the contract.\<close>

lemma claim_deliveries_table:
  assumes "keyed row_id (wh_deliveries db)" and "claim_deliveries None now locked q db = (db', Inr rs)"
  shows "wh_deliveries db' = fst (table_claim delivery_ripe delivery_claimed (now, locked, q) (wh_deliveries db))"
    and "mset (map lease_of rs) = mset (snd (table_claim delivery_ripe delivery_claimed (now, locked, q) (wh_deliveries db)))"
    and "wh_endpoints db' = wh_endpoints db" and "wh_attempts db' = wh_attempts db"
proof -
  let ?t = "wh_deliveries db"
  have same: "r \<in> set ?t \<Longrightarrow> delivery_due (now, locked, q) ?t r = delivery_ripe (now, locked, q) ?t r" for r
    using due_deliveries_of_keyed [OF assms(1), of r now locked q] by (auto simp: delivery_ripe_def delivery_due_def)
  have filt: "filter (delivery_due (now, locked, q) ?t) ?t = filter (delivery_ripe (now, locked, q) ?t) ?t"
    using same by (rule filter_cong [OF refl])
  have hit: "(\<lambda>r. row_id r \<in> row_id ` set (due_deliveries now locked q ?t)) = delivery_due (now, locked, q) ?t"
    by (simp add: fun_eq_iff delivery_due_def)
  have claimed: "delivery_claimed (now, locked, q) = claimed_set now (dc_lease q)"
    by (simp add: fun_eq_iff delivery_claimed_def)
  have eq: "db' = db\<lparr>wh_deliveries := fst (delivery_claim_query now locked q ?t)\<rparr>"
    "rs = sort_key by_creation (snd (delivery_claim_query now locked q ?t))"
    using assms(2) by (auto simp: claim_deliveries_def)
  show "wh_deliveries db' = fst (table_claim delivery_ripe delivery_claimed (now, locked, q) ?t)"
    using same by (auto simp: eq delivery_claim_query_def Let_def hit table_claim_def claimed sql_update_def)
  show "mset (map lease_of rs) = mset (snd (table_claim delivery_ripe delivery_claimed (now, locked, q) ?t))"
    by (simp add: eq delivery_claim_query_def Let_def hit table_claim_def claimed sql_returning_def filt
        multiset.map_comp)
  show "wh_endpoints db' = wh_endpoints db" "wh_attempts db' = wh_attempts db" by (simp_all add: eq)
qed

lemma settle_delivery_table:
  assumes "settle_delivery None now s l db = (db', res)"
  shows "wh_deliveries db' = table_settle_all unsettled_delivery delivery_changes (now, s) [l] (wh_deliveries db)"
    and "res = Inr (snd (table_settle unsettled_delivery delivery_changes (now, s) l (wh_deliveries db)))"
    and "wh_endpoints db' = wh_endpoints db" and "wh_attempts db' = wh_attempts db"
proof -
  have "(\<lambda>r. leased_by r l \<and> unsettled_delivery r) = leased_any unsettled_delivery [l]"
    by (simp add: fun_eq_iff leased_any_def)
  then show "wh_deliveries db' = table_settle_all unsettled_delivery delivery_changes (now, s) [l] (wh_deliveries db)"
    "res = Inr (snd (table_settle unsettled_delivery delivery_changes (now, s) l (wh_deliveries db)))"
    "wh_endpoints db' = wh_endpoints db" "wh_attempts db' = wh_attempts db"
    using assms by (auto simp: settle_delivery_def Let_def table_settle_all_def table_settle_def)
qed

section \<open>Interleavings\<close>

text \<open>
  A configuration: the tables, the leases out, and the ids deliveries ever had (a fresh id, a
  \<open>uuidv7\<close>, is one of no delivery before).
\<close>

type_synonym delivery_conf = "webhook_db \<times> lease_key list \<times> ident set"

inductive delivery_step :: "delivery_conf \<Rightarrow> delivery_conf \<Rightarrow> bool" where
  deliveries_claimed: "claim_deliveries None now locked q db = (db', Inr rs) \<Longrightarrow>
     delivery_step (db, out, known) (db', map lease_of rs @ out, known)"
| delivery_settled: "l \<in> set out \<Longrightarrow> settle_delivery None now s l db = (db', res) \<Longrightarrow>
     delivery_step (db, out, known) (db', removeAll l out, known)"
| fanned_out: "fanout_handle db_error commit_error now fresh ev db = Inr db' \<Longrightarrow> (\<forall>i. fresh i \<notin> known) \<Longrightarrow>
     delivery_step (db, out, known) (db', out, known \<union> row_id ` set (wh_deliveries db'))"
| replayed: "enqueue_replay db_error now fresh fresh_key i endpoint org db = (db', res) \<Longrightarrow> fresh \<notin> known \<Longrightarrow>
     delivery_step (db, out, known) (db', out, known \<union> row_id ` set (wh_deliveries db'))"
| targeted: "enqueue_targeted db_error now fresh endpoint event kind body key db = (db', res) \<Longrightarrow> fresh \<notin> known \<Longrightarrow>
     delivery_step (db, out, known) (db', out, known \<union> row_id ` set (wh_deliveries db'))"
| endpoint_removed: "endpoint_delete db_error endpoint org db = (db', res) \<Longrightarrow>
     delivery_step (db, out, known) (db', out, known)"
| others_written: "wh_deliveries db' = wh_deliveries db \<Longrightarrow> delivery_step (db, out, known) (db', out, known)"
| holders_lost: "delivery_step (db, out, known) (db, filter survives out, known)"

definition delivery_inv :: "delivery_conf \<Rightarrow> bool" where
  "delivery_inv conf \<longleftrightarrow> (case conf of (db, out, known) \<Rightarrow>
     keyed row_id (wh_deliveries db) \<and> lease_inv table_attempt (wh_deliveries db) out
   \<and> row_id ` set (wh_deliveries db) \<union> fst ` set out \<subseteq> known)"

definition delivery_reach :: "delivery_conf \<Rightarrow> bool" where
  "delivery_reach conf \<longleftrightarrow>
     (\<exists>db. keyed row_id (wh_deliveries db)
        \<and> delivery_step\<^sup>*\<^sup>* (db, [], row_id ` set (wh_deliveries db)) conf)"

text \<open>What the additions have in common: new rows with ids never used, at the end of the table.\<close>

definition adds_deliveries :: "ident set \<Rightarrow> webhook_db \<Rightarrow> webhook_db \<Rightarrow> bool" where
  "adds_deliveries known db db' \<longleftrightarrow>
     (\<exists>new. wh_deliveries db' = wh_deliveries db @ new \<and> row_id ` set new \<inter> known = {}
        \<and> (keyed row_id (wh_deliveries db) \<longrightarrow> keyed row_id (wh_deliveries db')))"

lemma adds_nothing: "wh_deliveries db' = wh_deliveries db \<Longrightarrow> adds_deliveries known db db'"
  by (auto simp: adds_deliveries_def intro!: exI [of _ "[]"])

lemma insert_delivery_adds:
  "insert_delivery r db = Some db' \<Longrightarrow> row_id r \<notin> known \<Longrightarrow> adds_deliveries known db db'"
  by (auto simp: insert_delivery_def adds_deliveries_def keyed_def split: if_splits intro!: exI [of _ "[r]"])

lemma replay_adds:
  "enqueue_replay e now fresh fresh_key i endpoint org db = (db', res) \<Longrightarrow> fresh \<notin> known \<Longrightarrow> adds_deliveries known db db'"
  using insert_delivery_adds [of _ db db' known]
  by (fastforce simp: enqueue_replay_def Let_def pending_delivery_def adds_nothing split: if_splits option.splits)

lemma targeted_adds:
  "enqueue_targeted e now fresh endpoint event kind body key db = (db', res) \<Longrightarrow> fresh \<notin> known \<Longrightarrow>
     adds_deliveries known db db'"
  using insert_delivery_adds [of _ db db' known]
  by (fastforce simp: enqueue_targeted_def Let_def pending_delivery_def adds_nothing split: if_splits option.splits)

lemma fanout_adds:
  assumes "fanout_handle e ce now fresh ev db = Inr db'" and "\<forall>i. fresh i \<notin> known"
  shows "adds_deliveries known db db'"
  using fanout_cases [OF assms(1)]
proof (elim disjE exE conjE)
  assume "db' = db"
  then show ?thesis by (simp add: adds_nothing)
next
  fix org t
  assume t: "insert_unless_taken (fanout_rows now fresh ev (subscribed_endpoints org (de_type ev) db)) (wh_deliveries db) = Some t"
    and db': "db' = db\<lparr>wh_deliveries := t\<rparr>"
  obtain new where new: "t = wh_deliveries db @ new"
    "set new \<subseteq> set (fanout_rows now fresh ev (subscribed_endpoints org (de_type ev) db))"
    "keyed row_id (wh_deliveries db) \<longrightarrow> keyed row_id t"
    using insert_unless_taken_Some [OF t] by blast
  have "row_id r \<notin> known" if "r \<in> set new" for r
    using fanout_rows_endpoint [of r now fresh ev] new(2) that assms(2) by (force simp: pending_delivery_def)
  then show ?thesis using new unfolding adds_deliveries_def db' by (intro exI [of _ new]) auto
qed

lemma adds_inv:
  assumes "adds_deliveries known db db'" and "delivery_inv (db, out, known)"
  shows "delivery_inv (db', out, known \<union> row_id ` set (wh_deliveries db'))"
proof -
  obtain new where new: "wh_deliveries db' = wh_deliveries db @ new" "row_id ` set new \<inter> known = {}"
    "keyed row_id (wh_deliveries db')"
    using assms by (auto simp: adds_deliveries_def delivery_inv_def)
  have wf: "keyed row_id (wh_deliveries db)" "lease_inv table_attempt (wh_deliveries db) out" "fst ` set out \<subseteq> known"
    using assms(2) by (auto simp: delivery_inv_def)
  have "table_attempt (wh_deliveries db') k = table_attempt (wh_deliveries db) k" if "(k, a) \<in> set out" for k a
  proof -
    have "k \<in> known" using that wf(3) by force
    then have "k \<notin> row_id ` set new" using new(2) by blast
    then show ?thesis unfolding table_attempt_def new(1) using row_of_append by metis
  qed
  then have "lease_inv table_attempt (wh_deliveries db') out" using wf(2) by (rule lease_inv_cong)
  then show ?thesis using wf new by (auto simp: delivery_inv_def)
qed

lemma deleted_attempt:
  assumes "keyed row_id t" "table_attempt (sql_delete p t) k = Some n"
  shows "table_attempt t k = Some n"
  using assms table_attempt_iff [OF keyed_sql_delete [OF assms(1)]] table_attempt_iff [OF assms(1)]
  by (auto simp: set_sql_delete)

lemma endpoint_delete_rows:
  assumes "endpoint_delete e i org db = (db', res)"
  shows "\<exists>p. wh_deliveries db' = sql_delete p (wh_deliveries db)"
proof (cases e)
  case (Some m)
  then have "wh_deliveries db' = sql_delete (\<lambda>_. False) (wh_deliveries db)"
    using assms by (simp add: endpoint_delete_def sql_delete_def)
  then show ?thesis by blast
next
  case None
  then show ?thesis using assms by (auto simp: endpoint_delete_def Let_def)
qed

lemma delivery_step_inv:
  assumes "delivery_step conf conf'" and "delivery_inv conf"
  shows "delivery_inv conf'"
  using assms
proof (induction rule: delivery_step.induct)
  case (deliveries_claimed now locked q db db' rs out known)
  have wf: "keyed row_id (wh_deliveries db)" using deliveries_claimed.prems by (simp add: delivery_inv_def)
  let ?c = "table_claim delivery_ripe delivery_claimed (now, locked, q) (wh_deliveries db)"
  note c = claim_deliveries_table [OF wf deliveries_claimed.hyps]
  have "mset (map lease_of rs @ out) = mset (snd ?c @ out)" using c(2) by simp
  then have "lease_inv table_attempt (fst ?c) (map lease_of rs @ out) = lease_inv table_attempt (fst ?c) (snd ?c @ out)"
    by (rule lease_inv_mset)
  moreover have "lease_inv table_attempt (fst ?c) (snd ?c @ out)"
    using hook.claim_keeps_inv [OF wf] deliveries_claimed.prems by (simp add: delivery_inv_def)
  ultimately have "lease_inv table_attempt (wh_deliveries db') (map lease_of rs @ out)"
    unfolding c(1) by (simp only:)
  moreover have "map row_id (wh_deliveries db') = map row_id (wh_deliveries db)" by (simp add: c(1) hook.ids_claim)
  then have "row_id ` set (wh_deliveries db') = row_id ` set (wh_deliveries db)" by (metis set_map)
  moreover have "fst ` set (map lease_of rs @ out) \<subseteq> known"
  proof -
    have "set (map lease_of rs) = set (snd ?c)" using c(2) by (metis set_mset_mset)
    then have "fst ` set (map lease_of rs) \<subseteq> row_id ` set (wh_deliveries db)"
      using hook.granted_iff [of _ _ "(now, locked, q)" "wh_deliveries db"] by (force simp del: set_map)
    then show ?thesis using deliveries_claimed.prems unfolding delivery_inv_def set_append image_Un by auto
  qed
  moreover have "keyed row_id (wh_deliveries db')" using hook.claim_wf [OF wf] c(1) by simp
  ultimately show ?case using deliveries_claimed.prems unfolding delivery_inv_def by (simp del: set_append set_map)
next
  case (delivery_settled l out now s db db' res known)
  have wf: "keyed row_id (wh_deliveries db)" "lease_inv table_attempt (wh_deliveries db) out"
    using delivery_settled.prems by (simp_all add: delivery_inv_def)
  note s = settle_delivery_table(1) [OF delivery_settled.hyps(2)]
  have "lease_inv table_attempt (wh_deliveries db') (removeAll l out)"
    using hook.settle_keeps_inv [OF wf delivery_settled.hyps(1), of "(now, s)"] by (simp add: s table_settle_def)
  moreover have "map row_id (wh_deliveries db') = map row_id (wh_deliveries db)" by (simp add: s hook.ids_settle_all)
  then have "row_id ` set (wh_deliveries db') = row_id ` set (wh_deliveries db)"
    "keyed row_id (wh_deliveries db')" using wf(1) by (metis set_map, simp add: keyed_def)
  ultimately show ?case using delivery_settled.prems by (auto simp: delivery_inv_def)
next
  case (fanned_out e ce now fresh ev db db' known out)
  show ?case using adds_inv [OF fanout_adds [OF fanned_out.hyps] fanned_out.prems] .
next
  case (replayed e now fresh fresh_key i endpoint org db db' res known out)
  show ?case using adds_inv [OF replay_adds [OF replayed.hyps] replayed.prems] .
next
  case (targeted e now fresh endpoint event kind body key db db' res known out)
  show ?case using adds_inv [OF targeted_adds [OF targeted.hyps] targeted.prems] .
next
  case (endpoint_removed e endpoint org db db' res out known)
  obtain p where p: "wh_deliveries db' = sql_delete p (wh_deliveries db)"
    using endpoint_delete_rows [OF endpoint_removed.hyps] by blast
  have wf: "keyed row_id (wh_deliveries db)" using endpoint_removed.prems by (simp add: delivery_inv_def)
  then show ?case
    using endpoint_removed.prems deleted_attempt [OF wf, of p]
    by (auto simp: delivery_inv_def p keyed_sql_delete set_sql_delete lease_inv_def)
next
  case (others_written db' db out known)
  then show ?case by (simp add: delivery_inv_def)
next
  case (holders_lost db out known survives)
  then show ?case using hook.drop_keeps_inv [of "wh_deliveries db" out survives] by (auto simp: delivery_inv_def)
qed

lemma delivery_reach_inv:
  assumes "delivery_reach conf"
  shows "delivery_inv conf"
proof -
  obtain db where db: "keyed row_id (wh_deliveries db)"
    "delivery_step\<^sup>*\<^sup>* (db, [], row_id ` set (wh_deliveries db)) conf"
    using assms by (auto simp: delivery_reach_def)
  have "delivery_inv (db, [], row_id ` set (wh_deliveries db))"
    using db(1) by (simp add: delivery_inv_def lease_inv_def)
  with db(2) show ?thesis by (induction rule: rtranclp_induct) (simp_all add: delivery_step_inv)
qed

section \<open>What no interleaving breaks\<close>

text \<open>
  Of the leases out for one delivery at most one can still write its outcome, in every
  reachable configuration, endpoints removed and deliveries replayed included: a delivery two
  workers believe they hold is settled by one of them at most.
\<close>
theorem webhook_fencing:
  assumes "delivery_reach (db, out, known)"
  shows "distinct out \<and> card {l \<in> set out. fst l = k \<and> snd (settle_delivery None now s l db) = Inr True} \<le> 1"
proof -
  let ?t = "wh_deliveries db"
  have inv: "keyed row_id ?t" "lease_inv table_attempt ?t out"
    using delivery_reach_inv [OF assms] by (simp_all add: delivery_inv_def)
  have writes: "snd (settle_delivery None now s l db) = Inr True \<longleftrightarrow>
      snd (table_settle unsettled_delivery delivery_changes (now, s) l ?t)" for l
    using settle_delivery_table(2) [of now s l db] by (cases "settle_delivery None now s l db") simp
  have "x = y" if "x \<in> {l \<in> set out. fst l = k \<and> snd (settle_delivery None now s l db) = Inr True}"
    "y \<in> {l \<in> set out. fst l = k \<and> snd (settle_delivery None now s l db) = Inr True}" for x y
    using that hook.one_effective [OF inv, of k "snd x" "snd y" "(now, s)" "(now, s)"] unfolding writes
    by (cases x; cases y) auto
  then have "card {l \<in> set out. fst l = k \<and> snd (settle_delivery None now s l db) = Inr True} \<le> 1"
    by (auto simp: card_le_Suc0_iff_eq)
  then show ?thesis using inv by (simp add: lease_inv_def)
qed

text \<open>A delivery that succeeded, or was given up without a time to retry.\<close>

definition final_delivery :: "delivery_row \<Rightarrow> bool" where
  "final_delivery r \<longleftrightarrow> wd_status r = DSuccess \<or> wd_status r = DDead \<and> next_attempt_at r = None"

definition stays :: "delivery_row \<Rightarrow> delivery_conf \<Rightarrow> bool" where
  "stays r conf \<longleftrightarrow> (case conf of (db, out, known) \<Rightarrow>
     row_id r \<in> known \<and> (\<forall>x \<in> set (wh_deliveries db). row_id x = row_id r \<longrightarrow> x = r))"

lemma final_not_due: "final_delivery r \<Longrightarrow> r \<notin> set (due_deliveries now locked q t)"
  using due_deliveries_due [of r now locked q t] by (auto simp: final_delivery_def is_dead_due_def)

lemma adds_stays:
  assumes "adds_deliveries known db db'" and "stays r (db, out, known)"
  shows "stays r (db', out, known \<union> row_id ` set (wh_deliveries db'))"
proof -
  obtain new where new: "wh_deliveries db' = wh_deliveries db @ new" "row_id ` set new \<inter> known = {}"
    using assms(1) by (auto simp: adds_deliveries_def)
  have "row_id x \<noteq> row_id r" if "x \<in> set new" for x using that new(2) assms(2) by (auto simp: stays_def)
  then show ?thesis using assms(2) by (auto simp: stays_def new(1))
qed

lemma step_stays:
  assumes "delivery_step conf conf'" and "stays r conf" and fin: "final_delivery r"
  shows "stays r conf'"
  using assms(1,2)
proof (induction rule: delivery_step.induct)
  case (deliveries_claimed now locked q db db' rs out known)
  let ?due = "due_deliveries now locked q (wh_deliveries db)"
  have "row_id r \<notin> row_id ` set ?due"
  proof
    assume "row_id r \<in> row_id ` set ?due"
    then obtain d where d: "d \<in> set ?due" "row_id d = row_id r" by auto
    then have "d = r" using due_deliveries_due [OF d(1)] deliveries_claimed.prems by (auto simp: stays_def)
    then show False using d(1) final_not_due [OF fin] by blast
  qed
  moreover have "wh_deliveries db' = sql_update (\<lambda>x. row_id x \<in> row_id ` set ?due) (claimed_set now (dc_lease q)) (wh_deliveries db)"
    using deliveries_claimed.hyps by (auto simp: claim_deliveries_def delivery_claim_query_def Let_def)
  ultimately have "x \<in> set (wh_deliveries db)" if "x \<in> set (wh_deliveries db')" "row_id x = row_id r" for x
    using that update_keeps [where key = row_id, of x] by auto
  then show ?case using deliveries_claimed.prems by (auto simp: stays_def)
next
  case (delivery_settled l out now s db db' res known)
  have "\<not> unsettled_delivery r" using fin by (auto simp: final_delivery_def unsettled_delivery_def)
  have eq: "wh_deliveries db' = sql_update (\<lambda>x. leased_by x l \<and> unsettled_delivery x)
      (delivery_changes (now, s)) (wh_deliveries db)"
    using delivery_settled.hyps by (auto simp: settle_delivery_def Let_def)
  have "x \<in> set (wh_deliveries db)" if "x \<in> set (wh_deliveries db')" "row_id x = row_id r" for x
    using that(1) unfolding eq
    by (rule update_keeps [where key = row_id])
       (use delivery_settled.prems that(2) \<open>\<not> unsettled_delivery r\<close> in \<open>auto simp: stays_def delivery_changes_lease\<close>)
  then show ?case using delivery_settled.prems by (auto simp: stays_def)
next
  case (fanned_out e ce now fresh ev db db' known out)
  show ?case using adds_stays [OF fanout_adds [OF fanned_out.hyps] fanned_out.prems] .
next
  case (replayed e now fresh fresh_key i endpoint org db db' res known out)
  show ?case using adds_stays [OF replay_adds [OF replayed.hyps] replayed.prems] .
next
  case (targeted e now fresh endpoint event kind body key db db' res known out)
  show ?case using adds_stays [OF targeted_adds [OF targeted.hyps] targeted.prems] .
next
  case (endpoint_removed e endpoint org db db' res out known)
  obtain p where "wh_deliveries db' = sql_delete p (wh_deliveries db)"
    using endpoint_delete_rows [OF endpoint_removed.hyps] by blast
  then show ?case using endpoint_removed.prems by (auto simp: stays_def set_sql_delete)
qed (auto simp: stays_def)

text \<open>
  A delivery that succeeded, or was given up for good (its endpoint gone or disabled, its
  destination not public), is final: whatever statements follow, in whatever order, its row is
  removed with its endpoint or is as it was, so it is never sent again.
\<close>
theorem webhook_final:
  assumes "delivery_step\<^sup>*\<^sup>* (db, out, known) (db', out', known')" and "delivery_inv (db, out, known)"
    and "r \<in> set (wh_deliveries db)" and "final_delivery r"
    and "x \<in> set (wh_deliveries db')" and "row_id x = row_id r"
  shows "x = r"
proof -
  have "stays r (db, out, known)" using assms(2,3) keyed_unique [of row_id "wh_deliveries db" _ r]
    by (auto simp: stays_def delivery_inv_def)
  have "delivery_step\<^sup>*\<^sup>* c d \<Longrightarrow> stays r c \<Longrightarrow> stays r d" for c d
    by (induction rule: rtranclp_induct) (auto dest: step_stays [OF _ _ assms(4)])
  from this [OF assms(1) \<open>stays r (db, out, known)\<close>] show ?thesis using assms(5,6) by (simp add: stays_def)
qed

text \<open>A concrete configuration: one test delivery, claimed.\<close>

definition example_delivery :: delivery_row where
  "example_delivery = pending_delivery ''d1'' ''h1'' ''ev'' ''webhook.test'' JNull None ''test:ev'' 5"

definition example_hooks :: "delivery_row \<Rightarrow> webhook_db" where
  "example_hooks d = \<lparr>wh_endpoints = [new_endpoint 1 \<lparr>ce_id = ''h1'', ce_org = ''o'', ce_url = ''https://x'',
       ce_secret = ''s'', ce_event_types = [''*''], ce_enabled = True\<rparr>], wh_deliveries = [d], wh_attempts = []\<rparr>"

lemmas example_hook_simps = example_delivery_def pending_delivery_def claim_deliveries_def delivery_claim_query_def
  due_deliveries_def live_deliveries_def dead_deliveries_def sql_select_def is_due_def is_dead_due_def
  sql_returning_def claimed_set_def seconds_from_now_def lease_of_def keyed_def

lemma example_deliveries_claimed:
  "claim_deliveries None 1000 [] \<lparr>dc_limit = 10, dc_lease = 60\<rparr> (example_hooks example_delivery)
     = (example_hooks (claimed_set 1000 60 example_delivery), Inr [claimed_set 1000 60 example_delivery])"
  by (simp add: example_hooks_def) (simp add: example_hook_simps Let_def)

lemma example_delivery_reach:
  "delivery_reach (example_hooks (claimed_set 1000 60 example_delivery), [(''d1'', 1)], {''d1''})"
proof -
  let ?db = "example_hooks example_delivery"
  have "delivery_step (?db, [], {''d1''}) (example_hooks (claimed_set 1000 60 example_delivery),
      map lease_of [claimed_set 1000 60 example_delivery] @ [], {''d1''})"
    using example_deliveries_claimed by (rule delivery_step.deliveries_claimed)
  then have "delivery_step\<^sup>*\<^sup>* (?db, [], {''d1''}) (example_hooks (claimed_set 1000 60 example_delivery), [(''d1'', 1)], {''d1''})"
    by (intro r_into_rtranclp) (simp add: lease_of_def example_delivery_def pending_delivery_def)
  moreover have "row_id ` set (wh_deliveries ?db) = {''d1''}" "keyed row_id (wh_deliveries ?db)"
    by (simp_all add: example_hooks_def example_delivery_def pending_delivery_def keyed_def)
  ultimately show ?thesis unfolding delivery_reach_def by metis
qed

theorem webhook_fencing_witness:
  "card {l \<in> set [(''d1'', 1)]. fst l = ''d1''
     \<and> snd (settle_delivery None 2000 DeliveryReleased l (example_hooks (claimed_set 1000 60 example_delivery))) = Inr True} \<le> 1"
  using webhook_fencing [OF example_delivery_reach, of "''d1''" 2000 DeliveryReleased] by blast

theorem webhook_final_witness:
  "filter (\<lambda>x. row_id x = ''d1'' \<and> x \<noteq> example_delivery\<lparr>wd_status := DSuccess\<rparr>)
     (wh_deliveries (fst (claim_deliveries None 1000 [] \<lparr>dc_limit = 10, dc_lease = 60\<rparr>
       (example_hooks (example_delivery\<lparr>wd_status := DSuccess\<rparr>))))) = []"
proof -
  let ?db = "example_hooks (example_delivery\<lparr>wd_status := DSuccess\<rparr>)"
  let ?c = "claim_deliveries None 1000 [] \<lparr>dc_limit = 10, dc_lease = 60\<rparr> ?db"
  obtain rs where c: "?c = (fst ?c, Inr rs)" by (simp add: claim_deliveries_def)
  have "delivery_step (?db, [], {''d1''}) (fst ?c, map lease_of rs @ [], {''d1''})"
    using c by (rule delivery_step.deliveries_claimed)
  then have step: "delivery_step\<^sup>*\<^sup>* (?db, [], {''d1''}) (fst ?c, map lease_of rs @ [], {''d1''})" ..
  have "x = example_delivery\<lparr>wd_status := DSuccess\<rparr>" if "x \<in> set (wh_deliveries (fst ?c))" "row_id x = ''d1''" for x
    using step
    by (rule webhook_final)
       (use that in \<open>simp_all add: example_hooks_def example_delivery_def pending_delivery_def delivery_inv_def keyed_def
          lease_inv_def final_delivery_def\<close>)
  then show ?thesis unfolding filter_empty_conv by blast
qed

end
