(* ===== verification/Ssrf_Guard.thy ===== *)
theory Ssrf_Guard
  imports Prelude "HOL-Library.Word"
begin

text \<open>
  Which destinations a webhook may have: \<open>apps/api/src/shared/ssrf-guard.ts\<close> and
  \<open>private-ranges.ts\<close>.

  Addresses are the texts \<open>node:net\<close> accepts (\<open>v4_of\<close>, \<open>v6_of\<close>: the value of a text that
  \<open>isIPv4\<close>, \<open>isIPv6\<close> accept), as 32- and 128-bit words; a \<open>BlockList\<close> is the list of its
  subnets, which an IPv6 address that maps an IPv4 one is also held against. The URL parser and
  what the resolver returns are arguments.
\<close>

unbundle bit_operations_syntax

section \<open>Addresses\<close>

definition v4_octet :: "string \<Rightarrow> nat option" where
  "v4_octet s =
     (if s \<noteq> [] \<and> length s \<le> 3 \<and> list_all is_digit s \<and> (length s = 1 \<or> hd s \<noteq> CHR ''0'') \<and> decimal s \<le> 255
      then Some (decimal s) else None)"

definition v4_of :: "string \<Rightarrow> 32 word option" where
  "v4_of s = (case map v4_octet (split_on (CHR ''.'') s) of
     [Some a, Some b, Some c, Some d] \<Rightarrow> Some (word_of_nat (((a * 256 + b) * 256 + c) * 256 + d))
   | _ \<Rightarrow> None)"

definition hex_digit :: "char \<Rightarrow> nat option" where
  "hex_digit c =
     (if is_digit c then Some (of_char c - 48)
      else if CHR ''a'' \<le> c \<and> c \<le> CHR ''f'' then Some (of_char c - 87)
      else if CHR ''A'' \<le> c \<and> c \<le> CHR ''F'' then Some (of_char c - 55) else None)"

definition hextet :: "string \<Rightarrow> nat option" where
  "hextet s =
     (if s \<noteq> [] \<and> length s \<le> 4 \<and> list_all (\<lambda>c. hex_digit c \<noteq> None) s
      then Some (foldl (\<lambda>n c. n * 16 + the (hex_digit c)) 0 s) else None)"

text \<open>The groups of one side of a \<open>::\<close>; the last of the right side may be a dotted quad.\<close>

fun v6_groups :: "bool \<Rightarrow> string list \<Rightarrow> nat list option" where
  "v6_groups quad [] = Some []"
| "v6_groups quad [p] =
     (case hextet p of
        Some g \<Rightarrow> Some [g]
      | None \<Rightarrow> if quad then map_option (\<lambda>w. [unat w div 65536, unat w mod 65536]) (v4_of p) else None)"
| "v6_groups quad (p # ps) =
     (case hextet p of None \<Rightarrow> None | Some g \<Rightarrow> map_option (\<lambda>gs. g # gs) (v6_groups quad ps))"

definition v6_side :: "bool \<Rightarrow> string \<Rightarrow> nat list option" where
  "v6_side quad s = (if s = [] then Some [] else v6_groups quad (split_on (CHR '':'') s))"

fun cut_double :: "string \<Rightarrow> (string \<times> string) option" where
  "cut_double (c # d # s) =
     (if c = CHR '':'' \<and> d = CHR '':'' then Some ([], s)
      else map_option (\<lambda>(l, r). (c # l, r)) (cut_double (d # s)))"
| "cut_double s = None"

definition v6_eight :: "string \<Rightarrow> nat list option" where
  "v6_eight s =
     (case cut_double s of
        None \<Rightarrow> Option.bind (v6_side True s) (\<lambda>gs. if length gs = 8 then Some gs else None)
      | Some (l, r) \<Rightarrow> Option.bind (v6_side False l) (\<lambda>a. Option.bind (v6_side True r) (\<lambda>b.
          if length a + length b \<le> 7 then Some (a @ replicate (8 - length a - length b) 0 @ b) else None)))"

definition zone_char :: "char \<Rightarrow> bool" where
  "zone_char c \<longleftrightarrow> is_digit c \<or> (CHR ''a'' \<le> c \<and> c \<le> CHR ''z'') \<or> (CHR ''A'' \<le> c \<and> c \<le> CHR ''Z'') \<or> c \<in> set ''-.:''"

definition word_of_groups :: "nat list \<Rightarrow> 128 word" where
  "word_of_groups gs = foldl (\<lambda>w g. w * 65536 + word_of_nat g) 0 gs"

definition v6_of :: "string \<Rightarrow> 128 word option" where
  "v6_of s =
     (let zone = dropWhile (\<lambda>c. c \<noteq> CHR ''%'') s
      in if zone = [] \<or> (tl zone \<noteq> [] \<and> list_all zone_char (tl zone))
         then map_option word_of_groups (v6_eight (takeWhile (\<lambda>c. c \<noteq> CHR ''%'') s)) else None)"

section \<open>The block list\<close>

definition PRIVATE_V4 :: "(string \<times> nat) list" where
  "PRIVATE_V4 = [(''10.0.0.0'', 8), (''172.16.0.0'', 12), (''192.168.0.0'', 16), (''127.0.0.0'', 8),
     (''169.254.0.0'', 16), (''100.64.0.0'', 10)]"

definition PRIVATE_V6 :: "(string \<times> nat) list" where
  "PRIVATE_V6 = [(''::1'', 128), (''fc00::'', 7), (''fe80::'', 10)]"

definition in_subnet :: "nat \<Rightarrow> 'a::len word \<Rightarrow> 'a word \<times> nat \<Rightarrow> bool" where
  "in_subnet width w subnet \<longleftrightarrow> drop_bit (width - snd subnet) w = drop_bit (width - snd subnet) (fst subnet)"

definition block_list_v4 :: "(32 word \<times> nat) list" where
  "block_list_v4 = map (\<lambda>(net, prefix). (the (v4_of net), prefix)) (PRIVATE_V4 @ [(''0.0.0.0'', 8)])"

definition block_list_v6 :: "(128 word \<times> nat) list" where
  "block_list_v6 = map (\<lambda>(net, prefix). (the (v6_of net), prefix)) PRIVATE_V6"

definition blocked_v4 :: "32 word \<Rightarrow> bool" where
  "blocked_v4 w = list_ex (in_subnet 32 w) block_list_v4"

definition maps_v4 :: "128 word \<Rightarrow> bool" where
  "maps_v4 w \<longleftrightarrow> drop_bit 32 w = 65535"

definition blocked_v6 :: "128 word \<Rightarrow> bool" where
  "blocked_v6 w \<longleftrightarrow> list_ex (in_subnet 128 w) block_list_v6 \<or> (maps_v4 w \<and> blocked_v4 (ucast w))"

section \<open>IPv4 addresses written as IPv6\<close>

definition to_lower :: "char \<Rightarrow> char" where
  "to_lower c = (if CHR ''A'' \<le> c \<and> c \<le> CHR ''Z'' then char_of (of_char c + 32 :: nat) else c)"

definition dotted :: "string \<Rightarrow> bool" where
  "dotted s \<longleftrightarrow> length (split_on (CHR ''.'') s) = 4
     \<and> list_all (\<lambda>p. p \<noteq> [] \<and> length p \<le> 3 \<and> list_all is_digit p) (split_on (CHR ''.'') s)"

definition show_quad :: "nat \<Rightarrow> nat \<Rightarrow> nat \<Rightarrow> nat \<Rightarrow> string" where
  "show_quad a b c d = show_nat a @ ''.'' @ show_nat b @ ''.'' @ show_nat c @ ''.'' @ show_nat d"

definition unwrap_ipv4_mapped :: "string \<Rightarrow> string option" where
  "unwrap_ipv4_mapped ip =
     (if take 7 (map to_lower ip) \<noteq> ''::ffff:'' then None
      else let tail = drop 7 ip
           in if dotted tail then Some tail
              else case map hextet (split_on (CHR '':'') tail) of
                [Some hi, Some lo] \<Rightarrow>
                  Some (show_quad (drop_bit 8 hi AND 255) (hi AND 255) (drop_bit 8 lo AND 255) (lo AND 255))
              | _ \<Rightarrow> None)"

text \<open>
  The call of the function on the unwrapped text is unfolded once: that text is a dotted quad, an
  IPv4 address or neither.
\<close>

definition is_private_or_reserved_address :: "string \<Rightarrow> bool" where
  "is_private_or_reserved_address ip =
     (case v4_of ip of
        Some w \<Rightarrow> blocked_v4 w
      | None \<Rightarrow>
          (case v6_of ip of
             None \<Rightarrow> True
           | Some w \<Rightarrow>
               (case unwrap_ipv4_mapped ip of
                  Some mapped \<Rightarrow> (case v4_of mapped of Some m \<Rightarrow> blocked_v4 m | None \<Rightarrow> True)
                | None \<Rightarrow> blocked_v6 w)))"

section \<open>The guard\<close>

datatype ssrf_error = UrlForbidden string | HostLookupTimeout string
datatype lookup_result = LookupThrew | LookupTimedOut | Addresses "string list"

record parsed_url =
  url_protocol :: string
  url_username :: string
  url_password :: string
  url_hostname :: string

definition assert_public_url ::
  "(string \<Rightarrow> parsed_url option) \<Rightarrow> (string \<Rightarrow> lookup_result) \<Rightarrow> bool \<Rightarrow> nat \<Rightarrow> string \<Rightarrow> (parsed_url, ssrf_error) result" where
  "assert_public_url parse resolve https_only timeout_ms raw =
     (case parse raw of
        None \<Rightarrow> fail (UrlForbidden ''invalid url'')
      | Some url \<Rightarrow>
          if \<not> (url_protocol url = ''https:'' \<or> (url_protocol url = ''http:'' \<and> \<not> https_only))
          then fail (UrlForbidden ''scheme not allowed'')
          else if url_username url \<noteq> [] \<or> url_password url \<noteq> []
          then fail (UrlForbidden ''credentials in url not allowed'')
          else case resolve (url_hostname url) of
            LookupThrew \<Rightarrow> fail (UrlForbidden ''host not resolvable'')
          | LookupTimedOut \<Rightarrow>
              fail (HostLookupTimeout (''host lookup timed out after '' @ show_nat timeout_ms @ ''ms''))
          | Addresses addrs \<Rightarrow>
              if addrs = [] \<or> list_ex is_private_or_reserved_address addrs
              then fail (UrlForbidden ''destination not publicly routable'') else ok url)"

section \<open>The ranges of the block list\<close>

lemma block_list_v4_words:
  "block_list_v4 = [(167772160, 8), (2886729728, 12), (3232235520, 16), (2130706432, 8), (2851995648, 16), (1681915904, 10), (0, 8)]"
  by (simp add: block_list_v4_def PRIVATE_V4_def v4_of_def v4_octet_def decimal_def is_digit_def less_eq_char_def)

lemma in_subnet_unat:
  "in_subnet 32 w (n, p) \<longleftrightarrow> unat (w :: 32 word) div 2 ^ (32 - p) = unat n div 2 ^ (32 - p)"
  unfolding in_subnet_def word_unat_eq_iff unat_drop_bit_eq by (simp add: drop_bit_eq_div)

definition private_quad :: "nat \<Rightarrow> nat \<Rightarrow> bool" where
  "private_quad a b \<longleftrightarrow> a \<in> {0, 10, 127} \<or> a = 172 \<and> 16 \<le> b \<and> b \<le> 31 \<or> a = 192 \<and> b = 168
     \<or> a = 169 \<and> b = 254 \<or> a = 100 \<and> 64 \<le> b \<and> b \<le> 127"

lemma quotient_remainder: "q < m \<Longrightarrow> m * a + q = n \<longleftrightarrow> a = n div m \<and> q = n mod (m :: nat)"
  by auto

lemma private_blocks:
  assumes "b < 256"
  shows "(256 * a + b) div 16 = 2753 \<longleftrightarrow> a = 172 \<and> 16 \<le> b \<and> b \<le> (31 :: nat)"
    and "(256 * a + b) div 64 = 401 \<longleftrightarrow> a = 100 \<and> 64 \<le> b \<and> b \<le> 127"
    and "256 * a + b = 49320 \<longleftrightarrow> a = 192 \<and> b = 168" and "256 * a + b = 43518 \<longleftrightarrow> a = 169 \<and> b = 254"
proof -
  have "(256 * a + b) div 16 = 16 * a + b div 16" "(256 * a + b) div 64 = 4 * a + b div 64" by linarith+
  moreover have "b div 16 < 16" "b div 64 < 4" using assms by simp_all
  then have "16 * a + b div 16 = 2753 \<longleftrightarrow> a = 172 \<and> b div 16 = 1" "4 * a + b div 64 = 401 \<longleftrightarrow> a = 100 \<and> b div 64 = 1"
    by (simp_all add: quotient_remainder)
  moreover have "b div 16 = 1 \<longleftrightarrow> 16 \<le> b \<and> b \<le> 31" "b div 64 = 1 \<longleftrightarrow> 64 \<le> b \<and> b \<le> 127" by auto
  ultimately show "(256 * a + b) div 16 = 2753 \<longleftrightarrow> a = 172 \<and> 16 \<le> b \<and> b \<le> 31"
    "(256 * a + b) div 64 = 401 \<longleftrightarrow> a = 100 \<and> 64 \<le> b \<and> b \<le> 127" by auto
  show "256 * a + b = 49320 \<longleftrightarrow> a = 192 \<and> b = 168" "256 * a + b = 43518 \<longleftrightarrow> a = 169 \<and> b = 254"
    using assms by (simp_all add: quotient_remainder)
qed

lemma blocked_v4_ranges: "blocked_v4 w \<longleftrightarrow> private_quad (unat w div 2 ^ 24) (unat w div 2 ^ 16 mod 256)"
proof -
  define a b where "a = unat w div 2 ^ 24" and "b = unat w div 2 ^ 16 mod 256"
  have "a = unat w div 65536 div 256" by (simp add: a_def flip: div_mult2_eq)
  then have x: "unat w div 65536 = 256 * a + b" by (simp add: b_def)
  have b: "b < 256" by (simp add: b_def)
  have div: "unat w div 16777216 = a" "unat w div 1048576 = (256 * a + b) div 16" "unat w div 4194304 = (256 * a + b) div 64"
    unfolding x [symmetric] by (simp_all add: a_def flip: div_mult2_eq)
  show ?thesis
    unfolding a_def [symmetric] b_def [symmetric] private_quad_def
    by (simp add: blocked_v4_def block_list_v4_words in_subnet_unat div x private_blocks [OF b]) blast
qed

lemma small_digit:
  fixes n :: nat
  assumes "n < 10"
  shows "is_digit (char_of (48 + n))" and "of_char (char_of (48 + n) :: char) = 48 + n"
    and "char_of (48 + n) = CHR ''0'' \<longleftrightarrow> n = 0" and "char_of (48 + n) \<noteq> CHR ''.''" "char_of (48 + n) \<noteq> CHR '':''"
proof -
  have "n \<in> {0, 1, 2, 3, 4, 5, 6, 7, 8, 9}" using assms by auto
  then show "is_digit (char_of (48 + n))" "of_char (char_of (48 + n) :: char) = 48 + n"
    "char_of (48 + n) = CHR ''0'' \<longleftrightarrow> n = 0" "char_of (48 + n) \<noteq> CHR ''.''" "char_of (48 + n) \<noteq> CHR '':''"
    by (auto simp: is_digit_def less_eq_char_def char_of_eq_iff)
qed

lemma show_nat_small:
  "n < 1000 \<Longrightarrow> show_nat n = (if n < 10 then [char_of (48 + n)]
     else if n < 100 then [char_of (48 + n div 10), char_of (48 + n mod 10)]
     else [char_of (48 + n div 10 div 10), char_of (48 + n div 10 mod 10), char_of (48 + n mod 10)])"
  by (subst show_nat.simps, subst show_nat.simps, subst show_nat.simps) (simp add: div_less_iff_less_mult)

lemma octets:
  assumes "n < 256"
  shows "v4_octet (show_nat n) = Some n" and "CHR ''.'' \<notin> set (show_nat n)" and "CHR '':'' \<notin> set (show_nat n)"
proof -
  have d: "n mod 10 < 10" "n div 10 mod 10 < 10" "n div 10 div 10 < 10" using assms by simp_all
  have sum: "(n div 10) * 10 + n mod 10 = n" "(n div 10 div 10 * 10 + n div 10 mod 10) * 10 + n mod 10 = n" by simp_all
  show "v4_octet (show_nat n) = Some n" "CHR ''.'' \<notin> set (show_nat n)" "CHR '':'' \<notin> set (show_nat n)"
    using assms small_digit(4,5) [THEN not_sym] d
    by (auto simp: show_nat_small v4_octet_def decimal_def small_digit sum)
qed

lemma v4_of_show_quad:
  assumes "a < 256" "b < 256" "c < 256" "d < 256"
  shows "v4_of (show_quad a b c d) = Some (word_of_nat (((a * 256 + b) * 256 + c) * 256 + d))"
  using octets [OF assms(1)] octets [OF assms(2)] octets [OF assms(3)] octets [OF assms(4)]
  by (simp add: v4_of_def show_quad_def split_on_append split_on_none)

section \<open>Mapped addresses\<close>

lemma to_lower_f: "to_lower c = CHR ''f'' \<Longrightarrow> c = CHR ''f'' \<or> c = CHR ''F''"
  and to_lower_colon: "to_lower c = CHR '':'' \<Longrightarrow> c = CHR '':''"
proof -
  have up: "\<exists>n < 26. c = char_of (65 + n :: nat)" if "CHR ''A'' \<le> c" "c \<le> CHR ''Z''" for c
  proof (intro exI conjI)
    show "(of_char c :: nat) - 65 < 26" using that by (simp add: less_eq_char_def)
    show "c = char_of (65 + ((of_char c :: nat) - 65))" using that by (simp add: less_eq_char_def)
  qed
  show "c = CHR ''f'' \<or> c = CHR ''F''" if "to_lower c = CHR ''f''"
  proof (cases "CHR ''A'' \<le> c \<and> c \<le> CHR ''Z''")
    case True
    then obtain n where n: "n < 26" "c = char_of (65 + n :: nat)" using up by blast
    then have "take_bit 8 (97 + n) = 102" using that True by (simp add: to_lower_def char_of_eq_iff take_bit_nat_eq_self)
    then have "n = 5" using n by (simp add: take_bit_nat_eq_self)
    then show ?thesis using n(2) by (simp add: char_of_eq_iff)
  qed (use that in \<open>simp add: to_lower_def split: if_splits\<close>)
  show "c = CHR '':''" if "to_lower c = CHR '':''"
  proof (cases "CHR ''A'' \<le> c \<and> c \<le> CHR ''Z''")
    case True
    then obtain n where n: "n < 26" "c = char_of (65 + n :: nat)" using up by blast
    then have "take_bit 8 (97 + n) = 58" using that True by (simp add: to_lower_def char_of_eq_iff take_bit_nat_eq_self)
    then show ?thesis using n by (simp add: take_bit_nat_eq_self)
  qed (use that in \<open>simp add: to_lower_def split: if_splits\<close>)
qed

lemma mapped_prefix:
  assumes "take 7 (map to_lower ip) = ''::ffff:''"
  shows "\<exists>p. ip = ''::'' @ p @ '':'' @ drop 7 ip \<and> hextet p = Some 65535 \<and> CHR '':'' \<notin> set p \<and> CHR ''%'' \<notin> set p"
proof -
  have "length (take 7 (map to_lower ip)) = 7" using assms by simp
  then have len: "7 \<le> length ip" by simp
  have "map to_lower (take 7 ip) = ''::ffff:''" using assms by (simp add: take_map)
  then obtain a b c d e f g where t: "take 7 ip = [a, b, c, d, e, f, g]"
    "to_lower a = CHR '':''" "to_lower b = CHR '':''" "to_lower c = CHR ''f''" "to_lower d = CHR ''f''"
    "to_lower e = CHR ''f''" "to_lower f = CHR ''f''" "to_lower g = CHR '':''" by auto
  have h: "hextet [c, d, e, f] = Some 65535 \<and> CHR '':'' \<notin> set [c, d, e, f] \<and> CHR ''%'' \<notin> set [c, d, e, f]"
    using t(4-7) [THEN to_lower_f] by (elim disjE) (simp_all add: hextet_def hex_digit_def is_digit_def less_eq_char_def)
  have "ip = take 7 ip @ drop 7 ip" by simp
  then have "ip = ''::'' @ [c, d, e, f] @ '':'' @ drop 7 ip"
    using t(1) to_lower_colon [OF t(2)] to_lower_colon [OF t(3)] to_lower_colon [OF t(8)] by simp
  with h show ?thesis by blast
qed

lemma split_on_chars: "c \<in> set s \<Longrightarrow> c = sep \<or> (\<exists>p \<in> set (split_on sep s). c \<in> set p)"
  by (induction sep s rule: split_on.induct) (auto split: list.splits)

lemma not_a_digit: "\<not> is_digit (CHR '':'')" "\<not> is_digit (CHR ''%'')" "hex_digit (CHR ''%'') = None" "hex_digit (CHR ''.'') = None"
  by (simp_all add: is_digit_def hex_digit_def less_eq_char_def)

lemma hextet_digits: "hextet s = Some g \<Longrightarrow> c \<in> set s \<Longrightarrow> hex_digit c \<noteq> None"
  by (auto simp: hextet_def list_all_iff split: if_splits)

lemma hex_digit_bound: "hex_digit c = Some n \<Longrightarrow> n < 16"
  by (auto simp: hex_digit_def is_digit_def less_eq_char_def split: if_splits)

lemma hex_value_bound:
  "list_all (\<lambda>c. hex_digit c \<noteq> None) s \<Longrightarrow> foldl (\<lambda>n c. n * 16 + the (hex_digit c)) 0 s < 16 ^ length s"
proof (induction s rule: rev_induct)
  case (snoc c s)
  then obtain d where d: "hex_digit c = Some d" "d < 16" using hex_digit_bound by auto
  then show ?case using snoc by simp
qed simp

lemma hextet_bound: "hextet s = Some g \<Longrightarrow> g < 65536"
proof -
  assume "hextet s = Some g"
  then have "g < 16 ^ length s" "length s \<le> 4" using hex_value_bound [of s] by (auto simp: hextet_def split: if_splits)
  moreover have "(16 :: nat) ^ length s \<le> 16 ^ 4" using \<open>length s \<le> 4\<close> by (intro power_increasing) simp_all
  ultimately show ?thesis by simp
qed

lemma mapped_word:
  assumes "n < 4294967296"
  shows "maps_v4 (word_of_nat (65535 * 4294967296 + n) :: 128 word)"
    and "ucast (word_of_nat (65535 * 4294967296 + n) :: 128 word) = (word_of_nat n :: 32 word)"
proof -
  have u: "unat (word_of_nat (65535 * 4294967296 + n) :: 128 word) = 65535 * 4294967296 + n"
    unfolding unat_of_nat by (rule mod_less) (use assms in simp)
  show "maps_v4 (word_of_nat (65535 * 4294967296 + n) :: 128 word)"
    unfolding maps_v4_def word_unat_eq_iff unat_drop_bit_eq u using assms by (simp add: drop_bit_eq_div)
  show "ucast (word_of_nat (65535 * 4294967296 + n) :: 128 word) = (word_of_nat n :: 32 word)"
  proof -
    have "(65535 * 4294967296 + n) mod 4294967296 = n mod (4294967296 :: nat)" by (rule mod_mult_self3)
    moreover have "(65535 * 4294967296 + n) mod 2 ^ 128 = 65535 * 4294967296 + n" by (rule mod_less) (use assms in simp)
    ultimately show ?thesis unfolding word_unat_eq_iff unsigned_ucast_eq u unat_of_nat take_bit_eq_mod by simp
  qed
qed

lemma mapped_groups:
  assumes "hi < 65536" "lo < 65536"
  shows "word_of_groups ([] @ replicate 5 0 @ [65535, hi, lo]) = word_of_nat (65535 * 4294967296 + (hi * 65536 + lo))"
proof -
  have "replicate 5 (0 :: nat) = [0, 0, 0, 0, 0]" by (simp add: numeral_eq_Suc)
  then show ?thesis by (simp add: word_of_groups_def algebra_simps)
qed

lemma and_255: "x AND 255 = x mod (256 :: nat)"
  using take_bit_eq_mask [of 8 x] by (simp add: mask_eq_exp_minus_1 take_bit_eq_mod)


lemma dotted_chars:
  assumes "dotted s"
  shows "CHR '':'' \<notin> set s" and "CHR ''%'' \<notin> set s" and "hextet s = None"
proof -
  have chars: "c \<in> set s \<Longrightarrow> c = CHR ''.'' \<or> is_digit c" for c
    using assms split_on_chars [of c s "CHR ''.''"] by (auto simp: dotted_def list_all_iff)
  show "CHR '':'' \<notin> set s" "CHR ''%'' \<notin> set s" using chars not_a_digit(1,2) by blast+
  have "CHR ''.'' \<in> set s"
  proof (rule ccontr)
    assume "CHR ''.'' \<notin> set s"
    then have "split_on (CHR ''.'') s = [s]" by (rule split_on_none)
    then show False using assms by (simp add: dotted_def)
  qed
  then show "hextet s = None" using hextet_digits [of s _ "CHR ''.''"] not_a_digit(4) by (cases "hextet s") auto
qed

lemma v6_of_plain: "CHR ''%'' \<notin> set s \<Longrightarrow> v6_of s = map_option word_of_groups (v6_eight s)"
proof -
  assume "CHR ''%'' \<notin> set s"
  then have parts: "dropWhile (\<lambda>c. c \<noteq> CHR ''%'') s = []" "takeWhile (\<lambda>c. c \<noteq> CHR ''%'') s = s"
    by (auto simp: dropWhile_eq_Nil_conv takeWhile_eq_all_conv)
  show "v6_of s = map_option word_of_groups (v6_eight s)" unfolding v6_of_def Let_def parts by simp
qed

text \<open>Unwrapping the text of a mapped address gives the address it maps.\<close>

lemma unwrap_value:
  assumes "unwrap_ipv4_mapped ip = Some m" and "v6_of ip = Some w"
  shows "maps_v4 w \<and> v4_of m = Some (ucast w)"
proof -
  let ?tail = "drop 7 ip"
  have "take 7 (map to_lower ip) = ''::ffff:''" using assms(1) by (simp add: unwrap_ipv4_mapped_def split: if_splits)
  then obtain p where p: "ip = ''::'' @ p @ '':'' @ ?tail" "hextet p = Some 65535" "CHR '':'' \<notin> set p" "CHR ''%'' \<notin> set p"
    using mapped_prefix by blast
  have split: "split_on (CHR '':'') (p @ '':'' @ ?tail) = p # split_on (CHR '':'') ?tail"
    using split_on_append [OF p(3)] by simp
  have eight: "v6_eight ip = Option.bind (v6_groups True (p # split_on (CHR '':'') ?tail))
      (\<lambda>b. if length b \<le> 7 then Some (replicate (8 - length b) 0 @ b) else None)"
    by (subst p(1)) (simp add: v6_eight_def v6_side_def split [simplified] cong: if_cong)
  show ?thesis
  proof (cases "dotted ?tail")
    case True
    then have m: "m = ?tail" using assms(1) by (simp add: unwrap_ipv4_mapped_def Let_def split: if_splits)
    have "CHR ''%'' \<notin> set ip" by (subst p(1)) (use p(4) dotted_chars(2) [OF True] in simp)
    then have w: "map_option word_of_groups (v6_eight ip) = Some w" using assms(2) v6_of_plain by simp
    have "split_on (CHR '':'') ?tail = [?tail]" using dotted_chars(1) [OF True] by (rule split_on_none)
    then obtain v where v: "v4_of ?tail = Some v" "w = word_of_groups ([] @ replicate 5 0 @ [65535, unat v div 65536, unat v mod 65536])"
      using w dotted_chars(3) [OF True] p(2) by (cases "v4_of ?tail") (auto simp: eight)
    have "unat v < 4294967296" using unsigned_less [of v] by simp
    then have "unat v div 65536 < 65536" "unat v mod 65536 < 65536" by (simp_all add: div_less_iff_less_mult)
    then have "w = word_of_nat (65535 * 4294967296 + (unat v div 65536 * 65536 + unat v mod 65536))"
      unfolding v(2) by (rule mapped_groups)
    then have "w = word_of_nat (65535 * 4294967296 + unat v)" by (simp only: div_mult_mod_eq)
    then show ?thesis using mapped_word [OF \<open>unat v < 4294967296\<close>] v(1) m by simp
  next
    case False
    then obtain h l hi lo where t: "split_on (CHR '':'') ?tail = [h, l]" "hextet h = Some hi" "hextet l = Some lo"
      "m = show_quad (drop_bit 8 hi AND 255) (hi AND 255) (drop_bit 8 lo AND 255) (lo AND 255)"
      using assms(1) by (auto simp: unwrap_ipv4_mapped_def Let_def split: if_splits list.splits option.splits)
    have b: "hi < 65536" "lo < 65536" using t(2,3) hextet_bound by blast+
    have "CHR ''%'' \<notin> set ?tail"
      using split_on_chars [of "CHR ''%''" ?tail "CHR '':''"] t(1) hextet_digits [OF t(2), of "CHR ''%''"] hextet_digits [OF t(3), of "CHR ''%''"] not_a_digit(3)
      by auto
    then have "CHR ''%'' \<notin> set ip" by (subst p(1)) (use p(4) in simp)
    then have w: "map_option word_of_groups (v6_eight ip) = Some w" using assms(2) v6_of_plain by simp
    then have "w = word_of_groups ([] @ replicate 5 0 @ [65535, hi, lo])" using p(2) t(1-3) by (simp add: eight)
    then have "w = word_of_nat (65535 * 4294967296 + (hi * 65536 + lo))" unfolding mapped_groups [OF b] .
    moreover have "v4_of m = Some (word_of_nat (hi * 65536 + lo))"
    proof -
      have "hi div 256 < 256" "lo div 256 < 256" using b by (simp_all add: div_less_iff_less_mult)
      then have "v4_of m = Some (word_of_nat (((hi div 256 * 256 + hi mod 256) * 256 + lo div 256) * 256 + lo mod 256))"
        unfolding t(4) by (simp add: and_255 drop_bit_eq_div v4_of_show_quad)
      moreover have "((hi div 256 * 256 + hi mod 256) * 256 + lo div 256) * 256 + lo mod 256 = hi * 65536 + lo" by simp
      ultimately show ?thesis by (simp only:)
    qed
    moreover have "hi * 65536 + lo < 4294967296" using b by simp
    ultimately show ?thesis using mapped_word [of "hi * 65536 + lo"] by (simp del: of_nat_add of_nat_mult)
  qed
qed

lemma replicate_numeral: "replicate (numeral k) x = x # replicate (pred_numeral k) x"
  by (simp add: numeral_eq_Suc)

lemma block_list_v6_words:
  "block_list_v6 = [(1, 128), (0xfc000000000000000000000000000000, 7), (0xfe800000000000000000000000000000, 10)]"
  by (simp add: block_list_v6_def PRIVATE_V6_def v6_of_def v6_eight_def v6_side_def hextet_def hex_digit_def is_digit_def
      less_eq_char_def word_of_groups_def zone_char_def replicate_numeral)


lemma blocked_v6_ranges:
  "blocked_v6 w \<longleftrightarrow>
     (if maps_v4 w then blocked_v4 (ucast w) else w = 1 \<or> drop_bit 121 w = 126 \<or> drop_bit 118 w = 1018)"
proof -
  have nets: "list_ex (in_subnet 128 w) block_list_v6 \<longleftrightarrow> w = 1 \<or> drop_bit 121 w = 126 \<or> drop_bit 118 w = 1018"
    by (simp add: block_list_v6_words in_subnet_def)
  have "\<not> (w = 1 \<or> drop_bit 121 w = 126 \<or> drop_bit 118 w = 1018)" if "maps_v4 w"
  proof -
    have d: "drop_bit 32 w = 65535" using that by (simp add: maps_v4_def)
    have "drop_bit 121 w = drop_bit 89 (drop_bit 32 w)" "drop_bit 118 w = drop_bit 86 (drop_bit 32 w)" by simp_all
    then show ?thesis unfolding d using d by auto
  qed
  then show ?thesis unfolding blocked_v6_def nets by auto
qed

section \<open>What the guard decides\<close>

text \<open>
  The decision over the values of the addresses: IPv4 by its first two numbers, an IPv6 address
  that maps an IPv4 one by that, any other by its leading bits (\<open>fc00::/7\<close>, \<open>fe80::/10\<close>).
\<close>

definition refused_address :: "string \<Rightarrow> bool" where
  "refused_address ip =
     (let quad = (\<lambda>v :: 32 word. private_quad (unat v div 2 ^ 24) (unat v div 2 ^ 16 mod 256))
      in case v4_of ip of
           Some v \<Rightarrow> quad v
         | None \<Rightarrow>
             (case v6_of ip of
                None \<Rightarrow> True
              | Some w \<Rightarrow> if drop_bit 32 w = 65535 then quad (ucast w)
                          else w = 1 \<or> drop_bit 121 w = 126 \<or> drop_bit 118 w = 1018))"

lemma private_address_decision: "is_private_or_reserved_address ip \<longleftrightarrow> refused_address ip"
proof (cases "v4_of ip")
  case None
  show ?thesis
  proof (cases "v6_of ip")
    case (Some w)
    show ?thesis
    proof (cases "unwrap_ipv4_mapped ip")
      case (Some m)
      then show ?thesis using None \<open>v6_of ip = Some w\<close> unwrap_value [OF Some \<open>v6_of ip = Some w\<close>]
        by (simp add: is_private_or_reserved_address_def refused_address_def maps_v4_def blocked_v4_ranges)
    qed (use None Some in \<open>simp add: is_private_or_reserved_address_def refused_address_def maps_v4_def
           blocked_v4_ranges blocked_v6_ranges\<close>)
  qed (use None in \<open>simp add: is_private_or_reserved_address_def refused_address_def\<close>)
qed (simp add: is_private_or_reserved_address_def refused_address_def blocked_v4_ranges)

lemma unspecified_address_passes: "\<not> is_private_or_reserved_address ''::''"
  by (simp add: is_private_or_reserved_address_def v4_of_def v6_of_def v6_eight_def v6_side_def word_of_groups_def
      unwrap_ipv4_mapped_def replicate_numeral blocked_v6_ranges maps_v4_def v4_octet_def is_digit_def
      less_eq_char_def to_lower_def decimal_def)

text \<open>
  C12: a destination the guard lets through is one that is reachable in public only: its scheme is
  allowed, its URL carries no credentials, and its host resolved to at least one address, each of
  them an address whose value is outside the loopback, private, link-local and carrier-grade NAT
  ranges, however it is spelt; and every such URL is let through.
\<close>
theorem public_url_checked:
  "assert_public_url parse resolve https_only timeout_ms raw = Inr url \<longleftrightarrow>
     parse raw = Some url
   \<and> (url_protocol url = ''https:'' \<or> url_protocol url = ''http:'' \<and> \<not> https_only)
   \<and> url_username url = [] \<and> url_password url = []
   \<and> (\<exists>addrs. resolve (url_hostname url) = Addresses addrs \<and> addrs \<noteq> []
        \<and> list_all (\<lambda>a. \<not> refused_address a) addrs)"
  by (auto simp: assert_public_url_def list_ex_iff list_all_iff private_address_decision
      split: option.splits lookup_result.splits if_splits)

text \<open>
  The two spellings of an IPv4 address inside IPv6 are unwrapped to the address they name:
  the text the unwrapping yields, dotted or computed from two hexadecimal groups, parses to the low
  32 bits of the address, so no spelling of a private address is judged as another one.
\<close>
theorem mapped_address_unwrapped:
  assumes "unwrap_ipv4_mapped ip = Some m" and "v6_of ip = Some w"
  shows "maps_v4 w \<and> v4_of m = Some (ucast w)"
  using unwrap_value [OF assms] .

theorem mapped_address_unwrapped_witness: "v4_of ''127.0.0.1'' = Some (ucast (0xffff7f000001 :: 128 word))"
proof -
  note defs = v6_of_def v6_eight_def v6_side_def hextet_def hex_digit_def is_digit_def less_eq_char_def
    word_of_groups_def replicate_numeral unwrap_ipv4_mapped_def to_lower_def show_quad_def show_nat.simps
    dotted_def and_255 drop_bit_eq_div char_of_eq_iff
  have "unwrap_ipv4_mapped ''::ffff:7f00:1'' = Some ''127.0.0.1''" by (simp add: defs)
  moreover have "v6_of ''::ffff:7f00:1'' = Some 0xffff7f000001" by (simp add: defs)
  ultimately show ?thesis using mapped_address_unwrapped by blast
qed


end
