(* ===== verification/Webhook_Worker.thy ===== *)
theory Webhook_Worker
  imports Webhook_Protocol Ssrf_Guard
begin

text \<open>
  \<open>apps/api/src/modules/webhooks/infrastructure/services/webhook-delivery-worker.service.ts\<close> and
  \<open>hmac-signer.ts\<close>: how one delivery is prepared, sent and settled, and one drain.

  \<open>hook_env\<close> holds what one delivery reads from outside: the driver's errors, the URL parser and
  resolver of the guard, the keys and ciphers of \<open>shared/aead.ts\<close> (a cryptographic library), the
  clocks, the random number and the fresh ids, and the endpoint's answer (\<open>fetch\<close>). Every statement of
  the settlement runs in one transaction of Postgres: once one fails the others fail too, and the
  commit rolls back without an error.
\<close>

section \<open>Options and environment\<close>

definition WEBHOOK_DNS_TIMEOUT_SECONDS :: int where "WEBHOOK_DNS_TIMEOUT_SECONDS = 5"
definition WEBHOOK_FETCH_TIMEOUT_SECONDS :: int where "WEBHOOK_FETCH_TIMEOUT_SECONDS = 30"
definition WEBHOOK_SETTLE_MARGIN_SECONDS :: int where "WEBHOOK_SETTLE_MARGIN_SECONDS = 30"
definition MAX_CLAIM :: int where "MAX_CLAIM = 10"
definition WEBHOOK_MAX_ATTEMPTS :: int where "WEBHOOK_MAX_ATTEMPTS = 4"

definition DELIVERY_BUDGET :: lease_budget where
  "DELIVERY_BUDGET = \<lparr>unit_seconds = WEBHOOK_DNS_TIMEOUT_SECONDS + WEBHOOK_FETCH_TIMEOUT_SECONDS,
     margin_seconds = WEBHOOK_SETTLE_MARGIN_SECONDS\<rparr>"

record hook_options =
  wo_lease :: int
  wo_dead_retry :: int
  wo_min_failures :: int
  wo_after_days :: int
  wo_capture :: nat

text \<open>The chunks of a response body are the reads of its stream, which may throw.\<close>

record http_response =
  hr_status :: nat
  hr_status_text :: string
  hr_headers :: headers
  hr_body :: "string list option throws"

datatype fetch_result = FetchThrew string | Responded http_response

record hook_env =
  h_lookup_error :: "string option"
  h_parse :: "string \<Rightarrow> parsed_url option"
  h_resolve :: "string \<Rightarrow> lookup_result"
  h_https_only :: bool
  h_master_key :: "string option throws"
  h_sub_key :: "string \<Rightarrow> string \<Rightarrow> string"
  h_decrypt :: "string \<Rightarrow> string \<Rightarrow> string throws"
  h_hmac :: "string \<Rightarrow> string \<Rightarrow> string"
  h_json :: "json \<Rightarrow> string"
  h_iso :: "instant \<Rightarrow> string"
  h_date :: instant
  h_seconds :: nat
  h_duration :: int
  h_fetch :: "string \<Rightarrow> headers \<Rightarrow> string \<Rightarrow> fetch_result"
  h_random :: real
  h_now :: instant
  h_settle_error :: "string option"
  h_attempt_error :: "string option"
  h_attempt_id :: ident
  h_endpoint_error :: "string option"
  h_disable_error :: "string option"
  h_exhausted :: emit_env
  h_disabled :: emit_env
  h_commit_error :: "string option"

section \<open>Signing\<close>

definition TIMESTAMP_TOLERANCE_SECONDS :: real where "TIMESTAMP_TOLERANCE_SECONDS = 300"

definition sign_webhook_payload ::
  "(string \<Rightarrow> string \<Rightarrow> string) \<Rightarrow> string \<Rightarrow> string list \<Rightarrow> nat \<Rightarrow> string" where
  "sign_webhook_payload hmac raw_body secrets ts =
     (let signed = show_nat ts @ ''.'' @ raw_body
      in ''t='' @ show_nat ts @ '','' @ join_with '','' (map (\<lambda>s. ''v1='' @ hmac s signed) secrets))"

definition is_stale_timestamp :: "real \<Rightarrow> real \<Rightarrow> bool" where
  "is_stale_timestamp ts now_ms \<longleftrightarrow> TIMESTAMP_TOLERANCE_SECONDS < \<bar>now_ms / 1000 - ts\<bar>"

section \<open>The outcome of one delivery\<close>

datatype verdict = DeliveryOk | DeliveryError string bool

text \<open>\<open>DeliveryError e terminal\<close>; an attempt is its log and whether a request was sent.\<close>

record hook_outcome =
  oc_verdict :: verdict
  oc_status :: "int option"
  oc_org :: "string option"
  oc_attempt :: "(attempt_log \<times> bool) option"

definition failed_outcome :: "string \<Rightarrow> bool \<Rightarrow> string option \<Rightarrow> hook_outcome" where
  "failed_outcome err terminal org =
     \<lparr>oc_verdict = DeliveryError err terminal, oc_status = None, oc_org = org, oc_attempt = None\<rparr>"

definition should_auto_disable :: "int \<times> instant \<Rightarrow> instant \<Rightarrow> hook_options \<Rightarrow> bool" where
  "should_auto_disable bumped now opts \<longleftrightarrow>
     wo_min_failures opts \<le> fst bumped \<and> wo_after_days opts * 86400000 < now - snd bumped"

text \<open>\<open>readCappedBody\<close>: it reads until it has the cap, then keeps no more than the cap.\<close>

fun read_until :: "nat \<Rightarrow> nat \<Rightarrow> string list \<Rightarrow> string list" where
  "read_until cap got [] = []"
| "read_until cap got (c # cs) = (if got < cap then c # read_until cap (got + length c) cs else [])"

definition read_capped_body :: "string list option \<Rightarrow> nat \<Rightarrow> string option" where
  "read_capped_body body cap = map_option (\<lambda>cs. take cap (concat (read_until cap 0 cs))) body"

definition refused_log :: attempt_log where
  "refused_log = \<lparr>al_request_headers = None, al_request_body = None, al_response_status = None,
     al_response_headers = None, al_response_body = None, al_duration = Some 0,
     al_error = Some ''destination not publicly routable''\<rparr>"

text \<open>The secrets a request is signed with: the current one, and the previous one until it expires.\<close>

definition signing_secrets :: "hook_env \<Rightarrow> string \<Rightarrow> webhook_endpoint \<Rightarrow> string list throws" where
  "signing_secrets env master e =
     (let sub = h_sub_key env master (we_org e)
      in case h_decrypt env (we_secret e) sub of
           Inl err \<Rightarrow> Inl err
         | Inr current \<Rightarrow>
             (case (we_previous_secret e, we_previous_expires e) of
                (Some cipher, Some expires) \<Rightarrow>
                  if h_date env < expires
                  then (case h_decrypt env cipher sub of Inl err \<Rightarrow> Inl err | Inr previous \<Rightarrow> Inr [current, previous])
                  else Inr [current]
              | _ \<Rightarrow> Inr [current]))"

definition request_body :: "hook_env \<Rightarrow> delivery_row \<Rightarrow> string" where
  "request_body env d =
     h_json env (JObj [(''id'', JStr (wd_event d)), (''type'', JStr (wd_type d)), (''data'', wd_payload d),
       (''time'', JStr (h_iso env (wd_created d)))])"

definition request_headers :: "hook_env \<Rightarrow> delivery_row \<Rightarrow> string list \<Rightarrow> headers" where
  "request_headers env d secrets =
     [(''content-type'', ''application/json''),
      (''x-webhook-signature'', sign_webhook_payload (h_hmac env) (request_body env d) secrets (h_seconds env)),
      (''x-webhook-event-id'', wd_event d), (''x-webhook-event-type'', wd_type d),
      (''x-webhook-idempotency'', wd_key d)]"

text \<open>What the fetch leaves behind: status, headers, captured body and error text.\<close>

definition response_parts ::
  "hook_options \<Rightarrow> fetch_result \<Rightarrow> int option \<times> headers \<times> string option \<times> string option" where
  "response_parts opts res =
     (case res of
        FetchThrew err \<Rightarrow> (None, [], None, Some err)
      | Responded r \<Rightarrow>
          (case hr_body r of
             Inl err \<Rightarrow> (Some (int (hr_status r)), hr_headers r, None, Some err)
           | Inr body \<Rightarrow>
               (Some (int (hr_status r)), hr_headers r, read_capped_body body (wo_capture opts),
                if 200 \<le> hr_status r \<and> hr_status r \<le> 299 then None
                else Some (''HTTP '' @ show_nat (hr_status r) @ '': '' @ hr_status_text r))))"

definition send_request :: "hook_options \<Rightarrow> hook_env \<Rightarrow> delivery_row \<Rightarrow> webhook_endpoint \<Rightarrow> string list \<Rightarrow> hook_outcome" where
  "send_request opts env d e secrets =
     (let hs = request_headers env d secrets;
          body = request_body env d
      in case response_parts opts (h_fetch env (we_url e) hs body) of
           (status, response_headers, captured, err) \<Rightarrow>
             \<lparr>oc_verdict = (case err of None \<Rightarrow> DeliveryOk | Some m \<Rightarrow> DeliveryError m False),
              oc_status = status, oc_org = Some (we_org e),
              oc_attempt = Some (\<lparr>al_request_headers = Some hs, al_request_body = Some body, al_response_status = status,
                al_response_headers = (if response_headers = [] then None else Some response_headers),
                al_response_body = captured, al_duration = Some (h_duration env), al_error = err\<rparr>, True)\<rparr>)"

definition process_delivery :: "hook_options \<Rightarrow> hook_env \<Rightarrow> webhook_db \<Rightarrow> delivery_row \<Rightarrow> hook_outcome throws" where
  "process_delivery opts env db d =
     (case endpoint_find_enabled (h_lookup_error env) (wd_endpoint d) db of
        Inl _ \<Rightarrow> Inr (failed_outcome ''endpoint lookup db error'' False None)
      | Inr None \<Rightarrow> Inr (failed_outcome ''endpoint not found or disabled'' True None)
      | Inr (Some e) \<Rightarrow>
          (case assert_public_url (h_parse env) (h_resolve env) (h_https_only env) 5000 (we_url e) of
             Inl (HostLookupTimeout msg) \<Rightarrow> Inr (failed_outcome msg False (Some (we_org e)))
           | Inl (UrlForbidden _) \<Rightarrow>
               Inr ((failed_outcome ''destination not publicly routable'' True (Some (we_org e)))
                      \<lparr>oc_attempt := Some (refused_log, False)\<rparr>)
           | Inr _ \<Rightarrow>
               (case h_master_key env of
                  Inl err \<Rightarrow> Inl err
                | Inr None \<Rightarrow> Inr (failed_outcome ''WEBHOOK_MASTER_KEY missing'' False (Some (we_org e)))
                | Inr (Some master) \<Rightarrow>
                    (case signing_secrets env master e of
                       Inl _ \<Rightarrow> Inr (failed_outcome ''secret decryption failed'' False (Some (we_org e)))
                     | Inr secrets \<Rightarrow> Inr (send_request opts env d e secrets)))))"

text \<open>\<open>processDelivery(...).catch(...)\<close>.\<close>

definition outcome_of :: "hook_options \<Rightarrow> hook_env \<Rightarrow> webhook_db \<Rightarrow> delivery_row \<Rightarrow> hook_outcome" where
  "outcome_of opts env db d =
     (case process_delivery opts env db d of Inr out \<Rightarrow> out | Inl err \<Rightarrow> failed_outcome err False None)"

section \<open>Settling\<close>

record hook_world =
  hw_db :: webhook_db
  hw_outbox :: outbox_db

text \<open>The open transaction: what it has written so far, and whether a statement of it failed.\<close>

type_synonym hook_tx = "hook_world \<times> bool"

definition in_tx ::
  "(string option \<Rightarrow> webhook_db \<Rightarrow> webhook_db \<times> ('a, string) result) \<Rightarrow> string option \<Rightarrow> hook_tx \<Rightarrow>
   hook_tx \<times> ('a, string) result" where
  "in_tx op err tx =
     (case op (if snd tx then Some ''current transaction is aborted'' else err) (hw_db (fst tx)) of
        (db, Inl e) \<Rightarrow> ((fst tx, True), fail e)
      | (db, Inr a) \<Rightarrow> (((fst tx)\<lparr>hw_db := db\<rparr>, snd tx), ok a))"

definition emit_in_tx ::
  "payload_schema \<Rightarrow> emit_env \<Rightarrow> string \<Rightarrow> string \<Rightarrow> ident \<Rightarrow> json \<Rightarrow> emit_options \<Rightarrow> hook_tx \<Rightarrow> hook_tx throws" where
  "emit_in_tx schema env event kind agg body opts tx =
     (case emit_event schema (if snd tx then env\<lparr>et_db_error := Some ''current transaction is aborted''\<rparr> else env)
             event kind agg body opts (hw_outbox (fst tx)) of
        Inl e \<Rightarrow> Inl e
      | Inr (db, _) \<Rightarrow> Inr ((fst tx)\<lparr>hw_outbox := db\<rparr>, snd tx))"

definition failure_of :: "hook_options \<Rightarrow> hook_env \<Rightarrow> delivery_row \<Rightarrow> string \<Rightarrow> int option \<Rightarrow> bool \<Rightarrow> delivery_failure" where
  "failure_of opts env d err status terminal =
     (if terminal then \<lparr>df_error = err, df_response = status, df_dead = True, df_retry = None\<rparr>
      else case failure_schedule (h_random env) (attempts d)
             \<lparr>was_dead = (wd_status d = DDead), max_attempts = WEBHOOK_MAX_ATTEMPTS, dead_retry_seconds = wo_dead_retry opts\<rparr> of
        (dead, secs) \<Rightarrow> \<lparr>df_error = err, df_response = status, df_dead = dead, df_retry = Some secs\<rparr>)"

definition record_attempt :: "hook_env \<Rightarrow> delivery_row \<Rightarrow> attempt_log \<Rightarrow> hook_tx \<Rightarrow> hook_tx" where
  "record_attempt env d entry tx =
     fst (in_tx (\<lambda>e. create_attempt e (h_now env) (h_attempt_id env) (row_id d) (attempts d) entry) (h_attempt_error env) tx)"

definition reset_endpoint_failures :: "hook_env \<Rightarrow> delivery_row \<Rightarrow> string \<Rightarrow> hook_tx \<Rightarrow> hook_tx" where
  "reset_endpoint_failures env d org tx =
     fst (in_tx (\<lambda>e. reset_failure e (h_date env) (wd_endpoint d) org) (h_endpoint_error env) tx)"

definition exhausted_payload :: "delivery_row \<Rightarrow> string \<Rightarrow> json" where
  "exhausted_payload d org =
     JObj [(''organizationId'', JStr org), (''endpointId'', JStr (wd_endpoint d)), (''deliveryId'', JStr (row_id d)),
       (''eventType'', JStr (wd_type d)), (''attempts'', JNum (attempts d)), (''actorUserId'', JNull)]"

definition disabled_payload :: "delivery_row \<Rightarrow> string \<Rightarrow> int \<Rightarrow> json" where
  "disabled_payload d org failures =
     JObj [(''organizationId'', JStr org), (''endpointId'', JStr (wd_endpoint d)), (''actorUserId'', JNull),
       (''reason'', JStr ''delivery_failures''), (''consecutiveFailures'', JNum failures)]"

definition run_terminal_failure_block ::
  "payload_schema \<Rightarrow> hook_options \<Rightarrow> hook_env \<Rightarrow> delivery_row \<Rightarrow> string \<Rightarrow> hook_tx \<Rightarrow> hook_tx throws" where
  "run_terminal_failure_block schema opts env d org tx =
     (case emit_in_tx schema (h_exhausted env) WEBHOOK_DELIVERY_EXHAUSTED ''webhook_delivery'' (row_id d)
             (exhausted_payload d org) (for_org org) tx of
        Inl e \<Rightarrow> Inl e
      | Inr tx1 \<Rightarrow>
          (case in_tx (\<lambda>e. bump_failure e (h_now env) (h_date env) (wd_endpoint d) org) (h_endpoint_error env) tx1 of
             (tx2, Inl _) \<Rightarrow> Inr tx2
           | (tx2, Inr None) \<Rightarrow> Inr tx2
           | (tx2, Inr (Some bumped)) \<Rightarrow>
               if \<not> should_auto_disable bumped (h_date env) opts then Inr tx2
               else case in_tx (\<lambda>e. mark_disabled e (h_date env) (wd_endpoint d) org (h_date env)) (h_disable_error env) tx2 of
                 (tx3, Inl _) \<Rightarrow> Inr tx3
               | (tx3, Inr _) \<Rightarrow>
                   emit_in_tx schema (h_disabled env) WEBHOOK_ENDPOINT_DISABLED ''webhook_endpoint'' (wd_endpoint d)
                     (disabled_payload d org (fst bumped)) (for_org org) tx3))"

definition settlement_of :: "hook_options \<Rightarrow> hook_env \<Rightarrow> delivery_row \<Rightarrow> hook_outcome \<Rightarrow> delivery_settlement" where
  "settlement_of opts env d out =
     (case oc_verdict out of
        DeliveryOk \<Rightarrow> DeliverySucceeded (oc_status out)
      | DeliveryError err terminal \<Rightarrow> DeliveryFailed (failure_of opts env d err (oc_status out) terminal))"

definition first_death :: "delivery_settlement \<Rightarrow> delivery_row \<Rightarrow> bool" where
  "first_death s d \<longleftrightarrow> (case s of DeliveryFailed f \<Rightarrow> df_dead f \<and> wd_status d \<noteq> DDead | _ \<Rightarrow> False)"

definition settle_body ::
  "payload_schema \<Rightarrow> hook_options \<Rightarrow> hook_env \<Rightarrow> delivery_row \<Rightarrow> hook_outcome \<Rightarrow> hook_world \<Rightarrow>
   (hook_tx \<times> (bool, string) result) throws" where
  "settle_body schema opts env d out w =
     (let s = settlement_of opts env d out
      in case in_tx (\<lambda>e. settle_delivery e (h_now env) s (lease_of d)) (h_settle_error env) (w, False) of
           (tx, Inl e) \<Rightarrow> Inr (tx, fail e)
         | (tx, Inr wrote) \<Rightarrow>
             (let tx1 = (case oc_attempt out of
                           None \<Rightarrow> tx
                         | Some (entry, sent) \<Rightarrow> if wrote \<or> sent then record_attempt env d entry tx else tx)
              in case oc_org out of
                   None \<Rightarrow> Inr (tx1, ok wrote)
                 | Some org \<Rightarrow>
                     if \<not> wrote then Inr (tx1, ok wrote)
                     else if oc_verdict out = DeliveryOk then Inr (reset_endpoint_failures env d org tx1, ok wrote)
                     else if first_death s d
                     then (case run_terminal_failure_block schema opts env d org tx1 of
                             Inl e \<Rightarrow> Inl e
                           | Inr tx2 \<Rightarrow> Inr (tx2, ok wrote))
                     else Inr (tx1, ok wrote)))"

datatype settle_report = SettleThrew string | SettleFailed string | SettleReported bool

text \<open>\<open>settle(...).catch(...)\<close>: whatever it reports, the worker goes on with the next delivery.\<close>

definition hook_settle ::
  "payload_schema \<Rightarrow> hook_options \<Rightarrow> hook_env \<Rightarrow> delivery_row \<Rightarrow> hook_outcome \<Rightarrow> hook_world \<Rightarrow> hook_world \<times> settle_report" where
  "hook_settle schema opts env d out w =
     (case settle_body schema opts env d out w of
        Inl e \<Rightarrow> (w, SettleThrew e)
      | Inr (_, Inl e) \<Rightarrow> (w, SettleFailed e)
      | Inr ((w', aborted), Inr wrote) \<Rightarrow>
          (case h_commit_error env of
             Some e \<Rightarrow> (w, SettleThrew e)
           | None \<Rightarrow> (if aborted then w else w', SettleReported wrote)))"

section \<open>One drain\<close>

definition hook_claim_limit :: "hook_options \<Rightarrow> int" where
  "hook_claim_limit opts = min MAX_CLAIM (units_within_lease (wo_lease opts) DELIVERY_BUDGET)"

fun hook_release :: "(delivery_row \<Rightarrow> string option \<times> instant) \<Rightarrow> delivery_row list \<Rightarrow> webhook_db \<Rightarrow> webhook_db" where
  "hook_release env_of [] db = db"
| "hook_release env_of (d # ds) db =
     hook_release env_of ds (fst (settle_delivery (fst (env_of d)) (snd (env_of d)) DeliveryReleased (lease_of d) db))"

text \<open>
  The loop over the batch: \<open>stop_at i\<close> and \<open>covers i\<close> are what it finds before the \<open>i\<close>-th delivery.
\<close>

fun work_batch ::
  "payload_schema \<Rightarrow> hook_options \<Rightarrow> (delivery_row \<Rightarrow> hook_env) \<Rightarrow> (nat \<Rightarrow> bool) \<Rightarrow> (nat \<Rightarrow> bool) \<Rightarrow> nat \<Rightarrow>
   delivery_row list \<Rightarrow> hook_world \<Rightarrow> hook_world" where
  "work_batch schema opts env_of stop_at covers i [] w = w"
| "work_batch schema opts env_of stop_at covers i (d # ds) w =
     (if stop_at i \<or> (0 < i \<and> \<not> covers i)
      then w\<lparr>hw_db := hook_release (\<lambda>x. (h_settle_error (env_of x), h_now (env_of x))) (d # ds) (hw_db w)\<rparr>
      else work_batch schema opts env_of stop_at covers (Suc i) ds
             (fst (hook_settle schema opts (env_of d) d (outcome_of opts (env_of d) (hw_db w) d) w)))"

record batch_env =
  b_claim_error :: "string option"
  b_now :: instant
  b_locked :: "ident list"
  b_env :: "delivery_row \<Rightarrow> hook_env"
  b_stop :: "nat \<Rightarrow> bool"
  b_covers :: "nat \<Rightarrow> bool"
  b_stopping :: bool

definition drain_batch :: "payload_schema \<Rightarrow> hook_options \<Rightarrow> batch_env \<Rightarrow> hook_world \<Rightarrow> hook_world \<times> nat" where
  "drain_batch schema opts b w =
     (case claim_deliveries (b_claim_error b) (b_now b) (b_locked b)
             \<lparr>dc_limit = nat (hook_claim_limit opts), dc_lease = wo_lease opts\<rparr> (hw_db w) of
        (db, Inl _) \<Rightarrow> (w\<lparr>hw_db := db\<rparr>, 0)
      | (db, Inr batch) \<Rightarrow>
          (work_batch schema opts (b_env b) (b_stop b) (b_covers b) 0 batch (w\<lparr>hw_db := db\<rparr>), length batch))"

text \<open>
  \<open>do ... while (drained === claimLimit && !stopping)\<close>, over the batches it may come to run; the last
  component is whether the loop ended among them.
\<close>

fun hook_drain :: "payload_schema \<Rightarrow> hook_options \<Rightarrow> batch_env list \<Rightarrow> hook_world \<Rightarrow> hook_world \<times> bool" where
  "hook_drain schema opts [] w = (w, False)"
| "hook_drain schema opts (b # bs) w =
     (case drain_batch schema opts b w of
        (w', drained) \<Rightarrow>
          if int drained = hook_claim_limit opts \<and> \<not> b_stopping b then hook_drain schema opts bs w' else (w', True))"

end
