(* ===== verification/Webhook_Correct.thy ===== *)
theory Webhook_Correct
  imports Webhook_Worker
begin

text \<open>
  What the delivery worker guarantees: a settlement is written whole or not at all, its events with
  it; an endpoint is disabled only past its threshold and never in silence; a request leaves only for
  an enabled endpoint whose destination passed the guard, signed with its valid secrets; and a drain
  is a run of the delivery protocol.
\<close>

section \<open>The transaction of a settlement\<close>

lemma in_tx_cases:
  assumes "in_tx op err tx = (tx', r)"
  obtains (failed) e where "r = Inl e" "tx' = (fst tx, True)"
  | (wrote) db a where "r = Inr a" "op (if snd tx then Some ''current transaction is aborted'' else err) (hw_db (fst tx)) = (db, Inr a)"
      "tx' = ((fst tx)\<lparr>hw_db := db\<rparr>, snd tx)"
  using assms by (auto simp: in_tx_def split: prod.splits sum.splits)

definition ids_out :: "hook_world \<Rightarrow> ident set" where
  "ids_out w = row_id ` set (outbox_rows (hw_outbox w))"

lemma emit_in_tx_Inr:
  assumes "emit_in_tx schema env event kind agg body (for_org org) tx = Inr tx'"
  shows "hw_db (fst tx') = hw_db (fst tx)" and "ids_out (fst tx') = insert (et_fresh env) (ids_out (fst tx))"
    and "snd tx' = snd tx" and "set (outbox_rows (hw_outbox (fst tx))) \<subseteq> set (outbox_rows (hw_outbox (fst tx')))"
proof -
  define env1 where "env1 = (if snd tx then env\<lparr>et_db_error := Some ''current transaction is aborted''\<rparr> else env)"
  obtain db i where e: "emit_event schema env1 event kind agg body (for_org org) (hw_outbox (fst tx)) = Inr (db, i)"
    and tx': "tx' = ((fst tx)\<lparr>hw_outbox := db\<rparr>, snd tx)"
    using assms by (auto simp: emit_in_tx_def env1_def split: sum.splits)
  have "i = et_fresh env" using emit_event_Inr(1) [OF e] by (simp add: env1_def for_org_def no_options_def)
  then show "hw_db (fst tx') = hw_db (fst tx)" "ids_out (fst tx') = insert (et_fresh env) (ids_out (fst tx))"
    "snd tx' = snd tx" "set (outbox_rows (hw_outbox (fst tx))) \<subseteq> set (outbox_rows (hw_outbox (fst tx')))"
    using emit_event_Inr(2,3) [OF e] by (simp_all add: tx' ids_out_def)
qed

lemma sql_update_twice:
  "(\<And>r. p r \<Longrightarrow> p (f r)) \<Longrightarrow> sql_update p g (sql_update p f t) = sql_update p (g \<circ> f) t"
  by (simp add: sql_update_def)

lemma find_sql_update: "(\<And>r. p r \<Longrightarrow> p (f r)) \<Longrightarrow> find p (sql_update p f t) = map_option f (find p t)"
  by (induction t) (auto simp: sql_update_def)

text \<open>What a committed settlement does to the endpoint.\<close>

definition bumped :: "hook_env \<Rightarrow> webhook_endpoint \<Rightarrow> webhook_endpoint" where
  "bumped env e = e\<lparr>we_failures := we_failures e + 1,
     we_first_failed := Some (case we_first_failed e of None \<Rightarrow> h_now env | Some t \<Rightarrow> t), we_updated := h_date env\<rparr>"

definition shut :: "hook_env \<Rightarrow> webhook_endpoint \<Rightarrow> webhook_endpoint" where
  "shut env e = e\<lparr>we_enabled := False, we_disabled := Some (h_date env), we_updated := h_date env\<rparr>"

definition over_threshold :: "hook_options \<Rightarrow> hook_env \<Rightarrow> webhook_endpoint \<Rightarrow> bool" where
  "over_threshold opts env e \<longleftrightarrow>
     should_auto_disable (we_failures e + 1, case we_first_failed e of None \<Rightarrow> h_now env | Some t \<Rightarrow> t) (h_date env) opts"

definition trips :: "hook_options \<Rightarrow> hook_env \<Rightarrow> delivery_row \<Rightarrow> string \<Rightarrow> webhook_db \<Rightarrow> bool" where
  "trips opts env d org db \<longleftrightarrow>
     (case find (own_endpoint (wd_endpoint d) org) (wh_endpoints db) of None \<Rightarrow> False | Some e \<Rightarrow> over_threshold opts env e)"

lemma bumped_simps [simp]:
  "we_id (bumped env e) = we_id e" "we_org (bumped env e) = we_org e" "we_enabled (bumped env e) = we_enabled e"
  "we_failures (bumped env e) = we_failures e + 1"
  "we_first_failed (bumped env e) = Some (case we_first_failed e of None \<Rightarrow> h_now env | Some t \<Rightarrow> t)"
  by (simp_all add: bumped_def)

lemma bump_in_tx:
  assumes "in_tx (\<lambda>e. bump_failure e (h_now env) (h_date env) i org) err tx = (tx', Inr r)"
  shows "hw_outbox (fst tx') = hw_outbox (fst tx)" and "snd tx' = snd tx"
    and "hw_db (fst tx') = (hw_db (fst tx))\<lparr>wh_endpoints := sql_update (own_endpoint i org) (bumped env) (wh_endpoints (hw_db (fst tx)))\<rparr>"
    and "r = map_option (\<lambda>e. (we_failures e + 1, case we_first_failed e of None \<Rightarrow> h_now env | Some t \<Rightarrow> t))
           (find (own_endpoint i org) (wh_endpoints (hw_db (fst tx))))"
proof -
  have f: "(\<lambda>e. e\<lparr>we_failures := we_failures e + 1,
      we_first_failed := (case we_first_failed e of None \<Rightarrow> Some (h_now env) | Some t \<Rightarrow> Some t), we_updated := h_date env\<rparr>) = bumped env"
    by (simp add: fun_eq_iff bumped_def split: option.splits)
  show "hw_outbox (fst tx') = hw_outbox (fst tx)" "snd tx' = snd tx"
    "hw_db (fst tx') = (hw_db (fst tx))\<lparr>wh_endpoints := sql_update (own_endpoint i org) (bumped env) (wh_endpoints (hw_db (fst tx)))\<rparr>"
    "r = map_option (\<lambda>e. (we_failures e + 1, case we_first_failed e of None \<Rightarrow> h_now env | Some t \<Rightarrow> t))
           (find (own_endpoint i org) (wh_endpoints (hw_db (fst tx))))"
    using assms
    by (auto simp: in_tx_def bump_failure_def f endpoint_write_def split: prod.splits sum.splits option.splits if_splits)
qed

lemma disable_in_tx:
  assumes "in_tx (\<lambda>e. mark_disabled e (h_date env) i org (h_date env)) err tx = (tx', Inr r)"
  shows "hw_outbox (fst tx') = hw_outbox (fst tx)" and "snd tx' = snd tx"
    and "hw_db (fst tx') = (hw_db (fst tx))\<lparr>wh_endpoints := sql_update (own_endpoint i org) (shut env) (wh_endpoints (hw_db (fst tx)))\<rparr>"
proof -
  have f: "(\<lambda>e. e\<lparr>we_enabled := False, we_disabled := Some (h_date env), we_updated := h_date env\<rparr>) = shut env"
    by (simp add: fun_eq_iff shut_def)
  show "hw_outbox (fst tx') = hw_outbox (fst tx)" "snd tx' = snd tx"
    "hw_db (fst tx') = (hw_db (fst tx))\<lparr>wh_endpoints := sql_update (own_endpoint i org) (shut env) (wh_endpoints (hw_db (fst tx)))\<rparr>"
    using assms by (auto simp: in_tx_def mark_disabled_def f endpoint_write_def split: prod.splits sum.splits if_splits)
qed

lemma in_tx_aborts: "in_tx op err tx = (tx', Inl e) \<Longrightarrow> snd tx'"
  by (auto simp: in_tx_def split: prod.splits sum.splits)

lemma terminal_block_commits:
  assumes "run_terminal_failure_block schema opts env d org (w, False) = Inr (w', False)"
  shows "wh_deliveries (hw_db w') = wh_deliveries (hw_db w) \<and> wh_attempts (hw_db w') = wh_attempts (hw_db w)
    \<and> ids_out w' = insert (et_fresh (h_exhausted env)) (ids_out w)
           \<union> (if trips opts env d org (hw_db w) then {et_fresh (h_disabled env)} else {})
    \<and> wh_endpoints (hw_db w') = sql_update (own_endpoint (wd_endpoint d) org)
           (if trips opts env d org (hw_db w) then shut env \<circ> bumped env else bumped env) (wh_endpoints (hw_db w))"
proof -
  let ?p = "own_endpoint (wd_endpoint d) org"
  obtain tx1 where e1: "emit_in_tx schema (h_exhausted env) WEBHOOK_DELIVERY_EXHAUSTED ''webhook_delivery'' (row_id d)
      (exhausted_payload d org) (for_org org) (w, False) = Inr tx1"
    using assms by (auto simp: run_terminal_failure_block_def split: sum.splits)
  note e = emit_in_tx_Inr [OF e1]
  obtain tx2 r where b: "in_tx (\<lambda>e. bump_failure e (h_now env) (h_date env) (wd_endpoint d) org) (h_endpoint_error env) tx1 = (tx2, r)"
    by (metis prod.exhaust)
  note after = assms [unfolded run_terminal_failure_block_def e1 sum.case b prod.case]
  obtain a where r: "r = Inr a" using after b by (cases r) (auto dest: in_tx_aborts)
  note b = bump_in_tx [OF b [unfolded r]]
  have p: "?p r \<Longrightarrow> ?p (bumped env r)" for r by (simp add: bumped_def)
  show ?thesis
  proof (cases "trips opts env d org (hw_db w)")
    case False
    then have "tx2 = (w', False)"
      using after by (auto simp: r b(4) e trips_def over_threshold_def split: option.splits)
    then show ?thesis using b e False by (auto simp: ids_out_def)
  next
    case True
    then obtain x where x: "find ?p (wh_endpoints (hw_db w)) = Some x" "over_threshold opts env x"
      by (auto simp: trips_def split: option.splits)
    obtain tx3 r3 where m: "in_tx (\<lambda>e. mark_disabled e (h_date env) (wd_endpoint d) org (h_date env)) (h_disable_error env) tx2 = (tx3, r3)"
      by (metis prod.exhaust)
    obtain a3 where r3: "r3 = Inr a3" and d3: "emit_in_tx schema (h_disabled env) WEBHOOK_ENDPOINT_DISABLED ''webhook_endpoint'' (wd_endpoint d)
        (disabled_payload d org (we_failures x + 1)) (for_org org) tx3 = Inr (w', False)"
      using after m by (cases r3) (auto simp: r b(4) e x over_threshold_def [symmetric] dest: in_tx_aborts)
    note m = disable_in_tx [OF m [unfolded r3]]
    show ?thesis using m b e emit_in_tx_Inr [OF d3] True
      by (auto simp: ids_out_def sql_update_twice p)
  qed
qed


lemma emit_in_aborted: "snd tx \<Longrightarrow> emit_in_tx schema env event kind agg body opts tx \<noteq> Inr tx'"
  by (auto simp: emit_in_tx_def emit_event_def Let_def enqueue_def emitted_event_def split: sum.splits option.splits)

lemma settle_in_tx:
  assumes "in_tx (\<lambda>e. settle_delivery e now s l) err (w, False) = (tx, Inr wrote)"
  shows "tx = (w\<lparr>hw_db := hw_db w\<lparr>wh_deliveries := sql_update (\<lambda>r. leased_by r l \<and> unsettled_delivery r)
                 (delivery_changes (now, s)) (wh_deliveries (hw_db w))\<rparr>\<rparr>, False)
    \<and> wrote = list_ex (\<lambda>r. leased_by r l \<and> unsettled_delivery r) (wh_deliveries (hw_db w))"
  using assms by (auto simp: in_tx_def settle_delivery_def Let_def split: prod.splits sum.splits if_splits)

lemma record_attempt_commits:
  assumes "record_attempt env d entry tx = (w', False)"
  shows "\<not> snd tx \<and> hw_outbox w' = hw_outbox (fst tx) \<and> wh_deliveries (hw_db w') = wh_deliveries (hw_db (fst tx))
    \<and> wh_endpoints (hw_db w') = wh_endpoints (hw_db (fst tx))
    \<and> length (wh_attempts (hw_db w')) = Suc (length (wh_attempts (hw_db (fst tx))))"
  using assms by (auto simp: record_attempt_def in_tx_def create_attempt_def split: prod.splits sum.splits if_splits)

definition healed :: "hook_env \<Rightarrow> webhook_endpoint \<Rightarrow> webhook_endpoint" where
  "healed env e = e\<lparr>we_failures := 0, we_first_failed := None, we_updated := h_date env\<rparr>"

lemma reset_commits:
  assumes "reset_endpoint_failures env d org tx = (w', False)"
  shows "\<not> snd tx \<and> hw_outbox w' = hw_outbox (fst tx) \<and> wh_deliveries (hw_db w') = wh_deliveries (hw_db (fst tx))
    \<and> wh_endpoints (hw_db w') = sql_update (own_endpoint (wd_endpoint d) org) (healed env) (wh_endpoints (hw_db (fst tx)))
    \<and> wh_attempts (hw_db w') = wh_attempts (hw_db (fst tx))"
proof -
  have f: "(\<lambda>e. e\<lparr>we_failures := 0, we_first_failed := None, we_updated := h_date env\<rparr>) = healed env"
    by (simp add: fun_eq_iff healed_def)
  show ?thesis using assms
    by (auto simp: reset_endpoint_failures_def in_tx_def reset_failure_def endpoint_write_def f split: prod.splits sum.splits if_splits)
qed

lemma aborted_block: "snd tx \<Longrightarrow> run_terminal_failure_block schema opts env d org tx \<noteq> Inr tx'"
  using emit_in_aborted [of tx] by (auto simp: run_terminal_failure_block_def split: sum.splits)

section \<open>A settlement is written whole or not at all\<close>

text \<open>Which of its parts a settlement has, read off the state it starts from.\<close>

definition holds_lease :: "delivery_row \<Rightarrow> hook_world \<Rightarrow> bool" where
  "holds_lease d w \<longleftrightarrow> list_ex (\<lambda>r. leased_by r (lease_of d) \<and> unsettled_delivery r) (wh_deliveries (hw_db w))"

definition logs_attempt :: "delivery_row \<Rightarrow> hook_outcome \<Rightarrow> hook_world \<Rightarrow> bool" where
  "logs_attempt d out w \<longleftrightarrow> (case oc_attempt out of None \<Rightarrow> False | Some (entry, sent) \<Rightarrow> holds_lease d w \<or> sent)"

definition dies_for :: "hook_options \<Rightarrow> hook_env \<Rightarrow> delivery_row \<Rightarrow> hook_outcome \<Rightarrow> hook_world \<Rightarrow> string option" where
  "dies_for opts env d out w =
     (if holds_lease d w \<and> first_death (settlement_of opts env d out) d then oc_org out else None)"

definition announced_ids :: "hook_options \<Rightarrow> hook_env \<Rightarrow> delivery_row \<Rightarrow> hook_outcome \<Rightarrow> hook_world \<Rightarrow> ident set" where
  "announced_ids opts env d out w =
     (case dies_for opts env d out w of
        None \<Rightarrow> {}
      | Some org \<Rightarrow> insert (et_fresh (h_exhausted env))
          (if trips opts env d org (hw_db w) then {et_fresh (h_disabled env)} else {}))"

definition endpoints_after ::
  "hook_options \<Rightarrow> hook_env \<Rightarrow> delivery_row \<Rightarrow> hook_outcome \<Rightarrow> hook_world \<Rightarrow> webhook_endpoint list" where
  "endpoints_after opts env d out w =
     (case oc_org out of
        None \<Rightarrow> wh_endpoints (hw_db w)
      | Some org \<Rightarrow>
          sql_update (own_endpoint (wd_endpoint d) org)
            (if \<not> holds_lease d w then id
             else if oc_verdict out = DeliveryOk then healed env
             else if dies_for opts env d out w = None then id
             else if trips opts env d org (hw_db w) then shut env \<circ> bumped env else bumped env)
            (wh_endpoints (hw_db w)))"

lemma sql_update_nothing [simp]: "sql_update p id t = t"
  by (simp add: sql_update_def map_idI)

lemma settle_commits:
  assumes "settle_body schema opts env d out w = Inr ((w', False), Inr wrote)"
  shows "wrote = holds_lease d w
    \<and> wh_deliveries (hw_db w') = sql_update (\<lambda>r. leased_by r (lease_of d) \<and> unsettled_delivery r)
         (delivery_changes (h_now env, settlement_of opts env d out)) (wh_deliveries (hw_db w))
    \<and> ids_out w' = ids_out w \<union> announced_ids opts env d out w
    \<and> wh_endpoints (hw_db w') = endpoints_after opts env d out w
    \<and> length (wh_attempts (hw_db w')) = length (wh_attempts (hw_db w)) + (if logs_attempt d out w then 1 else 0)"
proof -
  let ?s = "settlement_of opts env d out"
  obtain tx r where t: "in_tx (\<lambda>e. settle_delivery e (h_now env) ?s (lease_of d)) (h_settle_error env) (w, False) = (tx, r)"
    by (metis prod.exhaust)
  note body = assms [unfolded settle_body_def Let_def t prod.case]
  obtain wr where r: "r = Inr wr" using body t by (cases r) (auto dest: in_tx_aborts)
  note t = settle_in_tx [OF t [unfolded r]]
  have wr: "wr = holds_lease d w" "wr = wrote"
    using t body by (auto simp: r holds_lease_def split: option.splits if_splits sum.splits)
  define tx1 where "tx1 = (case oc_attempt out of None \<Rightarrow> tx
      | Some (entry, sent) \<Rightarrow> if wr \<or> sent then record_attempt env d entry tx else tx)"
  have tx1: "hw_outbox (fst tx1) = hw_outbox w \<and> wh_deliveries (hw_db (fst tx1)) = wh_deliveries (hw_db (fst tx))
      \<and> wh_endpoints (hw_db (fst tx1)) = wh_endpoints (hw_db w)
      \<and> length (wh_attempts (hw_db (fst tx1))) = length (wh_attempts (hw_db w)) + (if logs_attempt d out w then 1 else 0)"
    if "\<not> snd tx1"
    using that t record_attempt_commits [of env d _ tx "fst tx1"]
    by (cases tx1) (auto simp: tx1_def logs_attempt_def wr split: option.splits if_splits)
  show ?thesis
  proof (cases "oc_org out")
    case None
    then have "tx1 = (w', False)" using body wr(2) unfolding tx1_def by (auto simp: r)
    then show ?thesis using tx1 t wr None by (simp add: announced_ids_def dies_for_def endpoints_after_def ids_out_def)
  next
    case (Some org)
    consider (lost) "\<not> wr" "tx1 = (w', False)"
      | (healed) "wr" "oc_verdict out = DeliveryOk" "reset_endpoint_failures env d org tx1 = (w', False)"
      | (dead) "wr" "oc_verdict out \<noteq> DeliveryOk" "first_death ?s d"
          "run_terminal_failure_block schema opts env d org tx1 = Inr (w', False)"
      | (retried) "wr" "oc_verdict out \<noteq> DeliveryOk" "\<not> first_death ?s d" "tx1 = (w', False)"
      using body Some by (simp add: r tx1_def [symmetric] split: if_splits sum.splits)
    then show ?thesis
    proof cases
      case lost
      then show ?thesis using tx1 t wr Some by (simp add: announced_ids_def dies_for_def endpoints_after_def ids_out_def)
    next
      case healed
      have "\<not> first_death ?s d" using healed(2) by (simp add: first_death_def settlement_of_def)
      then show ?thesis using healed reset_commits [OF healed(3)] tx1 t wr Some
        by (simp add: announced_ids_def dies_for_def endpoints_after_def ids_out_def)
    next
      case dead
      then have "\<not> snd tx1" using aborted_block by blast
      then have "run_terminal_failure_block schema opts env d org (fst tx1, False) = Inr (w', False)"
        using dead(4) by (cases tx1) simp
      from terminal_block_commits [OF this] show ?thesis using dead tx1 \<open>\<not> snd tx1\<close> t wr Some
        by (simp add: announced_ids_def dies_for_def endpoints_after_def ids_out_def trips_def)
    next
      case retried
      then show ?thesis using tx1 t wr Some by (simp add: announced_ids_def dies_for_def endpoints_after_def ids_out_def)
    qed
  qed
qed

text \<open>
  C13: a settlement is written whole or not at all. Whole: the row takes its outcome if the worker still
  holds its lease, the attempt is logged if a request left or the row was written, and the outbox
  gains exactly the announcements: that the delivery is exhausted on its first death, that its
  endpoint is disabled when this death takes it past its threshold.
\<close>
theorem webhook_settle_whole:
  assumes "hook_settle schema opts env d out w = (w', rep)"
  shows "w' = w \<or> rep = SettleReported (holds_lease d w)
    \<and> wh_deliveries (hw_db w') = sql_update (\<lambda>r. leased_by r (lease_of d) \<and> unsettled_delivery r)
         (delivery_changes (h_now env, settlement_of opts env d out)) (wh_deliveries (hw_db w))
    \<and> ids_out w' = ids_out w \<union> announced_ids opts env d out w
    \<and> wh_endpoints (hw_db w') = endpoints_after opts env d out w
    \<and> length (wh_attempts (hw_db w')) = length (wh_attempts (hw_db w)) + (if logs_attempt d out w then 1 else 0)"
  using assms settle_commits [of schema opts env d out w w']
  by (auto simp: hook_settle_def split: sum.splits prod.splits option.splits if_splits)

text \<open>
  An endpoint is never disabled in silence: the worker turns one off only with a delivery of it that
  dies for the first time, past the configured failures and days, and together with both events.
\<close>
theorem auto_disable_announced:
  assumes "hook_settle schema opts env d out w = (w', rep)" and "keyed we_id (wh_endpoints (hw_db w))"
    and "e \<in> set (wh_endpoints (hw_db w))" and "e' \<in> set (wh_endpoints (hw_db w'))"
    and "we_id e' = we_id e" and "we_enabled e" and "\<not> we_enabled e'"
  shows "wd_endpoint d = we_id e \<and> over_threshold opts env e \<and> dies_for opts env d out w = Some (we_org e)
    \<and> {et_fresh (h_exhausted env), et_fresh (h_disabled env)} \<subseteq> ids_out w'"
proof -
  have key: "x = e" if "x \<in> set (wh_endpoints (hw_db w))" "we_id x = we_id e" for x
    using keyed_unique [OF assms(2) that(1) assms(3) that(2)] .
  have "w' \<noteq> w" using key assms(4-7) by blast
  then obtain wrote where b: "settle_body schema opts env d out w = Inr ((w', False), Inr wrote)"
    using assms(1) by (auto simp: hook_settle_def split: sum.splits prod.splits option.splits if_splits)
  note c = settle_commits [OF b]
  obtain org where org: "oc_org out = Some org"
    using c key assms(4-7) by (auto simp: endpoints_after_def split: option.splits)
  define F where "F = (if \<not> holds_lease d w then id
      else if oc_verdict out = DeliveryOk then healed env
      else if dies_for opts env d out w = None then id
      else if trips opts env d org (hw_db w) then shut env \<circ> bumped env else bumped env)"
  have F: "we_id (F x) = we_id x" for x by (simp add: F_def healed_def shut_def)
  let ?p = "own_endpoint (wd_endpoint d) org"
  have "wh_endpoints (hw_db w') = sql_update ?p F (wh_endpoints (hw_db w))"
    using c by (simp add: endpoints_after_def org F_def)
  then have "e' \<in> set (sql_update ?p F (wh_endpoints (hw_db w)))" using assms(4) by simp
  then obtain x where "x \<in> set (wh_endpoints (hw_db w))" "e' = (if ?p x then F x else x)"
    by (auto simp: set_sql_update)
  then have "x = e" using key assms(5) F by (cases "?p x") auto
  then have p: "?p e" "e' = F e" using \<open>e' = (if ?p x then F x else x)\<close> assms(6,7) by (auto split: if_splits)
  have off: "dies_for opts env d out w \<noteq> None" "trips opts env d org (hw_db w)"
  proof -
    have "\<not> we_enabled (F e)" using p assms(7) by simp
    then show "dies_for opts env d out w \<noteq> None" "trips opts env d org (hw_db w)"
      using assms(6) by (auto simp: F_def healed_def dies_for_def split: if_splits)
  qed
  then have dies: "dies_for opts env d out w = Some org" using org by (auto simp: dies_for_def split: if_splits)
  obtain y where y: "find ?p (wh_endpoints (hw_db w)) = Some y" "over_threshold opts env y"
    using off(2) by (auto simp: trips_def split: option.splits)
  have "find ?p (wh_endpoints (hw_db w)) = Some y \<Longrightarrow> y \<in> set (wh_endpoints (hw_db w)) \<and> ?p y"
    by (auto simp: find_Some_iff)
  then have "y = e" using key [of y] y(1) p(1) by simp
  then show ?thesis using y dies off p(1) c by (simp add: announced_ids_def)
qed
text \<open>
  The log of an attempt can undo the settlement it belongs to: when its row cannot be written the
  transaction is aborted, the error is only logged, and the commit rolls back. A delivery whose
  endpoint answered well is then reported as settled and stays as it was, to be sent again.
\<close>
theorem attempt_failure_undoes_settlement:
  assumes "oc_verdict out = DeliveryOk" and "oc_org out = Some org" and "oc_attempt out = Some (entry, True)"
    and "holds_lease d w" and "h_settle_error env = None" and "h_attempt_error env = Some m" and "h_commit_error env = None"
  shows "hook_settle schema opts env d out w = (w, SettleReported True)"
  using assms
  by (simp add: hook_settle_def settle_body_def Let_def in_tx_def settle_delivery_def holds_lease_def record_attempt_def
      create_attempt_def reset_endpoint_failures_def reset_failure_def)

section \<open>What is sent\<close>

lemma concat_read_until: "got < cap \<Longrightarrow> take (cap - got) (concat (read_until cap got cs)) = take (cap - got) (concat cs)"
proof (induction cap got cs rule: read_until.induct)
  case (2 cap got c cs)
  show ?case
  proof (cases "got + length c < cap")
    case True
    then show ?thesis using 2 by (simp add: diff_diff_add)
  next
    case False
    then show ?thesis using 2(2) by simp
  qed
qed simp

lemma read_capped_body_take: "read_capped_body (Some cs) cap = Some (take cap (concat cs))"
proof (cases "cap = 0")
  case False
  then show ?thesis using concat_read_until [of 0 cap cs] by (simp add: read_capped_body_def)
qed (simp add: read_capped_body_def)

text \<open>The previous secret counts until it expires.\<close>

definition in_grace :: "hook_env \<Rightarrow> webhook_endpoint \<Rightarrow> bool" where
  "in_grace env e \<longleftrightarrow> we_previous_secret e \<noteq> None
     \<and> (case we_previous_expires e of None \<Rightarrow> False | Some expires \<Rightarrow> h_date env < expires)"

lemma signing_secrets_Inr:
  assumes "signing_secrets env master e = Inr secrets"
  shows "\<exists>current. h_decrypt env (we_secret e) (h_sub_key env master (we_org e)) = Inr current
    \<and> (if in_grace env e
       then \<exists>previous. h_decrypt env (the (we_previous_secret e)) (h_sub_key env master (we_org e)) = Inr previous
              \<and> secrets = [current, previous]
       else secrets = [current])"
  using assms by (auto simp: signing_secrets_def in_grace_def Let_def split: sum.splits option.splits if_splits)


section \<open>A drain is a run of the protocol\<close>

lemma forget:
  "delivery_step\<^sup>*\<^sup>* (db, out, known) (db, removeAll l out, known)"
proof -
  have "delivery_step (db, out, known) (db, filter (\<lambda>x. l \<noteq> x) out, known)" by (rule delivery_step.holders_lost)
  then show ?thesis unfolding removeAll_filter_not_eq by (rule r_into_rtranclp)
qed

lemma settle_is_steps:
  assumes "hook_settle schema opts env d oc w = (w', rep)" and "lease_of d \<in> set out"
  shows "delivery_step\<^sup>*\<^sup>* (hw_db w, out, known) (hw_db w', removeAll (lease_of d) out, known)"
proof (cases "w' = w")
  case True
  then show ?thesis by (simp add: forget)
next
  case False
  then obtain wrote where b: "settle_body schema opts env d oc w = Inr ((w', False), Inr wrote)"
    using assms(1) by (auto simp: hook_settle_def split: sum.splits prod.splits option.splits if_splits)
  define db where "db = fst (settle_delivery None (h_now env) (settlement_of opts env d oc) (lease_of d) (hw_db w))"
  have "delivery_step (hw_db w, out, known) (db, removeAll (lease_of d) out, known)"
    using assms(2) by (rule delivery_step.delivery_settled [where now = "h_now env" and s = "settlement_of opts env d oc"
      and res = "snd (settle_delivery None (h_now env) (settlement_of opts env d oc) (lease_of d) (hw_db w))"])
      (simp add: db_def)
  moreover have "wh_deliveries (hw_db w') = wh_deliveries db"
    using settle_commits [OF b] by (simp add: db_def settle_delivery_def Let_def)
  then have "delivery_step (db, removeAll (lease_of d) out, known) (hw_db w', removeAll (lease_of d) out, known)"
    by (rule delivery_step.others_written)
  ultimately show ?thesis by (meson r_into_rtranclp rtranclp_trans)
qed

lemma release_is_steps:
  assumes "set (map lease_of ds) \<subseteq> set out" and "distinct (map lease_of ds)"
  shows "delivery_step\<^sup>*\<^sup>* (db, out, known) (hook_release env_of ds db, filter (\<lambda>l. l \<notin> set (map lease_of ds)) out, known)"
  using assms
proof (induction ds arbitrary: db out)
  case (Cons d ds)
  let ?db = "fst (settle_delivery (fst (env_of d)) (snd (env_of d)) DeliveryReleased (lease_of d) db)"
  have one: "delivery_step\<^sup>*\<^sup>* (db, out, known) (?db, removeAll (lease_of d) out, known)"
  proof (cases "fst (env_of d)")
    case None
    then have "delivery_step (db, out, known) (?db, removeAll (lease_of d) out, known)"
      using Cons.prems by (intro delivery_step.delivery_settled [where now = "snd (env_of d)" and s = DeliveryReleased
        and res = "snd (settle_delivery (fst (env_of d)) (snd (env_of d)) DeliveryReleased (lease_of d) db)"]) simp_all
    then show ?thesis by (rule r_into_rtranclp)
  next
    case (Some e)
    then show ?thesis using forget [of db out known "lease_of d"] by (simp add: settle_delivery_def Let_def)
  qed
  have "set (map lease_of ds) \<subseteq> set (removeAll (lease_of d) out)" using Cons.prems by auto
  from Cons.IH [OF this, of ?db] Cons.prems(2)
  have "delivery_step\<^sup>*\<^sup>* (?db, removeAll (lease_of d) out, known)
      (hook_release env_of ds ?db, filter (\<lambda>l. l \<notin> set (map lease_of ds)) (removeAll (lease_of d) out), known)" by simp
  moreover have "filter (\<lambda>l. l \<notin> set (map lease_of ds)) (removeAll (lease_of d) out)
      = filter (\<lambda>l. l \<notin> set (map lease_of (d # ds))) out"
    by (auto simp: removeAll_filter_not_eq intro: filter_cong)
  ultimately show ?case using one by (simp del: list.map)
qed simp

lemma batch_is_steps:
  assumes "set (map lease_of ds) \<subseteq> set out" and "distinct (map lease_of ds)"
  shows "delivery_step\<^sup>*\<^sup>* (hw_db w, out, known)
      (hw_db (work_batch schema opts env_of stop_at covers i ds w), filter (\<lambda>l. l \<notin> set (map lease_of ds)) out, known)"
  using assms
proof (induction schema opts env_of stop_at covers i ds w arbitrary: out rule: work_batch.induct)
  case (2 schema opts env_of stop_at covers i d ds w)
  show ?case
  proof (cases "stop_at i \<or> (0 < i \<and> \<not> covers i)")
    case True
    then show ?thesis
      using release_is_steps [OF 2(2,3), of "hw_db w" known "\<lambda>x. (h_settle_error (env_of x), h_now (env_of x))"] by simp
  next
    case False
    let ?o = "outcome_of opts (env_of d) (hw_db w) d"
    let ?w = "fst (hook_settle schema opts (env_of d) d ?o w)"
    have "delivery_step\<^sup>*\<^sup>* (hw_db w, out, known) (hw_db ?w, removeAll (lease_of d) out, known)"
      using 2(2) by (intro settle_is_steps [of schema opts "env_of d" d ?o w ?w "snd (hook_settle schema opts (env_of d) d ?o w)"]) simp_all
    moreover have "set (map lease_of ds) \<subseteq> set (removeAll (lease_of d) out)" "distinct (map lease_of ds)" using 2(2,3) by auto
    note 2(1) [OF False this]
    moreover have "filter (\<lambda>l. l \<notin> set (map lease_of ds)) (removeAll (lease_of d) out)
        = filter (\<lambda>l. l \<notin> set (map lease_of (d # ds))) out"
      by (auto simp: removeAll_filter_not_eq intro: filter_cong)
    moreover have "work_batch schema opts env_of stop_at covers i (d # ds) w
        = work_batch schema opts env_of stop_at covers (Suc i) ds ?w"
      using False by auto
    ultimately show ?thesis by (simp only:)
  qed
qed simp

lemma drain_batch_is_steps:
  assumes "delivery_inv (hw_db w, out, known)" and "drain_batch schema opts b w = (w', n)"
  shows "delivery_step\<^sup>*\<^sup>* (hw_db w, out, known) (hw_db w', out, known)"
proof (cases "snd (claim_deliveries (b_claim_error b) (b_now b) (b_locked b)
    \<lparr>dc_limit = nat (hook_claim_limit opts), dc_lease = wo_lease opts\<rparr> (hw_db w))")
  case (Inl e)
  then have "w' = w" using assms(2) by (auto simp: drain_batch_def claim_deliveries_def split: if_splits)
  then show ?thesis by simp
next
  case (Inr rs)
  define db where "db = fst (claim_deliveries None (b_now b) (b_locked b)
    \<lparr>dc_limit = nat (hook_claim_limit opts), dc_lease = wo_lease opts\<rparr> (hw_db w))"
  have c: "claim_deliveries None (b_now b) (b_locked b)
      \<lparr>dc_limit = nat (hook_claim_limit opts), dc_lease = wo_lease opts\<rparr> (hw_db w) = (db, Inr rs)"
    and none: "b_claim_error b = None"
    using Inr by (auto simp: claim_deliveries_def db_def split: if_splits)
  have w': "w' = work_batch schema opts (b_env b) (b_stop b) (b_covers b) 0 rs (w\<lparr>hw_db := db\<rparr>)"
    using assms(2) by (simp add: drain_batch_def none c)
  have step: "delivery_step (hw_db w, out, known) (db, map lease_of rs @ out, known)"
    using c by (rule delivery_step.deliveries_claimed)
  then have "delivery_inv (db, map lease_of rs @ out, known)" using assms(1) by (rule delivery_step_inv)
  then have dist: "distinct (map lease_of rs @ out)" by (simp add: delivery_inv_def lease_inv_def)
  have "filter (\<lambda>l. l \<notin> set (map lease_of rs)) (map lease_of rs @ out) = out"
  proof -
    have "filter (\<lambda>l. l \<notin> set (map lease_of rs)) (map lease_of rs) = []" by (simp add: filter_empty_conv del: set_map)
    moreover have "filter (\<lambda>l. l \<notin> set (map lease_of rs)) out = out"
      using dist by (intro filter_True) (auto simp del: set_map)
    ultimately show ?thesis by simp
  qed
  moreover have "delivery_step\<^sup>*\<^sup>* (hw_db (w\<lparr>hw_db := db\<rparr>), map lease_of rs @ out, known)
      (hw_db w', filter (\<lambda>l. l \<notin> set (map lease_of rs)) (map lease_of rs @ out), known)"
    unfolding w' using dist by (intro batch_is_steps) simp_all
  ultimately show ?thesis using step by (simp add: converse_rtranclp_into_rtranclp del: filter_append)
qed

lemma steps_inv: "delivery_step\<^sup>*\<^sup>* c c' \<Longrightarrow> delivery_inv c \<Longrightarrow> delivery_inv c'"
  by (induction rule: rtranclp_induct) (simp_all add: delivery_step_inv)

text \<open>
  A drain of the worker, over however many batches, is a run of the delivery protocol at whose
  end it holds nothing: every delivery it claimed was settled, released or dropped, none is kept. What
  no interleaving breaks therefore holds of any number of workers.
\<close>
theorem hook_drain_refines_protocol:
  assumes "delivery_inv (hw_db w, out, known)" and "hook_drain schema opts bs w = (w', ended)"
  shows "delivery_step\<^sup>*\<^sup>* (hw_db w, out, known) (hw_db w', out, known)"
  using assms
proof (induction schema opts bs w rule: hook_drain.induct)
  case (2 schema opts b bs w)
  obtain w1 n where d: "drain_batch schema opts b w = (w1, n)" by (metis prod.exhaust)
  note s = drain_batch_is_steps [OF 2(2) d]
  show ?case
  proof (cases "int n = hook_claim_limit opts \<and> \<not> b_stopping b")
    case True
    then have "hook_drain schema opts bs w1 = (w', ended)" using 2(3) by (simp add: d)
    from 2(1) [OF d [symmetric] True steps_inv [OF s 2(2)] this] show ?thesis using s by (rule rtranclp_trans [rotated])
  next
    case False
    then have "w' = w1" using 2(3) d by auto
    then show ?thesis using s by simp
  qed
qed simp

section \<open>A concrete delivery\<close>

definition example_emit :: "ident \<Rightarrow> emit_env" where
  "example_emit i = \<lparr>et_db_error = None, et_request = None, et_fresh = i, et_date = 5000\<rparr>"

definition example_hook_env :: hook_env where
  "example_hook_env = \<lparr>h_lookup_error = None,
     h_parse = (\<lambda>s. Some \<lparr>url_protocol = ''https:'', url_username = [], url_password = [], url_hostname = ''x''\<rparr>),
     h_resolve = (\<lambda>_. Addresses [''8.8.8.8'']), h_https_only = True, h_master_key = Inr (Some ''m''), h_sub_key = (\<lambda>m org. m),
     h_decrypt = (\<lambda>c k. Inr c), h_hmac = (\<lambda>s b. s), h_json = (\<lambda>_. ''{}''), h_iso = (\<lambda>_. []), h_date = 5000, h_seconds = 5,
     h_duration = 2, h_fetch = (\<lambda>_ _ _. Responded \<lparr>hr_status = 200, hr_status_text = ''OK'', hr_headers = [], hr_body = Inr None\<rparr>),
     h_random = 0, h_now = 5000, h_settle_error = None, h_attempt_error = None, h_attempt_id = ''a1'', h_endpoint_error = None,
     h_disable_error = None, h_exhausted = example_emit ''e1'', h_disabled = example_emit ''e2'', h_commit_error = None\<rparr>"

definition example_hook_options :: hook_options where
  "example_hook_options = \<lparr>wo_lease = 120, wo_dead_retry = 3600, wo_min_failures = 1, wo_after_days = 0, wo_capture = 10\<rparr>"

definition example_hook_world :: hook_world where
  "example_hook_world = \<lparr>hw_db = example_hooks (claimed_set 1000 60 example_delivery),
     hw_outbox = \<lparr>outbox_rows = [], notified = 0\<rparr>\<rparr>"

definition example_failing :: hook_world where
  "example_failing = example_hook_world\<lparr>hw_db := (hw_db example_hook_world)
     \<lparr>wh_endpoints := map (\<lambda>e. e\<lparr>we_first_failed := Some 3\<rparr>) (wh_endpoints (hw_db example_hook_world))\<rparr>\<rparr>"

abbreviation "example_held \<equiv> claimed_set 1000 60 example_delivery"
abbreviation "example_schema \<equiv> (\<lambda>_. Some (\<lambda>_. None)) :: payload_schema"
abbreviation "example_refusal \<equiv> failed_outcome ''gone'' True (Some ''o'')"

lemmas example_settle_simps = example_hook_env_def example_hook_options_def example_hook_world_def example_failing_def
  example_emit_def example_hooks_def example_delivery_def pending_delivery_def claimed_set_def lease_of_def new_endpoint_def
  failed_outcome_def leased_by_def unsettled_delivery_def

abbreviation "example_settlement \<equiv>
  hook_settle example_schema example_hook_options example_hook_env example_held example_refusal example_failing"

lemmas example_run_simps = hook_settle_def settle_body_def Let_def settlement_of_def failure_of_def in_tx_def settle_delivery_def
  first_death_def run_terminal_failure_block_def emit_in_tx_def emit_event_def enqueue_def bump_failure_def
  should_auto_disable_def mark_disabled_def endpoint_write_def emitted_event_def assert_payload_valid_def
  domain_event_to_outbox_row_def for_org_def no_options_def

lemma example_settled:
  "snd example_settlement = SettleReported True \<and> map we_enabled (wh_endpoints (hw_db (fst example_settlement))) = [False]"
  by (simp add: example_run_simps example_settle_simps)

lemma example_announced:
  "announced_ids example_hook_options example_hook_env example_held example_refusal example_failing = {''e1'', ''e2''}"
  by (simp add: announced_ids_def dies_for_def holds_lease_def trips_def over_threshold_def should_auto_disable_def
      settlement_of_def failure_of_def first_death_def example_settle_simps)

theorem webhook_settle_whole_witness: "ids_out (fst example_settlement) = {''e1'', ''e2''}"
proof -
  have "map we_enabled (wh_endpoints (hw_db example_failing)) = [True]" by (simp add: example_settle_simps)
  then have "fst example_settlement \<noteq> example_failing" using example_settled by auto
  moreover have "ids_out example_failing = {}" by (simp add: ids_out_def example_settle_simps)
  ultimately show ?thesis
    using webhook_settle_whole [OF surjective_pairing [of example_settlement]] example_announced by simp
qed

theorem auto_disable_announced_witness: "{''e1'', ''e2''} \<subseteq> ids_out (fst example_settlement)"
proof -
  obtain e' where e': "wh_endpoints (hw_db (fst example_settlement)) = [e']" "\<not> we_enabled e'"
    using example_settled by auto
  obtain e where e: "wh_endpoints (hw_db example_failing) = [e]" "we_enabled e" "we_id e = ''h1''" "keyed we_id [e]"
    by (simp add: example_settle_simps keyed_def)
  have "we_id e' = ''h1''" using e'(1) by (auto simp: example_run_simps example_settle_simps)
  then show ?thesis
    using auto_disable_announced [OF surjective_pairing [of example_settlement], of e e'] e e'
    by (simp add: example_hook_env_def example_emit_def)
qed

theorem attempt_failure_undoes_settlement_witness:
  "hook_settle example_schema example_hook_options (example_hook_env\<lparr>h_attempt_error := Some ''invalid byte sequence''\<rparr>)
     example_held (send_request example_hook_options example_hook_env example_held (hd (wh_endpoints (hw_db example_hook_world))) [''s''])
     example_hook_world = (example_hook_world, SettleReported True)"
  by (rule attempt_failure_undoes_settlement)
     (simp_all add: send_request_def Let_def response_parts_def read_capped_body_def holds_lease_def example_settle_simps)

lemma example_guard:
  "assert_public_url (h_parse example_hook_env) (h_resolve example_hook_env) (h_https_only example_hook_env) 5000 u =
     Inr \<lparr>url_protocol = ''https:'', url_username = [], url_password = [], url_hostname = ''x''\<rparr>"
proof -
  have "v4_of ''8.8.8.8'' = Some 134744072" by (simp add: v4_of_def v4_octet_def decimal_def is_digit_def less_eq_char_def)
  moreover have "\<not> blocked_v4 134744072"
    by (simp add: blocked_v4_ranges private_quad_def)
  ultimately show ?thesis by (simp add: assert_public_url_def example_hook_env_def is_private_or_reserved_address_def)
qed


definition example_batch :: batch_env where
  "example_batch = \<lparr>b_claim_error = None, b_now = 100000, b_locked = [], b_env = (\<lambda>_. example_hook_env), b_stop = (\<lambda>_. False),
     b_covers = (\<lambda>_. True), b_stopping = False\<rparr>"

theorem hook_drain_refines_protocol_witness:
  "delivery_step\<^sup>*\<^sup>* (hw_db example_hook_world, [], {''d1''})
     (hw_db (fst (hook_drain example_schema example_hook_options [example_batch] example_hook_world)), [], {''d1''})"
proof -
  have "delivery_inv (hw_db example_hook_world, [], {''d1''})"
    by (simp add: delivery_inv_def keyed_def lease_inv_def example_settle_simps)
  from hook_drain_refines_protocol [OF this surjective_pairing] show ?thesis .
qed

end
