(* ===== verification/Webhook_Service.thy ===== *)
theory Webhook_Service
  imports Webhook_Correct
begin

text \<open>
  \<open>apps/api/src/modules/webhooks/application/services/webhooks.service.ts\<close>: what the members of an
  organisation do with its endpoints and deliveries; and \<open>apps/api/src/shared/aead.ts\<close>, how
  their secrets are sealed.

  \<open>service_env\<close> holds what one call reads from outside: the driver's errors, the guard's parser and
  resolver, the master key, the random secret and nonce, the cipher and base64 of the cryptographic
  libraries, clocks and fresh ids.
\<close>

section \<open>Sealing secrets\<close>

definition NONCE_BYTES :: nat where "NONCE_BYTES = 24"
definition MIN_CIPHERTEXT_BYTES :: nat where "MIN_CIPHERTEXT_BYTES = NONCE_BYTES + 16"

definition master_key_from_hex :: "(string \<Rightarrow> string) \<Rightarrow> string \<Rightarrow> string throws" where
  "master_key_from_hex unhex hex =
     (if length hex \<noteq> 64 then Inl ''WEBHOOK_MASTER_KEY must be 64 hex chars (32 bytes)'' else Inr (unhex hex))"

text \<open>The provider keeps the key it loaded first; a call that throws leaves it unloaded.\<close>

record key_cache =
  loaded :: bool
  cached :: "string option"

definition provide_master_key :: "(string \<Rightarrow> string) \<Rightarrow> string option \<Rightarrow> key_cache \<Rightarrow> key_cache \<times> string option throws" where
  "provide_master_key unhex hex cache =
     (case hex of
        None \<Rightarrow> (cache, Inr None)
      | Some h \<Rightarrow>
          if h = [] then (cache, Inr None)
          else if loaded cache then (cache, Inr (cached cache))
          else case master_key_from_hex unhex h of
            Inl e \<Rightarrow> (cache, Inl e)
          | Inr k \<Rightarrow> (\<lparr>loaded = True, cached = Some k\<rparr>, Inr (Some k)))"

definition derive_org_sub_key :: "(string \<Rightarrow> string \<Rightarrow> nat \<Rightarrow> string) \<Rightarrow> string \<Rightarrow> string \<Rightarrow> string" where
  "derive_org_sub_key hkdf master org = hkdf master (''webhook-secret:'' @ org) 32"

definition encrypt_secret ::
  "(string \<Rightarrow> string) \<Rightarrow> (string \<Rightarrow> string \<Rightarrow> string \<Rightarrow> string) \<Rightarrow> string \<Rightarrow> string \<Rightarrow> string \<Rightarrow> string" where
  "encrypt_secret base64 seal nonce plaintext sub = base64 (nonce @ seal sub nonce plaintext)"

definition decrypt_secret ::
  "(string \<Rightarrow> string) \<Rightarrow> (string \<Rightarrow> string \<Rightarrow> string \<Rightarrow> string throws) \<Rightarrow> string \<Rightarrow> string \<Rightarrow> string throws" where
  "decrypt_secret unbase64 opens encrypted sub =
     (let combined = unbase64 encrypted
      in if length combined < MIN_CIPHERTEXT_BYTES then Inl ''invalid ciphertext: too short''
         else opens sub (take NONCE_BYTES combined) (drop NONCE_BYTES combined))"

text \<open>What the code relies on of the libraries: base64 and the cipher undo themselves, and a sealed
  text carries a tag of 16 bytes.\<close>

definition codec_laws ::
  "(string \<Rightarrow> string) \<Rightarrow> (string \<Rightarrow> string) \<Rightarrow> (string \<Rightarrow> string \<Rightarrow> string \<Rightarrow> string) \<Rightarrow>
   (string \<Rightarrow> string \<Rightarrow> string \<Rightarrow> string throws) \<Rightarrow> bool" where
  "codec_laws base64 unbase64 seal opens \<longleftrightarrow>
     (\<forall>s. unbase64 (base64 s) = s) \<and> (\<forall>k n p. opens k n (seal k n p) = Inr p) \<and> (\<forall>k n p. 16 \<le> length (seal k n p))"

lemma decrypt_encrypt:
  assumes "codec_laws base64 unbase64 seal opens" and "length nonce = NONCE_BYTES"
  shows "decrypt_secret unbase64 opens (encrypt_secret base64 seal nonce plaintext sub) sub = Inr plaintext"
proof -
  have "16 \<le> length (seal sub nonce plaintext)" "unbase64 (base64 (nonce @ seal sub nonce plaintext)) = nonce @ seal sub nonce plaintext"
    "opens sub nonce (seal sub nonce plaintext) = Inr plaintext" using assms(1) unfolding codec_laws_def by blast+
  then show ?thesis
    using assms(2) by (simp add: decrypt_secret_def encrypt_secret_def MIN_CIPHERTEXT_BYTES_def Let_def)
qed

section \<open>The calls\<close>

record service_env =
  v_parse :: "string \<Rightarrow> parsed_url option"
  v_resolve :: "string \<Rightarrow> lookup_result"
  v_https_only :: bool
  v_master :: "string option throws"
  v_sub_key :: "string \<Rightarrow> string \<Rightarrow> string"
  v_seal :: "string \<Rightarrow> string \<Rightarrow> string \<Rightarrow> string"
  v_base64 :: "string \<Rightarrow> string"
  v_secret :: string
  v_nonce :: string
  v_lookup_error :: "string option"
  v_write_error :: "string option"
  v_commit_error :: "string option"
  v_emit :: emit_env
  v_now :: instant
  v_date :: instant
  v_fresh :: ident
  v_fresh_key :: ident
  v_others :: "hook_world \<Rightarrow> hook_world"

text \<open>\<open>v_others\<close>: what other transactions commit between a lookup and the transaction it leads to.\<close>

datatype service_error = UrlRefused string | MasterKeyUnavailable | RepoFailed string

definition ssrf_message :: "ssrf_error \<Rightarrow> string" where
  "ssrf_message e = (case e of UrlForbidden m \<Rightarrow> m | HostLookupTimeout m \<Rightarrow> m)"

definition guard_url :: "service_env \<Rightarrow> string \<Rightarrow> (parsed_url, ssrf_error) result" where
  "guard_url env url = assert_public_url (v_parse env) (v_resolve env) (v_https_only env) 5000 url"

definition emit_for ::
  "payload_schema \<Rightarrow> service_env \<Rightarrow> string \<Rightarrow> string \<Rightarrow> ident \<Rightarrow> json \<Rightarrow> string \<Rightarrow> hook_world \<Rightarrow> (hook_world \<times> ident) throws" where
  "emit_for schema env event kind agg body org w =
     (case emit_event schema (v_emit env) event kind agg body (for_org org) (hw_outbox w) of
        Inl e \<Rightarrow> Inl e
      | Inr (ob, i) \<Rightarrow> Inr (w\<lparr>hw_outbox := ob\<rparr>, i))"

text \<open>A repository write, and one event if it did something: what the transactions have in common.\<close>

definition write_then_emit ::
  "payload_schema \<Rightarrow> service_env \<Rightarrow> (webhook_db \<Rightarrow> webhook_db \<times> ('a, string) result) \<Rightarrow> ('a \<Rightarrow> bool) \<Rightarrow>
   string \<Rightarrow> string \<Rightarrow> ('a \<Rightarrow> ident) \<Rightarrow> ('a \<Rightarrow> json) \<Rightarrow> string \<Rightarrow> hook_world \<Rightarrow> hook_world \<times> ('a, string) result throws" where
  "write_then_emit schema env op acts event kind agg body org w =
     uow_run (v_commit_error env) (\<lambda>w1.
       case op (hw_db w1) of
         (db, Inl e) \<Rightarrow> Inr (w1, fail e)
       | (db, Inr a) \<Rightarrow>
           if \<not> acts a then Inr (w1\<lparr>hw_db := db\<rparr>, ok a)
           else case emit_for schema env event kind (agg a) (body a) org (w1\<lparr>hw_db := db\<rparr>) of
             Inl x \<Rightarrow> Inl x
           | Inr (w2, i) \<Rightarrow> Inr (w2, ok a)) w"

definition test_payload :: "ident \<Rightarrow> string \<Rightarrow> ident \<Rightarrow> json" where
  "test_payload i org actor =
     JObj [(''organizationId'', JStr org), (''endpointId'', JStr i), (''actorUserId'', JStr actor)]"

definition send_test ::
  "payload_schema \<Rightarrow> service_env \<Rightarrow> ident \<Rightarrow> string \<Rightarrow> ident \<Rightarrow> hook_world \<Rightarrow>
   hook_world \<times> (delivery_row option, string) result throws" where
  "send_test schema env i org actor w =
     (case endpoint_find (v_lookup_error env) i org (hw_db w) of
        Inl e \<Rightarrow> (w, Inr (fail e))
      | Inr None \<Rightarrow> (w, Inr (ok None))
      | Inr (Some _) \<Rightarrow>
          uow_run (v_commit_error env) (\<lambda>w1.
            case emit_for schema env WEBHOOK_TEST ''webhook_endpoint'' i (test_payload i org actor) org w1 of
              Inl x \<Rightarrow> Inl x
            | Inr (w2, ev) \<Rightarrow>
                (case enqueue_targeted (v_write_error env) (v_now env) (v_fresh env) i ev WEBHOOK_TEST
                        (test_payload i org actor) (''test:'' @ ev) (hw_db w2) of
                   (db, Inl e) \<Rightarrow> Inr (w2, fail e)
                 | (db, Inr d) \<Rightarrow> Inr (w2\<lparr>hw_db := db\<rparr>, ok (Some d)))) (v_others env w))"

definition repo_failures ::
  "hook_world \<times> ('a, string) result throws \<Rightarrow> hook_world \<times> ('a, service_error) result throws" where
  "repo_failures r = (case r of
     (w, Inl x) \<Rightarrow> (w, Inl x)
   | (w, Inr (Inl e)) \<Rightarrow> (w, Inr (fail (RepoFailed e)))
   | (w, Inr (Inr a)) \<Rightarrow> (w, Inr (ok a)))"

definition created_payload :: "ident \<Rightarrow> webhook_endpoint \<Rightarrow> json" where
  "created_payload actor e =
     JObj [(''organizationId'', JStr (we_org e)), (''actorUserId'', JStr actor), (''endpointId'', JStr (we_id e)),
       (''url'', JStr (we_url e)), (''eventTypes'', JArr (map JStr (we_event_types e))), (''enabled'', JBool (we_enabled e))]"

text \<open>\<open>test_env\<close> is what the test delivery after the creation reads; its failures are only logged.\<close>

definition create_endpoint ::
  "payload_schema \<Rightarrow> service_env \<Rightarrow> service_env \<Rightarrow> string \<Rightarrow> ident \<Rightarrow> string \<Rightarrow> string list \<Rightarrow> bool \<Rightarrow> hook_world \<Rightarrow>
   hook_world \<times> (webhook_endpoint \<times> string, service_error) result throws" where
  "create_endpoint schema env test_env org actor url types enabled w =
     (case guard_url env url of
        Inl e \<Rightarrow> (w, Inr (fail (UrlRefused (ssrf_message e))))
      | Inr _ \<Rightarrow>
          (case v_master env of
             Inl x \<Rightarrow> (w, Inl x)
           | Inr None \<Rightarrow> (w, Inr (fail MasterKeyUnavailable))
           | Inr (Some master) \<Rightarrow>
               (case repo_failures (write_then_emit schema env
                       (endpoint_insert (v_write_error env) (v_now env)
                          \<lparr>ce_id = v_fresh env, ce_org = org, ce_url = url,
                           ce_secret = encrypt_secret (v_base64 env) (v_seal env) (v_nonce env) (v_secret env) (v_sub_key env master org),
                           ce_event_types = types, ce_enabled = enabled\<rparr>)
                       (\<lambda>_. True) WEBHOOK_ENDPOINT_CREATED ''webhook_endpoint'' we_id (created_payload actor) org w) of
                  (w1, Inl x) \<Rightarrow> (w1, Inl x)
                | (w1, Inr (Inl e)) \<Rightarrow> (w1, Inr (fail e))
                | (w1, Inr (Inr e)) \<Rightarrow>
                    (fst (send_test schema test_env (we_id e) org actor w1), Inr (ok (e, v_secret env))))))"

definition update_payload :: "ident \<Rightarrow> endpoint_update \<Rightarrow> json" where
  "update_payload actor a =
     JObj [(''organizationId'', JStr (ue_org a)), (''actorUserId'', JStr actor), (''endpointId'', JStr (ue_id a)),
       (''changes'', JObj ((case ue_url a of None \<Rightarrow> [] | Some u \<Rightarrow> [(''url'', JStr u)])
          @ (case ue_event_types a of None \<Rightarrow> [] | Some ts \<Rightarrow> [(''eventTypes'', JArr (map JStr ts))])
          @ (case ue_enabled a of None \<Rightarrow> [] | Some b \<Rightarrow> [(''enabled'', JBool b)])))]"

definition update_endpoint ::
  "payload_schema \<Rightarrow> service_env \<Rightarrow> ident \<Rightarrow> endpoint_update \<Rightarrow> hook_world \<Rightarrow>
   hook_world \<times> (webhook_endpoint option, service_error) result throws" where
  "update_endpoint schema env actor a w =
     (case (case ue_url a of None \<Rightarrow> None | Some u \<Rightarrow> (case guard_url env u of Inl e \<Rightarrow> Some e | Inr _ \<Rightarrow> None)) of
        Some e \<Rightarrow> (w, Inr (fail (UrlRefused (ssrf_message e))))
      | None \<Rightarrow>
          repo_failures (write_then_emit schema env (endpoint_modify (v_write_error env) (v_date env) a)
            (\<lambda>row. row \<noteq> None) WEBHOOK_ENDPOINT_UPDATED ''webhook_endpoint'' (\<lambda>_. ue_id a) (\<lambda>_. update_payload actor a)
            (ue_org a) w))"

definition delete_endpoint ::
  "payload_schema \<Rightarrow> service_env \<Rightarrow> ident \<Rightarrow> string \<Rightarrow> ident \<Rightarrow> hook_world \<Rightarrow>
   hook_world \<times> (bool, service_error) result throws" where
  "delete_endpoint schema env i org actor w =
     repo_failures (write_then_emit schema env (endpoint_delete (v_write_error env) i org) id
       WEBHOOK_ENDPOINT_DELETED ''webhook_endpoint'' (\<lambda>_. i)
       (\<lambda>_. JObj [(''organizationId'', JStr org), (''actorUserId'', JStr actor), (''endpointId'', JStr i)]) org w)"

definition replayed_payload :: "string \<Rightarrow> ident \<Rightarrow> ident \<Rightarrow> ident \<Rightarrow> ident \<Rightarrow> json" where
  "replayed_payload org endpoint delivery new actor =
     JObj [(''organizationId'', JStr org), (''endpointId'', JStr endpoint), (''deliveryId'', JStr delivery),
       (''replayedDeliveryId'', JStr new), (''actorUserId'', JStr actor)]"

definition replay_delivery ::
  "payload_schema \<Rightarrow> service_env \<Rightarrow> ident \<Rightarrow> ident \<Rightarrow> string \<Rightarrow> ident \<Rightarrow> hook_world \<Rightarrow>
   hook_world \<times> (delivery_row option, service_error) result throws" where
  "replay_delivery schema env i endpoint org actor w =
     repo_failures (write_then_emit schema env
       (enqueue_replay (v_write_error env) (v_now env) (v_fresh env) (v_fresh_key env) i endpoint org)
       (\<lambda>row. row \<noteq> None) WEBHOOK_DELIVERY_REPLAYED ''webhook_delivery'' (\<lambda>_. i)
       (\<lambda>row. replayed_payload org endpoint i (case row of Some r \<Rightarrow> row_id r | None \<Rightarrow> []) actor) org w)"

text \<open>The transaction of a rotation announces it whether or not a row was there to take the new secret.\<close>

definition rotation_commit ::
  "payload_schema \<Rightarrow> service_env \<Rightarrow> ident \<Rightarrow> string \<Rightarrow> ident \<Rightarrow> string \<Rightarrow> string \<Rightarrow> instant \<Rightarrow> hook_world \<Rightarrow>
   hook_world \<times> (webhook_endpoint option, string) result throws" where
  "rotation_commit schema env i org actor cipher previous expires w =
     write_then_emit schema env
       (apply_secret_rotation (v_write_error env) (v_date env) i org cipher previous expires)
       (\<lambda>_. True) WEBHOOK_ENDPOINT_SECRET_ROTATED ''webhook_endpoint'' (\<lambda>_. i) (\<lambda>_. test_payload i org actor) org w"

definition rotate_secret ::
  "payload_schema \<Rightarrow> service_env \<Rightarrow> int \<Rightarrow> ident \<Rightarrow> string \<Rightarrow> ident \<Rightarrow> hook_world \<Rightarrow>
   hook_world \<times> ((webhook_endpoint \<times> string) option, service_error) result throws" where
  "rotate_secret schema env grace_hours i org actor w =
     (case v_master env of
        Inl x \<Rightarrow> (w, Inl x)
      | Inr None \<Rightarrow> (w, Inr (fail MasterKeyUnavailable))
      | Inr (Some master) \<Rightarrow>
          (case endpoint_find (v_lookup_error env) i org (hw_db w) of
             Inl e \<Rightarrow> (w, Inr (fail (RepoFailed e)))
           | Inr None \<Rightarrow> (w, Inr (ok None))
           | Inr (Some e) \<Rightarrow>
               (case repo_failures (rotation_commit schema env i org actor
                       (encrypt_secret (v_base64 env) (v_seal env) (v_nonce env) (v_secret env) (v_sub_key env master org))
                       (we_secret e) (v_date env + grace_hours * 3600000) (v_others env w)) of
                  (w1, Inl x) \<Rightarrow> (w1, Inl x)
                | (w1, Inr (Inl err)) \<Rightarrow> (w1, Inr (fail err))
                | (w1, Inr (Inr None)) \<Rightarrow> (w1, Inr (ok None))
                | (w1, Inr (Inr (Some row))) \<Rightarrow> (w1, Inr (ok (Some (row, v_secret env)))))))"

end
