(* ===== verification/Webhook_Tenants.thy ===== *)
theory Webhook_Tenants
  imports Webhook_Service
begin

text \<open>
  What the webhook service guarantees its tenants: no call of one organisation changes what another
  one has, the tables keep their keys and references, every change is announced with it, and a
  rotated secret stays usable for its grace period.
\<close>

section \<open>Tables in order\<close>

definition tables_ok :: "webhook_db \<Rightarrow> bool" where
  "tables_ok db \<longleftrightarrow> keyed we_id (wh_endpoints db) \<and> keyed row_id (wh_deliveries db) \<and> keyed wd_key (wh_deliveries db)
     \<and> keyed wa_id (wh_attempts db) \<and> wd_endpoint ` set (wh_deliveries db) \<subseteq> we_id ` set (wh_endpoints db)
     \<and> wa_delivery ` set (wh_attempts db) \<subseteq> row_id ` set (wh_deliveries db)"

text \<open>What one organisation has: its endpoints, their deliveries, and the attempts of these.\<close>

definition share :: "string \<Rightarrow> webhook_db \<Rightarrow> webhook_endpoint list \<times> delivery_row list \<times> attempt_row list" where
  "share org db =
     (filter (\<lambda>e. we_org e = org) (wh_endpoints db),
      filter (visible_to org db) (wh_deliveries db),
      filter (\<lambda>a. list_ex (\<lambda>r. row_id r = wa_delivery a \<and> visible_to org db r) (wh_deliveries db)) (wh_attempts db))"

definition safe_for :: "string \<Rightarrow> webhook_db \<Rightarrow> webhook_db \<Rightarrow> bool" where
  "safe_for org db db' \<longleftrightarrow> (tables_ok db \<longrightarrow> tables_ok db' \<and> (\<forall>other. other \<noteq> org \<longrightarrow> share other db' = share other db))"

lemma safe_refl [simp]: "safe_for org db db"
  by (simp add: safe_for_def)

lemma safe_trans: "safe_for org db db1 \<Longrightarrow> safe_for org db1 db2 \<Longrightarrow> safe_for org db db2"
  by (simp add: safe_for_def)

lemma keyed_snoc: "keyed key (t @ [r]) \<longleftrightarrow> keyed key t \<and> key r \<notin> key ` set t"
  by (auto simp: keyed_def)

lemma list_ex_sql_update: "(\<And>r. P (f r) = P r) \<Longrightarrow> list_ex P (sql_update p f t) = list_ex P t"
  by (induction t) simp_all

lemma filter_sql_update: "(\<And>r. p r \<Longrightarrow> \<not> q r \<and> \<not> q (f r)) \<Longrightarrow> filter q (sql_update p f t) = filter q t"
  by (induction t) auto

lemma endpoint_write_safe:
  assumes "\<And>e. we_id (f e) = we_id e" and "\<And>e. we_org (f e) = we_org e"
  shows "safe_for org db (fst (endpoint_write i org f db))"
proof -
  let ?t = "wh_endpoints db" and ?u = "sql_update (own_endpoint i org) f (wh_endpoints db)"
  let ?db = "db\<lparr>wh_endpoints := ?u\<rparr>"
  have ids: "map we_id ?u = map we_id ?t" by (simp add: keys_sql_update assms)
  have "we_id ` set ?u = we_id ` set ?t" using ids by (metis set_map)
  moreover have "list_ex (own_endpoint k other) ?u = list_ex (own_endpoint k other) ?t" for k other
    by (rule list_ex_sql_update) (simp add: assms)
  then have "visible_to other ?db = visible_to other db" for other by (simp add: visible_to_def fun_eq_iff)
  moreover have "filter (\<lambda>e. we_org e = other) ?u = filter (\<lambda>e. we_org e = other) ?t" if "other \<noteq> org" for other
    by (rule filter_sql_update) (use that assms(2) in auto)
  ultimately show ?thesis
    using ids by (simp add: safe_for_def endpoint_write_def tables_ok_def share_def keyed_def)
qed

lemma endpoint_insert_safe:
  assumes "endpoint_insert e now a db = (db', res)" and "ce_org a = org"
  shows "safe_for org db db'"
proof (cases "db' = db")
  case False
  then have db': "db' = db\<lparr>wh_endpoints := wh_endpoints db @ [new_endpoint now a]\<rparr>" and id: "ce_id a \<notin> we_id ` set (wh_endpoints db)"
    using assms(1) by (auto simp: endpoint_insert_def split: if_splits)
  have "we_org (new_endpoint now a) = org" "we_id (new_endpoint now a) = ce_id a" using assms(2) by (simp_all add: new_endpoint_def)
  moreover have "visible_to other (db\<lparr>wh_endpoints := wh_endpoints db @ [new_endpoint now a]\<rparr>) = visible_to other db"
    if "other \<noteq> org" for other
    using that assms(2) by (simp add: visible_to_def new_endpoint_def fun_eq_iff)
  ultimately show ?thesis using id by (auto simp: safe_for_def db' tables_ok_def share_def keyed_snoc)
qed simp

lemma owner_unique:
  assumes "keyed we_id (wh_endpoints db)" and "visible_to org db r" and "visible_to other db r'" and "wd_endpoint r = wd_endpoint r'"
  shows "other = org"
proof -
  obtain e e' where "e \<in> set (wh_endpoints db)" "we_id e = wd_endpoint r" "we_org e = org"
    "e' \<in> set (wh_endpoints db)" "we_id e' = wd_endpoint r'" "we_org e' = other"
    using assms(2,3) by (auto simp: visible_to_def list_ex_iff)
  moreover from this have "e = e'" using keyed_unique [OF assms(1), of e e'] assms(4) by simp
  ultimately show ?thesis by simp
qed

lemma filter_sql_delete: "(\<And>r. r \<in> set t \<Longrightarrow> q r \<Longrightarrow> \<not> p r) \<Longrightarrow> filter q (sql_delete p t) = filter q t"
  by (induction t) (auto simp: sql_delete_def)

lemma list_ex_sql_delete: "(\<And>r. r \<in> set t \<Longrightarrow> q r \<Longrightarrow> \<not> p r) \<Longrightarrow> list_ex q (sql_delete p t) = list_ex q t"
  by (induction t) (auto simp: sql_delete_def)

lemma cascade_safe:
  fixes i :: ident and org :: string and db :: webhook_db and hit :: bool
  defines "gone \<equiv> (\<lambda>d :: delivery_row. hit \<and> wd_endpoint d = i)"
  defines "lost \<equiv> row_id ` set (filter gone (wh_deliveries db))"
  defines "db' \<equiv> \<lparr>wh_endpoints = sql_delete (own_endpoint i org) (wh_endpoints db),
      wh_deliveries = sql_delete gone (wh_deliveries db), wh_attempts = sql_delete (\<lambda>a. wa_delivery a \<in> lost) (wh_attempts db)\<rparr>"
  assumes hit: "hit = list_ex (own_endpoint i org) (wh_endpoints db)" and ok: "tables_ok db"
  shows "tables_ok db'" and "other \<noteq> org \<Longrightarrow> share other db' = share other db"
proof -
  have k: "keyed we_id (wh_endpoints db)" "keyed row_id (wh_deliveries db)" using ok by (simp_all add: tables_ok_def)
  have mem: "row_id r \<in> lost \<longleftrightarrow> gone r" if "r \<in> set (wh_deliveries db)" for r
  proof
    assume "row_id r \<in> lost"
    then obtain x where "x \<in> set (wh_deliveries db)" "gone x" "row_id x = row_id r" by (auto simp: lost_def)
    then show "gone r" using keyed_unique [OF k(2), of x r] that by simp
  qed (use that in \<open>simp add: lost_def\<close>)
  have "wd_endpoint r \<in> we_id ` set (wh_endpoints db')" if "r \<in> set (wh_deliveries db')" for r
  proof -
    have r: "r \<in> set (wh_deliveries db)" "\<not> gone r" using that by (simp_all add: db'_def set_sql_delete)
    then have "wd_endpoint r \<in> we_id ` set (wh_endpoints db)" using ok by (auto simp: tables_ok_def)
    then obtain e where e: "e \<in> set (wh_endpoints db)" "we_id e = wd_endpoint r" by auto
    then have "\<not> own_endpoint i org e" using r(2) hit by (auto simp: gone_def list_ex_iff)
    then have "e \<in> set (wh_endpoints db')" using e(1) by (simp add: db'_def set_sql_delete)
    then show ?thesis using e(2) by (metis image_eqI)
  qed
  moreover have "wa_delivery a \<in> row_id ` set (wh_deliveries db')" if "a \<in> set (wh_attempts db')" for a
  proof -
    have a: "a \<in> set (wh_attempts db)" "wa_delivery a \<notin> lost" using that by (simp_all add: db'_def set_sql_delete)
    then have "wa_delivery a \<in> row_id ` set (wh_deliveries db)" using ok by (auto simp: tables_ok_def)
    then obtain r where "r \<in> set (wh_deliveries db)" "row_id r = wa_delivery a" by auto
    then have "r \<in> set (wh_deliveries db')" using a(2) mem [of r] by (simp add: db'_def set_sql_delete)
    then show ?thesis using \<open>row_id r = wa_delivery a\<close> by (metis image_eqI)
  qed
  moreover have "keyed we_id (wh_endpoints db')" "keyed row_id (wh_deliveries db')" "keyed wd_key (wh_deliveries db')"
    "keyed wa_id (wh_attempts db')"
    using ok by (simp_all add: tables_ok_def db'_def keyed_sql_delete)
  ultimately show "tables_ok db'" unfolding tables_ok_def by blast
  assume other: "other \<noteq> org"
  have "list_ex (own_endpoint k other) (sql_delete (own_endpoint i org) (wh_endpoints db)) = list_ex (own_endpoint k other) (wh_endpoints db)" for k
    by (rule list_ex_sql_delete) (use other in auto)
  then have vis: "visible_to other db' = visible_to other db" by (simp add: visible_to_def db'_def fun_eq_iff)
  have not_gone: "\<not> gone r" if v: "visible_to other db r" for r
  proof
    assume "gone r"
    then obtain e where e: "e \<in> set (wh_endpoints db)" "own_endpoint i org e" "wd_endpoint r = i"
      using hit by (auto simp: gone_def list_ex_iff)
    obtain e' where "e' \<in> set (wh_endpoints db)" "own_endpoint i other e'"
      using v e(3) by (auto simp: visible_to_def list_ex_iff)
    then show False using e keyed_unique [OF k(1), of e e'] other by simp
  qed
  have "filter (\<lambda>e. we_org e = other) (wh_endpoints db') = filter (\<lambda>e. we_org e = other) (wh_endpoints db)"
    unfolding db'_def by simp (rule filter_sql_delete, use other in auto)
  moreover have "filter (visible_to other db) (wh_deliveries db') = filter (visible_to other db) (wh_deliveries db)"
    unfolding db'_def by simp (rule filter_sql_delete, use not_gone in auto)
  moreover have same: "list_ex (\<lambda>r. row_id r = x \<and> visible_to other db r) (wh_deliveries db')
      = list_ex (\<lambda>r. row_id r = x \<and> visible_to other db r) (wh_deliveries db)" for x
    unfolding db'_def by simp (rule list_ex_sql_delete, use not_gone in auto)
  moreover have "filter (\<lambda>a. list_ex (\<lambda>r. row_id r = wa_delivery a \<and> visible_to other db r) (wh_deliveries db)) (wh_attempts db')
      = filter (\<lambda>a. list_ex (\<lambda>r. row_id r = wa_delivery a \<and> visible_to other db r) (wh_deliveries db)) (wh_attempts db)"
    unfolding db'_def by simp (rule filter_sql_delete, use not_gone mem in \<open>force simp: list_ex_iff\<close>)
  ultimately show "share other db' = share other db" by (simp add: share_def vis)
qed

lemma endpoint_delete_safe:
  assumes "endpoint_delete e i org db = (db', res)"
  shows "safe_for org db db'"
proof (cases e)
  case None
  then show ?thesis
    using assms cascade_safe [where i = i and org = org and db = db, OF refl] by (auto simp: endpoint_delete_def Let_def safe_for_def)
qed (use assms in \<open>simp add: endpoint_delete_def\<close>)


section \<open>Rows added\<close>

lemma delivery_added_safe:
  assumes ins: "insert_delivery r db = Some db'" and e: "e \<in> set (wh_endpoints db)" "own_endpoint (wd_endpoint r) org e"
  shows "safe_for org db db'"
  unfolding safe_for_def
proof (intro impI conjI allI)
  assume ok: "tables_ok db"
  have db': "db' = db\<lparr>wh_deliveries := wh_deliveries db @ [r]\<rparr>"
    and new: "row_id r \<notin> row_id ` set (wh_deliveries db)" "wd_key r \<notin> wd_key ` set (wh_deliveries db)"
      "wd_endpoint r \<in> we_id ` set (wh_endpoints db)"
    using ins by (auto simp: insert_delivery_def split: if_splits)
  show "tables_ok db'" using ok new by (auto simp: tables_ok_def db' keyed_snoc)
  fix other assume other: "other \<noteq> org"
  have vis: "visible_to other db' = visible_to other db" by (simp add: visible_to_def db' fun_eq_iff)
  have "\<not> visible_to other db r"
  proof
    assume "visible_to other db r"
    then obtain x where "x \<in> set (wh_endpoints db)" "own_endpoint (wd_endpoint r) other x"
      by (auto simp: visible_to_def list_ex_iff)
    moreover have "keyed we_id (wh_endpoints db)" using ok by (simp add: tables_ok_def)
    ultimately show False using keyed_unique [of we_id "wh_endpoints db" e x] e other by simp
  qed
  then show "share other db' = share other db"
    by (simp add: share_def vis) (simp add: db')
qed

lemma replay_safe:
  assumes "enqueue_replay e now fresh fresh_key i endpoint org db = (db', res)"
  shows "safe_for org db db'"
proof (cases "db' = db")
  case False
  obtain r where r: "find (\<lambda>r. row_id r = i \<and> wd_endpoint r = endpoint \<and> visible_to org db r) (wh_deliveries db) = Some r"
    "insert_delivery (pending_delivery fresh (wd_endpoint r) (wd_event r) (wd_type r) (wd_payload r) (Some now)
                       (''replay:'' @ fresh_key) now) db = Some db'"
    using assms False by (auto simp: enqueue_replay_def Let_def split: option.splits if_splits)
  have "visible_to org db r" using r(1) by (auto simp: find_Some_iff)
  then obtain x where "x \<in> set (wh_endpoints db)" "own_endpoint (wd_endpoint r) org x" by (auto simp: visible_to_def list_ex_iff)
  then show ?thesis by (intro delivery_added_safe [OF r(2)]) (simp_all add: pending_delivery_def)
qed simp

lemma targeted_safe:
  assumes "enqueue_targeted e now fresh endpoint event kind body key db = (db', res)"
    and "x \<in> set (wh_endpoints db)" "own_endpoint endpoint org x"
  shows "safe_for org db db'"
proof (cases "db' = db")
  case False
  then have "insert_delivery (pending_delivery fresh endpoint event kind body None key now) db = Some db'"
    using assms(1) by (auto simp: enqueue_targeted_def Let_def split: option.splits if_splits)
  then show ?thesis by (rule delivery_added_safe [OF _ assms(2)]) (use assms(3) in \<open>simp add: pending_delivery_def\<close>)
qed simp

lemma modify_safe:
  assumes "endpoint_modify e date a db = (db', res)"
  shows "safe_for (ue_org a) db db'"
proof -
  have "we_id (endpoint_change date a x) = we_id x \<and> we_org (endpoint_change date a x) = we_org x" for x
    by (simp add: endpoint_change_def Let_def split: option.splits)
  then have "safe_for (ue_org a) db (fst (endpoint_write (ue_id a) (ue_org a) (endpoint_change date a) db))"
    by (intro endpoint_write_safe) simp_all
  then show ?thesis using assms by (auto simp: endpoint_modify_def split: if_splits prod.splits)
qed

lemma rotation_safe:
  assumes "apply_secret_rotation e date i org secret previous expires db = (db', res)"
  shows "safe_for org db db'"
proof -
  have "safe_for org db (fst (endpoint_write i org (\<lambda>e. e\<lparr>we_secret := secret, we_previous_secret := Some previous,
      we_previous_expires := Some expires, we_updated := date\<rparr>) db))"
    by (rule endpoint_write_safe) simp_all
  then show ?thesis using assms by (auto simp: apply_secret_rotation_def split: if_splits prod.splits)
qed

section \<open>Transactions\<close>

text \<open>A transaction of the service leaves everything, or has its write, with the event it announces.\<close>

lemma write_then_emit_cases:
  assumes "write_then_emit schema env op acts event kind agg body org w = (w', res)"
  shows "w' = w \<or> (\<exists>a. op (hw_db w) = (hw_db w', Inr a) \<and> res = Inr (ok a)
    \<and> ids_out w' = (if acts a then insert (et_fresh (v_emit env)) (ids_out w) else ids_out w))"
  using assms emit_event_Inr [where opts = "for_org org"]
  by (auto simp: write_then_emit_def uow_run_def emit_for_def ids_out_def for_org_def no_options_def
      split: prod.splits sum.splits option.splits if_splits)


section \<open>No call crosses a tenant\<close>

text \<open>The calls of the service on behalf of \<open>org\<close>, in any order and with any failures.\<close>

inductive service_step :: "string \<Rightarrow> hook_world \<Rightarrow> hook_world \<Rightarrow> bool" where
  endpoint_created: "create_endpoint schema env test_env org actor url types enabled w = (w', r1) \<Longrightarrow> v_others test_env = id \<Longrightarrow>
     service_step org w w'"
| endpoint_updated: "update_endpoint schema env actor a w = (w', r1) \<Longrightarrow> service_step (ue_org a) w w'"
| endpoint_deleted: "delete_endpoint schema env i org actor w = (w', r2) \<Longrightarrow> service_step org w w'"
| delivery_replayed: "replay_delivery schema env i endpoint org actor w = (w', r3) \<Longrightarrow> service_step org w w'"
| test_sent: "send_test schema env i org actor w = (w', r4) \<Longrightarrow> v_others env = id \<Longrightarrow> service_step org w w'"
| secret_rotated: "rotation_commit schema env i org actor cipher previous expires w = (w', r5) \<Longrightarrow> service_step org w w'"

lemma repo_failures_fst: "repo_failures r = (w, x) \<Longrightarrow> fst r = w"
  by (auto simp: repo_failures_def split: prod.splits sum.splits)

lemma write_safe:
  assumes "write_then_emit schema env op acts event kind agg body org w = r" and "fst r = w'"
    and "\<And>db db' a. op db = (db', Inr a) \<Longrightarrow> safe_for o1 db db'"
  shows "safe_for o1 (hw_db w) (hw_db w')"
  using write_then_emit_cases [of schema env op acts event kind agg body org w w' "snd r"] assms
  by (cases r) auto

lemma send_test_safe:
  assumes "send_test schema env i org actor w = (w', r)" and "v_others env = id"
  shows "safe_for org (hw_db w) (hw_db w')"
proof (cases "w' = w")
  case False
  obtain x where "find (own_endpoint i org) (wh_endpoints (hw_db w)) = Some x"
    using assms False by (auto simp: send_test_def endpoint_find_def split: option.splits if_splits)
  then have x: "x \<in> set (wh_endpoints (hw_db w))" "own_endpoint i org x" by (auto simp: find_Some_iff)
  obtain w2 ev d where e: "emit_for schema env WEBHOOK_TEST ''webhook_endpoint'' i (test_payload i org actor) org w = Inr (w2, ev)"
    and t: "enqueue_targeted (v_write_error env) (v_now env) (v_fresh env) i ev WEBHOOK_TEST (test_payload i org actor)
        (''test:'' @ ev) (hw_db w2) = (hw_db w', Inr d)"
    using assms False
    by (auto simp: send_test_def uow_run_def split: prod.splits sum.splits option.splits)
  have "hw_db w2 = hw_db w" using e by (auto simp: emit_for_def split: sum.splits)
  then show ?thesis using targeted_safe [OF t, of x org] x by simp
qed simp

lemma create_endpoint_cases:
  assumes "create_endpoint schema env test_env org actor url types enabled w = (w', r)"
  shows "w' = w \<or> (\<exists>a w1 res. ce_org a = org
    \<and> write_then_emit schema env (endpoint_insert (v_write_error env) (v_now env) a) (\<lambda>_. True)
        WEBHOOK_ENDPOINT_CREATED ''webhook_endpoint'' we_id (created_payload actor) org w = (w1, res)
    \<and> (w' = w1 \<or> (\<exists>e :: webhook_endpoint. w' = fst (send_test schema test_env (we_id e) org actor w1))))"
proof (cases "\<exists>url' master. guard_url env url = Inr url' \<and> v_master env = Inr (Some master)")
  case False
  then show ?thesis using assms by (auto simp: create_endpoint_def split: sum.splits option.splits)
next
  case True
  then obtain url' master where g: "guard_url env url = Inr url'" "v_master env = Inr (Some master)" by blast
  define a where "a = \<lparr>ce_id = v_fresh env, ce_org = org, ce_url = url,
     ce_secret = encrypt_secret (v_base64 env) (v_seal env) (v_nonce env) (v_secret env) (v_sub_key env master org),
     ce_event_types = types, ce_enabled = enabled\<rparr>"
  obtain w1 res where wr: "write_then_emit schema env (endpoint_insert (v_write_error env) (v_now env) a) (\<lambda>_. True)
        WEBHOOK_ENDPOINT_CREATED ''webhook_endpoint'' we_id (created_payload actor) org w = (w1, res)"
    by (metis prod.exhaust)
  have "w' = w1 \<or> (\<exists>e :: webhook_endpoint. w' = fst (send_test schema test_env (we_id e) org actor w1))"
    using assms by (auto simp: create_endpoint_def g a_def [symmetric] wr repo_failures_def split: sum.splits)
  moreover have "ce_org a = org" by (simp add: a_def)
  ultimately show ?thesis using wr by blast
qed

lemma service_step_safe: "service_step org w w' \<Longrightarrow> safe_for org (hw_db w) (hw_db w')"
proof (induction rule: service_step.induct)
  case (endpoint_created schema env test_env org actor url types enabled w w' r1)
  from create_endpoint_cases [OF endpoint_created(1)] show ?case
  proof (elim disjE exE conjE)
    assume "w' = w"
    then show ?thesis by simp
  next
    fix a w1 r assume org: "ce_org a = org"
      and wr: "write_then_emit schema env (endpoint_insert (v_write_error env) (v_now env) a) (\<lambda>_. True)
        WEBHOOK_ENDPOINT_CREATED ''webhook_endpoint'' we_id (created_payload actor) org w = (w1, r)"
    have one: "safe_for org (hw_db w) (hw_db w1)"
      by (rule write_safe [OF wr]) (simp, rule endpoint_insert_safe [OF _ org])
    show ?thesis if "w' = w1" using one that by simp
    show ?thesis if "w' = fst (send_test schema test_env (we_id e) org actor w1)" for e :: webhook_endpoint
    proof -
      have "safe_for org (hw_db w1) (hw_db w')"
        using send_test_safe [where schema = schema and env = test_env and i = "we_id e" and org = org and actor = actor and w = w1,
          OF surjective_pairing endpoint_created(2)] that by simp
      with one show ?thesis by (rule safe_trans)
    qed
  qed
next
  case (endpoint_updated schema env actor a w w' r1)
  show ?case
  proof (cases "w' = w")
    case False
    then have "fst (write_then_emit schema env (endpoint_modify (v_write_error env) (v_date env) a)
            (\<lambda>row. row \<noteq> None) WEBHOOK_ENDPOINT_UPDATED ''webhook_endpoint'' (\<lambda>_. ue_id a) (\<lambda>_. update_payload actor a)
            (ue_org a) w) = w'"
      using endpoint_updated by (auto simp: update_endpoint_def dest: repo_failures_fst split: option.splits sum.splits)
    then show ?thesis by (rule write_safe [OF refl]) (rule modify_safe)
  qed simp
next
  case (endpoint_deleted schema env i org actor w w' r2)
  show ?case
    by (rule write_safe [OF refl repo_failures_fst [OF endpoint_deleted [unfolded delete_endpoint_def]]]) (rule endpoint_delete_safe)
next
  case (delivery_replayed schema env i endpoint org actor w w' r3)
  show ?case
    by (rule write_safe [OF refl repo_failures_fst [OF delivery_replayed [unfolded replay_delivery_def]]]) (rule replay_safe)
next
  case (test_sent schema env i org actor w w' r4)
  then show ?case by (rule send_test_safe)
next
  case (secret_rotated schema env i org actor cipher previous expires w w' r5)
  show ?case
    by (rule write_safe [OF secret_rotated [unfolded rotation_commit_def]]) (simp, rule rotation_safe)
qed

text \<open>
  C15: no call crosses a tenant: whatever the other organisations do with the service, in any order and
  with any failures, the endpoints, deliveries and attempts of an organisation stay as they are.
\<close>
theorem tenants_isolated:
  assumes "(\<lambda>w w'. \<exists>other. other \<noteq> org \<and> service_step other w w')\<^sup>*\<^sup>* w w'" and "tables_ok (hw_db w)"
  shows "share org (hw_db w') = share org (hw_db w)"
proof -
  from assms(1) have "tables_ok (hw_db w') \<and> share org (hw_db w') = share org (hw_db w)"
  proof (induction rule: rtranclp_induct)
    case (step w1 w2)
    then obtain other where o: "other \<noteq> org" "service_step other w1 w2" by blast
    then show ?case using step.IH service_step_safe [OF o(2)] by (simp add: safe_for_def)
  qed (use assms(2) in simp)
  then show ?thesis ..
qed

text \<open>
  The calls of the service keep the tables in order: ids, idempotency keys and attempt ids stay
  unique, every delivery has its endpoint and every attempt its delivery, removals included.
\<close>
theorem service_keeps_tables:
  assumes "(\<lambda>w w'. \<exists>org. service_step org w w')\<^sup>*\<^sup>* w w'" and "tables_ok (hw_db w)"
  shows "tables_ok (hw_db w')"
  using assms(1)
proof (induction rule: rtranclp_induct)
  case (step w1 w2)
  then show ?case using service_step_safe by (auto simp: safe_for_def)
qed (use assms(2) in simp)

section \<open>Rotation\<close>

text \<open>
  C16: a rotation that nobody interferes with takes: the endpoint the database holds afterwards is the one returned, with the new
  secret and the one it replaces, every other endpoint is as it was, and requests sent for it are
  signed with the new secret and, until the grace period ends, with the old one too: subscribers that
  verify either are never locked out, and the old secret is not used past the grace.
\<close>
theorem rotation_grace:
  assumes "rotate_secret schema env grace i org actor w = (w', Inr (Inr (Some (e', plain))))" and "v_others env = id"
    and "codec_laws (v_base64 env) unbase64 (v_seal env) opens" and "length (v_nonce env) = NONCE_BYTES"
    and "v_master env = Inr (Some master)"
    and "h_decrypt henv = decrypt_secret unbase64 opens" and "h_sub_key henv = v_sub_key env"
    and "endpoint_find None i org (hw_db w) = Inr (Some e)"
    and "h_decrypt henv (we_secret e) (h_sub_key henv master org) = Inr old"
  shows "plain = v_secret env
    \<and> endpoint_find None i org (hw_db w') = Inr (Some e')
    \<and> (\<forall>x. \<not> own_endpoint i org x \<longrightarrow> x \<in> set (wh_endpoints (hw_db w')) \<longleftrightarrow> x \<in> set (wh_endpoints (hw_db w)))
    \<and> wh_deliveries (hw_db w') = wh_deliveries (hw_db w)
    \<and> signing_secrets henv master e' = Inr (if h_date henv < v_date env + grace * 3600000 then [plain, old] else [plain])"
proof -
  let ?cipher = "encrypt_secret (v_base64 env) (v_seal env) (v_nonce env) (v_secret env) (v_sub_key env master org)"
  let ?expires = "v_date env + grace * 3600000"
  have found: "find (own_endpoint i org) (wh_endpoints (hw_db w)) = Some e"
    using assms(8) by (simp add: endpoint_find_def)
  have le: "v_lookup_error env = None"
    using assms(1,5) by (auto simp: rotate_secret_def endpoint_find_def split: if_splits)
  obtain w1 res where c: "rotation_commit schema env i org actor ?cipher (we_secret e) ?expires w = (w1, res)"
    by (metis prod.exhaust)
  have res: "res = Inr (ok (Some e')) \<and> plain = v_secret env \<and> w1 = w'"
    using assms(1,2,5) le found c
    by (auto simp: rotate_secret_def endpoint_find_def repo_failures_def split: sum.splits option.splits)
  have written: "apply_secret_rotation (v_write_error env) (v_date env) i org ?cipher (we_secret e) ?expires (hw_db w) = (hw_db w', Inr (Some e'))"
    using c res emit_event_Inr(1) by (auto simp: rotation_commit_def write_then_emit_def uow_run_def emit_for_def
        split: prod.splits sum.splits option.splits)
  have e': "e' = e\<lparr>we_secret := ?cipher, we_previous_secret := Some (we_secret e), we_previous_expires := Some ?expires,
      we_updated := v_date env\<rparr>"
    using written found by (auto simp: apply_secret_rotation_def endpoint_write_def split: if_splits)
  let ?set = "\<lambda>x. x\<lparr>we_secret := ?cipher, we_previous_secret := Some (we_secret e), we_previous_expires := Some ?expires,
      we_updated := v_date env\<rparr>"
  have after: "hw_db w' = (hw_db w)\<lparr>wh_endpoints := sql_update (own_endpoint i org) ?set (wh_endpoints (hw_db w))\<rparr>"
    using written by (auto simp: apply_secret_rotation_def endpoint_write_def split: if_splits)
  have own: "own_endpoint i org (?set x) = own_endpoint i org x" for x by simp
  have "endpoint_find None i org (hw_db w') = Inr (Some e')"
    using found own by (simp add: endpoint_find_def after find_sql_update e')
  moreover have "\<forall>x. \<not> own_endpoint i org x \<longrightarrow> x \<in> set (wh_endpoints (hw_db w')) \<longleftrightarrow> x \<in> set (wh_endpoints (hw_db w))"
    using own by (auto simp: after set_sql_update image_iff)
  moreover have "wh_deliveries (hw_db w') = wh_deliveries (hw_db w)" by (simp add: after)
  moreover
  have mine: "own_endpoint i org e" using found by (auto simp: find_Some_iff)
  then have "h_decrypt henv (we_secret e') (h_sub_key henv master (we_org e')) = Inr (v_secret env)"
    using decrypt_encrypt [OF assms(3,4)] by (simp add: e' assms(6,7))
  then have "signing_secrets henv master e' = Inr (if h_date henv < v_date env + grace * 3600000 then [plain, old] else [plain])"
    using assms(9) mine res by (simp add: signing_secrets_def Let_def e')
  moreover have "plain = v_secret env" using res by blast
  ultimately show ?thesis by (intro conjI)
qed

text \<open>A rotation that finds its endpoint gone in between changes no row and is announced all the same.\<close>

lemma rotation_of_nothing_announced:
  assumes "find (own_endpoint i org) (wh_endpoints (hw_db w)) = None"
    and "rotation_commit schema env i org actor cipher previous expires w = (w', Inr (Inr row))"
  shows "row = None \<and> et_fresh (v_emit env) \<in> ids_out w'"
  using assms emit_event_Inr(1,2) [where opts = "for_org org" and env = "v_emit env"]
  by (auto simp: rotation_commit_def write_then_emit_def uow_run_def apply_secret_rotation_def endpoint_write_def emit_for_def
      ids_out_def for_org_def no_options_def split: prod.splits sum.splits option.splits if_splits)

section \<open>Concrete calls\<close>

definition example_service_env :: service_env where
  "example_service_env = \<lparr>v_parse = h_parse example_hook_env, v_resolve = h_resolve example_hook_env, v_https_only = True,
     v_master = Inr (Some ''m''), v_sub_key = (\<lambda>m org. m), v_seal = (\<lambda>k n p. p @ replicate 16 CHR ''t''), v_base64 = id,
     v_secret = ''new'', v_nonce = replicate NONCE_BYTES CHR ''n'', v_lookup_error = None, v_write_error = None,
     v_commit_error = None, v_emit = example_emit ''e9'', v_now = 6000, v_date = 6000, v_fresh = ''f1'', v_fresh_key = ''k1'',
     v_others = id\<rparr>"

definition example_opens :: "string \<Rightarrow> string \<Rightarrow> string \<Rightarrow> string throws" where
  "example_opens k n c = Inr (take (length c - 16) c)"

definition example_sealed :: hook_world where
  "example_sealed = example_hook_world\<lparr>hw_db := (hw_db example_hook_world)
     \<lparr>wh_endpoints := map (\<lambda>e. e\<lparr>we_secret := replicate 24 CHR ''n'' @ ''old'' @ replicate 16 CHR ''t''\<rparr>)
         (wh_endpoints (hw_db example_hook_world))\<rparr>\<rparr>"

lemma example_tables: "tables_ok (hw_db example_hook_world)"
  by (simp add: tables_ok_def keyed_def example_settle_simps)

theorem tenants_isolated_witness:
  "share ''o'' (hw_db (fst (delete_endpoint example_schema example_service_env ''h1'' ''p'' ''u'' example_hook_world)))
     = share ''o'' (hw_db example_hook_world)"
proof -
  let ?w = "fst (delete_endpoint example_schema example_service_env ''h1'' ''p'' ''u'' example_hook_world)"
  have "service_step ''p'' example_hook_world ?w" by (rule service_step.endpoint_deleted [OF surjective_pairing])
  then have "\<exists>other. other \<noteq> ''o'' \<and> service_step other example_hook_world ?w" by (intro exI [of _ "''p''"]) simp
  then have "(\<lambda>w w'. \<exists>other. other \<noteq> ''o'' \<and> service_step other w w')\<^sup>*\<^sup>* example_hook_world ?w"
    by (rule r_into_rtranclp [where r = "\<lambda>w w'. \<exists>other. other \<noteq> ''o'' \<and> service_step other w w'"])
  from tenants_isolated [OF this example_tables] show ?thesis .
qed

theorem service_keeps_tables_witness:
  "tables_ok (hw_db (fst (delete_endpoint example_schema example_service_env ''h1'' ''o'' ''u'' example_hook_world)))"
proof -
  let ?w = "fst (delete_endpoint example_schema example_service_env ''h1'' ''o'' ''u'' example_hook_world)"
  have "service_step ''o'' example_hook_world ?w" by (rule service_step.endpoint_deleted [OF surjective_pairing])
  then have "\<exists>org. service_step org example_hook_world ?w" by blast
  then have "(\<lambda>w w'. \<exists>org. service_step org w w')\<^sup>*\<^sup>* example_hook_world ?w"
    by (rule r_into_rtranclp [where r = "\<lambda>w w'. \<exists>org. service_step org w w'"])
  from service_keeps_tables [OF this example_tables] show ?thesis .
qed

definition example_reader :: hook_env where
  "example_reader = example_hook_env\<lparr>h_decrypt := decrypt_secret id example_opens, h_sub_key := v_sub_key example_service_env\<rparr>"

lemma example_codec: "codec_laws (v_base64 example_service_env) id (v_seal example_service_env) example_opens"
  by (simp add: codec_laws_def example_service_env_def example_opens_def)

definition example_endpoint :: webhook_endpoint where
  "example_endpoint = hd (wh_endpoints (hw_db example_sealed))"

lemma example_rotated:
  "\<exists>w' e'. rotate_secret example_schema example_service_env 24 ''h1'' ''o'' ''u'' example_sealed = (w', Inr (Inr (Some (e', ''new''))))"
  by (simp add: rotate_secret_def endpoint_find_def rotation_commit_def write_then_emit_def uow_run_def apply_secret_rotation_def
      endpoint_write_def emit_for_def repo_failures_def emit_event_def enqueue_def emitted_event_def assert_payload_valid_def
      Let_def example_sealed_def example_service_env_def example_settle_simps)

theorem rotation_grace_witness:
  "\<exists>e'. signing_secrets example_reader ''m'' e' = Inr [''new'', ''old'']"
proof -
  obtain w' e' where r: "rotate_secret example_schema example_service_env 24 ''h1'' ''o'' ''u'' example_sealed
      = (w', Inr (Inr (Some (e', ''new''))))"
    using example_rotated by blast
  have f: "endpoint_find None ''h1'' ''o'' (hw_db example_sealed) = Inr (Some example_endpoint)"
    by (simp add: endpoint_find_def example_endpoint_def example_sealed_def example_settle_simps)
  have "h_decrypt example_reader (we_secret example_endpoint) (h_sub_key example_reader ''m'' ''o'') = Inr ''old''"
    by (simp add: example_reader_def decrypt_secret_def Let_def example_endpoint_def example_sealed_def example_settle_simps
        MIN_CIPHERTEXT_BYTES_def NONCE_BYTES_def example_opens_def)
  from rotation_grace [OF r _ example_codec _ _ _ _ f this]
  have "signing_secrets example_reader ''m'' e' = Inr (if h_date example_reader < v_date example_service_env + 24 * 3600000
      then [''new'', ''old''] else [''new''])"
    by (simp add: example_service_env_def example_reader_def)
  then show ?thesis by (auto simp: example_reader_def example_hook_env_def example_service_env_def)
qed

end
