(* ===== verification/Webhook_Pages.thy ===== *)
theory Webhook_Pages
  imports Webhook_Protocol
begin

text \<open>
  The list of deliveries of an endpoint, page by page: \<open>list\<close> of
  \<open>drizzle-webhook-delivery.repository.ts\<close> followed along its cursors, as a client does.
  \<open>show_date\<close> and \<open>parse_date\<close> are the two directions of a date's text.
\<close>

text \<open>The rows a client sees that asks for the next page until there is none, and whether it got there.\<close>

fun all_pages ::
  "(instant \<Rightarrow> string) \<Rightarrow> (string \<Rightarrow> instant option) \<Rightarrow> webhook_db \<Rightarrow> nat \<Rightarrow> list_args \<Rightarrow> delivery_row list \<times> bool" where
  "all_pages show_date parse_date db 0 a = ([], False)"
| "all_pages show_date parse_date db (Suc fuel) a =
     (case list_deliveries None parse_date a db of
        Inl e \<Rightarrow> ([], False)
      | Inr (items, None) \<Rightarrow> (items, True)
      | Inr (items, Some t) \<Rightarrow>
          (case all_pages show_date parse_date db fuel (a\<lparr>la_cursor := Some (show_date t)\<rparr>) of (rest, ended) \<Rightarrow> (items @ rest, ended)))"

definition newest_first :: "(string \<Rightarrow> instant option) \<Rightarrow> list_args \<Rightarrow> webhook_db \<Rightarrow> delivery_row list" where
  "newest_first parse_date a db = sort_key (\<lambda>r. - wd_created r) (filter (listed parse_date a db) (wh_deliveries db))"

lemma sql_select_sorted: "sql_select p key n t = take n (sort_key key (filter p t))"
  by (simp add: sql_select_def)

lemma list_deliveries_newest:
  "list_deliveries None parse_date a db =
     (let limit = min (case la_limit a of None \<Rightarrow> 50 | Some n \<Rightarrow> n) 200; rows = newest_first parse_date a db
      in Inr (take limit rows, if limit < length rows \<and> take limit rows \<noteq> [] then Some (wd_created (last (take limit rows))) else None))"
  by (auto simp: list_deliveries_def Let_def newest_first_def sql_select_sorted min_def)

text \<open>With distinct dates the rows below a cursor are those after it.\<close>

lemma sorted_below:
  assumes "sorted (map key xs)" and "distinct (map key xs)" and "n < length xs"
  shows "filter (\<lambda>x. (key (xs ! n) :: int) < key x) xs = drop (Suc n) xs"
  using assms
proof (induction xs arbitrary: n)
  case (Cons x xs)
  have lt: "y \<in> set xs \<Longrightarrow> key x < key y" for y
    using Cons.prems(1,2) by (force simp: le_less)
  show ?case
  proof (cases n)
    case 0
    then show ?thesis using lt by (simp add: filter_id_conv)
  next
    case (Suc m)
    then have "m < length xs" using Cons.prems(3) by simp
    then have "key x < key (xs ! m)" using lt by simp
    then show ?thesis using Cons Suc \<open>m < length xs\<close> by simp
  qed
qed simp

lemma filter_sort_key: "filter p (sort_key key xs) = sort_key key (filter p xs)"
  by (simp add: filter_sort)

lemma listed_next:
  assumes "cursor_date parse_date (la_cursor a) = None \<or> cursor_date parse_date (la_cursor a) = Some u \<and> t < u"
    and "parse_date (show_date t) = Some t" and "show_date t \<noteq> []"
  shows "listed parse_date (a\<lparr>la_cursor := Some (show_date t)\<rparr>) db r \<longleftrightarrow> listed parse_date a db r \<and> wd_created r < t"
  using assms by (auto simp: listed_def cursor_date_def)

lemma newest_first_next:
  assumes "cursor_date parse_date (la_cursor a) = None \<or> cursor_date parse_date (la_cursor a) = Some u \<and> t < u"
    and "parse_date (show_date t) = Some t" and "show_date t \<noteq> []"
  shows "newest_first parse_date (a\<lparr>la_cursor := Some (show_date t)\<rparr>) db
    = filter (\<lambda>r. wd_created r < t) (newest_first parse_date a db)"
proof -
  have "filter (listed parse_date (a\<lparr>la_cursor := Some (show_date t)\<rparr>) db) (wh_deliveries db)
      = filter (\<lambda>r. wd_created r < t) (filter (listed parse_date a db) (wh_deliveries db))"
    unfolding filter_filter
    using listed_next [where db = db and a = a and t = t and show_date = show_date and parse_date = parse_date and u = u, OF assms]
    by (simp add: conj_commute cong: filter_cong)
  then show ?thesis by (simp add: newest_first_def filter_sort_key)
qed

text \<open>
  Following the cursors ends, and shows every delivery of the endpoint exactly once, newest first,
  provided no two of them share their date.
\<close>
theorem pages_show_all_once:
  assumes "distinct (map wd_created (filter (listed parse_date a db) (wh_deliveries db)))"
    and "\<forall>t. parse_date (show_date t) = Some t \<and> show_date t \<noteq> []" and "la_cursor a = None"
    and "la_limit a \<noteq> Some 0" and "length (wh_deliveries db) < fuel"
  shows "all_pages show_date parse_date db fuel a = (newest_first parse_date a db, True)"
proof -
  have show_date: "parse_date (show_date t) = Some t" "show_date t \<noteq> []" for t using assms(2) by simp_all
  define limit where "limit = min (case la_limit a of None \<Rightarrow> 50 | Some n \<Rightarrow> n) (200 :: nat)"
  have pos: "0 < limit" using assms(4) by (auto simp: limit_def split: option.splits)
  have main: "all_pages show_date parse_date db fuel x = (newest_first parse_date x db, True)"
    if "la_limit x = la_limit a" "distinct (map wd_created (newest_first parse_date x db))"
      "length (newest_first parse_date x db) < fuel"
      "\<forall>r \<in> set (newest_first parse_date x db). case cursor_date parse_date (la_cursor x) of None \<Rightarrow> True | Some u \<Rightarrow> wd_created r < u"
    for x fuel
    using that
  proof (induction fuel arbitrary: x)
    case (Suc fuel)
    let ?rows = "newest_first parse_date x db"
    have list: "list_deliveries None parse_date x db = Inr (take limit ?rows,
        if limit < length ?rows \<and> take limit ?rows \<noteq> [] then Some (wd_created (last (take limit ?rows))) else None)"
      unfolding list_deliveries_newest Let_def Suc.prems(1) limit_def ..
    show ?case
    proof (cases "limit < length ?rows")
      case False
      then show ?thesis by (simp add: list)
    next
      case True
      then have "take limit ?rows \<noteq> []" using pos by auto
      define t where "t = wd_created (last (take limit ?rows))"
      let ?x = "x\<lparr>la_cursor := Some (show_date t)\<rparr>"
      have last: "last (take limit ?rows) = ?rows ! (limit - 1)" using True pos \<open>take limit ?rows \<noteq> []\<close> by (simp add: last_conv_nth)
      have "?rows ! (limit - 1) \<in> set ?rows" using True by simp
      then have "cursor_date parse_date (la_cursor x) = None \<or> (\<exists>u. cursor_date parse_date (la_cursor x) = Some u \<and> t < u)"
        using Suc.prems(4) last by (auto simp: t_def split: option.splits)
      then have nxt: "newest_first parse_date ?x db = filter (\<lambda>r. wd_created r < t) ?rows"
        using newest_first_next [of parse_date x _ t show_date db] show_date by blast
      have "filter (\<lambda>r. - wd_created (?rows ! (limit - 1)) < - wd_created r) ?rows = drop (Suc (limit - 1)) ?rows"
        by (rule sorted_below) (use Suc.prems(2) True in \<open>simp_all add: newest_first_def distinct_map inj_on_def\<close>)
      then have rest: "newest_first parse_date ?x db = drop limit ?rows" using nxt last pos by (simp add: t_def)
      have "all_pages show_date parse_date db fuel ?x = (newest_first parse_date ?x db, True)"
      proof (rule Suc.IH)
        show "distinct (map wd_created (newest_first parse_date ?x db))"
          unfolding rest drop_map [symmetric] using Suc.prems(2) by (rule distinct_drop)
        show "length (newest_first parse_date ?x db) < fuel" using Suc.prems(3) pos True by (simp add: rest)
        show "\<forall>r \<in> set (newest_first parse_date ?x db). case cursor_date parse_date (la_cursor ?x) of None \<Rightarrow> True | Some u \<Rightarrow> wd_created r < u"
          by (simp add: nxt cursor_date_def show_date)
      qed (use Suc.prems(1) in simp)
      then show ?thesis
        using True \<open>take limit ?rows \<noteq> []\<close> by (simp add: list t_def [symmetric] rest)
    qed
  qed simp
  have "length (newest_first parse_date a db) < fuel"
    using assms(5) order.strict_trans1 [OF length_filter_le [of "listed parse_date a db" "wh_deliveries db"], of fuel]
    by (simp add: newest_first_def)
  moreover have "distinct (map wd_created (newest_first parse_date a db))"
    using assms(1) by (simp add: newest_first_def distinct_map)
  ultimately show ?thesis by (intro main) (simp_all add: assms(3) cursor_date_def)
qed

text \<open>Two pages of one row each; dates in unary.\<close>

definition example_pages :: "instant \<Rightarrow> webhook_db" where
  "example_pages t = (example_hooks example_delivery)\<lparr>wh_deliveries :=
     [example_delivery\<lparr>wd_created := 2\<rparr>, example_delivery\<lparr>row_id := ''d2'', wd_created := t\<rparr>]\<rparr>"

definition example_list :: list_args where
  "example_list = \<lparr>la_endpoint = ''h1'', la_org = ''o'', la_status = None, la_limit = Some 3, la_cursor = None\<rparr>"

definition show_unary :: "instant \<Rightarrow> string" where
  "show_unary t = (if 0 \<le> t then CHR ''+'' # replicate (nat t) CHR ''1'' else CHR ''-'' # replicate (nat (- t)) CHR ''1'')"

definition parse_unary :: "string \<Rightarrow> instant option" where
  "parse_unary s = (case s of [] \<Rightarrow> None
     | c # cs \<Rightarrow> Some (if c = CHR ''+'' then int (length cs) else - int (length cs)))"

lemma parse_show_unary: "parse_unary (show_unary t) = Some t \<and> show_unary t \<noteq> []"
  by (simp add: parse_unary_def show_unary_def)

lemmas example_page_simps = example_pages_def example_list_def example_hooks_def example_delivery_def pending_delivery_def
  new_endpoint_def listed_def visible_to_def cursor_date_def newest_first_def

theorem pages_show_all_once_witness:
  "map row_id (fst (all_pages show_unary parse_unary (example_pages 1) 4 (example_list\<lparr>la_limit := Some 1\<rparr>))) = [''d1'', ''d2'']"
proof -
  have "all_pages show_unary parse_unary (example_pages 1) 4 (example_list\<lparr>la_limit := Some 1\<rparr>)
      = (newest_first parse_unary (example_list\<lparr>la_limit := Some 1\<rparr>) (example_pages 1), True)"
    by (rule pages_show_all_once) (simp_all add: parse_show_unary, simp_all add: example_page_simps)
  then show ?thesis by (simp add: example_page_simps)
qed

text \<open>Rows that share their date with the last of a page are never shown.\<close>

lemma pages_skip_a_shared_date:
  "map row_id (fst (all_pages show_unary parse_unary (example_pages 2) 4 (example_list\<lparr>la_limit := Some (Suc 0)\<rparr>))) = [''d1'']"
  by (simp add: numeral_eq_Suc(1) list_deliveries_newest Let_def) (simp add: example_page_simps parse_show_unary)

end
