(* ===== verification/Shutdown.thy ===== *)
theory Shutdown
  imports Prelude
begin

text \<open>
  \<open>apps/api/src/shared/shutdown.ts\<close>, and the steps \<open>apps/api/src/index.ts\<close> installs: an ordered
  shutdown with a budget per step and a deadline over all of them.

  Time is in milliseconds. What a step's \<open>run\<close> does is a value of \<open>step_run\<close>: it settles after a
  while, or never. A step that settles at the very instant of its timeout counts as in time.
\<close>

section \<open>Steps\<close>

definition GRACE_MARGIN_MS :: int where "GRACE_MARGIN_MS = 1000"
definition TELEMETRY_FLUSH_TIMEOUT_MS :: int where "TELEMETRY_FLUSH_TIMEOUT_MS = 2000"
definition TELEMETRY_FLUSH_MARGIN_MS :: int where "TELEMETRY_FLUSH_MARGIN_MS = 500"
definition DEADLINE_FLUSH_TIMEOUT_MS :: int where "DEADLINE_FLUSH_TIMEOUT_MS = 1000"
definition HTTP_FORCE_CLOSE_MARGIN_MS :: int where "HTTP_FORCE_CLOSE_MARGIN_MS = 250"
definition DEFAULT_STEP_TIMEOUT_MS :: int where "DEFAULT_STEP_TIMEOUT_MS = 5000"

datatype step_run = Settles nat "string option" | Hangs

record shutdown_step =
  ss_name :: string
  ss_timeout :: "int option"
  ss_skip_after :: "string option"
  ss_run :: step_run

datatype step_outcome = StepDone | StepFailed string | StepTimeout

record shutdown_budget =
  sb_grace :: int
  sb_step :: int
  sb_workers :: int

definition worst_case_shutdown_ms :: "shutdown_budget \<Rightarrow> int" where
  "worst_case_shutdown_ms b =
     (let http_and_pool = 2 * sb_step b;
          telemetry = TELEMETRY_FLUSH_TIMEOUT_MS + TELEMETRY_FLUSH_MARGIN_MS
      in sb_grace b + GRACE_MARGIN_MS + http_and_pool + sb_workers b + telemetry + DEADLINE_FLUSH_TIMEOUT_MS)"

definition step_timeout :: "shutdown_step \<Rightarrow> int" where
  "step_timeout s = (case ss_timeout s of None \<Rightarrow> DEFAULT_STEP_TIMEOUT_MS | Some ms \<Rightarrow> ms)"

text \<open>The outcome of a step and how long it took; a timer of a negative delay fires at once.\<close>

definition run_step :: "shutdown_step \<Rightarrow> step_outcome \<times> int" where
  "run_step s =
     (let ms = max 0 (step_timeout s)
      in case ss_run s of
           Hangs \<Rightarrow> (StepTimeout, ms)
         | Settles d err \<Rightarrow>
             if int d \<le> ms then (case err of None \<Rightarrow> StepDone | Some e \<Rightarrow> StepFailed e, int d) else (StepTimeout, ms))"

record shutdown_state =
  all_done :: bool
  timed_out :: "string list"
  elapsed :: int

definition shutdown_step_taken :: "shutdown_step \<Rightarrow> shutdown_state \<Rightarrow> shutdown_state" where
  "shutdown_step_taken s st =
     (if (case ss_skip_after s of None \<Rightarrow> False | Some n \<Rightarrow> n \<noteq> [] \<and> n \<in> set (timed_out st)) then st
      else case run_step s of
        (StepDone, d) \<Rightarrow> st\<lparr>elapsed := elapsed st + d\<rparr>
      | (StepFailed _, d) \<Rightarrow> st\<lparr>all_done := False, elapsed := elapsed st + d\<rparr>
      | (StepTimeout, d) \<Rightarrow> st\<lparr>all_done := False, timed_out := ss_name s # timed_out st, elapsed := elapsed st + d\<rparr>)"

definition run_all :: "shutdown_step list \<Rightarrow> shutdown_state" where
  "run_all steps = fold shutdown_step_taken steps \<lparr>all_done = True, timed_out = [], elapsed = 0\<rparr>"

text \<open>The exit code of a shutdown and when it exits; \<open>flush\<close> is the flush on the deadline.\<close>

definition run_shutdown :: "int \<Rightarrow> step_run option \<Rightarrow> shutdown_step list \<Rightarrow> nat \<times> int" where
  "run_shutdown deadline flush steps =
     (let st = run_all steps
      in if elapsed st \<le> deadline then (if all_done st then 0 else 1, elapsed st)
         else case flush of
           None \<Rightarrow> (1, deadline)
         | Some r \<Rightarrow>
             (1, deadline + snd (run_step \<lparr>ss_name = ''deadline-flush'', ss_timeout = Some DEADLINE_FLUSH_TIMEOUT_MS,
                                    ss_skip_after = None, ss_run = r\<rparr>)))"

text \<open>What a signal does: the first starts the shutdown, any later one exits at once.\<close>

datatype signal_reaction = StartsShutdown | ExitsNow nat

definition on_signal :: "bool \<Rightarrow> bool \<times> signal_reaction" where
  "on_signal stopping = (if stopping then (True, ExitsNow 1) else (True, StartsShutdown))"

text \<open>\<open>drainHttpServer\<close>: \<open>stop\<close> is the polite stop, \<open>force\<close> the one that closes connections.\<close>

definition drain_http_server :: "int \<Rightarrow> step_run \<Rightarrow> step_run \<Rightarrow> step_run" where
  "drain_http_server budget stop force =
     (let drain = max (budget - HTTP_FORCE_CLOSE_MARGIN_MS) 0;
          forced = (case force of Hangs \<Rightarrow> Hangs | Settles f e \<Rightarrow> Settles (nat drain + f) e)
      in case stop of
           Hangs \<Rightarrow> forced
         | Settles d err \<Rightarrow> if int d \<le> drain then Settles d err else forced)"

section \<open>The API's shutdown\<close>

record api_runs =
  ar_stop :: step_run
  ar_force :: step_run
  ar_workers :: step_run
  ar_pool :: step_run
  ar_telemetry :: step_run

definition api_steps :: "shutdown_budget \<Rightarrow> api_runs \<Rightarrow> shutdown_step list" where
  "api_steps b r =
     [\<lparr>ss_name = ''signal-and-grace'', ss_timeout = Some (sb_grace b + GRACE_MARGIN_MS), ss_skip_after = None,
       ss_run = Settles (nat (sb_grace b)) None\<rparr>,
      \<lparr>ss_name = ''http'', ss_timeout = Some (sb_step b), ss_skip_after = None,
       ss_run = drain_http_server (sb_step b) (ar_stop r) (ar_force r)\<rparr>,
      \<lparr>ss_name = ''workers'', ss_timeout = Some (sb_workers b), ss_skip_after = None, ss_run = ar_workers r\<rparr>,
      \<lparr>ss_name = ''database-pool'', ss_timeout = Some (sb_step b), ss_skip_after = Some ''workers'', ss_run = ar_pool r\<rparr>,
      \<lparr>ss_name = ''telemetry-flush'', ss_timeout = Some (TELEMETRY_FLUSH_TIMEOUT_MS + TELEMETRY_FLUSH_MARGIN_MS),
       ss_skip_after = None, ss_run = ar_telemetry r\<rparr>]"

section \<open>Time spent\<close>

lemma run_step_bound: "0 \<le> snd (run_step s) \<and> snd (run_step s) \<le> max 0 (step_timeout s)"
  by (auto simp: run_step_def Let_def split: step_run.splits)

lemma step_taken_bound:
  "elapsed (shutdown_step_taken s st) \<le> elapsed st + max 0 (step_timeout s)"
  using run_step_bound [of s]
  by (cases "run_step s") (auto simp: shutdown_step_taken_def split: step_outcome.splits)

lemma fold_bound:
  "elapsed (fold shutdown_step_taken steps st) \<le> elapsed st + sum_list (map (\<lambda>s. max 0 (step_timeout s)) steps)"
proof (induction steps arbitrary: st)
  case (Cons s steps)
  show ?case using Cons.IH [of "shutdown_step_taken s st"] step_taken_bound [of s st] by simp
qed simp

lemma run_all_bound: "elapsed (run_all steps) \<le> sum_list (map (\<lambda>s. max 0 (step_timeout s)) steps)"
  using fold_bound [of steps "\<lparr>all_done = True, timed_out = [], elapsed = 0\<rparr>"] by (simp add: run_all_def)

lemma api_steps_worst_case:
  assumes "0 \<le> sb_grace b" and "0 \<le> sb_step b" and "0 \<le> sb_workers b"
  shows "elapsed (run_all (api_steps b r)) + DEADLINE_FLUSH_TIMEOUT_MS \<le> worst_case_shutdown_ms b"
  using run_all_bound [of "api_steps b r"] assms
  by (simp add: api_steps_def step_timeout_def worst_case_shutdown_ms_def Let_def GRACE_MARGIN_MS_def
      TELEMETRY_FLUSH_TIMEOUT_MS_def TELEMETRY_FLUSH_MARGIN_MS_def DEADLINE_FLUSH_TIMEOUT_MS_def)

text \<open>The pool is not closed under workers that are still running.\<close>

lemma pool_waits_for_workers:
  assumes "fst (run_step \<lparr>ss_name = ''workers'', ss_timeout = Some w, ss_skip_after = None, ss_run = r\<rparr>) = StepTimeout"
  shows "shutdown_step_taken \<lparr>ss_name = ''database-pool'', ss_timeout = t, ss_skip_after = Some ''workers'', ss_run = p\<rparr>
           (shutdown_step_taken \<lparr>ss_name = ''workers'', ss_timeout = Some w, ss_skip_after = None, ss_run = r\<rparr> st)
       = shutdown_step_taken \<lparr>ss_name = ''workers'', ss_timeout = Some w, ss_skip_after = None, ss_run = r\<rparr> st"
  using assms
  by (cases "run_step \<lparr>ss_name = ''workers'', ss_timeout = Some w, ss_skip_after = None, ss_run = r\<rparr>")
     (simp add: shutdown_step_taken_def)

text \<open>A server that is forced closed within the margin is closed within its step.\<close>

lemma drain_http_within_budget:
  assumes "HTTP_FORCE_CLOSE_MARGIN_MS \<le> budget" and "drain_http_server budget stop (Settles f e) = Settles d err"
    and "int f \<le> HTTP_FORCE_CLOSE_MARGIN_MS"
  shows "int d \<le> budget"
  using assms by (auto simp: drain_http_server_def Let_def HTTP_FORCE_CLOSE_MARGIN_MS_def split: step_run.splits if_splits)

end
