(* ===== verification/Env_Bounds.thy ===== *)
theory Env_Bounds
  imports Shutdown Webhook_Correct Email_Worker "HOL-Library.Sublist"
begin

text \<open>
  \<open>apps/api/src/shared/env-bounds.ts\<close>: what an environment must satisfy for the process to start,
  and what the other components owe to it: leases that outlast the work done under them, a
  shutdown that fits its deadline, trusted proxies that are addresses.

  An issue is the name of the variable it is raised on; the messages are not modelled. Numbers are
  integers (\<open>env-schema.ts\<close> reads them so; the hours of a dead retry may be fractions there).
\<close>

section \<open>Bounds that only work nested\<close>

definition EMAIL_IDEMPOTENCY_KEY_TTL_HOURS :: int where "EMAIL_IDEMPOTENCY_KEY_TTL_HOURS = 24"

record env_bounds =
  SERVER_IDLE_TIMEOUT_SECONDS :: int
  SWEEP_DEADLINE_MS :: int
  INTERNAL_FETCH_TIMEOUT_MS :: int
  SHUTDOWN_GRACE_PERIOD_MS :: int
  SHUTDOWN_STEP_TIMEOUT_MS :: int
  SHUTDOWN_WORKERS_TIMEOUT_MS :: int
  SHUTDOWN_DEADLINE_MS :: int
  OUTBOX_LEASE_SECONDS :: int
  OUTBOX_HANDLER_BUDGET_SECONDS :: int
  EMAIL_LEASE_SECONDS :: int
  EMAIL_DEAD_RETRY_HOURS :: int
  EMAIL_DEAD_REPLAY_WINDOW_HOURS :: int
  WEBHOOK_LEASE_SECONDS :: int

definition budget_of :: "env_bounds \<Rightarrow> shutdown_budget" where
  "budget_of v = \<lparr>sb_grace = SHUTDOWN_GRACE_PERIOD_MS v, sb_step = SHUTDOWN_STEP_TIMEOUT_MS v,
     sb_workers = SHUTDOWN_WORKERS_TIMEOUT_MS v\<rparr>"

definition refuse_if :: "bool \<Rightarrow> string \<Rightarrow> string list" where
  "refuse_if bad path = (if bad then [path] else [])"

definition validate_env_bounds :: "env_bounds \<Rightarrow> string list" where
  "validate_env_bounds v =
     (let idle_ms = SERVER_IDLE_TIMEOUT_SECONDS v * 1000;
          shutdown_budget_ms = worst_case_shutdown_ms (budget_of v);
          lease_floor = OUTBOX_HANDLER_BUDGET_SECONDS v + OUTBOX_SETTLE_MARGIN_SECONDS;
          email_lease_floor = unit_seconds CHUNK_BUDGET + margin_seconds CHUNK_BUDGET;
          webhook_lease_floor = WEBHOOK_DNS_TIMEOUT_SECONDS + WEBHOOK_FETCH_TIMEOUT_SECONDS + WEBHOOK_SETTLE_MARGIN_SECONDS
      in refuse_if (idle_ms \<le> SWEEP_DEADLINE_MS v) ''SWEEP_DEADLINE_MS''
       @ refuse_if (INTERNAL_FETCH_TIMEOUT_MS v \<le> idle_ms) ''INTERNAL_FETCH_TIMEOUT_MS''
       @ refuse_if (SHUTDOWN_DEADLINE_MS v < shutdown_budget_ms) ''SHUTDOWN_DEADLINE_MS''
       @ refuse_if (OUTBOX_LEASE_SECONDS v < lease_floor) ''OUTBOX_LEASE_SECONDS''
       @ refuse_if (EMAIL_LEASE_SECONDS v < email_lease_floor) ''EMAIL_LEASE_SECONDS''
       @ refuse_if (EMAIL_DEAD_REPLAY_WINDOW_HOURS v \<le> EMAIL_DEAD_RETRY_HOURS v) ''EMAIL_DEAD_REPLAY_WINDOW_HOURS''
       @ refuse_if (EMAIL_IDEMPOTENCY_KEY_TTL_HOURS < EMAIL_DEAD_REPLAY_WINDOW_HOURS v) ''EMAIL_DEAD_REPLAY_WINDOW_HOURS''
       @ refuse_if (WEBHOOK_LEASE_SECONDS v < webhook_lease_floor) ''WEBHOOK_LEASE_SECONDS'')"

definition validate_approval_env :: "bool \<Rightarrow> string list \<Rightarrow> string list" where
  "validate_approval_env enabled actions =
     (if \<not> enabled then []
      else let gates_role_only = ''staff.role_change'' \<in> set actions \<and> ''staff.permission_override'' \<notin> set actions
           in refuse_if gates_role_only ''ADMIN_APPROVAL_ACTIONS'' @ refuse_if (actions = []) ''ADMIN_APPROVAL_ACTIONS'')"

section \<open>Security signals\<close>

definition is_letter :: "char \<Rightarrow> bool" where
  "is_letter c \<longleftrightarrow> (CHR ''a'' \<le> c \<and> c \<le> CHR ''z'') \<or> (CHR ''A'' \<le> c \<and> c \<le> CHR ''Z'')"

definition http_token :: "string \<Rightarrow> bool" where
  "http_token s \<longleftrightarrow> s \<noteq> [] \<and> list_all (\<lambda>c. c \<in> set (''!#$%&*+-.^_`|~'' @ [CHR 0x27]) \<or> is_digit c \<or> is_letter c) s"

definition deny_country :: "string \<Rightarrow> bool" where
  "deny_country s \<longleftrightarrow> (case s of [a, b] \<Rightarrow> CHR ''A'' \<le> a \<and> a \<le> CHR ''Z'' \<and> ((CHR ''A'' \<le> b \<and> b \<le> CHR ''Z'') \<or> is_digit b) | _ \<Rightarrow> False)"

definition deny_asn :: "string \<Rightarrow> bool" where
  "deny_asn s \<longleftrightarrow> 1 \<le> length s \<and> length s \<le> 10 \<and> list_all is_digit s"

definition is_ip :: "string \<Rightarrow> nat" where
  "is_ip s = (if v4_of s \<noteq> None then 4 else if v6_of s \<noteq> None then 6 else 0)"

text \<open>\<open>[address = "", prefix = "", ...rest] = entry.split("/")\<close>.\<close>

definition is_trusted_proxy_entry :: "string \<Rightarrow> bool" where
  "is_trusted_proxy_entry entry \<longleftrightarrow>
     (if entry = ''private'' \<or> is_ip entry \<noteq> 0 then True
      else let parts = split_on (CHR ''/'') entry;
               address = hd parts;
               bits = (case tl parts of [] \<Rightarrow> [] | p # _ \<Rightarrow> p);
               others = drop 2 parts
           in if others \<noteq> [] \<or> \<not> (1 \<le> length bits \<and> length bits \<le> 3 \<and> list_all is_digit bits) then False
              else if is_ip address = 4 then decimal bits \<le> 32
              else is_ip address = 6 \<and> decimal bits \<le> 128)"

record security_env =
  TRUSTED_PROXIES :: "string list option"
  GEO_COUNTRY_HEADER :: "string option"
  GEO_ASN_HEADER :: "string option"
  IMPOSSIBLE_TRAVEL_WINDOW_MINUTES :: "int option"
  SECURITY_DENY_COUNTRIES :: "string list"
  SECURITY_DENY_ASNS :: "string list"

text \<open>An optional string that is set: neither missing nor empty.\<close>

definition truthy :: "string option \<Rightarrow> bool" where
  "truthy s \<longleftrightarrow> (case s of None \<Rightarrow> False | Some t \<Rightarrow> t \<noteq> [])"

definition refuse_bad_header :: "string \<Rightarrow> string option \<Rightarrow> string list" where
  "refuse_bad_header name h = (case h of None \<Rightarrow> [] | Some t \<Rightarrow> refuse_if (\<not> http_token t) name)"

definition validate_security_signals_env :: "security_env \<Rightarrow> string list" where
  "validate_security_signals_env v =
     (let proxies = (case TRUSTED_PROXIES v of None \<Rightarrow> [] | Some ps \<Rightarrow> ps)
      in refuse_if (filter (\<lambda>e. \<not> is_trusted_proxy_entry e) proxies \<noteq> []) ''TRUSTED_PROXIES''
       @ refuse_bad_header ''GEO_COUNTRY_HEADER'' (GEO_COUNTRY_HEADER v)
       @ refuse_bad_header ''GEO_ASN_HEADER'' (GEO_ASN_HEADER v)
       @ refuse_if (filter (\<lambda>c. \<not> deny_country c) (SECURITY_DENY_COUNTRIES v) \<noteq> []) ''SECURITY_DENY_COUNTRIES''
       @ refuse_if (filter (\<lambda>a. \<not> deny_asn a) (SECURITY_DENY_ASNS v) \<noteq> []) ''SECURITY_DENY_ASNS''
       @ refuse_if ((truthy (GEO_COUNTRY_HEADER v) \<or> truthy (GEO_ASN_HEADER v)) \<and> proxies = []) ''TRUSTED_PROXIES''
       @ refuse_if (IMPOSSIBLE_TRAVEL_WINDOW_MINUTES v \<noteq> None \<and> \<not> truthy (GEO_COUNTRY_HEADER v)) ''IMPOSSIBLE_TRAVEL_WINDOW_MINUTES''
       @ refuse_if (SECURITY_DENY_COUNTRIES v \<noteq> [] \<and> \<not> truthy (GEO_COUNTRY_HEADER v)) ''SECURITY_DENY_COUNTRIES''
       @ refuse_if (SECURITY_DENY_ASNS v \<noteq> [] \<and> \<not> truthy (GEO_ASN_HEADER v)) ''SECURITY_DENY_ASNS'')"

section \<open>Hosts\<close>

definition cookie_char :: "char \<Rightarrow> bool" where
  "cookie_char c \<longleftrightarrow> (CHR ''a'' \<le> c \<and> c \<le> CHR ''z'') \<or> is_digit c \<or> c = CHR ''-''"

definition cookie_domain :: "string \<Rightarrow> bool" where
  "cookie_domain s \<longleftrightarrow> 2 \<le> length (split_on (CHR ''.'') s)
     \<and> list_all (\<lambda>l. l \<noteq> [] \<and> list_all cookie_char l) (split_on (CHR ''.'') s)"

definition covers_host :: "string \<Rightarrow> string \<Rightarrow> bool" where
  "covers_host domain host \<longleftrightarrow> host = domain \<or> suffix (CHR ''.'' # domain) host"

record hosts_env =
  NODE_ENV :: string
  ADMIN_URL :: "string option"
  APP_URL :: string
  BETTER_AUTH_URL :: string
  AUTH_COOKIE_DOMAIN :: "string option"

text \<open>\<open>origin\<close> and \<open>hostname\<close> read a URL (the schema has parsed them all); \<open>public_suffix\<close> is \<open>tldts\<close>.\<close>

definition validate_hosts_env ::
  "(string \<Rightarrow> string) \<Rightarrow> (string \<Rightarrow> string) \<Rightarrow> (string \<Rightarrow> string option) \<Rightarrow> hosts_env \<Rightarrow> string list" where
  "validate_hosts_env origin hostname public_suffix v =
     (let admin = (if truthy (ADMIN_URL v) then ADMIN_URL v else None);
          admin_issues = (case admin of None \<Rightarrow> [] | Some u \<Rightarrow>
            refuse_if (origin u \<noteq> u) ''ADMIN_URL''
            @ refuse_if (NODE_ENV v = ''production'' \<and> \<not> prefix ''https://'' u) ''ADMIN_URL'')
      in case AUTH_COOKIE_DOMAIN v of
           None \<Rightarrow> admin_issues
         | Some domain \<Rightarrow>
             if domain = [] then admin_issues
             else if \<not> cookie_domain domain then admin_issues @ [''AUTH_COOKIE_DOMAIN'']
             else if public_suffix domain = Some domain then admin_issues @ [''AUTH_COOKIE_DOMAIN'']
             else let hosts = map hostname ([APP_URL v, BETTER_AUTH_URL v] @ (case admin of None \<Rightarrow> [] | Some u \<Rightarrow> [u]));
                      outside = filter (\<lambda>h. \<not> covers_host domain h) hosts
                  in admin_issues @ refuse_if (outside \<noteq> []) ''AUTH_COOKIE_DOMAIN'')"

text \<open>A set keeps the first of equal origins.\<close>

definition in_order :: "string list \<Rightarrow> string list" where
  "in_order xs = rev (remdups (rev xs))"

definition front_origins :: "string list option \<Rightarrow> string option \<Rightarrow> string list" where
  "front_origins cors admin =
     (let origins = (case cors of None \<Rightarrow> [''http://localhost:5173''] | Some os \<Rightarrow> os)
      in case admin of
           None \<Rightarrow> origins
         | Some u \<Rightarrow> if u = [] then origins else in_order (origins @ [u]))"

section \<open>What a valid environment gives\<close>

lemma refuse_if_Nil [simp]: "refuse_if bad path = [] \<longleftrightarrow> \<not> bad"
  by (simp add: refuse_if_def)

lemma bounds_hold:
  assumes "validate_env_bounds v = []"
  shows "SWEEP_DEADLINE_MS v < SERVER_IDLE_TIMEOUT_SECONDS v * 1000"
    and "SERVER_IDLE_TIMEOUT_SECONDS v * 1000 < INTERNAL_FETCH_TIMEOUT_MS v"
    and "worst_case_shutdown_ms (budget_of v) \<le> SHUTDOWN_DEADLINE_MS v"
    and "OUTBOX_HANDLER_BUDGET_SECONDS v + OUTBOX_SETTLE_MARGIN_SECONDS \<le> OUTBOX_LEASE_SECONDS v"
    and "unit_seconds CHUNK_BUDGET + margin_seconds CHUNK_BUDGET \<le> EMAIL_LEASE_SECONDS v"
    and "EMAIL_DEAD_RETRY_HOURS v < EMAIL_DEAD_REPLAY_WINDOW_HOURS v"
    and "EMAIL_DEAD_REPLAY_WINDOW_HOURS v \<le> EMAIL_IDEMPOTENCY_KEY_TTL_HOURS"
    and "unit_seconds DELIVERY_BUDGET + margin_seconds DELIVERY_BUDGET \<le> WEBHOOK_LEASE_SECONDS v"
  using assms by (simp_all add: validate_env_bounds_def Let_def DELIVERY_BUDGET_def)

text \<open>The units a lease is claimed for fit it, margin included, once one unit does.\<close>

lemma units_fit_lease:
  assumes "0 < unit_seconds b" and "unit_seconds b + margin_seconds b \<le> lease"
  shows "1 \<le> units_within_lease lease b" and "units_within_lease lease b * unit_seconds b + margin_seconds b \<le> lease"
proof -
  define q where "q = (lease - margin_seconds b) div unit_seconds b"
  have "unit_seconds b div unit_seconds b \<le> q" unfolding q_def using assms by (intro zdiv_mono1) auto
  then have q: "1 \<le> q" using assms(1) by simp
  have "q * unit_seconds b \<le> lease - margin_seconds b"
    unfolding q_def using div_mult_mod_eq [of "lease - margin_seconds b" "unit_seconds b"]
      pos_mod_sign [OF assms(1), of "lease - margin_seconds b"] by linarith
  then show "1 \<le> units_within_lease lease b" "units_within_lease lease b * unit_seconds b + margin_seconds b \<le> lease"
    using q by (simp_all add: units_within_lease_def q_def [symmetric])
qed

text \<open>How long the batches the three workers claim may take, in seconds, each unit within its budget.\<close>

definition relay_batch_seconds :: "relay_options \<Rightarrow> int" where
  "relay_batch_seconds o1 =
     ((claim_limit_of o1 + ro_concurrency o1 - 1) div ro_concurrency o1) * ro_handler_budget o1"

definition hook_batch_seconds :: "hook_options \<Rightarrow> int" where
  "hook_batch_seconds o1 = hook_claim_limit o1 * unit_seconds DELIVERY_BUDGET"

text \<open>
  C17: an environment the process starts with is one its workers can keep: any batch the relay or
  the webhook worker claims is worked within its lease with the settlement margin to spare, and each
  claims at least one row; as many chunks of e-mails as the budget allows one lease fit it (what the
  e-mail worker claims may make more chunks: it releases the rest when its lease no longer covers one); and
  a dead e-mail is replayed at least once inside the window in which the provider still knows its key.
\<close>
theorem valid_env_keeps_leases:
  assumes "validate_env_bounds v = []"
    and "ro_lease_seconds relay = OUTBOX_LEASE_SECONDS v" and "ro_handler_budget relay = OUTBOX_HANDLER_BUDGET_SECONDS v"
    and "0 < OUTBOX_HANDLER_BUDGET_SECONDS v" and "1 \<le> ro_concurrency relay" and "1 \<le> ro_batch_size relay"
    and "wo_lease hook = WEBHOOK_LEASE_SECONDS v"
  shows "1 \<le> claim_limit_of relay \<and> relay_batch_seconds relay + OUTBOX_SETTLE_MARGIN_SECONDS \<le> ro_lease_seconds relay
    \<and> 1 \<le> hook_claim_limit hook \<and> hook_batch_seconds hook + WEBHOOK_SETTLE_MARGIN_SECONDS \<le> wo_lease hook
    \<and> units_within_lease (EMAIL_LEASE_SECONDS v) CHUNK_BUDGET * unit_seconds CHUNK_BUDGET + margin_seconds CHUNK_BUDGET
        \<le> EMAIL_LEASE_SECONDS v
    \<and> EMAIL_DEAD_RETRY_HOURS v < EMAIL_DEAD_REPLAY_WINDOW_HOURS v
    \<and> EMAIL_DEAD_REPLAY_WINDOW_HOURS v \<le> EMAIL_IDEMPOTENCY_KEY_TTL_HOURS"
proof -
  note b = bounds_hold [OF assms(1)]
  have "relay_batch_seconds relay + OUTBOX_SETTLE_MARGIN_SECONDS \<le> ro_lease_seconds relay"
    unfolding relay_batch_seconds_def by (rule claim_fits_lease) (use assms b(4) in auto)
  moreover have "1 \<le> claim_limit_of relay"
  proof -
    have "1 \<le> a * c" if "1 \<le> a" "1 \<le> c" for a c :: int using mult_mono [OF that] that by simp
    then show ?thesis using assms(6) by (simp add: claim_limit_of_def Let_def)
  qed
  moreover have unit: "0 < unit_seconds DELIVERY_BUDGET"
    by (simp add: DELIVERY_BUDGET_def WEBHOOK_DNS_TIMEOUT_SECONDS_def WEBHOOK_FETCH_TIMEOUT_SECONDS_def)
  have w: "1 \<le> units_within_lease (wo_lease hook) DELIVERY_BUDGET"
    "units_within_lease (wo_lease hook) DELIVERY_BUDGET * unit_seconds DELIVERY_BUDGET + margin_seconds DELIVERY_BUDGET \<le> wo_lease hook"
    using units_fit_lease [OF unit] b(8) assms(7) by simp_all
  have "hook_claim_limit hook * unit_seconds DELIVERY_BUDGET \<le> units_within_lease (wo_lease hook) DELIVERY_BUDGET * unit_seconds DELIVERY_BUDGET"
    using unit by (intro mult_right_mono) (simp_all add: hook_claim_limit_def)
  then have "hook_batch_seconds hook + WEBHOOK_SETTLE_MARGIN_SECONDS \<le> wo_lease hook"
    using w(2) by (simp add: hook_batch_seconds_def DELIVERY_BUDGET_def)
  moreover have "1 \<le> hook_claim_limit hook" using w(1) by (simp add: hook_claim_limit_def MAX_CLAIM_def)
  moreover have "units_within_lease (EMAIL_LEASE_SECONDS v) CHUNK_BUDGET * unit_seconds CHUNK_BUDGET + margin_seconds CHUNK_BUDGET
        \<le> EMAIL_LEASE_SECONDS v"
    by (rule units_fit_lease(2)) (use b(5) in \<open>simp_all add: CHUNK_BUDGET_def\<close>)
  ultimately show ?thesis using b(6,7) by blast
qed

text \<open>
  C18: a shutdown under a valid environment is never cut: whatever its steps do, hang or fail, it ends
  before its deadline, with time for the last flush, and exits with 0 exactly if every step ended
  in time without error.
\<close>
theorem valid_env_shuts_down:
  assumes "validate_env_bounds v = []"
    and "0 \<le> SHUTDOWN_GRACE_PERIOD_MS v" and "0 \<le> SHUTDOWN_STEP_TIMEOUT_MS v" and "0 \<le> SHUTDOWN_WORKERS_TIMEOUT_MS v"
  shows "run_shutdown (SHUTDOWN_DEADLINE_MS v) flush (api_steps (budget_of v) r)
      = (if all_done (run_all (api_steps (budget_of v) r)) then 0 else 1, elapsed (run_all (api_steps (budget_of v) r)))
    \<and> elapsed (run_all (api_steps (budget_of v) r)) + DEADLINE_FLUSH_TIMEOUT_MS \<le> SHUTDOWN_DEADLINE_MS v"
proof -
  have "elapsed (run_all (api_steps (budget_of v) r)) + DEADLINE_FLUSH_TIMEOUT_MS \<le> worst_case_shutdown_ms (budget_of v)"
    by (rule api_steps_worst_case) (use assms in \<open>simp_all add: budget_of_def\<close>)
  then show ?thesis
    using bounds_hold(3) [OF assms(1)] by (simp add: run_shutdown_def Let_def DEADLINE_FLUSH_TIMEOUT_MS_def)
qed

definition default_env :: env_bounds where
  "default_env = \<lparr>SERVER_IDLE_TIMEOUT_SECONDS = 120, SWEEP_DEADLINE_MS = 90000, INTERNAL_FETCH_TIMEOUT_MS = 150000,
     SHUTDOWN_GRACE_PERIOD_MS = 15000, SHUTDOWN_STEP_TIMEOUT_MS = 2000, SHUTDOWN_WORKERS_TIMEOUT_MS = 12000,
     SHUTDOWN_DEADLINE_MS = 36000, OUTBOX_LEASE_SECONDS = 120, OUTBOX_HANDLER_BUDGET_SECONDS = 30,
     EMAIL_LEASE_SECONDS = 120, EMAIL_DEAD_RETRY_HOURS = 6, EMAIL_DEAD_REPLAY_WINDOW_HOURS = 24, WEBHOOK_LEASE_SECONDS = 330\<rparr>"

lemma default_env_valid: "validate_env_bounds default_env = []"
  by (simp add: validate_env_bounds_def default_env_def Let_def worst_case_shutdown_ms_def budget_of_def GRACE_MARGIN_MS_def
      TELEMETRY_FLUSH_TIMEOUT_MS_def TELEMETRY_FLUSH_MARGIN_MS_def DEADLINE_FLUSH_TIMEOUT_MS_def OUTBOX_SETTLE_MARGIN_SECONDS_def
      CHUNK_BUDGET_def EMAIL_IDEMPOTENCY_KEY_TTL_HOURS_def WEBHOOK_DNS_TIMEOUT_SECONDS_def WEBHOOK_FETCH_TIMEOUT_SECONDS_def
      WEBHOOK_SETTLE_MARGIN_SECONDS_def)

theorem valid_env_keeps_leases_witness: "hook_batch_seconds (example_hook_options\<lparr>wo_lease := 330\<rparr>) + WEBHOOK_SETTLE_MARGIN_SECONDS \<le> 330"
  using valid_env_keeps_leases [OF default_env_valid, of "\<lparr>ro_event_types = [], ro_batch_size = 100, ro_max_attempts = 10,
      ro_lease_seconds = 120, ro_dead_retry_seconds = 21600, ro_concurrency = 4, ro_handler_budget = 30\<rparr>"
      "example_hook_options\<lparr>wo_lease := 330\<rparr>"]
  by (simp add: default_env_def)

theorem valid_env_shuts_down_witness:
  "run_shutdown (SHUTDOWN_DEADLINE_MS default_env) None (api_steps (budget_of default_env)
     \<lparr>ar_stop = Settles 20 None, ar_force = Hangs, ar_workers = Hangs, ar_pool = Hangs, ar_telemetry = Settles 300 None\<rparr>) = (1, 27320)"
  using valid_env_shuts_down [OF default_env_valid, of None "\<lparr>ar_stop = Settles 20 None, ar_force = Hangs, ar_workers = Hangs,
      ar_pool = Hangs, ar_telemetry = Settles 300 None\<rparr>"]
  by (simp add: default_env_def budget_of_def run_all_def api_steps_def shutdown_step_taken_def run_step_def Let_def
      step_timeout_def drain_http_server_def HTTP_FORCE_CLOSE_MARGIN_MS_def GRACE_MARGIN_MS_def TELEMETRY_FLUSH_TIMEOUT_MS_def
      TELEMETRY_FLUSH_MARGIN_MS_def)

end
