(* ===== verification/Sweep_Correct.thy ===== *)
theory Sweep_Correct
  imports Sweep
begin

text \<open>
  What a sweep guarantees: it deletes only eligible rows and counts them right, it ends, it leaves
  nothing behind when it says so, and of the runs of one label only one believes it holds the lease.
\<close>

section \<open>The batches of a table\<close>

text \<open>The purge of a table pass; the \<open>i\<close>-th batch meets the error \<open>err i\<close> and the locks \<open>locked i\<close>.\<close>

definition table_purge ::
  "('r \<Rightarrow> 'k) \<Rightarrow> ('r \<Rightarrow> bool) \<Rightarrow> ('r \<Rightarrow> 'o :: linorder) \<Rightarrow> (nat \<Rightarrow> string option) \<Rightarrow> (nat \<Rightarrow> 'k list) \<Rightarrow> ('r list \<times> nat) purge" where
  "table_purge key eligible order err locked amount s =
     (case purge_batch_with_timeout key (Some eligible) order (err (snd s)) (locked (snd s)) amount (fst s) of
        Inl e \<Rightarrow> Inl e
      | Inr (t, n) \<Rightarrow> Inr ((t, Suc (snd s)), n))"

lemma purge_batch_spec:
  assumes "keyed key t" and "purge_batch_with_timeout key (Some eligible) order None locked n t = Inr (t', d)"
  obtains gone where "t' = filter (\<lambda>r. \<not> gone r) t" and "\<forall>r \<in> set t. gone r \<longrightarrow> eligible r" and "length t = length t' + d"
    and "d = 0 \<and> 0 < n \<longrightarrow> (\<forall>r \<in> set t. eligible r \<longrightarrow> key r \<in> set locked)"
    and "locked = [] \<longrightarrow> d = min n (length (filter eligible t))"
proof -
  let ?batch = "locked_batch key eligible order n locked t"
  define gone where "gone r \<longleftrightarrow> key r \<in> key ` set ?batch" for r
  have batch: "?batch = take n (sort_key order (filter (\<lambda>r. eligible r \<and> key r \<notin> set locked) t))"
    by (simp add: locked_batch_def sql_select_def)
  have sub: "set ?batch \<subseteq> {r \<in> set t. eligible r \<and> key r \<notin> set locked}"
    unfolding batch using set_take_subset by fastforce
  have t': "t' = filter (\<lambda>r. \<not> gone r) t" "d = length (filter gone t)"
    using assms(2) by (auto simp: purge_batch_with_timeout_def Let_def gone_def [abs_def] sql_delete_def)
  have gone: "r \<in> set ?batch" if r: "r \<in> set t" "gone r" for r
  proof -
    obtain b where "b \<in> set ?batch" "key b = key r" using r(2) by (auto simp: gone_def)
    then have "b = r" using keyed_unique [OF assms(1), of b r] sub r(1) by blast
    then show ?thesis using \<open>b \<in> set ?batch\<close> by simp
  qed
  then have el: "\<forall>r \<in> set t. gone r \<longrightarrow> eligible r" using sub by blast
  have sum: "length t = length t' + d" unfolding t' using sum_length_filter_compl [of gone t] by simp
  have len: "d = length ?batch"
  proof -
    have dist: "distinct t" using assms(1) by (simp add: keyed_def distinct_map)
    then have "distinct ?batch" unfolding batch by (intro distinct_take) (simp add: distinct_sort)
    moreover have "set (filter gone t) = set ?batch"
    proof
      show "set (filter gone t) \<subseteq> set ?batch" using gone by auto
      show "set ?batch \<subseteq> set (filter gone t)" using sub by (auto simp: gone_def)
    qed
    ultimately show ?thesis using dist t'(2) distinct_card distinct_filter by metis
  qed
  have none: "d = 0 \<and> 0 < n \<longrightarrow> (\<forall>r \<in> set t. eligible r \<longrightarrow> key r \<in> set locked)"
  proof (intro impI ballI)
    fix r assume "d = 0 \<and> 0 < n" "r \<in> set t" "eligible r"
    then have "length ?batch = 0" "0 < n" using len by simp_all
    then have "length (filter (\<lambda>r. eligible r \<and> key r \<notin> set locked) t) = 0" unfolding batch by (simp add: min_def split: if_splits)
    then have "filter (\<lambda>r. eligible r \<and> key r \<notin> set locked) t = []" by simp
    then show "key r \<in> set locked" using \<open>r \<in> set t\<close> \<open>eligible r\<close> unfolding filter_empty_conv by blast
  qed
  have "locked = [] \<longrightarrow> d = min n (length (filter eligible t))" unfolding len batch by (simp add: min.commute)
  from t'(1) el sum none this show thesis by (rule that)
qed

lemma purge_batch_unlocked:
  fixes key :: "'r \<Rightarrow> 'k"
  assumes "keyed key t" and "purge_batch_with_timeout key (Some eligible) order None [] n t = Inr (t', d)"
  obtains gone where "t' = filter (\<lambda>r. \<not> gone r) t" and "\<forall>r \<in> set t. gone r \<longrightarrow> eligible r" and "length t = length t' + d"
    and "d = min n (length (filter eligible t))"
proof -
  obtain gone where g: "t' = filter (\<lambda>r. \<not> gone r) t" "\<forall>r \<in> set t. gone r \<longrightarrow> eligible r" "length t = length t' + d"
    "d = 0 \<and> 0 < n \<longrightarrow> (\<forall>r \<in> set t. eligible r \<longrightarrow> key r \<in> set [])"
    "([] :: 'k list) = [] \<longrightarrow> d = min n (length (filter eligible t))"
    by (rule purge_batch_spec [OF assms])
  from g(5) have "d = min n (length (filter eligible t))" by (rule mp) (rule refl)
  with g(1-3) show thesis by (rule that)
qed

lemma keyed_filter: "keyed key t \<Longrightarrow> keyed key (filter p t)"
  by (auto simp: keyed_def distinct_map intro: inj_on_subset)

lemma sweep_loop_table:
  assumes "keyed key t" and "sr_batches acc = i" and "sr_reason acc = Exhausted"
    and "sweep_loop (table_purge key eligible order err locked) on_error deadline clock amount left (t, i) acc = ((t', j), res)"
  shows "\<exists>gone. t' = filter (\<lambda>r. \<not> gone r) t \<and> (\<forall>r \<in> set t. gone r \<longrightarrow> eligible r)
    \<and> (\<forall>a. res = Inr a \<longrightarrow> sr_deleted acc + length t = length t' + sr_deleted a \<and> sr_batches a \<le> i + left
        \<and> (sr_reason a = Exhausted \<and> sr_batches a < i + left \<and> 0 < amount \<longrightarrow>
             (\<forall>r \<in> set t'. eligible r \<longrightarrow> key r \<in> set (locked (sr_batches a - 1)))))"
    (is "\<exists>gone. ?P gone")
  using assms
proof (induction left arbitrary: t i acc)
  case 0
  then show ?case by (intro exI [of _ "\<lambda>_. False"]) auto
next
  case (Suc left)
  show ?case
  proof (cases "case deadline of None \<Rightarrow> False | Some d \<Rightarrow> d \<le> clock (sr_batches acc)")
    case True
    then show ?thesis using Suc.prems by (intro exI [of _ "\<lambda>_. False"]) auto
  next
    case go: False
    show ?thesis
    proof (cases "table_purge key eligible order err locked amount (t, i)")
      case (Inl e)
      then show ?thesis using Suc.prems go
        by (intro exI [of _ "\<lambda>_. False"]) (auto split: option.splits error_decision.splits)
    next
      case (Inr out)
      then obtain t1 n where out: "out = ((t1, Suc i), n)" and none: "err i = None"
        and b: "purge_batch_with_timeout key (Some eligible) order None (locked i) amount t = Inr (t1, n)"
        by (auto simp: table_purge_def purge_batch_with_timeout_def split: sum.splits option.splits)
      obtain g1 where g1: "t1 = filter (\<lambda>r. \<not> g1 r) t" "\<forall>r \<in> set t. g1 r \<longrightarrow> eligible r" "length t = length t1 + n"
        "n = 0 \<and> 0 < amount \<longrightarrow> (\<forall>r \<in> set t. eligible r \<longrightarrow> key r \<in> set (locked i))"
        by (rule purge_batch_spec [OF Suc.prems(1) b])
      let ?acc = "acc\<lparr>sr_deleted := sr_deleted acc + n, sr_batches := Suc (sr_batches acc)\<rparr>"
      show ?thesis
      proof (cases "n = 0")
        case True
        then have "res = Inr ?acc" "t' = t1" using Suc.prems(4) go Inr by (simp_all add: out Let_def)
        then show ?thesis using g1 True Suc.prems(2) by (intro exI [of _ g1]) auto
      next
        case False
        then have rest: "sweep_loop (table_purge key eligible order err locked) on_error deadline clock amount left (t1, Suc i) ?acc = ((t', j), res)"
          using Suc.prems(4) go Inr by (simp add: out Let_def)
        have "keyed key t1" unfolding g1(1) using Suc.prems(1) by (rule keyed_filter)
        from Suc.IH [OF this _ _ rest] obtain g2 where g2: "t' = filter (\<lambda>r. \<not> g2 r) t1" "\<forall>r \<in> set t1. g2 r \<longrightarrow> eligible r"
          "\<forall>a. res = Inr a \<longrightarrow> sr_deleted ?acc + length t1 = length t' + sr_deleted a \<and> sr_batches a \<le> Suc i + left
            \<and> (sr_reason a = Exhausted \<and> sr_batches a < Suc i + left \<and> 0 < amount \<longrightarrow>
                 (\<forall>r \<in> set t'. eligible r \<longrightarrow> key r \<in> set (locked (sr_batches a - 1))))"
          using Suc.prems(2,3) by auto
        have "t' = filter (\<lambda>r. \<not> (g1 r \<or> g2 r)) t" unfolding g2(1) g1(1) by (simp add: conj_commute)
        moreover have "\<forall>r \<in> set t. g1 r \<or> g2 r \<longrightarrow> eligible r" using g1(1,2) g2(2) by auto
        ultimately show ?thesis using g1(3) g2(3) by (intro exI [of _ "\<lambda>r. g1 r \<or> g2 r"]) auto
      qed
    qed
  qed
qed

text \<open>
  C19: a sweep of a table that is not a dry run deletes only rows its predicate covers and leaves the others in their order, it
  counts exactly what it deleted, it ends within the cap of batches, and when it says the work is
  exhausted the only eligible rows left are those other transactions held in its last batch.
\<close>
theorem sweep_deletes_exactly:
  assumes "keyed key t" and "0 < amount"
    and "run_batched_sweep (table_purge key eligible order err locked) counted False on_error deadline clock amount (t, 0) = ((t', j), res)"
  shows "\<exists>gone. t' = filter (\<lambda>r. \<not> gone r) t \<and> (\<forall>r \<in> set t. gone r \<longrightarrow> eligible r)
    \<and> (\<forall>a. res = Inr a \<longrightarrow> length t = length t' + sr_deleted a \<and> sr_batches a \<le> MAX_BATCHES
        \<and> (sr_reason a = Exhausted \<longrightarrow> (\<forall>r \<in> set t'. eligible r \<longrightarrow> key r \<in> set (locked (sr_batches a - 1)))))"
proof -
  let ?zero = "\<lparr>sr_deleted = 0, sr_batches = 0, sr_reason = Exhausted\<rparr>"
  obtain res1 where l: "sweep_loop (table_purge key eligible order err locked) on_error deadline clock amount MAX_BATCHES (t, 0) ?zero
      = ((t', j), res1)"
    and res: "res = (case res1 of Inl e \<Rightarrow> Inl e | Inr acc \<Rightarrow>
      Inr (if sr_reason acc = Exhausted \<and> MAX_BATCHES \<le> sr_batches acc then acc\<lparr>sr_reason := BatchCap\<rparr> else acc))"
    using assms(3) by (auto simp: run_batched_sweep_def split: prod.splits sum.splits)
  from sweep_loop_table [OF assms(1) _ _ l] obtain gone where g: "t' = filter (\<lambda>r. \<not> gone r) t" "\<forall>r \<in> set t. gone r \<longrightarrow> eligible r"
    "\<forall>a. res1 = Inr a \<longrightarrow> length t = length t' + sr_deleted a \<and> sr_batches a \<le> MAX_BATCHES
        \<and> (sr_reason a = Exhausted \<and> sr_batches a < MAX_BATCHES \<longrightarrow>
             (\<forall>r \<in> set t'. eligible r \<longrightarrow> key r \<in> set (locked (sr_batches a - 1))))"
    using assms(2) by auto
  then show ?thesis by (intro exI [of _ gone]) (auto simp: res split: sum.splits)
qed

section \<open>A sweep that is not disturbed ends its work\<close>

lemma undisturbed_loop:
  assumes "keyed key t" and "sr_batches acc = i" and "sr_reason acc = Exhausted" and "0 < amount"
    and "length (filter eligible t) \<le> amount * left"
  shows "\<exists>t' j. sweep_loop (table_purge key eligible order (\<lambda>_. None) (\<lambda>_. [])) on_error None clock amount (Suc left + spare) (t, i) acc
    = ((t', j), Inr (acc\<lparr>sr_deleted := sr_deleted acc + length (filter eligible t), sr_batches := j\<rparr>))
    \<and> j \<le> i + Suc left \<and> filter eligible t' = []"
  using assms
proof (induction left arbitrary: t i acc)
  case (0 t i acc)
  then have none: "filter eligible t = []" by simp
  obtain t1 n where b: "purge_batch_with_timeout key (Some eligible) order None [] amount t = Inr (t1, n)"
    by (auto simp: purge_batch_with_timeout_def Let_def)
  have "n = 0" "t1 = t"
    by (rule purge_batch_unlocked [OF 0(1) b], use none in \<open>auto simp: filter_empty_conv\<close>)+
  then show ?case using none b 0 by (simp add: table_purge_def)
next
  case (Suc left t i acc)
  obtain t1 n where b: "purge_batch_with_timeout key (Some eligible) order None [] amount t = Inr (t1, n)"
    by (auto simp: purge_batch_with_timeout_def Let_def)
  obtain g where g: "t1 = filter (\<lambda>r. \<not> g r) t" "\<forall>r \<in> set t. g r \<longrightarrow> eligible r" "length t = length t1 + n"
    "n = min amount (length (filter eligible t))"
    by (rule purge_batch_unlocked [OF Suc.prems(1) b])
  note gn = g(4)
  have p: "table_purge key eligible order (\<lambda>_. None) (\<lambda>_. []) amount (t, i) = Inr ((t1, Suc i), n)"
    by (simp add: table_purge_def b)
  let ?acc = "acc\<lparr>sr_deleted := sr_deleted acc + n, sr_batches := Suc (sr_batches acc)\<rparr>"
  show ?case
  proof (cases "n = 0")
    case True
    then have "filter eligible t = []" using gn Suc.prems(4) by (cases "filter eligible t") (auto simp: min_def split: if_splits)
    then have "t1 = t" using g(1,2) by (auto simp: filter_empty_conv intro!: filter_True)
    then show ?thesis using p True \<open>filter eligible t = []\<close> Suc.prems(2) by simp
  next
    case False
    have count: "length (filter eligible t) = length (filter eligible t1) + n"
    proof -
      have "filter eligible t1 = filter (\<lambda>r. \<not> g r) (filter eligible t)" unfolding g(1) by (simp add: conj_commute)
      moreover have "filter g (filter eligible t) = filter g t" using g(2) by (auto intro!: filter_cong)
      moreover have "length (filter g t) = n" using g(3) sum_length_filter_compl [of g t] unfolding g(1) by simp
      ultimately show ?thesis using sum_length_filter_compl [of g "filter eligible t"] by simp
    qed
    have "length (filter eligible t1) \<le> amount * left" using count gn Suc.prems(4,5) by (auto simp: min_def split: if_splits)
    moreover have "keyed key t1" unfolding g(1) using Suc.prems(1) by (rule keyed_filter)
    ultimately obtain t' j where l: "sweep_loop (table_purge key eligible order (\<lambda>_. None) (\<lambda>_. [])) on_error None clock amount (Suc left + spare) (t1, Suc i) ?acc
        = ((t', j), Inr (?acc\<lparr>sr_deleted := sr_deleted ?acc + length (filter eligible t1), sr_batches := j\<rparr>))"
      "j \<le> Suc i + Suc left" "filter eligible t' = []"
      using Suc.IH [of t1 ?acc "Suc i"] Suc.prems by auto
    have "sweep_loop (table_purge key eligible order (\<lambda>_. None) (\<lambda>_. [])) on_error None clock amount (Suc (Suc left) + spare) (t, i) acc
        = sweep_loop (table_purge key eligible order (\<lambda>_. None) (\<lambda>_. [])) on_error None clock amount (Suc left + spare) (t1, Suc i) ?acc"
      by (simp add: p False Let_def)
    then show ?thesis using l count by (auto simp del: sweep_loop.simps)
  qed
qed

text \<open>
  A sweep nobody disturbs ends its work: with no error, no lock and no deadline it deletes every
  eligible row and says exhausted, provided they fit the batches before the last one of the cap.
\<close>
theorem sweep_finishes:
  assumes "keyed key t" and "0 < amount" and "length (filter eligible t) \<le> amount * 998"
  shows "\<exists>t' j a. run_batched_sweep (table_purge key eligible order (\<lambda>_. None) (\<lambda>_. [])) counted False on_error None clock amount (t, 0)
      = ((t', j), Inr a) \<and> sr_reason a = Exhausted \<and> sr_deleted a = length (filter eligible t) \<and> filter eligible t' = []"
proof -
  have fuel: "MAX_BATCHES = Suc 998 + 1" by (simp add: MAX_BATCHES_def)
  obtain t' j where l: "sweep_loop (table_purge key eligible order (\<lambda>_. None) (\<lambda>_. [])) on_error None clock amount MAX_BATCHES (t, 0)
      \<lparr>sr_deleted = 0, sr_batches = 0, sr_reason = Exhausted\<rparr>
    = ((t', j), Inr \<lparr>sr_deleted = length (filter eligible t), sr_batches = j, sr_reason = Exhausted\<rparr>)"
    "j \<le> Suc 998" "filter eligible t' = []"
    unfolding fuel
    using undisturbed_loop [OF assms(1) _ _ assms(2,3), of "\<lparr>sr_deleted = 0, sr_batches = 0, sr_reason = Exhausted\<rparr>" 0 order on_error clock 1]
    by auto
  have "\<not> MAX_BATCHES \<le> j" using l(2) by (simp add: MAX_BATCHES_def)
  then show ?thesis using l(3) by (simp add: run_batched_sweep_def l(1))
qed

text \<open>
  A sweep whose last allowed batch finds nothing left says the cap was hit all the same: here one row
  a batch, and one row fewer than the cap.
\<close>

definition one_at_a_time :: "nat purge" where
  "one_at_a_time amount s = (if s = 0 then Inr (0, 0) else Inr (s - 1, 1))"

lemma one_by_one:
  "sr_reason acc = Exhausted \<Longrightarrow> sweep_loop one_at_a_time on_error None clock amount (Suc s) s acc
     = (0, Inr (acc\<lparr>sr_deleted := sr_deleted acc + s, sr_batches := sr_batches acc + Suc s\<rparr>))"
  by (induction s arbitrary: acc) (simp_all add: one_at_a_time_def Let_def)

lemma cap_reported_with_nothing_left:
  "\<exists>a. run_batched_sweep one_at_a_time counted False on_error None clock amount 999 = (0, Inr a) \<and> sr_reason a = BatchCap"
proof -
  have "sweep_loop one_at_a_time on_error None clock amount (Suc 999) 999 \<lparr>sr_deleted = 0, sr_batches = 0, sr_reason = Exhausted\<rparr>
      = (0, Inr \<lparr>sr_deleted = 999, sr_batches = 1000, sr_reason = Exhausted\<rparr>)"
    by (subst one_by_one) simp_all
  then show ?thesis by (simp add: run_batched_sweep_def MAX_BATCHES_def del: sweep_loop.simps)
qed

section \<open>One run per label\<close>

text \<open>
  A configuration: the database's clock, the rows, the leases runs believe they hold (label, token,
  end), and the tokens ever made (a fresh one, a \<open>uuidv7\<close>, was never made before). A run that
  crashes, or that overruns its lease, keeps it in \<open>held\<close> until it releases it, if it ever does.
\<close>

type_synonym lock_conf = "instant \<times> sweep_lock_row list \<times> (string \<times> ident \<times> instant) set \<times> ident set"

inductive lock_step :: "lock_conf \<Rightarrow> lock_conf \<Rightarrow> bool" where
  lease_taken: "acquire_sweep_lease now date owner label ttl t = (t', Some owner) \<Longrightarrow> owner \<notin> made \<Longrightarrow>
     lock_step (now, t, held, made) (now, t', insert (label, owner, date + ttl) held, insert owner made)"
| lease_refused: "acquire_sweep_lease now date owner label ttl t = (t', None) \<Longrightarrow>
     lock_step (now, t, held, made) (now, t', held, made)"
| lease_given_back: "(label, owner, until) \<in> held \<Longrightarrow>
     lock_step (now, t, held, made) (now, release_sweep_lease label owner t, held - {(label, owner, until)}, made)"
| time_passes: "now \<le> later \<Longrightarrow> lock_step (now, t, held, made) (later, t, held, made)"

definition lock_inv :: "lock_conf \<Rightarrow> bool" where
  "lock_inv conf \<longleftrightarrow> (case conf of (now, t, held, made) \<Rightarrow>
     keyed lk_label t \<and> lk_owner ` set t \<subseteq> made \<and> (\<forall>l i u. (l, i, u) \<in> held \<longrightarrow> i \<in> made)
   \<and> (\<forall>l i u l' u'. (l, i, u) \<in> held \<longrightarrow> (l', i, u') \<in> held \<longrightarrow> l = l' \<and> u = u')
   \<and> (\<forall>l i u. (l, i, u) \<in> held \<longrightarrow> now \<le> u \<longrightarrow> (\<exists>r \<in> set t. lk_label r = l \<and> lk_owner r = i \<and> lk_until r = u)))"

lemma lock_invI:
  assumes "keyed lk_label t" and "lk_owner ` set t \<subseteq> made" and "\<And>l i u. (l, i, u) \<in> held \<Longrightarrow> i \<in> made"
    and "\<And>l i u l' u'. (l, i, u) \<in> held \<Longrightarrow> (l', i, u') \<in> held \<Longrightarrow> l = l' \<and> u = u'"
    and "\<And>l i u. (l, i, u) \<in> held \<Longrightarrow> now \<le> u \<Longrightarrow> \<exists>r \<in> set t. lk_label r = l \<and> lk_owner r = i \<and> lk_until r = u"
  shows "lock_inv (now, t, held, made)"
  unfolding lock_inv_def prod.case by (intro conjI allI impI) (use assms in \<open>simp_all\<close>)

lemma lock_invD:
  assumes "lock_inv (now, t, held, made)"
  shows "keyed lk_label t" and "lk_owner ` set t \<subseteq> made" and "(l, i, u) \<in> held \<Longrightarrow> i \<in> made"
    and "(l, i, u) \<in> held \<Longrightarrow> (l', i, u') \<in> held \<Longrightarrow> l = l' \<and> u = u'"
    and "(l, i, u) \<in> held \<Longrightarrow> now \<le> u \<Longrightarrow> \<exists>r \<in> set t. lk_label r = l \<and> lk_owner r = i \<and> lk_until r = u"
proof -
  note inv = assms [unfolded lock_inv_def prod.case]
  show "keyed lk_label t" by (rule inv [THEN conjunct1])
  show "lk_owner ` set t \<subseteq> made" by (rule inv [THEN conjunct2, THEN conjunct1])
  show "(l, i, u) \<in> held \<Longrightarrow> i \<in> made" by (rule inv [THEN conjunct2, THEN conjunct2, THEN conjunct1, rule_format])
  show "(l, i, u) \<in> held \<Longrightarrow> (l', i, u') \<in> held \<Longrightarrow> l = l' \<and> u = u'"
    by (rule inv [THEN conjunct2, THEN conjunct2, THEN conjunct2, THEN conjunct1, rule_format])
  show "(l, i, u) \<in> held \<Longrightarrow> now \<le> u \<Longrightarrow> \<exists>r \<in> set t. lk_label r = l \<and> lk_owner r = i \<and> lk_until r = u"
    by (rule inv [THEN conjunct2, THEN conjunct2, THEN conjunct2, THEN conjunct2, rule_format])
qed

lemma lock_step_inv:
  assumes "lock_step conf conf'" and "lock_inv conf"
  shows "lock_inv conf'"
  using assms
proof (induction rule: lock_step.induct)
  case (lease_taken now date owner label ttl t t' made held)
  let ?row = "\<lparr>lk_label = label, lk_owner = owner, lk_at = date, lk_until = date + ttl\<rparr>"
  let ?old = "\<lambda>r. lk_label r = label \<and> lk_until r < now"
  have wf: "keyed lk_label t" "lk_owner ` set t \<subseteq> made" using lease_taken.prems by (simp_all add: lock_inv_def)
  have t': "t' = (if label \<notin> lk_label ` set t then t @ [?row] else sql_update ?old (\<lambda>_. ?row) t)"
    using lease_taken.hyps(1) by (auto simp: acquire_sweep_lease_def Let_def split: if_splits)
  have old: "lk_until r < now" if "r \<in> set t" "lk_label r = label" for r
  proof -
    have "list_ex ?old t" using lease_taken.hyps(1) that by (auto simp: acquire_sweep_lease_def Let_def split: if_splits)
    then obtain x where "x \<in> set t" "?old x" by (auto simp: list_ex_iff)
    then show ?thesis using keyed_unique [OF wf(1), of x r] that by simp
  qed
  have key: "keyed lk_label t'"
    using wf(1) keyed_sql_update [of t ?old lk_label "\<lambda>_. ?row"] by (auto simp: t' keyed_def)
  have own: "lk_owner ` set t' \<subseteq> insert owner made"
    using wf(2) by (auto simp: t' set_sql_update)
  have row: "?row \<in> set t'"
  proof (cases "label \<in> lk_label ` set t")
    case True
    then obtain r where "r \<in> set t" "?old r" using old by auto
    then show ?thesis using True by (force simp: t' set_sql_update)
  qed (simp add: t')
  have keep: "r \<in> set t'" if "r \<in> set t" "lk_label r \<noteq> label" for r
    using that by (force simp: t' set_sql_update)
  have dead: "u < now" if mine: "(label, i, u) \<in> held" for i u
  proof (rule ccontr)
    assume "\<not> u < now"
    then obtain r where "r \<in> set t" "lk_label r = label" "lk_until r = u"
      using lock_invD(5) [OF lease_taken.prems mine] by auto
    then show False using old \<open>\<not> u < now\<close> by auto
  qed
  have alive: "\<exists>r \<in> set t'. lk_label r = l \<and> lk_owner r = i \<and> lk_until r = u"
    if h: "(l, i, u) \<in> insert (label, owner, date + ttl) held" and "now \<le> u" for l i u
  proof (cases "(l, i, u) = (label, owner, date + ttl)")
    case True
    then show ?thesis using row by (intro bexI [of _ ?row]) simp_all
  next
    case False
    then have held: "(l, i, u) \<in> held" using h by blast
    then have "l \<noteq> label" using dead \<open>now \<le> u\<close> by force
    moreover obtain r where "r \<in> set t" "lk_label r = l \<and> lk_owner r = i \<and> lk_until r = u"
      using lock_invD(5) [OF lease_taken.prems held \<open>now \<le> u\<close>] by auto
    ultimately show ?thesis using keep by blast
  qed
  have fresh: "i \<noteq> owner" if "(l, i, u) \<in> held" for l i u
    using lock_invD(3) [OF lease_taken.prems that] lease_taken.hyps(2) by auto
  show ?case
  proof (rule lock_invI [OF key own _ _ alive])
    show "i \<in> insert owner made" if "(l, i, u) \<in> insert (label, owner, date + ttl) held" for l i u
      using that lock_invD(3) [OF lease_taken.prems] by auto
    show "l = l' \<and> u = u'" if "(l, i, u) \<in> insert (label, owner, date + ttl) held" "(l', i, u') \<in> insert (label, owner, date + ttl) held"
      for l i u l' u'
      using that fresh lock_invD(4) [OF lease_taken.prems] by auto
  qed
next
  case (lease_refused now date owner label ttl t t' held made)
  then have "t' = t" by (auto simp: acquire_sweep_lease_def Let_def split: if_splits)
  then show ?case using lease_refused.prems by simp
next
  case (lease_given_back label owner until held now t made)
  note inv = lease_given_back.prems
  show ?case
  proof (rule lock_invI)
    show "keyed lk_label (release_sweep_lease label owner t)"
      using lock_invD(1) [OF inv] by (simp add: release_sweep_lease_def keyed_sql_delete)
    show "lk_owner ` set (release_sweep_lease label owner t) \<subseteq> made"
      using lock_invD(2) [OF inv] by (auto simp: release_sweep_lease_def set_sql_delete)
    show "i \<in> made" if "(l, i, u) \<in> held - {(label, owner, until)}" for l i u
      using that lock_invD(3) [OF inv] by auto
    show "l = l' \<and> u = u'" if "(l, i, u) \<in> held - {(label, owner, until)}" "(l', i, u') \<in> held - {(label, owner, until)}" for l i u l' u'
      using that lock_invD(4) [OF inv] by auto
    show "\<exists>r \<in> set (release_sweep_lease label owner t). lk_label r = l \<and> lk_owner r = i \<and> lk_until r = u"
      if h: "(l, i, u) \<in> held - {(label, owner, until)}" "now \<le> u" for l i u
    proof -
      have held: "(l, i, u) \<in> held" and "i \<noteq> owner"
        using h(1) lock_invD(4) [OF inv, of l i u label until] lease_given_back.hyps by auto
      then obtain r where "r \<in> set t" "lk_label r = l \<and> lk_owner r = i \<and> lk_until r = u"
        using lock_invD(5) [OF inv held h(2)] by auto
      then show ?thesis using \<open>i \<noteq> owner\<close> by (intro bexI [of _ r]) (auto simp: release_sweep_lease_def set_sql_delete)
    qed
  qed
next
  case (time_passes now later t held made)
  note inv = time_passes.prems
  show ?case
    by (rule lock_invI) (use lock_invD(1-4) [OF inv] lock_invD(5) [OF inv] time_passes.hyps in \<open>auto\<close>)
qed

text \<open>
  C20: of the runs that believe they hold the lease of a label at most one is within it: whatever runs
  crash, overrun or release late, and however the clocks of the processes differ, two leases of one
  label that the database's clock has not passed are the same lease, and its row is still there.
\<close>
theorem sweep_lease_exclusive:
  assumes "lock_step\<^sup>*\<^sup>* (start, [], {}, {}) (now, t, held, made)"
    and "(label, i, u) \<in> held" and "now \<le> u" and "(label, i', u') \<in> held" and "now \<le> u'"
  shows "i' = i \<and> u' = u \<and> (\<exists>r \<in> set t. lk_label r = label \<and> lk_owner r = i \<and> lk_until r = u)"
proof -
  have "lock_inv (start, [], {}, {})" by (simp add: lock_inv_def keyed_def)
  with assms(1) have inv: "lock_inv (now, t, held, made)"
    by (induction rule: rtranclp_induct) (simp_all add: lock_step_inv)
  obtain r where r: "r \<in> set t" "lk_label r = label" "lk_owner r = i" "lk_until r = u"
    using lock_invD(5) [OF inv assms(2,3)] by auto
  obtain r' where r': "r' \<in> set t" "lk_label r' = label" "lk_owner r' = i'" "lk_until r' = u'"
    using lock_invD(5) [OF inv assms(4,5)] by auto
  have "keyed lk_label t" by (rule lock_invD(1) [OF inv])
  then have "r' = r" using keyed_unique [of lk_label t r' r] r r' by simp
  then show ?thesis using r r' by blast
qed

section \<open>Concrete runs\<close>

theorem sweep_deletes_exactly_witness:
  "run_batched_sweep (table_purge id (\<lambda>r :: nat. r < 5) id (\<lambda>_. None) (\<lambda>_. [3])) (Inr 0) False None None (\<lambda>_. 0) 2 ([1, 3, 2, 9], 0)
      = (([3, 9], 2), Inr \<lparr>sr_deleted = 2, sr_batches = 2, sr_reason = Exhausted\<rparr>)
    \<and> (\<exists>gone. [3, 9 :: nat] = filter (\<lambda>r. \<not> gone r) [1, 3, 2, 9])"
proof
  have "sweep_loop (table_purge id (\<lambda>r :: nat. r < 5) id (\<lambda>_. None) (\<lambda>_. [3])) None None (\<lambda>_. 0) 2 (Suc (Suc n)) ([1, 3, 2, 9], 0)
      \<lparr>sr_deleted = 0, sr_batches = 0, sr_reason = Exhausted\<rparr> = (([3, 9], 2), Inr \<lparr>sr_deleted = 2, sr_batches = 2, sr_reason = Exhausted\<rparr>)" for n
    by (simp add: table_purge_def purge_batch_with_timeout_def locked_batch_def sql_select_def sql_delete_def Let_def numeral_2_eq_2)
  from this [of 998] show run: "run_batched_sweep (table_purge id (\<lambda>r :: nat. r < 5) id (\<lambda>_. None) (\<lambda>_. [3])) (Inr 0) False None None (\<lambda>_. 0) 2 ([1, 3, 2, 9], 0)
      = (([3, 9], 2), Inr \<lparr>sr_deleted = 2, sr_batches = 2, sr_reason = Exhausted\<rparr>)"
    by (simp add: run_batched_sweep_def MAX_BATCHES_def del: sweep_loop.simps)
  have "keyed id [1, 3, 2, 9 :: nat]" "0 < (2 :: nat)" by (simp_all add: keyed_def)
  from sweep_deletes_exactly [OF this run] show "\<exists>gone. [3, 9 :: nat] = filter (\<lambda>r. \<not> gone r) [1, 3, 2, 9]"
    by (elim exE conjE) (rule exI)
qed

theorem sweep_finishes_witness:
  "\<exists>t' j a. run_batched_sweep (table_purge id (\<lambda>r :: nat. r < 5) id (\<lambda>_. None) (\<lambda>_. [])) (Inr 0) False None None (\<lambda>_. 0) 2 ([1, 3, 2, 9], 0)
      = ((t', j), Inr a) \<and> sr_deleted a = 3"
proof -
  have "\<exists>t' j a. run_batched_sweep (table_purge id (\<lambda>r :: nat. r < 5) id (\<lambda>_. None) (\<lambda>_. [])) (Inr 0) False None None (\<lambda>_. 0) 2 ([1, 3, 2, 9], 0)
      = ((t', j), Inr a) \<and> sr_reason a = Exhausted \<and> sr_deleted a = length (filter (\<lambda>r :: nat. r < 5) [1, 3, 2, 9])
      \<and> filter (\<lambda>r. r < 5) t' = []"
    by (rule sweep_finishes) (simp_all add: keyed_def)
  moreover have "length (filter (\<lambda>r :: nat. r < 5) [1, 3, 2, 9]) = 3" by simp
  ultimately show ?thesis by metis
qed

theorem sweep_lease_exclusive_witness:
  "\<exists>r \<in> set [\<lparr>lk_label = ''sweep-outbox'', lk_owner = ''a'', lk_at = 5, lk_until = 105\<rparr>]. lk_owner r = ''a''"
proof -
  have "lock_step (7, [], {}, {}) (7, [\<lparr>lk_label = ''sweep-outbox'', lk_owner = ''a'', lk_at = 5, lk_until = 105\<rparr>],
      insert (''sweep-outbox'', ''a'', 5 + 100) {}, insert ''a'' {})"
    by (rule lock_step.lease_taken) (simp_all add: acquire_sweep_lease_def)
  then have "lock_step\<^sup>*\<^sup>* (7, [], {}, {}) (7, [\<lparr>lk_label = ''sweep-outbox'', lk_owner = ''a'', lk_at = 5, lk_until = 105\<rparr>],
      insert (''sweep-outbox'', ''a'', 5 + 100) {}, insert ''a'' {})"
    by (rule r_into_rtranclp)
  from sweep_lease_exclusive [OF this, of "''sweep-outbox''" "''a''" 105 "''a''" 105] show ?thesis by simp
qed

end
