(* ===== verification/Access_Control.thy ===== *)
theory Access_Control
  imports Prelude
begin

text \<open>
  Who of the staff may do what: \<open>packages/access-control/src/staff.ts\<close> (roles, permissions,
  overrides, the actions two people must agree on) and \<open>apps/api/src/shared/staff-access.ts\<close> (which
  rows of the staff table count, who is the last manager, what a person holds).

  The roles of an organisation, in the same package, are calls of the Better Auth library.
\<close>

section \<open>Roles and permissions\<close>

datatype staff_role = Manager | Support | Auditor

datatype staff_permission =
    UsersRead | UsersModerate | UsersRole | UsersDelete | UsersImpersonate | OrgsRead | OrgsSso | NotesWrite
  | AuditRead | OpsRead | OpsManage | BillingOverride | ApprovalsDecide | StaffManage

definition STAFF_ROLES :: "staff_role list" where
  "STAFF_ROLES = [Manager, Support, Auditor]"

definition STAFF_PERMISSIONS :: "staff_permission list" where
  "STAFF_PERMISSIONS = [UsersRead, UsersModerate, UsersRole, UsersDelete, UsersImpersonate, OrgsRead, OrgsSso, NotesWrite,
     AuditRead, OpsRead, OpsManage, BillingOverride, ApprovalsDecide, StaffManage]"

fun permissions_of_role :: "staff_role \<Rightarrow> staff_permission list" where
  "permissions_of_role Manager = STAFF_PERMISSIONS"
| "permissions_of_role Support = [UsersRead, UsersModerate, UsersImpersonate, OrgsRead, NotesWrite]"
| "permissions_of_role Auditor = [UsersRead, OrgsRead, AuditRead, OpsRead]"

definition roles_with_staff_permission :: "staff_permission \<Rightarrow> staff_role list" where
  "roles_with_staff_permission p = filter (\<lambda>r. p \<in> set (permissions_of_role r)) STAFF_ROLES"

datatype override_effect = Grant | Deny

record staff_override =
  ov_permission :: staff_permission
  ov_effect :: override_effect
  ov_expires :: "instant option"

definition override_live :: "instant \<Rightarrow> 'a staff_override_scheme \<Rightarrow> bool" where
  "override_live now o' \<longleftrightarrow> (case ov_expires o' of None \<Rightarrow> True | Some t \<Rightarrow> now < t)"

definition effective_permissions :: "staff_role \<Rightarrow> staff_override list \<Rightarrow> instant \<Rightarrow> staff_permission list" where
  "effective_permissions role overrides now =
     (let live = filter (override_live now) overrides;
          denied = map ov_permission (filter (\<lambda>o'. ov_effect o' = Deny) live);
          granted = permissions_of_role role @ map ov_permission (filter (\<lambda>o'. ov_effect o' = Grant) live)
      in filter (\<lambda>p. p \<in> set granted \<and> p \<notin> set denied) STAFF_PERMISSIONS)"

record staff_access =
  sa_role :: staff_role
  sa_permissions :: "staff_permission list"
  sa_mfa_ok :: bool

definition staff_reachable :: "staff_access option \<Rightarrow> bool" where
  "staff_reachable a \<longleftrightarrow> (case a of None \<Rightarrow> False | Some x \<Rightarrow> sa_mfa_ok x)"

definition authorize_staff :: "staff_access option \<Rightarrow> staff_permission \<Rightarrow> bool" where
  "authorize_staff a p \<longleftrightarrow> staff_reachable a \<and> (case a of None \<Rightarrow> False | Some x \<Rightarrow> p \<in> set (sa_permissions x))"

section \<open>Actions two people must agree on\<close>

datatype approval_action = BanPermanent | RoleChange | StaffRevoke | PermissionOverride

fun approval_action_permission :: "approval_action \<Rightarrow> staff_permission" where
  "approval_action_permission BanPermanent = UsersModerate"
| "approval_action_permission RoleChange = StaffManage"
| "approval_action_permission StaffRevoke = StaffManage"
| "approval_action_permission PermissionOverride = StaffManage"

section \<open>Rows that count\<close>

datatype staff_source = FromEnv | FromConsole | FromMigration

record staff_record =
  sr_user :: ident
  sr_role :: staff_role
  sr_source :: staff_source
  sr_banned :: bool
  sr_overrides :: "staff_override list"

record staff_manager =
  mg_user :: ident
  mg_source :: staff_source
  mg_denied :: bool

record staff_env =
  PLATFORM_ADMIN_IDS :: "ident list"
  PLATFORM_ADMIN_REQUIRE_MFA :: bool

definition grants_staff_access :: "ident \<Rightarrow> staff_source \<Rightarrow> staff_env \<Rightarrow> bool" where
  "grants_staff_access user source env \<longleftrightarrow> source \<noteq> FromEnv \<or> user \<in> set (PLATFORM_ADMIN_IDS env)"

definition is_last_manager :: "ident \<Rightarrow> staff_manager list \<Rightarrow> staff_env \<Rightarrow> bool" where
  "is_last_manager target managers env \<longleftrightarrow>
     \<not> list_ex (\<lambda>m. mg_user m \<noteq> target \<and> grants_staff_access (mg_user m) (mg_source m) env
                  \<and> (\<not> mg_denied m \<or> mg_user m \<in> set (PLATFORM_ADMIN_IDS env))) managers"

definition permissions_of_record :: "staff_record \<Rightarrow> instant \<Rightarrow> staff_permission list" where
  "permissions_of_record row now = effective_permissions (sr_role row) (sr_overrides row) now"

text \<open>\<open>two_factor\<close> is what the caller knows of the user's second factor, if anything.\<close>

definition staff_access_of ::
  "ident \<Rightarrow> bool option \<Rightarrow> staff_record option \<Rightarrow> staff_env \<Rightarrow> instant \<Rightarrow> staff_access option" where
  "staff_access_of user two_factor row env now =
     (let mfa_ok = (\<not> PLATFORM_ADMIN_REQUIRE_MFA env \<or> two_factor = Some True)
      in if user \<in> set (PLATFORM_ADMIN_IDS env)
         then Some \<lparr>sa_role = Manager, sa_permissions = effective_permissions Manager [] now, sa_mfa_ok = mfa_ok\<rparr>
         else case row of
           None \<Rightarrow> None
         | Some r \<Rightarrow> if grants_staff_access (sr_user r) (sr_source r) env
                    then Some \<lparr>sa_role = sr_role r, sa_permissions = permissions_of_record r now, sa_mfa_ok = mfa_ok\<rparr>
                    else None)"

section \<open>What a role and its overrides give\<close>

named_theorems permission_simps

lemma set_STAFF_PERMISSIONS [permission_simps]: "set STAFF_PERMISSIONS = UNIV"
proof -
  have "p \<in> set STAFF_PERMISSIONS" for p by (cases p) (simp_all add: STAFF_PERMISSIONS_def)
  then show ?thesis by blast
qed

lemma permissions_of_manager [simp]: "p \<in> set (permissions_of_role Manager)"
  by (simp add: permission_simps)

text \<open>A denial wins over the role and over any grant; an expired override does nothing.\<close>

lemma effective_permissions_iff [permission_simps]:
  "p \<in> set (effective_permissions role os now) \<longleftrightarrow>
     (p \<in> set (permissions_of_role role) \<or> (\<exists>o' \<in> set os. override_live now o' \<and> ov_effect o' = Grant \<and> ov_permission o' = p))
   \<and> \<not> (\<exists>o' \<in> set os. override_live now o' \<and> ov_effect o' = Deny \<and> ov_permission o' = p)"
  by (auto simp: effective_permissions_def Let_def set_STAFF_PERMISSIONS image_iff)

lemma roles_with_staff_permission_iff:
  "r \<in> set (roles_with_staff_permission p) \<longleftrightarrow> p \<in> set (permissions_of_role r)"
  by (cases r) (auto simp: roles_with_staff_permission_def STAFF_ROLES_def)

lemma effective_permissions_distinct: "distinct (effective_permissions role os now)"
proof -
  have "distinct STAFF_PERMISSIONS" by (simp add: STAFF_PERMISSIONS_def)
  then show ?thesis unfolding effective_permissions_def Let_def by (rule distinct_filter)
qed

end
