(* ===== verification/Staff_Store.thy ===== *)
theory Staff_Store
  imports Access_Control
begin

text \<open>
  The tables the administration of staff works on, \<open>packages/drizzle/src/schema/staff.ts\<close> and the
  columns it reads of \<open>user\<close> and \<open>session\<close> in \<open>schema/auth.ts\<close>, and the statements of
  \<open>drizzle-staff.store.ts\<close> and \<open>drizzle-admin-user.store.ts\<close> that read or write them.

  \<open>err\<close> is what the driver raises in a method, if anything; a method that fails writes nothing (its
  transaction is rolled back by the service). \<open>date\<close> is the clock of the process. The text columns
  hold values of their declared enums, which are the only ones the code writes.
\<close>

section \<open>Tables\<close>

record staff_member =
  sm_user :: ident
  sm_role :: staff_role
  sm_source :: staff_source
  sm_created_by :: "ident option"
  sm_created :: instant
  sm_revoked :: "instant option"

record override_row = staff_override +
  so_id :: ident
  so_user :: ident
  so_created_by :: ident
  so_created :: instant
  so_revoked :: "instant option"

datatype mirror = MirrorStaff | MirrorPlain

record user_row =
  us_id :: ident
  us_role :: mirror
  us_banned :: bool
  us_ban_reason :: "string option"
  us_ban_expires :: "instant option"
  us_deleted :: "instant option"
  us_pending_deletion :: "instant option"

record session_row =
  se_id :: ident
  se_user :: ident
  se_impersonated_by :: "ident option"
  se_created :: instant
  se_expires :: instant

record staff_db =
  st_members :: "staff_member list"
  st_overrides :: "override_row list"
  st_users :: "user_row list"
  st_sessions :: "session_row list"

text \<open>Keys, and the references of the tables.\<close>

definition staff_tables_ok :: "staff_db \<Rightarrow> bool" where
  "staff_tables_ok db \<longleftrightarrow>
     keyed sm_user (st_members db) \<and> keyed so_id (st_overrides db) \<and> keyed us_id (st_users db) \<and> keyed se_id (st_sessions db)
   \<and> so_user ` set (st_overrides db) \<subseteq> sm_user ` set (st_members db) \<and> sm_user ` set (st_members db) \<subseteq> us_id ` set (st_users db)"

section \<open>Reading the staff\<close>

definition override_of :: "override_row \<Rightarrow> staff_override" where
  "override_of r = staff_override.truncate r"

definition ban_is_live :: "bool \<Rightarrow> instant option \<Rightarrow> instant \<Rightarrow> bool" where
  "ban_is_live banned expires now \<longleftrightarrow> banned \<and> (case expires of None \<Rightarrow> True | Some t \<Rightarrow> now < t)"

definition still_counts_as_manager :: "user_row \<Rightarrow> instant \<Rightarrow> bool" where
  "still_counts_as_manager u now \<longleftrightarrow>
     us_deleted u = None \<and> us_pending_deletion u = None \<and> \<not> ban_is_live (us_banned u) (us_ban_expires u) now"

definition find_active :: "instant \<Rightarrow> ident \<Rightarrow> staff_db \<Rightarrow> staff_record option" where
  "find_active date user db =
     (case row_of sm_user user (filter (\<lambda>m. sm_revoked m = None) (st_members db)) of
        None \<Rightarrow> None
      | Some m \<Rightarrow>
          (case row_of us_id user (st_users db) of
             None \<Rightarrow> None
           | Some u \<Rightarrow>
               Some \<lparr>sr_user = user, sr_role = sm_role m, sr_source = sm_source m,
                 sr_banned = ban_is_live (us_banned u) (us_ban_expires u) date,
                 sr_overrides = map override_of (filter (\<lambda>r. so_user r = user \<and> so_revoked r = None) (st_overrides db))\<rparr>))"

definition list_active :: "staff_db \<Rightarrow> staff_member list" where
  "list_active db = sort_key sm_created
     (filter (\<lambda>m. sm_revoked m = None \<and> sm_user m \<in> us_id ` set (st_users db)) (st_members db))"

definition manage_denied :: "instant \<Rightarrow> ident \<Rightarrow> staff_db \<Rightarrow> bool" where
  "manage_denied date user db \<longleftrightarrow>
     list_ex (\<lambda>r. so_user r = user \<and> ov_permission r = StaffManage \<and> ov_effect r = Deny \<and> so_revoked r = None
                \<and> override_live date r) (st_overrides db)"

definition active_managers :: "instant \<Rightarrow> staff_db \<Rightarrow> staff_manager list" where
  "active_managers date db =
     (let locked = sort_key sm_user (filter (\<lambda>m. sm_role m = Manager \<and> sm_revoked m = None) (st_members db));
          counted = map us_id (filter (\<lambda>u. still_counts_as_manager u date) (st_users db))
      in map (\<lambda>m. \<lparr>mg_user = sm_user m, mg_source = sm_source m, mg_denied = manage_denied date (sm_user m) db\<rparr>)
           (filter (\<lambda>m. sm_user m \<in> set counted) locked))"

definition list_live_overrides :: "instant \<Rightarrow> ident \<Rightarrow> staff_db \<Rightarrow> override_row list" where
  "list_live_overrides date user db =
     sort_key so_created (filter (\<lambda>r. so_user r = user \<and> so_revoked r = None \<and> override_live date r) (st_overrides db))"

section \<open>Sessions that end\<close>

record ended_session =
  es_session :: ident
  es_user :: ident

record ended_impersonation = ended_session +
  ei_by :: ident
  ei_created :: instant
  ei_expires :: instant

definition ended_impersonations_of :: "session_row list \<Rightarrow> ended_impersonation list" where
  "ended_impersonations_of rows =
     concat (map (\<lambda>s. case se_impersonated_by s of
       None \<Rightarrow> []
     | Some by \<Rightarrow> [\<lparr>es_session = se_id s, es_user = se_user s, ei_by = by, ei_created = se_created s, ei_expires = se_expires s\<rparr>]) rows)"

definition ended_sessions_of :: "session_row list \<Rightarrow> ended_session list" where
  "ended_sessions_of rows = map (\<lambda>s. \<lparr>es_session = se_id s, es_user = se_user s\<rparr>) rows"

definition delete_sessions_where :: "(session_row \<Rightarrow> bool) \<Rightarrow> staff_db \<Rightarrow> staff_db \<times> session_row list" where
  "delete_sessions_where p db = (db\<lparr>st_sessions := sql_delete p (st_sessions db)\<rparr>, filter p (st_sessions db))"

section \<open>Writing the staff\<close>

definition set_mirror :: "mirror \<Rightarrow> ident \<Rightarrow> staff_db \<Rightarrow> staff_db" where
  "set_mirror v user db = db\<lparr>st_users := sql_update (\<lambda>u. us_id u = user) (\<lambda>u. u\<lparr>us_role := v\<rparr>) (st_users db)\<rparr>"

definition bootstrap_from_env :: "string option \<Rightarrow> instant \<Rightarrow> ident \<Rightarrow> staff_db \<Rightarrow> staff_db \<times> (bool, string) result" where
  "bootstrap_from_env err date user db =
     (if err \<noteq> None then (db, fail ''staff bootstrap failed'')
      else if user \<notin> sm_user ` set (st_members db)
      then (set_mirror MirrorStaff user (db\<lparr>st_members := st_members db @
              [\<lparr>sm_user = user, sm_role = Manager, sm_source = FromEnv, sm_created_by = None, sm_created = date, sm_revoked = None\<rparr>]\<rparr>),
            ok True)
      else if list_ex (\<lambda>m. sm_user m = user \<and> sm_revoked m \<noteq> None) (st_members db)
      then (set_mirror MirrorStaff user (db\<lparr>st_members :=
              sql_update (\<lambda>m. sm_user m = user \<and> sm_revoked m \<noteq> None)
                (\<lambda>m. m\<lparr>sm_role := Manager, sm_source := FromEnv, sm_revoked := None\<rparr>) (st_members db)\<rparr>), ok True)
      else (db, ok False))"

definition staff_assign ::
  "string option \<Rightarrow> instant \<Rightarrow> ident \<Rightarrow> staff_role \<Rightarrow> ident \<Rightarrow> staff_db \<Rightarrow> staff_db \<times> (unit, string) result" where
  "staff_assign err date user role created_by db =
     (if err \<noteq> None then (db, fail ''staff assignment failed'')
      else let members =
             (if user \<in> sm_user ` set (st_members db)
              then sql_update (\<lambda>m. sm_user m = user)
                (\<lambda>m. m\<lparr>sm_role := role, sm_source := FromConsole, sm_created_by := Some created_by, sm_revoked := None\<rparr>) (st_members db)
              else st_members db @ [\<lparr>sm_user = user, sm_role = role, sm_source = FromConsole, sm_created_by = Some created_by,
                                     sm_created = date, sm_revoked = None\<rparr>])
           in (set_mirror MirrorStaff user (db\<lparr>st_members := members\<rparr>), ok ()))"

definition end_impersonations_by ::
  "string option \<Rightarrow> ident \<Rightarrow> staff_db \<Rightarrow> staff_db \<times> (ended_impersonation list, string) result" where
  "end_impersonations_by err user db =
     (if err \<noteq> None then (db, fail ''impersonation end failed'')
      else case delete_sessions_where (\<lambda>s. se_impersonated_by s = Some user) db of
        (db', rows) \<Rightarrow> (db', ok (ended_impersonations_of rows)))"

definition staff_revoke ::
  "string option \<Rightarrow> instant \<Rightarrow> ident \<Rightarrow> staff_db \<Rightarrow> staff_db \<times> (ended_impersonation list, string) result" where
  "staff_revoke err date user db =
     (if err \<noteq> None then (db, fail ''staff revocation failed'')
      else let db1 = db\<lparr>st_members := sql_update (\<lambda>m. sm_user m = user) (\<lambda>m. m\<lparr>sm_revoked := Some date\<rparr>) (st_members db),
                        st_overrides := sql_update (\<lambda>r. so_user r = user \<and> so_revoked r = None)
                          (\<lambda>r. r\<lparr>so_revoked := Some date\<rparr>) (st_overrides db)\<rparr>
           in case delete_sessions_where (\<lambda>s. se_impersonated_by s = Some user) (set_mirror MirrorPlain user db1) of
                (db2, rows) \<Rightarrow> (db2, ok (ended_impersonations_of rows)))"

definition expired_impersonation :: "instant \<Rightarrow> session_row \<Rightarrow> bool" where
  "expired_impersonation date s \<longleftrightarrow> se_impersonated_by s \<noteq> None \<and> se_expires s \<le> date"

definition end_expired_impersonations ::
  "string option \<Rightarrow> instant \<Rightarrow> ident list \<Rightarrow> nat \<Rightarrow> staff_db \<Rightarrow> staff_db \<times> (ended_impersonation list, string) result" where
  "end_expired_impersonations err date locked limit db =
     (if err \<noteq> None then (db, fail ''impersonation expiry failed'')
      else let picked = map se_id (sql_select (\<lambda>s. expired_impersonation date s \<and> se_id s \<notin> set locked) se_expires limit (st_sessions db))
           in case delete_sessions_where (\<lambda>s. se_id s \<in> set picked) db of
                (db', rows) \<Rightarrow> (db', ok (ended_impersonations_of rows)))"

definition end_session_row ::
  "string option \<Rightarrow> ident \<Rightarrow> staff_db \<Rightarrow> staff_db \<times> (ended_session list \<times> ended_impersonation list, string) result" where
  "end_session_row err i db =
     (if err \<noteq> None then (db, fail ''session end failed'')
      else case delete_sessions_where (\<lambda>s. se_id s = i) db of
        (db', rows) \<Rightarrow> (db', ok (ended_sessions_of rows, ended_impersonations_of rows)))"

definition replace_override ::
  "string option \<Rightarrow> instant \<Rightarrow> ident \<Rightarrow> ident \<Rightarrow> staff_permission \<Rightarrow> override_effect \<Rightarrow> instant option \<Rightarrow> ident \<Rightarrow>
   staff_db \<Rightarrow> staff_db \<times> (ident, string) result" where
  "replace_override err date fresh user p effect expires created_by db =
     (if err \<noteq> None then (db, fail ''staff override write failed'')
      else (db\<lparr>st_overrides :=
              sql_update (\<lambda>r. so_user r = user \<and> ov_permission r = p \<and> so_revoked r = None)
                (\<lambda>r. r\<lparr>so_revoked := Some date\<rparr>) (st_overrides db)
              @ [\<lparr>ov_permission = p, ov_effect = effect, ov_expires = expires, so_id = fresh, so_user = user,
                  so_created_by = created_by, so_created = date, so_revoked = None\<rparr>]\<rparr>, ok fresh))"

definition revoke_override ::
  "string option \<Rightarrow> instant \<Rightarrow> ident \<Rightarrow> ident \<Rightarrow> staff_db \<Rightarrow> staff_db \<times> (staff_override option, string) result" where
  "revoke_override err date user i db =
     (if err \<noteq> None then (db, fail ''staff override revocation failed'')
      else let hit = (\<lambda>r. so_id r = i \<and> so_user r = user \<and> so_revoked r = None)
           in (db\<lparr>st_overrides := sql_update hit (\<lambda>r. r\<lparr>so_revoked := Some date\<rparr>) (st_overrides db)\<rparr>,
               ok (map_option override_of (List.find hit (st_overrides db)))))"

section \<open>Moderating users\<close>

definition held_or_impersonated_by :: "ident \<Rightarrow> session_row \<Rightarrow> bool" where
  "held_or_impersonated_by user s \<longleftrightarrow> se_user s = user \<or> se_impersonated_by s = Some user"

definition user_known :: "ident \<Rightarrow> staff_db \<Rightarrow> bool" where
  "user_known user db \<longleftrightarrow> user \<in> us_id ` set (st_users db)"

text \<open>The ban \<open>findUserById\<close> reports: one without an end, or whose end is to come.\<close>

definition user_banned_for_good :: "instant \<Rightarrow> ident \<Rightarrow> staff_db \<Rightarrow> bool" where
  "user_banned_for_good date user db \<longleftrightarrow> (case row_of us_id user (st_users db) of
     None \<Rightarrow> False
   | Some u \<Rightarrow> ban_is_live (us_banned u) (us_ban_expires u) date \<and> us_ban_expires u = None)"

definition user_ban ::
  "string option \<Rightarrow> ident \<Rightarrow> string \<Rightarrow> instant option \<Rightarrow> staff_db \<Rightarrow>
   staff_db \<times> ((ended_session list \<times> ended_impersonation list) option, string) result" where
  "user_ban err user reason expires db =
     (if err \<noteq> None then (db, fail ''admin ban failed'')
      else if \<not> user_known user db then (db, ok None)
      else case delete_sessions_where (held_or_impersonated_by user)
             (db\<lparr>st_users := sql_update (\<lambda>u. us_id u = user)
                (\<lambda>u. u\<lparr>us_banned := True, us_ban_reason := Some reason, us_ban_expires := expires\<rparr>) (st_users db)\<rparr>) of
        (db', rows) \<Rightarrow> (db', ok (Some (ended_sessions_of rows, ended_impersonations_of rows))))"

datatype unban_outcome = Unbanned | NotBanned | UserUnknown

definition user_unban :: "string option \<Rightarrow> ident \<Rightarrow> staff_db \<Rightarrow> staff_db \<times> (unban_outcome, string) result" where
  "user_unban err user db =
     (if err \<noteq> None then (db, fail ''admin unban failed'')
      else if list_ex (\<lambda>u. us_id u = user \<and> us_banned u) (st_users db)
      then (db\<lparr>st_users := sql_update (\<lambda>u. us_id u = user \<and> us_banned u)
              (\<lambda>u. u\<lparr>us_banned := False, us_ban_reason := None, us_ban_expires := None\<rparr>) (st_users db)\<rparr>, ok Unbanned)
      else (db, ok (if user_known user db then NotBanned else UserUnknown)))"

definition user_delete_sessions ::
  "string option \<Rightarrow> ident \<Rightarrow> staff_db \<Rightarrow> staff_db \<times> (ended_session list \<times> ended_impersonation list, string) result" where
  "user_delete_sessions err user db =
     (if err \<noteq> None then (db, fail ''admin session deletion failed'')
      else case delete_sessions_where (held_or_impersonated_by user) db of
        (db', rows) \<Rightarrow> (db', ok (ended_sessions_of rows, ended_impersonations_of rows)))"

end
