(* ===== verification/Staff_Service.thy ===== *)
theory Staff_Service
  imports Staff_Store Event_Emit
begin

text \<open>
  \<open>apps/api/src/modules/admin/application/services/staff.service.ts\<close> and
  \<open>admin-moderation.service.ts\<close>: changing who is staff and what they may do, and moderating users;
  with the announcements of \<open>shared/services/impersonation-end.ts\<close> and \<open>session-end.ts\<close>.

  A transaction is a function of the world it runs in. It throws, is refused with an error of the
  service, or gives a value and the next world; \<open>uow.run\<close> keeps the next world of an outermost run
  only if it gives a value and commits. A run inside another is the body alone: what it is refused
  with, its caller hands on, and the outermost run rolls back.
\<close>

section \<open>Transactions\<close>

datatype 'e exit = Threw string | Refused 'e

type_synonym ('w, 'e, 'a) tx = "'w \<Rightarrow> 'e exit + 'a \<times> 'w"

definition give :: "'a \<Rightarrow> ('w, 'e, 'a) tx" where
  "give x w = Inr (x, w)"

definition refuse :: "'e \<Rightarrow> ('w, 'e, 'a) tx" where
  "refuse e w = Inl (Refused e)"

definition after :: "('w, 'e, 'a) tx \<Rightarrow> ('a \<Rightarrow> ('w, 'e, 'b) tx) \<Rightarrow> ('w, 'e, 'b) tx" where
  "after body rest w = (case body w of Inl e \<Rightarrow> Inl e | Inr (x, w') \<Rightarrow> rest x w')"

definition check :: "('t, 'e) result \<Rightarrow> ('w, 'e, 't) tx" where
  "check r w = (case r of Inl e \<Rightarrow> Inl (Refused e) | Inr x \<Rightarrow> Inr (x, w))"

fun each :: "('a \<Rightarrow> ('w, 'e, unit) tx) \<Rightarrow> 'a list \<Rightarrow> ('w, 'e, unit) tx" where
  "each f [] = give ()"
| "each f (x # xs) = after (f x) (\<lambda>_. each f xs)"

definition run_tx :: "string option \<Rightarrow> ('w, 'e, 'a) tx \<Rightarrow> 'w \<Rightarrow> 'w \<times> ('a, 'e) result throws" where
  "run_tx commit_error body w =
     (case body w of
        Inl (Threw e) \<Rightarrow> (w, Inl e)
      | Inl (Refused e) \<Rightarrow> (w, Inr (fail e))
      | Inr (x, w') \<Rightarrow> (case commit_error of Some e \<Rightarrow> (w, Inl e) | None \<Rightarrow> (w', Inr (ok x))))"

section \<open>The world and the errors\<close>

record staff_world =
  aw_staff :: staff_db
  aw_outbox :: outbox_db

datatype staff_error =
    StaffStoreFailed string | UserStoreFailed string
  | SelfChange | ListedAccess | LastManager | StaffNotFound | OverrideNotFound | OverrideExpired
  | GrantNotHeld | RoleChanged | UserNotFound | StaffTarget | SelfBan | SelfImpersonation

text \<open>
  What a call reads from outside: the settings, the schemas of the events, the driver's errors by
  method, the reads of an emission by the size the outbox has then, the clock, a fresh id.
\<close>

record call_env =
  x_staff_env :: staff_env
  x_schema :: payload_schema
  x_error :: "string \<Rightarrow> string option"
  x_emit :: "nat \<Rightarrow> emit_env"
  x_date :: instant
  x_fresh :: ident
  x_iso :: "instant \<Rightarrow> string"
  x_commit_error :: "string option"

definition store_call ::
  "(string \<Rightarrow> 'e) \<Rightarrow> (staff_db \<Rightarrow> staff_db \<times> ('a, string) result) \<Rightarrow> ('w staff_world_scheme, 'e, 'a) tx" where
  "store_call err op w = (case op (aw_staff w) of
     (db, Inl e) \<Rightarrow> Inl (Refused (err e)) | (db, Inr x) \<Rightarrow> Inr (x, w\<lparr>aw_staff := db\<rparr>))"

definition store_read :: "(string \<Rightarrow> 'e) \<Rightarrow> string option \<Rightarrow> string \<Rightarrow> (staff_db \<Rightarrow> 'a) \<Rightarrow> ('w staff_world_scheme, 'e, 'a) tx" where
  "store_read err db_error msg f w = (case db_error of Some _ \<Rightarrow> Inl (Refused (err msg)) | None \<Rightarrow> Inr (f (aw_staff w), w))"

definition emit :: "call_env \<Rightarrow> string \<Rightarrow> string \<Rightarrow> ident \<Rightarrow> json \<Rightarrow> ('w staff_world_scheme, 'e, unit) tx" where
  "emit x event kind agg body w =
     (case emit_event (x_schema x) (x_emit x (length (outbox_rows (aw_outbox w)))) event kind agg body no_options (aw_outbox w) of
        Inl e \<Rightarrow> Inl (Threw e)
      | Inr (ob, _) \<Rightarrow> Inr ((), w\<lparr>aw_outbox := ob\<rparr>))"

text \<open>The names the payloads carry.\<close>

definition role_json :: "staff_role \<Rightarrow> json" where
  "role_json r = JStr (case r of Manager \<Rightarrow> ''manager'' | Support \<Rightarrow> ''support'' | Auditor \<Rightarrow> ''auditor'')"

definition effect_json :: "override_effect \<Rightarrow> json" where
  "effect_json e = JStr (case e of Grant \<Rightarrow> ''grant'' | Deny \<Rightarrow> ''deny'')"

definition permission_json :: "staff_permission \<Rightarrow> json" where
  "permission_json p = JStr (case p of
     UsersRead \<Rightarrow> ''users.read'' | UsersModerate \<Rightarrow> ''users.moderate'' | UsersRole \<Rightarrow> ''users.role''
   | UsersDelete \<Rightarrow> ''users.delete'' | UsersImpersonate \<Rightarrow> ''users.impersonate'' | OrgsRead \<Rightarrow> ''orgs.read''
   | OrgsSso \<Rightarrow> ''orgs.sso'' | NotesWrite \<Rightarrow> ''notes.write'' | AuditRead \<Rightarrow> ''audit.read'' | OpsRead \<Rightarrow> ''ops.read''
   | OpsManage \<Rightarrow> ''ops.manage'' | BillingOverride \<Rightarrow> ''billing.override'' | ApprovalsDecide \<Rightarrow> ''approvals.decide''
   | StaffManage \<Rightarrow> ''staff.manage'')"

section \<open>Announcing what ended\<close>

definition JOpt :: "string option \<Rightarrow> json" where
  "JOpt s = (case s of None \<Rightarrow> JNull | Some t \<Rightarrow> JStr t)"

definition stopped_payload :: "string \<Rightarrow> instant \<Rightarrow> ended_impersonation \<Rightarrow> json" where
  "stopped_payload reason now s =
     (let expired = (ei_expires s \<le> now);
          ended_at = (if expired then ei_expires s else now)
      in JObj [(''actorUserId'', JStr (ei_by s)), (''userId'', JStr (es_user s)),
               (''durationMs'', JNum (max 0 (ended_at - ei_created s))),
               (''endReason'', JStr (if expired then ''expired'' else reason))])"

definition announce_impersonations_ended ::
  "call_env \<Rightarrow> string \<Rightarrow> ended_impersonation list \<Rightarrow> ('w staff_world_scheme, 'e, unit) tx" where
  "announce_impersonations_ended x reason =
     each (\<lambda>s. emit x ''admin.impersonation.stopped'' ''user'' (es_user s) (stopped_payload reason (x_date x) s))"

definition announce_sessions_ended ::
  "call_env \<Rightarrow> ident option \<Rightarrow> 'a ended_session_scheme list \<Rightarrow> ('w staff_world_scheme, 'e, unit) tx" where
  "announce_sessions_ended x actor =
     each (\<lambda>s. emit x ''user.signed_out'' ''session'' (es_session s)
       (JObj [(''userId'', JStr (es_user s)), (''sessionId'', JStr (es_session s)), (''actorUserId'', JOpt actor)]))"

definition announce_revoked ::
  "call_env \<Rightarrow> ident \<Rightarrow> ended_impersonation list \<Rightarrow> ('w staff_world_scheme, 'e, unit) tx" where
  "announce_revoked x actor ended =
     after (announce_impersonations_ended x ''revoked'' ended) (\<lambda>_. announce_sessions_ended x (Some actor) ended)"

section \<open>Refusals\<close>

definition is_listed :: "call_env \<Rightarrow> ident \<Rightarrow> bool" where
  "is_listed x user \<longleftrightarrow> user \<in> set (PLATFORM_ADMIN_IDS (x_staff_env x))"

definition granting :: "staff_env \<Rightarrow> staff_record option \<Rightarrow> staff_record option" where
  "granting env row = (case row of
     None \<Rightarrow> None | Some r \<Rightarrow> if grants_staff_access (sr_user r) (sr_source r) env then Some r else None)"

definition granting_row :: "call_env \<Rightarrow> string \<Rightarrow> ident \<Rightarrow> ('w staff_world_scheme, staff_error, staff_record option) tx" where
  "granting_row x method user =
     store_read StaffStoreFailed (x_error x method) ''staff lookup failed''
       (\<lambda>db. granting (x_staff_env x) (find_active (x_date x) user db))"

definition lock_active_managers :: "call_env \<Rightarrow> ('w staff_world_scheme, staff_error, staff_manager list) tx" where
  "lock_active_managers x =
     store_read StaffStoreFailed (x_error x ''lockActiveManagers'') ''staff manager lock failed'' (active_managers (x_date x))"

definition refused_change :: "call_env \<Rightarrow> ident \<Rightarrow> ident \<Rightarrow> (unit, staff_error) result" where
  "refused_change x actor target =
     (if actor = target then fail SelfChange else if is_listed x target then fail ListedAccess else ok ())"

definition refused_role_grant :: "call_env \<Rightarrow> ident \<Rightarrow> staff_permission list \<Rightarrow> ident \<Rightarrow> staff_role \<Rightarrow> (unit, staff_error) result" where
  "refused_role_grant x actor perms target role =
     (case refused_change x actor target of
        Inl e \<Rightarrow> fail e
      | Inr _ \<Rightarrow> if list_ex (\<lambda>p. p \<notin> set perms) (permissions_of_role role) then fail GrantNotHeld else ok ())"

definition refused_override_grant ::
  "staff_permission list \<Rightarrow> staff_permission \<Rightarrow> override_effect \<Rightarrow> bool \<Rightarrow> (unit, staff_error) result" where
  "refused_override_grant perms p effect lifts =
     (let gives = (if lifts then effect = Deny else effect = Grant)
      in if gives \<and> p \<notin> set perms then fail GrantNotHeld else ok ())"

definition refused_on :: "call_env \<Rightarrow> staff_permission list \<Rightarrow> ident \<Rightarrow> staff_record option \<Rightarrow> (unit, staff_error) result" where
  "refused_on x perms target row =
     (let target_is_staff = (is_listed x target \<or> row \<noteq> None)
      in if target_is_staff \<and> StaffManage \<notin> set perms then fail StaffTarget else ok ())"

definition refuse_target :: "call_env \<Rightarrow> staff_permission list \<Rightarrow> ident \<Rightarrow> ('w staff_world_scheme, staff_error, unit) tx" where
  "refuse_target x perms target = after (granting_row x ''findActive'' target) (\<lambda>row. check (refused_on x perms target row))"

definition ban_refusal :: "call_env \<Rightarrow> staff_permission list \<Rightarrow> ident \<Rightarrow> ('w staff_world_scheme, staff_error, unit) tx" where
  "ban_refusal x perms target =
     after (lock_active_managers x) (\<lambda>managers.
     after (granting_row x ''findActive'' target) (\<lambda>row.
     after (check (refused_on x perms target row)) (\<lambda>_.
       let is_manager = (is_listed x target \<or> (case row of None \<Rightarrow> False | Some r \<Rightarrow> sr_role r = Manager))
       in if is_manager \<and> is_last_manager target managers (x_staff_env x) then refuse LastManager else give ())))"

definition revocable_role :: "call_env \<Rightarrow> ident \<Rightarrow> ('w staff_world_scheme, staff_error, staff_role) tx" where
  "revocable_role x target =
     after (lock_active_managers x) (\<lambda>managers.
     after (granting_row x ''findActive'' target) (\<lambda>row.
       case row of
         None \<Rightarrow> refuse StaffNotFound
       | Some r \<Rightarrow>
           if sr_role r = Manager \<and> is_last_manager target managers (x_staff_env x) then refuse LastManager
           else give (sr_role r)))"

definition refuse_role_change ::
  "call_env \<Rightarrow> ident \<Rightarrow> staff_permission list \<Rightarrow> ident \<Rightarrow> staff_role \<Rightarrow> ('w staff_world_scheme, staff_error, staff_role option) tx" where
  "refuse_role_change x actor perms target role =
     after (check (refused_role_grant x actor perms target role)) (\<lambda>_.
     after (lock_active_managers x) (\<lambda>managers.
     after (granting_row x ''findActive'' target) (\<lambda>row.
       if map_option sr_role row = Some Manager \<and> role \<noteq> Manager \<and> is_last_manager target managers (x_staff_env x)
       then refuse LastManager else give (map_option sr_role row))))"

definition refuse_revoke :: "call_env \<Rightarrow> ident \<Rightarrow> ident \<Rightarrow> ('w staff_world_scheme, staff_error, unit) tx" where
  "refuse_revoke x actor target =
     after (check (refused_change x actor target)) (\<lambda>_. after (revocable_role x target) (\<lambda>_. give ()))"

definition override_refusal ::
  "call_env \<Rightarrow> ident \<Rightarrow> staff_permission list \<Rightarrow> ident \<Rightarrow> staff_permission \<Rightarrow> override_effect \<Rightarrow> instant option \<Rightarrow>
   ('w staff_world_scheme, staff_error, unit) tx" where
  "override_refusal x actor perms target p effect expires =
     after (check (refused_change x actor target)) (\<lambda>_.
       if effect = Grant \<and> p \<notin> set perms then refuse GrantNotHeld
       else if (case expires of None \<Rightarrow> False | Some t \<Rightarrow> t \<le> x_date x) then refuse OverrideExpired
       else after (lock_active_managers x) (\<lambda>managers.
            after (granting_row x ''findActive'' target) (\<lambda>row.
              case row of
                None \<Rightarrow> refuse StaffNotFound
              | Some r \<Rightarrow>
                  let loses_management = (effect = Deny \<and> p = StaffManage \<and> sr_role r = Manager
                                          \<and> StaffManage \<in> set (permissions_of_record r (x_date x)))
                  in if loses_management \<and> is_last_manager target managers (x_staff_env x)
                     then refuse LastManager else give ())))"

definition list_staff :: "call_env \<Rightarrow> ('w staff_world_scheme, staff_error, staff_member list) tx" where
  "list_staff x =
     after (store_read StaffStoreFailed (x_error x ''listActive'') ''staff list failed'' list_active) (\<lambda>rows.
       give (filter (\<lambda>m. grants_staff_access (sm_user m) (sm_source m) (x_staff_env x)) rows))"

definition list_overrides :: "call_env \<Rightarrow> ident \<Rightarrow> ('w staff_world_scheme, staff_error, override_row list) tx" where
  "list_overrides x target =
     after (granting_row x ''findActive'' target) (\<lambda>row.
       if row = None then refuse StaffNotFound
       else store_read StaffStoreFailed (x_error x ''listLiveOverrides'') ''staff override list failed''
              (list_live_overrides (x_date x) target))"

definition refuse_override_removal ::
  "call_env \<Rightarrow> ident \<Rightarrow> staff_permission list \<Rightarrow> ident \<Rightarrow> ident \<Rightarrow> ('w staff_world_scheme, staff_error, override_row) tx" where
  "refuse_override_removal x actor perms target i =
     after (check (refused_change x actor target)) (\<lambda>_.
     after (list_overrides x target) (\<lambda>live.
       case List.find (\<lambda>r. so_id r = i) live of
         None \<Rightarrow> refuse OverrideNotFound
       | Some r \<Rightarrow> after (check (refused_override_grant perms (ov_permission r) (ov_effect r) True)) (\<lambda>_. give r)))"

section \<open>Changing the staff\<close>

text \<open>\<open>expected\<close> is the role a request was made on: missing, or the role then, if any.\<close>

definition staff_add :: "call_env \<Rightarrow> ident \<Rightarrow> ident \<Rightarrow> staff_role \<Rightarrow> ('w staff_world_scheme, staff_error, unit) tx" where
  "staff_add x actor target role =
     after (store_read UserStoreFailed (x_error x ''findUserById'') ''admin user lookup failed'' (user_known target)) (\<lambda>known.
       if \<not> known then refuse UserNotFound
       else after (store_call StaffStoreFailed (staff_assign (x_error x ''assign'') (x_date x) target role actor)) (\<lambda>_.
         emit x ''admin.staff.added'' ''user'' target
           (JObj [(''actorUserId'', JStr actor), (''userId'', JStr target), (''role'', role_json role), (''source'', JStr ''console'')])))"

definition end_impersonations ::
  "call_env \<Rightarrow> ident \<Rightarrow> ident \<Rightarrow> ('w staff_world_scheme, staff_error, unit) tx" where
  "end_impersonations x actor target =
     after (store_call StaffStoreFailed (end_impersonations_by (x_error x ''endImpersonationsBy'') target)) (\<lambda>ended.
       announce_revoked x actor ended)"

definition assign_role ::
  "call_env \<Rightarrow> ident \<Rightarrow> staff_permission list \<Rightarrow> ident \<Rightarrow> staff_role \<Rightarrow> staff_role option option \<Rightarrow>
   ('w staff_world_scheme, staff_error, unit) tx" where
  "assign_role x actor perms target role expected =
     after (check (refused_role_grant x actor perms target role)) (\<lambda>_.
     after (lock_active_managers x) (\<lambda>managers.
     after (granting_row x ''findActive'' target) (\<lambda>row.
       if (case expected of None \<Rightarrow> False | Some r \<Rightarrow> r \<noteq> map_option sr_role row) then refuse RoleChanged
       else case row of
         None \<Rightarrow> staff_add x actor target role
       | Some r \<Rightarrow>
           if sr_role r = role then give ()
           else if sr_role r = Manager \<and> is_last_manager target managers (x_staff_env x) then refuse LastManager
           else after (store_call StaffStoreFailed (staff_assign (x_error x ''assign'') (x_date x) target role actor)) (\<lambda>_.
                after (if UsersImpersonate \<in> set (permissions_of_record (r\<lparr>sr_role := role\<rparr>) (x_date x)) then give ()
                       else end_impersonations x actor target) (\<lambda>_.
                emit x ''admin.staff.role_changed'' ''user'' target
                  (JObj [(''actorUserId'', JStr actor), (''userId'', JStr target), (''from'', role_json (sr_role r)),
                         (''to'', role_json role)]))))))"

definition revoke_staff :: "call_env \<Rightarrow> ident \<Rightarrow> ident \<Rightarrow> ('w staff_world_scheme, staff_error, unit) tx" where
  "revoke_staff x actor target =
     after (check (refused_change x actor target)) (\<lambda>_.
     after (revocable_role x target) (\<lambda>role.
     after (store_call StaffStoreFailed (staff_revoke (x_error x ''revoke'') (x_date x) target)) (\<lambda>ended.
     after (announce_revoked x actor ended) (\<lambda>_.
     emit x ''admin.staff.revoked'' ''user'' target
       (JObj [(''actorUserId'', JStr actor), (''userId'', JStr target), (''role'', role_json role)])))))"

definition end_impersonations_if_lost ::
  "call_env \<Rightarrow> ident \<Rightarrow> ident \<Rightarrow> ('w staff_world_scheme, staff_error, unit) tx" where
  "end_impersonations_if_lost x actor target =
     after (granting_row x ''findActive again'' target) (\<lambda>row.
       if (case row of None \<Rightarrow> False | Some r \<Rightarrow> UsersImpersonate \<in> set (permissions_of_record r (x_date x))) then give ()
       else end_impersonations x actor target)"

definition set_override ::
  "call_env \<Rightarrow> ident \<Rightarrow> staff_permission list \<Rightarrow> ident \<Rightarrow> staff_permission \<Rightarrow> override_effect \<Rightarrow> instant option \<Rightarrow>
   ('w staff_world_scheme, staff_error, unit) tx" where
  "set_override x actor perms target p effect expires =
     after (override_refusal x actor perms target p effect expires) (\<lambda>_.
     after (store_call StaffStoreFailed
              (replace_override (x_error x ''replaceOverride'') (x_date x) (x_fresh x) target p effect expires actor)) (\<lambda>i.
     after (end_impersonations_if_lost x actor target) (\<lambda>_.
     emit x ''admin.staff.override_set'' ''user'' target
       (JObj [(''actorUserId'', JStr actor), (''userId'', JStr target), (''overrideId'', JStr i), (''permission'', permission_json p),
              (''effect'', effect_json effect), (''expiresAt'', JOpt (map_option (x_iso x) expires))]))))"

definition remove_override ::
  "call_env \<Rightarrow> ident \<Rightarrow> staff_permission list \<Rightarrow> ident \<Rightarrow> ident \<Rightarrow> ('w staff_world_scheme, staff_error, unit) tx" where
  "remove_override x actor perms target i =
     after (check (refused_change x actor target)) (\<lambda>_.
     after (lock_active_managers x) (\<lambda>_.
     after (store_call StaffStoreFailed (revoke_override (x_error x ''revokeOverride'') (x_date x) target i)) (\<lambda>removed.
       case removed of
         None \<Rightarrow> refuse OverrideNotFound
       | Some r \<Rightarrow>
           after (check (refused_override_grant perms (ov_permission r) (ov_effect r) True)) (\<lambda>_.
           after (end_impersonations_if_lost x actor target) (\<lambda>_.
           emit x ''admin.staff.override_revoked'' ''user'' target
             (JObj [(''actorUserId'', JStr actor), (''userId'', JStr target), (''overrideId'', JStr i),
                    (''permission'', permission_json (ov_permission r)), (''effect'', effect_json (ov_effect r))]))))))"

section \<open>Moderating users\<close>

definition announce_ended ::
  "call_env \<Rightarrow> ident \<Rightarrow> ended_session list \<times> ended_impersonation list \<Rightarrow> ('w staff_world_scheme, staff_error, unit) tx" where
  "announce_ended x actor ended =
     after (announce_sessions_ended x (Some actor) (fst ended)) (\<lambda>_. announce_impersonations_ended x ''revoked'' (snd ended))"

text \<open>An \<open>expires_in\<close> of zero is read as none.\<close>

definition moderation_ban ::
  "call_env \<Rightarrow> ident \<Rightarrow> ident \<Rightarrow> string \<Rightarrow> int option \<Rightarrow> ('w staff_world_scheme, staff_error, unit) tx" where
  "moderation_ban x actor user reason expires_in =
     (if actor = user then refuse SelfBan
      else let expires = (case expires_in of None \<Rightarrow> None | Some s \<Rightarrow> if s = 0 then None else Some (x_date x + s * 1000))
           in after (store_call UserStoreFailed (user_ban (x_error x ''ban'') user reason expires)) (\<lambda>banned.
             case banned of
               None \<Rightarrow> refuse UserNotFound
             | Some ended \<Rightarrow>
                 after (announce_ended x actor ended) (\<lambda>_.
                 emit x ''admin.user.banned'' ''user'' user
                   (JObj [(''actorUserId'', JStr actor), (''userId'', JStr user), (''reason'', JStr reason),
                          (''expiresAt'', JOpt (map_option (x_iso x) expires))]))))"

definition moderation_unban :: "call_env \<Rightarrow> ident \<Rightarrow> ident \<Rightarrow> ('w staff_world_scheme, staff_error, unit) tx" where
  "moderation_unban x actor user =
     after (store_call UserStoreFailed (user_unban (x_error x ''unban'') user)) (\<lambda>outcome.
       case outcome of
         UserUnknown \<Rightarrow> refuse UserNotFound
       | NotBanned \<Rightarrow> give ()
       | Unbanned \<Rightarrow> emit x ''admin.user.unbanned'' ''user'' user (JObj [(''actorUserId'', JStr actor), (''userId'', JStr user)]))"

definition moderation_revoke_sessions :: "call_env \<Rightarrow> ident \<Rightarrow> ident \<Rightarrow> ('w staff_world_scheme, staff_error, unit) tx" where
  "moderation_revoke_sessions x actor user =
     after (store_call UserStoreFailed (user_delete_sessions (x_error x ''deleteSessions'') user)) (\<lambda>ended.
     after (announce_ended x actor ended) (\<lambda>_.
     emit x ''admin.user.sessions_revoked'' ''user'' user
       (JObj [(''actorUserId'', JStr actor), (''userId'', JStr user), (''count'', JNum (int (length (fst ended))))])))"

definition moderation_reset_password :: "call_env \<Rightarrow> ident \<Rightarrow> ident \<Rightarrow> ('w staff_world_scheme, staff_error, unit) tx" where
  "moderation_reset_password x actor user =
     after (store_call UserStoreFailed (user_delete_sessions (x_error x ''deleteSessions'') user)) (\<lambda>ended.
     after (announce_ended x actor ended) (\<lambda>_.
     emit x ''admin.user.password_reset'' ''user'' user (JObj [(''actorUserId'', JStr actor), (''userId'', JStr user)])))"

definition moderate ::
  "call_env \<Rightarrow> staff_permission list \<Rightarrow> ident \<Rightarrow> ('w staff_world_scheme, staff_error, unit) tx \<Rightarrow> ('w staff_world_scheme, staff_error, unit) tx" where
  "moderate x perms target action = after (refuse_target x perms target) (\<lambda>_. action)"

definition moderate_ban ::
  "call_env \<Rightarrow> staff_permission list \<Rightarrow> ident \<Rightarrow> ('w staff_world_scheme, staff_error, unit) tx \<Rightarrow> ('w staff_world_scheme, staff_error, unit) tx" where
  "moderate_ban x perms target ban = after (ban_refusal x perms target) (\<lambda>_. ban)"

text \<open>Whether a ban needs a second factor and a colleague.\<close>

definition ban_is_sensitive :: "call_env \<Rightarrow> ident \<Rightarrow> int option \<Rightarrow> ('w staff_world_scheme, staff_error, bool) tx" where
  "ban_is_sensitive x target expires_in =
     (if expires_in = None \<or> is_listed x target then give True
      else after (granting_row x ''findActive'' target) (\<lambda>row.
        if row \<noteq> None then give True
        else store_read UserStoreFailed (x_error x ''findUserById'') ''admin user lookup failed''
               (user_banned_for_good (x_date x) target)))"

section \<open>Sessions\<close>

definition STOPPING_PATHS :: "string list" where
  "STOPPING_PATHS = [''/admin/stop-impersonating'', ''/sign-out'']"

definition starts_with :: "string \<Rightarrow> string \<Rightarrow> bool" where
  "starts_with p s \<longleftrightarrow> take (length p) s = p"

definition sign_out_actor ::
  "ident \<Rightarrow> instant \<Rightarrow> ended_impersonation option \<Rightarrow> string option \<Rightarrow> instant \<Rightarrow> ident option" where
  "sign_out_actor owner expires impersonation path now =
     (if expires \<le> now then None
      else if (case path of None \<Rightarrow> False | Some p \<Rightarrow> starts_with ''/scim/'' p) then None
      else case impersonation of
        None \<Rightarrow> Some owner
      | Some i \<Rightarrow>
          if (case path of None \<Rightarrow> [] | Some p \<Rightarrow> p) \<in> set STOPPING_PATHS then Some (ei_by i)
          else let by_customer = (case path of None \<Rightarrow> False | Some p \<Rightarrow> \<not> starts_with ''/admin/'' p)
               in if by_customer then Some owner else Some (ei_by i))"

definition end_session ::
  "call_env \<Rightarrow> session_row \<Rightarrow> string option \<Rightarrow> ('w staff_world_scheme, staff_error, unit) tx" where
  "end_session x s path =
     (let stopping = ((case path of None \<Rightarrow> [] | Some p \<Rightarrow> p) \<in> set STOPPING_PATHS)
      in after (store_call StaffStoreFailed (end_session_row (x_error x ''endSession'') (se_id s))) (\<lambda>(sessions, impersonations).
         let actor = sign_out_actor (se_user s) (se_expires s) (case impersonations of [] \<Rightarrow> None | i # _ \<Rightarrow> Some i) path (x_date x)
         in after (announce_impersonations_ended x (if stopping then ''stopped'' else ''revoked'') impersonations) (\<lambda>_.
            announce_sessions_ended x actor sessions)))"

definition expire_impersonations ::
  "call_env \<Rightarrow> ident list \<Rightarrow> nat \<Rightarrow> ('w staff_world_scheme, staff_error, nat) tx" where
  "expire_impersonations x locked limit =
     after (store_call StaffStoreFailed (end_expired_impersonations (x_error x ''endExpiredImpersonations'') (x_date x) locked limit)) (\<lambda>ended.
     after (announce_impersonations_ended x ''expired'' ended) (\<lambda>_.
     after (announce_sessions_ended x None ended) (\<lambda>_. give (length ended))))"

text \<open>\<open>startImpersonation\<close>: \<open>start\<close> opens the session, after its announcement and under the same run.\<close>

definition start_impersonation ::
  "call_env \<Rightarrow> ident \<Rightarrow> ident \<Rightarrow> string \<Rightarrow> string option \<Rightarrow> string option \<Rightarrow> string \<Rightarrow>
   ('w staff_world_scheme, staff_error, 'a) tx \<Rightarrow> ('w staff_world_scheme, staff_error, 'a) tx" where
  "start_impersonation x actor user reason ticket ip expires_at start =
     (if actor = user then refuse SelfImpersonation
      else after (emit x ''admin.impersonation.started'' ''user'' user
             (JObj ([(''actorUserId'', JStr actor), (''userId'', JStr user), (''reason'', JStr reason)]
                    @ (case ticket of None \<Rightarrow> [] | Some t \<Rightarrow> [(''ticketRef'', JStr t)])
                    @ [(''ip'', JOpt ip), (''expiresAt'', JStr expires_at)]))) (\<lambda>_. start))"

end
