(* ===== verification/Staff_Effects.thy ===== *)
theory Staff_Effects
  imports Staff_Service
begin

text \<open>
  What a committed call of the administration of staff did to the tables: the rules for reading a
  transaction backwards, and for each call what held before it and the tables it left.
\<close>

section \<open>Reading a transaction backwards\<close>

named_theorems tx_simps \<open>what a transaction that gave a value did\<close>

lemma give_Inr [tx_simps]: "give x w = Inr (y, w') \<longleftrightarrow> y = x \<and> w' = w"
  by (auto simp: give_def)

lemma refuse_Inr [tx_simps]: "refuse e w \<noteq> Inr out"
  by (simp add: refuse_def)

lemma check_Inr [tx_simps]: "check r w = Inr (y, w') \<longleftrightarrow> r = Inr y \<and> w' = w"
  by (auto simp: check_def split: sum.splits)

lemma store_read_Inr [tx_simps]: "store_read err de msg f w = Inr (y, w') \<longleftrightarrow> de = None \<and> y = f (aw_staff w) \<and> w' = w"
  by (auto simp: store_read_def split: option.splits)

lemma granting_row_Inr [tx_simps]:
  "granting_row x method user w = Inr (y, w') \<longleftrightarrow>
     x_error x method = None \<and> y = granting (x_staff_env x) (find_active (x_date x) user (aw_staff w)) \<and> w' = w"
  by (simp add: granting_row_def store_read_Inr)

lemma lock_managers_Inr [tx_simps]:
  "lock_active_managers x w = Inr (y, w') \<longleftrightarrow>
     x_error x ''lockActiveManagers'' = None \<and> y = active_managers (x_date x) (aw_staff w) \<and> w' = w"
  by (simp add: lock_active_managers_def store_read_Inr)

lemma store_call_Inr: "store_call err op w = Inr (y, w') \<Longrightarrow> op (aw_staff w) = (aw_staff w', Inr y)"
  by (auto simp: store_call_def split: prod.splits sum.splits)

lemma after_Inr: "after m f w = Inr (y, w') \<longleftrightarrow> (\<exists>a w1. m w = Inr (a, w1) \<and> f a w1 = Inr (y, w'))"
  by (auto simp: after_def split: sum.splits)

lemma after_InrE:
  assumes "after m f w = Inr (y, w')"
  obtains a w1 where "m w = Inr (a, w1)" and "f a w1 = Inr (y, w')"
  using assms by (auto simp: after_Inr)

text \<open>Emissions leave the tables of the staff alone.\<close>

definition keeps_staff :: "('w staff_world_scheme, 'e, 'a) tx \<Rightarrow> bool" where
  "keeps_staff m \<longleftrightarrow> (\<forall>w y w'. m w = Inr (y, w') \<longrightarrow> aw_staff w' = aw_staff w)"

lemma keeps_staffD: "keeps_staff m \<Longrightarrow> m w = Inr (y, w') \<Longrightarrow> aw_staff w' = aw_staff w"
  by (auto simp: keeps_staff_def)

lemma keeps_emit: "keeps_staff (emit x event kind agg body)"
  by (auto simp: keeps_staff_def emit_def split: sum.splits)

lemma keeps_give: "keeps_staff (give y)"
  by (auto simp: keeps_staff_def give_def)

lemma keeps_after: "keeps_staff m \<Longrightarrow> (\<And>a. keeps_staff (f a)) \<Longrightarrow> keeps_staff (after m f)"
  by (fastforce simp: keeps_staff_def after_Inr)

lemma keeps_each: "(\<And>a. keeps_staff (f a)) \<Longrightarrow> keeps_staff (each f xs)"
  by (induction xs) (auto intro: keeps_give keeps_after)

lemma keeps_announce_revoked: "keeps_staff (announce_revoked x actor ended)"
  unfolding announce_revoked_def announce_impersonations_ended_def announce_sessions_ended_def
  by (intro keeps_after keeps_each keeps_emit)

lemma keeps_announce_ended: "keeps_staff (announce_ended x actor ended)"
  unfolding announce_ended_def announce_impersonations_ended_def announce_sessions_ended_def
  by (intro keeps_after keeps_each keeps_emit)

lemmas keeps_rules = keeps_emit keeps_give keeps_announce_revoked keeps_announce_ended

lemmas announced_staff =
  keeps_staffD [OF keeps_emit] keeps_staffD [OF keeps_announce_revoked] keeps_staffD [OF keeps_announce_ended]

section \<open>The calls\<close>

text \<open>What one person can do to another, as the routes and the approvals compose it.\<close>

datatype staff_call =
    AssignRole staff_role "staff_role option option"
  | RevokeStaff
  | SetOverride staff_permission override_effect "instant option"
  | RemoveOverride ident
  | BanUser string "int option"
  | UnbanUser
  | RevokeSessions
  | ResetPassword

definition staff_call_tx ::
  "call_env \<Rightarrow> ident \<Rightarrow> staff_permission list \<Rightarrow> ident \<Rightarrow> staff_call \<Rightarrow> ('w staff_world_scheme, staff_error, unit) tx" where
  "staff_call_tx x actor perms target c =
     (case c of
        AssignRole role expected \<Rightarrow> assign_role x actor perms target role expected
      | RevokeStaff \<Rightarrow> revoke_staff x actor target
      | SetOverride p effect expires \<Rightarrow> set_override x actor perms target p effect expires
      | RemoveOverride i \<Rightarrow> remove_override x actor perms target i
      | BanUser reason expires_in \<Rightarrow> moderate_ban x perms target (moderation_ban x actor target reason expires_in)
      | UnbanUser \<Rightarrow> moderate x perms target (moderation_unban x actor target)
      | RevokeSessions \<Rightarrow> moderate x perms target (moderation_revoke_sessions x actor target)
      | ResetPassword \<Rightarrow> moderate x perms target (moderation_reset_password x actor target))"

section \<open>What a committed call did to the tables\<close>

abbreviation record_for :: "call_env \<Rightarrow> ident \<Rightarrow> staff_db \<Rightarrow> staff_record option" where
  "record_for x target db \<equiv> granting (x_staff_env x) (find_active (x_date x) target db)"

abbreviation last_manager :: "call_env \<Rightarrow> ident \<Rightarrow> staff_db \<Rightarrow> bool" where
  "last_manager x target db \<equiv> is_last_manager target (active_managers (x_date x) db) (x_staff_env x)"

lemma refused_change_ok: "refused_change x actor target = Inr u \<longleftrightarrow> actor \<noteq> target \<and> \<not> is_listed x target"
  by (auto simp: refused_change_def)

lemma refused_role_grant_ok:
  "refused_role_grant x actor perms target role = Inr u \<longleftrightarrow>
     actor \<noteq> target \<and> \<not> is_listed x target \<and> set (permissions_of_role role) \<subseteq> set perms"
  by (auto simp: refused_role_grant_def refused_change_def list_ex_iff)

lemma refused_override_grant_ok:
  "refused_override_grant perms p effect lifts = Inr u \<longleftrightarrow> ((if lifts then effect = Deny else effect = Grant) \<longrightarrow> p \<in> set perms)"
  by (auto simp: refused_override_grant_def)

lemmas refusal_simps = refused_change_ok refused_role_grant_ok refused_override_grant_ok

lemma end_impersonations_effect:
  assumes "end_impersonations x actor target w = Inr (u, w')"
  shows "aw_staff w' = (aw_staff w)\<lparr>st_sessions := sql_delete (\<lambda>s. se_impersonated_by s = Some target) (st_sessions (aw_staff w))\<rparr>"
proof -
  obtain ended w1 where c: "store_call StaffStoreFailed (end_impersonations_by (x_error x ''endImpersonationsBy'') target) w = Inr (ended, w1)"
    and a: "aw_staff w' = aw_staff w1"
    using assms by (auto simp: end_impersonations_def after_Inr dest: announced_staff)
  have "aw_staff w1 = (aw_staff w)\<lparr>st_sessions := sql_delete (\<lambda>s. se_impersonated_by s = Some target) (st_sessions (aw_staff w))\<rparr>"
    using store_call_Inr [OF c] by (auto simp: end_impersonations_by_def delete_sessions_where_def split: if_splits)
  then show ?thesis using a by simp
qed

lemma end_if_lost_effect:
  assumes "end_impersonations_if_lost x actor target w = Inr (u, w')"
  shows "aw_staff w' = (if (case record_for x target (aw_staff w) of None \<Rightarrow> False
                            | Some r \<Rightarrow> UsersImpersonate \<in> set (permissions_of_record r (x_date x)))
                        then aw_staff w
                        else (aw_staff w)\<lparr>st_sessions := sql_delete (\<lambda>s. se_impersonated_by s = Some target) (st_sessions (aw_staff w))\<rparr>)"
  using assms unfolding end_impersonations_if_lost_def
  by (auto simp: after_Inr tx_simps dest!: end_impersonations_effect split: if_splits option.splits)

text \<open>
  \<open>sessions_cut\<close> says which sessions a change of what a person holds ends: those the person opened
  as somebody else, if the person may not do that any more.
\<close>

definition sessions_cut :: "bool \<Rightarrow> ident \<Rightarrow> staff_db \<Rightarrow> staff_db" where
  "sessions_cut lost target db =
     (if lost then db\<lparr>st_sessions := sql_delete (\<lambda>s. se_impersonated_by s = Some target) (st_sessions db)\<rparr> else db)"

definition may_impersonate :: "staff_record option \<Rightarrow> instant \<Rightarrow> bool" where
  "may_impersonate row now \<longleftrightarrow> (case row of None \<Rightarrow> False | Some r \<Rightarrow> UsersImpersonate \<in> set (permissions_of_record r now))"

abbreviation assigned :: "call_env \<Rightarrow> ident \<Rightarrow> staff_role \<Rightarrow> ident \<Rightarrow> staff_db \<Rightarrow> staff_db" where
  "assigned x target role actor db \<equiv> fst (staff_assign None (x_date x) target role actor db)"

lemma assign_store_Inr:
  assumes "store_call e (staff_assign err date target role actor) w = Inr (u, w')"
  shows "aw_staff w' = fst (staff_assign None date target role actor (aw_staff w))"
  using store_call_Inr [OF assms] by (auto simp: staff_assign_def Let_def split: if_splits)

lemma staff_add_effect:
  assumes "staff_add x actor target role w = Inr (u, w')"
  shows "user_known target (aw_staff w) \<and> aw_staff w' = assigned x target role actor (aw_staff w)"
proof -
  obtain w1 u1 where k: "user_known target (aw_staff w)"
    and c: "store_call StaffStoreFailed (staff_assign (x_error x ''assign'') (x_date x) target role actor) w = Inr (u1, w1)"
    and e: "aw_staff w' = aw_staff w1"
    using assms by (auto simp: staff_add_def after_Inr tx_simps dest: announced_staff split: if_splits)
  then show ?thesis using k assign_store_Inr [OF c] by simp
qed

lemma revoke_effect:
  assumes "revoke_staff x actor target w = Inr (u, w')"
  shows "actor \<noteq> target" and "\<not> is_listed x target"
    and "\<exists>r. record_for x target (aw_staff w) = Some r \<and> \<not> (sr_role r = Manager \<and> last_manager x target (aw_staff w))"
    and "aw_staff w' = fst (staff_revoke None (x_date x) target (aw_staff w))"
proof -
  obtain role w1 ended w2 where ok: "actor \<noteq> target" "\<not> is_listed x target"
    and r: "revocable_role x target w = Inr (role, w1)"
    and c: "store_call StaffStoreFailed (staff_revoke (x_error x ''revoke'') (x_date x) target) w1 = Inr (ended, w2)"
    and a: "aw_staff w' = aw_staff w2"
    using assms by (auto simp: revoke_staff_def after_Inr tx_simps refusal_simps dest!: announced_staff)
  show "actor \<noteq> target" "\<not> is_listed x target" by (fact ok)+
  have "w1 = w" and g: "\<exists>r. record_for x target (aw_staff w) = Some r \<and> \<not> (sr_role r = Manager \<and> last_manager x target (aw_staff w))"
    using r by (auto simp: revocable_role_def after_Inr tx_simps split: option.splits if_splits)
  show "\<exists>r. record_for x target (aw_staff w) = Some r \<and> \<not> (sr_role r = Manager \<and> last_manager x target (aw_staff w))"
    by (fact g)
  have "aw_staff w2 = fst (staff_revoke None (x_date x) target (aw_staff w1))"
    using store_call_Inr [OF c] by (auto simp: staff_revoke_def Let_def split: if_splits prod.splits)
  then show "aw_staff w' = fst (staff_revoke None (x_date x) target (aw_staff w))" using \<open>w1 = w\<close> a by simp
qed

text \<open>Assigning adds somebody, changes nothing, or changes a role that is not the last manager's.\<close>

lemma assign_effect:
  assumes "assign_role x actor perms target role expected w = Inr (u, w')"
  shows "actor \<noteq> target" and "\<not> is_listed x target" and "set (permissions_of_role role) \<subseteq> set perms"
    and "(record_for x target (aw_staff w) = None \<and> user_known target (aw_staff w) \<and> aw_staff w' = assigned x target role actor (aw_staff w))
       \<or> (\<exists>r. record_for x target (aw_staff w) = Some r \<and> sr_role r = role \<and> aw_staff w' = aw_staff w)
       \<or> (\<exists>r. record_for x target (aw_staff w) = Some r \<and> sr_role r \<noteq> role
            \<and> \<not> (sr_role r = Manager \<and> last_manager x target (aw_staff w))
            \<and> aw_staff w' = sessions_cut (\<not> may_impersonate (Some (r\<lparr>sr_role := role\<rparr>)) (x_date x)) target
                              (assigned x target role actor (aw_staff w)))"
    (is "?add \<or> ?same \<or> ?change")
proof -
  show "actor \<noteq> target" "\<not> is_listed x target" "set (permissions_of_role role) \<subseteq> set perms"
    using assms by (auto simp: assign_role_def after_Inr tx_simps refusal_simps)
  let ?row = "record_for x target (aw_staff w)"
  have body: "(if (case expected of None \<Rightarrow> False | Some r \<Rightarrow> r \<noteq> map_option sr_role ?row) then refuse RoleChanged
       else case ?row of
         None \<Rightarrow> staff_add x actor target role
       | Some r \<Rightarrow>
           if sr_role r = role then give ()
           else if sr_role r = Manager \<and> last_manager x target (aw_staff w) then refuse LastManager
           else after (store_call StaffStoreFailed (staff_assign (x_error x ''assign'') (x_date x) target role actor)) (\<lambda>_.
                after (if UsersImpersonate \<in> set (permissions_of_record (r\<lparr>sr_role := role\<rparr>) (x_date x)) then give ()
                       else end_impersonations x actor target) (\<lambda>_.
                emit x ''admin.staff.role_changed'' ''user'' target
                  (JObj [(''actorUserId'', JStr actor), (''userId'', JStr target), (''from'', role_json (sr_role r)),
                         (''to'', role_json role)])))) w = Inr (u, w')"
    using assms by (simp add: assign_role_def after_Inr tx_simps)
  show "?add \<or> ?same \<or> ?change"
  proof (cases ?row)
    case None
    then have "staff_add x actor target role w = Inr (u, w')" using body by (auto simp: tx_simps split: if_splits)
    then show ?thesis using None staff_add_effect by blast
  next
    case (Some r)
    show ?thesis
    proof (cases "sr_role r = role")
      case True
      then show ?thesis using Some body by (auto simp: tx_simps split: if_splits)
    next
      case False
      then obtain u1 w1 u2 w2 where l: "\<not> (sr_role r = Manager \<and> last_manager x target (aw_staff w))"
        and c: "store_call StaffStoreFailed (staff_assign (x_error x ''assign'') (x_date x) target role actor) w = Inr (u1, w1)"
        and i: "(if UsersImpersonate \<in> set (permissions_of_record (r\<lparr>sr_role := role\<rparr>) (x_date x)) then give ()
                  else end_impersonations x actor target) w1 = Inr (u2, w2)"
        and e: "aw_staff w' = aw_staff w2"
        using Some body by (auto simp: after_Inr tx_simps dest: announced_staff split: if_splits)
      have "aw_staff w2 = sessions_cut (\<not> may_impersonate (Some (r\<lparr>sr_role := role\<rparr>)) (x_date x)) target (aw_staff w1)"
        using i by (auto simp: sessions_cut_def may_impersonate_def tx_simps dest!: end_impersonations_effect split: if_splits)
      then show ?thesis using Some False l e assign_store_Inr [OF c] by simp
    qed
  qed
qed

lemma end_if_lost_cut:
  assumes "end_impersonations_if_lost x actor target w = Inr (u, w')"
  shows "aw_staff w' = sessions_cut (\<not> may_impersonate (record_for x target (aw_staff w)) (x_date x)) target (aw_staff w)"
  using end_if_lost_effect [OF assms] by (simp add: sessions_cut_def may_impersonate_def split: option.splits)

abbreviation overridden ::
  "call_env \<Rightarrow> ident \<Rightarrow> staff_permission \<Rightarrow> override_effect \<Rightarrow> instant option \<Rightarrow> ident \<Rightarrow> staff_db \<Rightarrow> staff_db" where
  "overridden x target p effect expires actor db \<equiv>
     fst (replace_override None (x_date x) (x_fresh x) target p effect expires actor db)"

lemma set_override_effect:
  assumes "set_override x actor perms target p effect expires w = Inr (u, w')"
  shows "actor \<noteq> target" and "\<not> is_listed x target" and "effect = Grant \<Longrightarrow> p \<in> set perms"
    and "\<And>t. expires = Some t \<Longrightarrow> x_date x < t"
    and "\<exists>r. record_for x target (aw_staff w) = Some r
        \<and> \<not> (effect = Deny \<and> p = StaffManage \<and> sr_role r = Manager \<and> StaffManage \<in> set (permissions_of_record r (x_date x))
             \<and> last_manager x target (aw_staff w))"
    and "aw_staff w' = (let db = overridden x target p effect expires actor (aw_staff w)
                        in sessions_cut (\<not> may_impersonate (record_for x target db) (x_date x)) target db)"
proof -
  obtain w1 i w2 u1 w3 where o': "override_refusal x actor perms target p effect expires w = Inr ((), w1)"
    and c: "store_call StaffStoreFailed
              (replace_override (x_error x ''replaceOverride'') (x_date x) (x_fresh x) target p effect expires actor) w1 = Inr (i, w2)"
    and l: "end_impersonations_if_lost x actor target w2 = Inr (u1, w3)" and e: "aw_staff w' = aw_staff w3"
    using assms by (auto simp: set_override_def after_Inr dest: announced_staff)
  have w1: "w1 = w" "actor \<noteq> target" "\<not> is_listed x target" "effect = Grant \<longrightarrow> p \<in> set perms"
    "\<not> (case expires of None \<Rightarrow> False | Some t \<Rightarrow> t \<le> x_date x)"
    using o' by (auto simp: override_refusal_def after_Inr tx_simps refusal_simps Let_def split: option.splits if_splits)
  then show "actor \<noteq> target" "\<not> is_listed x target" "effect = Grant \<Longrightarrow> p \<in> set perms"
    "\<And>t. expires = Some t \<Longrightarrow> x_date x < t" by auto
  show "\<exists>r. record_for x target (aw_staff w) = Some r
        \<and> \<not> (effect = Deny \<and> p = StaffManage \<and> sr_role r = Manager \<and> StaffManage \<in> set (permissions_of_record r (x_date x))
             \<and> last_manager x target (aw_staff w))"
    using o' by (auto simp: override_refusal_def after_Inr tx_simps Let_def split: option.splits if_splits)
  have "aw_staff w2 = overridden x target p effect expires actor (aw_staff w)"
    using store_call_Inr [OF c] w1(1) by (auto simp: replace_override_def split: if_splits)
  then show "aw_staff w' = (let db = overridden x target p effect expires actor (aw_staff w)
                            in sessions_cut (\<not> may_impersonate (record_for x target db) (x_date x)) target db)"
    using end_if_lost_cut [OF l] e by (simp add: Let_def)
qed

lemma remove_override_effect:
  assumes "remove_override x actor perms target i w = Inr (u, w')"
  shows "actor \<noteq> target" and "\<not> is_listed x target"
    and "\<exists>r. List.find (\<lambda>r. so_id r = i \<and> so_user r = target \<and> so_revoked r = None) (st_overrides (aw_staff w)) = Some r
        \<and> (ov_effect r = Deny \<longrightarrow> ov_permission r \<in> set perms)"
    and "aw_staff w' = (let db = fst (revoke_override None (x_date x) target i (aw_staff w))
                        in sessions_cut (\<not> may_impersonate (record_for x target db) (x_date x)) target db)"
proof -
  obtain row w2 u1 w3 where ok: "actor \<noteq> target" "\<not> is_listed x target"
    and c: "store_call StaffStoreFailed (revoke_override (x_error x ''revokeOverride'') (x_date x) target i) w = Inr (Some row, w2)"
    and g: "ov_effect row = Deny \<longrightarrow> ov_permission row \<in> set perms"
    and l: "end_impersonations_if_lost x actor target w2 = Inr (u1, w3)" and e: "aw_staff w' = aw_staff w3"
    using assms by (auto simp: remove_override_def after_Inr tx_simps refusal_simps dest!: announced_staff split: option.splits)
  show "actor \<noteq> target" "\<not> is_listed x target" by (fact ok)+
  have "Some row = map_option override_of (List.find (\<lambda>r. so_id r = i \<and> so_user r = target \<and> so_revoked r = None) (st_overrides (aw_staff w)))"
    using store_call_Inr [OF c] by (auto simp: revoke_override_def Let_def split: if_splits)
  then show "\<exists>r. List.find (\<lambda>r. so_id r = i \<and> so_user r = target \<and> so_revoked r = None) (st_overrides (aw_staff w)) = Some r
        \<and> (ov_effect r = Deny \<longrightarrow> ov_permission r \<in> set perms)"
    using g by (cases "List.find (\<lambda>r. so_id r = i \<and> so_user r = target \<and> so_revoked r = None) (st_overrides (aw_staff w))")
      (auto simp: override_of_def staff_override.truncate_def)
  have "aw_staff w2 = fst (revoke_override None (x_date x) target i (aw_staff w))"
    using store_call_Inr [OF c] by (auto simp: revoke_override_def Let_def split: if_splits)
  then show "aw_staff w' = (let db = fst (revoke_override None (x_date x) target i (aw_staff w))
                            in sessions_cut (\<not> may_impersonate (record_for x target db) (x_date x)) target db)"
    using end_if_lost_cut [OF l] e by (simp add: Let_def)
qed

lemma ban_effect:
  assumes "moderate_ban x perms target (moderation_ban x actor target reason expires_in) w = Inr (u, w')"
  shows "actor \<noteq> target"
    and "\<not> ((is_listed x target \<or> (\<exists>r. record_for x target (aw_staff w) = Some r \<and> sr_role r = Manager)) \<and> last_manager x target (aw_staff w))"
    and "\<exists>expires. aw_staff w' = fst (user_ban None target reason expires (aw_staff w))"
proof -
  obtain w1 where r: "ban_refusal x perms target w = Inr ((), w1)"
    and b: "moderation_ban x actor target reason expires_in w1 = Inr (u, w')"
    using assms by (auto simp: moderate_ban_def after_Inr)
  have w1: "w1 = w" using r by (auto simp: ban_refusal_def after_Inr tx_simps Let_def split: if_splits)
  show "\<not> ((is_listed x target \<or> (\<exists>r. record_for x target (aw_staff w) = Some r \<and> sr_role r = Manager)) \<and> last_manager x target (aw_staff w))"
    using r by (auto simp: ban_refusal_def after_Inr tx_simps Let_def split: option.splits if_splits)
  show "actor \<noteq> target" using b by (auto simp: moderation_ban_def tx_simps split: if_splits)
  obtain expires ended w2 where
    c: "store_call UserStoreFailed (user_ban (x_error x ''ban'') target reason expires) w1 = Inr (Some ended, w2)"
    and e: "aw_staff w' = aw_staff w2"
    using b by (auto simp: moderation_ban_def Let_def after_Inr tx_simps dest!: announced_staff split: if_splits option.splits)
  have "aw_staff w2 = fst (user_ban None target reason expires (aw_staff w1))"
    using store_call_Inr [OF c] by (auto simp: user_ban_def split: if_splits prod.splits)
  then show "\<exists>expires. aw_staff w' = fst (user_ban None target reason expires (aw_staff w))" using e w1 by auto
qed

lemma moderate_Inr [tx_simps]:
  "moderate x perms target m w = Inr (u, w') \<longleftrightarrow>
     x_error x ''findActive'' = None \<and> refused_on x perms target (record_for x target (aw_staff w)) = Inr () \<and> m w = Inr (u, w')"
  by (auto simp: moderate_def refuse_target_def after_Inr tx_simps)

lemma unban_effect:
  assumes "moderation_unban x actor target w = Inr (u, w')"
  shows "aw_staff w' = fst (user_unban None target (aw_staff w))"
proof -
  obtain out w1 where c: "store_call UserStoreFailed (user_unban (x_error x ''unban'') target) w = Inr (out, w1)"
    and r: "(case out of UserUnknown \<Rightarrow> refuse UserNotFound | NotBanned \<Rightarrow> give ()
            | Unbanned \<Rightarrow> emit x ''admin.user.unbanned'' ''user'' target (JObj [(''actorUserId'', JStr actor), (''userId'', JStr target)])) w1
          = Inr (u, w')"
    using assms by (auto simp: moderation_unban_def after_Inr)
  from r have "aw_staff w' = aw_staff w1" by (cases out) (auto simp: tx_simps dest: announced_staff)
  then show ?thesis using store_call_Inr [OF c] by (auto simp: user_unban_def split: if_splits)
qed

lemma delete_sessions_effect:
  assumes "store_call UserStoreFailed (user_delete_sessions err target) w = Inr (out, w')"
  shows "aw_staff w' = (aw_staff w)\<lparr>st_sessions := sql_delete (held_or_impersonated_by target) (st_sessions (aw_staff w))\<rparr>"
  using store_call_Inr [OF assms] by (auto simp: user_delete_sessions_def delete_sessions_where_def split: if_splits)

lemma sessions_ended_effect:
  "moderation_revoke_sessions x actor target w = Inr (u, w') \<Longrightarrow>
     aw_staff w' = (aw_staff w)\<lparr>st_sessions := sql_delete (held_or_impersonated_by target) (st_sessions (aw_staff w))\<rparr>"
  "moderation_reset_password x actor target w = Inr (u, w') \<Longrightarrow>
     aw_staff w' = (aw_staff w)\<lparr>st_sessions := sql_delete (held_or_impersonated_by target) (st_sessions (aw_staff w))\<rparr>"
  by (auto simp: moderation_revoke_sessions_def moderation_reset_password_def after_Inr
      dest!: announced_staff delete_sessions_effect)

end
