(* ===== verification/Staff_Correct.thy ===== *)
theory Staff_Correct
  imports Staff_Effects
begin

text \<open>
  What the administration of staff guarantees, first part: a committed change touches nobody but its
  target, keeps the tables in order, and never leaves the platform without someone who manages it.
\<close>

section \<open>A call touches its target only\<close>

definition others_same :: "ident \<Rightarrow> staff_db \<Rightarrow> staff_db \<Rightarrow> bool" where
  "others_same target db db' \<longleftrightarrow>
     filter (\<lambda>m. sm_user m \<noteq> target) (st_members db') = filter (\<lambda>m. sm_user m \<noteq> target) (st_members db)
   \<and> filter (\<lambda>r. so_user r \<noteq> target) (st_overrides db') = filter (\<lambda>r. so_user r \<noteq> target) (st_overrides db)
   \<and> filter (\<lambda>u. us_id u \<noteq> target) (st_users db') = filter (\<lambda>u. us_id u \<noteq> target) (st_users db)"

lemma others_same_refl [simp]: "others_same target db db"
  by (simp add: others_same_def)

lemma others_same_trans: "others_same target a b \<Longrightarrow> others_same target b c \<Longrightarrow> others_same target a c"
  by (simp add: others_same_def)

lemma filter_update_other:
  assumes "\<And>r. p r \<Longrightarrow> key r = k" and "\<And>r. key (f r) = key r"
  shows "filter (\<lambda>r. key r \<noteq> k) (sql_update p f t) = filter (\<lambda>r. key r \<noteq> k) t"
  using assms by (induction t) (auto simp: sql_update_def)

lemma others_same_sessions [simp]: "others_same target db (db\<lparr>st_sessions := s\<rparr>)"
  by (simp add: others_same_def)

lemma others_same_cut: "others_same target a b \<Longrightarrow> others_same target a (sessions_cut lost other b)"
  by (simp add: others_same_def sessions_cut_def)

lemma others_same_mirror: "others_same target a b \<Longrightarrow> others_same target a (set_mirror v target b)"
  by (simp add: others_same_def set_mirror_def filter_update_other)

lemma others_same_assign: "others_same target db (fst (staff_assign None date target role actor db))"
  by (auto simp: staff_assign_def Let_def intro!: others_same_mirror) (auto simp: others_same_def filter_update_other)

lemma others_same_revoke: "others_same target db (fst (staff_revoke None date target db))"
  by (auto simp: staff_revoke_def Let_def delete_sessions_where_def intro!: others_same_trans [OF _ others_same_sessions] others_same_mirror)
     (auto simp: others_same_def intro!: filter_update_other)

lemma others_same_override: "others_same target db (fst (replace_override None date fresh target p effect expires actor db))"
  by (auto simp: replace_override_def others_same_def intro!: filter_update_other)

lemma others_same_remove: "others_same target db (fst (revoke_override None date target i db))"
  by (auto simp: revoke_override_def Let_def others_same_def intro!: filter_update_other)

lemma others_same_ban: "others_same target db (fst (user_ban None target reason expires db))"
  by (auto simp: user_ban_def delete_sessions_where_def others_same_def filter_update_other)

lemma others_same_unban: "others_same target db (fst (user_unban None target db))"
  by (auto simp: user_unban_def others_same_def intro!: filter_update_other)

lemma call_touches_target_only:
  assumes "staff_call_tx x actor perms target c w = Inr (u, w')"
  shows "others_same target (aw_staff w) (aw_staff w')"
proof (cases c)
  case (AssignRole role expected)
  then have "assign_role x actor perms target role expected w = Inr (u, w')" using assms by (simp add: staff_call_tx_def)
  from assign_effect(4) [OF this] show ?thesis using others_same_assign others_same_cut by auto
next
  case RevokeStaff
  then have "revoke_staff x actor target w = Inr (u, w')" using assms by (simp add: staff_call_tx_def)
  from revoke_effect(4) [OF this] show ?thesis by (simp add: others_same_revoke)
next
  case (SetOverride p effect expires)
  then have "set_override x actor perms target p effect expires w = Inr (u, w')" using assms by (simp add: staff_call_tx_def)
  from set_override_effect(6) [OF this] show ?thesis by (simp add: Let_def others_same_cut others_same_override)
next
  case (RemoveOverride i)
  then have "remove_override x actor perms target i w = Inr (u, w')" using assms by (simp add: staff_call_tx_def)
  from remove_override_effect(4) [OF this] show ?thesis by (simp add: Let_def others_same_cut others_same_remove)
next
  case (BanUser reason expires_in)
  then have "moderate_ban x perms target (moderation_ban x actor target reason expires_in) w = Inr (u, w')"
    using assms by (simp add: staff_call_tx_def)
  from ban_effect(3) [OF this] show ?thesis using others_same_ban by auto
next
  case UnbanUser
  then have "moderation_unban x actor target w = Inr (u, w')" using assms by (simp add: staff_call_tx_def tx_simps)
  from unban_effect [OF this] show ?thesis by (simp add: others_same_unban)
next
  case RevokeSessions
  then have "moderation_revoke_sessions x actor target w = Inr (u, w')" using assms by (simp add: staff_call_tx_def tx_simps)
  from sessions_ended_effect(1) [OF this] show ?thesis by simp
next
  case ResetPassword
  then have "moderation_reset_password x actor target w = Inr (u, w')" using assms by (simp add: staff_call_tx_def tx_simps)
  from sessions_ended_effect(2) [OF this] show ?thesis by simp
qed

text \<open>What is read of another person is what it was.\<close>

lemma row_of_other:
  assumes "filter (\<lambda>r. key r \<noteq> k) t' = filter (\<lambda>r. key r \<noteq> k) t" and "u \<noteq> k"
  shows "row_of key u (filter q t') = row_of key u (filter q t)"
proof -
  have "row_of key u (filter q s) = row_of key u (filter q (filter (\<lambda>r. key r \<noteq> k) s))" for s
    using assms(2) by (induction s) (auto simp: row_of_def)
  then show ?thesis using assms(1) by metis
qed

lemma filter_other:
  assumes "filter (\<lambda>r. key r \<noteq> k) t' = filter (\<lambda>r. key r \<noteq> k) t" and "u \<noteq> k"
  shows "filter (\<lambda>r. key r = u \<and> q r) t' = filter (\<lambda>r. key r = u \<and> q r) t"
proof -
  have "filter (\<lambda>r. key r = u \<and> q r) s = filter (\<lambda>r. key r = u \<and> q r) (filter (\<lambda>r. key r \<noteq> k) s)" for s
    using assms(2) by (induction s) auto
  then show ?thesis using assms(1) by metis
qed

lemma find_active_other:
  assumes "others_same target db db'" and "u \<noteq> target"
  shows "find_active date u db' = find_active date u db"
proof -
  have m: "row_of sm_user u (filter (\<lambda>m. sm_revoked m = None) (st_members db')) = row_of sm_user u (filter (\<lambda>m. sm_revoked m = None) (st_members db))"
    using assms by (intro row_of_other) (simp_all add: others_same_def)
  have "row_of us_id u (filter (\<lambda>_. True) (st_users db')) = row_of us_id u (filter (\<lambda>_. True) (st_users db))"
    using assms by (intro row_of_other) (simp_all add: others_same_def)
  then have us: "row_of us_id u (st_users db') = row_of us_id u (st_users db)" by simp
  have ov: "filter (\<lambda>r. so_user r = u \<and> so_revoked r = None) (st_overrides db') = filter (\<lambda>r. so_user r = u \<and> so_revoked r = None) (st_overrides db)"
    using assms by (intro filter_other) (simp_all add: others_same_def)
  show ?thesis unfolding find_active_def m us ov by (rule refl)
qed

section \<open>Somebody always manages the platform\<close>

text \<open>
  A person who manages: an active manager's row that counts, an account that is neither banned nor
  going, and no live denial, unless the settings list the person.
\<close>

definition able_to_manage :: "staff_env \<Rightarrow> instant \<Rightarrow> staff_db \<Rightarrow> ident \<Rightarrow> bool" where
  "able_to_manage env date db u \<longleftrightarrow>
     (\<exists>m \<in> set (st_members db). sm_user m = u \<and> sm_role m = Manager \<and> sm_revoked m = None \<and> grants_staff_access u (sm_source m) env)
   \<and> (\<exists>a \<in> set (st_users db). us_id a = u \<and> still_counts_as_manager a date)
   \<and> (\<not> manage_denied date u db \<or> u \<in> set (PLATFORM_ADMIN_IDS env))"

lemma active_managers_able:
  "(\<exists>m \<in> set (active_managers date db). mg_user m = u \<and> grants_staff_access (mg_user m) (mg_source m) env
      \<and> (\<not> mg_denied m \<or> mg_user m \<in> set (PLATFORM_ADMIN_IDS env))) \<longleftrightarrow> able_to_manage env date db u"
  unfolding able_to_manage_def active_managers_def Let_def by (auto simp: image_iff) force+

lemma is_last_manager_able:
  "is_last_manager target (active_managers date db) env \<longleftrightarrow> \<not> (\<exists>u. u \<noteq> target \<and> able_to_manage env date db u)"
  unfolding is_last_manager_def list_ex_iff active_managers_able [symmetric] by auto

lemma mem_other:
  assumes "filter (\<lambda>r. key r \<noteq> k) t' = filter (\<lambda>r. key r \<noteq> k) t" and "key r \<noteq> k"
  shows "r \<in> set t' \<longleftrightarrow> r \<in> set t"
  using arg_cong [OF assms(1), of set] assms(2) by auto

lemma able_other:
  assumes "others_same target db db'" and "u \<noteq> target"
  shows "able_to_manage env date db' u \<longleftrightarrow> able_to_manage env date db u"
proof -
  have m: "m \<in> set (st_members db') \<longleftrightarrow> m \<in> set (st_members db)" if "sm_user m = u" for m
    by (rule mem_other [where key = sm_user and k = target]) (use assms that in \<open>auto simp: others_same_def\<close>)
  have a: "a \<in> set (st_users db') \<longleftrightarrow> a \<in> set (st_users db)" if "us_id a = u" for a
    by (rule mem_other [where key = us_id and k = target]) (use assms that in \<open>auto simp: others_same_def\<close>)
  have r: "r \<in> set (st_overrides db') \<longleftrightarrow> r \<in> set (st_overrides db)" if "so_user r = u" for r
    by (rule mem_other [where key = so_user and k = target]) (use assms that in \<open>auto simp: others_same_def\<close>)
  have "manage_denied date u db' \<longleftrightarrow> manage_denied date u db"
    unfolding manage_denied_def list_ex_iff using r by blast
  then show ?thesis unfolding able_to_manage_def using m a by blast
qed

text \<open>Time takes this from nobody: denials and bans only end by themselves.\<close>

lemma override_live_earlier: "override_live later r \<Longrightarrow> date \<le> later \<Longrightarrow> override_live date r"
  by (auto simp: override_live_def split: option.splits)

lemma able_later:
  assumes "able_to_manage env date db u" and "date \<le> later"
  shows "able_to_manage env later db u"
proof -
  have "manage_denied later u db \<Longrightarrow> manage_denied date u db"
    unfolding manage_denied_def list_ex_iff using override_live_earlier [OF _ assms(2)] by blast
  moreover have "still_counts_as_manager a date \<Longrightarrow> still_counts_as_manager a later" for a
    using assms(2) by (auto simp: still_counts_as_manager_def ban_is_live_def split: option.splits)
  ultimately show ?thesis using assms(1) unfolding able_to_manage_def by blast
qed

text \<open>Every live override belongs to a person whose row counts by itself, not by the settings.\<close>

definition overrides_grounded :: "staff_db \<Rightarrow> bool" where
  "overrides_grounded db \<longleftrightarrow> (\<forall>r \<in> set (st_overrides db). so_revoked r = None \<longrightarrow>
     (\<exists>m \<in> set (st_members db). sm_user m = so_user r \<and> sm_revoked m = None \<and> sm_source m \<noteq> FromEnv))"

definition staff_good :: "staff_db \<Rightarrow> bool" where
  "staff_good db \<longleftrightarrow> staff_tables_ok db \<and> overrides_grounded db"

lemma find_active_Some:
  assumes "find_active date u db = Some r"
  obtains m a where "m \<in> set (st_members db)" and "sm_user m = u" and "sm_revoked m = None"
    and "a \<in> set (st_users db)" and "us_id a = u"
    and "r = \<lparr>sr_user = u, sr_role = sm_role m, sr_source = sm_source m,
                 sr_banned = ban_is_live (us_banned a) (us_ban_expires a) date,
                 sr_overrides = map override_of (filter (\<lambda>r. so_user r = u \<and> so_revoked r = None) (st_overrides db))\<rparr>"
  using assms by (auto simp: find_active_def split: option.splits dest!: row_of_Some intro: that)

lemma find_active_of:
  assumes "staff_tables_ok db" and "m \<in> set (st_members db)" and "sm_revoked m = None" and "a \<in> set (st_users db)" and "us_id a = sm_user m"
  shows "find_active date (sm_user m) db = Some \<lparr>sr_user = sm_user m, sr_role = sm_role m, sr_source = sm_source m,
     sr_banned = ban_is_live (us_banned a) (us_ban_expires a) date,
     sr_overrides = map override_of (filter (\<lambda>r. so_user r = sm_user m \<and> so_revoked r = None) (st_overrides db))\<rparr>"
proof -
  have "keyed sm_user (filter (\<lambda>m. sm_revoked m = None) (st_members db))"
    using assms(1) by (auto simp: staff_tables_ok_def keyed_def distinct_map intro: inj_on_subset)
  then have "row_of sm_user (sm_user m) (filter (\<lambda>m. sm_revoked m = None) (st_members db)) = Some m"
    using assms(2,3) by (intro row_of_keyed) simp_all
  moreover have "row_of us_id (sm_user m) (st_users db) = Some a"
    using row_of_keyed [of us_id "st_users db" a] assms(1,4,5) by (simp add: staff_tables_ok_def)
  ultimately show ?thesis by (simp add: find_active_def)
qed

lemma find_active_None:
  assumes "staff_tables_ok db" and "find_active date u db = None" and "m \<in> set (st_members db)" and "sm_user m = u"
  shows "sm_revoked m \<noteq> None"
proof
  assume "sm_revoked m = None"
  have "u \<in> us_id ` set (st_users db)" using assms(1,3,4) by (auto simp: staff_tables_ok_def)
  then obtain a where "a \<in> set (st_users db)" "us_id a = sm_user m" using assms(4) by auto
  from find_active_of [OF assms(1,3) \<open>sm_revoked m = None\<close> this] show False using assms(2,4) by simp
qed

section \<open>The tables stay in order\<close>

lemma granting_Some: "granting env row = Some r \<longleftrightarrow> row = Some r \<and> grants_staff_access (sr_user r) (sr_source r) env"
  by (auto simp: granting_def split: option.splits)

lemma tables_okI:
  assumes "staff_tables_ok db" and "keyed sm_user (st_members db')" and "sm_user ` set (st_members db') \<subseteq> us_id ` set (st_users db')"
    and "sm_user ` set (st_members db) \<subseteq> sm_user ` set (st_members db')"
    and "keyed so_id (st_overrides db')" and "so_user ` set (st_overrides db') \<subseteq> sm_user ` set (st_members db')"
    and "map us_id (st_users db') = map us_id (st_users db)" and "keyed se_id (st_sessions db')"
  shows "staff_tables_ok db'"
  using assms by (simp add: staff_tables_ok_def keyed_def)

lemma map_sql_update: "(\<And>r. key (f r) = key r) \<Longrightarrow> map key (sql_update p f t) = map key t"
  by (induction t) (auto simp: sql_update_def)

lemma image_sql_update: "(\<And>r. key (f r) = key r) \<Longrightarrow> key ` set (sql_update p f t) = key ` set t"
  using map_sql_update [of key f p t] by (metis set_map)

lemmas update_keys = map_sql_update image_sql_update keyed_sql_update keyed_sql_delete

lemma kept_by_update: "r \<in> set t \<Longrightarrow> \<not> p r \<Longrightarrow> r \<in> set (sql_update p f t)"
  by (induction t) (auto simp: sql_update_def)

lemma good_sessions: "staff_good db \<Longrightarrow> staff_good (db\<lparr>st_sessions := sql_delete p (st_sessions db)\<rparr>)"
  by (simp add: staff_good_def staff_tables_ok_def overrides_grounded_def keyed_sql_delete)

lemma good_cut: "staff_good db \<Longrightarrow> staff_good (sessions_cut lost target db)"
  by (simp add: sessions_cut_def good_sessions)

lemma good_mirror: "staff_good db \<Longrightarrow> staff_good (set_mirror v target db)"
  by (simp add: staff_good_def staff_tables_ok_def overrides_grounded_def set_mirror_def update_keys keyed_def)

lemma good_assign:
  assumes "staff_good db" and "user_known target db"
  shows "staff_good (fst (staff_assign None date target role actor db))"
proof -
  let ?f = "\<lambda>m. m\<lparr>sm_role := role, sm_source := FromConsole, sm_created_by := Some actor, sm_revoked := None\<rparr>"
  let ?new = "\<lparr>sm_user = target, sm_role = role, sm_source = FromConsole, sm_created_by = Some actor, sm_created = date, sm_revoked = None\<rparr>"
  have "staff_good (db\<lparr>st_members := sql_update (\<lambda>m. sm_user m = target) ?f (st_members db)\<rparr>)"
  proof -
    have "staff_tables_ok (db\<lparr>st_members := sql_update (\<lambda>m. sm_user m = target) ?f (st_members db)\<rparr>)"
      using assms(1) by (simp add: staff_good_def staff_tables_ok_def update_keys)
    moreover have "\<exists>m \<in> set (sql_update (\<lambda>m. sm_user m = target) ?f (st_members db)). sm_user m = u \<and> sm_revoked m = None \<and> sm_source m \<noteq> FromEnv"
      if m: "m \<in> set (st_members db)" "sm_user m = u" "sm_revoked m = None" "sm_source m \<noteq> FromEnv" for m u
      using m by (intro bexI [of _ "if sm_user m = target then ?f m else m"]) (auto simp: set_sql_update)
    ultimately show ?thesis using assms(1) unfolding staff_good_def overrides_grounded_def by auto
  qed
  moreover have "staff_good (db\<lparr>st_members := st_members db @ [?new]\<rparr>)" if "target \<notin> sm_user ` set (st_members db)"
    using that assms by (auto simp: staff_good_def staff_tables_ok_def overrides_grounded_def keyed_def user_known_def)
  ultimately show ?thesis by (simp add: staff_assign_def Let_def good_mirror)
qed

lemma good_revoke:
  assumes "staff_good db"
  shows "staff_good (fst (staff_revoke None date target db))"
proof -
  let ?db = "db\<lparr>st_members := sql_update (\<lambda>m. sm_user m = target) (\<lambda>m. m\<lparr>sm_revoked := Some date\<rparr>) (st_members db),
     st_overrides := sql_update (\<lambda>r. so_user r = target \<and> so_revoked r = None) (\<lambda>r. r\<lparr>so_revoked := Some date\<rparr>) (st_overrides db)\<rparr>"
  have "staff_tables_ok ?db" using assms by (simp add: staff_good_def staff_tables_ok_def update_keys)
  moreover have "overrides_grounded ?db" unfolding overrides_grounded_def
  proof (intro ballI impI)
    fix r assume "r \<in> set (st_overrides ?db)" and live: "so_revoked r = None"
    then obtain y where y: "y \<in> set (st_overrides db)"
      "r = (if so_user y = target \<and> so_revoked y = None then y\<lparr>so_revoked := Some date\<rparr> else y)"
      by (fastforce simp: set_sql_update simp del: if_split)
    then have no: "\<not> (so_user y = target \<and> so_revoked y = None)" using live by (cases "so_user y = target \<and> so_revoked y = None") simp_all
    then have "r = y" using y(2) by (simp only: if_False)
    then have r: "r \<in> set (st_overrides db)" "so_user r \<noteq> target" using y(1) no live by auto
    then obtain m where m: "m \<in> set (st_members db)" "sm_user m = so_user r" "sm_revoked m = None" "sm_source m \<noteq> FromEnv"
      using assms live by (auto simp: staff_good_def overrides_grounded_def)
    then show "\<exists>m \<in> set (st_members ?db). sm_user m = so_user r \<and> sm_revoked m = None \<and> sm_source m \<noteq> FromEnv"
      using r(2) by (intro bexI [of _ m]) (simp_all add: kept_by_update)
  qed
  ultimately have "staff_good ?db" by (simp add: staff_good_def)
  then have "staff_good (set_mirror MirrorPlain target ?db)" by (rule good_mirror)
  then show ?thesis by (simp add: staff_revoke_def Let_def delete_sessions_where_def good_sessions)
qed

lemma good_override:
  assumes "staff_good db" and "find_active now target db = Some r" and "sr_source r \<noteq> FromEnv" and "fresh \<notin> so_id ` set (st_overrides db)"
  shows "staff_good (fst (replace_override None date fresh target p effect expires actor db))"
proof -
  obtain m where m: "m \<in> set (st_members db)" "sm_user m = target" "sm_revoked m = None" "sm_source m \<noteq> FromEnv"
    using assms(2,3) by (elim find_active_Some) auto
  let ?olds = "sql_update (\<lambda>r. so_user r = target \<and> ov_permission r = p \<and> so_revoked r = None) (\<lambda>r. r\<lparr>so_revoked := Some date\<rparr>) (st_overrides db)"
  have "keyed so_id ?olds" "so_id ` set ?olds = so_id ` set (st_overrides db)" "so_user ` set ?olds = so_user ` set (st_overrides db)"
    using assms(1) by (simp_all add: staff_good_def staff_tables_ok_def update_keys)
  moreover have "\<exists>m \<in> set (st_members db). sm_user m = so_user r \<and> sm_revoked m = None \<and> sm_source m \<noteq> FromEnv"
    if "r \<in> set ?olds" "so_revoked r = None" for r
    using that assms(1) by (auto simp: set_sql_update staff_good_def overrides_grounded_def split: if_splits)
  ultimately show ?thesis
    using assms(1,4) m by (auto simp: replace_override_def staff_good_def staff_tables_ok_def overrides_grounded_def keyed_def)
qed

lemma good_remove: "staff_good db \<Longrightarrow> staff_good (fst (revoke_override None date target i db))"
  by (auto simp: revoke_override_def Let_def staff_good_def staff_tables_ok_def overrides_grounded_def update_keys set_sql_update
      split: if_splits)

lemma good_ban: "staff_good db \<Longrightarrow> staff_good (fst (user_ban None target reason expires db))"
  by (auto simp: user_ban_def delete_sessions_where_def staff_good_def staff_tables_ok_def overrides_grounded_def update_keys)

lemma good_unban: "staff_good db \<Longrightarrow> staff_good (fst (user_unban None target db))"
  by (auto simp: user_unban_def staff_good_def staff_tables_ok_def overrides_grounded_def update_keys)

lemma good_bootstrap:
  assumes "staff_good db" and "user_known user db" and "bootstrap_from_env err date user db = (db', out)"
  shows "staff_good db'"
proof -
  let ?new = "\<lparr>sm_user = user, sm_role = Manager, sm_source = FromEnv, sm_created_by = None, sm_created = date, sm_revoked = None\<rparr>"
  let ?f = "\<lambda>m. m\<lparr>sm_role := Manager, sm_source := FromEnv, sm_revoked := None\<rparr>"
  have "staff_good (db\<lparr>st_members := st_members db @ [?new]\<rparr>)" if "user \<notin> sm_user ` set (st_members db)"
    using that assms(1,2) by (auto simp: staff_good_def staff_tables_ok_def overrides_grounded_def keyed_def user_known_def)
  moreover have "staff_good (db\<lparr>st_members := sql_update (\<lambda>m. sm_user m = user \<and> sm_revoked m \<noteq> None) ?f (st_members db)\<rparr>)"
  proof -
    have "\<exists>m' \<in> set (sql_update (\<lambda>m. sm_user m = user \<and> sm_revoked m \<noteq> None) ?f (st_members db)).
        sm_user m' = u \<and> sm_revoked m' = None \<and> sm_source m' \<noteq> FromEnv"
      if m: "m \<in> set (st_members db)" "sm_user m = u" "sm_revoked m = None" "sm_source m \<noteq> FromEnv" for m u
      using m by (intro bexI [of _ m]) (simp_all add: kept_by_update)
    then show ?thesis using assms(1) by (auto simp: staff_good_def staff_tables_ok_def overrides_grounded_def update_keys)
  qed
  ultimately show ?thesis using assms(1,3) by (auto simp: bootstrap_from_env_def good_mirror split: if_splits)
qed

lemma record_known:
  assumes "record_for x target db = Some r"
  shows "user_known target db"
  using assms by (auto simp: granting_Some user_known_def elim!: find_active_Some intro: rev_image_eqI)

lemma set_override_good:
  assumes "staff_good (aw_staff w)" and "x_fresh x \<notin> so_id ` set (st_overrides (aw_staff w))"
    and e: "set_override x actor perms target p effect expires w = Inr (u, w')"
  shows "staff_good (overridden x target p effect expires actor (aw_staff w))"
proof -
  obtain r where r: "record_for x target (aw_staff w) = Some r" using set_override_effect(5) [OF e] by blast
  then have f: "find_active (x_date x) target (aw_staff w) = Some r" "grants_staff_access (sr_user r) (sr_source r) (x_staff_env x)"
    by (simp_all add: granting_Some)
  then have "sr_source r \<noteq> FromEnv"
    using set_override_effect(2) [OF e] by (auto simp: is_listed_def grants_staff_access_def elim!: find_active_Some)
  then show ?thesis using good_override [OF assms(1) f(1) _ assms(2)] by blast
qed

lemma call_good:
  assumes "staff_good (aw_staff w)" and "x_fresh x \<notin> so_id ` set (st_overrides (aw_staff w))"
    and "staff_call_tx x actor perms target c w = Inr (u, w')"
  shows "staff_good (aw_staff w')"
proof (cases c)
  case (AssignRole role expected)
  then have "assign_role x actor perms target role expected w = Inr (u, w')" using assms(3) by (simp add: staff_call_tx_def)
  from assign_effect(4) [OF this] show ?thesis using assms(1) record_known good_assign good_cut by metis
next
  case RevokeStaff
  then have "revoke_staff x actor target w = Inr (u, w')" using assms(3) by (simp add: staff_call_tx_def)
  from revoke_effect(4) [OF this] show ?thesis using assms(1) by (simp add: good_revoke)
next
  case (SetOverride p effect expires)
  then have e: "set_override x actor perms target p effect expires w = Inr (u, w')" using assms(3) by (simp add: staff_call_tx_def)
  show ?thesis using set_override_effect(6) [OF e] set_override_good [OF assms(1,2) e] by (simp add: Let_def good_cut)
next
  case (RemoveOverride i)
  then have "remove_override x actor perms target i w = Inr (u, w')" using assms(3) by (simp add: staff_call_tx_def)
  from remove_override_effect(4) [OF this] show ?thesis using assms(1) by (simp add: Let_def good_cut good_remove)
next
  case (BanUser reason expires_in)
  then have "moderate_ban x perms target (moderation_ban x actor target reason expires_in) w = Inr (u, w')"
    using assms(3) by (simp add: staff_call_tx_def)
  from ban_effect(3) [OF this] show ?thesis using assms(1) good_ban by auto
next
  case UnbanUser
  then have "moderation_unban x actor target w = Inr (u, w')" using assms(3) by (simp add: staff_call_tx_def tx_simps)
  from unban_effect [OF this] show ?thesis using assms(1) by (simp add: good_unban)
next
  case RevokeSessions
  then have "moderation_revoke_sessions x actor target w = Inr (u, w')" using assms(3) by (simp add: staff_call_tx_def tx_simps)
  from sessions_ended_effect(1) [OF this] show ?thesis using assms(1) by (simp add: good_sessions)
next
  case ResetPassword
  then have "moderation_reset_password x actor target w = Inr (u, w')" using assms(3) by (simp add: staff_call_tx_def tx_simps)
  from sessions_ended_effect(2) [OF this] show ?thesis using assms(1) by (simp add: good_sessions)
qed

section \<open>The last manager stays\<close>

lemma able_sessions [simp]: "able_to_manage env date (db\<lparr>st_sessions := s\<rparr>) u \<longleftrightarrow> able_to_manage env date db u"
  by (simp add: able_to_manage_def manage_denied_def)

lemma able_cut [simp]: "able_to_manage env date (sessions_cut lost target db) u \<longleftrightarrow> able_to_manage env date db u"
  by (simp add: sessions_cut_def)

lemma able_record:
  assumes "staff_good db" and "able_to_manage env date db u"
  obtains r where "granting env (find_active date u db) = Some r" and "sr_role r = Manager"
    and "u \<notin> set (PLATFORM_ADMIN_IDS env) \<longrightarrow> StaffManage \<in> set (permissions_of_record r date)"
proof -
  obtain m a where m: "m \<in> set (st_members db)" "sm_user m = u" "sm_role m = Manager" "sm_revoked m = None"
      "grants_staff_access u (sm_source m) env" "a \<in> set (st_users db)" "us_id a = u"
    and d: "\<not> manage_denied date u db \<or> u \<in> set (PLATFORM_ADMIN_IDS env)"
    using assms(2) by (auto simp: able_to_manage_def)
  let ?r = "\<lparr>sr_user = u, sr_role = sm_role m, sr_source = sm_source m, sr_banned = ban_is_live (us_banned a) (us_ban_expires a) date,
     sr_overrides = map override_of (filter (\<lambda>r. so_user r = u \<and> so_revoked r = None) (st_overrides db))\<rparr>"
  have "find_active date u db = Some ?r"
    using find_active_of [of db m a date] assms(1) m by (simp add: staff_good_def)
  then have "granting env (find_active date u db) = Some ?r" using m(5) by (simp add: granting_Some)
  moreover have "StaffManage \<in> set (permissions_of_record ?r date)" if "u \<notin> set (PLATFORM_ADMIN_IDS env)"
    using d that m(3) by (auto simp: permissions_of_record_def permission_simps manage_denied_def list_ex_iff override_of_def
        staff_override.truncate_def override_live_def)
  ultimately show thesis using m(3) by (intro that [of ?r]) simp_all
qed

lemma able_after_override:
  assumes "able_to_manage env date db target" and "\<not> (effect = Deny \<and> p = StaffManage)"
  shows "able_to_manage env date (fst (replace_override None now fresh target p effect expires actor db)) target"
  using assms by (auto simp: able_to_manage_def replace_override_def manage_denied_def list_ex_iff set_sql_update split: if_splits)

lemma able_after_removal:
  "able_to_manage env date db u \<Longrightarrow> able_to_manage env date (fst (revoke_override None now target i db)) u"
  by (auto simp: able_to_manage_def revoke_override_def Let_def manage_denied_def list_ex_iff set_sql_update split: if_splits)

lemma in_updateE:
  assumes "b \<in> set (sql_update p f t)"
  obtains "b \<in> set t" and "\<not> p b" | a where "a \<in> set t" and "p a" and "b = f a"
  using assms by (induction t) (auto simp: sql_update_def split: if_splits)

lemma bex_update: "a \<in> set t \<Longrightarrow> Q (if p a then f a else a) \<Longrightarrow> \<exists>b \<in> set (sql_update p f t). Q b"
  by (induction t) (auto simp: sql_update_def)

lemma bex_update_iff: "(\<And>r. Q (f r) = Q r) \<Longrightarrow> (\<exists>b \<in> set (sql_update p f t). Q b) = (\<exists>b \<in> set t. Q b)"
  by (induction t) (auto simp: sql_update_def)

lemma able_after_unban:
  assumes "able_to_manage env date db u"
  shows "able_to_manage env date (fst (user_unban None target db)) u"
proof -
  obtain a where a: "a \<in> set (st_users db)" "us_id a = u" "still_counts_as_manager a date"
    using assms by (auto simp: able_to_manage_def)
  have "\<exists>b \<in> set (sql_update (\<lambda>u. us_id u = target \<and> us_banned u)
          (\<lambda>u. u\<lparr>us_banned := False, us_ban_reason := None, us_ban_expires := None\<rparr>) (st_users db)).
        us_id b = u \<and> still_counts_as_manager b date"
    using a by (intro bex_update [of a]) (simp_all add: still_counts_as_manager_def ban_is_live_def)
  then show ?thesis using assms by (simp add: user_unban_def able_to_manage_def manage_denied_def)
qed

lemma call_keeps_a_manager:
  assumes "staff_good (aw_staff w)" and "staff_call_tx x actor perms target c w = Inr (u, w')"
    and "able_to_manage (x_staff_env x) (x_date x) (aw_staff w) v"
  shows "\<exists>v. able_to_manage (x_staff_env x) (x_date x) (aw_staff w') v"
proof (cases "\<exists>v. v \<noteq> target \<and> able_to_manage (x_staff_env x) (x_date x) (aw_staff w) v")
  case True
  then obtain v' where v: "v' \<noteq> target" "able_to_manage (x_staff_env x) (x_date x) (aw_staff w) v'" by (elim exE conjE)
  show ?thesis using v(2) by (intro exI [of _ v']) (simp add: able_other [OF call_touches_target_only [OF assms(2)] v(1)])
next
  case False
  then have last: "last_manager x target (aw_staff w)" by (simp add: is_last_manager_able)
  have able: "able_to_manage (x_staff_env x) (x_date x) (aw_staff w) target"
  proof (cases "v = target")
    case True
    then show ?thesis using assms(3) by (simp only:)
  next
    case other: False
    have "\<exists>v. v \<noteq> target \<and> able_to_manage (x_staff_env x) (x_date x) (aw_staff w) v" by (intro exI [of _ v] conjI other assms(3))
    then show ?thesis using False by (rule notE [rotated])
  qed
  then obtain r where r: "record_for x target (aw_staff w) = Some r" "sr_role r = Manager"
    "target \<notin> set (PLATFORM_ADMIN_IDS (x_staff_env x)) \<longrightarrow> StaffManage \<in> set (permissions_of_record r (x_date x))"
    by (rule able_record [OF assms(1)])
  have "able_to_manage (x_staff_env x) (x_date x) (aw_staff w') target"
  proof (cases c)
    case (AssignRole role expected)
    then have "assign_role x actor perms target role expected w = Inr (u, w')" using assms(2) by (simp add: staff_call_tx_def)
    from assign_effect(4) [OF this] show ?thesis using r(1,2) last able by auto
  next
    case RevokeStaff
    then have "revoke_staff x actor target w = Inr (u, w')" using assms(2) by (simp add: staff_call_tx_def)
    from revoke_effect(3) [OF this] show ?thesis using r(1,2) last by auto
  next
    case (SetOverride p effect expires)
    then have e: "set_override x actor perms target p effect expires w = Inr (u, w')" using assms(2) by (simp add: staff_call_tx_def)
    have "\<not> (effect = Deny \<and> p = StaffManage)"
      using set_override_effect(2,5) [OF e] r last by (auto simp: is_listed_def)
    then show ?thesis using set_override_effect(6) [OF e] able_after_override [OF able] by (simp add: Let_def)
  next
    case (RemoveOverride i)
    then have "remove_override x actor perms target i w = Inr (u, w')" using assms(2) by (simp add: staff_call_tx_def)
    from remove_override_effect(4) [OF this] show ?thesis using able by (simp add: Let_def able_after_removal)
  next
    case (BanUser reason expires_in)
    then have "moderate_ban x perms target (moderation_ban x actor target reason expires_in) w = Inr (u, w')"
      using assms(2) by (simp add: staff_call_tx_def)
    from ban_effect(2) [OF this] show ?thesis using r(1,2) last by auto
  next
    case UnbanUser
    then have "moderation_unban x actor target w = Inr (u, w')" using assms(2) by (simp add: staff_call_tx_def tx_simps)
    from unban_effect [OF this] show ?thesis using able by (simp add: able_after_unban)
  next
    case RevokeSessions
    then have "moderation_revoke_sessions x actor target w = Inr (u, w')" using assms(2) by (simp add: staff_call_tx_def tx_simps)
    from sessions_ended_effect(1) [OF this] show ?thesis using able by simp
  next
    case ResetPassword
    then have "moderation_reset_password x actor target w = Inr (u, w')" using assms(2) by (simp add: staff_call_tx_def tx_simps)
    from sessions_ended_effect(2) [OF this] show ?thesis using able by simp
  qed
  then show ?thesis by (rule exI)
qed

text \<open>
  Everything that happens to the staff: a call of the administration, committed or not, the bootstrap
  of a listed person, and time. A call that changes who manages locks the managers first, so calls
  take their turns.
\<close>

inductive staff_step :: "staff_env \<Rightarrow> instant \<times> staff_db \<Rightarrow> instant \<times> staff_db \<Rightarrow> bool"
  for env :: staff_env where
  called: "x_staff_env x = env \<Longrightarrow> x_fresh x \<notin> so_id ` set (st_overrides (aw_staff w)) \<Longrightarrow>
     run_tx (x_commit_error x) (staff_call_tx x actor perms target c) (w :: staff_world) = (w', out) \<Longrightarrow>
     staff_step env (x_date x, aw_staff w) (x_date x, aw_staff w')"
| bootstrapped: "user_known user db \<Longrightarrow> bootstrap_from_env err date user db = (db', out) \<Longrightarrow> staff_step env (date, db) (date, db')"
| waited: "date \<le> later \<Longrightarrow> staff_step env (date, db) (later, db)"

lemma run_tx_cases:
  assumes "run_tx commit_error body w = (w', out)"
  obtains "w' = w" | u where "body w = Inr (u, w')" and "commit_error = None"
  using assms by (auto simp: run_tx_def split: sum.splits exit.splits option.splits prod.splits)

lemma able_mirror [simp]: "able_to_manage env date (set_mirror v target db) u \<longleftrightarrow> able_to_manage env date db u"
proof -
  have "(\<exists>a \<in> set (sql_update (\<lambda>u. us_id u = target) (\<lambda>u. u\<lparr>us_role := v\<rparr>) (st_users db)). us_id a = u \<and> still_counts_as_manager a date)
     \<longleftrightarrow> (\<exists>a \<in> set (st_users db). us_id a = u \<and> still_counts_as_manager a date)"
    by (rule bex_update_iff) (simp add: still_counts_as_manager_def)
  then show ?thesis by (simp add: able_to_manage_def manage_denied_def set_mirror_def)
qed

lemma able_after_bootstrap:
  assumes "staff_good db" and "bootstrap_from_env err date user db = (db', out)" and "able_to_manage env date db u"
  shows "able_to_manage env date db' u"
proof -
  obtain m where m: "m \<in> set (st_members db)" "sm_user m = u" "sm_role m = Manager" "sm_revoked m = None"
      "grants_staff_access u (sm_source m) env"
    using assms(3) by (auto simp: able_to_manage_def)
  have d: "able_to_manage env date (db\<lparr>st_members := t\<rparr>) u" if "m \<in> set t" for t
    using that m assms(3) by (auto simp: able_to_manage_def manage_denied_def)
  have "m \<in> set (sql_update (\<lambda>m. sm_user m = user \<and> sm_revoked m \<noteq> None) f (st_members db))" for f
    using m by (intro kept_by_update) simp_all
  then show ?thesis using assms(2,3) m(1) by (auto simp: bootstrap_from_env_def d split: if_splits)
qed

lemma step_keeps_a_manager:
  assumes "staff_step env (t, db) (t', db')" and "staff_good db" and "able_to_manage env t db u"
  shows "staff_good db' \<and> (\<exists>u. able_to_manage env t' db' u)"
  using assms
proof (cases rule: staff_step.cases)
  case (called x w actor perms target c w' out)
  from called(7) show ?thesis
  proof (cases rule: run_tx_cases)
    case 1
    then show ?thesis using called assms(2,3) by auto
  next
    case (2 v)
    have "staff_good (aw_staff w')" using call_good [OF _ called(6) 2(1)] called(2) assms(2) by simp
    moreover have "\<exists>u. able_to_manage (x_staff_env x) (x_date x) (aw_staff w') u"
      using call_keeps_a_manager [OF _ 2(1)] called assms(2,3) by simp
    ultimately show ?thesis using called by simp
  qed
next
  case (bootstrapped user err out)
  then show ?thesis using good_bootstrap [OF assms(2)] able_after_bootstrap [OF assms(2)] assms(3) by blast
next
  case waited
  then show ?thesis using able_later [OF assms(3)] assms(2) by blast
qed

lemma manager_record_holds:
  assumes "staff_good db" and "able_to_manage env date db u"
  shows "\<exists>a. staff_access_of u two_factor (find_active date u db) env date = Some a \<and> StaffManage \<in> set (sa_permissions a)"
proof -
  obtain r where "granting env (find_active date u db) = Some r"
    "u \<notin> set (PLATFORM_ADMIN_IDS env) \<longrightarrow> StaffManage \<in> set (permissions_of_record r date)"
    using able_record [OF assms] by metis
  then show ?thesis
    by (cases "u \<in> set (PLATFORM_ADMIN_IDS env)") (auto simp: staff_access_of_def granting_Some Let_def permission_simps)
qed

text \<open>A platform of two: a manager and a support agent, who is looking at a customer's account.\<close>

definition example_staff :: staff_world where
  "example_staff = \<lparr>aw_staff = \<lparr>
     st_members =
       [\<lparr>sm_user = ''boss'', sm_role = Manager, sm_source = FromConsole, sm_created_by = None, sm_created = 0, sm_revoked = None\<rparr>,
        \<lparr>sm_user = ''help'', sm_role = Support, sm_source = FromConsole, sm_created_by = Some ''boss'', sm_created = 5, sm_revoked = None\<rparr>],
     st_overrides = [],
     st_users = map (\<lambda>i. \<lparr>us_id = i, us_role = MirrorPlain, us_banned = False, us_ban_reason = None, us_ban_expires = None,
                           us_deleted = None, us_pending_deletion = None\<rparr>) [''boss'', ''help'', ''cust''],
     st_sessions = [\<lparr>se_id = ''s1'', se_user = ''cust'', se_impersonated_by = Some ''help'', se_created = 8, se_expires = 90\<rparr>]\<rparr>,
     aw_outbox = \<lparr>outbox_rows = [], notified = 0\<rparr>\<rparr>"

definition example_call :: call_env where
  "example_call = \<lparr>x_staff_env = \<lparr>PLATFORM_ADMIN_IDS = [], PLATFORM_ADMIN_REQUIRE_MFA = False\<rparr>,
     x_schema = (\<lambda>_. Some (\<lambda>_. None)), x_error = (\<lambda>_. None),
     x_emit = (\<lambda>n. \<lparr>et_db_error = None, et_request = None, et_fresh = show_nat n, et_date = 10\<rparr>),
     x_date = 10, x_fresh = ''o1'', x_iso = (\<lambda>_. ''then''), x_commit_error = None\<rparr>"

abbreviation after_call :: "staff_call \<Rightarrow> ident \<Rightarrow> staff_world" where
  "after_call c target \<equiv>
     fst (run_tx (x_commit_error example_call) (staff_call_tx example_call ''boss'' STAFF_PERMISSIONS target c) example_staff)"

lemma example_staff_good: "staff_good (aw_staff example_staff)"
  by code_simp

lemma example_fresh: "x_fresh example_call \<notin> so_id ` set (st_overrides (aw_staff example_staff))"
  by code_simp

lemma example_step:
  "staff_step (x_staff_env example_call) (10, aw_staff example_staff) (10, aw_staff (after_call c target))"
proof -
  have "x_date example_call = 10" by (simp add: example_call_def)
  then show ?thesis
    using staff_step.called [of example_call "x_staff_env example_call" example_staff "''boss''" STAFF_PERMISSIONS target c
        "after_call c target", OF refl example_fresh surjective_pairing] by simp
qed

text \<open>
  C21: whatever the staff do to each other, in whatever order, with whichever of the calls failing,
  and however long it takes, someone is left who may manage the staff: an account neither banned nor
  going, whose access holds that power.
\<close>

theorem manager_never_lost:
  assumes "(staff_step env)\<^sup>*\<^sup>* (t, db) (t', db')" and "staff_good db" and "able_to_manage env t db u"
  shows "\<exists>u. able_to_manage env t' db' u
    \<and> (\<exists>a. staff_access_of u two_factor (find_active t' u db') env t' = Some a \<and> StaffManage \<in> set (sa_permissions a))"
proof -
  have "staff_good db' \<and> (\<exists>u. able_to_manage env t' db' u)"
    using assms(1) by (induction rule: rtranclp_induct2) (use assms(2,3) step_keeps_a_manager in blast)+
  then show ?thesis using manager_record_holds by blast
qed

theorem manager_never_lost_witness:
  "\<exists>u. able_to_manage (x_staff_env example_call) 11 (aw_staff (after_call RevokeStaff ''help'')) u
    \<and> (\<exists>a. staff_access_of u None (find_active 11 u (aw_staff (after_call RevokeStaff ''help''))) (x_staff_env example_call) 11 = Some a
         \<and> StaffManage \<in> set (sa_permissions a))"
proof (rule manager_never_lost [where t = 10 and db = "aw_staff example_staff" and u = "''boss''"])
  show "(staff_step (x_staff_env example_call))\<^sup>*\<^sup>* (10, aw_staff example_staff) (11, aw_staff (after_call RevokeStaff ''help''))"
    by (rule converse_rtranclp_into_rtranclp, rule example_step, rule r_into_rtranclp, rule staff_step.waited, simp)
  show "staff_good (aw_staff example_staff)" by (rule example_staff_good)
  show "able_to_manage (x_staff_env example_call) 10 (aw_staff example_staff) ''boss''" by code_simp
qed

end
