(* ===== verification/Staff_Powers.thy ===== *)
theory Staff_Powers
  imports Staff_Correct
begin

text \<open>
  What the administration of staff guarantees, second part: what a person holds, that nobody gives what
  they do not hold, and that a power lost takes with it the sessions opened by it.
\<close>

section \<open>What a person holds\<close>

definition holds :: "staff_env \<Rightarrow> instant \<Rightarrow> staff_db \<Rightarrow> ident \<Rightarrow> staff_permission \<Rightarrow> bool" where
  "holds env date db u p \<longleftrightarrow> (case staff_access_of u None (find_active date u db) env date of
     None \<Rightarrow> False | Some a \<Rightarrow> p \<in> set (sa_permissions a))"

definition live_override :: "instant \<Rightarrow> ident \<Rightarrow> staff_permission \<Rightarrow> override_effect \<Rightarrow> override_row \<Rightarrow> bool" where
  "live_override date u p e r \<longleftrightarrow>
     so_user r = u \<and> so_revoked r = None \<and> ov_permission r = p \<and> ov_effect r = e \<and> override_live date r"

definition row_holds :: "staff_env \<Rightarrow> instant \<Rightarrow> staff_db \<Rightarrow> ident \<Rightarrow> staff_permission \<Rightarrow> staff_member \<Rightarrow> bool" where
  "row_holds env date db u p m \<longleftrightarrow>
     sm_user m = u \<and> sm_revoked m = None \<and> grants_staff_access u (sm_source m) env
   \<and> (p \<in> set (permissions_of_role (sm_role m)) \<or> (\<exists>r \<in> set (st_overrides db). live_override date u p Grant r))
   \<and> \<not> (\<exists>r \<in> set (st_overrides db). live_override date u p Deny r)"

lemma permissions_of_found:
  assumes "sr_role r = sm_role m"
    and "sr_overrides r = map override_of (filter (\<lambda>r. so_user r = u \<and> so_revoked r = None) (st_overrides db))"
  shows "p \<in> set (permissions_of_record r date) \<longleftrightarrow>
     (p \<in> set (permissions_of_role (sm_role m)) \<or> (\<exists>r \<in> set (st_overrides db). live_override date u p Grant r))
   \<and> \<not> (\<exists>r \<in> set (st_overrides db). live_override date u p Deny r)"
proof -
  have "(\<exists>o' \<in> set (sr_overrides r). override_live date o' \<and> ov_effect o' = e \<and> ov_permission o' = p)
     \<longleftrightarrow> (\<exists>r \<in> set (st_overrides db). live_override date u p e r)" for e
    unfolding assms(2) by (auto simp: override_of_def staff_override.truncate_def live_override_def override_live_def)
  then show ?thesis by (simp add: permissions_of_record_def permission_simps assms(1))
qed

lemma holds_listed: "u \<in> set (PLATFORM_ADMIN_IDS env) \<Longrightarrow> holds env date db u p"
  by (simp add: holds_def staff_access_of_def Let_def permission_simps)

lemma holds_granting:
  "u \<notin> set (PLATFORM_ADMIN_IDS env) \<Longrightarrow>
     holds env date db u p \<longleftrightarrow> (\<exists>r. granting env (find_active date u db) = Some r \<and> p \<in> set (permissions_of_record r date))"
  by (auto simp: holds_def staff_access_of_def granting_def Let_def split: option.splits)

lemma holds_iff:
  assumes "staff_tables_ok db" and "u \<notin> set (PLATFORM_ADMIN_IDS env)"
  shows "holds env date db u p \<longleftrightarrow> (\<exists>m \<in> set (st_members db). row_holds env date db u p m)"
proof
  assume "holds env date db u p"
  then obtain r where r: "granting env (find_active date u db) = Some r" "p \<in> set (permissions_of_record r date)"
    using holds_granting [OF assms(2)] by blast
  from r(1) have f: "find_active date u db = Some r" and g: "grants_staff_access (sr_user r) (sr_source r) env"
    by (simp_all add: granting_Some)
  from f obtain m where m: "m \<in> set (st_members db)" "sm_user m = u" "sm_revoked m = None" "sr_user r = u" "sr_role r = sm_role m"
    "sr_source r = sm_source m" "sr_overrides r = map override_of (filter (\<lambda>r. so_user r = u \<and> so_revoked r = None) (st_overrides db))"
    by (rule find_active_Some) simp
  show "\<exists>m \<in> set (st_members db). row_holds env date db u p m"
    by (rule bexI [of _ m]) (use m g r(2) permissions_of_found [OF m(5,7)] in \<open>simp_all add: row_holds_def\<close>)
next
  assume "\<exists>m \<in> set (st_members db). row_holds env date db u p m"
  then obtain m where m: "m \<in> set (st_members db)" "row_holds env date db u p m" by blast
  then have mm: "sm_user m = u" "sm_revoked m = None" "grants_staff_access u (sm_source m) env" by (simp_all add: row_holds_def)
  have "u \<in> us_id ` set (st_users db)" using assms(1) m(1) mm(1) by (auto simp: staff_tables_ok_def)
  then obtain a where a: "a \<in> set (st_users db)" "us_id a = sm_user m" using mm(1) by auto
  let ?r = "\<lparr>sr_user = sm_user m, sr_role = sm_role m, sr_source = sm_source m,
     sr_banned = ban_is_live (us_banned a) (us_ban_expires a) date,
     sr_overrides = map override_of (filter (\<lambda>r. so_user r = sm_user m \<and> so_revoked r = None) (st_overrides db))\<rparr>"
  have "granting env (find_active date u db) = Some ?r"
    using find_active_of [OF assms(1) m(1) mm(2) a] mm by (simp add: granting_Some)
  moreover have "p \<in> set (permissions_of_record ?r date)"
    using m(2) mm(1) permissions_of_found [of ?r m u db p date] by (simp add: row_holds_def)
  ultimately show "holds env date db u p" using holds_granting [OF assms(2)] by blast
qed

lemma holds_rowE:
  assumes "holds env date db u p" and "staff_tables_ok db" and "u \<notin> set (PLATFORM_ADMIN_IDS env)"
  obtains m where "m \<in> set (st_members db)" and "row_holds env date db u p m"
proof -
  have "\<exists>m \<in> set (st_members db). row_holds env date db u p m" using assms(1) holds_iff [OF assms(2,3), of date p] by (simp only:)
  then show thesis by (elim bexE that)
qed

lemma holds_rowI:
  "staff_tables_ok db \<Longrightarrow> u \<notin> set (PLATFORM_ADMIN_IDS env) \<Longrightarrow> m \<in> set (st_members db) \<Longrightarrow> row_holds env date db u p m \<Longrightarrow>
     holds env date db u p"
  by (subst holds_iff) (assumption, assumption, rule bexI)

lemma holds_other:
  assumes "others_same target db db'" and "u \<noteq> target"
  shows "holds env date db' u p \<longleftrightarrow> holds env date db u p"
  by (simp add: holds_def find_active_other [OF assms])

text \<open>Accounts and sessions have no part in it.\<close>

lemma holds_sessions [simp]: "holds env date (db\<lparr>st_sessions := s\<rparr>) u p \<longleftrightarrow> holds env date db u p"
proof -
  have "find_active date u (db\<lparr>st_sessions := s\<rparr>) = find_active date u db"
    by (simp add: find_active_def cong: option.case_cong)
  then show ?thesis by (simp add: holds_def)
qed

lemma holds_cut [simp]: "holds env date (sessions_cut lost target db) u p \<longleftrightarrow> holds env date db u p"
  by (simp add: sessions_cut_def)

lemma holds_same_rows:
  assumes "staff_tables_ok db" and "staff_tables_ok db'" and "st_members db' = st_members db" and "st_overrides db' = st_overrides db"
  shows "holds env date db' u p \<longleftrightarrow> holds env date db u p"
  by (cases "u \<in> set (PLATFORM_ADMIN_IDS env)") (simp_all add: holds_listed holds_iff assms row_holds_def)

section \<open>Nobody gives what they do not hold\<close>

lemma grounded_row:
  assumes "staff_good db" and "r \<in> set (st_overrides db)" and "live_override date u p e r"
  obtains m where "m \<in> set (st_members db)" and "sm_user m = u" and "sm_revoked m = None" and "grants_staff_access u (sm_source m) env"
proof -
  obtain m where "m \<in> set (st_members db)" "sm_user m = u" "sm_revoked m = None" "sm_source m \<noteq> FromEnv"
    using assms by (auto simp: staff_good_def overrides_grounded_def live_override_def)
  then show thesis by (intro that [of m]) (simp_all add: grants_staff_access_def)
qed

lemma assign_gives:
  assumes "staff_good db" and "user_known target db" and "target \<notin> set (PLATFORM_ADMIN_IDS env)"
    and "holds env date (fst (staff_assign None now target role actor db)) target p" and "p \<notin> set (permissions_of_role role)"
  shows "holds env date db target p"
proof -
  let ?db = "fst (staff_assign None now target role actor db)"
  have ok: "staff_tables_ok ?db" "staff_tables_ok db"
    using good_assign [OF assms(1,2)] assms(1) by (simp_all add: staff_good_def)
  have ov: "st_overrides ?db = st_overrides db" by (simp add: staff_assign_def Let_def set_mirror_def)
  have role: "sm_role m = role" if "m \<in> set (st_members ?db)" "sm_user m = target" for m
  proof (cases "target \<in> sm_user ` set (st_members db)")
    case True
    then have "m \<in> set (sql_update (\<lambda>m. sm_user m = target)
        (\<lambda>m. m\<lparr>sm_role := role, sm_source := FromConsole, sm_created_by := Some actor, sm_revoked := None\<rparr>) (st_members db))"
      using that(1) by (simp add: staff_assign_def Let_def set_mirror_def)
    then show ?thesis by (rule in_updateE) (use that(2) in simp_all)
  next
    case False
    then have "m \<notin> set (st_members db)" using that(2) by blast
    then show ?thesis using False that(1) by (simp add: staff_assign_def Let_def set_mirror_def)
  qed
  obtain m' where m': "m' \<in> set (st_members ?db)" "row_holds env date ?db target p m'"
    using assms(4) ok(1) assms(3) by (rule holds_rowE)
  then have d: "\<not> (\<exists>r \<in> set (st_overrides db). live_override date target p Deny r)"
    and g: "\<exists>r \<in> set (st_overrides db). live_override date target p Grant r"
    using assms(5) role by (auto simp: row_holds_def ov)
  then obtain r where r: "r \<in> set (st_overrides db)" "live_override date target p Grant r" by blast
  obtain m where m: "m \<in> set (st_members db)" "sm_user m = target" "sm_revoked m = None" "grants_staff_access target (sm_source m) env"
    using assms(1) r by (rule grounded_row)
  have "row_holds env date db target p m" unfolding row_holds_def by (intro conjI m d disjI2 g)
  then show ?thesis by (rule holds_rowI [OF ok(2) assms(3) m(1)])
qed

lemma override_gives:
  assumes "staff_tables_ok db" and "staff_tables_ok (fst (replace_override None now fresh target q e expires actor db))"
    and "target \<notin> set (PLATFORM_ADMIN_IDS env)"
    and "holds env date (fst (replace_override None now fresh target q e expires actor db)) target p"
    and "p = q \<Longrightarrow> e = Deny \<and> (case expires of None \<Rightarrow> True | Some t \<Rightarrow> date < t)"
  shows "holds env date db target p"
proof -
  let ?db = "fst (replace_override None now fresh target q e expires actor db)"
  obtain m where m: "m \<in> set (st_members ?db)" "row_holds env date ?db target p m"
    using assms(4,2,3) by (rule holds_rowE)
  let ?new = "\<lparr>ov_permission = q, ov_effect = e, ov_expires = expires, so_id = fresh, so_user = target,
                  so_created_by = actor, so_created = now, so_revoked = None\<rparr>"
  have "?new \<in> set (st_overrides ?db)" by (simp add: replace_override_def)
  then have "\<not> live_override date target p Deny ?new" using m(2) by (auto simp: row_holds_def)
  then have pq: "p \<noteq> q" using assms(5) by (auto simp: live_override_def override_live_def)
  have "(\<exists>r \<in> set (st_overrides ?db). live_override date target p e' r) = (\<exists>r \<in> set (st_overrides db). live_override date target p e' r)" for e'
  proof -
    have "(\<exists>r \<in> set (sql_update (\<lambda>r. so_user r = target \<and> ov_permission r = q \<and> so_revoked r = None) (\<lambda>r. r\<lparr>so_revoked := Some now\<rparr>) t). live_override date target p e' r)
       = (\<exists>r \<in> set t. live_override date target p e' r)" for t
      using pq by (induction t) (auto simp: sql_update_def live_override_def)
    then show ?thesis using pq by (simp add: replace_override_def live_override_def)
  qed
  then have "row_holds env date db target p m" using m(2) by (simp add: row_holds_def)
  moreover have "m \<in> set (st_members db)" using m(1) by (simp add: replace_override_def)
  ultimately show ?thesis by (intro holds_rowI [OF assms(1,3)])
qed

lemma removal_gives:
  assumes "staff_tables_ok db" and "staff_tables_ok (fst (revoke_override None now target i db))"
    and "target \<notin> set (PLATFORM_ADMIN_IDS env)"
    and "holds env date (fst (revoke_override None now target i db)) target p"
    and "List.find (\<lambda>r. so_id r = i \<and> so_user r = target \<and> so_revoked r = None) (st_overrides db) = Some gone"
    and "ov_permission gone = p \<Longrightarrow> ov_effect gone \<noteq> Deny"
  shows "holds env date db target p"
proof -
  let ?db = "fst (revoke_override None now target i db)"
  obtain m where m: "m \<in> set (st_members ?db)" "row_holds env date ?db target p m"
    using assms(4,2,3) by (rule holds_rowE)
  have gone: "gone \<in> set (st_overrides db)" "so_id gone = i"
    using assms(5) by (auto simp: find_Some_iff)
  have sub: "r \<in> set (st_overrides db)" if "r \<in> set (st_overrides ?db)" "live_override date target p e r" for r e
  proof -
    have "r \<in> set (sql_update (\<lambda>r. so_id r = i \<and> so_user r = target \<and> so_revoked r = None) (\<lambda>r. r\<lparr>so_revoked := Some now\<rparr>) (st_overrides db))"
      using that(1) by (simp add: revoke_override_def Let_def)
    then show ?thesis by (rule in_updateE) (use that(2) in \<open>simp_all add: live_override_def\<close>)
  qed
  have stay: "r \<in> set (st_overrides ?db)" if "r \<in> set (st_overrides db)" "live_override date target p Deny r" for r
  proof -
    have "so_id r \<noteq> i"
    proof
      assume "so_id r = i"
      then have "r = gone" using that(1) gone assms(1) by (auto simp: staff_tables_ok_def keyed_def distinct_map inj_on_def)
      then show False using that(2) assms(6) by (simp add: live_override_def)
    qed
    then show ?thesis using that(1) by (simp add: revoke_override_def Let_def kept_by_update)
  qed
  have "\<exists>r \<in> set (st_overrides db). live_override date target p Grant r"
    if "\<exists>r \<in> set (st_overrides ?db). live_override date target p Grant r"
    using that sub by (elim bexE) (rule bexI)
  moreover have "\<exists>r \<in> set (st_overrides ?db). live_override date target p Deny r"
    if "\<exists>r \<in> set (st_overrides db). live_override date target p Deny r"
    using that stay by (elim bexE) (rule bexI)
  ultimately have "row_holds env date db target p m" using m(2) unfolding row_holds_def by argo
  moreover have "m \<in> set (st_members db)" using m(1) by (simp add: revoke_override_def Let_def)
  ultimately show ?thesis by (intro holds_rowI [OF assms(1,3)])
qed

text \<open>A call that only writes accounts or sessions moves no permission.\<close>

lemma rows_ban: "st_members (fst (user_ban None target reason expires db)) = st_members db"
    "st_overrides (fst (user_ban None target reason expires db)) = st_overrides db"
  by (simp_all add: user_ban_def delete_sessions_where_def)

lemma rows_unban: "st_members (fst (user_unban None target db)) = st_members db"
    "st_overrides (fst (user_unban None target db)) = st_overrides db"
  by (simp_all add: user_unban_def)

lemma rows_revoke:
  assumes "m \<in> set (st_members (fst (staff_revoke None date target db)))"
  shows "\<not> (sm_user m = target \<and> sm_revoked m = None)"
proof -
  have "m \<in> set (sql_update (\<lambda>m. sm_user m = target) (\<lambda>m. m\<lparr>sm_revoked := Some date\<rparr>) (st_members db))"
    using assms by (simp add: staff_revoke_def Let_def delete_sessions_where_def set_mirror_def)
  then show ?thesis by (rule in_updateE) simp_all
qed

lemma revoked_holds_nothing:
  assumes "staff_good db" and "target \<notin> set (PLATFORM_ADMIN_IDS env)"
  shows "\<not> holds env later (fst (staff_revoke None date target db)) target p"
proof
  assume "holds env later (fst (staff_revoke None date target db)) target p"
  then obtain m where "m \<in> set (st_members (fst (staff_revoke None date target db)))"
    "row_holds env later (fst (staff_revoke None date target db)) target p m"
    using good_revoke [OF assms(1)] assms(2) unfolding staff_good_def by (elim holds_rowE) simp_all
  then show False using rows_revoke [of m date target db] by (simp add: row_holds_def)
qed

text \<open>When a call of an author who holds \<open>perms\<close> may leave somebody with more than before.\<close>

definition denial_over :: "staff_call \<Rightarrow> instant \<Rightarrow> bool" where
  "denial_over c t \<longleftrightarrow> (case c of SetOverride p effect expires \<Rightarrow> effect = Deny \<and> (case expires of None \<Rightarrow> False | Some e \<Rightarrow> e \<le> t) | _ \<Rightarrow> False)"

lemma call_gives:
  assumes "staff_good (aw_staff w)" and "x_fresh x \<notin> so_id ` set (st_overrides (aw_staff w))"
    and "staff_call_tx x actor perms target c w = Inr (u, w')"
    and "target \<notin> set (PLATFORM_ADMIN_IDS (x_staff_env x))"
    and "holds (x_staff_env x) t (aw_staff w') target p" and "\<not> denial_over c t" and "p \<notin> set perms"
  shows "holds (x_staff_env x) t (aw_staff w) target p"
proof -
  have ok: "staff_tables_ok (aw_staff w)" "staff_tables_ok (aw_staff w')"
    using assms(1) call_good [OF assms(1,2,3)] by (simp_all add: staff_good_def)
  show ?thesis
  proof (cases c)
    case (AssignRole role expected)
    then have e: "assign_role x actor perms target role expected w = Inr (u, w')" using assms(3) by (simp add: staff_call_tx_def)
    have "p \<notin> set (permissions_of_role role)" using assign_effect(3) [OF e] assms(7) by (rule contra_subsetD)
    note gives = assign_gives [OF assms(1) _ assms(4) _ this, of t]
    from assign_effect(4) [OF e] show ?thesis
    proof (elim disjE conjE exE)
      assume "user_known target (aw_staff w)" "aw_staff w' = assigned x target role actor (aw_staff w)"
      then show ?thesis using assms(5) by (intro gives) simp_all
    next
      fix r assume "aw_staff w' = aw_staff w"
      then show ?thesis using assms(5) by simp
    next
      fix r assume "record_for x target (aw_staff w) = Some r"
        and "aw_staff w' = sessions_cut (\<not> may_impersonate (Some (r\<lparr>sr_role := role\<rparr>)) (x_date x)) target
               (assigned x target role actor (aw_staff w))"
      then show ?thesis using assms(5) record_known by (intro gives) simp_all
    qed
  next
    case RevokeStaff
    then have "revoke_staff x actor target w = Inr (u, w')" using assms(3) by (simp add: staff_call_tx_def)
    from revoke_effect(4) [OF this] show ?thesis using revoked_holds_nothing [OF assms(1,4)] assms(5) by simp
  next
    case (SetOverride q effect expires)
    then have e: "set_override x actor perms target q effect expires w = Inr (u, w')" using assms(3) by (simp add: staff_call_tx_def)
    let ?db = "overridden x target q effect expires actor (aw_staff w)"
    have eff: "aw_staff w' = sessions_cut (\<not> may_impersonate (record_for x target ?db) (x_date x)) target ?db"
      using set_override_effect(6) [OF e] by (simp add: Let_def)
    have "p = q \<Longrightarrow> effect = Deny \<and> (case expires of None \<Rightarrow> True | Some e \<Rightarrow> t < e)"
      using set_override_effect(3) [OF e] assms(6,7) SetOverride
      by (cases effect) (auto simp: denial_over_def split: option.splits)
    moreover have "staff_tables_ok ?db" using set_override_good [OF assms(1,2) e] by (simp add: staff_good_def)
    moreover have "holds (x_staff_env x) t ?db target p" using assms(5) by (simp add: eff)
    ultimately show ?thesis using override_gives [OF ok(1) _ assms(4)] by blast
  next
    case (RemoveOverride i)
    then have e: "remove_override x actor perms target i w = Inr (u, w')" using assms(3) by (simp add: staff_call_tx_def)
    let ?db = "fst (revoke_override None (x_date x) target i (aw_staff w))"
    have eff: "aw_staff w' = sessions_cut (\<not> may_impersonate (record_for x target ?db) (x_date x)) target ?db"
      using remove_override_effect(4) [OF e] by (simp add: Let_def)
    obtain gone where gone: "List.find (\<lambda>r. so_id r = i \<and> so_user r = target \<and> so_revoked r = None) (st_overrides (aw_staff w)) = Some gone"
      "ov_effect gone = Deny \<longrightarrow> ov_permission gone \<in> set perms"
      using remove_override_effect(3) [OF e] by (elim exE conjE)
    have "staff_tables_ok ?db" using good_remove [OF assms(1)] by (simp add: staff_good_def)
    moreover have "holds (x_staff_env x) t ?db target p" using assms(5) by (simp add: eff)
    moreover have "ov_permission gone = p \<Longrightarrow> ov_effect gone \<noteq> Deny" using gone(2) assms(7) by auto
    ultimately show ?thesis using removal_gives [OF ok(1) _ assms(4) _ gone(1)] by blast
  next
    case (BanUser reason expires_in)
    then have "moderate_ban x perms target (moderation_ban x actor target reason expires_in) w = Inr (u, w')"
      using assms(3) by (simp add: staff_call_tx_def)
    from ban_effect(3) [OF this] obtain expires where "aw_staff w' = fst (user_ban None target reason expires (aw_staff w))" ..
    then show ?thesis using holds_same_rows [OF ok] rows_ban assms(5) by simp
  next
    case UnbanUser
    then have "moderation_unban x actor target w = Inr (u, w')" using assms(3) by (simp add: staff_call_tx_def tx_simps)
    from unban_effect [OF this] show ?thesis using holds_same_rows [OF ok] rows_unban assms(5) by simp
  next
    case RevokeSessions
    then have "moderation_revoke_sessions x actor target w = Inr (u, w')" using assms(3) by (simp add: staff_call_tx_def tx_simps)
    from sessions_ended_effect(1) [OF this] show ?thesis using assms(5) by simp
  next
    case ResetPassword
    then have "moderation_reset_password x actor target w = Inr (u, w')" using assms(3) by (simp add: staff_call_tx_def tx_simps)
    from sessions_ended_effect(2) [OF this] show ?thesis using assms(5) by simp
  qed
qed

lemma call_not_self:
  assumes "staff_call_tx x actor perms target c w = Inr (u, w')"
  shows "actor \<noteq> target
    \<or> st_members (aw_staff w') = st_members (aw_staff w) \<and> st_overrides (aw_staff w') = st_overrides (aw_staff w)"
proof (cases c)
  case (AssignRole role expected)
  then have "assign_role x actor perms target role expected w = Inr (u, w')" using assms by (simp add: staff_call_tx_def)
  from assign_effect(1) [OF this] show ?thesis by (rule disjI1)
next
  case RevokeStaff
  then have "revoke_staff x actor target w = Inr (u, w')" using assms by (simp add: staff_call_tx_def)
  from revoke_effect(1) [OF this] show ?thesis by (rule disjI1)
next
  case (SetOverride p effect expires)
  then have "set_override x actor perms target p effect expires w = Inr (u, w')" using assms by (simp add: staff_call_tx_def)
  from set_override_effect(1) [OF this] show ?thesis by (rule disjI1)
next
  case (RemoveOverride i)
  then have "remove_override x actor perms target i w = Inr (u, w')" using assms by (simp add: staff_call_tx_def)
  from remove_override_effect(1) [OF this] show ?thesis by (rule disjI1)
next
  case (BanUser reason expires_in)
  then have "moderate_ban x perms target (moderation_ban x actor target reason expires_in) w = Inr (u, w')" using assms by (simp add: staff_call_tx_def)
  from ban_effect(1) [OF this] show ?thesis by (rule disjI1)
next
  case UnbanUser
  then have "moderation_unban x actor target w = Inr (u, w')" using assms by (simp add: staff_call_tx_def tx_simps)
  from unban_effect [OF this] show ?thesis using rows_unban by simp
next
  case RevokeSessions
  then have "moderation_revoke_sessions x actor target w = Inr (u, w')" using assms by (simp add: staff_call_tx_def tx_simps)
  from sessions_ended_effect(1) [OF this] show ?thesis by simp
next
  case ResetPassword
  then have "moderation_reset_password x actor target w = Inr (u, w')" using assms by (simp add: staff_call_tx_def tx_simps)
  from sessions_ended_effect(2) [OF this] show ?thesis by simp
qed

text \<open>
  C22: nobody gives what they do not hold. Take any call that commits, and any instant by which the
  call, if it sets a denial, has not set one already ended. Whoever holds at that instant a permission
  they would not have held without the call is its target, not its author, and the author's permissions
  include it: it came from a role all of whose permissions the author holds, from a grant, or by the
  end of a denial. At an instant past the end of a denial the call sets, the statement is false, see
  \<open>denial_shortened\<close>: it may have replaced a denial without an end.
\<close>
theorem no_escalation:
  assumes "staff_good (aw_staff w)" and "x_fresh x \<notin> so_id ` set (st_overrides (aw_staff w))"
    and "run_tx (x_commit_error x) (staff_call_tx x actor perms target c) (w :: staff_world) = (w', out)"
    and "holds (x_staff_env x) t (aw_staff w') v p" and "\<not> holds (x_staff_env x) t (aw_staff w) v p"
    and "\<not> denial_over c t"
  shows "v = target \<and> actor \<noteq> v \<and> p \<in> set perms"
proof -
  obtain u where call: "staff_call_tx x actor perms target c w = Inr (u, w')"
    using assms(3) by (rule run_tx_cases) (use assms(4,5) in auto)
  have v: "v = target" using holds_other [OF call_touches_target_only [OF call]] assms(4,5) by blast
  have l: "target \<notin> set (PLATFORM_ADMIN_IDS (x_staff_env x))" using assms(5) holds_listed v by blast
  have "p \<in> set perms"
    using call_gives [OF assms(1,2) call l _ assms(6)] assms(4,5) v by blast
  moreover have "actor \<noteq> target"
  proof
    assume "actor = target"
    then have "st_members (aw_staff w') = st_members (aw_staff w)" "st_overrides (aw_staff w') = st_overrides (aw_staff w)"
      using call_not_self [OF call] by simp_all
    moreover have "staff_tables_ok (aw_staff w)" "staff_tables_ok (aw_staff w')"
      using assms(1) call_good [OF assms(1,2) call] by (simp_all add: staff_good_def)
    ultimately show False using holds_same_rows assms(4,5) by blast
  qed
  ultimately show ?thesis using v by simp
qed

theorem no_escalation_witness:
  "''cust'' = ''cust'' \<and> ''boss'' \<noteq> ''cust'' \<and> UsersRead \<in> set STAFF_PERMISSIONS"
proof (rule no_escalation [where x = example_call and w = example_staff and c = "AssignRole Support None" and t = 12])
  show "run_tx (x_commit_error example_call) (staff_call_tx example_call ''boss'' STAFF_PERMISSIONS ''cust'' (AssignRole Support None)) example_staff
    = (after_call (AssignRole Support None) ''cust'', snd (run_tx (x_commit_error example_call)
        (staff_call_tx example_call ''boss'' STAFF_PERMISSIONS ''cust'' (AssignRole Support None)) example_staff))"
    by (rule surjective_pairing)
  show "holds (x_staff_env example_call) 12 (aw_staff (after_call (AssignRole Support None) ''cust'')) ''cust'' UsersRead" by code_simp
  show "\<not> holds (x_staff_env example_call) 12 (aw_staff example_staff) ''cust'' UsersRead" by code_simp
  show "\<not> denial_over (AssignRole Support None) 12" by (simp add: denial_over_def)
qed (rule example_staff_good, rule example_fresh)

text \<open>
  The way around: somebody who does not hold a permission may put a denial that ends in an hour where
  a colleague put one for good, and the target holds it again an hour later.
\<close>

lemma denial_shortened:
  fixes w :: staff_world
  assumes "w = example_staff\<lparr>aw_staff := (aw_staff example_staff)\<lparr>st_overrides :=
      [\<lparr>ov_permission = NotesWrite, ov_effect = Deny, ov_expires = None, so_id = ''o0'', so_user = ''help'',
         so_created_by = ''boss'', so_created = 6, so_revoked = None\<rparr>]\<rparr>\<rparr>"
    and "w' = fst (run_tx None (staff_call_tx example_call ''boss'' [StaffManage] ''help'' (SetOverride NotesWrite Deny (Some 20))) w)"
  shows "\<not> holds (x_staff_env example_call) 30 (aw_staff w) ''help'' NotesWrite
    \<and> holds (x_staff_env example_call) 30 (aw_staff w') ''help'' NotesWrite \<and> NotesWrite \<notin> set [StaffManage]"
  unfolding assms by code_simp

section \<open>A power lost ends what it opened\<close>

definition impersonating :: "ident \<Rightarrow> staff_db \<Rightarrow> bool" where
  "impersonating u db \<longleftrightarrow> list_ex (\<lambda>s. se_impersonated_by s = Some u) (st_sessions db)"

lemma cut_ends: "lost \<Longrightarrow> \<not> impersonating target (sessions_cut lost target db)"
  by (auto simp: impersonating_def sessions_cut_def list_ex_iff sql_delete_def)

lemma lost_after:
  assumes "target \<notin> set (PLATFORM_ADMIN_IDS env)" and "\<not> holds env date db target UsersImpersonate"
  shows "\<not> may_impersonate (granting env (find_active date target db)) date"
  using assms(2) holds_granting [OF assms(1)] by (auto simp: may_impersonate_def split: option.splits)

text \<open>What an assignment leaves is the row it found, with the new role.\<close>

lemma record_after_assign:
  assumes "staff_good db" and "granting env (find_active date target db) = Some r"
  obtains r' where "granting env (find_active date target (fst (staff_assign None date target role actor db))) = Some r'"
    and "sr_role r' = role" and "sr_overrides r' = sr_overrides r"
proof -
  let ?db = "fst (staff_assign None date target role actor db)"
  have f: "find_active date target db = Some r" using assms(2) by (simp add: granting_Some)
  obtain m a where m: "m \<in> set (st_members db)" "sm_user m = target" and a: "a \<in> set (st_users db)" "us_id a = target"
    and r: "sr_overrides r = map override_of (filter (\<lambda>r. so_user r = target \<and> so_revoked r = None) (st_overrides db))"
    using f by (rule find_active_Some) simp
  let ?m = "m\<lparr>sm_role := role, sm_source := FromConsole, sm_created_by := Some actor, sm_revoked := None\<rparr>"
  have good: "staff_tables_ok ?db" using good_assign [OF assms(1)] a by (auto simp: staff_good_def user_known_def)
  have "?m \<in> set (st_members ?db)"
    using m by (auto simp: staff_assign_def Let_def set_mirror_def set_sql_update)
  moreover have "target \<in> us_id ` set (st_users ?db)"
    using a by (auto simp: staff_assign_def Let_def set_mirror_def image_sql_update)
  then obtain a' where "a' \<in> set (st_users ?db)" "us_id a' = sm_user ?m" using m(2) by auto
  ultimately have f': "find_active date (sm_user ?m) ?db = Some \<lparr>sr_user = sm_user ?m, sr_role = sm_role ?m, sr_source = sm_source ?m,
     sr_banned = ban_is_live (us_banned a') (us_ban_expires a') date,
     sr_overrides = map override_of (filter (\<lambda>r. so_user r = sm_user ?m \<and> so_revoked r = None) (st_overrides ?db))\<rparr>"
    (is "_ = Some ?r") by (intro find_active_of [OF good]) simp_all
  show thesis
  proof (rule that [of ?r])
    show "granting env (find_active date target ?db) = Some ?r"
      using f' m(2) by (simp add: granting_Some grants_staff_access_def)
    show "sr_overrides ?r = sr_overrides r"
      using m(2) r by (simp add: staff_assign_def Let_def set_mirror_def)
  qed simp
qed

lemma assign_cut_when_lost:
  assumes "staff_good db" and "granting env (find_active date target db) = Some r" and "target \<notin> set (PLATFORM_ADMIN_IDS env)"
    and "\<not> holds env date (fst (staff_assign None date target role actor db)) target UsersImpersonate"
  shows "\<not> may_impersonate (Some (r\<lparr>sr_role := role\<rparr>)) date"
proof -
  obtain r' where r': "granting env (find_active date target (fst (staff_assign None date target role actor db))) = Some r'"
    "sr_role r' = role" "sr_overrides r' = sr_overrides r"
    by (rule record_after_assign [OF assms(1,2)])
  then have "\<not> may_impersonate (Some r') date" using lost_after [OF assms(3,4)] by simp
  then show ?thesis using r'(2,3) by (simp add: may_impersonate_def permissions_of_record_def)
qed

lemma revoke_ends: "\<not> impersonating target (fst (staff_revoke None date target db))"
  by (auto simp: impersonating_def staff_revoke_def Let_def delete_sessions_where_def list_ex_iff sql_delete_def)

text \<open>
  C23: when a call of the staff takes the power to act as somebody else away from its target, by a
  change of role, by striking off, by a denial or by a grant taken back, so that the target held the
  power at the instant of the call before it and does not after it, the same transaction ends every session
  the target opened with it. (A power that runs out with time, or goes with the settings, is another
  matter: no call ends the sessions then.)
\<close>
theorem power_lost_ends_impersonations:
  assumes "staff_good (aw_staff w)" and "x_fresh x \<notin> so_id ` set (st_overrides (aw_staff w))"
    and "run_tx (x_commit_error x) (staff_call_tx x actor perms target c) (w :: staff_world) = (w', out)"
    and "holds (x_staff_env x) (x_date x) (aw_staff w) v UsersImpersonate"
    and "\<not> holds (x_staff_env x) (x_date x) (aw_staff w') v UsersImpersonate"
  shows "\<not> impersonating v (aw_staff w')"
proof -
  let ?lost = "\<lambda>db. \<not> holds (x_staff_env x) (x_date x) db target UsersImpersonate"
  obtain u where call: "staff_call_tx x actor perms target c w = Inr (u, w')"
    using assms(3) by (rule run_tx_cases) (use assms(4,5) in auto)
  have v: "v = target" using holds_other [OF call_touches_target_only [OF call]] assms(4,5) by blast
  have lost: "?lost (aw_staff w')" using assms(5) v by simp
  have l: "target \<notin> set (PLATFORM_ADMIN_IDS (x_staff_env x))" using lost holds_listed by blast
  have ok: "staff_tables_ok (aw_staff w)" "staff_tables_ok (aw_staff w')"
    using assms(1) call_good [OF assms(1,2) call] by (simp_all add: staff_good_def)
  have moved: "\<not> (st_members (aw_staff w') = st_members (aw_staff w) \<and> st_overrides (aw_staff w') = st_overrides (aw_staff w))"
    using holds_same_rows [OF ok] assms(4,5) by blast
  have "\<not> impersonating target (aw_staff w')"
  proof (cases c)
    case (AssignRole role expected)
    then have e: "assign_role x actor perms target role expected w = Inr (u, w')" using call by (simp add: staff_call_tx_def)
    from assign_effect(4) [OF e] show ?thesis
    proof (elim disjE conjE exE)
      assume "record_for x target (aw_staff w) = None"
      then have False using assms(4) v holds_granting [OF l] by simp
      then show ?thesis ..
    next
      assume "aw_staff w' = aw_staff w"
      then show ?thesis using moved by simp
    next
      fix r assume r: "record_for x target (aw_staff w) = Some r"
        and eff: "aw_staff w' = sessions_cut (\<not> may_impersonate (Some (r\<lparr>sr_role := role\<rparr>)) (x_date x)) target
               (assigned x target role actor (aw_staff w))"
      have "?lost (assigned x target role actor (aw_staff w))" using lost by (simp add: eff)
      then show ?thesis unfolding eff by (intro cut_ends assign_cut_when_lost [OF assms(1) r l])
    qed
  next
    case RevokeStaff
    then have "revoke_staff x actor target w = Inr (u, w')" using call by (simp add: staff_call_tx_def)
    from revoke_effect(4) [OF this] show ?thesis using revoke_ends by simp
  next
    case (SetOverride p effect expires)
    then have e: "set_override x actor perms target p effect expires w = Inr (u, w')" using call by (simp add: staff_call_tx_def)
    have eff: "aw_staff w' = (let db = overridden x target p effect expires actor (aw_staff w)
        in sessions_cut (\<not> may_impersonate (record_for x target db) (x_date x)) target db)" by (rule set_override_effect(6) [OF e])
    then have "?lost (overridden x target p effect expires actor (aw_staff w))" using lost by (simp add: Let_def)
    from lost_after [OF l this] show ?thesis unfolding eff Let_def by (rule cut_ends)
  next
    case (RemoveOverride i)
    then have e: "remove_override x actor perms target i w = Inr (u, w')" using call by (simp add: staff_call_tx_def)
    have eff: "aw_staff w' = (let db = fst (revoke_override None (x_date x) target i (aw_staff w))
        in sessions_cut (\<not> may_impersonate (record_for x target db) (x_date x)) target db)" by (rule remove_override_effect(4) [OF e])
    then have "?lost (fst (revoke_override None (x_date x) target i (aw_staff w)))" using lost by (simp add: Let_def)
    from lost_after [OF l this] show ?thesis unfolding eff Let_def by (rule cut_ends)
  next
    case (BanUser reason expires_in)
    then have "moderate_ban x perms target (moderation_ban x actor target reason expires_in) w = Inr (u, w')"
      using call by (simp add: staff_call_tx_def)
    from ban_effect(3) [OF this] obtain expires where "aw_staff w' = fst (user_ban None target reason expires (aw_staff w))" ..
    then show ?thesis using moved rows_ban by simp
  next
    case UnbanUser
    then have "moderation_unban x actor target w = Inr (u, w')" using call by (simp add: staff_call_tx_def tx_simps)
    from unban_effect [OF this] show ?thesis using moved rows_unban by simp
  next
    case RevokeSessions
    then have "moderation_revoke_sessions x actor target w = Inr (u, w')" using call by (simp add: staff_call_tx_def tx_simps)
    from sessions_ended_effect(1) [OF this] show ?thesis using moved by simp
  next
    case ResetPassword
    then have "moderation_reset_password x actor target w = Inr (u, w')" using call by (simp add: staff_call_tx_def tx_simps)
    from sessions_ended_effect(2) [OF this] show ?thesis using moved by simp
  qed
  then show ?thesis using v by simp
qed

theorem power_lost_ends_impersonations_witness:
  "\<not> impersonating ''help'' (aw_staff (after_call RevokeStaff ''help''))"
proof (rule power_lost_ends_impersonations [where x = example_call and w = example_staff and c = RevokeStaff])
  show "run_tx (x_commit_error example_call) (staff_call_tx example_call ''boss'' STAFF_PERMISSIONS ''help'' RevokeStaff) example_staff
    = (after_call RevokeStaff ''help'', snd (run_tx (x_commit_error example_call)
        (staff_call_tx example_call ''boss'' STAFF_PERMISSIONS ''help'' RevokeStaff) example_staff))"
    by (rule surjective_pairing)
  show "holds (x_staff_env example_call) (x_date example_call) (aw_staff example_staff) ''help'' UsersImpersonate" by code_simp
  show "\<not> holds (x_staff_env example_call) (x_date example_call) (aw_staff (after_call RevokeStaff ''help'')) ''help'' UsersImpersonate"
    by code_simp
qed (rule example_staff_good, rule example_fresh)

end
