(* ===== verification/Approval_Store.thy ===== *)
theory Approval_Store
  imports Staff_Store
begin

text \<open>
  The requests of the staff that a second person must agree to:
  the table \<open>adminApproval\<close> of \<open>packages/drizzle/src/schema/staff.ts\<close> and the statements of
  \<open>drizzle-approval.store.ts\<close>. \<open>now\<close> is the clock of the database. The column \<open>params\<close> holds what
  the code writes there: a request a schema accepted, or the empty object, which is also what a
  request to strike somebody off stores. An end date is kept as the text of the request.
\<close>

section \<open>The table\<close>

datatype approval_status = Pending | Approved | Rejected | Cancelled | Expired | Executed | RequestFailed

datatype stored_params =
    BanParams string "int option"
  | RoleParams staff_role "staff_role option"
  | EmptyParams
  | SetParams staff_permission override_effect "string option"
  | RemoveParams ident staff_permission override_effect "string option"

record approval_row =
  ap_id :: ident
  ap_action :: approval_action
  ap_subject :: ident
  ap_params :: stored_params
  ap_requester :: ident
  ap_status :: approval_status
  ap_decider :: "ident option"
  ap_note :: "string option"
  ap_reason :: "string option"
  ap_expires :: instant
  ap_decided :: "instant option"
  ap_created :: instant
  ap_version :: nat

definition pending_and_live :: "instant \<Rightarrow> approval_row \<Rightarrow> bool" where
  "pending_and_live now r \<longleftrightarrow> ap_status r = Pending \<and> now < ap_expires r"

definition pending_and_due :: "instant \<Rightarrow> approval_row \<Rightarrow> bool" where
  "pending_and_due now r \<longleftrightarrow> ap_status r = Pending \<and> ap_expires r < now"

definition open_for :: "approval_action \<Rightarrow> ident \<Rightarrow> approval_row \<Rightarrow> bool" where
  "open_for action subject r \<longleftrightarrow> ap_action r = action \<and> ap_subject r = subject \<and> ap_status r = Pending"

text \<open>The check \<open>four_eyes\<close> of the table; a comparison with \<open>NULL\<close> does not violate it.\<close>

definition four_eyes_ok :: "approval_row \<Rightarrow> bool" where
  "four_eyes_ok r \<longleftrightarrow> ap_decider r \<noteq> Some (ap_requester r)"

section \<open>Creating\<close>

record approval_write =
  aq_action :: approval_action
  aq_subject :: ident
  aq_params :: stored_params
  aq_requester :: ident
  aq_ttl_hours :: int

definition new_approval :: "instant \<Rightarrow> ident \<Rightarrow> approval_write \<Rightarrow> approval_row" where
  "new_approval now i q =
     \<lparr>ap_id = i, ap_action = aq_action q, ap_subject = aq_subject q, ap_params = aq_params q, ap_requester = aq_requester q,
      ap_status = Pending, ap_decider = None, ap_note = None, ap_reason = None,
      ap_expires = now + aq_ttl_hours q * 3600 * 1000, ap_decided = None, ap_created = now, ap_version = 0\<rparr>"

definition CREATE_ATTEMPTS :: nat where "CREATE_ATTEMPTS = 3"

text \<open>
  Each attempt inserts unless a request is open, and otherwise reads the open one; \<open>between\<close> is what
  other transactions commit between the two statements of an attempt, \<open>fresh\<close> the id it draws.
\<close>

fun create_attempts ::
  "nat \<Rightarrow> instant \<Rightarrow> (nat \<Rightarrow> ident) \<Rightarrow> (nat \<Rightarrow> approval_row list \<Rightarrow> approval_row list) \<Rightarrow> approval_write \<Rightarrow> approval_row list \<Rightarrow>
   approval_row list \<times> (approval_row \<times> bool) throws" where
  "create_attempts 0 now fresh between q t = (t, Inl ''the open request kept settling while a new one was being stored'')"
| "create_attempts (Suc n) now fresh between q t =
     (if \<not> list_ex (open_for (aq_action q) (aq_subject q)) t
      then let r = new_approval now (fresh n) q in (t @ [r], Inr (r, True))
      else let t' = between n t
           in case List.find (open_for (aq_action q) (aq_subject q)) t' of
                Some r \<Rightarrow> (t', Inr (r, False))
              | None \<Rightarrow> create_attempts n now fresh between q t')"

definition approval_create ::
  "string option \<Rightarrow> instant \<Rightarrow> (nat \<Rightarrow> ident) \<Rightarrow> (nat \<Rightarrow> approval_row list \<Rightarrow> approval_row list) \<Rightarrow> approval_write \<Rightarrow>
   approval_row list \<Rightarrow> approval_row list \<times> (approval_row \<times> bool, string) result" where
  "approval_create err now fresh between q t =
     (if err \<noteq> None then (t, fail ''approval create failed'')
      else case create_attempts CREATE_ATTEMPTS now fresh between q t of
        (t', Inl _) \<Rightarrow> (t', fail ''approval create failed'')
      | (t', Inr out) \<Rightarrow> (t', ok out))"

section \<open>Reading\<close>

definition approval_find :: "ident \<Rightarrow> approval_row list \<Rightarrow> approval_row option" where
  "approval_find i t = row_of ap_id i t"

definition list_open :: "instant \<Rightarrow> nat \<Rightarrow> approval_row list \<Rightarrow> approval_row list \<times> nat" where
  "list_open now limit t =
     (sql_select (pending_and_live now) (\<lambda>r. (ap_created r, ap_id r)) limit t, length (filter (pending_and_live now) t))"

definition count_due :: "instant \<Rightarrow> approval_row list \<Rightarrow> nat" where
  "count_due now t = length (filter (pending_and_due now) t)"

section \<open>Settling\<close>

text \<open>An update whose row breaks a check of the table raises, and writes nothing.\<close>

definition checked_update ::
  "string option \<Rightarrow> string \<Rightarrow> (approval_row \<Rightarrow> bool) \<Rightarrow> (approval_row \<Rightarrow> approval_row) \<Rightarrow>
   approval_row list \<Rightarrow> approval_row list \<times> (approval_row list, string) result" where
  "checked_update err msg p f t =
     (if err \<noteq> None \<or> list_ex (\<lambda>r. p r \<and> \<not> four_eyes_ok (f r)) t then (t, fail msg)
      else (sql_update p f t, ok (sql_returning p f t)))"

fun first_of :: "'a list \<Rightarrow> 'a option" where
  "first_of [] = None"
| "first_of (r # rs) = Some r"

definition map_out :: "('a \<Rightarrow> 'b) \<Rightarrow> 't \<times> ('a, 'e) result \<Rightarrow> 't \<times> ('b, 'e) result" where
  "map_out g out = (case out of (t, Inl e) \<Rightarrow> (t, Inl e) | (t, Inr x) \<Rightarrow> (t, Inr (g x)))"

definition claimed_row :: "instant \<Rightarrow> approval_status \<Rightarrow> ident \<Rightarrow> string \<Rightarrow> approval_row \<Rightarrow> approval_row" where
  "claimed_row now status decider note r =
     r\<lparr>ap_status := status, ap_decider := Some decider, ap_note := Some note, ap_decided := Some now, ap_version := ap_version r + 1\<rparr>"

definition approval_claim ::
  "string option \<Rightarrow> instant \<Rightarrow> ident \<Rightarrow> approval_status \<Rightarrow> ident \<Rightarrow> string \<Rightarrow>
   approval_row list \<Rightarrow> approval_row list \<times> (approval_row option, string) result" where
  "approval_claim err now i status decider note t =
     map_out first_of (checked_update err ''approval claim failed'' (\<lambda>r. ap_id r = i \<and> pending_and_live now r)
       (claimed_row now status decider note) t)"

definition closed_row :: "instant \<Rightarrow> approval_status \<Rightarrow> approval_row \<Rightarrow> approval_row" where
  "closed_row now status r = r\<lparr>ap_status := status, ap_decided := Some now, ap_version := ap_version r + 1\<rparr>"

definition approval_cancel ::
  "string option \<Rightarrow> instant \<Rightarrow> ident \<Rightarrow> ident \<Rightarrow> approval_row list \<Rightarrow> approval_row list \<times> (approval_row option, string) result" where
  "approval_cancel err now i requester t =
     map_out first_of (checked_update err ''approval cancel failed'' (\<lambda>r. ap_id r = i \<and> ap_requester r = requester \<and> pending_and_live now r)
       (closed_row now Cancelled) t)"

definition mark_executed ::
  "string option \<Rightarrow> ident \<Rightarrow> nat \<Rightarrow> approval_row list \<Rightarrow> approval_row list \<times> (bool, string) result" where
  "mark_executed err i version t =
     map_out (\<lambda>rows. rows \<noteq> []) (checked_update err ''approval execution mark failed''
       (\<lambda>r. ap_id r = i \<and> ap_status r = Approved \<and> ap_version r = version)
       (\<lambda>r. r\<lparr>ap_status := Executed, ap_version := ap_version r + 1\<rparr>) t)"

definition failed_row :: "instant \<Rightarrow> ident \<Rightarrow> string \<Rightarrow> string \<Rightarrow> approval_row \<Rightarrow> approval_row" where
  "failed_row now decider note reason r = (claimed_row now RequestFailed decider note r)\<lparr>ap_reason := Some reason\<rparr>"

definition approval_mark_failed ::
  "string option \<Rightarrow> instant \<Rightarrow> ident \<Rightarrow> ident \<Rightarrow> string \<Rightarrow> string \<Rightarrow> approval_row list \<Rightarrow> approval_row list \<times> (bool, string) result" where
  "approval_mark_failed err now i decider note reason t =
     map_out (\<lambda>rows. rows \<noteq> []) (checked_update err ''approval failure mark failed'' (\<lambda>r. ap_id r = i \<and> ap_status r = Pending)
       (failed_row now decider note reason) t)"

definition expire_due ::
  "string option \<Rightarrow> instant \<Rightarrow> ident list \<Rightarrow> nat \<Rightarrow> approval_row list \<Rightarrow> approval_row list \<times> (approval_row list, string) result" where
  "expire_due err now locked limit t =
     (let picked = map ap_id (sql_select (\<lambda>r. pending_and_due now r \<and> ap_id r \<notin> set locked) ap_expires limit t)
      in checked_update err ''approval expiry failed'' (\<lambda>r. ap_id r \<in> set picked) (closed_row now Expired) t)"

definition expire_due_for ::
  "string option \<Rightarrow> instant \<Rightarrow> approval_action \<Rightarrow> ident \<Rightarrow> approval_row list \<Rightarrow> approval_row list \<times> (approval_row list, string) result" where
  "expire_due_for err now action subject t =
     checked_update err ''approval expiry failed'' (\<lambda>r. ap_action r = action \<and> ap_subject r = subject \<and> pending_and_due now r)
       (closed_row now Expired) t"

definition close_for_deleted_user ::
  "string option \<Rightarrow> instant \<Rightarrow> ident \<Rightarrow> approval_row list \<Rightarrow> approval_row list \<times> (approval_row list, string) result" where
  "close_for_deleted_user err now user t =
     (case checked_update err ''approval closure failed'' (\<lambda>r. ap_status r = Pending \<and> (ap_subject r = user \<or> ap_requester r = user))
             (closed_row now Cancelled) t of
        (t', Inl e) \<Rightarrow> (t', Inl e)
      | (t', Inr rows) \<Rightarrow> (sql_update (\<lambda>r. ap_subject r = user) (\<lambda>r. r\<lparr>ap_params := EmptyParams, ap_note := None\<rparr>) t', Inr rows))"

end
