(* ===== verification/Approvals.thy ===== *)
theory Approvals
  imports Approval_Store Staff_Effects
begin

text \<open>
  The agreement of two people on what is sensitive:
  \<open>apps/api/src/modules/admin/application/services/approval.service.ts\<close>, the reading of a stored
  request in \<open>approved-action.ts\<close>, and the handlers of the four actions that \<open>module.ts\<close> wires to the
  services of the staff.

  A decision reads the request and the rights of those involved, and then runs transactions of its
  own: \<open>decide_checks\<close> is what it reads, \<open>decide_act\<close> what it does about it, arbitrarily later.
\<close>

section \<open>World, environment, errors\<close>

record approval_world = staff_world +
  aw_approvals :: "approval_row list"

datatype approval_error =
    ApprovalStoreFailed string | ByStaff staff_error | SelfSubject | SubjectUnknown | AlreadyPending ident
  | ApprovalNotFound | SelfDecision | SubjectDecision | PermissionMissing staff_permission
  | RequesterLost | AlreadyDecided | RequestExpired | ParamsInvalid

text \<open>
  \<open>ae_now\<close> is the clock of the database, \<open>ae_fresh\<close> the ids drawn, \<open>ae_between\<close> what others commit
  between the statements of a creation, \<open>ae_locked\<close> the rows others hold, \<open>ae_date_of\<close> how a text is
  read as a date, and the rest the settings.
\<close>

record approval_env =
  ae_call :: call_env
  ae_now :: instant
  ae_fresh :: "nat \<Rightarrow> ident"
  ae_between :: "nat \<Rightarrow> approval_row list \<Rightarrow> approval_row list"
  ae_locked :: "ident list"
  ae_date_of :: "string \<Rightarrow> instant"
  ae_enabled :: bool
  ae_actions :: "approval_action list"
  ae_ttl_hours :: int

abbreviation ae_err :: "approval_env \<Rightarrow> string \<Rightarrow> string option" where
  "ae_err env method \<equiv> x_error (ae_call env) method"

type_synonym 'a approval_tx = "(approval_world, approval_error, 'a) tx"

definition by_staff :: "('w, staff_error, 'a) tx \<Rightarrow> ('w, approval_error, 'a) tx" where
  "by_staff m w = (case m w of
     Inl (Threw e) \<Rightarrow> Inl (Threw e) | Inl (Refused e) \<Rightarrow> Inl (Refused (ByStaff e)) | Inr out \<Rightarrow> Inr out)"

definition approvals_call :: "(approval_row list \<Rightarrow> approval_row list \<times> ('a, string) result) \<Rightarrow> 'a approval_tx" where
  "approvals_call op w = (case op (aw_approvals w) of
     (t, Inl e) \<Rightarrow> Inl (Refused (ApprovalStoreFailed e)) | (t, Inr y) \<Rightarrow> Inr (y, w\<lparr>aw_approvals := t\<rparr>))"

fun staff_error_code :: "staff_error \<Rightarrow> string" where
  "staff_error_code (StaffStoreFailed _) = ''ADMIN_STAFF_PROVIDER_FAILURE''"
| "staff_error_code (UserStoreFailed _) = ''ADMIN_QUERY_PROVIDER_FAILURE''"
| "staff_error_code SelfChange = ''ADMIN_STAFF_SELF_CHANGE_FORBIDDEN''"
| "staff_error_code ListedAccess = ''ADMIN_STAFF_LISTED_FORBIDDEN''"
| "staff_error_code LastManager = ''ADMIN_STAFF_LAST_MANAGER_FORBIDDEN''"
| "staff_error_code StaffNotFound = ''ADMIN_STAFF_NOT_FOUND''"
| "staff_error_code OverrideNotFound = ''ADMIN_STAFF_OVERRIDE_NOT_FOUND''"
| "staff_error_code OverrideExpired = ''ADMIN_STAFF_OVERRIDE_EXPIRED_CONFLICT''"
| "staff_error_code GrantNotHeld = ''ADMIN_STAFF_GRANT_NOT_HELD_FORBIDDEN''"
| "staff_error_code RoleChanged = ''ADMIN_STAFF_ROLE_CHANGED_CONFLICT''"
| "staff_error_code UserNotFound = ''ADMIN_USER_NOT_FOUND''"
| "staff_error_code StaffTarget = ''ADMIN_USER_STAFF_TARGET_FORBIDDEN''"
| "staff_error_code SelfBan = ''ADMIN_USER_SELF_BAN_FORBIDDEN''"
| "staff_error_code SelfImpersonation = ''ADMIN_IMPERSONATION_SELF_FORBIDDEN''"

fun error_code :: "approval_error \<Rightarrow> string" where
  "error_code (ApprovalStoreFailed _) = ''ADMIN_APPROVAL_PROVIDER_FAILURE''"
| "error_code (ByStaff e) = staff_error_code e"
| "error_code SelfSubject = ''ADMIN_APPROVAL_SELF_SUBJECT_FORBIDDEN''"
| "error_code SubjectUnknown = ''ADMIN_USER_NOT_FOUND''"
| "error_code (AlreadyPending _) = ''ADMIN_APPROVAL_ALREADY_PENDING_CONFLICT''"
| "error_code ApprovalNotFound = ''ADMIN_APPROVAL_NOT_FOUND''"
| "error_code SelfDecision = ''ADMIN_APPROVAL_SELF_DECISION_FORBIDDEN''"
| "error_code SubjectDecision = ''ADMIN_APPROVAL_SUBJECT_DECISION_FORBIDDEN''"
| "error_code (PermissionMissing _) = ''ADMIN_APPROVAL_PERMISSION_FORBIDDEN''"
| "error_code RequesterLost = ''ADMIN_APPROVAL_REQUESTER_LOST_CONFLICT''"
| "error_code AlreadyDecided = ''ADMIN_APPROVAL_DECIDED_CONFLICT''"
| "error_code RequestExpired = ''ADMIN_APPROVAL_EXPIRED_CONFLICT''"
| "error_code ParamsInvalid = ''ADMIN_APPROVAL_PARAMS_INVALID''"

section \<open>The handlers of the actions\<close>

datatype requested =
    AskBan string "int option" | AskRole staff_role | AskRevoke
  | AskSet staff_permission override_effect "string option" | AskRemove ident

fun action_of :: "requested \<Rightarrow> approval_action" where
  "action_of (AskBan _ _) = BanPermanent"
| "action_of (AskRole _) = RoleChange"
| "action_of AskRevoke = StaffRevoke"
| "action_of (AskSet _ _ _) = PermissionOverride"
| "action_of (AskRemove _) = PermissionOverride"

definition read_approved_action :: "approval_row \<Rightarrow> (stored_params, approval_error) result" where
  "read_approved_action r =
     (case (ap_action r, ap_params r) of
        (BanPermanent, BanParams reason expires_in) \<Rightarrow> ok (ap_params r)
      | (RoleChange, RoleParams role from_role) \<Rightarrow> ok (ap_params r)
      | (StaffRevoke, _) \<Rightarrow> ok EmptyParams
      | (PermissionOverride, SetParams p effect expires) \<Rightarrow> ok (ap_params r)
      | (PermissionOverride, RemoveParams i p effect expires) \<Rightarrow> ok (ap_params r)
      | _ \<Rightarrow> fail ParamsInvalid)"

definition prepare_action ::
  "approval_env \<Rightarrow> ident \<Rightarrow> staff_permission list \<Rightarrow> ident \<Rightarrow> requested \<Rightarrow> stored_params approval_tx" where
  "prepare_action env actor perms subject req =
     (let x = ae_call env in
      case req of
        AskBan reason expires_in \<Rightarrow> after (by_staff (ban_refusal x perms subject)) (\<lambda>_. give (BanParams reason expires_in))
      | AskRole role \<Rightarrow> after (by_staff (refuse_role_change x actor perms subject role)) (\<lambda>from_role. give (RoleParams role from_role))
      | AskRevoke \<Rightarrow> after (by_staff (refuse_revoke x actor subject)) (\<lambda>_. give EmptyParams)
      | AskSet p effect expires \<Rightarrow>
          after (by_staff (override_refusal x actor perms subject p effect (map_option (ae_date_of env) expires))) (\<lambda>_.
            give (SetParams p effect expires))
      | AskRemove i \<Rightarrow>
          after (by_staff (refuse_override_removal x actor perms subject i)) (\<lambda>r.
            give (RemoveParams i (ov_permission r) (ov_effect r) (map_option (x_iso x) (ov_expires r)))))"

definition authorize_action ::
  "approval_env \<Rightarrow> ident \<Rightarrow> staff_permission list \<Rightarrow> ident \<Rightarrow> stored_params \<Rightarrow> unit approval_tx" where
  "authorize_action env actor perms subject params =
     (let x = ae_call env in
      case params of
        BanParams reason expires_in \<Rightarrow> by_staff (refuse_target x perms subject)
      | RoleParams role from_role \<Rightarrow> by_staff (check (refused_role_grant x actor perms subject role))
      | EmptyParams \<Rightarrow> give ()
      | SetParams p effect expires \<Rightarrow> by_staff (check (refused_override_grant perms p effect False))
      | RemoveParams i p effect expires \<Rightarrow> by_staff (check (refused_override_grant perms p effect True)))"

definition run_action ::
  "approval_env \<Rightarrow> ident \<Rightarrow> staff_permission list \<Rightarrow> ident \<Rightarrow> stored_params \<Rightarrow> unit approval_tx" where
  "run_action env actor perms subject params =
     (let x = ae_call env in
      case params of
        BanParams reason expires_in \<Rightarrow>
          by_staff (moderate_ban x perms subject (moderation_ban x actor subject reason expires_in))
      | RoleParams role from_role \<Rightarrow> by_staff (assign_role x actor perms subject role (Some from_role))
      | EmptyParams \<Rightarrow> by_staff (revoke_staff x actor subject)
      | SetParams p effect expires \<Rightarrow>
          by_staff (set_override x actor perms subject p effect (map_option (ae_date_of env) expires))
      | RemoveParams i p effect expires \<Rightarrow> by_staff (remove_override x actor perms subject i))"

record approval_handlers =
  h_prepare :: "approval_env \<Rightarrow> ident \<Rightarrow> staff_permission list \<Rightarrow> ident \<Rightarrow> requested \<Rightarrow> stored_params approval_tx"
  h_authorize :: "approval_env \<Rightarrow> ident \<Rightarrow> staff_permission list \<Rightarrow> ident \<Rightarrow> stored_params \<Rightarrow> unit approval_tx"
  h_run :: "approval_env \<Rightarrow> ident \<Rightarrow> staff_permission list \<Rightarrow> ident \<Rightarrow> stored_params \<Rightarrow> unit approval_tx"

definition module_handlers :: approval_handlers where
  "module_handlers = \<lparr>h_prepare = prepare_action, h_authorize = authorize_action, h_run = run_action\<rparr>"

section \<open>Announcing\<close>

definition action_json :: "approval_action \<Rightarrow> json" where
  "action_json a = JStr (case a of
     BanPermanent \<Rightarrow> ''user.ban_permanent'' | RoleChange \<Rightarrow> ''staff.role_change'' | StaffRevoke \<Rightarrow> ''staff.revoke''
   | PermissionOverride \<Rightarrow> ''staff.permission_override'')"

definition ref_of :: "approval_row \<Rightarrow> (string \<times> json) list" where
  "ref_of r = [(''approvalId'', JStr (ap_id r)), (''action'', action_json (ap_action r)),
               (''requesterUserId'', JStr (ap_requester r)), (''userId'', JStr (ap_subject r))]"

definition announce_approval :: "approval_env \<Rightarrow> string \<Rightarrow> approval_row \<Rightarrow> (string \<times> json) list \<Rightarrow> unit approval_tx" where
  "announce_approval env type r extra = emit (ae_call env) type ''admin_approval'' (ap_id r) (JObj (ref_of r @ extra))"

section \<open>Asking\<close>

definition gate_tx :: "approval_env \<Rightarrow> ident \<Rightarrow> ident \<Rightarrow> approval_action \<Rightarrow> stored_params \<Rightarrow> ident option approval_tx" where
  "gate_tx env actor subject action params =
     after (approvals_call (expire_due_for (ae_err env ''expireDueFor'') (ae_now env) action subject)) (\<lambda>overdue.
     after (each (\<lambda>r. announce_approval env ''admin.approval.expired'' r [(''actorUserId'', JNull)]) overdue) (\<lambda>_.
     after (approvals_call (approval_create (ae_err env ''create'') (ae_now env) (ae_fresh env) (ae_between env)
              \<lparr>aq_action = action, aq_subject = subject, aq_params = params, aq_requester = actor,
               aq_ttl_hours = ae_ttl_hours env\<rparr>)) (\<lambda>(r, is_new).
       if \<not> is_new \<and> \<not> (ap_requester r = actor \<and> ap_params r = params) then refuse (AlreadyPending (ap_id r))
       else after (if is_new then announce_approval env ''admin.approval.requested'' r [(''actorUserId'', JStr actor)] else give ()) (\<lambda>_.
         give (Some (ap_id r))))))"

text \<open>The reads before it: each its own transaction, and none of them writes.\<close>

definition gate_checks ::
  "approval_env \<Rightarrow> approval_handlers \<Rightarrow> ident \<Rightarrow> staff_permission list \<Rightarrow> ident \<Rightarrow> requested \<Rightarrow> stored_params approval_tx" where
  "gate_checks env h actor perms subject req =
     after (h_prepare h env actor perms subject req) (\<lambda>params.
       if subject = actor then refuse SelfSubject
       else after (by_staff (store_read UserStoreFailed (ae_err env ''findUserById'') ''admin user lookup failed'' (user_known subject))) (\<lambda>known.
         if \<not> known then refuse SubjectUnknown else give params))"

definition gate ::
  "approval_env \<Rightarrow> approval_handlers \<Rightarrow> ident \<Rightarrow> staff_permission list \<Rightarrow> ident \<Rightarrow> requested \<Rightarrow> approval_world \<Rightarrow>
   approval_world \<times> (ident option, approval_error) result throws" where
  "gate env h actor perms subject req w =
     (if \<not> (ae_enabled env \<and> action_of req \<in> set (ae_actions env)) then (w, Inr (ok None))
      else case gate_checks env h actor perms subject req w of
             Inl (Threw e) \<Rightarrow> (w, Inl e)
           | Inl (Refused e) \<Rightarrow> (w, Inr (fail e))
           | Inr (params, _) \<Rightarrow> run_tx (x_commit_error (ae_call env)) (gate_tx env actor subject (action_of req) params) w)"

section \<open>Deciding\<close>

datatype decision = Approve | Reject

record approval_decision =
  dn_approval :: ident
  dn_decider :: ident
  dn_permissions :: "staff_permission list"
  dn_decision :: decision
  dn_note :: string

definition approval_get :: "approval_env \<Rightarrow> ident \<Rightarrow> approval_row approval_tx" where
  "approval_get env i w =
     (if ae_err env ''find'' \<noteq> None then Inl (Refused (ApprovalStoreFailed ''approval lookup failed''))
      else case approval_find i (aw_approvals w) of None \<Rightarrow> Inl (Refused ApprovalNotFound) | Some r \<Rightarrow> Inr (r, w))"

definition decision_refusal :: "approval_env \<Rightarrow> approval_row \<Rightarrow> approval_decision \<Rightarrow> approval_error option" where
  "decision_refusal env r d =
     (if ap_requester r = dn_decider d then Some SelfDecision
      else if ap_subject r = dn_decider d then Some SubjectDecision
      else if approval_action_permission (ap_action r) \<notin> set (dn_permissions d)
           then Some (PermissionMissing (approval_action_permission (ap_action r)))
      else if ap_status r \<noteq> Pending then Some AlreadyDecided
      else if ap_expires r \<le> x_date (ae_call env) then Some RequestExpired
      else None)"

definition requester_holds :: "approval_env \<Rightarrow> approval_row \<Rightarrow> bool approval_tx" where
  "requester_holds env r =
     after (by_staff (store_read StaffStoreFailed (ae_err env ''findActive'') ''staff lookup failed''
              (find_active (x_date (ae_call env)) (ap_requester r)))) (\<lambda>found.
       let unbanned = (case found of None \<Rightarrow> None | Some row \<Rightarrow> if sr_banned row then None else Some row)
       in give (case staff_access_of (ap_requester r) None unbanned (x_staff_env (ae_call env)) (x_date (ae_call env)) of
            None \<Rightarrow> False | Some a \<Rightarrow> approval_action_permission (ap_action r) \<in> set (sa_permissions a)))"

datatype decision_verdict = LostRequester approval_row | ToReject approval_row | ToApprove approval_row

definition decide_checks :: "approval_env \<Rightarrow> approval_handlers \<Rightarrow> approval_decision \<Rightarrow> decision_verdict approval_tx" where
  "decide_checks env h d =
     after (approval_get env (dn_approval d)) (\<lambda>r.
       case decision_refusal env r d of
         Some e \<Rightarrow> refuse e
       | None \<Rightarrow>
           after (if dn_decision d = Approve
                  then (case read_approved_action r of
                          Inl _ \<Rightarrow> give ()
                        | Inr params \<Rightarrow> h_authorize h env (dn_decider d) (dn_permissions d) (ap_subject r) params)
                  else give ()) (\<lambda>_.
           after (requester_holds env r) (\<lambda>holds.
             give (if \<not> holds then LostRequester r else if dn_decision d = Reject then ToReject r else ToApprove r))))"

definition claim_approval :: "approval_env \<Rightarrow> approval_row \<Rightarrow> approval_decision \<Rightarrow> approval_status \<Rightarrow> approval_row approval_tx" where
  "claim_approval env r d status =
     after (approvals_call (approval_claim (ae_err env ''claim'') (ae_now env) (ap_id r) status (dn_decider d) (dn_note d))) (\<lambda>claimed.
       case claimed of
         None \<Rightarrow> refuse AlreadyDecided
       | Some row \<Rightarrow>
           after (announce_approval env ''admin.approval.decided'' r
                    [(''actorUserId'', JStr (dn_decider d)),
                     (''outcome'', JStr (if status = Approved then ''approved'' else ''rejected'')), (''note'', JStr (dn_note d))]) (\<lambda>_.
             give row))"

definition record_failure_tx :: "approval_env \<Rightarrow> approval_row \<Rightarrow> approval_decision \<Rightarrow> string \<Rightarrow> unit approval_tx" where
  "record_failure_tx env r d reason =
     after (approvals_call (approval_mark_failed (ae_err env ''markFailed'') (ae_now env) (ap_id r) (dn_decider d) (dn_note d) reason)) (\<lambda>marked.
       if \<not> marked then give ()
       else announce_approval env ''admin.approval.failed'' r [(''actorUserId'', JStr (dn_decider d)), (''reason'', JStr reason)])"

text \<open>What goes wrong while a failure is recorded is only reported.\<close>

definition record_failure :: "approval_env \<Rightarrow> approval_row \<Rightarrow> approval_decision \<Rightarrow> string \<Rightarrow> approval_world \<Rightarrow> approval_world" where
  "record_failure env r d reason w = fst (run_tx (x_commit_error (ae_call env)) (record_failure_tx env r d reason) w)"

definition approve_body :: "approval_env \<Rightarrow> approval_handlers \<Rightarrow> approval_row \<Rightarrow> approval_decision \<Rightarrow> unit approval_tx" where
  "approve_body env h r d =
     after (claim_approval env r d Approved) (\<lambda>row.
       case read_approved_action row of
         Inl e \<Rightarrow> refuse e
       | Inr params \<Rightarrow>
           after (h_run h env (dn_decider d) (dn_permissions d) (ap_subject row) params) (\<lambda>_.
           after (approvals_call (mark_executed (ae_err env ''markExecuted'') (ap_id row) (ap_version row))) (\<lambda>marked.
             if \<not> marked then refuse AlreadyDecided
             else announce_approval env ''admin.approval.executed'' r [(''actorUserId'', JStr (dn_decider d))])))"

text \<open>\<open>later\<close> is the environment a failure is recorded in, after the run that failed.\<close>

definition approve ::
  "approval_env \<Rightarrow> approval_env \<Rightarrow> approval_handlers \<Rightarrow> approval_row \<Rightarrow> approval_decision \<Rightarrow> approval_world \<Rightarrow>
   approval_world \<times> (unit, approval_error) result throws" where
  "approve env later h r d w =
     (case run_tx (x_commit_error (ae_call env)) (approve_body env h r d) w of
        (w1, Inr (Inl e)) \<Rightarrow>
          (if (case claim_approval env r d Approved w of Inl _ \<Rightarrow> False | Inr _ \<Rightarrow> True)
           then (record_failure later r d (error_code e) w1, Inr (Inl e)) else (w1, Inr (Inl e)))
      | (w1, out) \<Rightarrow> (w1, out))"

definition reject ::
  "approval_env \<Rightarrow> approval_row \<Rightarrow> approval_decision \<Rightarrow> approval_world \<Rightarrow> approval_world \<times> (unit, approval_error) result throws" where
  "reject env r d w =
     run_tx (x_commit_error (ae_call env)) (after (claim_approval env r d Rejected) (\<lambda>_. give ())) w"

definition decide_act ::
  "approval_env \<Rightarrow> approval_env \<Rightarrow> approval_handlers \<Rightarrow> approval_decision \<Rightarrow> decision_verdict \<Rightarrow> approval_world \<Rightarrow>
   approval_world \<times> (unit, approval_error) result throws" where
  "decide_act env later h d v w =
     (case v of
        LostRequester r \<Rightarrow> (record_failure env r d (error_code RequesterLost) w, Inr (fail RequesterLost))
      | ToReject r \<Rightarrow> reject env r d w
      | ToApprove r \<Rightarrow> approve env later h r d w)"

text \<open>A decision nobody interferes with.\<close>

definition decide ::
  "approval_env \<Rightarrow> approval_env \<Rightarrow> approval_handlers \<Rightarrow> approval_decision \<Rightarrow> approval_world \<Rightarrow>
   approval_world \<times> (unit, approval_error) result throws" where
  "decide env later h d w =
     (case decide_checks env h d w of
        Inl (Threw e) \<Rightarrow> (w, Inl e)
      | Inl (Refused e) \<Rightarrow> (w, Inr (fail e))
      | Inr (v, _) \<Rightarrow> decide_act env later h d v w)"

section \<open>Closing\<close>

definition cancel_tx :: "approval_env \<Rightarrow> approval_row \<Rightarrow> ident \<Rightarrow> unit approval_tx" where
  "cancel_tx env r user =
     after (approvals_call (approval_cancel (ae_err env ''cancel'') (ae_now env) (ap_id r) user)) (\<lambda>cancelled.
       case cancelled of
         None \<Rightarrow> refuse AlreadyDecided
       | Some _ \<Rightarrow> announce_approval env ''admin.approval.cancelled'' r [(''actorUserId'', JStr user)])"

definition cancel_checks :: "approval_env \<Rightarrow> ident \<Rightarrow> ident \<Rightarrow> approval_row approval_tx" where
  "cancel_checks env i user =
     after (approval_get env i) (\<lambda>r.
       if ap_requester r \<noteq> user then refuse ApprovalNotFound
       else if ap_status r \<noteq> Pending then refuse AlreadyDecided
       else give r)"

definition expire_due_tx :: "approval_env \<Rightarrow> nat \<Rightarrow> nat approval_tx" where
  "expire_due_tx env batch_size =
     after (approvals_call (expire_due (ae_err env ''expireDue'') (ae_now env) (ae_locked env) batch_size)) (\<lambda>due.
     after (each (\<lambda>r. announce_approval env ''admin.approval.expired'' r [(''actorUserId'', JNull)]) due) (\<lambda>_.
       give (length due)))"

definition close_for_deleted_user_tx :: "approval_env \<Rightarrow> ident \<Rightarrow> unit approval_tx" where
  "close_for_deleted_user_tx env user =
     after (approvals_call (close_for_deleted_user (ae_err env ''closeForDeletedUser'') (ae_now env) user)) (\<lambda>closed.
       each (\<lambda>r. announce_approval env ''admin.approval.cancelled'' r [(''actorUserId'', JNull)]) closed)"

end
