(* ===== verification/Approval_Effects.thy ===== *)
theory Approval_Effects
  imports Approvals Staff_Correct
begin

text \<open>
  What the transactions of the approvals did to the table of requests: the rules for reading them
  backwards, what a handler of an action must satisfy, and the effect of each transaction.
\<close>

section \<open>What leaves the requests alone\<close>

definition spares_requests :: "(approval_world, 'e, 'a) tx \<Rightarrow> bool" where
  "spares_requests m \<longleftrightarrow> (\<forall>w y w'. m w = Inr (y, w') \<longrightarrow> aw_approvals w' = aw_approvals w)"

lemma spares_requestsD: "spares_requests m \<Longrightarrow> m w = Inr (y, w') \<Longrightarrow> aw_approvals w' = aw_approvals w"
  by (auto simp: spares_requests_def)

named_theorems sparing \<open>transactions that leave the requests alone\<close>

lemma spares_after [sparing]: "spares_requests m \<Longrightarrow> (\<And>a. spares_requests (f a)) \<Longrightarrow> spares_requests (after m f)"
  unfolding spares_requests_def by (auto simp: after_Inr)

lemma spares_by_staff [sparing]: "spares_requests m \<Longrightarrow> spares_requests (by_staff m)"
  by (auto simp: spares_requests_def by_staff_def split: sum.splits exit.splits)

lemma spares_give [sparing]: "spares_requests (give y)"
  by (auto simp: spares_requests_def give_def)

lemma spares_refuse [sparing]: "spares_requests (refuse e)"
  by (auto simp: spares_requests_def refuse_def)

lemma spares_check [sparing]: "spares_requests (check r)"
  by (auto simp: spares_requests_def check_def split: sum.splits)

lemma spares_store_read [sparing]: "spares_requests (store_read err e msg f)"
  by (auto simp: spares_requests_def store_read_def split: option.splits)

lemma spares_store_call [sparing]: "spares_requests (store_call err op)"
  by (auto simp: spares_requests_def store_call_def split: prod.splits sum.splits)

lemma spares_emit [sparing]: "spares_requests (emit x type kind agg body)"
  by (auto simp: spares_requests_def emit_def split: sum.splits)

lemma spares_each [sparing]: "(\<And>a. spares_requests (f a)) \<Longrightarrow> spares_requests (each f xs)"
  by (induction xs) (auto intro: sparing)

lemma spares_row [sparing]: "spares_requests (granting_row x method user)" "spares_requests (lock_active_managers x)"
  unfolding granting_row_def lock_active_managers_def by (rule sparing)+

lemma spares_announce [sparing]:
  "spares_requests (announce_impersonations_ended x reason ended)"
  "spares_requests (announce_sessions_ended x who ended')"
  "spares_requests (announce_revoked x actor ended)" "spares_requests (announce_ended x actor both)"
  unfolding announce_revoked_def announce_ended_def announce_impersonations_ended_def announce_sessions_ended_def
  by (intro sparing)+

lemma spares_if [sparing]: "spares_requests m \<Longrightarrow> spares_requests m' \<Longrightarrow> spares_requests (if b then m else m')"
  by simp

lemma spares_option [sparing]:
  "spares_requests m \<Longrightarrow> (\<And>a. spares_requests (f a)) \<Longrightarrow> spares_requests (case v of None \<Rightarrow> m | Some a \<Rightarrow> f a)"
  by (cases v) simp_all

lemma spares_end [sparing]: "spares_requests (end_impersonations x actor target)" "spares_requests (end_impersonations_if_lost x actor target)"
  unfolding end_impersonations_if_lost_def end_impersonations_def by (intro sparing)+

lemma spares_refusals [sparing]:
  "spares_requests (ban_refusal x perms target)" "spares_requests (revocable_role x target)"
  "spares_requests (override_refusal x actor perms target p effect expires)" "spares_requests (refuse_target x perms target)"
  unfolding ban_refusal_def revocable_role_def override_refusal_def refuse_target_def Let_def by (intro sparing)+

lemma spares_calls [sparing]:
  "spares_requests (assign_role x actor perms target role expected)" "spares_requests (revoke_staff x actor target)"
  "spares_requests (set_override x actor perms target p effect expires)" "spares_requests (remove_override x actor perms target i)"
  "spares_requests (moderate_ban x perms target (moderation_ban x actor target reason expires_in))"
  unfolding assign_role_def staff_add_def revoke_staff_def set_override_def remove_override_def moderate_ban_def moderation_ban_def Let_def
  by (intro sparing)+

lemma run_action_spares: "spares_requests (run_action env actor perms subject params)"
  unfolding run_action_def Let_def by (cases params) (simp_all add: sparing)

section \<open>What a handler must satisfy\<close>

text \<open>
  The service decides on requests; what it asks of a handler is that what it prepares can be read back
  as a request of its action, and that running an action leaves the requests alone and touches nobody
  but the subject.
\<close>

fun readable :: "approval_action \<Rightarrow> stored_params \<Rightarrow> bool" where
  "readable BanPermanent params \<longleftrightarrow> (case params of BanParams _ _ \<Rightarrow> True | _ \<Rightarrow> False)"
| "readable RoleChange params \<longleftrightarrow> (case params of RoleParams _ _ \<Rightarrow> True | _ \<Rightarrow> False)"
| "readable StaffRevoke params \<longleftrightarrow> params = EmptyParams"
| "readable PermissionOverride params \<longleftrightarrow> (case params of SetParams _ _ _ \<Rightarrow> True | RemoveParams _ _ _ _ \<Rightarrow> True | _ \<Rightarrow> False)"

lemma read_readable: "readable (ap_action r) (ap_params r) \<Longrightarrow> read_approved_action r = Inr (ap_params r)"
  by (cases "ap_action r"; cases "ap_params r") (simp_all add: read_approved_action_def)

locale approval_handling =
  fixes h :: approval_handlers
  assumes prepare_readable: "h_prepare h env actor perms subject req w = Inr (params, w') \<Longrightarrow> readable (action_of req) params"
    and run_spares: "spares_requests (h_run h env actor perms subject params)"
    and run_on_subject: "h_run h env actor perms subject params w = Inr (u, w') \<Longrightarrow> others_same subject (aw_staff w) (aw_staff w')"

text \<open>The calls of the staff behind the stored requests.\<close>

fun call_of_params :: "approval_env \<Rightarrow> stored_params \<Rightarrow> staff_call" where
  "call_of_params env (BanParams reason expires_in) = BanUser reason expires_in"
| "call_of_params env (RoleParams role from_role) = AssignRole role (Some from_role)"
| "call_of_params env EmptyParams = RevokeStaff"
| "call_of_params env (SetParams p effect expires) = SetOverride p effect (map_option (ae_date_of env) expires)"
| "call_of_params env (RemoveParams i p effect expires) = RemoveOverride i"

lemma by_staff_Inr: "by_staff m w = Inr out \<longleftrightarrow> m w = Inr out"
  by (auto simp: by_staff_def split: sum.splits exit.splits)

lemma run_action_call:
  "run_action env actor perms subject params w = Inr (u, w') \<longleftrightarrow>
     staff_call_tx (ae_call env) actor perms subject (call_of_params env params) w = Inr (u, w')"
  by (cases params) (simp_all add: run_action_def Let_def by_staff_Inr staff_call_tx_def)

lemma prepare_action_readable:
  "prepare_action env actor perms subject req w = Inr (params, w') \<Longrightarrow> readable (action_of req) params"
  by (cases req) (auto simp: prepare_action_def Let_def after_Inr tx_simps)

interpretation module: approval_handling module_handlers
  by unfold_locales
    (simp_all add: module_handlers_def prepare_action_readable run_action_spares run_action_call call_touches_target_only)

section \<open>Reading the transactions backwards\<close>

lemma approvals_call_Inr:
  "approvals_call op w = Inr (y, w') \<longleftrightarrow> (\<exists>t. op (aw_approvals w) = (t, Inr y) \<and> w' = w\<lparr>aw_approvals := t\<rparr>)"
  by (auto simp: approvals_call_def split: prod.splits sum.splits)

lemma checked_update_Inr:
  "checked_update err msg p f t = (t', Inr rows) \<longleftrightarrow>
     err = None \<and> (\<forall>r \<in> set t. p r \<longrightarrow> four_eyes_ok (f r)) \<and> t' = sql_update p f t \<and> rows = sql_returning p f t"
  by (auto simp: checked_update_def list_ex_iff)

lemma map_out_Inr: "map_out g out = (t, Inr y) \<longleftrightarrow> (\<exists>x. out = (t, Inr x) \<and> y = g x)"
  by (auto simp: map_out_def split: prod.splits sum.splits)

lemma first_of_returning:
  assumes "first_of (sql_returning p f t) = Some row"
  obtains old where "old \<in> set t" and "p old" and "row = f old"
proof -
  have "row \<in> set (sql_returning p f t)" using assms by (cases "sql_returning p f t") auto
  then show thesis by (auto simp: sql_returning_def intro: that)
qed

lemmas statement_simps = approvals_call_Inr checked_update_Inr map_out_Inr

text \<open>An announcement changes neither the staff nor the requests.\<close>

lemma announced_same:
  assumes "announce_approval env type r extra w = Inr (u, w')"
  shows "aw_staff w' = aw_staff w \<and> aw_approvals w' = aw_approvals w"
  using keeps_staffD [OF keeps_emit] spares_requestsD [OF spares_emit] assms by (auto simp: announce_approval_def)

lemma announced_each_same:
  assumes "each (\<lambda>r. announce_approval env type r extra) rs w = Inr (u, w')"
  shows "aw_staff w' = aw_staff w \<and> aw_approvals w' = aw_approvals w"
  using keeps_staffD [OF keeps_each [OF keeps_emit]] spares_requestsD [OF spares_each [OF spares_emit]] assms
  by (auto simp: announce_approval_def)

section \<open>Claims\<close>

abbreviation claims :: "approval_env \<Rightarrow> ident \<Rightarrow> approval_row \<Rightarrow> bool" where
  "claims env i r \<equiv> ap_id r = i \<and> pending_and_live (ae_now env) r"

lemma claim_effect:
  assumes "claim_approval env r d status w = Inr (row, w')"
  obtains old where "old \<in> set (aw_approvals w)" and "claims env (ap_id r) old"
    and "row = claimed_row (ae_now env) status (dn_decider d) (dn_note d) old"
    and "aw_approvals w' = sql_update (claims env (ap_id r)) (claimed_row (ae_now env) status (dn_decider d) (dn_note d)) (aw_approvals w)"
    and "aw_staff w' = aw_staff w"
proof -
  obtain claimed w1 where c: "approvals_call (approval_claim (ae_err env ''claim'') (ae_now env) (ap_id r) status (dn_decider d) (dn_note d)) w
        = Inr (Some row, w1)"
    and a: "aw_staff w' = aw_staff w1" "aw_approvals w' = aw_approvals w1"
    using assms by (auto simp: claim_approval_def after_Inr tx_simps dest!: announced_same split: option.splits)
  have t: "aw_approvals w1 = sql_update (claims env (ap_id r)) (claimed_row (ae_now env) status (dn_decider d) (dn_note d)) (aw_approvals w)"
    and s: "aw_staff w1 = aw_staff w"
    and f: "first_of (sql_returning (claims env (ap_id r)) (claimed_row (ae_now env) status (dn_decider d) (dn_note d)) (aw_approvals w)) = Some row"
    using c by (auto simp: statement_simps approval_claim_def)
  from f show thesis by (rule first_of_returning) (use t s a that in simp)
qed

lemma read_claimed: "read_approved_action (claimed_row now status decider note r) = read_approved_action r"
  by (cases "ap_action r"; cases "ap_params r") (simp_all add: read_approved_action_def claimed_row_def)

lemma reject_effect:
  assumes "reject env r d w = (w', out)"
  shows "w' = w \<or> (\<exists>old \<in> set (aw_approvals w). claims env (ap_id r) old
      \<and> aw_approvals w' = sql_update (claims env (ap_id r)) (claimed_row (ae_now env) Rejected (dn_decider d) (dn_note d)) (aw_approvals w)
      \<and> aw_staff w' = aw_staff w)"
proof -
  from assms show ?thesis unfolding reject_def
  proof (cases rule: run_tx_cases)
    case (2 u)
    then obtain row where "claim_approval env r d Rejected w = Inr (row, w')" by (auto simp: after_Inr tx_simps)
    then show ?thesis by (rule claim_effect) blast
  qed simp
qed

text \<open>What an approval that went through leaves in the table: the claim and the mark, in one.\<close>

definition executed_row :: "instant \<Rightarrow> ident \<Rightarrow> string \<Rightarrow> approval_row \<Rightarrow> approval_row" where
  "executed_row now decider note r =
     (claimed_row now Approved decider note r)\<lparr>ap_status := Executed, ap_version := ap_version r + 2\<rparr>"

lemma sql_update_after_update:
  assumes "\<And>r. r \<in> set t \<Longrightarrow> p r \<Longrightarrow> q (f r)" and "\<And>r. r \<in> set t \<Longrightarrow> \<not> p r \<Longrightarrow> \<not> q r"
  shows "sql_update q g (sql_update p f t) = sql_update p (\<lambda>r. g (f r)) t"
  using assms by (induction t) auto

lemma executed_in_one:
  assumes "keyed ap_id t" and "\<And>r. r \<in> set t \<Longrightarrow> ap_status r \<noteq> Approved" and "old \<in> set t" and "ap_id old = i \<and> pending_and_live now old"
  shows "sql_update (\<lambda>r. ap_id r = i \<and> ap_status r = Approved \<and> ap_version r = ap_version old + 1)
           (\<lambda>r. r\<lparr>ap_status := Executed, ap_version := ap_version r + 1\<rparr>)
           (sql_update (\<lambda>r. ap_id r = i \<and> pending_and_live now r) (claimed_row now Approved decider note) t)
         = sql_update (\<lambda>r. ap_id r = i \<and> pending_and_live now r) (executed_row now decider note) t"
proof -
  have "sql_update (\<lambda>r. ap_id r = i \<and> ap_status r = Approved \<and> ap_version r = ap_version old + 1)
           (\<lambda>r. r\<lparr>ap_status := Executed, ap_version := ap_version r + 1\<rparr>)
           (sql_update (\<lambda>r. ap_id r = i \<and> pending_and_live now r) (claimed_row now Approved decider note) t)
      = sql_update (\<lambda>r. ap_id r = i \<and> pending_and_live now r)
           (\<lambda>r. (claimed_row now Approved decider note r)\<lparr>ap_status := Executed, ap_version := ap_version (claimed_row now Approved decider note r) + 1\<rparr>) t"
  proof (rule sql_update_after_update)
    fix r assume r: "r \<in> set t" "ap_id r = i \<and> pending_and_live now r"
    then have "r = old" using keyed_unique [OF assms(1) r(1) assms(3)] assms(4) by simp
    then show "ap_id (claimed_row now Approved decider note r) = i \<and> ap_status (claimed_row now Approved decider note r) = Approved
        \<and> ap_version (claimed_row now Approved decider note r) = ap_version old + 1"
      using r(2) by (simp add: claimed_row_def)
  next
    fix r assume "r \<in> set t" and "\<not> (ap_id r = i \<and> pending_and_live now r)"
    then show "\<not> (ap_id r = i \<and> ap_status r = Approved \<and> ap_version r = ap_version old + 1)" using assms(2) by blast
  qed
  also have "\<dots> = sql_update (\<lambda>r. ap_id r = i \<and> pending_and_live now r) (executed_row now decider note) t"
    by (intro arg_cong [where f = "\<lambda>g. sql_update _ g t"] ext) (simp add: executed_row_def claimed_row_def)
  finally show ?thesis .
qed

context approval_handling
begin

lemma approve_body_effect:
  assumes "approve_body env h r d w = Inr (u, w')"
    and "keyed ap_id (aw_approvals w)" and "\<And>r. r \<in> set (aw_approvals w) \<Longrightarrow> ap_status r \<noteq> Approved"
  obtains old params wa wb where "old \<in> set (aw_approvals w)" and "claims env (ap_id r) old"
    and "read_approved_action old = Inr params"
    and "h_run h env (dn_decider d) (dn_permissions d) (ap_subject old) params wa = Inr ((), wb)"
    and "aw_staff wa = aw_staff w" and "aw_staff w' = aw_staff wb"
    and "aw_approvals w' = sql_update (claims env (ap_id r)) (executed_row (ae_now env) (dn_decider d) (dn_note d)) (aw_approvals w)"
proof -
  let ?f = "claimed_row (ae_now env) Approved (dn_decider d) (dn_note d)"
  obtain row w1 where c: "claim_approval env r d Approved w = Inr (row, w1)"
    and rest: "(case read_approved_action row of Inl e \<Rightarrow> refuse e
       | Inr params \<Rightarrow>
           after (h_run h env (dn_decider d) (dn_permissions d) (ap_subject row) params) (\<lambda>_.
           after (approvals_call (mark_executed (ae_err env ''markExecuted'') (ap_id row) (ap_version row))) (\<lambda>marked.
             if \<not> marked then refuse AlreadyDecided
             else announce_approval env ''admin.approval.executed'' r [(''actorUserId'', JStr (dn_decider d))]))) w1 = Inr (u, w')"
    using assms(1) by (auto simp: approve_body_def after_Inr)
  obtain old where old: "old \<in> set (aw_approvals w)" "claims env (ap_id r) old" "row = ?f old"
    and w1: "aw_approvals w1 = sql_update (claims env (ap_id r)) ?f (aw_approvals w)" "aw_staff w1 = aw_staff w"
    using c by (rule claim_effect)
  obtain params where params: "read_approved_action row = Inr params"
    using rest by (cases "read_approved_action row") (simp_all add: refuse_def)
  obtain w2 w3 where run: "h_run h env (dn_decider d) (dn_permissions d) (ap_subject row) params w1 = Inr ((), w2)"
    and m: "approvals_call (mark_executed (ae_err env ''markExecuted'') (ap_id row) (ap_version row)) w2 = Inr (True, w3)"
    and a: "aw_staff w' = aw_staff w3" "aw_approvals w' = aw_approvals w3"
    using rest params by (auto simp: after_Inr tx_simps dest!: announced_same split: if_splits)
  have "aw_approvals w2 = aw_approvals w1" by (rule spares_requestsD [OF run_spares run])
  moreover have "ap_id row = ap_id r" "ap_version row = ap_version old + 1" using old(2,3) by (simp_all add: claimed_row_def)
  ultimately have "aw_approvals w3 = sql_update (\<lambda>x. ap_id x = ap_id r \<and> ap_status x = Approved \<and> ap_version x = ap_version old + 1)
        (\<lambda>x. x\<lparr>ap_status := Executed, ap_version := ap_version x + 1\<rparr>) (aw_approvals w1)" "aw_staff w3 = aw_staff w2"
    using m by (auto simp: statement_simps mark_executed_def)
  moreover have "read_approved_action old = Inr params" "ap_subject row = ap_subject old"
    using params old(3) by (simp_all add: read_claimed) (simp add: claimed_row_def)
  ultimately show thesis
    using old run w1 a executed_in_one [OF assms(2,3) old(1,2)] by (intro that [of old params w1 w2]) simp_all
qed

end

end
