(* ===== verification/Approval_Rows.thy ===== *)
theory Approval_Rows
  imports Approval_Effects
begin

text \<open>
  Requests in order: what each status says of the other columns, one open request for an action and a
  subject, and that every statement keeps this, leaves what was settled as it was settled and executes
  nothing, except the claim and mark of an execution, which settle one pending request.
\<close>

section \<open>Well-formed requests\<close>

definition decided_by_other :: "approval_row \<Rightarrow> bool" where
  "decided_by_other r \<longleftrightarrow>
     (case ap_decider r of None \<Rightarrow> False | Some d \<Rightarrow> d \<noteq> ap_requester r \<and> d \<noteq> ap_subject r) \<and> ap_decided r \<noteq> None"

definition approval_ok :: "approval_row \<Rightarrow> bool" where
  "approval_ok r \<longleftrightarrow> (case ap_status r of
     Pending \<Rightarrow> ap_decider r = None \<and> ap_note r = None \<and> ap_reason r = None \<and> ap_decided r = None \<and> ap_version r = 0
                \<and> readable (ap_action r) (ap_params r)
   | Approved \<Rightarrow> False
   | Rejected \<Rightarrow> decided_by_other r \<and> ap_reason r = None \<and> ap_version r = 1
   | Executed \<Rightarrow> decided_by_other r \<and> ap_reason r = None \<and> ap_version r = 2
   | RequestFailed \<Rightarrow> decided_by_other r \<and> ap_reason r \<noteq> None \<and> ap_version r = 1
   | Cancelled \<Rightarrow> ap_decider r = None \<and> ap_reason r = None \<and> ap_decided r \<noteq> None \<and> ap_version r = 1
   | Expired \<Rightarrow> ap_decider r = None \<and> ap_reason r = None \<and> ap_decided r \<noteq> None \<and> ap_version r = 1)"

definition one_open :: "approval_row list \<Rightarrow> bool" where
  "one_open t \<longleftrightarrow> (\<forall>r \<in> set t. \<forall>r' \<in> set t. ap_status r = Pending \<and> ap_status r' = Pending
     \<and> ap_action r = ap_action r' \<and> ap_subject r = ap_subject r' \<longrightarrow> r = r')"

definition approvals_ok :: "approval_row list \<Rightarrow> bool" where
  "approvals_ok t \<longleftrightarrow> keyed ap_id t \<and> (\<forall>r \<in> set t. approval_ok r) \<and> one_open t"

text \<open>What a request asks never changes, and once it is settled how it was settled does not either.\<close>

definition same_request :: "approval_row \<Rightarrow> approval_row \<Rightarrow> bool" where
  "same_request r r' \<longleftrightarrow> ap_id r' = ap_id r \<and> ap_action r' = ap_action r \<and> ap_subject r' = ap_subject r
     \<and> ap_requester r' = ap_requester r \<and> ap_expires r' = ap_expires r \<and> ap_created r' = ap_created r"

definition settlement_kept :: "approval_row \<Rightarrow> approval_row \<Rightarrow> bool" where
  "settlement_kept r r' \<longleftrightarrow> ap_status r' = ap_status r \<and> ap_decider r' = ap_decider r \<and> ap_reason r' = ap_reason r
     \<and> ap_decided r' = ap_decided r \<and> ap_version r' = ap_version r"

definition row_evolves :: "approval_row \<Rightarrow> approval_row \<Rightarrow> bool" where
  "row_evolves r r' \<longleftrightarrow> same_request r r' \<and> (ap_status r \<noteq> Pending \<longrightarrow> settlement_kept r r')
     \<and> (ap_status r' = Pending \<longrightarrow> r' = r)"

definition keeps_settled :: "approval_row list \<Rightarrow> approval_row list \<Rightarrow> bool" where
  "keeps_settled t t' \<longleftrightarrow> (\<forall>r \<in> set t. \<exists>r' \<in> set t'. row_evolves r r')"

definition none_executed :: "approval_row list \<Rightarrow> approval_row list \<Rightarrow> bool" where
  "none_executed t t' \<longleftrightarrow> (\<forall>r' \<in> set t'. ap_status r' = Executed \<longrightarrow> (\<exists>r \<in> set t. row_evolves r r' \<and> ap_status r = Executed))"

text \<open>What every transaction but an execution does to a table in order.\<close>

definition advances :: "approval_row list \<Rightarrow> approval_row list \<Rightarrow> bool" where
  "advances t t' \<longleftrightarrow> (approvals_ok t \<longrightarrow> approvals_ok t' \<and> keeps_settled t t' \<and> none_executed t t')"

lemma row_evolves_refl [simp]: "row_evolves r r"
  by (simp add: row_evolves_def same_request_def settlement_kept_def)

lemma row_evolves_trans:
  assumes "row_evolves a b" and "row_evolves b c"
  shows "row_evolves a c"
proof -
  have same: "same_request a b" "same_request b c" and kept: "ap_status a \<noteq> Pending \<longrightarrow> settlement_kept a b"
      "ap_status b \<noteq> Pending \<longrightarrow> settlement_kept b c"
    and still: "ap_status b = Pending \<longrightarrow> b = a" "ap_status c = Pending \<longrightarrow> c = b"
    using assms unfolding row_evolves_def by blast+
  have "same_request a c" using same by (simp add: same_request_def)
  moreover have "settlement_kept a c" if "ap_status a \<noteq> Pending"
    using kept that by (simp add: settlement_kept_def)
  moreover have "c = a" if "ap_status c = Pending"
  proof -
    have "c = b" using still(2) that by blast
    then show ?thesis using still(1) that by blast
  qed
  ultimately show ?thesis by (simp add: row_evolves_def)
qed

lemma keeps_settled_subset:
  assumes "set t \<subseteq> set t'"
  shows "keeps_settled t t'"
  unfolding keeps_settled_def
proof
  fix r assume "r \<in> set t"
  then show "\<exists>r' \<in> set t'. row_evolves r r'" using assms by (intro bexI [where x = r]) auto
qed

lemma none_executed_subset:
  assumes "\<And>r. r \<in> set t' \<Longrightarrow> ap_status r = Executed \<Longrightarrow> r \<in> set t"
  shows "none_executed t t'"
  unfolding none_executed_def
proof (intro ballI impI)
  fix r' assume "r' \<in> set t'" "ap_status r' = Executed"
  then show "\<exists>r \<in> set t. row_evolves r r' \<and> ap_status r = Executed" using assms by (intro bexI [where x = r']) simp_all
qed

lemma advances_refl [simp]: "advances t t"
  by (simp add: advances_def keeps_settled_subset none_executed_subset)

lemma advances_trans:
  assumes "advances a b" and "advances b c"
  shows "advances a c"
  unfolding advances_def
proof (intro impI conjI)
  assume a: "approvals_ok a"
  then have b: "approvals_ok b" "keeps_settled a b" "none_executed a b" using assms(1) by (simp_all add: advances_def)
  then have c: "approvals_ok c" "keeps_settled b c" "none_executed b c" using assms(2) by (simp_all add: advances_def)
  show "approvals_ok c" by (fact c)
  show "keeps_settled a c" using b(2) c(2) row_evolves_trans unfolding keeps_settled_def by meson
  show "none_executed a c" using b(3) c(3) row_evolves_trans unfolding none_executed_def by meson
qed

lemma settled_row_evolves:
  "same_request r r' \<Longrightarrow> ap_status r = Pending \<Longrightarrow> ap_status r' \<noteq> Pending \<Longrightarrow> row_evolves r r'"
  by (simp add: row_evolves_def)

lemma one_open_update:
  assumes "one_open t" and "\<And>r. r \<in> set t \<Longrightarrow> p r \<Longrightarrow> ap_status (f r) \<noteq> Pending"
  shows "one_open (sql_update p f t)"
  unfolding one_open_def
proof (intro ballI impI)
  fix r r' assume r: "r \<in> set (sql_update p f t)" "r' \<in> set (sql_update p f t)"
    and same: "ap_status r = Pending \<and> ap_status r' = Pending \<and> ap_action r = ap_action r' \<and> ap_subject r = ap_subject r'"
  have "r \<in> set t" using r(1) by (rule in_updateE) (use same assms(2) in auto)
  moreover have "r' \<in> set t" using r(2) by (rule in_updateE) (use same assms(2) in auto)
  ultimately show "r = r'" using assms(1) same by (simp add: one_open_def)
qed

lemma keeps_settled_update:
  assumes "\<And>r. r \<in> set t \<Longrightarrow> p r \<Longrightarrow> row_evolves r (f r)"
  shows "keeps_settled t (sql_update p f t)"
  unfolding keeps_settled_def
proof
  fix r assume "r \<in> set t"
  then show "\<exists>r' \<in> set (sql_update p f t). row_evolves r r'"
    by (intro bex_update [of r]) (simp_all add: assms)
qed

text \<open>Requests settled together, other than by an execution.\<close>

lemma update_advances:
  assumes "\<And>r. approvals_ok t \<Longrightarrow> r \<in> set t \<Longrightarrow> p r \<Longrightarrow>
      ap_status r = Pending \<and> same_request r (f r) \<and> ap_status (f r) \<noteq> Pending \<and> ap_status (f r) \<noteq> Executed \<and> approval_ok (f r)"
  shows "advances t (sql_update p f t)"
  unfolding advances_def
proof (intro impI conjI)
  assume t: "approvals_ok t"
  note f = assms [OF t]
  have ev: "row_evolves r (f r)" if "r \<in> set t" "p r" for r
    using f [OF that] by (intro settled_row_evolves) simp_all
  show "keeps_settled t (sql_update p f t)" by (rule keeps_settled_update [OF ev])
  show "none_executed t (sql_update p f t)"
  proof (rule none_executed_subset)
    fix r' assume "r' \<in> set (sql_update p f t)" "ap_status r' = Executed"
    then show "r' \<in> set t" by (elim in_updateE) (use f in auto)
  qed
  have "keyed ap_id (sql_update p f t)"
    using t f by (simp add: approvals_ok_def keyed_sql_update same_request_def)
  moreover have "approval_ok r'" if "r' \<in> set (sql_update p f t)" for r'
    using that by (rule in_updateE) (use t f in \<open>auto simp: approvals_ok_def\<close>)
  moreover have "one_open (sql_update p f t)"
    using t f by (intro one_open_update) (auto simp: approvals_ok_def)
  ultimately show "approvals_ok (sql_update p f t)" by (simp add: approvals_ok_def)
qed

lemma close_advances:
  assumes "\<And>r. p r \<Longrightarrow> ap_status r = Pending" and "status = Cancelled \<or> status = Expired"
  shows "advances t (sql_update p (closed_row now status) t)"
proof (rule update_advances)
  fix r assume "approvals_ok t" "r \<in> set t" "p r"
  then have "approval_ok r" "ap_status r = Pending" using assms(1) by (auto simp: approvals_ok_def)
  then show "ap_status r = Pending \<and> same_request r (closed_row now status r) \<and> ap_status (closed_row now status r) \<noteq> Pending
      \<and> ap_status (closed_row now status r) \<noteq> Executed \<and> approval_ok (closed_row now status r)"
    using assms(2) by (auto simp: closed_row_def same_request_def approval_ok_def)
qed

text \<open>The requests of a subject who is gone lose what they said, not how they ended.\<close>

lemma scrub_advances:
  assumes "\<And>r. r \<in> set t \<Longrightarrow> ap_subject r = user \<Longrightarrow> ap_status r \<noteq> Pending"
  shows "advances t (sql_update (\<lambda>r. ap_subject r = user) (\<lambda>r. r\<lparr>ap_params := EmptyParams, ap_note := None\<rparr>) t)"
    (is "advances t (sql_update ?p ?f t)")
  unfolding advances_def
proof (intro impI conjI)
  assume t: "approvals_ok t"
  have ev: "row_evolves r (?f r)" if "r \<in> set t" "?p r" for r
    using assms [OF that] by (simp add: row_evolves_def same_request_def settlement_kept_def)
  show "keeps_settled t (sql_update ?p ?f t)" by (rule keeps_settled_update [OF ev])
  show "none_executed t (sql_update ?p ?f t)" unfolding none_executed_def
  proof (intro ballI impI)
    fix r' assume r': "r' \<in> set (sql_update ?p ?f t)" and x: "ap_status r' = Executed"
    from r' show "\<exists>r \<in> set t. row_evolves r r' \<and> ap_status r = Executed"
    proof (rule in_updateE)
      assume "r' \<in> set t"
      then show ?thesis using x by (intro bexI [of _ r']) simp_all
    next
      fix a assume "a \<in> set t" "?p a" "r' = ?f a"
      then show ?thesis using x ev [of a] by (intro bexI [of _ a]) simp_all
    qed
  qed
  have "keyed ap_id (sql_update ?p ?f t)" using t by (simp add: approvals_ok_def keyed_sql_update)
  moreover have "approval_ok r'" if "r' \<in> set (sql_update ?p ?f t)" for r'
    using that
  proof (rule in_updateE)
    assume "r' \<in> set t"
    then show ?thesis using t by (simp add: approvals_ok_def)
  next
    fix a assume a: "a \<in> set t" "?p a" "r' = ?f a"
    then have "approval_ok a" "ap_status a \<noteq> Pending" using t assms by (simp_all add: approvals_ok_def)
    then show ?thesis using a(3) by (cases "ap_status a"; cases "ap_decider a") (simp_all add: approval_ok_def decided_by_other_def)
  qed
  moreover have "one_open (sql_update ?p ?f t)"
    using t assms by (intro one_open_update) (auto simp: approvals_ok_def)
  ultimately show "approvals_ok (sql_update ?p ?f t)" by (simp add: approvals_ok_def)
qed

text \<open>A new request, where none is open.\<close>

lemma one_open_append:
  assumes "one_open t" and "\<And>r. r \<in> set t \<Longrightarrow> \<not> (ap_status r = Pending \<and> ap_action r = ap_action new \<and> ap_subject r = ap_subject new)"
  shows "one_open (t @ [new])"
  unfolding one_open_def
proof (intro ballI impI)
  fix r r' assume r: "r \<in> set (t @ [new])" "r' \<in> set (t @ [new])"
    and same: "ap_status r = Pending \<and> ap_status r' = Pending \<and> ap_action r = ap_action r' \<and> ap_subject r = ap_subject r'"
  show "r = r'"
  proof (cases "r \<in> set t \<and> r' \<in> set t")
    case True
    then show ?thesis using assms(1) same by (simp add: one_open_def)
  next
    case False
    then show ?thesis using r same assms(2) [of r] assms(2) [of r'] by auto
  qed
qed

lemma append_advances:
  assumes "ap_id new \<notin> ap_id ` set t" and "approval_ok new" and "ap_status new = Pending"
    and "\<not> list_ex (open_for (ap_action new) (ap_subject new)) t"
  shows "advances t (t @ [new])"
  unfolding advances_def
proof (intro impI conjI)
  assume t: "approvals_ok t"
  show "keeps_settled t (t @ [new])" by (rule keeps_settled_subset) auto
  show "none_executed t (t @ [new])" by (rule none_executed_subset) (use assms(3) in auto)
  have "\<not> (ap_status r = Pending \<and> ap_action r = ap_action new \<and> ap_subject r = ap_subject new)" if "r \<in> set t" for r
    using assms(4) that by (auto simp: list_ex_iff open_for_def)
  then have "one_open (t @ [new])" using t unfolding approvals_ok_def by (intro one_open_append) auto
  then show "approvals_ok (t @ [new])" using t assms(1,2) by (auto simp: approvals_ok_def keyed_def)
qed

section \<open>What each transaction does to the table\<close>

lemma expire_for_advances:
  assumes "expire_due_for err now action subject t = (t', Inr rows)"
  shows "advances t t'"
proof -
  have "t' = sql_update (\<lambda>r. ap_action r = action \<and> ap_subject r = subject \<and> pending_and_due now r) (closed_row now Expired) t"
    using assms by (simp add: expire_due_for_def checked_update_Inr)
  then show ?thesis by (auto intro!: close_advances simp: pending_and_due_def)
qed

lemma expire_due_advances:
  assumes "expire_due err now locked limit t = (t', Inr rows)"
  shows "advances t t'"
proof -
  let ?picked = "map ap_id (sql_select (\<lambda>r. pending_and_due now r \<and> ap_id r \<notin> set locked) ap_expires limit t)"
  have t': "t' = sql_update (\<lambda>r. ap_id r \<in> set ?picked) (closed_row now Expired) t"
    using assms by (simp add: expire_due_def Let_def checked_update_Inr)
  show ?thesis unfolding t'
  proof (rule update_advances)
    fix r assume t: "approvals_ok t" and r: "r \<in> set t" "ap_id r \<in> set ?picked"
    then obtain q where q: "q \<in> set t" "pending_and_due now q" "ap_id q = ap_id r" using set_sql_select by fastforce
    then have "q = r" using t r(1) by (intro keyed_unique [of ap_id t]) (simp_all add: approvals_ok_def)
    then have "ap_status r = Pending" "approval_ok r" using q t by (auto simp: pending_and_due_def approvals_ok_def)
    then show "ap_status r = Pending \<and> same_request r (closed_row now Expired r) \<and> ap_status (closed_row now Expired r) \<noteq> Pending
      \<and> ap_status (closed_row now Expired r) \<noteq> Executed \<and> approval_ok (closed_row now Expired r)"
      by (simp add: closed_row_def same_request_def approval_ok_def)
  qed
qed

lemma cancel_advances:
  assumes "approval_cancel err now i requester t = (t', Inr row)"
  shows "advances t t'"
proof -
  have "t' = sql_update (\<lambda>r. ap_id r = i \<and> ap_requester r = requester \<and> pending_and_live now r) (closed_row now Cancelled) t"
    using assms by (auto simp: approval_cancel_def statement_simps)
  then show ?thesis by (auto intro!: close_advances simp: pending_and_live_def)
qed

lemma close_for_deleted_advances:
  assumes "close_for_deleted_user err now user t = (t', Inr rows)"
  shows "advances t t'"
proof -
  let ?p = "\<lambda>r. ap_status r = Pending \<and> (ap_subject r = user \<or> ap_requester r = user)"
  let ?t = "sql_update ?p (closed_row now Cancelled) t"
  have t': "t' = sql_update (\<lambda>r. ap_subject r = user) (\<lambda>r. r\<lparr>ap_params := EmptyParams, ap_note := None\<rparr>) ?t"
    using assms by (auto simp: close_for_deleted_user_def checked_update_Inr split: prod.splits sum.splits)
  have "ap_status r \<noteq> Pending" if "r \<in> set ?t" "ap_subject r = user" for r
    using that(1) by (rule in_updateE) (use that(2) in \<open>auto simp: closed_row_def\<close>)
  then show ?thesis unfolding t' by (intro advances_trans [OF close_advances scrub_advances]) auto
qed

lemma create_advances:
  assumes "approval_create err now fresh (\<lambda>_ t. t) q t = (t', Inr (r, new))" and "\<And>n. fresh n \<notin> ap_id ` set t"
    and "readable (aq_action q) (aq_params q)"
  shows "advances t t'"
proof -
  have c: "create_attempts CREATE_ATTEMPTS now fresh (\<lambda>_ t. t) q t = (t', Inr (r, new))"
    using assms(1) by (auto simp: approval_create_def split: if_splits prod.splits sum.splits)
  have "t' = t \<or> (\<exists>n. t' = t @ [new_approval now (fresh n) q] \<and> \<not> list_ex (open_for (aq_action q) (aq_subject q)) t)"
    if "create_attempts k now fresh (\<lambda>_ t. t) q t = (t', Inr (r, new))" for k
    using that by (induction k) (auto simp: Let_def split: if_splits option.splits)
  from this [OF c] show ?thesis
  proof (elim disjE exE conjE)
    fix n assume "t' = t @ [new_approval now (fresh n) q]" "\<not> list_ex (open_for (aq_action q) (aq_subject q)) t"
    then show ?thesis using assms(2) [of n] assms(3)
      by (auto intro!: append_advances simp: new_approval_def approval_ok_def)
  qed simp
qed

lemma mark_failed_advances:
  assumes "approval_mark_failed err now i decider note reason t = (t', Inr marked)"
    and "\<And>r. r \<in> set t \<Longrightarrow> ap_id r = i \<Longrightarrow> decider \<noteq> ap_requester r \<and> decider \<noteq> ap_subject r"
  shows "advances t t'"
proof -
  have t': "t' = sql_update (\<lambda>r. ap_id r = i \<and> ap_status r = Pending) (failed_row now decider note reason) t"
    using assms(1) by (auto simp: approval_mark_failed_def statement_simps)
  show ?thesis unfolding t'
  proof (rule update_advances)
    fix r assume "approvals_ok t" and r: "r \<in> set t" "ap_id r = i \<and> ap_status r = Pending"
    then have "approval_ok r" by (simp add: approvals_ok_def)
    then show "ap_status r = Pending \<and> same_request r (failed_row now decider note reason r) \<and> ap_status (failed_row now decider note reason r) \<noteq> Pending
      \<and> ap_status (failed_row now decider note reason r) \<noteq> Executed \<and> approval_ok (failed_row now decider note reason r)"
      using r assms(2) [OF r(1)]
      by (simp add: failed_row_def claimed_row_def same_request_def approval_ok_def decided_by_other_def)
  qed
qed

lemma claim_rejected_advances:
  assumes "\<And>r. r \<in> set t \<Longrightarrow> ap_id r = i \<Longrightarrow> decider \<noteq> ap_requester r \<and> decider \<noteq> ap_subject r"
  shows "advances t (sql_update (\<lambda>r. ap_id r = i \<and> pending_and_live now r) (claimed_row now Rejected decider note) t)"
proof (rule update_advances)
  fix r assume "approvals_ok t" and r: "r \<in> set t" "ap_id r = i \<and> pending_and_live now r"
  then have "approval_ok r" by (simp add: approvals_ok_def)
  then show "ap_status r = Pending \<and> same_request r (claimed_row now Rejected decider note r) \<and> ap_status (claimed_row now Rejected decider note r) \<noteq> Pending
      \<and> ap_status (claimed_row now Rejected decider note r) \<noteq> Executed \<and> approval_ok (claimed_row now Rejected decider note r)"
    using r assms [OF r(1)]
    by (simp add: claimed_row_def same_request_def approval_ok_def decided_by_other_def pending_and_live_def)
qed

text \<open>An execution: one request that was pending is executed, and nothing else changes.\<close>

lemma execution_evolves:
  assumes "approvals_ok t" and "old \<in> set t" and "ap_id old = i \<and> pending_and_live now old"
    and "decider \<noteq> ap_requester old" and "decider \<noteq> ap_subject old"
    and "t' = sql_update (\<lambda>r. ap_id r = i \<and> pending_and_live now r) (executed_row now decider note) t"
  shows "approvals_ok t'" and "keeps_settled t t'" and "executed_row now decider note old \<in> set t'"
    and "\<And>r'. r' \<in> set t' \<Longrightarrow> r' \<noteq> executed_row now decider note old \<Longrightarrow> r' \<in> set t"
proof -
  let ?p = "\<lambda>r. ap_id r = i \<and> pending_and_live now r" and ?f = "executed_row now decider note"
  have only: "r = old" if "r \<in> set t" "?p r" for r
    using that assms(1,2,3) by (intro keyed_unique [of ap_id t]) (simp_all add: approvals_ok_def)
  have old: "approval_ok old" "ap_status old = Pending" using assms(1,2,3) by (simp_all add: approvals_ok_def pending_and_live_def)
  have new: "approval_ok (?f old)" "same_request old (?f old)" "ap_status (?f old) = Executed"
    using old assms(4,5) by (simp_all add: executed_row_def claimed_row_def approval_ok_def decided_by_other_def same_request_def)
  show "executed_row now decider note old \<in> set t'" unfolding assms(6) set_sql_update
    using assms(2,3) by (intro image_eqI [of _ _ old]) simp_all
  show sub: "r' \<in> set t" if "r' \<in> set t'" "r' \<noteq> ?f old" for r'
    using that(1) unfolding assms(6) by (rule in_updateE) (use only that(2) in auto)
  show "keeps_settled t t'" unfolding assms(6)
    by (intro keeps_settled_update settled_row_evolves) (use only new old in auto)
  have "keyed ap_id t'" unfolding assms(6) using assms(1)
    by (simp add: approvals_ok_def keyed_sql_update executed_row_def claimed_row_def)
  moreover have "approval_ok r'" if "r' \<in> set t'" for r'
    using sub [OF that] new(1) assms(1) by (cases "r' = ?f old") (simp_all add: approvals_ok_def)
  moreover have "one_open t'" unfolding assms(6)
    using assms(1) by (intro one_open_update) (simp_all add: approvals_ok_def executed_row_def)
  ultimately show "approvals_ok t'" by (simp add: approvals_ok_def)
qed

end
