(* ===== verification/Approval_Correct.thy ===== *)
theory Approval_Correct
  imports Approval_Rows
begin

text \<open>
  What the approvals guarantee, whatever the order in which people ask, decide, cancel and leave, and
  however late a decision acts on what it read: a request is settled once, what is executed was decided
  by another person than the one who asked and the one it is about, and its action and the mark of its
  execution commit together or not at all.
\<close>

section \<open>What a decision read\<close>

fun verdict_row :: "decision_verdict \<Rightarrow> approval_row" where
  "verdict_row (LostRequester r) = r"
| "verdict_row (ToReject r) = r"
| "verdict_row (ToApprove r) = r"

definition may_decide :: "approval_decision \<Rightarrow> approval_row \<Rightarrow> bool" where
  "may_decide d r \<longleftrightarrow> dn_decider d \<noteq> ap_requester r \<and> dn_decider d \<noteq> ap_subject r
     \<and> approval_action_permission (ap_action r) \<in> set (dn_permissions d)"

lemma decision_refusal_None:
  "decision_refusal env r d = None \<Longrightarrow> may_decide d r \<and> ap_status r = Pending \<and> x_date (ae_call env) < ap_expires r"
  by (auto simp: decision_refusal_def may_decide_def split: if_splits)

lemma checks_effect:
  assumes "decide_checks env h d w = Inr (v, w')"
  shows "may_decide d (verdict_row v)" and "verdict_row v \<in> set (aw_approvals w)"
    and "v = ToApprove r \<Longrightarrow> \<exists>w1 w2. requester_holds env r w1 = Inr (True, w2)"
proof -
  obtain r1 w1 where g: "approval_get env (dn_approval d) w = Inr (r1, w1)"
    and rest: "(case decision_refusal env r1 d of
         Some e \<Rightarrow> refuse e
       | None \<Rightarrow>
           after (if dn_decision d = Approve
                  then (case read_approved_action r1 of
                          Inl _ \<Rightarrow> give ()
                        | Inr params \<Rightarrow> h_authorize h env (dn_decider d) (dn_permissions d) (ap_subject r1) params)
                  else give ()) (\<lambda>_.
           after (requester_holds env r1) (\<lambda>holds.
             give (if \<not> holds then LostRequester r1 else if dn_decision d = Reject then ToReject r1 else ToApprove r1)))) w1 = Inr (v, w')"
    using assms by (auto simp: decide_checks_def after_Inr)
  then have n: "decision_refusal env r1 d = None" by (cases "decision_refusal env r1 d") (simp_all add: refuse_def)
  with rest obtain w2 w3 holds where h: "requester_holds env r1 w2 = Inr (holds, w3)"
    and v: "v = (if \<not> holds then LostRequester r1 else if dn_decision d = Reject then ToReject r1 else ToApprove r1)"
    by (auto simp: after_Inr tx_simps)
  have r1: "verdict_row v = r1" using v by simp
  show "may_decide d (verdict_row v)" using decision_refusal_None [OF n] r1 by simp
  have "r1 \<in> set (aw_approvals w)" using g by (auto simp: approval_get_def approval_find_def split: if_splits option.splits dest: row_of_Some)
  then show "verdict_row v \<in> set (aw_approvals w)" using r1 by simp
  show "\<exists>w1 w2. requester_holds env r w1 = Inr (True, w2)" if "v = ToApprove r" using h v that by (auto split: if_splits)
qed

text \<open>It may act long after it read; the request it is about is still there, with the same people in it.\<close>

definition still_about :: "approval_decision \<Rightarrow> decision_verdict \<Rightarrow> approval_row list \<Rightarrow> bool" where
  "still_about d v t \<longleftrightarrow> may_decide d (verdict_row v) \<and> (\<exists>r \<in> set t. same_request (verdict_row v) r)"

lemma still_about_row:
  assumes "approvals_ok t" and "still_about d v t" and "r \<in> set t" and "ap_id r = ap_id (verdict_row v)"
  shows "may_decide d r"
proof -
  obtain r0 where r0: "r0 \<in> set t" "same_request (verdict_row v) r0" and m: "may_decide d (verdict_row v)"
    using assms(2) by (auto simp: still_about_def)
  have "r = r0" using assms(1,3,4) r0 by (intro keyed_unique [of ap_id t]) (simp_all add: approvals_ok_def same_request_def)
  then show ?thesis using m r0(2) by (simp add: may_decide_def same_request_def)
qed

lemma same_request_trans: "same_request a b \<Longrightarrow> same_request b c \<Longrightarrow> same_request a c"
  by (simp add: same_request_def)

lemma still_about_later:
  assumes "still_about d v t" and "keeps_settled t t'"
  shows "still_about d v t'"
proof -
  obtain r where r: "r \<in> set t" "same_request (verdict_row v) r" and m: "may_decide d (verdict_row v)"
    using assms(1) by (auto simp: still_about_def)
  obtain r' where "r' \<in> set t'" "same_request r r'" using assms(2) r(1) by (auto simp: keeps_settled_def row_evolves_def)
  then show ?thesis unfolding still_about_def using m same_request_trans [OF r(2)] by blast
qed

section \<open>What acting on it does\<close>

lemma record_failure_effect:
  assumes "approvals_ok (aw_approvals w)" and "still_about d v (aw_approvals w)"
  shows "advances (aw_approvals w) (aw_approvals (record_failure env (verdict_row v) d reason w))
    \<and> aw_staff (record_failure env (verdict_row v) d reason w) = aw_staff w"
proof -
  obtain w' out where run: "run_tx (x_commit_error (ae_call env)) (record_failure_tx env (verdict_row v) d reason) w = (w', out)"
    by (cases "run_tx (x_commit_error (ae_call env)) (record_failure_tx env (verdict_row v) d reason) w")
  from run have "advances (aw_approvals w) (aw_approvals w') \<and> aw_staff w' = aw_staff w"
  proof (cases rule: run_tx_cases)
    case (2 u)
    then obtain marked w1 where c: "approvals_call (approval_mark_failed (ae_err env ''markFailed'') (ae_now env) (ap_id (verdict_row v))
          (dn_decider d) (dn_note d) reason) w = Inr (marked, w1)"
      and a: "aw_staff w' = aw_staff w1" "aw_approvals w' = aw_approvals w1"
      by (auto simp: record_failure_tx_def after_Inr tx_simps dest!: announced_same split: if_splits)
    have "approval_mark_failed (ae_err env ''markFailed'') (ae_now env) (ap_id (verdict_row v)) (dn_decider d) (dn_note d) reason (aw_approvals w)
        = (aw_approvals w1, Inr marked)" "aw_staff w1 = aw_staff w"
      using c by (auto simp: approvals_call_Inr)
    moreover from this(1) have "advances (aw_approvals w) (aw_approvals w1)"
      by (rule mark_failed_advances) (use still_about_row [OF assms] in \<open>auto simp: may_decide_def\<close>)
    ultimately show ?thesis using a by simp
  qed simp
  then show ?thesis using run by (simp add: record_failure_def)
qed

lemma reject_acts:
  assumes "approvals_ok (aw_approvals w)" and "still_about d v (aw_approvals w)" and "reject env (verdict_row v) d w = (w', out)"
  shows "advances (aw_approvals w) (aw_approvals w') \<and> aw_staff w' = aw_staff w"
  using reject_effect [OF assms(3)]
proof (elim disjE bexE conjE)
  assume "aw_approvals w' = sql_update (claims env (ap_id (verdict_row v))) (claimed_row (ae_now env) Rejected (dn_decider d) (dn_note d)) (aw_approvals w)"
    and "aw_staff w' = aw_staff w"
  then show ?thesis
    by (auto intro!: claim_rejected_advances dest: still_about_row [OF assms(1,2)] simp: may_decide_def)
qed simp

text \<open>
  A request executed: it was pending and live, its action ran on the staff as they were with the rights
  of the decider, and what that left and the mark on the request are what was committed.
\<close>

definition executes :: "approval_env \<Rightarrow> approval_handlers \<Rightarrow> approval_decision \<Rightarrow> ident \<Rightarrow> approval_world \<Rightarrow> approval_world \<Rightarrow> bool" where
  "executes env h d i w w' \<longleftrightarrow> (\<exists>old params wa wb. old \<in> set (aw_approvals w) \<and> claims env i old \<and> read_approved_action old = Inr params
     \<and> h_run h env (dn_decider d) (dn_permissions d) (ap_subject old) params wa = Inr ((), wb)
     \<and> aw_staff wa = aw_staff w \<and> aw_staff w' = aw_staff wb
     \<and> aw_approvals w' = sql_update (claims env i) (executed_row (ae_now env) (dn_decider d) (dn_note d)) (aw_approvals w))"

definition went_through :: "decision_verdict \<Rightarrow> (unit, approval_error) result throws \<Rightarrow> bool" where
  "went_through v out \<longleftrightarrow> (case v of ToApprove r \<Rightarrow> out = Inr (Inr ()) | _ \<Rightarrow> False)"

context approval_handling
begin

lemma approve_acts:
  assumes "approvals_ok (aw_approvals w)" and "still_about d (ToApprove r) (aw_approvals w)"
    and "approve env later h r d w = (w', out)"
  shows "if out = Inr (Inr ())
    then executes env h d (ap_id r) w w'
    else advances (aw_approvals w) (aw_approvals w') \<and> aw_staff w' = aw_staff w"
proof -
  have t: "keyed ap_id (aw_approvals w)" "\<And>r. r \<in> set (aw_approvals w) \<Longrightarrow> ap_status r \<noteq> Approved"
    using assms(1) by (auto simp: approvals_ok_def approval_ok_def split: approval_status.splits)
  obtain w1 out1 where run: "run_tx (x_commit_error (ae_call env)) (approve_body env h r d) w = (w1, out1)"
    by (cases "run_tx (x_commit_error (ae_call env)) (approve_body env h r d) w")
  show ?thesis
  proof (cases "out1 = Inr (Inr ())")
    case True
    then have w': "w' = w1" "out = Inr (Inr ())" using assms(3) run by (simp_all add: approve_def)
    have "approve_body env h r d w = Inr ((), w1)"
      using run True by (auto simp: run_tx_def split: sum.splits exit.splits option.splits)
    then obtain old params wa wb where "old \<in> set (aw_approvals w)" "claims env (ap_id r) old" "read_approved_action old = Inr params"
      "h_run h env (dn_decider d) (dn_permissions d) (ap_subject old) params wa = Inr ((), wb)"
      "aw_staff wa = aw_staff w" "aw_staff w1 = aw_staff wb"
      "aw_approvals w1 = sql_update (claims env (ap_id r)) (executed_row (ae_now env) (dn_decider d) (dn_note d)) (aw_approvals w)"
      using t by (rule approve_body_effect)
    then show ?thesis unfolding w' if_P [OF refl] executes_def by (elim conjE, intro exI conjI)
  next
    case False
    then have w1: "w1 = w" using run by (auto simp: run_tx_def split: sum.splits exit.splits option.splits)
    have "out \<noteq> Inr (Inr ())" and "w' = w \<or> (\<exists>reason. w' = record_failure later r d reason w)"
      using assms(3) run w1 False by (auto simp: approve_def split: sum.splits if_splits)
    then show ?thesis using record_failure_effect [OF assms(1,2)] by auto
  qed
qed

lemma decide_acts:
  assumes "approvals_ok (aw_approvals w)" and "still_about d v (aw_approvals w)" and "decide_act env later h d v w = (w', out)"
  shows "if went_through v out then executes env h d (ap_id (verdict_row v)) w w'
    else advances (aw_approvals w) (aw_approvals w') \<and> aw_staff w' = aw_staff w"
proof (cases v)
  case (LostRequester r)
  then show ?thesis using assms(3) record_failure_effect [OF assms(1,2)] by (auto simp: decide_act_def went_through_def)
next
  case (ToReject r)
  then show ?thesis using assms(3) reject_acts [OF assms(1,2)] by (auto simp: decide_act_def went_through_def)
next
  case (ToApprove r)
  then show ?thesis using assms(3) approve_acts [OF assms(1)] assms(2) by (simp add: decide_act_def went_through_def)
qed

lemma gate_acts:
  assumes "gate env h actor perms subject req w = (w', out)" and "ae_between env = (\<lambda>_ t. t)"
    and "\<And>n. ae_fresh env n \<notin> ap_id ` set (aw_approvals w)"
  shows "advances (aw_approvals w) (aw_approvals w') \<and> aw_staff w' = aw_staff w"
proof (cases "w' = w")
  case False
  then obtain params w0 where p: "gate_checks env h actor perms subject req w = Inr (params, w0)"
    and run: "run_tx (x_commit_error (ae_call env)) (gate_tx env actor subject (action_of req) params) w = (w', out)"
    using assms(1) by (auto simp: gate_def split: if_splits sum.splits exit.splits)
  have readable: "readable (action_of req) params"
    using p by (auto simp: gate_checks_def after_Inr tx_simps dest: prepare_readable split: if_splits)
  obtain u where "gate_tx env actor subject (action_of req) params w = Inr (u, w')"
    using run by (rule run_tx_cases) (use False in auto)
  then obtain overdue w1 w2 r new w3 where e: "approvals_call (expire_due_for (ae_err env ''expireDueFor'') (ae_now env) (action_of req) subject) w = Inr (overdue, w1)"
    and s2: "aw_staff w2 = aw_staff w1" "aw_approvals w2 = aw_approvals w1"
    and c: "approvals_call (approval_create (ae_err env ''create'') (ae_now env) (ae_fresh env) (ae_between env)
              \<lparr>aq_action = action_of req, aq_subject = subject, aq_params = params, aq_requester = actor,
               aq_ttl_hours = ae_ttl_hours env\<rparr>) w2 = Inr ((r, new), w3)"
    and s4: "aw_staff w' = aw_staff w3" "aw_approvals w' = aw_approvals w3"
    by (auto simp: gate_tx_def after_Inr tx_simps dest!: announced_same announced_each_same split: if_splits)
  have w1: "expire_due_for (ae_err env ''expireDueFor'') (ae_now env) (action_of req) subject (aw_approvals w) = (aw_approvals w1, Inr overdue)"
      "aw_staff w1 = aw_staff w"
    and w3: "approval_create (ae_err env ''create'') (ae_now env) (ae_fresh env) (ae_between env)
              \<lparr>aq_action = action_of req, aq_subject = subject, aq_params = params, aq_requester = actor,
               aq_ttl_hours = ae_ttl_hours env\<rparr> (aw_approvals w2) = (aw_approvals w3, Inr (r, new))" "aw_staff w3 = aw_staff w2"
    using e c by (auto simp: approvals_call_Inr)
  have "ap_id ` set (aw_approvals w1) = ap_id ` set (aw_approvals w)"
    using w1(1) by (auto simp: expire_due_for_def checked_update_Inr image_sql_update closed_row_def)
  then have fresh: "ae_fresh env n \<notin> ap_id ` set (aw_approvals w2)" for n using assms(3) s2 by simp
  have "advances (aw_approvals w2) (aw_approvals w3)"
    by (rule create_advances [OF w3(1) [unfolded assms(2)] fresh])
      (simp only: approval_write.select_convs readable)
  moreover have "advances (aw_approvals w) (aw_approvals w2)" using expire_for_advances [OF w1(1)] s2 by simp
  ultimately show ?thesis using advances_trans s2 s4 w1(2) w3(2) by simp
qed simp

end

section \<open>The protocol\<close>

text \<open>
  A configuration is the world, the decisions that have read and may still act, as often as they like,
  and the executions so far. A request is asked, a decision reads, a decision acts, a request is
  cancelled, expired or closed with the account of somebody in it, and meanwhile anything may happen
  that leaves the requests alone. \<open>between\<close> is the identity here: what others commit between two
  statements of a creation is a step of its own before it.
\<close>

type_synonym approval_conf =
  "approval_world \<times> (approval_decision \<times> decision_verdict) list \<times> (ident \<times> approval_decision) list"

inductive approval_step :: "approval_handlers \<Rightarrow> approval_conf \<Rightarrow> approval_conf \<Rightarrow> bool" for h :: approval_handlers where
  asked: "gate env h actor perms subject req w = (w', out) \<Longrightarrow> ae_between env = (\<lambda>_ t. t) \<Longrightarrow>
     (\<And>n. ae_fresh env n \<notin> ap_id ` set (aw_approvals w)) \<Longrightarrow> approval_step h (w, ds, runs) (w', ds, runs)"
| looked: "decide_checks env h d w = Inr (v, w') \<Longrightarrow> approval_step h (w, ds, runs) (w, (d, v) # ds, runs)"
| acted: "(d, v) \<in> set ds \<Longrightarrow> decide_act env later h d v w = (w', out) \<Longrightarrow>
     approval_step h (w, ds, runs) (w', ds, (if went_through v out then [(ap_id (verdict_row v), d)] else []) @ runs)"
| cancelled: "run_tx commit_error (cancel_tx env r user) w = (w', out) \<Longrightarrow> approval_step h (w, ds, runs) (w', ds, runs)"
| expired: "run_tx commit_error (expire_due_tx env batch_size) w = (w', out') \<Longrightarrow> approval_step h (w, ds, runs) (w', ds, runs)"
| closed: "run_tx commit_error (close_for_deleted_user_tx env user) w = (w', out) \<Longrightarrow> approval_step h (w, ds, runs) (w', ds, runs)"
| elsewhere: "aw_approvals w' = aw_approvals w \<Longrightarrow> approval_step h (w, ds, runs) (w', ds, runs)"

definition execution_logged :: "approval_row list \<Rightarrow> (ident \<times> approval_decision) list \<Rightarrow> bool" where
  "execution_logged t runs \<longleftrightarrow> distinct (map fst runs)
     \<and> (\<forall>(i, d) \<in> set runs. \<exists>r \<in> set t. ap_id r = i \<and> ap_status r = Executed \<and> ap_decider r = Some (dn_decider d) \<and> may_decide d r)
     \<and> (\<forall>r \<in> set t. ap_status r = Executed \<longrightarrow> ap_id r \<in> fst ` set runs)"

definition approval_inv :: "approval_conf \<Rightarrow> bool" where
  "approval_inv c \<longleftrightarrow> (case c of (w, ds, runs) \<Rightarrow>
     approvals_ok (aw_approvals w) \<and> (\<forall>(d, v) \<in> set ds. still_about d v (aw_approvals w)) \<and> execution_logged (aw_approvals w) runs)"

lemma log_later:
  assumes "execution_logged t runs" and "keeps_settled t t'" and "none_executed t t'"
  shows "execution_logged t' runs"
  unfolding execution_logged_def
proof (intro conjI)
  show "distinct (map fst runs)" using assms(1) by (simp add: execution_logged_def)
  show "\<forall>(i, d) \<in> set runs. \<exists>r \<in> set t'. ap_id r = i \<and> ap_status r = Executed \<and> ap_decider r = Some (dn_decider d) \<and> may_decide d r"
  proof (rule ballI, clarify)
    fix i d assume "(i, d) \<in> set runs"
    then obtain r where r: "r \<in> set t" "ap_id r = i" "ap_status r = Executed" "ap_decider r = Some (dn_decider d)" "may_decide d r"
      using assms(1) by (auto simp: execution_logged_def)
    obtain r' where r': "r' \<in> set t'" "row_evolves r r'" using assms(2) r(1) by (auto simp: keeps_settled_def)
    then show "\<exists>r \<in> set t'. ap_id r = i \<and> ap_status r = Executed \<and> ap_decider r = Some (dn_decider d) \<and> may_decide d r"
      using r by (intro bexI [of _ r']) (simp_all add: row_evolves_def same_request_def settlement_kept_def may_decide_def)
  qed
  show "\<forall>r \<in> set t'. ap_status r = Executed \<longrightarrow> ap_id r \<in> fst ` set runs"
  proof (intro ballI impI)
    fix r' assume "r' \<in> set t'" "ap_status r' = Executed"
    then obtain r where "r \<in> set t" "row_evolves r r'" "ap_status r = Executed" using assms(3) by (auto simp: none_executed_def)
    then show "ap_id r' \<in> fst ` set runs" using assms(1) by (auto simp: execution_logged_def row_evolves_def same_request_def)
  qed
qed

lemma inv_advances:
  assumes "approval_inv (w, ds, runs)" and "advances (aw_approvals w) (aw_approvals w')"
  shows "approval_inv (w', ds, runs)"
  using assms still_about_later log_later by (fastforce simp: approval_inv_def advances_def)

lemma inv_execution:
  assumes "approval_inv (w, ds, runs)" and "(d, v) \<in> set ds" and "executes env h d (ap_id (verdict_row v)) w w'"
  shows "approval_inv (w', ds, (ap_id (verdict_row v), d) # runs)" and "keeps_settled (aw_approvals w) (aw_approvals w')"
proof -
  let ?i = "ap_id (verdict_row v)"
  have inv: "approvals_ok (aw_approvals w)" "still_about d v (aw_approvals w)" "execution_logged (aw_approvals w) runs"
    and ds: "\<And>d v. (d, v) \<in> set ds \<Longrightarrow> still_about d v (aw_approvals w)"
    using assms(1,2) by (auto simp: approval_inv_def)
  obtain old where old: "old \<in> set (aw_approvals w)" "claims env ?i old"
    and t': "aw_approvals w' = sql_update (claims env ?i) (executed_row (ae_now env) (dn_decider d) (dn_note d)) (aw_approvals w)"
    using assms(3) unfolding executes_def by (elim exE conjE) simp
  let ?new = "executed_row (ae_now env) (dn_decider d) (dn_note d) old"
  have may: "may_decide d old" using still_about_row [OF inv(1,2) old(1)] old(2) by simp
  note evolved = execution_evolves [OF inv(1) old _ _ t']
  have ok': "approvals_ok (aw_approvals w')" and new: "?new \<in> set (aw_approvals w')"
    and rest: "\<And>r. r \<in> set (aw_approvals w') \<Longrightarrow> r \<noteq> ?new \<Longrightarrow> r \<in> set (aw_approvals w)"
    using evolved may by (simp_all add: may_decide_def)
  show kept: "keeps_settled (aw_approvals w) (aw_approvals w')" using evolved(2) may by (simp add: may_decide_def)
  have was_pending: "r = old" if "r \<in> set (aw_approvals w)" "ap_id r = ?i" for r
    using keyed_unique [of ap_id "aw_approvals w" r old] that old inv(1) by (simp add: approvals_ok_def)
  have "?i \<notin> fst ` set runs"
  proof
    assume "?i \<in> fst ` set runs"
    then obtain r where "r \<in> set (aw_approvals w)" "ap_id r = ?i" "ap_status r = Executed"
      using inv(3) by (fastforce simp: execution_logged_def)
    then show False using was_pending old(2) by (auto simp: pending_and_live_def)
  qed
  have new': "ap_id ?new = ?i" "ap_status ?new = Executed" "ap_decider ?new = Some (dn_decider d)" "may_decide d ?new"
    using old(2) may by (simp_all add: executed_row_def claimed_row_def may_decide_def)
  have "execution_logged (aw_approvals w') ((?i, d) # runs)"
    unfolding execution_logged_def
  proof (intro conjI)
    show "distinct (map fst ((?i, d) # runs))" using inv(3) \<open>?i \<notin> fst ` set runs\<close> by (simp add: execution_logged_def)
    show "\<forall>(i, d) \<in> set ((?i, d) # runs). \<exists>r \<in> set (aw_approvals w'). ap_id r = i \<and> ap_status r = Executed \<and> ap_decider r = Some (dn_decider d) \<and> may_decide d r"
    proof (rule ballI, clarify)
      fix j e assume "(j, e) \<in> set ((?i, d) # runs)"
      then consider "j = ?i" "e = d" | "(j, e) \<in> set runs" by auto
      then show "\<exists>r \<in> set (aw_approvals w'). ap_id r = j \<and> ap_status r = Executed \<and> ap_decider r = Some (dn_decider e) \<and> may_decide e r"
      proof cases
        case 1
        then show ?thesis using new new' by (intro bexI [of _ ?new]) simp_all
      next
        case 2
        then obtain r where r: "r \<in> set (aw_approvals w)" "ap_id r = j" "ap_status r = Executed" "ap_decider r = Some (dn_decider e)" "may_decide e r"
          using inv(3) by (auto simp: execution_logged_def)
        obtain r' where "r' \<in> set (aw_approvals w')" "row_evolves r r'" using kept r(1) by (auto simp: keeps_settled_def)
        then show ?thesis using r
          by (intro bexI [of _ r']) (simp_all add: row_evolves_def same_request_def settlement_kept_def may_decide_def)
      qed
    qed
    show "\<forall>r \<in> set (aw_approvals w'). ap_status r = Executed \<longrightarrow> ap_id r \<in> fst ` set ((?i, d) # runs)"
    proof (intro ballI impI)
      fix r assume r: "r \<in> set (aw_approvals w')" "ap_status r = Executed"
      show "ap_id r \<in> fst ` set ((?i, d) # runs)"
      proof (cases "r = ?new")
        case True
        then show ?thesis using new'(1) by simp
      next
        case False
        then show ?thesis using rest [OF r(1)] r(2) inv(3) by (simp add: execution_logged_def)
      qed
    qed
  qed
  then show "approval_inv (w', ds, (?i, d) # runs)"
    unfolding approval_inv_def using ok' ds still_about_later [OF _ kept] by auto
qed

context approval_handling
begin

lemma inv_step:
  assumes "approval_step h (w, ds, runs) (w', ds', runs')" and inv: "approval_inv (w, ds, runs)"
  shows "approval_inv (w', ds', runs') \<and> keeps_settled (aw_approvals w) (aw_approvals w')"
proof -
  have ok: "approvals_ok (aw_approvals w)" and ds: "\<And>d v. (d, v) \<in> set ds \<Longrightarrow> still_about d v (aw_approvals w)"
    using inv by (auto simp: approval_inv_def)
  have adv: "approval_inv (w', ds, runs) \<and> keeps_settled (aw_approvals w) (aw_approvals w')"
    if "advances (aw_approvals w) (aw_approvals w')"
    using inv_advances [OF inv that] that ok by (simp add: advances_def)
  from assms(1) show ?thesis
  proof (cases rule: approval_step.cases)
    case (asked env actor perms subject req out)
    then show ?thesis using adv gate_acts by blast
  next
    case (looked env d v w0)
    have "still_about d v (aw_approvals w)"
      using checks_effect(1,2) [OF looked(4)] unfolding still_about_def
      by (intro conjI bexI [of _ "verdict_row v"]) (simp_all add: same_request_def)
    then show ?thesis using looked inv by (auto simp: approval_inv_def intro: keeps_settled_subset)
  next
    case (acted d v env later out)
    note act = decide_acts [OF ok ds [OF acted(3)] acted(4)]
    show ?thesis
    proof (cases "went_through v out")
      case True
      then show ?thesis using act acted(1,2) inv_execution [OF inv acted(3)] by simp
    next
      case False
      then show ?thesis using act acted(1,2) adv by simp
    qed
  next
    case (cancelled commit_error env r user out)
    from cancelled(3) have "advances (aw_approvals w) (aw_approvals w')"
    proof (cases rule: run_tx_cases)
      case (2 u)
      then obtain row w1 where "approvals_call (approval_cancel (ae_err env ''cancel'') (ae_now env) (ap_id r) user) w = Inr (Some row, w1)"
        and "aw_approvals w' = aw_approvals w1"
        by (auto simp: cancel_tx_def after_Inr tx_simps dest!: announced_same split: option.splits)
      then show ?thesis using cancel_advances by (auto simp: approvals_call_Inr)
    qed simp
    then show ?thesis using adv cancelled(1,2) by simp
  next
    case (expired commit_error env batch_size out)
    from expired(3) have "advances (aw_approvals w) (aw_approvals w')"
    proof (cases rule: run_tx_cases)
      case (2 u)
      then obtain due w1 where "approvals_call (expire_due (ae_err env ''expireDue'') (ae_now env) (ae_locked env) batch_size) w = Inr (due, w1)"
        and "aw_approvals w' = aw_approvals w1"
        by (auto simp: expire_due_tx_def after_Inr tx_simps dest!: announced_each_same)
      then show ?thesis using expire_due_advances by (auto simp: approvals_call_Inr)
    qed simp
    then show ?thesis using adv expired(1,2) by simp
  next
    case (closed commit_error env user out)
    from closed(3) have "advances (aw_approvals w) (aw_approvals w')"
    proof (cases rule: run_tx_cases)
      case (2 u)
      then obtain rows w1 where "approvals_call (close_for_deleted_user (ae_err env ''closeForDeletedUser'') (ae_now env) user) w = Inr (rows, w1)"
        and "aw_approvals w' = aw_approvals w1"
        by (auto simp: close_for_deleted_user_tx_def after_Inr tx_simps dest!: announced_each_same)
      then show ?thesis using close_for_deleted_advances by (auto simp: approvals_call_Inr)
    qed simp
    then show ?thesis using adv closed(1,2) by simp
  next
    case elsewhere
    then show ?thesis using adv by simp
  qed
qed

lemma inv_reached:
  assumes "(approval_step h)\<^sup>*\<^sup>* (w0, [], []) (w, ds, runs)" and "aw_approvals w0 = []"
  shows "approval_inv (w, ds, runs)"
proof -
  have "approval_inv (w0, [], [])"
    using assms(2) by (simp add: approval_inv_def approvals_ok_def keyed_def one_open_def execution_logged_def)
  with assms(1) show ?thesis
  proof (induction "(w0, [] :: (approval_decision \<times> decision_verdict) list, [] :: (ident \<times> approval_decision) list)" "(w, ds, runs)"
      arbitrary: w ds runs rule: rtranclp.induct)
    case (rtrancl_into_rtrancl b)
    obtain w1 ds1 runs1 where b: "b = (w1, ds1, runs1)" by (cases b)
    then show ?case using rtrancl_into_rtrancl inv_step by blast
  qed simp
qed

end

end
