(* ===== verification/Four_Eyes.thy ===== *)
theory Four_Eyes
  imports Approval_Correct
begin

text \<open>
  The promises of the approvals, for the handlers the module wires, and a platform on which somebody is
  struck off by two managers.
\<close>

section \<open>An example\<close>

definition example_office :: approval_world where
  "example_office = \<lparr>aw_staff = \<lparr>
     st_members = map (\<lambda>(i, role). \<lparr>sm_user = i, sm_role = role, sm_source = FromConsole, sm_created_by = None, sm_created = 0,
                         sm_revoked = None\<rparr>) [(''boss'', Manager), (''chief'', Manager), (''help'', Support)],
     st_overrides = [],
     st_users = map (\<lambda>i. \<lparr>us_id = i, us_role = MirrorStaff, us_banned = False, us_ban_reason = None, us_ban_expires = None,
                           us_deleted = None, us_pending_deletion = None\<rparr>) [''boss'', ''chief'', ''help''],
     st_sessions = []\<rparr>,
     aw_outbox = \<lparr>outbox_rows = [], notified = 0\<rparr>, aw_approvals = []\<rparr>"

definition example_asking :: approval_env where
  "example_asking = \<lparr>ae_call = example_call, ae_now = 10, ae_fresh = (\<lambda>n. ''a''), ae_between = (\<lambda>_ t. t), ae_locked = [],
     ae_date_of = (\<lambda>_. 0), ae_enabled = True, ae_actions = [StaffRevoke], ae_ttl_hours = 1\<rparr>"

definition example_decision :: approval_decision where
  "example_decision = \<lparr>dn_approval = ''a'', dn_decider = ''chief'', dn_permissions = STAFF_PERMISSIONS, dn_decision = Approve,
     dn_note = ''fine''\<rparr>"

definition office_asked :: approval_world where
  "office_asked = fst (gate example_asking module_handlers ''boss'' STAFF_PERMISSIONS ''help'' AskRevoke example_office)"

definition office_verdict :: decision_verdict where
  "office_verdict = fst (projr (decide_checks example_asking module_handlers example_decision office_asked))"

definition office_decided :: "approval_world \<times> (unit, approval_error) result throws" where
  "office_decided = decide_act example_asking example_asking module_handlers example_decision office_verdict office_asked"

lemma office_asks: "approval_step module_handlers (example_office, [], []) (office_asked, [], [])"
proof (rule approval_step.asked)
  show "gate example_asking module_handlers ''boss'' STAFF_PERMISSIONS ''help'' AskRevoke example_office
    = (office_asked, snd (gate example_asking module_handlers ''boss'' STAFF_PERMISSIONS ''help'' AskRevoke example_office))"
    by (simp add: office_asked_def)
qed (simp_all add: example_asking_def example_office_def)

lemma office_looks:
  "approval_step module_handlers (office_asked, [], []) (office_asked, [(example_decision, office_verdict)], [])"
proof (rule approval_step.looked)
  have "\<not> isl (decide_checks example_asking module_handlers example_decision office_asked)" by code_simp
  then show "decide_checks example_asking module_handlers example_decision office_asked
    = Inr (office_verdict, snd (projr (decide_checks example_asking module_handlers example_decision office_asked)))"
    by (cases "decide_checks example_asking module_handlers example_decision office_asked") (simp_all add: office_verdict_def)
qed

lemma office_went_through: "went_through office_verdict (snd office_decided)"
  by code_simp

lemma office_row: "ap_id (verdict_row office_verdict) = ''a''"
  by code_simp

lemma office_acts:
  "approval_step module_handlers (office_asked, [(example_decision, office_verdict)], [])
     (fst office_decided, [(example_decision, office_verdict)], [(''a'', example_decision)])"
  using approval_step.acted [of example_decision office_verdict "[(example_decision, office_verdict)]" example_asking example_asking
      module_handlers office_asked "fst office_decided" "snd office_decided" "[]"] office_went_through office_row
  by (simp add: office_decided_def)

lemma office_reached:
  "(approval_step module_handlers)\<^sup>*\<^sup>* (example_office, [], []) (office_asked, [(example_decision, office_verdict)], [])"
  by (rule converse_rtranclp_into_rtranclp, rule office_asks, rule r_into_rtranclp, rule office_looks)

lemma office_done:
  "(approval_step module_handlers)\<^sup>*\<^sup>* (example_office, [], [])
     (fst office_decided, [(example_decision, office_verdict)], [(''a'', example_decision)])"
  by (rule rtranclp.rtrancl_into_rtrancl, rule office_reached, rule office_acts)

lemma office_starts: "aw_approvals example_office = []"
  by (simp add: example_office_def)

section \<open>The promises\<close>

text \<open>
  C24: whatever is asked, decided, cancelled, expired or closed, in whatever order, and however late or
  often a decision acts, a request that was executed was executed once, by a decision of somebody who
  is neither the one who asked nor the one it is about, and who held the permission of its action.
\<close>

theorem four_eyes:
  assumes "(approval_step module_handlers)\<^sup>*\<^sup>* (w0, [], []) (w, ds, runs)" and "aw_approvals w0 = []"
    and "r \<in> set (aw_approvals w)" and "ap_status r = Executed"
  shows "distinct (map fst runs) \<and> (\<exists>d. (ap_id r, d) \<in> set runs \<and> ap_decider r = Some (dn_decider d)
    \<and> dn_decider d \<noteq> ap_requester r \<and> dn_decider d \<noteq> ap_subject r
    \<and> approval_action_permission (ap_action r) \<in> set (dn_permissions d))"
proof -
  have inv: "approvals_ok (aw_approvals w)" "execution_logged (aw_approvals w) runs"
    using module.inv_reached [OF assms(1,2)] by (simp_all add: approval_inv_def)
  then obtain d where d: "(ap_id r, d) \<in> set runs" using assms(3,4) by (fastforce simp: execution_logged_def)
  then obtain r' where r': "r' \<in> set (aw_approvals w)" "ap_id r' = ap_id r" "ap_decider r' = Some (dn_decider d)" "may_decide d r'"
    using inv(2) by (auto simp: execution_logged_def)
  have "r' = r" using inv(1) r'(1,2) assms(3) by (intro keyed_unique [of ap_id "aw_approvals w"]) (simp_all add: approvals_ok_def)
  then show ?thesis using inv(2) d r' by (auto simp: execution_logged_def may_decide_def)
qed

theorem four_eyes_witness:
  "distinct (map fst [(''a'', example_decision)]) \<and> (\<exists>d. (ap_id (hd (aw_approvals (fst office_decided))), d) \<in> set [(''a'', example_decision)]
    \<and> ap_decider (hd (aw_approvals (fst office_decided))) = Some (dn_decider d)
    \<and> dn_decider d \<noteq> ap_requester (hd (aw_approvals (fst office_decided)))
    \<and> dn_decider d \<noteq> ap_subject (hd (aw_approvals (fst office_decided)))
    \<and> approval_action_permission (ap_action (hd (aw_approvals (fst office_decided)))) \<in> set (dn_permissions d))"
proof (rule four_eyes [OF office_done office_starts])
  have "aw_approvals (fst office_decided) \<noteq> []" by code_simp
  then show "hd (aw_approvals (fst office_decided)) \<in> set (aw_approvals (fst office_decided))" by (rule hd_in_set)
  show "ap_status (hd (aw_approvals (fst office_decided))) = Executed" by code_simp
qed

text \<open>
  C25: the table of requests is always in order. Ids are unique, at most one request is open for an
  action and a subject, an open one can be read back, none is left half decided, and who decided it,
  when, why it failed and its version are there exactly when its status says so.
\<close>

theorem requests_in_order:
  assumes "(approval_step module_handlers)\<^sup>*\<^sup>* (w0, [], []) (w, ds, runs)" and "aw_approvals w0 = []"
  shows "approvals_ok (aw_approvals w)"
  using module.inv_reached [OF assms] by (simp add: approval_inv_def)

theorem requests_in_order_witness: "approvals_ok (aw_approvals (fst office_decided))"
  by (rule requests_in_order [OF office_done office_starts])

text \<open>
  C26: a request is settled once. Whatever happens next, a request of the table stays in it with the
  same people, action and end; if it is still open it is untouched, so what is executed is what was
  asked; and if it was settled its status, decider, date, reason and version stay what they are.
\<close>

theorem settled_once:
  assumes "(approval_step module_handlers)\<^sup>*\<^sup>* (w0, [], []) (w, ds, runs)" and "aw_approvals w0 = []"
    and "approval_step module_handlers (w, ds, runs) (w', ds', runs')" and "r \<in> set (aw_approvals w)"
  shows "\<exists>r'. r' \<in> set (aw_approvals w') \<and> row_evolves r r'"
  using module.inv_step [OF assms(3) module.inv_reached [OF assms(1,2)]] assms(4) by (auto simp: keeps_settled_def)

theorem settled_once_witness:
  "\<exists>r'. r' \<in> set (aw_approvals (fst office_decided)) \<and> row_evolves (hd (aw_approvals office_asked)) r'"
proof (rule settled_once [OF office_reached office_starts office_acts])
  have "aw_approvals office_asked \<noteq> []" by code_simp
  then show "hd (aw_approvals office_asked) \<in> set (aw_approvals office_asked)" by (rule hd_in_set)
qed

text \<open>
  C27: an action and the mark of its execution go together. A decision that goes through, however late,
  found its request open and not yet expired, ran exactly what the request asked with the rights of the
  decider and on nobody but its subject, and left the request executed; one that does not leaves the
  staff, the accounts and the sessions as they were and executes nothing.
\<close>

theorem executed_with_its_action:
  assumes "(approval_step module_handlers)\<^sup>*\<^sup>* (w0, [], []) (w, ds, runs)" and "aw_approvals w0 = []"
    and "(d, v) \<in> set ds" and "decide_act env later module_handlers d v w = (w', out)"
  shows "if went_through v out
    then \<exists>r (wa :: approval_world) wb. r \<in> set (aw_approvals w) \<and> ap_id r = ap_id (verdict_row v) \<and> ap_status r = Pending \<and> ae_now env < ap_expires r
      \<and> staff_call_tx (ae_call env) (dn_decider d) (dn_permissions d) (ap_subject r) (call_of_params env (ap_params r)) wa = Inr ((), wb)
      \<and> aw_staff wa = aw_staff w \<and> aw_staff w' = aw_staff wb \<and> others_same (ap_subject r) (aw_staff w) (aw_staff w')
      \<and> executed_row (ae_now env) (dn_decider d) (dn_note d) r \<in> set (aw_approvals w')
    else aw_staff w' = aw_staff w \<and> none_executed (aw_approvals w) (aw_approvals w')"
proof -
  have inv: "approvals_ok (aw_approvals w)" "still_about d v (aw_approvals w)"
    using module.inv_reached [OF assms(1,2)] assms(3) by (auto simp: approval_inv_def)
  note act = module.decide_acts [OF inv assms(4)]
  show ?thesis
  proof (cases "went_through v out")
    case True
    then have "executes env module_handlers d (ap_id (verdict_row v)) w w'" using act by simp
    then obtain r params wa wb where r: "r \<in> set (aw_approvals w)" "claims env (ap_id (verdict_row v)) r" "read_approved_action r = Inr params"
      and run: "h_run module_handlers env (dn_decider d) (dn_permissions d) (ap_subject r) params wa = Inr ((), wb)"
      and s: "aw_staff wa = aw_staff w" "aw_staff w' = aw_staff wb"
      and t': "aw_approvals w' = sql_update (claims env (ap_id (verdict_row v))) (executed_row (ae_now env) (dn_decider d) (dn_note d)) (aw_approvals w)"
      unfolding executes_def by (elim exE conjE) simp
    have "readable (ap_action r) (ap_params r)"
      using inv(1) r(1,2) by (auto simp: approvals_ok_def approval_ok_def pending_and_live_def)
    then have "params = ap_params r" using read_readable r(3) by simp
    then have call: "staff_call_tx (ae_call env) (dn_decider d) (dn_permissions d) (ap_subject r) (call_of_params env (ap_params r)) wa = Inr ((), wb)"
      using run by (simp add: module_handlers_def run_action_call)
    have "others_same (ap_subject r) (aw_staff w) (aw_staff w')" using module.run_on_subject [OF run] s by simp
    moreover have "executed_row (ae_now env) (dn_decider d) (dn_note d) r \<in> set (aw_approvals w')"
      unfolding t' set_sql_update using r(1,2) by (intro image_eqI [of _ _ r]) simp_all
    ultimately have all: "r \<in> set (aw_approvals w) \<and> ap_id r = ap_id (verdict_row v) \<and> ap_status r = Pending \<and> ae_now env < ap_expires r
      \<and> staff_call_tx (ae_call env) (dn_decider d) (dn_permissions d) (ap_subject r) (call_of_params env (ap_params r)) wa = Inr ((), wb)
      \<and> aw_staff wa = aw_staff w \<and> aw_staff w' = aw_staff wb \<and> others_same (ap_subject r) (aw_staff w) (aw_staff w')
      \<and> executed_row (ae_now env) (dn_decider d) (dn_note d) r \<in> set (aw_approvals w')"
      using r(1,2) s call by (simp add: pending_and_live_def)
    have "\<exists>r (wa :: approval_world) wb. r \<in> set (aw_approvals w) \<and> ap_id r = ap_id (verdict_row v) \<and> ap_status r = Pending \<and> ae_now env < ap_expires r
      \<and> staff_call_tx (ae_call env) (dn_decider d) (dn_permissions d) (ap_subject r) (call_of_params env (ap_params r)) wa = Inr ((), wb)
      \<and> aw_staff wa = aw_staff w \<and> aw_staff w' = aw_staff wb \<and> others_same (ap_subject r) (aw_staff w) (aw_staff w')
      \<and> executed_row (ae_now env) (dn_decider d) (dn_note d) r \<in> set (aw_approvals w')"
      by (rule exI [of _ r], rule exI [of _ wa], rule exI [of _ wb], rule all)
    then show ?thesis using True by simp
  next
    case False
    then show ?thesis using act inv(1) by (simp add: advances_def)
  qed
qed

theorem executed_with_its_action_witness:
  "\<exists>r (wa :: approval_world) wb. r \<in> set (aw_approvals office_asked) \<and> ap_id r = ap_id (verdict_row office_verdict) \<and> ap_status r = Pending
      \<and> ae_now example_asking < ap_expires r
      \<and> staff_call_tx (ae_call example_asking) (dn_decider example_decision) (dn_permissions example_decision) (ap_subject r)
          (call_of_params example_asking (ap_params r)) wa = Inr ((), wb)
      \<and> aw_staff wa = aw_staff office_asked \<and> aw_staff (fst office_decided) = aw_staff wb
      \<and> others_same (ap_subject r) (aw_staff office_asked) (aw_staff (fst office_decided))
      \<and> executed_row (ae_now example_asking) (dn_decider example_decision) (dn_note example_decision) r \<in> set (aw_approvals (fst office_decided))"
  using executed_with_its_action [OF office_reached office_starts, of example_decision office_verdict example_asking example_asking
      "fst office_decided" "snd office_decided"] office_went_through
  by (simp add: office_decided_def)

section \<open>A requester who is banned\<close>

text \<open>
  The power of the one who asked is looked up among the people who are not banned, but a person the
  settings list holds it without being looked up: their requests are executed after they are banned.
\<close>

lemma banned_listed_requester_holds:
  assumes "ap_requester r \<in> set (PLATFORM_ADMIN_IDS (x_staff_env (ae_call env)))" and "ae_err env ''findActive'' = None"
  shows "requester_holds env r w = Inr (True, w)"
  using assms by (simp add: requester_holds_def after_def by_staff_def store_read_def give_def Let_def staff_access_of_def permission_simps)

end
