(* ===== verification/Canonical_Json.thy ===== *)
theory Canonical_Json
  imports Prelude
begin

text \<open>
  \<open>packages/ddd-kit/src/primitives/canonical-json.ts\<close>: the text of a JSON value that does not depend
  on the order of its keys. The members of an object are listed once each, as in the program; the
  numbers of the payloads are integers, and \<open>JSON.stringify\<close> prints them and escapes strings as its
  standard says.
\<close>

section \<open>Printing\<close>

definition show_int :: "int \<Rightarrow> string" where
  "show_int n = (if n < 0 then CHR ''-'' # show_nat (nat (- n)) else show_nat (nat n))"

definition hex_digit :: "nat \<Rightarrow> char" where
  "hex_digit d = char_of (if d < 10 then 48 + d else 87 + d)"

definition escape_char :: "char \<Rightarrow> string" where
  "escape_char c =
     (let n = of_char c :: nat in
      if c = CHR 0x22 then [CHR 0x5C, CHR 0x22]
      else if c = CHR 0x5C then [CHR 0x5C, CHR 0x5C]
      else if n < 32 then
        (if n = 8 then [CHR 0x5C, CHR ''b''] else if n = 9 then [CHR 0x5C, CHR ''t''] else if n = 10 then [CHR 0x5C, CHR ''n'']
         else if n = 12 then [CHR 0x5C, CHR ''f''] else if n = 13 then [CHR 0x5C, CHR ''r'']
         else [CHR 0x5C, CHR ''u'', CHR ''0'', CHR ''0'', hex_digit (n div 16), hex_digit (n mod 16)])
      else [c])"

definition json_string :: "string \<Rightarrow> string" where
  "json_string s = CHR 0x22 # concat (map escape_char s) @ [CHR 0x22]"

fun join_with :: "char \<Rightarrow> string list \<Rightarrow> string" where
  "join_with sep [] = []"
| "join_with sep [s] = s"
| "join_with sep (s # ss) = s @ sep # join_with sep ss"

fun canonicalize :: "json \<Rightarrow> string" where
  "canonicalize JNull = ''null''"
| "canonicalize (JBool b) = (if b then ''true'' else ''false'')"
| "canonicalize (JNum n) = show_int n"
| "canonicalize (JStr s) = json_string s"
| "canonicalize (JArr js) = CHR ''['' # join_with (CHR '','') (map canonicalize js) @ [CHR '']'']"
| "canonicalize (JObj ms) =
     CHR ''{'' # join_with (CHR '','') (map (\<lambda>(k, s). json_string k @ CHR '':'' # s)
       (sort_key fst (map (\<lambda>(k, j). (k, canonicalize j)) ms))) @ [CHR ''}'']"

section \<open>Printing in the order given, after sorting\<close>

fun render :: "json \<Rightarrow> string" where
  "render JNull = ''null''"
| "render (JBool b) = (if b then ''true'' else ''false'')"
| "render (JNum n) = show_int n"
| "render (JStr s) = json_string s"
| "render (JArr js) = CHR ''['' # join_with (CHR '','') (map render js) @ [CHR '']'']"
| "render (JObj ms) = CHR ''{'' # join_with (CHR '','') (map (\<lambda>(k, j). json_string k @ CHR '':'' # render j) ms) @ [CHR ''}'']"

text \<open>The same value with the keys of its objects in order.\<close>

fun normal :: "json \<Rightarrow> json" where
  "normal (JArr js) = JArr (map normal js)"
| "normal (JObj ms) = JObj (sort_key fst (map (\<lambda>(k, j). (k, normal j)) ms))"
| "normal j = j"

lemma map_sort_snd:
  fixes ms :: "('k :: linorder \<times> 'a) list"
  shows "map (\<lambda>(k, j). (k, f j)) (sort_key fst ms) = sort_key fst (map (\<lambda>(k, j). (k, f j)) ms)"
proof -
  have insort: "map (\<lambda>(k, j). (k, f j)) (insort_key fst m ns) = insort_key fst (fst m, f (snd m)) (map (\<lambda>(k, j). (k, f j)) ns)"
    for m and ns :: "('k \<times> 'a) list"
    by (induction ns) (auto split: prod.splits)
  show ?thesis by (induction ms) (auto simp: insort)
qed

lemma canonicalize_render: "canonicalize j = render (normal j)"
proof (induction j rule: canonicalize.induct)
  case (5 js)
  then have "map canonicalize js = map (\<lambda>j. render (normal j)) js" by (intro map_cong) auto
  then have "canonicalize (JArr js) = CHR ''['' # join_with (CHR '','') (map (\<lambda>j. render (normal j)) js) @ [CHR '']'']"
    by (simp only: canonicalize.simps)
  then show ?case by (simp add: comp_def)
next
  case (6 ms)
  have "map (\<lambda>(k, j). (k, canonicalize j)) ms = map (\<lambda>(k, j). (k, render j)) (map (\<lambda>(k, j). (k, normal j)) ms)"
    using 6 by auto
  then have sorted: "sort_key fst (map (\<lambda>(k, j). (k, canonicalize j)) ms)
      = map (\<lambda>(k, j). (k, render j)) (sort_key fst (map (\<lambda>(k, j). (k, normal j)) ms))"
    by (simp only: map_sort_snd)
  have members: "map (\<lambda>(k, s). json_string k @ CHR '':'' # s) (map (\<lambda>(k, j). (k, render j)) ns)
      = map (\<lambda>(k, j). json_string k @ CHR '':'' # render j) ns" for ns
    by auto
  show ?case by (simp only: canonicalize.simps sorted members normal.simps render.simps)
qed simp_all

section \<open>Reading back\<close>

text \<open>
  What can follow a value inside another: nothing, a comma or a closing bracket. A printed value is
  determined by any text it begins, if what follows is of that kind.
\<close>

definition stops :: "string \<Rightarrow> bool" where
  "stops s \<longleftrightarrow> s = [] \<or> hd s \<in> {CHR '','', CHR '']'', CHR ''}''}"

lemma of_char_eq: "of_char c = (of_char d :: nat) \<longleftrightarrow> c = d"
  by simp

lemma hex_digit_inj: "d < 16 \<Longrightarrow> e < 16 \<Longrightarrow> hex_digit d = hex_digit e \<Longrightarrow> d = e"
proof -
  assume d: "d < 16" "e < 16" and h: "hex_digit d = hex_digit e"
  have "of_char (hex_digit n) = (if n < 10 then 48 + n else 87 + n)" if "n < 16" for n
    using that by (simp add: hex_digit_def of_char_of)
  then have "(if d < 10 then 48 + d else 87 + d) = (if e < 10 then 48 + e else 87 + e :: nat)" using h d by metis
  then show "d = e" using d by (auto split: if_splits)
qed

lemma escape_prefix:
  assumes "escape_char c @ x = escape_char d @ y"
  shows "c = d \<and> x = y"
proof -
  have nibbles: "n = m" if "hex_digit (n div 16) = hex_digit (m div 16)" "hex_digit (n mod 16) = hex_digit (m mod 16)"
    "n < 32" "m < 32" for n m :: nat
  proof -
    have "n div 16 = m div 16" "n mod 16 = m mod 16" using that by (auto intro: hex_digit_inj)
    then show ?thesis by (metis div_mult_mod_eq)
  qed
  show ?thesis
  proof (cases "c = d")
    case False
    then have "of_char c \<noteq> (of_char d :: nat)" by simp
    then show ?thesis using assms nibbles [of "of_char c" "of_char d"]
      by (auto simp: escape_char_def Let_def split: if_splits)
  qed (use assms in simp)
qed

lemma escape_hd: "\<exists>e es. escape_char c = e # es \<and> e \<noteq> CHR 0x22"
  by (auto simp: escape_char_def Let_def)

lemma string_body_prefix:
  assumes "concat (map escape_char s) @ CHR 0x22 # x = concat (map escape_char t) @ CHR 0x22 # y"
  shows "s = t \<and> x = y"
  using assms
proof (induction s arbitrary: t)
  case Nil
  then show ?case using escape_hd by (cases t) (auto, metis append_Cons list.inject)
next
  case (Cons c s)
  show ?case
  proof (cases t)
    case Nil
    then show ?thesis using Cons.prems escape_hd [of c] by auto
  next
    case (Cons d t')
    then have "c = d \<and> concat (map escape_char s) @ CHR 0x22 # x = concat (map escape_char t') @ CHR 0x22 # y"
      using Cons.prems by (intro escape_prefix) simp
    then show ?thesis using Cons.IH [of t'] Cons by simp
  qed
qed

lemma json_string_prefix: "json_string s @ x = json_string t @ y \<Longrightarrow> s = t \<and> x = y"
  using string_body_prefix [of s x t y] by (simp add: json_string_def)

text \<open>Numbers.\<close>

lemma is_digit_char_of:
  assumes "(d :: nat) < 10" shows "is_digit (char_of (48 + d))"
proof -
  have "of_char (char_of (48 + d) :: char) = 48 + d" using assms by (simp add: of_char_of)
  then show ?thesis using assms by (simp add: is_digit_def less_eq_char_def)
qed

lemma show_nat_digits: "list_all is_digit (show_nat n) \<and> show_nat n \<noteq> []"
proof (induction n rule: show_nat.induct)
  case (1 n)
  show ?case
  proof (cases "n < 10")
    case True
    then show ?thesis by (subst (1 2) show_nat.simps) (simp add: is_digit_char_of)
  next
    case False
    then show ?thesis using 1 by (subst (1 2) show_nat.simps) (simp add: is_digit_char_of)
  qed
qed

lemma decimal_snoc: "decimal (s @ [c]) = decimal s * 10 + (of_char c - 48)"
  by (simp add: decimal_def)

lemma decimal_show_nat: "decimal (show_nat n) = n"
proof (induction n rule: show_nat.induct)
  case (1 n)
  have digit: "of_char (char_of (48 + d) :: char) - 48 = d" if "d < 10" for d :: nat
    using that by (simp add: of_char_of)
  show ?case
  proof (cases "n < 10")
    case True
    then show ?thesis using digit [of n] by (subst show_nat.simps) (simp add: decimal_def)
  next
    case False
    then show ?thesis using 1 digit [of "n mod 10"] by (subst show_nat.simps) (simp add: decimal_snoc)
  qed
qed

definition ends_number :: "string \<Rightarrow> bool" where
  "ends_number s \<longleftrightarrow> s = [] \<or> \<not> is_digit (hd s)"

lemma digits_prefix:
  assumes "list_all is_digit a" and "list_all is_digit b" and "ends_number x" and "ends_number y" and "a @ x = b @ y"
  shows "a = b \<and> x = y"
  using assms
proof (induction a arbitrary: b)
  case Nil
  then show ?case by (cases b) (auto simp: ends_number_def)
next
  case (Cons c a)
  then show ?case by (cases b) (auto simp: ends_number_def)
qed

lemma show_nat_prefix:
  "show_nat m @ x = show_nat n @ y \<Longrightarrow> ends_number x \<Longrightarrow> ends_number y \<Longrightarrow> m = n \<and> x = y"
  using digits_prefix [of "show_nat m" "show_nat n" x y] show_nat_digits decimal_show_nat by metis

lemma show_nat_hd: "hd (show_nat n) \<noteq> CHR ''-''"
  using show_nat_digits [of n] by (cases "show_nat n") (auto simp: is_digit_def less_eq_char_def)

lemma show_int_prefix:
  assumes "show_int m @ x = show_int n @ y" and "ends_number x" and "ends_number y"
  shows "m = n \<and> x = y"
proof -
  have same: "(m < 0) = (n < 0)"
    using assms(1) show_nat_hd [of "nat m"] show_nat_hd [of "nat n"] show_nat_digits [of "nat m"] show_nat_digits [of "nat n"]
    by (cases "show_nat (nat m)"; cases "show_nat (nat n)") (auto simp: show_int_def split: if_splits)
  show ?thesis
  proof (cases "m < 0")
    case True
    then show ?thesis using assms same show_nat_prefix [of "nat (- m)" x "nat (- n)" y] by (auto simp: show_int_def)
  next
    case False
    then show ?thesis using assms same show_nat_prefix [of "nat m" x "nat n" y] by (auto simp: show_int_def)
  qed
qed

text \<open>Values separated by commas, up to the bracket that closes them.\<close>

lemma stops_number: "stops s \<Longrightarrow> ends_number s"
  by (cases s) (auto simp: stops_def ends_number_def is_digit_def less_eq_char_def)

lemma join_with_Cons: "join_with sep (s # ss) = s @ concat (map (\<lambda>s. sep # s) ss)"
  by (induction ss arbitrary: s) simp_all

definition starts_value :: "string \<Rightarrow> bool" where
  "starts_value s \<longleftrightarrow> s \<noteq> [] \<and> hd s \<notin> {CHR '','', CHR '']'', CHR ''}''}"

lemma items_prefix:
  fixes f :: "'a \<Rightarrow> string"
  assumes "\<And>a b x y. a \<in> set as \<Longrightarrow> f a @ x = f b @ y \<Longrightarrow> stops x \<Longrightarrow> stops y \<Longrightarrow> a = b \<and> x = y"
    and "c \<in> {CHR '']'', CHR ''}''}"
    and "concat (map (\<lambda>a. CHR '','' # f a) as) @ c # x = concat (map (\<lambda>a. CHR '','' # f a) bs) @ c # y"
  shows "as = bs \<and> x = y"
  using assms
proof (induction as arbitrary: bs)
  case Nil
  then show ?case by (cases bs) auto
next
  case (Cons a as)
  have stop: "stops (concat (map (\<lambda>a. CHR '','' # f a) cs) @ c # z)" for cs z
    using Cons.prems(2) by (cases cs) (auto simp: stops_def)
  show ?case
  proof (cases bs)
    case Nil
    then show ?thesis using Cons.prems(2,3) by auto
  next
    case (Cons b bs')
    then have "f a @ concat (map (\<lambda>a. CHR '','' # f a) as) @ c # x = f b @ concat (map (\<lambda>a. CHR '','' # f a) bs') @ c # y"
      using Cons.prems(3) by simp
    then have ab: "a = b \<and> concat (map (\<lambda>a. CHR '','' # f a) as) @ c # x = concat (map (\<lambda>a. CHR '','' # f a) bs') @ c # y"
      by (intro Cons.prems(1) stop) simp_all
    moreover have "as = bs' \<and> x = y"
      by (rule Cons.IH [OF _ Cons.prems(2)]) (use Cons.prems(1) ab in auto)
    ultimately show ?thesis using Cons by simp
  qed
qed

lemma join_prefix:
  fixes f :: "'a \<Rightarrow> string"
  assumes item: "\<And>a b x y. a \<in> set as \<Longrightarrow> f a @ x = f b @ y \<Longrightarrow> stops x \<Longrightarrow> stops y \<Longrightarrow> a = b \<and> x = y"
    and c: "c \<in> {CHR '']'', CHR ''}''}" and start: "\<And>a. starts_value (f a)"
    and eq: "join_with (CHR '','') (map f as) @ c # x = join_with (CHR '','') (map f bs) @ c # y"
  shows "as = bs \<and> x = y"
proof -
  have first: "\<exists>d s. f a = d # s \<and> d \<notin> {CHR '','', CHR '']'', CHR ''}''}" for a
    using start [of a] by (cases "f a") (auto simp: starts_value_def)
  have stop: "stops (concat (map (\<lambda>a. CHR '','' # f a) cs) @ c # z)" for cs z
    using c by (cases cs) (auto simp: stops_def)
  show ?thesis
  proof (cases as)
    case Nil
    then show ?thesis using eq c first [of "hd bs"] by (cases bs) (auto simp: join_with_Cons)
  next
    case a: (Cons a as')
    show ?thesis
    proof (cases bs)
      case Nil
      then show ?thesis using eq c first [of a] a by (auto simp: join_with_Cons)
    next
      case b: (Cons b bs')
      have "f a @ concat (map (\<lambda>a. CHR '','' # f a) as') @ c # x = f b @ concat (map (\<lambda>a. CHR '','' # f a) bs') @ c # y"
        using eq by (simp add: a b join_with_Cons comp_def)
      then have ab: "a = b \<and> concat (map (\<lambda>a. CHR '','' # f a) as') @ c # x = concat (map (\<lambda>a. CHR '','' # f a) bs') @ c # y"
        by (intro item stop) (simp_all add: a)
      moreover have "as' = bs' \<and> x = y"
        by (rule items_prefix [of as' f c x bs' y]) (use item c ab a in auto)
      ultimately show ?thesis using a b by simp
    qed
  qed
qed

lemma show_int_first: "\<exists>d s. show_int n = d # s \<and> (is_digit d \<or> d = CHR ''-'')"
proof (cases "n < 0")
  case False
  then show ?thesis using show_nat_digits [of "nat n"] by (cases "show_nat (nat n)") (auto simp: show_int_def)
qed (simp add: show_int_def)

lemma not_digits:
  "\<not> is_digit CHR '','' \<and> \<not> is_digit CHR '']'' \<and> \<not> is_digit CHR ''}'' \<and> \<not> is_digit CHR ''['' \<and> \<not> is_digit CHR ''{''
   \<and> \<not> is_digit CHR ''n'' \<and> \<not> is_digit CHR ''t'' \<and> \<not> is_digit CHR ''f'' \<and> \<not> is_digit CHR 0x22"
  by (simp add: is_digit_def less_eq_char_def)

lemma starts_render: "starts_value (render j)"
proof (cases j)
  case (JNum n)
  then show ?thesis using show_int_first [of n] not_digits by (auto simp: starts_value_def)
qed (simp_all add: starts_value_def json_string_def)

text \<open>The first character of a value tells what kind of value it is.\<close>

datatype json_kind = KNull | KTrue | KFalse | KNum | KStr | KArr | KObj

fun kind_of :: "json \<Rightarrow> json_kind" where
  "kind_of JNull = KNull"
| "kind_of (JBool b) = (if b then KTrue else KFalse)"
| "kind_of (JNum n) = KNum"
| "kind_of (JStr s) = KStr"
| "kind_of (JArr js) = KArr"
| "kind_of (JObj ms) = KObj"

definition kind_at :: "char \<Rightarrow> json_kind" where
  "kind_at c =
     (if c = CHR ''n'' then KNull else if c = CHR ''t'' then KTrue else if c = CHR ''f'' then KFalse
      else if c = CHR 0x22 then KStr else if c = CHR ''['' then KArr else if c = CHR ''{'' then KObj else KNum)"

lemma render_kind: "kind_of j = kind_at (hd (render j @ x))"
proof (cases j)
  case (JNum n)
  then show ?thesis using show_int_first [of n] not_digits by (auto simp: kind_at_def)
qed (simp_all add: kind_at_def json_string_def)

lemma render_prefix: "render a @ x = render b @ y \<Longrightarrow> stops x \<Longrightarrow> stops y \<Longrightarrow> a = b \<and> x = y"
proof (induction a arbitrary: b x y rule: render.induct)
  case (1 b)
  then have "kind_of b = KNull" using render_kind [of JNull x] render_kind [of b y] by simp
  then show ?case using 1 by (cases b) (auto split: if_splits)
next
  case (2 t)
  then have "kind_of b = kind_of (JBool t)" using render_kind [of "JBool t" x] render_kind [of b y] by simp
  then show ?case using 2 by (cases b) (auto split: if_splits)
next
  case (3 n)
  then have "kind_of b = KNum" using render_kind [of "JNum n" x] render_kind [of b y] by simp
  then obtain m where b: "b = JNum m" by (cases b) (auto split: if_splits)
  then show ?case using 3 show_int_prefix [of n x m y] stops_number by simp
next
  case (4 s)
  then have "kind_of b = KStr" using render_kind [of "JStr s" x] render_kind [of b y] by simp
  then obtain t where b: "b = JStr t" by (cases b) (auto split: if_splits)
  then show ?case using 4 json_string_prefix [of s x t y] by simp
next
  case (5 js)
  then have "kind_of b = KArr" using render_kind [of "JArr js" x] render_kind [of b y] by simp
  then obtain ks where b: "b = JArr ks" by (cases b) (auto split: if_splits)
  have "js = ks \<and> x = y"
    by (rule join_prefix [of js render "CHR '']''"]) (use 5 b starts_render in auto)
  then show ?case using b by simp
next
  case (6 ms)
  then have "kind_of b = KObj" using render_kind [of "JObj ms" x] render_kind [of b y] by simp
  then obtain ns where b: "b = JObj ns" by (cases b) (auto split: if_splits)
  let ?member = "\<lambda>(k, j). json_string k @ CHR '':'' # render j"
  have item: "m = n \<and> u = v"
    if m: "m \<in> set ms" and eq: "?member m @ u = ?member n @ v" and st: "stops u" "stops v" for m n u v
  proof -
    obtain k j k' j' where mn: "m = (k, j)" "n = (k', j')" by (cases m; cases n) simp
    then have "k = k' \<and> CHR '':'' # render j @ u = CHR '':'' # render j' @ v"
      using eq json_string_prefix [of k "CHR '':'' # render j @ u" k' "CHR '':'' # render j' @ v"] by simp
    moreover from this have "j = j' \<and> u = v" using 6(1) [of m k j u j' v] m mn st by simp
    ultimately show ?thesis using mn by simp
  qed
  have "ms = ns \<and> x = y"
  proof (rule join_prefix [of ms ?member "CHR ''}''"])
    show "starts_value (?member m)" for m by (cases m) (simp add: starts_value_def json_string_def)
    show "join_with (CHR '','') (map ?member ms) @ CHR ''}'' # x = join_with (CHR '','') (map ?member ns) @ CHR ''}'' # y"
      using 6(2) by (simp add: b)
    show "CHR ''}'' \<in> {CHR '']'', CHR ''}''}" by simp
  qed (erule (3) item)
  then show ?case using b by simp
qed

section \<open>Same text, same value\<close>

lemma same_text: "canonicalize a = canonicalize b \<longleftrightarrow> normal a = normal b"
proof
  assume "canonicalize a = canonicalize b"
  then have "render (normal a) @ [] = render (normal b) @ []" by (simp add: canonicalize_render)
  then have "normal a = normal b \<and> ([] :: string) = []" by (rule render_prefix) (simp_all add: stops_def)
  then show "normal a = normal b" ..
qed (simp add: canonicalize_render)

text \<open>Objects with the same members at every key have the same text, whatever order they list them in.\<close>

lemma normal_members:
  fixes ms ns :: "(string \<times> json) list"
  assumes "distinct (map fst ms)" and "distinct (map fst ns)"
  shows "normal (JObj ms) = normal (JObj ns) \<longleftrightarrow> (\<forall>k. map_option normal (map_of ms k) = map_option normal (map_of ns k))"
proof -
  define f where "f = (\<lambda>(k :: string, j). (k, normal j))"
  have keys: "map fst (map f l) = map fst l" for l by (induction l) (auto simp: f_def)
  have sorted_set: "sort_key fst (map f ms) = sort_key fst (map f ns) \<longleftrightarrow> set (map f ms) = set (map f ns)"
  proof
    assume same: "set (map f ms) = set (map f ns)"
    have "distinct (map fst (sort_key fst (map f l))) = distinct (map fst (map f l))" for l
      by (rule mset_eq_imp_distinct_iff) (simp only: mset_map mset_sort)
    then have dist: "distinct (map fst (sort_key fst (map f ms)))" "distinct (map fst (sort_key fst (map f ns)))"
      using assms by (simp_all only: keys)
    show "sort_key fst (map f ms) = sort_key fst (map f ns)"
    proof (rule map_sorted_distinct_set_unique [of fst])
      show "inj_on fst (set (sort_key fst (map f ms)) \<union> set (sort_key fst (map f ns)))"
        using dist(1) same by (simp only: distinct_map set_sort Un_absorb)
      show "set (sort_key fst (map f ms)) = set (sort_key fst (map f ns))" using same by (simp only: set_sort)
    qed (rule sorted_sort_key dist)+
  qed (metis set_sort)
  have "set (map f ms) = set (map f ns) \<longleftrightarrow> map_of (map f ms) = map_of (map f ns)"
    using assms by (intro map_of_inject_set [symmetric]) (simp_all only: keys)
  also have "\<dots> \<longleftrightarrow> (\<forall>k. map_option normal (map_of ms k) = map_option normal (map_of ns k))"
    by (simp add: f_def map_of_map fun_eq_iff)
  finally show ?thesis using sorted_set by (simp add: f_def)
qed

text \<open>What it is for two values to be the same, said of the values: the same members at the same keys.\<close>

fun same_value :: "json \<Rightarrow> json \<Rightarrow> bool" where
  "same_value (JArr js) (JArr ks) = list_all2 same_value js ks"
| "same_value (JObj ms) (JObj ns) =
     (length ms = length ns \<and>
      list_all (\<lambda>(k, j). case map_of ns k of None \<Rightarrow> False | Some j' \<Rightarrow> same_value j j') ms)"
| "same_value a b = (a = b)"

text \<open>No object lists a key twice: what \<open>JSON.parse\<close> makes of any text.\<close>

fun keys_once :: "json \<Rightarrow> bool" where
  "keys_once (JArr js) = list_all keys_once js"
| "keys_once (JObj ms) = (distinct (map fst ms) \<and> list_all (\<lambda>(k, j). keys_once j) ms)"
| "keys_once j = True"

lemma normal_leaf [simp]:
  "normal a = JNull \<longleftrightarrow> a = JNull" "JNull = normal a \<longleftrightarrow> a = JNull"
  "normal a = JBool b \<longleftrightarrow> a = JBool b" "JBool b = normal a \<longleftrightarrow> a = JBool b"
  "normal a = JNum n \<longleftrightarrow> a = JNum n" "JNum n = normal a \<longleftrightarrow> a = JNum n"
  "normal a = JStr s \<longleftrightarrow> a = JStr s" "JStr s = normal a \<longleftrightarrow> a = JStr s"
  by (cases a; auto)+

lemma normal_same: "keys_once a \<Longrightarrow> keys_once b \<Longrightarrow> normal a = normal b \<longleftrightarrow> same_value a b"
proof (induction a b rule: same_value.induct)
  case (1 js ks)
  have "map normal js = map normal ks \<longleftrightarrow> list_all2 (\<lambda>j k. normal j = normal k) js ks"
    by (induction js arbitrary: ks) (auto simp: list_all2_Cons1 Cons_eq_map_conv)
  also have "\<dots> \<longleftrightarrow> list_all2 same_value js ks"
    using 1 by (intro list.rel_cong refl) (auto simp: list_all_iff)
  finally show ?case by simp
next
  case (2 ms ns)
  have dist: "distinct (map fst ms)" "distinct (map fst ns)" using 2(2,3) by simp_all
  have below: "same_value j j' \<longleftrightarrow> normal j = normal j'" if "(k, j) \<in> set ms" "map_of ns k = Some j'" for k j j'
  proof -
    have "keys_once j" "keys_once j'" using 2(2,3) that map_of_SomeD [OF that(2)] by (auto simp: list_all_iff)
    then show ?thesis using 2(1) [of "(k, j)" k j j'] that by simp
  qed
  have member: "map_of ms k = Some j \<longleftrightarrow> (k, j) \<in> set ms" for k j using dist(1) by simp
  have keys: "map_of l k = None \<longleftrightarrow> k \<notin> fst ` set l" for l k by (rule map_of_eq_None_iff)
  have card: "length ms = card (fst ` set ms)" "length ns = card (fst ` set ns)"
    using dist distinct_card [of "map fst ms"] distinct_card [of "map fst ns"] by simp_all
  have "(\<forall>k. map_option normal (map_of ms k) = map_option normal (map_of ns k)) \<longleftrightarrow>
      length ms = length ns \<and> (\<forall>(k, j) \<in> set ms. \<exists>j'. map_of ns k = Some j' \<and> normal j = normal j')"
    (is "?same \<longleftrightarrow> ?len \<and> ?in")
  proof
    assume same: ?same
    then have "map_of ms k = None \<longleftrightarrow> map_of ns k = None" for k by (metis option.map_disc_iff)
    then have "fst ` set ms = fst ` set ns" unfolding keys by blast
    moreover have "\<exists>j'. map_of ns k = Some j' \<and> normal j = normal j'" if "(k, j) \<in> set ms" for k j
    proof -
      have "Some (normal j) = map_option normal (map_of ns k)" using same [rule_format, of k] map_of_is_SomeI [OF dist(1) that] by simp
      then show ?thesis by (cases "map_of ns k") simp_all
    qed
    ultimately show "?len \<and> ?in" using card by auto
  next
    assume into: "?len \<and> ?in"
    have into_at: "\<exists>j'. map_of ns k = Some j' \<and> normal j = normal j'" if "(k, j) \<in> set ms" for k j
      using into that by (elim conjE) (drule (1) bspec, simp)
    have "fst ` set ms \<subseteq> fst ` set ns"
    proof (rule image_subsetI)
      fix m assume "m \<in> set ms"
      then obtain j' where "map_of ns (fst m) = Some j'" using into_at [of "fst m" "snd m"] by auto
      then show "fst m \<in> fst ` set ns" using keys [of ns "fst m"] by (metis option.distinct(1))
    qed
    then have all: "fst ` set ms = fst ` set ns" using into card by (intro card_subset_eq) simp_all
    show ?same
    proof
      fix k
      show "map_option normal (map_of ms k) = map_option normal (map_of ns k)"
      proof (cases "map_of ms k")
        case None
        then have "map_of ns k = None" using all keys by metis
        then show ?thesis using None by simp
      next
        case (Some j)
        then obtain j' where "map_of ns k = Some j'" "normal j = normal j'" using into_at [of k j] map_of_SomeD [OF Some] by blast
        then show ?thesis using Some by simp
      qed
    qed
  qed
  also have "?in \<longleftrightarrow> list_all (\<lambda>(k, j). case map_of ns k of None \<Rightarrow> False | Some j' \<Rightarrow> same_value j j') ms"
    unfolding list_all_iff by (rule ball_cong) (auto simp: below split: option.splits)
  finally show ?case using normal_members [OF dist] by simp
qed auto

text \<open>
  C31: two values, neither of which lists a key of an object twice, print alike exactly when they are the same
  value up to the order of their keys.
\<close>
theorem canonical_iff:
  assumes "keys_once a" and "keys_once b"
  shows "canonicalize a = canonicalize b \<longleftrightarrow> same_value a b"
  using normal_same [OF assms] by (simp add: same_text)

theorem canonical_iff_witness:
  "canonicalize (JObj [(''b'', JNum 2), (''a'', JArr [JStr ''x'', JNull])])
     = canonicalize (JObj [(''a'', JArr [JStr ''x'', JNull]), (''b'', JNum 2)])
   \<and> canonicalize (JObj [(''a'', JNum 1)]) \<noteq> canonicalize (JObj [(''a'', JStr ''1'')])"
  using canonical_iff [of "JObj [(''b'', JNum 2), (''a'', JArr [JStr ''x'', JNull])]" "JObj [(''a'', JArr [JStr ''x'', JNull]), (''b'', JNum 2)]"]
    canonical_iff [of "JObj [(''a'', JNum 1)]" "JObj [(''a'', JStr ''1'')]"]
  by simp

end
