(* ===== verification/Audit_Log.thy ===== *)
theory Audit_Log
  imports Canonical_Json Event_Emit Outbox_Relay
begin

text \<open>
  The audit log: \<open>packages/drizzle/src/schema/audit-log.ts\<close> (the table), and of
  \<open>apps/api/src/shared/services\<close> \<open>audit-hash.ts\<close>, \<open>audit-event-subscriber.ts\<close> (one row per event, each
  linked to the one before when tamper evidence is on) and \<open>drizzle-audit.service.ts\<close> (\<open>record\<close>,
  \<open>verifyChain\<close>; its \<open>list\<close> is in \<open>Time_Id_Pages\<close>).

  An environment holds SHA-256 in hexadecimal, \<open>toISOString\<close>, and what a \<open>jsonb\<close> column gives back
  for a value written to it, which may be the same members in another order.
\<close>

section \<open>The table\<close>

datatype audit_actor_type = UserActor | SystemActor | AdminActor

record audit_row =
  au_id :: ident
  au_sequence :: nat
  au_actor :: "string option"
  au_actor_type :: audit_actor_type
  au_organization :: "string option"
  au_action :: string
  au_target_type :: string
  au_target :: ident
  au_metadata :: json
  au_request :: "string option"
  au_retention :: retention_policy
  au_prev :: "string option"
  au_hash :: "string option"
  au_at :: instant

text \<open>The rows and the counter behind \<open>bigserial\<close>, which an insert that adds nothing advances too.\<close>

record audit_db =
  au_rows :: "audit_row list"
  au_next :: nat

record audit_env =
  av_sha :: "string \<Rightarrow> string"
  av_iso :: "instant \<Rightarrow> string"
  av_jsonb :: "json \<Rightarrow> json"

definition insert_audit :: "audit_row \<Rightarrow> audit_db \<Rightarrow> audit_db" where
  "insert_audit r db =
     \<lparr>au_rows = sql_insert_ignore au_id [r\<lparr>au_sequence := au_next db\<rparr>] (au_rows db), au_next = Suc (au_next db)\<rparr>"

section \<open>The hash of a row\<close>

definition GENESIS_HASH :: string where "GENESIS_HASH = ''GENESIS''"

fun actor_type_text :: "audit_actor_type \<Rightarrow> string" where
  "actor_type_text UserActor = ''user''"
| "actor_type_text SystemActor = ''system''"
| "actor_type_text AdminActor = ''admin''"

fun retention_text :: "retention_policy \<Rightarrow> string" where
  "retention_text Operational = ''operational''"
| "retention_text Compliance = ''compliance''"
| "retention_text NoRetention = ''none''"

definition text_or_null :: "string option \<Rightarrow> json" where
  "text_or_null s = (case s of None \<Rightarrow> JNull | Some t \<Rightarrow> JStr t)"

definition audit_hash_input :: "audit_env \<Rightarrow> audit_row \<Rightarrow> string \<Rightarrow> json" where
  "audit_hash_input env r prev =
     JObj [(''id'', JStr (au_id r)), (''action'', JStr (au_action r)), (''actorId'', text_or_null (au_actor r)),
           (''actorType'', JStr (actor_type_text (au_actor_type r))), (''organizationId'', text_or_null (au_organization r)),
           (''targetType'', JStr (au_target_type r)), (''targetId'', JStr (au_target r)), (''metadata'', au_metadata r),
           (''occurredAt'', JStr (av_iso env (au_at r))), (''requestId'', text_or_null (au_request r)),
           (''retention'', JStr (retention_text (au_retention r))), (''prevHash'', JStr prev)]"

definition compute_audit_hash :: "audit_env \<Rightarrow> json \<Rightarrow> string" where
  "compute_audit_hash env input = av_sha env (canonicalize input)"

section \<open>One row per event\<close>

definition extract_actor :: "delivered_event \<Rightarrow> string option \<times> audit_actor_type" where
  "extract_actor ev = (case read_actor_id (de_payload ev) of
     None \<Rightarrow> (None, SystemActor) | Some i \<Rightarrow> (Some i, UserActor))"

definition audit_entry_of :: "delivered_event \<Rightarrow> retention_policy \<Rightarrow> audit_row" where
  "audit_entry_of ev retention =
     \<lparr>au_id = ''audit-'' @ de_id ev, au_sequence = 0, au_actor = fst (extract_actor ev),
      au_actor_type = snd (extract_actor ev), au_organization = de_organization ev, au_action = de_type ev,
      au_target_type = de_aggregate_type ev, au_target = de_aggregate ev, au_metadata = de_payload ev,
      au_request = de_request ev, au_retention = retention, au_prev = None, au_hash = None, au_at = de_date ev\<rparr>"

text \<open>\<open>ORDER BY sequence DESC LIMIT 1\<close> among the rows that carry a hash.\<close>

definition last_hash :: "audit_db \<Rightarrow> string" where
  "last_hash db =
     (case sql_select (\<lambda>r. au_hash r \<noteq> None) (\<lambda>r. - int (au_sequence r)) 1 (au_rows db) of
        [] \<Rightarrow> GENESIS_HASH
      | r # _ \<Rightarrow> (case au_hash r of None \<Rightarrow> GENESIS_HASH | Some h \<Rightarrow> h))"

text \<open>
  \<open>handle\<close>. With tamper evidence the transaction holds the chain's lock from the read of the last hash
  to its end, so that no other link is written in between; \<open>err\<close> is what the driver raises, and
  undoes the rest.
\<close>

definition handle_audited ::
  "audit_env \<Rightarrow> bool \<Rightarrow> string option \<Rightarrow> delivered_event \<Rightarrow> audit_db \<Rightarrow> audit_db throws" where
  "handle_audited env tamper_evidence err ev db =
     (case retention_for (de_type ev) of
        Some NoRetention \<Rightarrow> Inr db
      | None \<Rightarrow> Inl ''null value in column retention''
      | Some retention \<Rightarrow>
          (case err of
             Some e \<Rightarrow> Inl e
           | None \<Rightarrow>
               (let entry = audit_entry_of ev retention;
                    linked = (if tamper_evidence
                      then (let prev = last_hash db
                            in entry\<lparr>au_prev := Some prev, au_hash := Some (compute_audit_hash env (audit_hash_input env entry prev))\<rparr>)
                      else entry)
                in Inr (insert_audit (linked\<lparr>au_metadata := av_jsonb env (au_metadata linked)\<rparr>) db))))"

section \<open>Rows written without an event\<close>

record audit_entry =
  an_actor :: "string option"
  an_actor_type :: audit_actor_type
  an_organization :: "string option"
  an_action :: string
  an_target_type :: string
  an_target :: ident
  an_metadata :: json
  an_request :: "string option"
  an_retention :: retention_policy

definition record_audit ::
  "audit_env \<Rightarrow> string option \<Rightarrow> ident \<Rightarrow> instant \<Rightarrow> audit_entry \<Rightarrow> audit_db \<Rightarrow> audit_db \<times> (audit_row, string) result" where
  "record_audit env err fresh date entry db =
     (let row = \<lparr>au_id = fresh, au_sequence = au_next db, au_actor = an_actor entry, au_actor_type = an_actor_type entry,
            au_organization = an_organization entry, au_action = an_action entry, au_target_type = an_target_type entry,
            au_target = an_target entry, au_metadata = an_metadata entry, au_request = an_request entry,
            au_retention = an_retention entry, au_prev = None, au_hash = None, au_at = date\<rparr>
      in case err of
           Some e \<Rightarrow> (db, fail ''AUDIT_PERSISTENCE_PROVIDER_FAILURE'')
         | None \<Rightarrow>
             if fresh \<in> au_id ` set (au_rows db)
             then (db\<lparr>au_next := Suc (au_next db)\<rparr>, fail ''AUDIT_PERSISTENCE_PROVIDER_FAILURE'')
             else (insert_audit (row\<lparr>au_metadata := av_jsonb env (au_metadata row)\<rparr>) db, ok row))"

section \<open>Verification\<close>

record chain_verification =
  cv_verified :: bool
  cv_row_count :: nat
  cv_broken_id :: "ident option"
  cv_broken_sequence :: "nat option"

definition recomputed :: "audit_env \<Rightarrow> audit_row \<Rightarrow> string" where
  "recomputed env r =
     compute_audit_hash env (audit_hash_input env r (case au_prev r of None \<Rightarrow> GENESIS_HASH | Some p \<Rightarrow> p))"

text \<open>The loop: the first row that does not follow the hash before it, or whose content does not hash to its own.\<close>

fun broken_link :: "audit_env \<Rightarrow> string \<Rightarrow> audit_row list \<Rightarrow> audit_row option" where
  "broken_link env prev [] = None"
| "broken_link env prev (r # rs) =
     (if au_prev r \<noteq> Some prev \<or> au_hash r \<noteq> Some (recomputed env r) then Some r
      else broken_link env (the (au_hash r)) rs)"

definition hashed_rows :: "audit_db \<Rightarrow> audit_row list" where
  "hashed_rows db = sort_key au_sequence (filter (\<lambda>r. au_hash r \<noteq> None) (au_rows db))"

definition verify_chain :: "audit_env \<Rightarrow> string option \<Rightarrow> audit_db \<Rightarrow> (chain_verification, string) result" where
  "verify_chain env err db =
     (case err of
        Some e \<Rightarrow> fail ''AUDIT_PERSISTENCE_PROVIDER_FAILURE''
      | None \<Rightarrow>
          (let rows = hashed_rows db
           in ok (case broken_link env GENESIS_HASH rows of
                Some r \<Rightarrow> \<lparr>cv_verified = False, cv_row_count = length rows, cv_broken_id = Some (au_id r), cv_broken_sequence = Some (au_sequence r)\<rparr>
              | None \<Rightarrow> \<lparr>cv_verified = True, cv_row_count = length rows, cv_broken_id = None, cv_broken_sequence = None\<rparr>)))"

text \<open>What the operators' service exposes of it is these operations as they are.\<close>

section \<open>Retention\<close>

text \<open>\<open>sweep-audit-log.route.ts\<close>: what a pass over a bucket may delete.\<close>

definition audit_expired :: "retention_policy \<Rightarrow> instant \<Rightarrow> audit_row \<Rightarrow> bool" where
  "audit_expired bucket cutoff r \<longleftrightarrow> au_retention r = bucket \<and> au_at r < cutoff"

end
