(* ===== verification/Audit_Chain.thy ===== *)
theory Audit_Chain
  imports Audit_Log Sweep_Correct
begin

text \<open>
  What the links of the audit log guarantee: whatever is appended to it, in whatever order, the chain
  verifies; two logs that verify and end in the same hash hold the same rows written under tamper
  evidence; and deleting rows, as the retention sweep does, is noticed exactly when something later is kept.
\<close>

section \<open>What appends to the log\<close>

text \<open>
  The only other statement of the program on this table is the batch of the retention sweep, which
  deletes: see \<open>retention_breaks_chain\<close> for what becomes of the chain then.
  A process with tamper evidence and one without may run side by side. A rolled back insert leaves a
  gap in the sequence.
\<close>

inductive audit_step :: "audit_env \<Rightarrow> audit_db \<Rightarrow> audit_db \<Rightarrow> bool" for env where
  handled: "handle_audited env tamper_evidence err ev db = Inr db' \<Longrightarrow> audit_step env db db'"
| recorded: "record_audit env err fresh date entry db = (db', res) \<Longrightarrow> audit_step env db db'"
| gap: "audit_step env db (db\<lparr>au_next := au_next db + n\<rparr>)"

definition empty_log :: audit_db where "empty_log = \<lparr>au_rows = [], au_next = 1\<rparr>"

text \<open>A \<open>jsonb\<close> column gives back the value written, its members in any order.\<close>

definition keeps_values :: "audit_env \<Rightarrow> bool" where
  "keeps_values env \<longleftrightarrow> (\<forall>j. normal (av_jsonb env j) = normal j)"

section \<open>The text of a row\<close>

definition row_text :: "audit_env \<Rightarrow> audit_row \<Rightarrow> string" where
  "row_text env r = canonicalize (audit_hash_input env r (case au_prev r of None \<Rightarrow> GENESIS_HASH | Some p \<Rightarrow> p))"

lemma recomputed_text: "recomputed env r = av_sha env (row_text env r)"
  by (simp add: recomputed_def compute_audit_hash_def row_text_def)

text \<open>The row with what \<open>jsonb\<close> gives back.\<close>

lemma text_of_stored:
  assumes "keeps_values env"
  shows "canonicalize (audit_hash_input env (r\<lparr>au_metadata := av_jsonb env (au_metadata r)\<rparr>) p) = canonicalize (audit_hash_input env r p)"
  using assms by (simp add: same_text audit_hash_input_def keeps_values_def)

definition same_content :: "audit_row \<Rightarrow> audit_row \<Rightarrow> bool" where
  "same_content r s \<longleftrightarrow>
     au_id r = au_id s \<and> au_action r = au_action s \<and> au_actor r = au_actor s \<and> au_actor_type r = au_actor_type s \<and>
     au_organization r = au_organization s \<and> au_target_type r = au_target_type s \<and> au_target r = au_target s \<and>
     normal (au_metadata r) = normal (au_metadata s) \<and> au_at r = au_at s \<and> au_request r = au_request s \<and>
     au_retention r = au_retention s"

lemma text_or_null_inj: "normal (text_or_null s) = normal (text_or_null t) \<longleftrightarrow> s = t"
  by (auto simp: text_or_null_def split: option.splits)

lemma actor_type_text_inj: "actor_type_text a = actor_type_text b \<longleftrightarrow> a = b"
  by (cases a; cases b) simp_all

lemma retention_text_inj: "retention_text a = retention_text b \<longleftrightarrow> a = b"
  by (cases a; cases b) simp_all

lemma text_determines:
  assumes "inj (av_iso env)" and "canonicalize (audit_hash_input env r p) = canonicalize (audit_hash_input env s q)"
  shows "same_content r s \<and> p = q"
proof -
  define members where "members x c =
     [(''id'', JStr (au_id x)), (''action'', JStr (au_action x)), (''actorId'', text_or_null (au_actor x)),
      (''actorType'', JStr (actor_type_text (au_actor_type x))), (''organizationId'', text_or_null (au_organization x)),
      (''targetType'', JStr (au_target_type x)), (''targetId'', JStr (au_target x)), (''metadata'', au_metadata x),
      (''occurredAt'', JStr (av_iso env (au_at x))), (''requestId'', text_or_null (au_request x)),
      (''retention'', JStr (retention_text (au_retention x))), (''prevHash'', JStr c)]" for x :: audit_row and c
  have "normal (JObj (members r p)) = normal (JObj (members s q))"
    using assms(2) by (simp only: same_text audit_hash_input_def members_def)
  moreover have "distinct (map fst (members x c))" for x c by (simp add: members_def)
  ultimately have at: "map_option normal (map_of (members r p) k) = map_option normal (map_of (members s q) k)" for k
    using normal_members by blast
  show ?thesis
    using at [of "''id''"] at [of "''action''"] at [of "''actorId''"] at [of "''actorType''"] at [of "''organizationId''"]
      at [of "''targetType''"] at [of "''targetId''"] at [of "''metadata''"] at [of "''occurredAt''"] at [of "''requestId''"]
      at [of "''retention''"] at [of "''prevHash''"] injD [OF assms(1)]
    by (simp add: members_def same_content_def text_or_null_inj actor_type_text_inj retention_text_inj)
qed

section \<open>The chain as a list\<close>

fun chain_end :: "string \<Rightarrow> audit_row list \<Rightarrow> string" where
  "chain_end prev [] = prev"
| "chain_end prev (r # rs) = chain_end (the (au_hash r)) rs"

lemma chain_end_snoc [simp]: "chain_end prev (rs @ [r]) = the (au_hash r)"
  by (induction rs arbitrary: prev) simp_all

lemma broken_link_append:
  "broken_link env prev (rs @ ss) = None \<longleftrightarrow>
   broken_link env prev rs = None \<and> broken_link env (chain_end prev rs) ss = None"
  by (induction rs arbitrary: prev) simp_all

text \<open>A link that holds: it names the hash before it and carries that of its own text.\<close>

lemma broken_link_snoc:
  "broken_link env prev (rs @ [r]) = None \<longleftrightarrow>
   broken_link env prev rs = None \<and> au_prev r = Some (chain_end prev rs) \<and> au_hash r = Some (av_sha env (row_text env r))"
  by (simp add: broken_link_append recomputed_text)

section \<open>The invariant\<close>

definition chain_inv :: "audit_env \<Rightarrow> audit_db \<Rightarrow> bool" where
  "chain_inv env db \<longleftrightarrow>
     keyed au_id (au_rows db) \<and> sorted_wrt (<) (map au_sequence (au_rows db)) \<and> (\<forall>r \<in> set (au_rows db). au_sequence r < au_next db) \<and>
     broken_link env GENESIS_HASH (filter (\<lambda>r. au_hash r \<noteq> None) (au_rows db)) = None"

lemma hashed_rows_in_order:
  assumes "sorted_wrt (<) (map au_sequence (au_rows db))"
  shows "hashed_rows db = filter (\<lambda>r. au_hash r \<noteq> None) (au_rows db)"
proof -
  have "sorted (map au_sequence (filter (\<lambda>r. au_hash r \<noteq> None) (au_rows db)))"
    using assms by (intro sorted_filter) (simp add: strict_sorted_imp_sorted)
  then show ?thesis by (simp add: hashed_rows_def sort_key_id_if_sorted)
qed

text \<open>\<open>ORDER BY sequence DESC\<close> starts where \<open>ORDER BY sequence ASC\<close> ends.\<close>

lemma last_hash_end:
  assumes "distinct (map au_sequence (au_rows db))"
  shows "last_hash db = chain_end GENESIS_HASH (hashed_rows db)"
proof -
  let ?rows = "filter (\<lambda>r. au_hash r \<noteq> None) (au_rows db)"
  let ?down = "\<lambda>r. - int (au_sequence r)"
  have "distinct (map au_sequence ?rows)" using assms by (rule distinct_map_filter)
  then have dist: "distinct (map ?down ?rows)" by (auto simp: distinct_map inj_on_def)
  have up: "sorted_wrt (\<lambda>r s. au_sequence r \<le> au_sequence s) (hashed_rows db)"
    using sorted_sort_key [of au_sequence ?rows] by (simp add: hashed_rows_def sorted_map)
  have "sort_key ?down ?rows = rev (hashed_rows db)"
  proof (rule map_sorted_distinct_set_unique [of ?down])
    show "sorted (map ?down (rev (hashed_rows db)))"
      using up by (simp add: sorted_map sorted_wrt_rev)
    show "inj_on ?down (set (sort_key ?down ?rows) \<union> set (rev (hashed_rows db)))"
      using dist by (simp only: distinct_map set_sort set_rev hashed_rows_def Un_absorb)
    show "distinct (map ?down (sort_key ?down ?rows))" "distinct (map ?down (rev (hashed_rows db)))"
      using dist by (simp_all only: distinct_map distinct_sort set_sort set_rev distinct_rev hashed_rows_def)
    show "sorted (map ?down (sort_key ?down ?rows))" by (rule sorted_sort_key)
  qed (simp add: hashed_rows_def)
  then have "last_hash db = (case take 1 (rev (hashed_rows db)) of [] \<Rightarrow> GENESIS_HASH
      | r # _ \<Rightarrow> (case au_hash r of None \<Rightarrow> GENESIS_HASH | Some h \<Rightarrow> h))"
    by (simp only: last_hash_def sql_select_def)
  moreover have "\<forall>r \<in> set (hashed_rows db). au_hash r \<noteq> None" by (simp add: hashed_rows_def)
  ultimately show ?thesis by (cases "hashed_rows db" rule: rev_cases) auto
qed

lemma last_hash_in_order:
  assumes "sorted_wrt (<) (map au_sequence (au_rows db))"
  shows "last_hash db = chain_end GENESIS_HASH (filter (\<lambda>r. au_hash r \<noteq> None) (au_rows db))"
  using last_hash_end [of db] assms by (simp add: strict_sorted_iff hashed_rows_in_order)

lemma audit_hash_input_links [simp]:
  "audit_hash_input env (r\<lparr>au_prev := p\<rparr>) q = audit_hash_input env r q"
  "audit_hash_input env (r\<lparr>au_hash := h\<rparr>) q = audit_hash_input env r q"
  "audit_hash_input env (r\<lparr>au_sequence := n\<rparr>) q = audit_hash_input env r q"
  by (simp_all add: audit_hash_input_def)

lemma row_text_sequence [simp]: "row_text env (r\<lparr>au_sequence := n\<rparr>) = row_text env r"
  by (simp add: row_text_def)

lemma chain_inv_insert:
  assumes "chain_inv env db"
    and "au_hash r = None \<or> au_prev r = Some (last_hash db) \<and> au_hash r = Some (av_sha env (row_text env r))"
  shows "chain_inv env (insert_audit r db)"
proof -
  have inv: "keyed au_id (au_rows db)" "sorted_wrt (<) (map au_sequence (au_rows db))" "\<forall>r \<in> set (au_rows db). au_sequence r < au_next db"
    "broken_link env GENESIS_HASH (filter (\<lambda>r. au_hash r \<noteq> None) (au_rows db)) = None"
    using assms(1) unfolding chain_inv_def by blast+
  show ?thesis
  proof (cases "au_id r \<in> au_id ` set (au_rows db)")
    case True
    then show ?thesis using inv by (auto simp: chain_inv_def insert_audit_def)
  next
    case False
    have link: "broken_link env GENESIS_HASH (filter (\<lambda>r. au_hash r \<noteq> None) (au_rows db @ [r\<lparr>au_sequence := au_next db\<rparr>])) = None"
      using inv(4) assms(2) by (auto simp: broken_link_snoc last_hash_in_order [OF inv(2)])
    have "sorted_wrt (<) (map au_sequence (au_rows db @ [r\<lparr>au_sequence := au_next db\<rparr>]))"
      using inv(2,3) by (auto simp: sorted_wrt_append)
    then show ?thesis using inv False link by (auto simp: chain_inv_def insert_audit_def keyed_def)
  qed
qed

lemma handled_writes:
  assumes "handle_audited env tamper_evidence err ev db = Inr db'"
  shows "db' = db \<or> (\<exists>r. db' = insert_audit (r\<lparr>au_metadata := av_jsonb env (au_metadata r)\<rparr>) db \<and>
    (au_hash r = None \<or> au_prev r = Some (last_hash db) \<and>
       au_hash r = Some (av_sha env (canonicalize (audit_hash_input env r (last_hash db))))))"
proof (cases "retention_for (de_type ev) = Some NoRetention")
  case True
  then show ?thesis using assms by (simp add: handle_audited_def)
next
  case False
  then obtain retention where ret: "retention_for (de_type ev) = Some retention" "retention \<noteq> NoRetention"
    using assms by (auto simp: handle_audited_def split: option.splits)
  define entry where "entry = audit_entry_of ev retention"
  define linked where "linked = (if tamper_evidence
    then entry\<lparr>au_prev := Some (last_hash db), au_hash := Some (compute_audit_hash env (audit_hash_input env entry (last_hash db)))\<rparr>
    else entry)"
  have "db' = insert_audit (linked\<lparr>au_metadata := av_jsonb env (au_metadata linked)\<rparr>) db"
    using assms ret by (cases retention; cases tamper_evidence) (auto simp: handle_audited_def Let_def entry_def linked_def split: option.splits)
  moreover have "au_hash entry = None" by (simp add: entry_def audit_entry_of_def)
  then have "au_hash linked = None \<or> au_prev linked = Some (last_hash db) \<and>
      au_hash linked = Some (av_sha env (canonicalize (audit_hash_input env linked (last_hash db))))"
    by (simp add: linked_def compute_audit_hash_def del: canonicalize.simps)
  ultimately show ?thesis by (intro disjI2 exI [of _ linked]) simp
qed

lemma chain_inv_later: "chain_inv env db \<Longrightarrow> au_next db \<le> n \<Longrightarrow> chain_inv env (db\<lparr>au_next := n\<rparr>)"
  by (auto simp: chain_inv_def)

lemma audit_step_inv:
  assumes "audit_step env db db'" and "keeps_values env" and "chain_inv env db"
  shows "chain_inv env db'"
  using assms(1)
proof cases
  case (handled tamper_evidence err ev)
  from handled_writes [OF this] show ?thesis
  proof (elim disjE exE conjE)
    fix r
    assume db': "db' = insert_audit (r\<lparr>au_metadata := av_jsonb env (au_metadata r)\<rparr>) db" and none: "au_hash r = None"
    show ?thesis unfolding db' by (rule chain_inv_insert [OF assms(3)]) (simp add: none)
  next
    fix r
    assume db': "db' = insert_audit (r\<lparr>au_metadata := av_jsonb env (au_metadata r)\<rparr>) db" and p: "au_prev r = Some (last_hash db)"
      and h: "au_hash r = Some (av_sha env (canonicalize (audit_hash_input env r (last_hash db))))"
    show ?thesis unfolding db'
      by (rule chain_inv_insert [OF assms(3)])
        (simp add: p h row_text_def text_of_stored [OF assms(2)] del: canonicalize.simps)
  qed (use assms(3) in simp)
next
  case (recorded err fresh date entry res)
  have "db' = db \<or> db' = db\<lparr>au_next := Suc (au_next db)\<rparr> \<or> (\<exists>r. db' = insert_audit r db \<and> au_hash r = None)"
    using recorded by (auto simp: record_audit_def Let_def split: option.splits if_splits)
  then show ?thesis
  proof (elim disjE exE conjE)
    fix r assume "db' = insert_audit r db" "au_hash r = None"
    then show ?thesis using chain_inv_insert [OF assms(3)] by simp
  qed (use assms(3) chain_inv_later [OF assms(3), of "Suc (au_next db)"] in simp_all)
next
  case (gap n)
  then show ?thesis using chain_inv_later [OF assms(3)] by simp
qed

lemma audit_reach_inv:
  assumes "(audit_step env)\<^sup>*\<^sup>* empty_log db" and "keeps_values env"
  shows "chain_inv env db"
  using assms(1)
proof (induction rule: rtranclp_induct)
  case base
  then show ?case by (simp add: chain_inv_def empty_log_def keyed_def)
next
  case (step db db')
  then show ?case using audit_step_inv assms(2) by blast
qed

lemma verified_iff:
  "verify_chain env None db =
     ok \<lparr>cv_verified = True, cv_row_count = length (hashed_rows db), cv_broken_id = None, cv_broken_sequence = None\<rparr>
   \<longleftrightarrow> broken_link env GENESIS_HASH (hashed_rows db) = None"
  by (auto simp: verify_chain_def Let_def split: option.splits)

text \<open>
  C28: as long as nothing is deleted from the table (the retention sweep does delete, and breaks the
  chain), after any sequence of handled events, with tamper evidence or without, of rows recorded
  directly and of rolled back inserts, from an empty table, the verification finds every link intact,
  and counts every row that has a hash.
\<close>
theorem chain_intact:
  assumes "(audit_step env)\<^sup>*\<^sup>* empty_log db" and "keeps_values env"
  shows "verify_chain env None db =
    ok \<lparr>cv_verified = True, cv_row_count = length (filter (\<lambda>r. au_hash r \<noteq> None) (au_rows db)), cv_broken_id = None, cv_broken_sequence = None\<rparr>"
proof -
  have inv: "chain_inv env db" by (rule audit_reach_inv [OF assms])
  then have "hashed_rows db = filter (\<lambda>r. au_hash r \<noteq> None) (au_rows db)"
    by (intro hashed_rows_in_order) (simp add: chain_inv_def)
  then show ?thesis using inv verified_iff [of env db] by (simp add: chain_inv_def)
qed

section \<open>Two logs with the same last hash\<close>

text \<open>What SHA-256 is relied on for: among these rows no two texts share a hash, and none hashes to the first word.\<close>

definition no_collision :: "audit_env \<Rightarrow> audit_row list \<Rightarrow> bool" where
  "no_collision env rows \<longleftrightarrow>
     inj_on (av_sha env) (row_text env ` set rows) \<and> (\<forall>r \<in> set rows. av_sha env (row_text env r) \<noteq> GENESIS_HASH)"

lemma same_end_same_rows:
  assumes "inj (av_iso env)" and "no_collision env all" and "set rs \<subseteq> set all" and "set ss \<subseteq> set all"
    and "broken_link env GENESIS_HASH rs = None" and "broken_link env GENESIS_HASH ss = None"
    and "chain_end GENESIS_HASH rs = chain_end GENESIS_HASH ss"
  shows "list_all2 same_content rs ss"
  using assms(3-)
proof (induction rs arbitrary: ss rule: rev_induct)
  case Nil
  show ?case
  proof (cases ss rule: rev_cases)
    case (snoc ss' s)
    then have "av_sha env (row_text env s) = GENESIS_HASH" "s \<in> set all" using Nil by (auto simp: broken_link_snoc)
    then show ?thesis using assms(2) by (simp add: no_collision_def)
  qed simp
next
  case (snoc r rs)
  have r: "broken_link env GENESIS_HASH rs = None" "au_prev r = Some (chain_end GENESIS_HASH rs)"
    "au_hash r = Some (av_sha env (row_text env r))" "r \<in> set all"
    using snoc.prems by (auto simp: broken_link_snoc)
  show ?case
  proof (cases ss rule: rev_cases)
    case Nil
    then have "av_sha env (row_text env r) = GENESIS_HASH" using snoc.prems(5) r by simp
    then show ?thesis using assms(2) r(4) by (simp add: no_collision_def)
  next
    case ss: (snoc ss' s)
    then have s: "broken_link env GENESIS_HASH ss' = None" "au_prev s = Some (chain_end GENESIS_HASH ss')"
      "au_hash s = Some (av_sha env (row_text env s))" "s \<in> set all"
      using snoc.prems by (auto simp: broken_link_snoc)
    have "av_sha env (row_text env r) = av_sha env (row_text env s)" using snoc.prems(5) r(3) s(3) ss by simp
    then have "row_text env r = row_text env s"
      using assms(2) r(4) s(4) by (auto simp: no_collision_def dest: inj_onD)
    then have "same_content r s \<and> chain_end GENESIS_HASH rs = chain_end GENESIS_HASH ss'"
      using text_determines [OF assms(1), of r _ s] r(2) s(2) by (simp add: row_text_def)
    moreover from this have "list_all2 same_content rs ss'" using snoc.prems r(1) s(1) ss by (intro snoc.IH) auto
    ultimately show ?thesis using ss by (auto intro: list_all2_appendI)
  qed
qed

text \<open>
  C29: two tables that both verify and whose last links carry the same hash hold the same rows written
  under tamper evidence, those that have a hash, in the same order and column by column, up to the order
  of the keys of their metadata, unless two of their texts collide. Of rows without a hash, written with
  tamper evidence off, the chain says nothing.
\<close>
theorem same_head_same_log:
  assumes "inj (av_iso env)" and "no_collision env (hashed_rows db @ hashed_rows db')"
    and "verify_chain env None db = ok v" and "cv_verified v" and "verify_chain env None db' = ok v'" and "cv_verified v'"
    and "last_hash db = last_hash db'"
    and "distinct (map au_sequence (au_rows db))" and "distinct (map au_sequence (au_rows db'))"
  shows "list_all2 same_content (hashed_rows db) (hashed_rows db')"
proof (rule same_end_same_rows [OF assms(1,2)])
  show "broken_link env GENESIS_HASH (hashed_rows db) = None" "broken_link env GENESIS_HASH (hashed_rows db') = None"
    using assms(3-6) by (auto simp: verify_chain_def Let_def split: option.splits)
  show "chain_end GENESIS_HASH (hashed_rows db) = chain_end GENESIS_HASH (hashed_rows db')"
    using assms(7-9) by (simp add: last_hash_end)
qed simp_all

section \<open>Rows deleted\<close>

lemma distinct_ids_eq:
  assumes "list_all2 same_content rs ss" and "set rs \<subseteq> set t" and "set ss \<subseteq> set t" and "keyed au_id t"
  shows "rs = ss"
  using assms(1-3)
proof (induction rule: list_all2_induct)
  case (Cons r rs s ss)
  then show ?case using keyed_unique [OF assms(4), of r s] by (simp add: same_content_def)
qed simp

lemma hashed_rows_deleted:
  assumes "sorted_wrt (<) (map au_sequence (au_rows db))"
  shows "hashed_rows (db\<lparr>au_rows := sql_delete p (au_rows db)\<rparr>) = filter (\<lambda>r. \<not> p r) (hashed_rows db)"
proof -
  have "sorted_wrt (<) (map au_sequence (sql_delete p (au_rows db)))"
    using assms by (simp add: sql_delete_def sorted_wrt_map sorted_wrt_filter)
  then show ?thesis
    using hashed_rows_in_order [of "db\<lparr>au_rows := sql_delete p (au_rows db)\<rparr>"] hashed_rows_in_order [OF assms]
    by (simp add: sql_delete_def conj_commute)
qed

lemma log_in_order:
  assumes "chain_inv env db"
  shows "sorted_wrt (<) (map au_sequence (au_rows db))" and "broken_link env GENESIS_HASH (hashed_rows db) = None"
    and "keyed au_id (hashed_rows db)"
proof -
  show ord: "sorted_wrt (<) (map au_sequence (au_rows db))" using assms by (simp add: chain_inv_def)
  show "broken_link env GENESIS_HASH (hashed_rows db) = None" "keyed au_id (hashed_rows db)"
    using assms by (simp_all add: chain_inv_def keyed_def hashed_rows_in_order [OF ord] distinct_map_filter)
qed

lemma left_verifies_iff:
  assumes "chain_inv env db" and "inj (av_iso env)" and "no_collision env (hashed_rows db)"
  shows "broken_link env GENESIS_HASH (filter keep (hashed_rows db)) = None \<longleftrightarrow>
    (\<exists>n. filter keep (hashed_rows db) = take n (hashed_rows db))"
proof -
  let ?rows = "hashed_rows db" and ?left = "filter keep (hashed_rows db)"
  note inv = log_in_order [OF assms(1)]
  have cut: "broken_link env GENESIS_HASH (take n ?rows) = None" for n
    using inv(2) broken_link_append [of env GENESIS_HASH "take n ?rows" "drop n ?rows"] by simp
  show ?thesis
  proof
    assume left: "broken_link env GENESIS_HASH ?left = None"
    show "\<exists>n. ?left = take n ?rows"
    proof (cases ?left rule: rev_cases)
      case Nil
      then show ?thesis by (intro exI [of _ 0]) simp
    next
      case (snoc ls l)
      then have "l \<in> set ?rows" by (metis filter_is_subset in_set_conv_decomp subsetD)
      then obtain n where n: "n < length ?rows" "l = ?rows ! n" by (auto simp: in_set_conv_nth)
      then have "chain_end GENESIS_HASH ?left = chain_end GENESIS_HASH (take (Suc n) ?rows)"
        by (simp add: snoc take_Suc_conv_app_nth)
      then have "list_all2 same_content ?left (take (Suc n) ?rows)"
        by (intro same_end_same_rows [OF assms(2,3) _ _ left cut]) (auto dest: in_set_takeD)
      then have "?left = take (Suc n) ?rows"
        by (rule distinct_ids_eq [OF _ _ _ inv(3)]) (auto dest: in_set_takeD)
      then show ?thesis ..
    qed
  next
    assume "\<exists>n. ?left = take n ?rows"
    then show "broken_link env GENESIS_HASH ?left = None" using cut by auto
  qed
qed

lemma verified_after_deletion:
  assumes "sorted_wrt (<) (map au_sequence (au_rows db))" and "verify_chain env None (db\<lparr>au_rows := sql_delete gone (au_rows db)\<rparr>) = ok v"
  shows "cv_verified v \<longleftrightarrow> broken_link env GENESIS_HASH (filter (\<lambda>r. \<not> gone r) (hashed_rows db)) = None"
  using assms(2) by (auto simp: verify_chain_def Let_def hashed_rows_deleted [OF assms(1)] split: option.splits)

text \<open>
  C30: rows deleted from a log the program wrote are noticed by the verification exactly when the audited
  rows left are not the first ones of the chain: only cutting off its end is not noticed.
\<close>
theorem deletion_noticed:
  assumes "(audit_step env)\<^sup>*\<^sup>* empty_log db" and "keeps_values env" and "inj (av_iso env)"
    and "no_collision env (hashed_rows db)" and "verify_chain env None (db\<lparr>au_rows := sql_delete gone (au_rows db)\<rparr>) = ok v"
  shows "cv_verified v \<longleftrightarrow> (\<exists>n. filter (\<lambda>r. \<not> gone r) (hashed_rows db) = take n (hashed_rows db))"
proof -
  have inv: "chain_inv env db" by (rule audit_reach_inv [OF assms(1,2)])
  show ?thesis
    unfolding verified_after_deletion [OF log_in_order(1) [OF inv] assms(5)] by (rule left_verifies_iff [OF inv assms(3,4)])
qed

text \<open>
  The retention sweep deletes the oldest rows of a bucket and keeps later ones: from its first batch on,
  the verification of a log with tamper evidence says it is broken.
\<close>

lemma purge_batch_rows:
  assumes "keyed key t" and "purge_batch_with_timeout key (Some eligible) order None locked n t = Inr (t', d)"
  shows "\<exists>gone. t' = filter (\<lambda>r. \<not> gone r) t"
  by (rule purge_batch_spec [OF assms]) blast

lemma retention_breaks_chain:
  assumes "(audit_step env)\<^sup>*\<^sup>* empty_log db" and "keeps_values env" and "inj (av_iso env)" and "no_collision env (hashed_rows db)"
    and "purge_batch_with_timeout au_id (Some (audit_expired bucket cutoff)) au_at None locked n (au_rows db) = Inr (t', d)"
    and "i < j" and "j < length (hashed_rows db)" and "hashed_rows db ! i \<notin> set t'" and "hashed_rows db ! j \<in> set t'"
    and "verify_chain env None (db\<lparr>au_rows := t'\<rparr>) = ok v"
  shows "\<not> cv_verified v"
proof
  assume ver: "cv_verified v"
  have inv: "chain_inv env db" by (rule audit_reach_inv [OF assms(1,2)])
  have "keyed au_id (au_rows db)" using inv by (simp add: chain_inv_def)
  from purge_batch_rows [OF this assms(5)] obtain gone where t': "t' = filter (\<lambda>r. \<not> gone r) (au_rows db)" ..
  let ?rows = "hashed_rows db"
  have "\<exists>m. filter (\<lambda>r. \<not> gone r) ?rows = take m ?rows"
    unfolding left_verifies_iff [OF inv assms(3,4), symmetric]
    using verified_after_deletion [OF log_in_order(1) [OF inv], of env gone v] ver assms(10) t' by (simp add: sql_delete_def)
  then obtain m where m: "filter (\<lambda>r. \<not> gone r) ?rows = take m ?rows" ..
  have dist: "distinct ?rows" using log_in_order(3) [OF inv] by (rule keyed_distinct)
  have mem: "?rows ! k \<in> set (au_rows db)" if "k < length ?rows" for k
    using nth_mem [OF that] by (simp add: hashed_rows_def)
  have "?rows ! j \<in> set (filter (\<lambda>r. \<not> gone r) ?rows)" using assms(7,9) by (simp add: t')
  then obtain k where k: "k < m" "k < length ?rows" "?rows ! k = ?rows ! j"
    unfolding m by (auto simp: in_set_conv_nth)
  then have "i < m" using dist assms(6,7) by (simp add: nth_eq_iff_index_eq)
  then have "?rows ! i \<in> set (take m ?rows)" using assms(6,7) by (auto simp: in_set_conv_nth intro!: exI [of _ i])
  then have "\<not> gone (?rows ! i)" unfolding m [symmetric] by simp
  then show False using assms(6-8) mem [of i] by (simp add: t')
qed

section \<open>An example\<close>

definition example_audit :: audit_env where
  "example_audit = \<lparr>av_sha = (\<lambda>s. s), av_iso = show_int, av_jsonb = (\<lambda>j. j)\<rparr>"

definition example_audited :: "ident \<Rightarrow> (string \<times> json) list \<Rightarrow> delivered_event" where
  "example_audited i ms = \<lparr>de_id = i, de_type = ''user.created'', de_aggregate = ''u1'', de_aggregate_type = ''User'',
     de_organization = None, de_request = None, de_date = 5, de_payload = JObj ms\<rparr>"

definition example_log :: "delivered_event list \<Rightarrow> audit_db" where
  "example_log es = fold (\<lambda>e db. case handle_audited example_audit True None e db of Inl x \<Rightarrow> db | Inr db' \<Rightarrow> db') es empty_log"

lemma example_log_reached: "(audit_step example_audit)\<^sup>*\<^sup>* empty_log (example_log es)"
proof -
  have "(audit_step example_audit)\<^sup>*\<^sup>* db (fold (\<lambda>e db. case handle_audited example_audit True None e db of Inl x \<Rightarrow> db | Inr db' \<Rightarrow> db') es db)" for db
  proof (induction es arbitrary: db)
    case (Cons e es)
    show ?case
    proof (cases "handle_audited example_audit True None e db")
      case (Inr db')
      then show ?thesis using Cons [of db'] handled [OF Inr] by (simp add: converse_rtranclp_into_rtranclp)
    qed (use Cons in simp)
  qed simp
  then show ?thesis by (simp add: example_log_def)
qed

lemma example_audit_ok:
  "keeps_values example_audit" "inj (av_iso example_audit)" "no_collision example_audit rows"
proof -
  show "inj (av_iso example_audit)"
    using show_int_prefix [of _ "[]" _ "[]"] by (auto simp: example_audit_def inj_def ends_number_def)
  have "row_text example_audit r \<noteq> GENESIS_HASH" for r
    by (simp add: row_text_def audit_hash_input_def GENESIS_HASH_def)
  then show "no_collision example_audit rows" by (simp add: no_collision_def example_audit_def)
qed (simp add: keeps_values_def example_audit_def)

lemma example_retention: "retention_for ''user.created'' = Some Compliance"
  by code_simp

text \<open>The row of an event and what one event appends to a log.\<close>

definition example_link :: "string \<Rightarrow> nat \<Rightarrow> delivered_event \<Rightarrow> audit_row" where
  "example_link prev n e = (audit_entry_of e Compliance)\<lparr>au_sequence := n, au_prev := Some prev,
     au_hash := Some (canonicalize (audit_hash_input example_audit (audit_entry_of e Compliance) prev))\<rparr>"

lemma example_handled:
  assumes "de_type e = ''user.created''" and "''audit-'' @ de_id e \<notin> au_id ` set (au_rows db)"
  shows "handle_audited example_audit True None e db =
    Inr \<lparr>au_rows = au_rows db @ [example_link (last_hash db) (au_next db) e], au_next = Suc (au_next db)\<rparr>"
  using assms
  by (simp add: handle_audited_def example_retention Let_def insert_audit_def example_link_def example_audit_def
      compute_audit_hash_def audit_entry_of_def del: canonicalize.simps)

lemma example_one:
  "example_log [example_audited ''e1'' ms] = \<lparr>au_rows = [example_link GENESIS_HASH 1 (example_audited ''e1'' ms)], au_next = 2\<rparr>"
  by (simp add: example_log_def example_handled example_audited_def empty_log_def last_hash_def sql_select_def)

lemma example_log_snoc:
  "example_log (es @ [e]) =
     (case handle_audited example_audit True None e (example_log es) of Inl x \<Rightarrow> example_log es | Inr db' \<Rightarrow> db')"
  unfolding example_log_def by simp

lemma example_two:
  "\<exists>p. example_log [example_audited ''e1'' ms, example_audited ''e2'' ns] =
     \<lparr>au_rows = [example_link GENESIS_HASH 1 (example_audited ''e1'' ms), example_link p 2 (example_audited ''e2'' ns)], au_next = 3\<rparr>"
proof -
  let ?db = "\<lparr>au_rows = [example_link GENESIS_HASH 1 (example_audited ''e1'' ms)], au_next = 2\<rparr>"
  have "example_log [example_audited ''e1'' ms, example_audited ''e2'' ns]
      = (case handle_audited example_audit True None (example_audited ''e2'' ns) ?db of Inl x \<Rightarrow> ?db | Inr db' \<Rightarrow> db')"
    using example_log_snoc [of "[example_audited ''e1'' ms]" "example_audited ''e2'' ns"] unfolding example_one by simp
  also have "\<dots> = \<lparr>au_rows = [example_link GENESIS_HASH 1 (example_audited ''e1'' ms), example_link (last_hash ?db) 2 (example_audited ''e2'' ns)], au_next = 3\<rparr>"
    by (subst example_handled) (simp_all add: example_audited_def example_link_def audit_entry_of_def)
  finally show ?thesis by blast
qed

lemma example_hashed: "au_hash (example_link p n e) \<noteq> None" "au_id (example_link p n e) = ''audit-'' @ de_id e"
  "au_sequence (example_link p n e) = n"
  by (simp_all add: example_link_def audit_entry_of_def)

theorem chain_intact_witness:
  "verify_chain example_audit None (example_log [example_audited ''e1'' [(''a'', JNum 1)], example_audited ''e2'' []]) =
     ok \<lparr>cv_verified = True, cv_row_count = 2, cv_broken_id = None, cv_broken_sequence = None\<rparr>"
  using chain_intact [OF example_log_reached example_audit_ok(1)] example_two [of "[(''a'', JNum 1)]" "[]"]
  by (auto simp: example_hashed)

text \<open>The same event with the members of its payload in another order.\<close>

definition example_members :: "(string \<times> json) list" where
  "example_members = [(''a'', JNum 1), (''b'', JNull)]"

lemma example_verified: "verify_chain example_audit None (example_log es) =
  ok \<lparr>cv_verified = True, cv_row_count = length (hashed_rows (example_log es)), cv_broken_id = None, cv_broken_sequence = None\<rparr>"
  using log_in_order(2) [OF audit_reach_inv [OF example_log_reached example_audit_ok(1)]] verified_iff by blast

lemma example_same_head:
  "last_hash (example_log [example_audited ''e1'' example_members]) = last_hash (example_log [example_audited ''e1'' (rev example_members)])"
proof -
  have "normal (JObj example_members) = normal (JObj (rev example_members))" by code_simp
  then have "canonicalize (audit_hash_input example_audit (audit_entry_of (example_audited ''e1'' example_members) Compliance) p)
      = canonicalize (audit_hash_input example_audit (audit_entry_of (example_audited ''e1'' (rev example_members)) Compliance) p)" for p
    by (simp only: same_text) (simp add: audit_hash_input_def audit_entry_of_def example_audited_def extract_actor_def
        read_actor_id_def example_members_def ACTOR_KEYS_def)
  then show ?thesis by (simp add: example_one last_hash_def sql_select_def example_link_def del: canonicalize.simps)
qed

theorem same_head_same_log_witness:
  "list_all2 same_content (hashed_rows (example_log [example_audited ''e1'' example_members]))
     (hashed_rows (example_log [example_audited ''e1'' (rev example_members)]))
   \<and> au_metadata (hd (hashed_rows (example_log [example_audited ''e1'' example_members])))
     \<noteq> au_metadata (hd (hashed_rows (example_log [example_audited ''e1'' (rev example_members)])))"
proof
  show "list_all2 same_content (hashed_rows (example_log [example_audited ''e1'' example_members]))
     (hashed_rows (example_log [example_audited ''e1'' (rev example_members)]))"
    by (rule same_head_same_log [OF example_audit_ok(2,3) example_verified _ example_verified _ example_same_head])
      (simp_all add: example_one)
  show "au_metadata (hd (hashed_rows (example_log [example_audited ''e1'' example_members])))
     \<noteq> au_metadata (hd (hashed_rows (example_log [example_audited ''e1'' (rev example_members)])))"
    unfolding example_one hashed_rows_def
    by (simp add: example_link_def audit_entry_of_def example_audited_def example_members_def del: canonicalize.simps)
qed

theorem deletion_noticed_witness:
  "\<exists>v. verify_chain example_audit None
      (example_log [example_audited ''e1'' [], example_audited ''e2'' []]
        \<lparr>au_rows := sql_delete (\<lambda>r. au_id r = ''audit-e1'') (au_rows (example_log [example_audited ''e1'' [], example_audited ''e2'' []]))\<rparr>) = ok v
    \<and> \<not> cv_verified v"
proof -
  let ?db = "example_log [example_audited ''e1'' [], example_audited ''e2'' []]"
  obtain p where db: "?db = \<lparr>au_rows = [example_link GENESIS_HASH 1 (example_audited ''e1'' []), example_link p 2 (example_audited ''e2'' [])], au_next = 3\<rparr>"
    using example_two by blast
  have rows: "hashed_rows ?db = [example_link GENESIS_HASH 1 (example_audited ''e1'' []), example_link p 2 (example_audited ''e2'' [])]"
    by (simp add: db hashed_rows_def example_hashed)
  have ids: "au_id (example_link p n (example_audited i ms)) = ''audit-'' @ i" for p n i ms
    by (simp add: example_hashed example_audited_def)
  obtain v where v: "verify_chain example_audit None (?db\<lparr>au_rows := sql_delete (\<lambda>r. au_id r = ''audit-e1'') (au_rows ?db)\<rparr>) = ok v"
    by (simp add: verify_chain_def Let_def)
  have "\<not> (\<exists>n. filter (\<lambda>r. au_id r \<noteq> ''audit-e1'') (hashed_rows ?db) = take n (hashed_rows ?db))"
  proof
    assume "\<exists>n. filter (\<lambda>r. au_id r \<noteq> ''audit-e1'') (hashed_rows ?db) = take n (hashed_rows ?db)"
    then obtain n where n: "map au_id (filter (\<lambda>r. au_id r \<noteq> ''audit-e1'') (hashed_rows ?db)) = map au_id (take n (hashed_rows ?db))" by metis
    then show False by (cases n) (simp_all add: rows ids)
  qed
  then show ?thesis
    using v deletion_noticed [OF example_log_reached example_audit_ok(1,2,3) v] by blast
qed

end
