(* ===== verification/Time_Id_Pages.thy ===== *)
theory Time_Id_Pages
  imports Prelude
begin

text \<open>
  Lists paged by a date and an id: \<open>packages/http/src/time-id-cursor.ts\<close>, the cursors, and what makes
  following them show a list whole. \<open>Audit_Pages\<close> and \<open>Admin_Lists\<close> hold the lists that use them.

  \<open>show_at\<close> is the text of a timestamp column, \<open>read_at\<close> the comparison's reading of a text.
\<close>

section \<open>The cursor\<close>

record time_id_cursor =
  tc_at :: string
  tc_id :: string

definition encode_time_id_cursor :: "string \<Rightarrow> string \<Rightarrow> string" where
  "encode_time_id_cursor at i = at @ CHR ''~'' # i"

text \<open>The pattern \<open>INSTANT\<close>, read from left to right.\<close>

fun digits :: "nat \<Rightarrow> string \<Rightarrow> string option" where
  "digits 0 s = Some s"
| "digits (Suc n) [] = None"
| "digits (Suc n) (c # s) = (if is_digit c then digits n s else None)"

fun one_of :: "string \<Rightarrow> string \<Rightarrow> string option" where
  "one_of cs [] = None"
| "one_of cs (c # s) = (if c \<in> set cs then Some s else None)"

fun fraction :: "string \<Rightarrow> string option" where
  "fraction (c # s) =
     (if c \<noteq> CHR ''.'' then Some (c # s)
      else let n = length (takeWhile is_digit s) in if 1 \<le> n \<and> n \<le> 6 then Some (drop n s) else None)"
| "fraction [] = Some []"

fun zone :: "string \<Rightarrow> bool" where
  "zone [] = True"
| "zone (c # s) =
     (c = CHR ''Z'' \<and> s = []
      \<or> (c = CHR ''+'' \<or> c = CHR ''-'')
        \<and> (digits 2 s = Some [] \<or> digits 4 s = Some [] \<or> Option.bind (Option.bind (digits 2 s) (one_of '':'')) (digits 2) = Some []))"

definition INSTANT :: "string \<Rightarrow> bool" where
  "INSTANT s \<longleftrightarrow>
     (case Option.bind (fold (\<lambda>read rest. Option.bind rest read)
        [digits 4, one_of ''-'', digits 2, one_of ''-'', digits 2, one_of '' T'', digits 2, one_of '':'', digits 2, one_of '':'', digits 2]
        (Some s)) fraction of
       None \<Rightarrow> False | Some rest \<Rightarrow> zone rest)"

definition time_id_cursor_schema :: "string \<Rightarrow> time_id_cursor option" where
  "time_id_cursor_schema raw =
     (let at = takeWhile (\<lambda>c. c \<noteq> CHR ''~'') raw; i = drop (Suc (length at)) raw
      in if CHR ''~'' \<in> set raw \<and> at \<noteq> [] \<and> i \<noteq> [] \<and> INSTANT at then Some \<lparr>tc_at = at, tc_id = i\<rparr> else None)"

text \<open>\<open>afterTimeIdCursor\<close>: the rows listed after the cursor's; \<open>at\<close> is its date as the comparison reads it.\<close>

definition after_time_id_cursor :: "('r \<Rightarrow> instant) \<Rightarrow> ('r \<Rightarrow> ident) \<Rightarrow> instant \<Rightarrow> ident \<Rightarrow> 'r \<Rightarrow> bool" where
  "after_time_id_cursor time_of id_of at i r \<longleftrightarrow> time_of r < at \<or> time_of r = at \<and> id_of r < i"

text \<open>\<open>WHERE p ORDER BY time DESC, id DESC LIMIT n\<close>.\<close>

definition newest :: "('r \<Rightarrow> instant) \<Rightarrow> ('r \<Rightarrow> ident) \<Rightarrow> ('r \<Rightarrow> bool) \<Rightarrow> 'r list \<Rightarrow> 'r list" where
  "newest time_of id_of p t = rev (sort_key (\<lambda>r. (time_of r, id_of r)) (filter p t))"

section \<open>The cursors of the program are those it accepts\<close>

lemma digits_split: "digits n s = Some r \<Longrightarrow> \<exists>d. s = d @ r \<and> list_all is_digit d"
  by (induction n s rule: digits.induct) (auto split: if_splits intro: exI [of _ "_ # _"] simp: Cons_eq_append_conv)

definition plain :: "string \<Rightarrow> bool" where
  "plain s \<longleftrightarrow> CHR ''~'' \<notin> set s"

lemma not_tilde: "\<not> is_digit CHR ''~''"
  by (simp add: is_digit_def less_eq_char_def)

lemma digits_plain: "digits n s = Some r \<Longrightarrow> plain r \<Longrightarrow> plain s"
  using digits_split [of n s r] not_tilde by (auto simp: plain_def list_all_iff)

lemma one_of_plain: "one_of cs s = Some r \<Longrightarrow> CHR ''~'' \<notin> set cs \<Longrightarrow> plain r \<Longrightarrow> plain s"
  by (cases s) (auto simp: plain_def split: if_splits)

lemma fraction_plain: "fraction s = Some r \<Longrightarrow> plain r \<Longrightarrow> plain s"
proof (cases s)
  case (Cons c s')
  assume f: "fraction s = Some r" and r: "plain r"
  show ?thesis
  proof (cases "c = CHR ''.''")
    case True
    let ?n = "length (takeWhile is_digit s')"
    have "r = drop ?n s'" using f Cons True by (auto simp: Let_def split: if_splits)
    then have "s' = takeWhile is_digit s' @ r" by (simp add: dropWhile_eq_drop [symmetric])
    moreover have "CHR ''~'' \<notin> set (takeWhile is_digit s')" using not_tilde set_takeWhileD by metis
    ultimately have "CHR ''~'' \<notin> set s'" using r by (metis Un_iff plain_def set_append)
    then show ?thesis using Cons True by (simp add: plain_def)
  qed (use f r Cons in simp)
qed simp

lemma zone_plain: "zone s \<Longrightarrow> plain s"
proof (cases s)
  case (Cons c s')
  have nil: "plain []" by (simp add: plain_def)
  assume "zone s"
  then consider "c = CHR ''Z''" "s' = []" | "c = CHR ''+'' \<or> c = CHR ''-''" "digits 2 s' = Some [] \<or> digits 4 s' = Some []"
    | r1 r2 where "c = CHR ''+'' \<or> c = CHR ''-''" "digits 2 s' = Some r1" "one_of '':'' r1 = Some r2" "digits 2 r2 = Some []"
    using Cons by (auto simp: bind_eq_Some_conv)
  then have "plain s' \<and> c \<noteq> CHR ''~''"
  proof cases
    case 1
    then show ?thesis by (simp add: plain_def)
  next
    case 2
    then show ?thesis using digits_plain [OF _ nil] by auto
  next
    case (3 r1 r2)
    then show ?thesis using digits_plain [of 2 s' r1] one_of_plain [of "'':''" r1 r2] digits_plain [OF _ nil, of 2 r2] by auto
  qed
  then show ?thesis using Cons by (auto simp: plain_def)
qed (simp add: plain_def)

lemma INSTANT_plain: "INSTANT s \<Longrightarrow> plain s"
  by (auto simp: INSTANT_def bind_eq_Some_conv split: option.splits
      dest!: zone_plain fraction_plain digits_plain one_of_plain)

lemma schema_of_encoded:
  assumes "INSTANT at" and "i \<noteq> []"
  shows "time_id_cursor_schema (encode_time_id_cursor at i) = Some \<lparr>tc_at = at, tc_id = i\<rparr>"
proof -
  have "CHR ''~'' \<notin> set at" using INSTANT_plain [OF assms(1)] by (simp add: plain_def)
  then have "takeWhile (\<lambda>c. c \<noteq> CHR ''~'') (at @ CHR ''~'' # i) = at @ takeWhile (\<lambda>c. c \<noteq> CHR ''~'') (CHR ''~'' # i)"
    by (intro takeWhile_append2) metis
  moreover have "digits 4 [] = None" by (simp add: numeral_eq_Suc)
  then have "at \<noteq> []" using assms(1) by (auto simp: INSTANT_def)
  ultimately show ?thesis using assms by (simp add: time_id_cursor_schema_def Let_def encode_time_id_cursor_def)
qed

text \<open>
  C32: the cursors the schema accepts are exactly the texts the encoder makes of a well-formed instant and
  a non-empty id, and it reads back the two parts.
\<close>
theorem cursor_roundtrip:
  "time_id_cursor_schema raw = Some c \<longleftrightarrow>
   raw = encode_time_id_cursor (tc_at c) (tc_id c) \<and> INSTANT (tc_at c) \<and> tc_id c \<noteq> []"
proof
  assume some: "time_id_cursor_schema raw = Some c"
  let ?at = "takeWhile (\<lambda>c. c \<noteq> CHR ''~'') raw"
  have c: "tc_at c = ?at" "tc_id c = drop (Suc (length ?at)) raw" "CHR ''~'' \<in> set raw" "INSTANT ?at" "tc_id c \<noteq> []"
    using some by (auto simp: time_id_cursor_schema_def Let_def split: if_splits)
  obtain b where "dropWhile (\<lambda>c. c \<noteq> CHR ''~'') raw = CHR ''~'' # b"
    using c(3) hd_dropWhile [of "\<lambda>c. c \<noteq> CHR ''~''" raw] by (cases "dropWhile (\<lambda>c. c \<noteq> CHR ''~'') raw") auto
  then have raw: "raw = ?at @ CHR ''~'' # b" by (metis takeWhile_dropWhile_id)
  then have "drop (length ?at) raw = CHR ''~'' # b" by (metis append_eq_conv_conj)
  then have "b = drop (Suc (length ?at)) raw" by (metis drop_Suc list.sel(3) tl_drop)
  then show "raw = encode_time_id_cursor (tc_at c) (tc_id c) \<and> INSTANT (tc_at c) \<and> tc_id c \<noteq> []"
    using c raw by (simp add: encode_time_id_cursor_def)
next
  assume "raw = encode_time_id_cursor (tc_at c) (tc_id c) \<and> INSTANT (tc_at c) \<and> tc_id c \<noteq> []"
  then show "time_id_cursor_schema raw = Some c" using schema_of_encoded [of "tc_at c" "tc_id c"] by simp
qed

section \<open>Following the cursors\<close>

lemma taken: "take (length (take k xs)) xs = take k xs"
  by (simp add: min_def)

lemma last_take:
  assumes "take k xs \<noteq> []"
  shows "last (take k xs) = xs ! (length (take k xs) - 1)" and "length (take k xs) - 1 < length xs"
proof -
  have "0 < length (take k xs)" using assms by (simp only: length_greater_0_conv not_False_eq_True)
  then have "length (take k xs) - 1 < k \<and> length (take k xs) - 1 < length xs" by (cases xs; cases k) (auto simp: min_def)
  then show "last (take k xs) = xs ! (length (take k xs) - 1)" "length (take k xs) - 1 < length xs"
    using last_conv_nth [OF assms] by (simp_all only: nth_take)
qed

text \<open>What a client does that asks for the next page until there is none: the rows seen, and whether it got there.\<close>

fun follow_pages :: "('c option \<Rightarrow> 'r list \<times> 'c option) \<Rightarrow> nat \<Rightarrow> 'c option \<Rightarrow> 'r list \<times> bool" where
  "follow_pages page 0 c = ([], False)"
| "follow_pages page (Suc fuel) c =
     (case page c of
        (items, None) \<Rightarrow> (items, True)
      | (items, Some c') \<Rightarrow> (case follow_pages page fuel (Some c') of (rest, ended) \<Rightarrow> (items @ rest, ended)))"

text \<open>
  A list of which a page is the next rows after a cursor. \<open>rows\<close> is the whole list a query stands for,
  \<open>cursor_of\<close> the cursor of a row; \<open>sound\<close> says what the rows must satisfy.
\<close>

locale cursor_list =
  fixes rows :: "'q \<Rightarrow> 'r list" and limit :: "'q \<Rightarrow> nat" and cursor_of :: "'q \<Rightarrow> 'r \<Rightarrow> 'c"
    and page :: "'q \<Rightarrow> 'c option \<Rightarrow> 'r list \<times> 'c option" and sound :: "'q \<Rightarrow> bool"
  assumes some_limit: "sound q \<Longrightarrow> 0 < limit q"
    and first_page: "sound q \<Longrightarrow> fst (page q None) = take (limit q) (rows q)"
    and page_after: "sound q \<Longrightarrow> n < length (rows q) \<Longrightarrow>
      fst (page q (Some (cursor_of q (rows q ! n)))) = take (limit q) (drop (Suc n) (rows q))"
    and next_cursor: "sound q \<Longrightarrow> snd (page q c) = Some c' \<Longrightarrow>
      fst (page q c) \<noteq> [] \<and> c' = cursor_of q (last (fst (page q c)))"
    and last_page: "sound q \<Longrightarrow> snd (page q None) = None \<Longrightarrow> length (rows q) \<le> limit q"
    and last_page_after: "sound q \<Longrightarrow> n < length (rows q) \<Longrightarrow> snd (page q (Some (cursor_of q (rows q ! n)))) = None \<Longrightarrow>
      length (rows q) \<le> Suc n + limit q"
begin

lemma from_cursor:
  assumes "sound q" and "n < length (rows q)" and "length (rows q) < Suc n + fuel"
  shows "follow_pages (page q) fuel (Some (cursor_of q (rows q ! n))) = (drop (Suc n) (rows q), True)"
  using assms(2,3)
proof (induction fuel arbitrary: n)
  case (Suc fuel)
  let ?c = "Some (cursor_of q (rows q ! n))"
  obtain items nxt where page: "page q ?c = (items, nxt)" by (cases "page q ?c")
  have items: "items = take (limit q) (drop (Suc n) (rows q))" using page_after [OF assms(1) Suc.prems(1)] page by simp
  show ?case
  proof (cases nxt)
    case None
    then have "length (rows q) \<le> Suc n + limit q" using last_page_after [OF assms(1) Suc.prems(1)] page by simp
    then show ?thesis using page None items by simp
  next
    case (Some c')
    then have c': "items \<noteq> []" "c' = cursor_of q (last items)" using next_cursor [OF assms(1), of ?c c'] page by simp_all
    let ?m = "n + length items"
    have pos: "0 < length items" using c'(1) by simp
    have len: "Suc n + length items \<le> length (rows q)" "length items \<le> limit q" using items pos by auto
    have m: "?m < length (rows q)" using len(1) by simp
    have "last items = drop (Suc n) (rows q) ! (length items - 1)"
      using last_take(1) c'(1) unfolding items by blast
    then have last: "last items = rows q ! ?m" using len(1) pos by (simp add: nth_drop)
    have "length (rows q) < Suc ?m + fuel" using Suc.prems(2) pos by arith
    then have "follow_pages (page q) fuel (Some c') = (drop (Suc ?m) (rows q), True)"
      using Suc.IH [OF m] c'(2) last by simp
    moreover have "items = take (length items) (drop (Suc n) (rows q))" unfolding items taken ..
    then have "items @ drop (length items) (drop (Suc n) (rows q)) = drop (Suc n) (rows q)" by (metis append_take_drop_id)
    then have "items @ drop (Suc ?m) (rows q) = drop (Suc n) (rows q)" by (simp add: add.commute)
    ultimately show ?thesis using page Some by simp
  qed
qed simp

lemma all_shown:
  assumes "sound q" and "length (rows q) < fuel"
  shows "follow_pages (page q) fuel None = (rows q, True)"
proof -
  obtain f where f: "fuel = Suc f" using assms(2) by (cases fuel) simp_all
  obtain items nxt where page: "page q None = (items, nxt)" by (cases "page q None")
  have items: "items = take (limit q) (rows q)" using first_page [OF assms(1)] page by simp
  show ?thesis
  proof (cases nxt)
    case None
    then show ?thesis using last_page [OF assms(1)] page items f by simp
  next
    case (Some c')
    then have c': "items \<noteq> []" "c' = cursor_of q (last items)" using next_cursor [OF assms(1), of None c'] page by simp_all
    let ?m = "length items - 1"
    have m: "?m < length (rows q)" using last_take(2) c'(1) unfolding items by blast
    have len: "Suc ?m = length items" using c'(1) by (cases items) simp_all
    have "last items = rows q ! ?m" using last_take(1) c'(1) unfolding items by blast
    then have "follow_pages (page q) f (Some c') = (drop (length items) (rows q), True)"
      using from_cursor [OF assms(1) m, of f] assms(2) c'(2) len f by simp
    moreover have "items = take (length items) (rows q)" unfolding items taken ..
    then have "items @ drop (length items) (rows q) = rows q" by (metis append_take_drop_id)
    ultimately show ?thesis using page Some f by simp
  qed
qed

end

section \<open>The rows after a row\<close>

lemma newest_set: "set (newest time_of id_of p t) = {r \<in> set t. p r}"
  by (simp add: newest_def)

lemma newest_keyed: "keyed id_of t \<Longrightarrow> distinct (map id_of (newest time_of id_of p t))"
  by (auto simp: newest_def keyed_def rev_map [symmetric] distinct_map intro: inj_on_subset)

lemma newest_falls:
  assumes "keyed id_of t"
  shows "sorted_wrt (\<lambda>r s. (time_of s, id_of s) < (time_of r, id_of r)) (newest time_of id_of p t)"
proof -
  let ?key = "\<lambda>r. (time_of r, id_of r)"
  have "inj_on ?key (set t)" using assms by (auto simp: keyed_def distinct_map inj_on_def)
  then have "distinct (map ?key (sort_key ?key (filter p t)))"
    using keyed_distinct [OF assms] by (simp add: distinct_map inj_on_def)
  then have "sorted_wrt (<) (map ?key (sort_key ?key (filter p t)))"
    by (simp only: strict_sorted_iff sorted_sort_key)
  then show ?thesis by (simp only: newest_def sorted_wrt_map sorted_wrt_rev)
qed

lemma falls_after:
  assumes "sorted_wrt (\<lambda>r s. key s < (key r :: 'k :: linorder)) xs" and "n < length xs"
  shows "filter (\<lambda>r. key r < key (xs ! n)) xs = drop (Suc n) xs"
  using assms
proof (induction xs arbitrary: n)
  case (Cons x xs)
  show ?case
  proof (cases n)
    case 0
    then show ?thesis using Cons.prems by (simp add: filter_id_conv)
  next
    case (Suc m)
    then have "xs ! m \<in> set xs" using Cons.prems(2) by simp
    then have "\<not> key x < key (xs ! m)" using Cons.prems(1) by (simp add: less_imp_not_less)
    then show ?thesis using Cons Suc by simp
  qed
qed simp

lemma newest_filter: "newest time_of id_of (\<lambda>r. p r \<and> q r) t = filter q (newest time_of id_of p t)"
proof -
  have "filter (\<lambda>r. p r \<and> q r) t = filter q (filter p t)" by (simp add: conj_commute)
  then show ?thesis by (simp only: newest_def rev_filter [symmetric] filter_sort)
qed

lemma newest_after:
  fixes t :: "'r list"
  assumes "keyed id_of t" and "n < length (newest time_of id_of p t)"
  defines "r \<equiv> newest time_of id_of p t ! n"
  shows "newest time_of id_of (\<lambda>s. p s \<and> after_time_id_cursor time_of id_of (time_of r) (id_of r) s) t
    = drop (Suc n) (newest time_of id_of p t)"
proof -
  have "after_time_id_cursor time_of id_of (time_of r) (id_of r) = (\<lambda>s. (time_of s, id_of s) < (time_of r, id_of r))"
    by (auto simp: after_time_id_cursor_def less_prod_simp fun_eq_iff)
  then show ?thesis
    using falls_after [OF newest_falls [OF assms(1), of time_of p] assms(2)] by (simp only: newest_filter r_def)
qed

section \<open>Lists ordered by date and id\<close>

text \<open>
  A list whose pages are read by \<open>WHERE listed AND after ORDER BY time DESC, id DESC LIMIT\<close>: \<open>rest q c\<close> is what
  the query with the cursor \<open>c\<close> selects without its limit.
\<close>

locale time_id_list =
  fixes table :: "'q \<Rightarrow> 'r list" and listed :: "'q \<Rightarrow> 'r \<Rightarrow> bool" and time_of :: "'r \<Rightarrow> instant" and id_of :: "'r \<Rightarrow> ident"
    and limit :: "'q \<Rightarrow> nat" and cursor_of :: "'q \<Rightarrow> 'r \<Rightarrow> string"
    and after :: "'q \<Rightarrow> string \<Rightarrow> 'r \<Rightarrow> bool" and page :: "'q \<Rightarrow> string option \<Rightarrow> 'r list \<times> string option" and sound :: "'q \<Rightarrow> bool"
  assumes one_each: "sound q \<Longrightarrow> keyed id_of (table q)"
    and positive: "sound q \<Longrightarrow> 0 < limit q"
    and cursor_read: "sound q \<Longrightarrow> r \<in> set (table q) \<Longrightarrow> after q (cursor_of q r) = after_time_id_cursor time_of id_of (time_of r) (id_of r)"
    and whole_page: "sound q \<Longrightarrow> fst (page q None) = take (limit q) (newest time_of id_of (listed q) (table q))"
    and page_from: "sound q \<Longrightarrow> r \<in> set (table q) \<Longrightarrow> fst (page q (Some (cursor_of q r))) =
      take (limit q) (newest time_of id_of (\<lambda>s. listed q s \<and> after q (cursor_of q r) s) (table q))"
    and next_from: "sound q \<Longrightarrow> snd (page q c) = Some c' \<Longrightarrow> fst (page q c) \<noteq> [] \<and> c' = cursor_of q (last (fst (page q c)))"
    and ends_at: "sound q \<Longrightarrow> snd (page q None) = None \<Longrightarrow> length (newest time_of id_of (listed q) (table q)) \<le> limit q"
    and ends_from: "sound q \<Longrightarrow> r \<in> set (table q) \<Longrightarrow> snd (page q (Some (cursor_of q r))) = None \<Longrightarrow>
      length (newest time_of id_of (\<lambda>s. listed q s \<and> after q (cursor_of q r) s) (table q)) \<le> limit q"
begin

definition rows :: "'q \<Rightarrow> 'r list" where
  "rows q = newest time_of id_of (listed q) (table q)"

lemma row_in_table: "n < length (rows q) \<Longrightarrow> rows q ! n \<in> set (table q)"
  using nth_mem [of n "rows q"] by (simp add: rows_def newest_set)

lemma rest_after:
  assumes "sound q" and "n < length (rows q)"
  shows "newest time_of id_of (\<lambda>s. listed q s \<and> after q (cursor_of q (rows q ! n)) s) (table q) = drop (Suc n) (rows q)"
  using newest_after [OF one_each [OF assms(1)], of n time_of "listed q"] assms(2) cursor_read [OF assms(1) row_in_table [OF assms(2)]]
  by (simp add: rows_def)

end

sublocale time_id_list \<subseteq> paged: cursor_list rows limit cursor_of page sound
proof
  fix q n assume q: "sound q" and n: "n < length (rows q)"
  show "fst (page q (Some (cursor_of q (rows q ! n)))) = take (limit q) (drop (Suc n) (rows q))"
    using page_from [OF q row_in_table [OF n]] rest_after [OF q n] by simp
  assume "snd (page q (Some (cursor_of q (rows q ! n)))) = None"
  then have "length (drop (Suc n) (rows q)) \<le> limit q"
    using ends_from [OF q row_in_table [OF n]] rest_after [OF q n] by simp
  then show "length (rows q) \<le> Suc n + limit q" by simp
qed (use positive whole_page next_from ends_at in \<open>auto simp: rows_def\<close>)

end
