(* ===== verification/Audit_Pages.thy ===== *)
theory Audit_Pages
  imports Audit_Log Time_Id_Pages
begin

text \<open>
  The operators' view of the audit log, page by page: \<open>list\<close> of
  \<open>apps/api/src/shared/services/drizzle-audit.service.ts\<close>.
\<close>

section \<open>A page\<close>

record audit_filters =
  fi_actor :: "string option"
  fi_organization :: "string option option"
  fi_target_type :: "string option"
  fi_target :: "string option"
  fi_action_prefix :: "string option"
  fi_from :: "instant option"
  fi_to :: "instant option"
  fi_limit :: "nat option"
  fi_cursor :: "string option"

definition DEFAULT_AUDIT_LIMIT :: nat where "DEFAULT_AUDIT_LIMIT = 50"
definition MAX_AUDIT_LIMIT :: nat where "MAX_AUDIT_LIMIT = 500"

text \<open>\<open>if (s)\<close>: an empty text filters nothing.\<close>

definition when_given :: "string option \<Rightarrow> (string \<Rightarrow> bool) \<Rightarrow> bool" where
  "when_given s p \<longleftrightarrow> (case s of None \<Rightarrow> True | Some t \<Rightarrow> t = [] \<or> p t)"

definition audit_listed :: "audit_filters \<Rightarrow> audit_row \<Rightarrow> bool" where
  "audit_listed f r \<longleftrightarrow>
     when_given (fi_actor f) (\<lambda>t. au_actor r = Some t)
   \<and> (case fi_organization f of None \<Rightarrow> True | Some None \<Rightarrow> au_organization r = None | Some (Some i) \<Rightarrow> au_organization r = Some i)
   \<and> when_given (fi_target_type f) (\<lambda>t. au_target_type r = t)
   \<and> when_given (fi_target f) (\<lambda>t. au_target r = t)
   \<and> when_given (fi_action_prefix f) (\<lambda>t. sql_like (t @ ''%'') (au_action r))
   \<and> (case fi_from f of None \<Rightarrow> True | Some t \<Rightarrow> t \<le> au_at r)
   \<and> (case fi_to f of None \<Rightarrow> True | Some t \<Rightarrow> au_at r \<le> t)"

definition audit_limit :: "audit_filters \<Rightarrow> nat" where
  "audit_limit f = min (case fi_limit f of None \<Rightarrow> DEFAULT_AUDIT_LIMIT | Some n \<Rightarrow> n) MAX_AUDIT_LIMIT"

text \<open>
  A cursor the schema refuses is ignored; one whose date the database cannot read (\<open>read_at\<close>) makes the
  query fail, as does \<open>err\<close>.
\<close>

definition audit_after :: "(string \<Rightarrow> instant option) \<Rightarrow> string option \<Rightarrow> audit_row \<Rightarrow> bool option" where
  "audit_after read_at c r =
     (case Option.bind c time_id_cursor_schema of
        None \<Rightarrow> Some True
      | Some cur \<Rightarrow> map_option (\<lambda>t. after_time_id_cursor au_at au_id t (tc_id cur) r) (read_at (tc_at cur)))"

definition list_audit ::
  "string option \<Rightarrow> (instant \<Rightarrow> string) \<Rightarrow> (string \<Rightarrow> instant option) \<Rightarrow> audit_filters \<Rightarrow> audit_db \<Rightarrow>
   (audit_row list \<times> string option, string) result" where
  "list_audit err show_at read_at f db =
     (if err \<noteq> None \<or> (case Option.bind (fi_cursor f) time_id_cursor_schema of None \<Rightarrow> False | Some cur \<Rightarrow> read_at (tc_at cur) = None)
      then fail ''AUDIT_PERSISTENCE_PROVIDER_FAILURE''
      else let limit = audit_limit f;
               rows = take (Suc limit) (newest au_at au_id (\<lambda>r. audit_listed f r \<and> audit_after read_at (fi_cursor f) r = Some True) (au_rows db));
               page = take limit rows
           in ok (page,
                if limit < length rows \<and> page \<noteq> []
                then Some (encode_time_id_cursor (show_at (au_at (last page))) (au_id (last page))) else None))"

section \<open>The whole list\<close>

record audit_query =
  qy_show :: "instant \<Rightarrow> string"
  qy_read :: "string \<Rightarrow> instant option"
  qy_filters :: audit_filters
  qy_db :: audit_db

definition audit_page :: "audit_query \<Rightarrow> string option \<Rightarrow> audit_row list \<times> string option" where
  "audit_page q c =
     (case list_audit None (qy_show q) (qy_read q) ((qy_filters q)\<lparr>fi_cursor := c\<rparr>) (qy_db q) of
        Inl e \<Rightarrow> ([], None) | Inr p \<Rightarrow> p)"

text \<open>The dates of the rows print as instants and are read back as they were; a client asks for some rows.\<close>

definition audit_sound :: "audit_query \<Rightarrow> bool" where
  "audit_sound q \<longleftrightarrow>
     keyed au_id (au_rows (qy_db q)) \<and> fi_limit (qy_filters q) \<noteq> Some 0
   \<and> (\<forall>r \<in> set (au_rows (qy_db q)). au_id r \<noteq> [] \<and> INSTANT (qy_show q (au_at r)) \<and> qy_read q (qy_show q (au_at r)) = Some (au_at r))"

definition audit_cursor :: "audit_query \<Rightarrow> audit_row \<Rightarrow> string" where
  "audit_cursor q r = encode_time_id_cursor (qy_show q (au_at r)) (au_id r)"

lemma cursor_changes_no_filter [simp]:
  "audit_listed (f\<lparr>fi_cursor := c\<rparr>) = audit_listed f" "audit_limit (f\<lparr>fi_cursor := c\<rparr>) = audit_limit f"
  "fi_cursor (f\<lparr>fi_cursor := c\<rparr>) = c"
  by (simp_all add: audit_listed_def audit_limit_def fun_eq_iff)

text \<open>One row more than the page is read to tell whether there is a next one.\<close>

lemma looks_ahead: "take n (take (Suc n) xs) = take n xs" "n < length (take (Suc n) xs) \<longleftrightarrow> n < length xs"
  by (auto simp: min_def)

definition audit_rest :: "audit_query \<Rightarrow> string option \<Rightarrow> audit_row list" where
  "audit_rest q c = newest au_at au_id (\<lambda>r. audit_listed (qy_filters q) r \<and> audit_after (qy_read q) c r = Some True) (au_rows (qy_db q))"

lemma audit_page_eq:
  assumes "case Option.bind c time_id_cursor_schema of None \<Rightarrow> True | Some cur \<Rightarrow> qy_read q (tc_at cur) \<noteq> None"
  shows "audit_page q c =
    (let page = take (audit_limit (qy_filters q)) (audit_rest q c)
     in (page, if audit_limit (qy_filters q) < length (audit_rest q c) \<and> page \<noteq> [] then Some (audit_cursor q (last page)) else None))"
proof -
  have readable: "\<not> (case Option.bind c time_id_cursor_schema of None \<Rightarrow> False | Some cur \<Rightarrow> qy_read q (tc_at cur) = None)"
    using assms by (simp split: option.splits)
  have "list_audit None (qy_show q) (qy_read q) ((qy_filters q)\<lparr>fi_cursor := c\<rparr>) (qy_db q) =
    Inr (let page = take (audit_limit (qy_filters q)) (audit_rest q c)
     in (page, if audit_limit (qy_filters q) < length (audit_rest q c) \<and> page \<noteq> [] then Some (audit_cursor q (last page)) else None))"
    using readable by (simp only: list_audit_def audit_rest_def cursor_changes_no_filter looks_ahead Let_def audit_cursor_def
        audit_filters.simps simp_thms if_False not_False_eq_True)
  then show ?thesis by (simp only: audit_page_def sum.case)
qed

lemma read_cursor:
  assumes "audit_sound q" and "r \<in> set (au_rows (qy_db q))"
  shows "time_id_cursor_schema (audit_cursor q r) = Some \<lparr>tc_at = qy_show q (au_at r), tc_id = au_id r\<rparr>"
    and "qy_read q (qy_show q (au_at r)) = Some (au_at r)"
  using assms schema_of_encoded by (auto simp: audit_sound_def audit_cursor_def)

lemma audit_limit_pos: "audit_sound q \<Longrightarrow> 0 < audit_limit (qy_filters q)"
  by (auto simp: audit_sound_def audit_limit_def DEFAULT_AUDIT_LIMIT_def MAX_AUDIT_LIMIT_def split: option.splits)

interpretation audit_pages: time_id_list "\<lambda>q. au_rows (qy_db q)" "\<lambda>q. audit_listed (qy_filters q)" au_at au_id
  "\<lambda>q. audit_limit (qy_filters q)" audit_cursor "\<lambda>q c r. audit_after (qy_read q) (Some c) r = Some True" audit_page audit_sound
proof
  fix q r assume q: "audit_sound q" and r: "r \<in> set (au_rows (qy_db q))"
  note cur = read_cursor [OF q r]
  show "(\<lambda>s. audit_after (qy_read q) (Some (audit_cursor q r)) s = Some True) = after_time_id_cursor au_at au_id (au_at r) (au_id r)"
    by (simp add: audit_after_def cur fun_eq_iff)
  have page: "audit_page q (Some (audit_cursor q r)) =
    (let page = take (audit_limit (qy_filters q)) (audit_rest q (Some (audit_cursor q r)))
     in (page, if audit_limit (qy_filters q) < length (audit_rest q (Some (audit_cursor q r))) \<and> page \<noteq> [] then Some (audit_cursor q (last page)) else None))"
    by (rule audit_page_eq) (simp add: cur)
  show "fst (audit_page q (Some (audit_cursor q r))) = take (audit_limit (qy_filters q))
      (newest au_at au_id (\<lambda>s. audit_listed (qy_filters q) s \<and> audit_after (qy_read q) (Some (audit_cursor q r)) s = Some True) (au_rows (qy_db q)))"
    unfolding page Let_def audit_rest_def by simp
  assume "snd (audit_page q (Some (audit_cursor q r))) = None"
  then show "length (newest au_at au_id (\<lambda>s. audit_listed (qy_filters q) s \<and> audit_after (qy_read q) (Some (audit_cursor q r)) s = Some True) (au_rows (qy_db q)))
      \<le> audit_limit (qy_filters q)"
    using audit_limit_pos [OF q] unfolding page Let_def audit_rest_def by (auto split: if_splits)
next
  fix q c c' assume q: "audit_sound q" and nxt: "snd (audit_page q c) = Some c'"
  have "case Option.bind c time_id_cursor_schema of None \<Rightarrow> True | Some cur \<Rightarrow> qy_read q (tc_at cur) \<noteq> None"
    using nxt by (auto simp: audit_page_def list_audit_def split: option.splits if_splits)
  from audit_page_eq [OF this] nxt show "fst (audit_page q c) \<noteq> [] \<and> c' = audit_cursor q (last (fst (audit_page q c)))"
    by (simp add: Let_def split: if_splits)
next
  fix q assume q: "audit_sound q"
  show "0 < audit_limit (qy_filters q)" by (rule audit_limit_pos [OF q])
  have page: "audit_page q None =
    (let page = take (audit_limit (qy_filters q)) (audit_rest q None)
     in (page, if audit_limit (qy_filters q) < length (audit_rest q None) \<and> page \<noteq> [] then Some (audit_cursor q (last page)) else None))"
    by (rule audit_page_eq) simp
  have rest: "audit_rest q None = newest au_at au_id (audit_listed (qy_filters q)) (au_rows (qy_db q))"
    by (simp add: audit_rest_def audit_after_def)
  show "fst (audit_page q None) = take (audit_limit (qy_filters q)) (newest au_at au_id (audit_listed (qy_filters q)) (au_rows (qy_db q)))"
    by (simp add: page rest Let_def)
  assume "snd (audit_page q None) = None"
  then show "length (newest au_at au_id (audit_listed (qy_filters q)) (au_rows (qy_db q))) \<le> audit_limit (qy_filters q)"
    using \<open>0 < audit_limit (qy_filters q)\<close> by (auto simp: page rest Let_def split: if_splits)
qed (simp add: audit_sound_def)

text \<open>
  Following the cursors of the audit list ends, and shows every row the filters select exactly once,
  the newest first.
\<close>
theorem audit_shown_whole:
  assumes "audit_sound q" and "length (au_rows (qy_db q)) < fuel"
  shows "follow_pages (audit_page q) fuel None = (newest au_at au_id (audit_listed (qy_filters q)) (au_rows (qy_db q)), True)
    \<and> distinct (map au_id (newest au_at au_id (audit_listed (qy_filters q)) (au_rows (qy_db q))))
    \<and> set (newest au_at au_id (audit_listed (qy_filters q)) (au_rows (qy_db q))) = {r \<in> set (au_rows (qy_db q)). audit_listed (qy_filters q) r}"
proof -
  have "length (newest au_at au_id (audit_listed (qy_filters q)) (au_rows (qy_db q))) \<le> length (au_rows (qy_db q))"
    by (simp add: newest_def)
  then have "follow_pages (audit_page q) fuel None = (newest au_at au_id (audit_listed (qy_filters q)) (au_rows (qy_db q)), True)"
    using audit_pages.paged.all_shown [OF assms(1), of fuel] assms(2) by (simp add: audit_pages.rows_def)
  then show ?thesis using assms(1) newest_keyed by (auto simp: newest_set audit_sound_def)
qed

text \<open>Three rows, two of them of the same date, two to a page.\<close>

definition example_audited_row :: "ident \<Rightarrow> instant \<Rightarrow> audit_row" where
  "example_audited_row i t = \<lparr>au_id = i, au_sequence = 0, au_actor = None, au_actor_type = SystemActor, au_organization = None,
     au_action = ''user.created'', au_target_type = ''User'', au_target = ''u'', au_metadata = JNull, au_request = None,
     au_retention = Compliance, au_prev = None, au_hash = None, au_at = t\<rparr>"

definition example_audit_query :: audit_query where
  "example_audit_query =
     \<lparr>qy_show = (\<lambda>t. if t = 1 then ''2026-07-01 10:00:00.25'' else ''2026-07-01 10:00:01''),
      qy_read = (\<lambda>s. if s = ''2026-07-01 10:00:00.25'' then Some 1 else Some 2),
      qy_filters = \<lparr>fi_actor = None, fi_organization = Some None, fi_target_type = None, fi_target = Some [],
        fi_action_prefix = Some ''user.'', fi_from = None, fi_to = Some 5, fi_limit = Some 2, fi_cursor = None\<rparr>,
      qy_db = \<lparr>au_rows = [example_audited_row ''a'' 1, example_audited_row ''b'' 1, example_audited_row ''c'' 2], au_next = 4\<rparr>\<rparr>"

lemma example_audit_sound: "audit_sound example_audit_query"
  by code_simp

theorem audit_shown_whole_witness:
  "(case follow_pages (audit_page example_audit_query) 4 None of (rows, ended) \<Rightarrow> (map au_id rows, ended)) = ([''c'', ''b'', ''a''], True)"
proof -
  have "map au_id (newest au_at au_id (audit_listed (qy_filters example_audit_query)) (au_rows (qy_db example_audit_query))) = [''c'', ''b'', ''a'']"
    by code_simp
  then show ?thesis
    using audit_shown_whole [OF example_audit_sound, of 4] by (simp add: example_audit_query_def)
qed

end
