(* ===== verification/Admin_Lists.thy ===== *)
theory Admin_Lists
  imports Time_Id_Pages Staff_Store Approval_Store
begin

text \<open>
  The lists of the back office: users and organizations
  (\<open>modules/admin/infrastructure/repositories/drizzle-admin-user.store.ts\<close>, \<open>drizzle-admin-org.store.ts\<close> and
  \<open>modules/admin/application/services/admin-query.service.ts\<close>) and approval requests (\<open>list\<close> of
  \<open>drizzle-approval.store.ts\<close> and of \<open>approval.service.ts\<close>). Each hands out a cursor with every full page.
\<close>

section \<open>Users\<close>

record directory_user = user_row +
  du_email :: string
  du_name :: string
  du_two_factor :: "bool option"
  du_created :: instant

record membership_row =
  mb_id :: ident
  mb_user :: ident
  mb_org :: ident
  mb_role :: string

record admin_user_row =
  vu_id :: ident
  vu_email :: string
  vu_name :: string
  vu_banned :: bool
  vu_ban_reason :: "string option"
  vu_ban_expires :: "instant option"
  vu_two_factor :: bool
  vu_created :: instant

text \<open>A ban that is over shows as none.\<close>

definition to_user_row :: "instant \<Rightarrow> directory_user \<Rightarrow> admin_user_row" where
  "to_user_row now u =
     (let over = (case us_ban_expires u of None \<Rightarrow> False | Some t \<Rightarrow> t \<le> now); banned = us_banned u \<and> \<not> over
      in \<lparr>vu_id = us_id u, vu_email = du_email u, vu_name = du_name u, vu_banned = banned,
          vu_ban_reason = (if banned then us_ban_reason u else None),
          vu_ban_expires = (if banned then us_ban_expires u else None),
          vu_two_factor = (du_two_factor u = Some True), vu_created = du_created u\<rparr>)"

text \<open>\<open>liveBanIs\<close>; a comparison with a missing date is not satisfied.\<close>

definition live_ban_is :: "instant \<Rightarrow> bool \<Rightarrow> directory_user \<Rightarrow> bool" where
  "live_ban_is now banned u =
     (if banned then us_banned u \<and> (us_ban_expires u = None \<or> (case us_ban_expires u of None \<Rightarrow> False | Some t \<Rightarrow> now < t))
      else \<not> us_banned u \<or> (case us_ban_expires u of None \<Rightarrow> False | Some t \<Rightarrow> t \<le> now))"

text \<open>\<open>ILIKE '%...%'\<close>; \<open>lower\<close> folds the case as the database's locale does.\<close>

definition sql_contains :: "(string \<Rightarrow> string) \<Rightarrow> string \<Rightarrow> string \<Rightarrow> bool" where
  "sql_contains lower search s = sql_like (lower (CHR ''%'' # search @ [CHR ''%''])) (lower s)"

record list_users_input =
  lu_search :: "string option"
  lu_banned :: "bool option"
  lu_organization :: "ident option"
  lu_cursor :: "time_id_cursor option"
  lu_limit :: nat

definition user_listed :: "(string \<Rightarrow> string) \<Rightarrow> instant \<Rightarrow> membership_row list \<Rightarrow> list_users_input \<Rightarrow> directory_user \<Rightarrow> bool" where
  "user_listed lower now members input u \<longleftrightarrow>
     (case lu_search input of None \<Rightarrow> True | Some s \<Rightarrow> s = [] \<or> sql_contains lower s (du_email u) \<or> sql_contains lower s (du_name u))
   \<and> (case lu_banned input of None \<Rightarrow> True | Some b \<Rightarrow> live_ban_is now b u)
   \<and> (case lu_organization input of None \<Rightarrow> True | Some i \<Rightarrow> i = [] \<or> list_ex (\<lambda>m. mb_org m = i \<and> mb_user m = us_id u) members)"

text \<open>What a cursor selects; \<open>None\<close> is a date the database refuses.\<close>

definition after_cursor ::
  "(string \<Rightarrow> instant option) \<Rightarrow> ('r \<Rightarrow> instant) \<Rightarrow> ('r \<Rightarrow> ident) \<Rightarrow> time_id_cursor option \<Rightarrow> ('r \<Rightarrow> bool) option" where
  "after_cursor read_at time_of id_of c = (case c of
     None \<Rightarrow> Some (\<lambda>_. True)
   | Some cur \<Rightarrow> map_option (\<lambda>t. after_time_id_cursor time_of id_of t (tc_id cur)) (read_at (tc_at cur)))"

definition list_users ::
  "string option \<Rightarrow> (string \<Rightarrow> instant option) \<Rightarrow> (string \<Rightarrow> string) \<Rightarrow> instant \<Rightarrow> membership_row list \<Rightarrow> list_users_input \<Rightarrow>
   directory_user list \<Rightarrow> (directory_user list, string) result" where
  "list_users err read_at lower now members input t =
     (case (err, after_cursor read_at du_created us_id (lu_cursor input)) of
        (None, Some after) \<Rightarrow> ok (take (lu_limit input) (newest du_created us_id (\<lambda>u. user_listed lower now members input u \<and> after u) t))
      | _ \<Rightarrow> fail ''ADMIN_QUERY_PROVIDER_FAILURE'')"

section \<open>Organizations\<close>

record organization_row =
  og_id :: ident
  og_name :: string
  og_slug :: string
  og_created :: instant
  og_sso :: bool

record list_orgs_input =
  lo_search :: "string option"
  lo_cursor :: "time_id_cursor option"
  lo_limit :: nat

definition org_listed :: "(string \<Rightarrow> string) \<Rightarrow> list_orgs_input \<Rightarrow> organization_row \<Rightarrow> bool" where
  "org_listed lower input o' \<longleftrightarrow>
     (case lo_search input of None \<Rightarrow> True | Some s \<Rightarrow> s = [] \<or> sql_contains lower s (og_name o') \<or> sql_contains lower s (og_slug o'))"

text \<open>The left join, grouped by organization, counts its members.\<close>

definition member_count :: "membership_row list \<Rightarrow> organization_row \<Rightarrow> nat" where
  "member_count members o' = length (filter (\<lambda>m. mb_org m = og_id o') members)"

definition list_orgs ::
  "string option \<Rightarrow> (string \<Rightarrow> instant option) \<Rightarrow> (string \<Rightarrow> string) \<Rightarrow> membership_row list \<Rightarrow> list_orgs_input \<Rightarrow>
   organization_row list \<Rightarrow> ((organization_row \<times> nat) list, string) result" where
  "list_orgs err read_at lower members input t =
     (case (err, after_cursor read_at og_created og_id (lo_cursor input)) of
        (None, Some after) \<Rightarrow>
          ok (map (\<lambda>o'. (o', member_count members o'))
            (take (lo_limit input) (newest og_created og_id (\<lambda>o'. org_listed lower input o' \<and> after o') t)))
      | _ \<Rightarrow> fail ''ADMIN_QUERY_PROVIDER_FAILURE'')"

section \<open>Approval requests\<close>

record list_approvals_input =
  lp_status :: "approval_status option"
  lp_cursor :: "time_id_cursor option"
  lp_limit :: nat

definition list_approvals ::
  "string option \<Rightarrow> (string \<Rightarrow> instant option) \<Rightarrow> list_approvals_input \<Rightarrow> approval_row list \<Rightarrow> (approval_row list, string) result" where
  "list_approvals err read_at input t =
     (case (err, after_cursor read_at ap_created ap_id (lp_cursor input)) of
        (None, Some after) \<Rightarrow>
          ok (take (lp_limit input) (newest ap_created ap_id
            (\<lambda>r. (case lp_status input of None \<Rightarrow> True | Some st \<Rightarrow> ap_status r = st) \<and> after r) t))
      | _ \<Rightarrow> fail ''approval list failed'')"

section \<open>Pages\<close>

text \<open>\<open>toPage\<close>: a full page hands out the cursor of its last row.\<close>

definition to_page :: "('r \<Rightarrow> string) \<Rightarrow> nat \<Rightarrow> 'r list \<Rightarrow> 'r list \<times> string option" where
  "to_page cursor_of limit items = (items, if length items = limit \<and> items \<noteq> [] then Some (cursor_of (last items)) else None)"

definition cursor_at :: "(instant \<Rightarrow> string) \<Rightarrow> instant \<Rightarrow> ident \<Rightarrow> string" where
  "cursor_at show_at t i = encode_time_id_cursor (show_at t) i"

definition list_users_page ::
  "string option \<Rightarrow> (instant \<Rightarrow> string) \<Rightarrow> (string \<Rightarrow> instant option) \<Rightarrow> (string \<Rightarrow> string) \<Rightarrow> instant \<Rightarrow> membership_row list \<Rightarrow>
   list_users_input \<Rightarrow> directory_user list \<Rightarrow> (admin_user_row list \<times> string option, string) result" where
  "list_users_page err show_at read_at lower now members input t =
     (case list_users err read_at lower now members input t of
        Inl e \<Rightarrow> fail e
      | Inr rows \<Rightarrow>
          ok (apfst (map (to_user_row now)) (to_page (\<lambda>u. cursor_at show_at (du_created u) (us_id u)) (lu_limit input) rows)))"

definition list_orgs_page ::
  "string option \<Rightarrow> (instant \<Rightarrow> string) \<Rightarrow> (string \<Rightarrow> instant option) \<Rightarrow> (string \<Rightarrow> string) \<Rightarrow> membership_row list \<Rightarrow> list_orgs_input \<Rightarrow>
   organization_row list \<Rightarrow> ((organization_row \<times> nat) list \<times> string option, string) result" where
  "list_orgs_page err show_at read_at lower members input t =
     (case list_orgs err read_at lower members input t of
        Inl e \<Rightarrow> fail e
      | Inr rows \<Rightarrow> ok (to_page (\<lambda>(o', n). cursor_at show_at (og_created o') (og_id o')) (lo_limit input) rows))"

text \<open>The approval service builds its cursor from the date itself, of which the column keeps milliseconds.\<close>

definition list_approvals_page ::
  "string option \<Rightarrow> (instant \<Rightarrow> string) \<Rightarrow> (string \<Rightarrow> instant option) \<Rightarrow> list_approvals_input \<Rightarrow> approval_row list \<Rightarrow>
   (approval_row list \<times> string option, string) result" where
  "list_approvals_page err show_at read_at input t =
     (case list_approvals err read_at input t of
        Inl e \<Rightarrow> fail e
      | Inr rows \<Rightarrow> ok (to_page (\<lambda>r. cursor_at show_at (ap_created r) (ap_id r)) (lp_limit input) rows))"

section \<open>One page after another\<close>

text \<open>What the three lists share: a table, which rows a request lists, and how their dates read.\<close>

record 'r page_query =
  pq_table :: "'r list"
  pq_listed :: "'r \<Rightarrow> bool"
  pq_limit :: nat
  pq_show :: "instant \<Rightarrow> string"
  pq_read :: "string \<Rightarrow> instant option"

definition full_page ::
  "('r \<Rightarrow> instant) \<Rightarrow> ('r \<Rightarrow> ident) \<Rightarrow> 'r page_query \<Rightarrow> string option \<Rightarrow> 'r list \<times> string option" where
  "full_page time_of id_of q c =
     (case after_cursor (pq_read q) time_of id_of (Option.bind c time_id_cursor_schema) of
        None \<Rightarrow> ([], None)
      | Some after \<Rightarrow>
          to_page (\<lambda>r. cursor_at (pq_show q) (time_of r) (id_of r)) (pq_limit q)
            (take (pq_limit q) (newest time_of id_of (\<lambda>r. pq_listed q r \<and> after r) (pq_table q))))"

definition page_sound :: "('r \<Rightarrow> instant) \<Rightarrow> ('r \<Rightarrow> ident) \<Rightarrow> 'r page_query \<Rightarrow> bool" where
  "page_sound time_of id_of q \<longleftrightarrow>
     keyed id_of (pq_table q) \<and> 0 < pq_limit q
   \<and> (\<forall>r \<in> set (pq_table q). id_of r \<noteq> [] \<and> INSTANT (pq_show q (time_of r)) \<and> pq_read q (pq_show q (time_of r)) = Some (time_of r))"

lemma full_page_after:
  assumes "page_sound time_of id_of q" and "r \<in> set (pq_table q)"
  shows "after_cursor (pq_read q) time_of id_of (Option.bind (Some (cursor_at (pq_show q) (time_of r) (id_of r))) time_id_cursor_schema)
    = Some (after_time_id_cursor time_of id_of (time_of r) (id_of r))"
  using assms schema_of_encoded by (simp add: page_sound_def cursor_at_def after_cursor_def)

text \<open>A page that is not full is the last.\<close>

lemma to_page_ends: "0 < n \<Longrightarrow> snd (to_page f n (take n xs)) = None \<Longrightarrow> length xs \<le> n"
  by (auto simp: to_page_def min_def split: if_splits)

lemma full_page_list:
  "time_id_list pq_table pq_listed time_of id_of pq_limit (\<lambda>q r. cursor_at (pq_show q) (time_of r) (id_of r))
     (\<lambda>q c. case after_cursor (pq_read q) time_of id_of (time_id_cursor_schema c) of None \<Rightarrow> (\<lambda>_. False) | Some after \<Rightarrow> after)
     (full_page time_of id_of) (page_sound time_of id_of)"
proof
  fix q r assume q: "page_sound time_of id_of q" and r: "r \<in> set (pq_table q)"
  note after = full_page_after [OF q r]
  show "(case after_cursor (pq_read q) time_of id_of (time_id_cursor_schema (cursor_at (pq_show q) (time_of r) (id_of r))) of
      None \<Rightarrow> (\<lambda>_. False) | Some after \<Rightarrow> after) = after_time_id_cursor time_of id_of (time_of r) (id_of r)"
    using after by simp
  let ?rest = "newest time_of id_of (\<lambda>s. pq_listed q s \<and> (case after_cursor (pq_read q) time_of id_of (time_id_cursor_schema (cursor_at (pq_show q) (time_of r) (id_of r))) of
      None \<Rightarrow> (\<lambda>_. False) | Some after \<Rightarrow> after) s) (pq_table q)"
  have page: "full_page time_of id_of q (Some (cursor_at (pq_show q) (time_of r) (id_of r)))
      = to_page (\<lambda>r. cursor_at (pq_show q) (time_of r) (id_of r)) (pq_limit q) (take (pq_limit q) ?rest)"
    unfolding full_page_def after using after by simp
  show "fst (full_page time_of id_of q (Some (cursor_at (pq_show q) (time_of r) (id_of r)))) = take (pq_limit q) ?rest"
    unfolding page by (simp add: to_page_def)
  assume "snd (full_page time_of id_of q (Some (cursor_at (pq_show q) (time_of r) (id_of r)))) = None"
  then show "length ?rest \<le> pq_limit q" unfolding page using q by (intro to_page_ends) (simp_all add: page_sound_def)
next
  fix q :: "'a page_query" and c c'
  assume "snd (full_page time_of id_of q c) = Some c'"
  then show "fst (full_page time_of id_of q c) \<noteq> [] \<and> c' = cursor_at (pq_show q) (time_of (last (fst (full_page time_of id_of q c)))) (id_of (last (fst (full_page time_of id_of q c))))"
    by (auto simp: full_page_def to_page_def split: option.splits if_splits)
next
  fix q :: "'a page_query" assume q: "page_sound time_of id_of q"
  have page: "full_page time_of id_of q None = to_page (\<lambda>r. cursor_at (pq_show q) (time_of r) (id_of r)) (pq_limit q)
      (take (pq_limit q) (newest time_of id_of (pq_listed q) (pq_table q)))"
    by (simp add: full_page_def after_cursor_def)
  show "fst (full_page time_of id_of q None) = take (pq_limit q) (newest time_of id_of (pq_listed q) (pq_table q))"
    unfolding page by (simp add: to_page_def)
  assume "snd (full_page time_of id_of q None) = None"
  then show "length (newest time_of id_of (pq_listed q) (pq_table q)) \<le> pq_limit q"
    unfolding page using q by (intro to_page_ends) (simp_all add: page_sound_def)
qed (simp_all add: page_sound_def)

interpretation user_pages: time_id_list pq_table pq_listed du_created us_id pq_limit "\<lambda>q r. cursor_at (pq_show q) (du_created r) (us_id r)"
  "\<lambda>q c. case after_cursor (pq_read q) du_created us_id (time_id_cursor_schema c) of None \<Rightarrow> (\<lambda>_. False) | Some after \<Rightarrow> after"
  "full_page du_created us_id" "page_sound du_created us_id"
  by (rule full_page_list)

interpretation org_pages: time_id_list pq_table pq_listed og_created og_id pq_limit "\<lambda>q r. cursor_at (pq_show q) (og_created r) (og_id r)"
  "\<lambda>q c. case after_cursor (pq_read q) og_created og_id (time_id_cursor_schema c) of None \<Rightarrow> (\<lambda>_. False) | Some after \<Rightarrow> after"
  "full_page og_created og_id" "page_sound og_created og_id"
  by (rule full_page_list)

interpretation approval_pages: time_id_list pq_table pq_listed ap_created ap_id pq_limit "\<lambda>q r. cursor_at (pq_show q) (ap_created r) (ap_id r)"
  "\<lambda>q c. case after_cursor (pq_read q) ap_created ap_id (time_id_cursor_schema c) of None \<Rightarrow> (\<lambda>_. False) | Some after \<Rightarrow> after"
  "full_page ap_created ap_id" "page_sound ap_created ap_id"
  by (rule full_page_list)

section \<open>The lists of the services\<close>

text \<open>What a client gets for a cursor it was handed.\<close>

definition users_at ::
  "(string \<Rightarrow> string) \<Rightarrow> instant \<Rightarrow> membership_row list \<Rightarrow> list_users_input \<Rightarrow> directory_user page_query \<Rightarrow> string option \<Rightarrow>
   admin_user_row list \<times> string option" where
  "users_at lower now members input q c =
     (case list_users_page None (pq_show q) (pq_read q) lower now members (input\<lparr>lu_cursor := Option.bind c time_id_cursor_schema\<rparr>) (pq_table q) of
        Inl e \<Rightarrow> ([], None) | Inr p \<Rightarrow> p)"

definition orgs_at ::
  "(string \<Rightarrow> string) \<Rightarrow> membership_row list \<Rightarrow> list_orgs_input \<Rightarrow> organization_row page_query \<Rightarrow> string option \<Rightarrow>
   (organization_row \<times> nat) list \<times> string option" where
  "orgs_at lower members input q c =
     (case list_orgs_page None (pq_show q) (pq_read q) lower members (input\<lparr>lo_cursor := Option.bind c time_id_cursor_schema\<rparr>) (pq_table q) of
        Inl e \<Rightarrow> ([], None) | Inr p \<Rightarrow> p)"

definition approvals_at :: "list_approvals_input \<Rightarrow> approval_row page_query \<Rightarrow> string option \<Rightarrow> approval_row list \<times> string option" where
  "approvals_at input q c =
     (case list_approvals_page None (pq_show q) (pq_read q) (input\<lparr>lp_cursor := Option.bind c time_id_cursor_schema\<rparr>) (pq_table q) of
        Inl e \<Rightarrow> ([], None) | Inr p \<Rightarrow> p)"

lemma follow_mapped:
  assumes "\<And>c. page' c = apfst (map f) (page c)"
  shows "follow_pages page' fuel c = apfst (map f) (follow_pages page fuel c)"
proof (induction fuel arbitrary: c)
  case (Suc fuel)
  then show ?case using assms [of c] by (cases "page c") (auto split: option.splits prod.splits)
qed simp

lemma to_page_mapped: "(\<And>x. g (f x) = h x) \<Longrightarrow> to_page g n (map f xs) = apfst (map f) (to_page h n xs)"
  by (auto simp: to_page_def last_map)

lemma users_at_page:
  assumes "pq_listed q = user_listed lower now members input" and "pq_limit q = lu_limit input"
  shows "users_at lower now members input q c = apfst (map (to_user_row now)) (full_page du_created us_id q c)"
  using assms
  by (auto simp: users_at_def list_users_page_def list_users_def full_page_def to_page_def user_listed_def [abs_def] split: option.splits)

lemma orgs_at_page:
  assumes "pq_listed q = org_listed lower input" and "pq_limit q = lo_limit input"
  shows "orgs_at lower members input q c = apfst (map (\<lambda>o'. (o', member_count members o'))) (full_page og_created og_id q c)"
  using assms
  by (auto simp: orgs_at_def list_orgs_page_def list_orgs_def full_page_def org_listed_def [abs_def] split: option.splits
      intro!: to_page_mapped)

lemma approvals_at_page:
  assumes "pq_listed q = (\<lambda>r. case lp_status input of None \<Rightarrow> True | Some st \<Rightarrow> ap_status r = st)" and "pq_limit q = lp_limit input"
  shows "approvals_at input q c = full_page ap_created ap_id q c"
  using assms by (auto simp: approvals_at_def list_approvals_page_def list_approvals_def full_page_def to_page_def split: option.splits)

lemma length_newest: "length (newest time_of id_of p t) \<le> length t"
  by (simp add: newest_def)

text \<open>
  C33: following the cursors of the back office's lists of users, of organizations and of approval requests
  ends, and shows what the filters select, each once, the newest first.
\<close>
theorem admin_lists_whole:
  assumes "page_sound du_created us_id uq" and "pq_listed uq = user_listed lower now members ui" and "pq_limit uq = lu_limit ui"
    and "page_sound og_created og_id oq" and "pq_listed oq = org_listed lower oi" and "pq_limit oq = lo_limit oi"
    and "page_sound ap_created ap_id aq" and "pq_limit aq = lp_limit ai"
    and "pq_listed aq = (\<lambda>r. case lp_status ai of None \<Rightarrow> True | Some st \<Rightarrow> ap_status r = st)"
    and "length (pq_table uq) < fuel" and "length (pq_table oq) < fuel" and "length (pq_table aq) < fuel"
  shows "follow_pages (users_at lower now members ui uq) fuel None =
      (map (to_user_row now) (newest du_created us_id (user_listed lower now members ui) (pq_table uq)), True)
    \<and> follow_pages (orgs_at lower members oi oq) fuel None =
      (map (\<lambda>o'. (o', member_count members o')) (newest og_created og_id (org_listed lower oi) (pq_table oq)), True)
    \<and> follow_pages (approvals_at ai aq) fuel None =
      (newest ap_created ap_id (\<lambda>r. case lp_status ai of None \<Rightarrow> True | Some st \<Rightarrow> ap_status r = st) (pq_table aq), True)"
proof (intro conjI)
  have "length (user_pages.rows uq) < fuel" "length (org_pages.rows oq) < fuel" "length (approval_pages.rows aq) < fuel"
    using assms(10-12)
    by (simp_all add: user_pages.rows_def org_pages.rows_def approval_pages.rows_def le_less_trans [OF length_newest])
  note whole = user_pages.paged.all_shown [OF assms(1) this(1)] org_pages.paged.all_shown [OF assms(4) this(2)]
    approval_pages.paged.all_shown [OF assms(7) this(3)]
  show "follow_pages (users_at lower now members ui uq) fuel None =
      (map (to_user_row now) (newest du_created us_id (user_listed lower now members ui) (pq_table uq)), True)"
    using follow_mapped [OF users_at_page [OF assms(2,3)]] whole(1) by (simp add: user_pages.rows_def assms(2))
  show "follow_pages (orgs_at lower members oi oq) fuel None =
      (map (\<lambda>o'. (o', member_count members o')) (newest og_created og_id (org_listed lower oi) (pq_table oq)), True)"
    using follow_mapped [OF orgs_at_page [OF assms(5,6)]] whole(2) by (simp add: org_pages.rows_def assms(5))
  have "approvals_at ai aq = full_page ap_created ap_id aq" by (rule ext) (rule approvals_at_page [OF assms(9,8)])
  then show "follow_pages (approvals_at ai aq) fuel None =
      (newest ap_created ap_id (\<lambda>r. case lp_status ai of None \<Rightarrow> True | Some st \<Rightarrow> ap_status r = st) (pq_table aq), True)"
    using whole(3) by (simp add: approval_pages.rows_def assms(9))
qed

text \<open>
  The filter of the user list agrees with what the rows show: at the instant of the query a user is listed
  as banned exactly when the row says so.
\<close>

lemma listed_as_shown: "live_ban_is now banned u \<longleftrightarrow> vu_banned (to_user_row now u) = banned"
  by (auto simp: live_ban_is_def to_user_row_def Let_def split: option.splits)

text \<open>Three users, two of the same date, one of them banned, two to a page; an organization and a request.\<close>

definition example_user :: "ident \<Rightarrow> bool \<Rightarrow> instant \<Rightarrow> directory_user" where
  "example_user i banned t = \<lparr>us_id = i, us_role = MirrorPlain, us_banned = banned, us_ban_reason = None, us_ban_expires = Some 3,
     us_deleted = None, us_pending_deletion = None, du_email = ''Bob@b.test'', du_name = ''Bob'', du_two_factor = None, du_created = t\<rparr>"

definition example_show :: "instant \<Rightarrow> string" where
  "example_show t = (if t = 1 then ''2026-07-01 10:00:00.25'' else ''2026-07-01T10:00:01Z'')"

definition example_read :: "string \<Rightarrow> instant option" where
  "example_read s = (if s = ''2026-07-01 10:00:00.25'' then Some 1 else Some 2)"

definition example_users_input :: list_users_input where
  "example_users_input = \<lparr>lu_search = Some ''b@b'', lu_banned = Some False, lu_organization = None, lu_cursor = None, lu_limit = 2\<rparr>"

definition example_users :: "directory_user page_query" where
  "example_users =
     \<lparr>pq_table = [example_user ''a'' False 1, example_user ''b'' False 1, example_user ''c'' True 2],
      pq_listed = user_listed (\<lambda>s. s) 4 [] example_users_input, pq_limit = 2, pq_show = example_show, pq_read = example_read\<rparr>"

definition example_orgs_input :: list_orgs_input where
  "example_orgs_input = \<lparr>lo_search = Some ''_cme'', lo_cursor = None, lo_limit = 1\<rparr>"

definition example_orgs :: "organization_row page_query" where
  "example_orgs =
     \<lparr>pq_table = [\<lparr>og_id = ''o1'', og_name = ''Acme'', og_slug = ''acme'', og_created = 1, og_sso = False\<rparr>],
      pq_listed = org_listed (\<lambda>s. s) example_orgs_input, pq_limit = 1, pq_show = example_show, pq_read = example_read\<rparr>"

definition example_requests_input :: list_approvals_input where
  "example_requests_input = \<lparr>lp_status = None, lp_cursor = None, lp_limit = 1\<rparr>"

definition example_requests :: "approval_row page_query" where
  "example_requests =
     \<lparr>pq_table = [], pq_listed = (\<lambda>r. case lp_status example_requests_input of None \<Rightarrow> True | Some st \<Rightarrow> ap_status r = st),
      pq_limit = 1, pq_show = example_show, pq_read = example_read\<rparr>"

lemma example_pages_sound: "page_sound du_created us_id example_users" "page_sound og_created og_id example_orgs"
  "page_sound ap_created ap_id example_requests"
  by code_simp+

theorem admin_lists_whole_witness:
  "apfst (map vu_id) (follow_pages (users_at (\<lambda>s. s) 4 [] example_users_input example_users) 4 None) = ([''c'', ''b'', ''a''], True)
   \<and> apfst (map (og_id \<circ> fst)) (follow_pages (orgs_at (\<lambda>s. s) [] example_orgs_input example_orgs) 4 None) = ([''o1''], True)
   \<and> follow_pages (approvals_at example_requests_input example_requests) 4 None = ([], True)"
proof -
  have shown: "map vu_id (map (to_user_row 4) (newest du_created us_id (user_listed (\<lambda>s. s) 4 [] example_users_input) (pq_table example_users))) = [''c'', ''b'', ''a'']"
    "map (og_id \<circ> fst) (map (\<lambda>o'. (o', member_count [] o')) (newest og_created og_id (org_listed (\<lambda>s. s) example_orgs_input) (pq_table example_orgs))) = [''o1'']"
    by code_simp+
  have none: "newest ap_created ap_id (\<lambda>r. case lp_status example_requests_input of None \<Rightarrow> True | Some st \<Rightarrow> ap_status r = st) (pq_table example_requests) = []"
    by (simp add: example_requests_def newest_def)
  have "follow_pages (users_at (\<lambda>s. s) 4 [] example_users_input example_users) 4 None =
      (map (to_user_row 4) (newest du_created us_id (user_listed (\<lambda>s. s) 4 [] example_users_input) (pq_table example_users)), True)
    \<and> follow_pages (orgs_at (\<lambda>s. s) [] example_orgs_input example_orgs) 4 None =
      (map (\<lambda>o'. (o', member_count [] o')) (newest og_created og_id (org_listed (\<lambda>s. s) example_orgs_input) (pq_table example_orgs)), True)
    \<and> follow_pages (approvals_at example_requests_input example_requests) 4 None =
      (newest ap_created ap_id (\<lambda>r. case lp_status example_requests_input of None \<Rightarrow> True | Some st \<Rightarrow> ap_status r = st) (pq_table example_requests), True)"
    by (rule admin_lists_whole [OF example_pages_sound(1) _ _ example_pages_sound(2) _ _ example_pages_sound(3)])
      (simp_all add: example_users_def example_orgs_def example_requests_def example_users_input_def example_orgs_input_def example_requests_input_def)
  then show ?thesis using shown none by (simp only: apfst_conv)
qed

end
