(* ===== verification/Step_Up.thy ===== *)
theory Step_Up
  imports Staff_Effects
begin

text \<open>
  Confirming a sensitive action with a code of one's authenticator:
  \<open>modules/admin/application/services/step-up.service.ts\<close>, \<open>drizzle-step-up.store.ts\<close>, the verifier of the
  codes \<open>shared/services/drizzle-totp-verifier.ts\<close>, and the guard of the routes
  \<open>shared/middleware/step-up-guards.ts\<close>.

  Decrypting a secret and \<open>hotp\<close>, the code of a counter, are parameters; a throw of theirs is \<open>None\<close>.
\<close>

section \<open>World, environment, errors\<close>

record two_factor_row =
  tf_user :: ident
  tf_secret :: string
  tf_verified :: "bool option"

record totp_counter_row =
  ct_user :: ident
  ct_last :: int

record step_up_row =
  sp_session :: ident
  sp_verified :: instant

record step_up_world = staff_world +
  wu_two_factor :: "two_factor_row list"
  wu_counters :: "totp_counter_row list"
  wu_steps :: "step_up_row list"

record step_up_env =
  ue_call :: call_env
  ue_decrypt :: "string \<Rightarrow> string option"
  ue_hotp :: "string \<Rightarrow> int \<Rightarrow> string option"
  ue_ttl_seconds :: int

datatype totp_outcome = Accepted | Invalid | Replayed | NotEnrolled
datatype step_up_error = StepUpStoreFailed | TotpFailed | MfaMissing | CodeInvalid | CodeReplayed | SessionGone

type_synonym 'a step_up_tx = "(step_up_world, step_up_error, 'a) tx"

section \<open>The codes\<close>

definition TOTP_PERIOD :: int where "TOTP_PERIOD = 30"
definition CLOCK_DRIFT_STEPS :: int where "CLOCK_DRIFT_STEPS = 1"

text \<open>The loop over the steps, a later match taking the place of an earlier one.\<close>

fun match_steps :: "(int \<Rightarrow> string option) \<Rightarrow> string \<Rightarrow> int list \<Rightarrow> int option \<Rightarrow> int option option" where
  "match_steps hotp code [] matched = Some matched"
| "match_steps hotp code (c # cs) matched =
     (case hotp c of None \<Rightarrow> None | Some expected \<Rightarrow> match_steps hotp code cs (if code = expected then Some c else matched))"

definition matched_counter :: "step_up_env \<Rightarrow> instant \<Rightarrow> string \<Rightarrow> string \<Rightarrow> int option option" where
  "matched_counter env now secret code =
     (let current = now div (TOTP_PERIOD * 1000)
      in match_steps (ue_hotp env secret) code (map (\<lambda>s. current + s) [- CLOCK_DRIFT_STEPS .. CLOCK_DRIFT_STEPS]) None)"

text \<open>\<open>match\<close>: what goes wrong on the way matches nothing.\<close>

definition totp_match :: "step_up_env \<Rightarrow> instant \<Rightarrow> string \<Rightarrow> string \<Rightarrow> int option" where
  "totp_match env now encrypted code =
     (case ue_decrypt env encrypted of
        None \<Rightarrow> None
      | Some secret \<Rightarrow> (case matched_counter env now secret code of None \<Rightarrow> None | Some m \<Rightarrow> m))"

definition enrolled_secret :: "ident \<Rightarrow> two_factor_row list \<Rightarrow> string option" where
  "enrolled_secret user t =
     (case List.find (\<lambda>r. tf_user r = user \<and> (tf_verified r = Some True \<or> tf_verified r = None)) t of
        None \<Rightarrow> None | Some r \<Rightarrow> if tf_secret r = [] then None else Some (tf_secret r))"

text \<open>\<open>INSERT ... ON CONFLICT (user) DO UPDATE SET last = counter WHERE last < counter RETURNING\<close>.\<close>

definition advance_counter :: "ident \<Rightarrow> int \<Rightarrow> totp_counter_row list \<Rightarrow> totp_counter_row list \<times> bool" where
  "advance_counter user c t =
     (if user \<notin> ct_user ` set t then (t @ [\<lparr>ct_user = user, ct_last = c\<rparr>], True)
      else (sql_update (\<lambda>r. ct_user r = user \<and> ct_last r < c) (\<lambda>r. r\<lparr>ct_last := c\<rparr>) t,
            list_ex (\<lambda>r. ct_user r = user \<and> ct_last r < c) t))"

definition totp_consume ::
  "step_up_env \<Rightarrow> ident \<Rightarrow> string \<Rightarrow> ('w step_up_world_scheme, step_up_error, totp_outcome) tx" where
  "totp_consume env user code w =
     (if x_error (ue_call env) ''consume'' \<noteq> None then refuse TotpFailed w
      else case enrolled_secret user (wu_two_factor w) of
        None \<Rightarrow> give NotEnrolled w
      | Some secret \<Rightarrow>
          (case totp_match env (x_date (ue_call env)) secret code of
             None \<Rightarrow> give Invalid w
           | Some c \<Rightarrow>
               (case advance_counter user c (wu_counters w) of
                  (t, written) \<Rightarrow> give (if written then Accepted else Replayed) (w\<lparr>wu_counters := t\<rparr>))))"

section \<open>The confirmations\<close>

definition find_verified_at :: "ident \<Rightarrow> step_up_row list \<Rightarrow> instant option" where
  "find_verified_at session t = map_option sp_verified (row_of sp_session session t)"

definition record_step_up :: "step_up_env \<Rightarrow> ident \<Rightarrow> instant \<Rightarrow> bool step_up_tx" where
  "record_step_up env session verified w =
     (if x_error (ue_call env) ''record'' \<noteq> None then refuse StepUpStoreFailed w
      else if session \<notin> se_id ` set (st_sessions (aw_staff w)) then give False w
      else let row = \<lparr>sp_session = session, sp_verified = verified\<rparr>
           in give True (w\<lparr>wu_steps :=
                if session \<in> sp_session ` set (wu_steps w)
                then sql_update (\<lambda>r. sp_session r = session) (\<lambda>r. r\<lparr>sp_verified := verified\<rparr>) (wu_steps w)
                else wu_steps w @ [row]\<rparr>))"

definition expiry_of :: "step_up_env \<Rightarrow> instant \<Rightarrow> instant" where
  "expiry_of env verified = verified + ue_ttl_seconds env * 1000"

definition valid_until :: "step_up_env \<Rightarrow> ident \<Rightarrow> step_up_world \<Rightarrow> (instant option, step_up_error) result" where
  "valid_until env session w =
     (if x_error (ue_call env) ''findVerifiedAt'' \<noteq> None then fail StepUpStoreFailed
      else ok (case find_verified_at session (wu_steps w) of
        None \<Rightarrow> None
      | Some t \<Rightarrow> if x_date (ue_call env) < expiry_of env t then Some (expiry_of env t) else None))"

record step_up_attempt =
  sq_user :: ident
  sq_session :: ident
  sq_code :: string
  sq_ip :: "string option"

fun totp_refusal :: "totp_outcome \<Rightarrow> (unit, step_up_error) result" where
  "totp_refusal Accepted = ok ()"
| "totp_refusal Invalid = fail CodeInvalid"
| "totp_refusal Replayed = fail CodeReplayed"
| "totp_refusal NotEnrolled = fail MfaMissing"

definition verify_tx :: "step_up_env \<Rightarrow> step_up_attempt \<Rightarrow> instant step_up_tx" where
  "verify_tx env a =
     after (totp_consume env (sq_user a) (sq_code a)) (\<lambda>outcome.
     after (check (totp_refusal outcome)) (\<lambda>_.
     after (record_step_up env (sq_session a) (x_date (ue_call env))) (\<lambda>recorded.
     after (check (if recorded then ok () else fail SessionGone)) (\<lambda>_.
     after (emit (ue_call env) ''admin.step_up.verified'' ''user'' (sq_user a)
       (JObj [(''userId'', JStr (sq_user a)),
              (''validUntil'', JStr (x_iso (ue_call env) (expiry_of env (x_date (ue_call env))))), (''ip'', JOpt (sq_ip a))]))
       (\<lambda>_. give (expiry_of env (x_date (ue_call env))))))))"

definition announce_failure :: "step_up_env \<Rightarrow> step_up_attempt \<Rightarrow> string \<Rightarrow> step_up_world \<Rightarrow> step_up_world" where
  "announce_failure env a reason w =
     w\<lparr>aw_outbox := emit_event_best_effort (x_schema (ue_call env)) (x_emit (ue_call env) (length (outbox_rows (aw_outbox w))))
         ''admin.step_up.failed'' ''user'' (sq_user a)
         (JObj [(''userId'', JStr (sq_user a)), (''reason'', JStr reason), (''ip'', JOpt (sq_ip a))]) (aw_outbox w)\<rparr>"

definition step_up_verify :: "step_up_env \<Rightarrow> step_up_attempt \<Rightarrow> step_up_world \<Rightarrow> step_up_world \<times> (instant, step_up_error) result throws" where
  "step_up_verify env a w =
     (case run_tx (x_commit_error (ue_call env)) (verify_tx env a) w of
        (w', Inr (Inl CodeInvalid)) \<Rightarrow> (announce_failure env a ''invalid_code'' w', Inr (fail CodeInvalid))
      | (w', Inr (Inl CodeReplayed)) \<Rightarrow> (announce_failure env a ''replayed_code'' w', Inr (fail CodeReplayed))
      | out \<Rightarrow> out)"

section \<open>The guard\<close>

datatype guard_refusal = Impersonating | NoSecondFactor | GuardFailed step_up_error | ReauthRequired

text \<open>The session and the flag of the user are those of the request, as its authentication read them.\<close>

definition assert_step_up :: "step_up_env \<Rightarrow> bool option \<Rightarrow> session_row \<Rightarrow> step_up_world \<Rightarrow> guard_refusal option" where
  "assert_step_up env two_factor session w =
     (if (case se_impersonated_by session of None \<Rightarrow> False | Some i \<Rightarrow> i \<noteq> []) then Some Impersonating
      else if two_factor \<noteq> Some True then Some NoSecondFactor
      else case valid_until env (se_id session) w of
        Inl e \<Rightarrow> Some (GuardFailed e)
      | Inr None \<Rightarrow> Some ReauthRequired
      | Inr (Some _) \<Rightarrow> None)"

end
