(* ===== verification/Step_Up_Correct.thy ===== *)
theory Step_Up_Correct
  imports Step_Up
begin

text \<open>
  What a confirmed session rests on: a code of the person's authenticator, accepted within the window
  of its counter and never before, by a session that still exists and has not outlived the delay.
\<close>

section \<open>What the operations do\<close>

lemma match_steps_Some:
  assumes "match_steps hotp code cs m = Some (Some c)"
  shows "m = Some c \<or> c \<in> set cs \<and> hotp c = Some code"
  using assms by (induction cs arbitrary: m) (auto split: option.splits if_splits)

lemma matched_counter_Some:
  assumes "matched_counter env now secret code = Some (Some c)"
  shows "\<bar>c - now div (TOTP_PERIOD * 1000)\<bar> \<le> CLOCK_DRIFT_STEPS \<and> ue_hotp env secret c = Some code"
proof -
  let ?now = "now div (TOTP_PERIOD * 1000)"
  have "match_steps (ue_hotp env secret) code (map (\<lambda>s. ?now + s) [- CLOCK_DRIFT_STEPS .. CLOCK_DRIFT_STEPS]) None = Some (Some c)"
    using assms by (simp only: matched_counter_def Let_def)
  from match_steps_Some [OF this] have c: "c \<in> (\<lambda>s. ?now + s) ` {- CLOCK_DRIFT_STEPS .. CLOCK_DRIFT_STEPS}" "ue_hotp env secret c = Some code"
    by simp_all
  from c(1) have "\<bar>c - ?now\<bar> \<le> CLOCK_DRIFT_STEPS" by (auto simp: abs_le_iff)
  then show ?thesis using c(2) by simp
qed

lemma totp_match_Some:
  assumes "totp_match env now encrypted code = Some c"
  shows "\<bar>c - now div (TOTP_PERIOD * 1000)\<bar> \<le> CLOCK_DRIFT_STEPS
    \<and> (\<exists>secret. ue_decrypt env encrypted = Some secret \<and> ue_hotp env secret c = Some code)"
  using assms matched_counter_Some by (auto simp: totp_match_def split: option.splits)

text \<open>A counter is written only past the one before it.\<close>

lemma advance_counter_written:
  assumes "advance_counter user c t = (t', True)" and "keyed ct_user t"
  shows "keyed ct_user t'" and "\<And>r. r \<in> set t \<Longrightarrow> ct_user r = user \<Longrightarrow> ct_last r < c"
    and "set t' = insert \<lparr>ct_user = user, ct_last = c\<rparr> {r \<in> set t. ct_user r \<noteq> user}"
proof -
  have "keyed ct_user t' \<and> (\<forall>r \<in> set t. ct_user r = user \<longrightarrow> ct_last r < c)
      \<and> set t' = insert \<lparr>ct_user = user, ct_last = c\<rparr> {r \<in> set t. ct_user r \<noteq> user}"
  proof (cases "user \<in> ct_user ` set t")
    case False
    then show ?thesis using assms by (auto simp: advance_counter_def keyed_def)
  next
    case True
    then obtain r where r: "r \<in> set t" "ct_user r = user" by blast
    have t': "t' = sql_update (\<lambda>r. ct_user r = user \<and> ct_last r < c) (\<lambda>r. r\<lparr>ct_last := c\<rparr>) t"
      and "list_ex (\<lambda>r. ct_user r = user \<and> ct_last r < c) t"
      using assms(1) True by (auto simp: advance_counter_def)
    then obtain s where s: "s \<in> set t" "ct_user s = user" "ct_last s < c" by (auto simp: list_ex_iff)
    then have one: "x = s" if "x \<in> set t" "ct_user x = user" for x
      using keyed_unique [OF assms(2)] that by simp
    have "s\<lparr>ct_last := c\<rparr> = \<lparr>ct_user = user, ct_last = c\<rparr>" using s(2) by (cases s) simp
    then have "(if ct_user x = user \<and> ct_last x < c then x\<lparr>ct_last := c\<rparr> else x) = (if ct_user x = user then \<lparr>ct_user = user, ct_last = c\<rparr> else x)"
      if "x \<in> set t" for x
      using one [OF that] s(3) \<open>s\<lparr>ct_last := c\<rparr> = \<lparr>ct_user = user, ct_last = c\<rparr>\<close> by (cases "ct_user x = user") auto
    then have "set t' = (\<lambda>x. if ct_user x = user then \<lparr>ct_user = user, ct_last = c\<rparr> else x) ` set t"
      unfolding t' set_sql_update by (rule image_cong [OF refl])
    then have "set t' = insert \<lparr>ct_user = user, ct_last = c\<rparr> {r \<in> set t. ct_user r \<noteq> user}"
      using s(1,2) by (auto intro: rev_image_eqI)
    moreover have "keyed ct_user t'" unfolding t' using assms(2) by (simp add: keyed_sql_update)
    moreover have "\<forall>r \<in> set t. ct_user r = user \<longrightarrow> ct_last r < c"
    proof (intro ballI impI)
      fix r assume "r \<in> set t" "ct_user r = user"
      then have "r = s" by (rule one)
      then show "ct_last r < c" using s(3) by simp
    qed
    ultimately show ?thesis by (intro conjI)
  qed
  then show "keyed ct_user t'" "\<And>r. r \<in> set t \<Longrightarrow> ct_user r = user \<Longrightarrow> ct_last r < c"
    "set t' = insert \<lparr>ct_user = user, ct_last = c\<rparr> {r \<in> set t. ct_user r \<noteq> user}" by blast+
qed

lemma record_step_up_given:
  assumes "record_step_up env session verified w = Inr (True, w')"
  shows "session \<in> se_id ` set (st_sessions (aw_staff w))" and "keyed sp_session (wu_steps w) \<Longrightarrow> keyed sp_session (wu_steps w')"
    and "r \<in> set (wu_steps w') \<Longrightarrow> r \<in> set (wu_steps w) \<or> r = \<lparr>sp_session = session, sp_verified = verified\<rparr>"
    and "aw_staff w' = aw_staff w" and "wu_counters w' = wu_counters w" and "wu_two_factor w' = wu_two_factor w"
proof -
  let ?row = "\<lparr>sp_session = session, sp_verified = verified\<rparr>"
  have w': "session \<in> se_id ` set (st_sessions (aw_staff w))"
    "w' = w\<lparr>wu_steps := if session \<in> sp_session ` set (wu_steps w)
       then sql_update (\<lambda>r. sp_session r = session) (\<lambda>r. r\<lparr>sp_verified := verified\<rparr>) (wu_steps w) else wu_steps w @ [?row]\<rparr>"
    using assms by (auto simp: record_step_up_def give_def refuse_def Let_def split: if_splits)
  show "session \<in> se_id ` set (st_sessions (aw_staff w))" by (rule w'(1))
  show "aw_staff w' = aw_staff w" "wu_counters w' = wu_counters w" "wu_two_factor w' = wu_two_factor w"
    by (simp_all add: w'(2))
  show "keyed sp_session (wu_steps w')" if "keyed sp_session (wu_steps w)"
  proof (cases "session \<in> sp_session ` set (wu_steps w)")
    case True
    then show ?thesis using that by (simp add: w'(2) keyed_sql_update)
  next
    case False
    then show ?thesis using that by (simp add: w'(2) keyed_def)
  qed
  assume r: "r \<in> set (wu_steps w')"
  show "r \<in> set (wu_steps w) \<or> r = ?row"
  proof (cases "session \<in> sp_session ` set (wu_steps w)")
    case True
    then obtain s where s: "s \<in> set (wu_steps w)" "r = (if sp_session s = session then s\<lparr>sp_verified := verified\<rparr> else s)"
      using r by (auto simp: w'(2) set_sql_update)
    then show ?thesis by (cases s) (auto split: if_splits)
  next
    case False
    then show ?thesis using r by (auto simp: w'(2))
  qed
qed

lemma verify_tx_given:
  assumes "verify_tx env a w = Inr (t, w')"
  shows "\<exists>secret c counters w1. enrolled_secret (sq_user a) (wu_two_factor w) = Some secret
      \<and> totp_match env (x_date (ue_call env)) secret (sq_code a) = Some c
      \<and> advance_counter (sq_user a) c (wu_counters w) = (counters, True)
      \<and> record_step_up env (sq_session a) (x_date (ue_call env)) (w\<lparr>wu_counters := counters\<rparr>) = Inr (True, w1)
      \<and> wu_counters w' = wu_counters w1 \<and> wu_steps w' = wu_steps w1 \<and> aw_staff w' = aw_staff w1"
proof -
  let ?body = "JObj [(''userId'', JStr (sq_user a)),
    (''validUntil'', JStr (x_iso (ue_call env) (expiry_of env (x_date (ue_call env))))), (''ip'', JOpt (sq_ip a))]"
  have "\<exists>outcome w1 recorded w2. totp_consume env (sq_user a) (sq_code a) w = Inr (outcome, w1) \<and> totp_refusal outcome = ok ()
      \<and> record_step_up env (sq_session a) (x_date (ue_call env)) w1 = Inr (recorded, w2) \<and> recorded
      \<and> (emit (ue_call env) ''admin.step_up.verified'' ''user'' (sq_user a) ?body :: unit step_up_tx) w2 = Inr ((), w')"
    using assms unfolding verify_tx_def
    apply (elim after_InrE)
    apply (simp add: check_Inr give_Inr split: if_splits)
    done
  then obtain outcome w1 recorded w2 where c: "totp_consume env (sq_user a) (sq_code a) w = Inr (outcome, w1)" "totp_refusal outcome = ok ()"
    and r: "record_step_up env (sq_session a) (x_date (ue_call env)) w1 = Inr (recorded, w2)" "recorded"
    and e: "(emit (ue_call env) ''admin.step_up.verified'' ''user'' (sq_user a) ?body :: unit step_up_tx) w2 = Inr ((), w')"
    by (elim exE conjE)
  have same: "wu_counters w' = wu_counters w2 \<and> wu_steps w' = wu_steps w2 \<and> aw_staff w' = aw_staff w2"
    using e by (auto simp: emit_def split: sum.splits prod.splits)
  have "outcome = Accepted" using c(2) by (cases outcome) simp_all
  then show ?thesis
    using c(1) r same by (auto simp: totp_consume_def give_def refuse_def split: option.splits if_splits prod.splits)
qed

lemma consume_outcome:
  assumes "totp_consume env user code w = Inr (outcome, w')"
  shows "if outcome = Accepted
    then \<exists>stored c counters. enrolled_secret user (wu_two_factor w) = Some stored \<and> totp_match env (x_date (ue_call env)) stored code = Some c
      \<and> advance_counter user c (wu_counters w) = (counters, True) \<and> w' = w\<lparr>wu_counters := counters\<rparr>
    else w' = w"
proof -
  have same: "t = wu_counters w" if "advance_counter user c (wu_counters w) = (t, False)" for c t
    using that by (auto simp: advance_counter_def list_ex_iff intro!: sql_update_id split: if_splits)
  show ?thesis using assms
    by (auto simp: totp_consume_def give_def refuse_def dest: same split: option.splits if_splits prod.splits)
qed

section \<open>Runs\<close>

text \<open>
  A code accepted: whose, for which session if it was to confirm one, the code, the secret stored for its
  user then, and the instant and the cryptography of the call. Nothing is said here of why it was
  accepted: whether it was right is what has to be shown.
\<close>

record accepted_code =
  ac_user :: ident
  ac_session :: "ident option"
  ac_code :: string
  ac_stored :: "string option"
  ac_env :: step_up_env

definition ac_at :: "accepted_code \<Rightarrow> instant" where
  "ac_at e = x_date (ue_call (ac_env e))"

definition accepted_by :: "step_up_env \<Rightarrow> step_up_world \<Rightarrow> ident \<Rightarrow> ident option \<Rightarrow> string \<Rightarrow> accepted_code" where
  "accepted_by env w user session code =
     \<lparr>ac_user = user, ac_session = session, ac_code = code, ac_stored = enrolled_secret user (wu_two_factor w), ac_env = env\<rparr>"

text \<open>The counter a code is the code of, and what that means.\<close>

definition counter_of :: "accepted_code \<Rightarrow> int option" where
  "counter_of e = Option.bind (ac_stored e) (\<lambda>stored. totp_match (ac_env e) (ac_at e) stored (ac_code e))"

definition code_of :: "accepted_code \<Rightarrow> int \<Rightarrow> bool" where
  "code_of e c \<longleftrightarrow> counter_of e = Some c \<and> \<bar>c - ac_at e div (TOTP_PERIOD * 1000)\<bar> \<le> CLOCK_DRIFT_STEPS
   \<and> (\<exists>stored secret. ac_stored e = Some stored \<and> ue_decrypt (ac_env e) stored = Some secret
        \<and> ue_hotp (ac_env e) secret c = Some (ac_code e))"

text \<open>
  Any number of processes verify codes to confirm a session; others hand a code to the verifier alone,
  as the deletion of an account does and what runs after a sign-in; sessions open and end (the
  confirmation of a session goes with it), secrets change, and others write to the outbox. The list
  grows with every code for which a verification reported success or the verifier said \<open>Accepted\<close>.
\<close>

inductive step_up_step :: "step_up_world \<times> accepted_code list \<Rightarrow> step_up_world \<times> accepted_code list \<Rightarrow> bool" where
  verifies: "step_up_verify env a w = (w', Inr (Inr t)) \<Longrightarrow>
    step_up_step (w, codes) (w', accepted_by env w (sq_user a) (Some (sq_session a)) (sq_code a) # codes)"
| refuses: "step_up_verify env a w = (w', Inr (Inl e)) \<Longrightarrow> step_up_step (w, codes) (w', codes)"
| throws: "step_up_verify env a w = (w', Inl e) \<Longrightarrow> step_up_step (w, codes) (w', codes)"
| consumes: "totp_consume env user code w = Inr (outcome, w') \<Longrightarrow>
    step_up_step (w, codes) (w', if outcome = Accepted then accepted_by env w user None code # codes else codes)"
| session_opened: "step_up_step (w, codes) (w\<lparr>aw_staff := (aw_staff w)\<lparr>st_sessions := st_sessions (aw_staff w) @ [s]\<rparr>\<rparr>, codes)"
| session_ended: "step_up_step (w, codes)
    (w\<lparr>aw_staff := (aw_staff w)\<lparr>st_sessions := sql_delete p (st_sessions (aw_staff w))\<rparr>,
       wu_steps := sql_delete (\<lambda>r. sp_session r \<notin> se_id ` set (sql_delete p (st_sessions (aw_staff w)))) (wu_steps w)\<rparr>, codes)"
| enrolment: "step_up_step (w, codes) (w\<lparr>wu_two_factor := t\<rparr>, codes)"
| elsewhere: "step_up_step (w, codes) (w\<lparr>aw_outbox := ob\<rparr>, codes)"

text \<open>Before anybody confirmed anything.\<close>

definition step_up_start :: "step_up_world \<Rightarrow> bool" where
  "step_up_start w \<longleftrightarrow> wu_counters w = [] \<and> wu_steps w = []"

definition step_up_inv :: "step_up_world \<times> accepted_code list \<Rightarrow> bool" where
  "step_up_inv s \<longleftrightarrow>
     keyed ct_user (wu_counters (fst s)) \<and> keyed sp_session (wu_steps (fst s))
   \<and> (\<forall>e \<in> set (snd s). \<exists>c. code_of e c \<and> (\<exists>r \<in> set (wu_counters (fst s)). ct_user r = ac_user e \<and> c \<le> ct_last r))
   \<and> sorted_wrt (\<lambda>e f. ac_user f = ac_user e \<longrightarrow> the (counter_of f) < the (counter_of e)) (snd s)
   \<and> (\<forall>r \<in> set (wu_steps (fst s)). \<exists>e \<in> set (snd s). ac_session e = Some (sp_session r) \<and> ac_at e = sp_verified r)"

lemma step_up_invD:
  assumes "step_up_inv (w, codes)"
  shows "keyed ct_user (wu_counters w)" "keyed sp_session (wu_steps w)"
    "\<And>e. e \<in> set codes \<Longrightarrow> \<exists>c. code_of e c \<and> (\<exists>r \<in> set (wu_counters w). ct_user r = ac_user e \<and> c \<le> ct_last r)"
    "sorted_wrt (\<lambda>e f. ac_user f = ac_user e \<longrightarrow> the (counter_of f) < the (counter_of e)) codes"
    "\<And>r. r \<in> set (wu_steps w) \<Longrightarrow> \<exists>e \<in> set codes. ac_session e = Some (sp_session r) \<and> ac_at e = sp_verified r"
  using assms by (auto simp: step_up_inv_def)

text \<open>What is refused or throws leaves codes and confirmations as they were.\<close>

lemma verify_not_accepted:
  assumes "step_up_verify env a w = (w', out)" and "\<nexists>t. out = Inr (Inr t)"
  shows "wu_counters w' = wu_counters w \<and> wu_steps w' = wu_steps w \<and> aw_staff w' = aw_staff w"
  using assms
  by (auto simp: step_up_verify_def run_tx_def announce_failure_def split: sum.splits exit.splits option.splits step_up_error.splits)

lemma verify_accepted:
  assumes "step_up_verify env a w = (w', Inr (Inr t))"
  shows "verify_tx env a w = Inr (t, w')"
  using assms
  by (auto simp: step_up_verify_def run_tx_def split: sum.splits exit.splits option.splits step_up_error.splits prod.splits)

lemma inv_same_tables:
  assumes "step_up_inv (w, codes)" and "wu_counters w' = wu_counters w" and "set (wu_steps w') \<subseteq> set (wu_steps w)"
    and "keyed sp_session (wu_steps w')"
  shows "step_up_inv (w', codes)"
  using assms by (auto simp: step_up_inv_def)

text \<open>A code whose counter advanced the one of its user joins those accepted.\<close>

lemma inv_accepts:
  assumes "step_up_inv (w, codes)" and "enrolled_secret user (wu_two_factor w) = Some stored"
    and "totp_match env (x_date (ue_call env)) stored code = Some c"
    and "advance_counter user c (wu_counters w) = (counters, True)"
    and "wu_counters w' = counters" and "keyed sp_session (wu_steps w')"
    and "\<And>r. r \<in> set (wu_steps w') \<Longrightarrow> r \<in> set (wu_steps w) \<or> session = Some (sp_session r) \<and> sp_verified r = x_date (ue_call env)"
  shows "step_up_inv (w', accepted_by env w user session code # codes)"
proof -
  let ?e = "accepted_by env w user session code"
  note old = step_up_invD [OF assms(1)]
  note adv = advance_counter_written [OF assms(4) old(1)]
  have e: "ac_user ?e = user" "ac_session ?e = session" "ac_at ?e = x_date (ue_call env)" "counter_of ?e = Some c" "code_of ?e c"
    using assms(2,3) totp_match_Some [OF assms(3)]
    by (auto simp: accepted_by_def ac_at_def counter_of_def code_of_def)
  have was: "\<exists>r \<in> set counters. ct_user r = ac_user f \<and> d \<le> ct_last r" "ac_user f = user \<Longrightarrow> d < c"
    if f: "f \<in> set codes" "code_of f d" for f d
  proof -
    obtain r where r: "r \<in> set (wu_counters w)" "ct_user r = ac_user f" "d \<le> ct_last r"
      using old(3) [OF f(1)] f(2) by (auto simp: code_of_def)
    show less: "ac_user f = user \<Longrightarrow> d < c" using adv(2) [OF r(1)] r by simp
    show "\<exists>r \<in> set counters. ct_user r = ac_user f \<and> d \<le> ct_last r"
    proof (cases "ac_user f = user")
      case True
      then show ?thesis using less adv(3) by auto
    next
      case False
      then show ?thesis using r adv(3) by (intro bexI [of _ r]) simp_all
    qed
  qed
  have "\<exists>c. code_of f c \<and> (\<exists>r \<in> set counters. ct_user r = ac_user f \<and> c \<le> ct_last r)" if f: "f \<in> set (?e # codes)" for f
  proof (cases "f = ?e")
    case True
    then show ?thesis using e(1,5) adv(3) by auto
  next
    case False
    then have "f \<in> set codes" using f by simp
    then show ?thesis using old(3) was(1) by meson
  qed
  moreover have "ac_user f = user \<longrightarrow> the (counter_of f) < c" if "f \<in> set codes" for f
    using old(3) [OF that] was(2) [OF that] by (auto simp: code_of_def)
  moreover have "\<exists>f \<in> set (?e # codes). ac_session f = Some (sp_session r) \<and> ac_at f = sp_verified r" if "r \<in> set (wu_steps w')" for r
    using assms(7) [OF that] e(2,3) old(5) [of r] by auto
  ultimately show ?thesis
    using adv(1) old(4) assms(5,6) e(1,4) by (simp add: step_up_inv_def)
qed

lemma step_up_step_inv:
  assumes "step_up_step s s'" and "step_up_inv s"
  shows "step_up_inv s'"
  using assms
proof cases
  case (verifies env a w w' t codes)
  have inv: "step_up_inv (w, codes)" using assms(2) verifies by simp
  obtain stored c counters w1 where v: "enrolled_secret (sq_user a) (wu_two_factor w) = Some stored"
    "totp_match env (x_date (ue_call env)) stored (sq_code a) = Some c"
    "advance_counter (sq_user a) c (wu_counters w) = (counters, True)"
    "record_step_up env (sq_session a) (x_date (ue_call env)) (w\<lparr>wu_counters := counters\<rparr>) = Inr (True, w1)"
    "wu_counters w' = wu_counters w1" "wu_steps w' = wu_steps w1"
    using verify_tx_given [OF verify_accepted [OF verifies(3)]] by blast
  note rec = record_step_up_given [OF v(4)]
  show ?thesis unfolding verifies(2)
  proof (rule inv_accepts [OF inv v(1-3)])
    show "wu_counters w' = counters" using v(5) rec(5) by simp
    show "keyed sp_session (wu_steps w')" using rec(2) step_up_invD(2) [OF inv] v(6) by simp
    show "r \<in> set (wu_steps w) \<or> Some (sq_session a) = Some (sp_session r) \<and> sp_verified r = x_date (ue_call env)"
      if "r \<in> set (wu_steps w')" for r using rec(3) [of r] that v(6) by auto
  qed
next
  case (refuses env a w w' e codes)
  then show ?thesis using verify_not_accepted [OF refuses(3)] inv_same_tables [of w codes w'] assms(2) step_up_invD(2) by auto
next
  case (throws env a w w' e codes)
  then show ?thesis using verify_not_accepted [OF throws(3)] inv_same_tables [of w codes w'] assms(2) step_up_invD(2) by auto
next
  case (consumes env user code w outcome w' codes)
  have inv: "step_up_inv (w, codes)" using assms(2) consumes by simp
  show ?thesis
  proof (cases "outcome = Accepted")
    case True
    then obtain stored c counters where v: "enrolled_secret user (wu_two_factor w) = Some stored"
      "totp_match env (x_date (ue_call env)) stored code = Some c"
      "advance_counter user c (wu_counters w) = (counters, True)" "w' = w\<lparr>wu_counters := counters\<rparr>"
      using consume_outcome [OF consumes(3)] by auto
    have "step_up_inv (w', accepted_by env w user None code # codes)"
      by (rule inv_accepts [OF inv v(1-3)]) (simp_all add: v(4) step_up_invD(2) [OF inv])
    then show ?thesis using consumes(2) True by simp
  next
    case False
    then show ?thesis using consume_outcome [OF consumes(3)] consumes(2) inv by simp
  qed
next
  case (session_ended w codes p)
  then show ?thesis using assms(2) by (auto simp: step_up_inv_def set_sql_delete keyed_sql_delete)
qed (use assms(2) in \<open>auto simp: step_up_inv_def\<close>)

lemma step_up_reach_inv:
  assumes "step_up_step\<^sup>*\<^sup>* (w0, []) s" and "step_up_start w0"
  shows "step_up_inv s"
  using assms
proof (induction rule: rtranclp_induct)
  case base
  then show ?case by (simp add: step_up_inv_def step_up_start_def keyed_def)
qed (use step_up_step_inv in blast)

text \<open>
  C34: however confirmations of sessions, deletions of accounts, sign-ins and changes of secret
  interleave, each code for which a verification reported success, or the verifier itself, is the code
  of a counter within one step of the instant, under the secret stored for its user at that moment, and
  the counters of the codes accepted from one person are ever later: none is accepted twice, nor one older
  than another already used. (Whether a sign-in itself succeeds is decided by the library, before the
  verifier is asked.)
\<close>
theorem totp_code_once:
  assumes "step_up_step\<^sup>*\<^sup>* (w0, []) (w, codes)" and "step_up_start w0" and "i < j" and "j < length codes"
    and "ac_user (codes ! i) = ac_user (codes ! j)"
  shows "\<exists>c d. code_of (codes ! i) c \<and> code_of (codes ! j) d \<and> d < c"
proof -
  note inv = step_up_invD [OF step_up_reach_inv [OF assms(1,2)]]
  have "codes ! i \<in> set codes" "codes ! j \<in> set codes" using assms(3,4) by simp_all
  then obtain c d where cd: "code_of (codes ! i) c" "code_of (codes ! j) d" using inv(3) by meson
  have "the (counter_of (codes ! j)) < the (counter_of (codes ! i))"
    using inv(4) assms(3-5) sorted_wrt_nth_less by fastforce
  then show ?thesis using cd by (auto simp: code_of_def)
qed

text \<open>
  C35: the guard lets a request through only if it is not an impersonation, its user has a second factor,
  and a verification for that very session reported success less than the delay ago, on a code that
  was the right one of its user within one step of that instant.
\<close>
theorem guard_needs_recent_code:
  assumes "step_up_step\<^sup>*\<^sup>* (w0, []) (w, codes)" and "step_up_start w0" and "assert_step_up env two_factor session w = None"
  shows "two_factor = Some True \<and> (\<forall>i. se_impersonated_by session = Some i \<longrightarrow> i = [])
    \<and> (\<exists>e \<in> set codes. ac_session e = Some (se_id session) \<and> x_date (ue_call env) < ac_at e + ue_ttl_seconds env * 1000
        \<and> (\<exists>c. code_of e c))"
proof -
  note inv = step_up_invD [OF step_up_reach_inv [OF assms(1,2)]]
  obtain r where r: "r \<in> set (wu_steps w)" "sp_session r = se_id session" "x_date (ue_call env) < expiry_of env (sp_verified r)"
    using assms(3) by (auto simp: assert_step_up_def valid_until_def find_verified_at_def dest!: row_of_Some split: if_splits option.splits sum.splits)
  then obtain e where e: "e \<in> set codes" "ac_session e = Some (se_id session)" "ac_at e = sp_verified r" using inv(5) by metis
  have "two_factor = Some True" "\<forall>i. se_impersonated_by session = Some i \<longrightarrow> i = []"
    using assms(3) by (auto simp: assert_step_up_def split: if_splits)
  then show ?thesis using e r(3) inv(3) [OF e(1)] by (auto simp: expiry_of_def)
qed

section \<open>An example\<close>

text \<open>The code of a counter is its number; a code at second 60, and the next one half a minute later.\<close>

definition example_step_up :: "instant \<Rightarrow> step_up_env" where
  "example_step_up t =
     \<lparr>ue_call = \<lparr>x_staff_env = \<lparr>PLATFORM_ADMIN_IDS = [], PLATFORM_ADMIN_REQUIRE_MFA = False\<rparr>,
        x_schema = (\<lambda>_. Some (\<lambda>_. None)), x_error = (\<lambda>_. None),
        x_emit = (\<lambda>n. \<lparr>et_db_error = None, et_request = None, et_fresh = show_nat n, et_date = t\<rparr>),
        x_date = t, x_fresh = [], x_iso = (\<lambda>_. ''then''), x_commit_error = None\<rparr>,
      ue_decrypt = Some, ue_hotp = (\<lambda>secret c. Some (show_nat (nat c))), ue_ttl_seconds = 600\<rparr>"

definition example_session :: session_row where
  "example_session = \<lparr>se_id = ''s1'', se_user = ''u'', se_impersonated_by = None, se_created = 0, se_expires = 9000000\<rparr>"

definition example_unconfirmed :: step_up_world where
  "example_unconfirmed =
     \<lparr>aw_staff = \<lparr>st_members = [], st_overrides = [], st_users = [], st_sessions = [example_session]\<rparr>,
      aw_outbox = \<lparr>outbox_rows = [], notified = 0\<rparr>,
      wu_two_factor = [\<lparr>tf_user = ''u'', tf_secret = ''k'', tf_verified = None\<rparr>], wu_counters = [], wu_steps = []\<rparr>"

definition example_attempt :: "string \<Rightarrow> step_up_attempt" where
  "example_attempt code = \<lparr>sq_user = ''u'', sq_session = ''s1'', sq_code = code, sq_ip = None\<rparr>"

definition example_confirmed :: step_up_world where
  "example_confirmed = fst (step_up_verify (example_step_up 60000) (example_attempt ''2'') example_unconfirmed)"

definition example_again :: step_up_world where
  "example_again = fst (step_up_verify (example_step_up 90000) (example_attempt ''3'') example_confirmed)"

lemma example_codes:
  "snd (step_up_verify (example_step_up 60000) (example_attempt ''2'') example_unconfirmed) = Inr (Inr 660000)"
  "snd (step_up_verify (example_step_up 90000) (example_attempt ''3'') example_confirmed) = Inr (Inr 690000)"
  by code_simp+

text \<open>The two codes in the order they were accepted, the later first.\<close>

definition example_accepted :: "accepted_code list" where
  "example_accepted =
     [accepted_by (example_step_up 90000) example_confirmed ''u'' (Some ''s1'') ''3'',
      accepted_by (example_step_up 60000) example_unconfirmed ''u'' (Some ''s1'') ''2'']"

lemma example_run: "step_up_step\<^sup>*\<^sup>* (example_unconfirmed, []) (example_again, example_accepted)"
proof -
  have v: "step_up_verify (example_step_up 60000) (example_attempt ''2'') example_unconfirmed = (example_confirmed, Inr (Inr 660000))"
    "step_up_verify (example_step_up 90000) (example_attempt ''3'') example_confirmed = (example_again, Inr (Inr 690000))"
    using example_codes(1,2) by (simp_all add: example_confirmed_def example_again_def prod_eq_iff)
  have env: "sq_user (example_attempt code) = ''u''" "sq_session (example_attempt code) = ''s1''"
    "sq_code (example_attempt code) = code" for code
    by (simp_all add: example_attempt_def)
  show ?thesis
    using step_up_step.verifies [OF v(1), of "[]"] step_up_step.verifies [OF v(2)]
    unfolding env example_accepted_def by (meson converse_rtranclp_into_rtranclp r_into_rtranclp)
qed

lemma example_start: "step_up_start example_unconfirmed"
  by (simp add: step_up_start_def example_unconfirmed_def)

theorem totp_code_once_witness:
  "\<exists>c d. code_of (example_accepted ! 0) c \<and> code_of (example_accepted ! 1) d \<and> d < c"
  by (rule totp_code_once [OF example_run example_start]) (simp_all add: example_accepted_def accepted_by_def)

theorem guard_needs_recent_code_witness:
  "assert_step_up (example_step_up 689999) (Some True) example_session example_again = None
   \<and> (\<exists>e \<in> set example_accepted. ac_session e = Some ''s1'' \<and> 689999 < ac_at e + 600000)
   \<and> assert_step_up (example_step_up 690000) (Some True) example_session example_again = Some ReauthRequired"
proof (intro conjI)
  show pass: "assert_step_up (example_step_up 689999) (Some True) example_session example_again = None" by code_simp
  show "\<exists>e \<in> set example_accepted. ac_session e = Some ''s1'' \<and> 689999 < ac_at e + 600000"
    using guard_needs_recent_code [OF example_run example_start pass] by (auto simp: example_session_def example_step_up_def)
  show "assert_step_up (example_step_up 690000) (Some True) example_session example_again = Some ReauthRequired" by code_simp
qed

end
