(* ===== verification/Account_Store.thy ===== *)
theory Account_Store
  imports Step_Up Admin_Lists Email_Queue
begin

text \<open>
  What the deletion and the export of an account read and write:
  \<open>modules/rgpd/infrastructure/repositories/drizzle-rgpd.repository.ts\<close> over the tables of
  \<open>packages/drizzle/src/schema\<close> it names.

  The columns of \<open>user\<close> and \<open>session\<close> that the administration does not read stand in tables of their
  own, with the same key: \<open>ac_profiles\<close> beside the users of \<open>Staff_Store\<close>, \<open>ac_clients\<close> beside the
  sessions. Deleting a session deletes the confirmation that hangs on it, deleting an organization its
  members, invitations, tokens and notes; what else hangs on an organization is not here.
\<close>

section \<open>Tables\<close>

record profile_row =
  pf_id :: ident
  pf_name :: string
  pf_email :: string
  pf_verified :: bool
  pf_image :: "string option"
  pf_created :: instant
  pf_updated :: instant
  pf_two_factor :: "bool option"
  pf_last_export :: "instant option"
  pf_pending_email :: "string option"
  pf_locale :: "string option"
  pf_stripe :: "string option"

record client_row =
  cn_session :: ident
  cn_ip :: "string option"
  cn_country :: "string option"
  cn_agent :: "string option"

record credential_row =
  cd_id :: ident
  cd_user :: ident
  cd_provider :: string
  cd_password :: "string option"

record passkey_row =
  pk_id :: ident
  pk_user :: ident

record joined_row = membership_row +
  mb_joined :: instant

record invitation_row =
  iv_id :: ident
  iv_org :: ident
  iv_email :: string
  iv_role :: "string option"
  iv_status :: string
  iv_created :: instant
  iv_inviter :: ident

record token_row =
  tk_id :: ident
  tk_user :: ident
  tk_org :: "ident option"
  tk_name :: string
  tk_scopes :: "string list"
  tk_hmac :: string
  tk_pepper :: int
  tk_start :: string
  tk_used :: "instant option"
  tk_expires :: "instant option"
  tk_revoked :: "instant option"
  tk_reason :: "string option"
  tk_created :: instant

record note_row =
  nt_id :: ident
  nt_user :: "ident option"
  nt_org :: "ident option"
  nt_body :: string

record view_row =
  vw_id :: ident
  vw_owner :: ident

record account_world = step_up_world +
  ac_profiles :: "profile_row list"
  ac_clients :: "client_row list"
  ac_credentials :: "credential_row list"
  ac_passkeys :: "passkey_row list"
  ac_members :: "joined_row list"
  ac_orgs :: "organization_row list"
  ac_invitations :: "invitation_row list"
  ac_tokens :: "token_row list"
  ac_notes :: "note_row list"
  ac_views :: "view_row list"
  ac_mail :: "email_row list"

definition account_tables_ok :: "account_world \<Rightarrow> bool" where
  "account_tables_ok w \<longleftrightarrow>
     keyed us_id (st_users (aw_staff w)) \<and> keyed se_id (st_sessions (aw_staff w)) \<and> keyed og_id (ac_orgs w)
   \<and> map pf_id (ac_profiles w) = map us_id (st_users (aw_staff w))
   \<and> (\<forall>m \<in> set (ac_members w). mb_org m \<in> og_id ` set (ac_orgs w))"

section \<open>Organizations of one's own\<close>

definition PERSONAL_ORG_SLUG_PREFIX :: string where "PERSONAL_ORG_SLUG_PREFIX = ''personal-''"
definition PERSONAL_ORG_SLUG_LIKE_PATTERN :: string where
  "PERSONAL_ORG_SLUG_LIKE_PATTERN = PERSONAL_ORG_SLUG_PREFIX @ ''%''"

definition personal_slug :: "string \<Rightarrow> bool" where
  "personal_slug slug = sql_like PERSONAL_ORG_SLUG_LIKE_PATTERN slug"

definition members_of :: "ident \<Rightarrow> 'a membership_row_scheme list \<Rightarrow> nat" where
  "members_of org t = length (filter (\<lambda>m. mb_org m = org) t)"

definition owners_of :: "ident \<Rightarrow> 'a membership_row_scheme list \<Rightarrow> nat" where
  "owners_of org t = length (filter (\<lambda>m. mb_org m = org \<and> mb_role m = ''owner'') t)"

record sole_owned =
  sw_org :: ident
  sw_name :: string
  sw_others :: nat

definition sole_owned_with_members :: "ident \<Rightarrow> account_world \<Rightarrow> sole_owned list" where
  "sole_owned_with_members user w =
     concat (map (\<lambda>m. case row_of og_id (mb_org m) (ac_orgs w) of
         None \<Rightarrow> []
       | Some o' \<Rightarrow>
           if \<not> personal_slug (og_slug o') \<and> owners_of (og_id o') (ac_members w) = 1 \<and> 1 < members_of (og_id o') (ac_members w)
           then [\<lparr>sw_org = og_id o', sw_name = og_name o', sw_others = members_of (og_id o') (ac_members w) - 1\<rparr>]
           else [])
       (filter (\<lambda>m. mb_user m = user \<and> mb_role m = ''owner'') (ac_members w)))"

section \<open>One user's row\<close>

record deletion_state =
  ds_email :: string
  ds_name :: string
  ds_locale :: "string option"
  ds_two_factor :: bool
  ds_pending :: "instant option"
  ds_deleted :: "instant option"
  ds_last_export :: "instant option"

definition get_deletion_state :: "ident \<Rightarrow> account_world \<Rightarrow> deletion_state option" where
  "get_deletion_state user w =
     (case (row_of us_id user (st_users (aw_staff w)), row_of pf_id user (ac_profiles w)) of
        (Some u, Some p) \<Rightarrow> Some
          \<lparr>ds_email = pf_email p, ds_name = pf_name p,
           ds_locale = (case pf_locale p of None \<Rightarrow> None | Some l \<Rightarrow> if is_locale l then Some l else None),
           ds_two_factor = (pf_two_factor p = Some True), ds_pending = us_pending_deletion u, ds_deleted = us_deleted u,
           ds_last_export = pf_last_export p\<rparr>
      | _ \<Rightarrow> None)"

text \<open>\<open>UPDATE "user"\<close>, which also sets \<open>updated_at\<close>.\<close>

definition update_user ::
  "instant \<Rightarrow> (user_row \<Rightarrow> bool) \<Rightarrow> (user_row \<Rightarrow> user_row) \<Rightarrow> (profile_row \<Rightarrow> profile_row) \<Rightarrow> account_world \<Rightarrow> account_world" where
  "update_user date hit f g w =
     (let ids = map us_id (filter hit (st_users (aw_staff w)))
      in w\<lparr>aw_staff := (aw_staff w)\<lparr>st_users := sql_update hit f (st_users (aw_staff w))\<rparr>,
           ac_profiles := sql_update (\<lambda>p. pf_id p \<in> set ids) (\<lambda>p. (g p)\<lparr>pf_updated := date\<rparr>) (ac_profiles w)\<rparr>)"

definition mark_pending_deletion :: "instant \<Rightarrow> ident \<Rightarrow> instant \<Rightarrow> account_world \<Rightarrow> account_world" where
  "mark_pending_deletion date user until =
     update_user date (\<lambda>u. us_id u = user) (\<lambda>u. u\<lparr>us_pending_deletion := Some until\<rparr>) id"

definition clear_pending_deletion :: "instant \<Rightarrow> ident \<Rightarrow> account_world \<Rightarrow> account_world" where
  "clear_pending_deletion date user =
     update_user date (\<lambda>u. us_id u = user) (\<lambda>u. u\<lparr>us_pending_deletion := None\<rparr>) id"

definition touch_export_requested :: "instant \<Rightarrow> ident \<Rightarrow> account_world \<Rightarrow> account_world" where
  "touch_export_requested date user =
     update_user date (\<lambda>u. us_id u = user) id (\<lambda>p. p\<lparr>pf_last_export := Some date\<rparr>)"

text \<open>The query states no order; the order of the table is taken.\<close>

definition users_ready_for_wipe :: "instant \<Rightarrow> nat \<Rightarrow> account_world \<Rightarrow> ident list" where
  "users_ready_for_wipe date limit w =
     map us_id (take limit (filter (\<lambda>u. (case us_pending_deletion u of None \<Rightarrow> False | Some t \<Rightarrow> t \<le> date) \<and> us_deleted u = None)
       (st_users (aw_staff w))))"

text \<open>\<open>verify\<close> is the check of a hash; what it throws is \<open>None\<close>.\<close>

definition verify_password :: "(string \<Rightarrow> string \<Rightarrow> bool option) \<Rightarrow> ident \<Rightarrow> string \<Rightarrow> account_world \<Rightarrow> bool option" where
  "verify_password verify user password w =
     (case List.find (\<lambda>c. cd_user c = user \<and> cd_provider c = ''credential'') (ac_credentials w) of
        None \<Rightarrow> Some False
      | Some c \<Rightarrow> (case cd_password c of None \<Rightarrow> Some False | Some hash \<Rightarrow> if hash = [] then Some False else verify hash password))"

section \<open>The wipe\<close>

definition ANONYMIZED_DOMAIN :: string where "ANONYMIZED_DOMAIN = ''anonymized.local''"
definition ANONYMIZED_NAME :: string where "ANONYMIZED_NAME = ''[deleted]''"

definition anonymized_email :: "ident \<Rightarrow> string" where
  "anonymized_email uuid = ''deleted-'' @ uuid @ ''@'' @ ANONYMIZED_DOMAIN"

definition anonymized_profile :: "ident \<Rightarrow> profile_row \<Rightarrow> profile_row" where
  "anonymized_profile uuid p =
     p\<lparr>pf_email := anonymized_email uuid, pf_name := ANONYMIZED_NAME, pf_image := None, pf_verified := False,
       pf_two_factor := Some False, pf_stripe := None\<rparr>"

record wipe_output =
  wo_orgs :: "ident list"
  wo_email :: string
  wo_already :: bool
  wo_ended :: "ended_impersonation list"
  wo_removed :: "(ident \<times> ident) list"
  wo_tokens :: "(ident \<times> ident option) list"

definition already_wiped :: wipe_output where
  "already_wiped = \<lparr>wo_orgs = [], wo_email = [], wo_already = True, wo_ended = [], wo_removed = [], wo_tokens = []\<rparr>"

text \<open>\<open>DELETE FROM session\<close> with what hangs on a session.\<close>

definition delete_sessions_of :: "ident \<Rightarrow> account_world \<Rightarrow> account_world \<times> session_row list" where
  "delete_sessions_of user w =
     (case delete_sessions_where (\<lambda>s. se_user s = user) (aw_staff w) of
        (db, rows) \<Rightarrow>
          (w\<lparr>aw_staff := db, wu_steps := sql_delete (\<lambda>r. sp_session r \<in> set (map se_id rows)) (wu_steps w),
             ac_clients := sql_delete (\<lambda>r. cn_session r \<in> set (map se_id rows)) (ac_clients w)\<rparr>, rows))"

definition wiped_orgs :: "ident list \<Rightarrow> account_world \<Rightarrow> ident list" where
  "wiped_orgs ids w =
     map og_id (filter (\<lambda>o'. og_id o' \<in> set ids \<and> (personal_slug (og_slug o') \<or> members_of (og_id o') (ac_members w) = 0)) (ac_orgs w))"

text \<open>\<open>DELETE FROM organization\<close> with what hangs on one.\<close>

definition delete_orgs :: "ident list \<Rightarrow> account_world \<Rightarrow> account_world" where
  "delete_orgs ids w =
     w\<lparr>ac_orgs := sql_delete (\<lambda>o'. og_id o' \<in> set ids) (ac_orgs w),
       ac_members := sql_delete (\<lambda>m. mb_org m \<in> set ids) (ac_members w),
       ac_invitations := sql_delete (\<lambda>i. iv_org i \<in> set ids) (ac_invitations w),
       ac_tokens := sql_delete (\<lambda>t. case tk_org t of None \<Rightarrow> False | Some i \<Rightarrow> i \<in> set ids) (ac_tokens w),
       ac_notes := sql_delete (\<lambda>n. case nt_org n of None \<Rightarrow> False | Some i \<Rightarrow> i \<in> set ids) (ac_notes w)\<rparr>"

definition live_token_of :: "ident \<Rightarrow> token_row \<Rightarrow> bool" where
  "live_token_of user t \<longleftrightarrow> tk_user t = user \<and> tk_revoked t = None"

text \<open>What the statements after the update of the row delete, up to the organizations.\<close>

definition erase_belongings :: "instant \<Rightarrow> ident \<Rightarrow> account_world \<Rightarrow> account_world" where
  "erase_belongings date user w =
     w\<lparr>ac_notes := sql_delete (\<lambda>n. nt_user n = Some user) (ac_notes w),
       ac_views := sql_delete (\<lambda>v. vw_owner v = user) (ac_views w),
       ac_credentials := sql_delete (\<lambda>c. cd_user c = user) (ac_credentials w),
       wu_two_factor := sql_delete (\<lambda>t. tf_user t = user) (wu_two_factor w),
       ac_passkeys := sql_delete (\<lambda>p. pk_user p = user) (ac_passkeys w),
       ac_members := sql_delete (\<lambda>m. mb_user m = user) (ac_members w),
       ac_invitations := sql_delete (\<lambda>i. iv_inviter i = user) (ac_invitations w),
       ac_tokens := sql_update (live_token_of user) (\<lambda>t. t\<lparr>tk_revoked := Some date, tk_reason := Some ''user''\<rparr>) (ac_tokens w)\<rparr>"

definition wipe_hit :: "ident \<Rightarrow> user_row \<Rightarrow> bool" where
  "wipe_hit user u \<longleftrightarrow> us_id u = user \<and> us_deleted u = None"

definition execute_wipe ::
  "string option \<Rightarrow> instant \<Rightarrow> ident \<Rightarrow> ident \<Rightarrow> account_world \<Rightarrow> account_world \<times> (wipe_output, string) result" where
  "execute_wipe err date uuid user w =
     (if err \<noteq> None then (w, fail ''RGPD_REPOSITORY_PROVIDER_FAILURE'')
      else if \<not> list_ex (wipe_hit user) (st_users (aw_staff w)) then (w, ok already_wiped)
      else case delete_sessions_of user
             (update_user date (wipe_hit user) (\<lambda>u. u\<lparr>us_pending_deletion := None, us_deleted := Some date\<rparr>) (anonymized_profile uuid) w) of
        (w1, ended) \<Rightarrow>
          let members = filter (\<lambda>m. mb_user m = user) (ac_members w1);
              tokens = filter (live_token_of user) (ac_tokens w1);
              w2 = erase_belongings date user w1;
              orgs = (if members = [] then [] else wiped_orgs (map mb_org members) w2)
          in (delete_orgs orgs w2, ok
               \<lparr>wo_orgs = orgs, wo_email = anonymized_email uuid, wo_already = False, wo_ended = ended_impersonations_of ended,
                wo_removed = map (\<lambda>m. (mb_id m, mb_org m)) (filter (\<lambda>m. mb_org m \<notin> set orgs) members),
                wo_tokens = map (\<lambda>t. (tk_id t, tk_org t)) tokens\<rparr>))"

section \<open>The export\<close>

record export_user =
  eu_id :: ident
  eu_name :: string
  eu_email :: string
  eu_verified :: bool
  eu_image :: "string option"
  eu_created :: instant
  eu_updated :: instant
  eu_two_factor :: "bool option"

record export_session =
  xs_id :: ident
  xs_created :: instant
  xs_expires :: instant
  xs_ip :: "string option"
  xs_country :: "string option"
  xs_agent :: "string option"

record export_membership =
  xm_org :: ident
  xm_name :: string
  xm_slug :: string
  xm_role :: string
  xm_joined :: instant

record export_invitation =
  xi_id :: ident
  xi_org :: ident
  xi_email :: string
  xi_role :: "string option"
  xi_status :: string
  xi_created :: instant

record export_payload =
  ex_at :: instant
  ex_user :: export_user
  ex_sessions :: "export_session list"
  ex_memberships :: "export_membership list"
  ex_invitations :: "export_invitation list"

definition export_user_of :: "profile_row \<Rightarrow> export_user" where
  "export_user_of p =
     \<lparr>eu_id = pf_id p, eu_name = pf_name p, eu_email = pf_email p, eu_verified = pf_verified p, eu_image = pf_image p,
      eu_created = pf_created p, eu_updated = pf_updated p, eu_two_factor = pf_two_factor p\<rparr>"

definition export_session_of :: "client_row list \<Rightarrow> session_row \<Rightarrow> export_session" where
  "export_session_of clients s =
     (let column = (\<lambda>f. case row_of cn_session (se_id s) clients of None \<Rightarrow> None | Some c \<Rightarrow> f c)
      in \<lparr>xs_id = se_id s, xs_created = se_created s, xs_expires = se_expires s, xs_ip = column cn_ip,
          xs_country = column cn_country, xs_agent = column cn_agent\<rparr>)"

definition export_invitation_of :: "invitation_row \<Rightarrow> export_invitation" where
  "export_invitation_of i =
     \<lparr>xi_id = iv_id i, xi_org = iv_org i, xi_email = iv_email i, xi_role = iv_role i, xi_status = iv_status i,
      xi_created = iv_created i\<rparr>"

definition collect_export :: "instant \<Rightarrow> ident \<Rightarrow> account_world \<Rightarrow> export_payload option" where
  "collect_export date user w =
     (case row_of pf_id user (ac_profiles w) of
        None \<Rightarrow> None
      | Some p \<Rightarrow> Some
          \<lparr>ex_at = date, ex_user = export_user_of p,
           ex_sessions = map (export_session_of (ac_clients w)) (filter (\<lambda>s. se_user s = user) (st_sessions (aw_staff w))),
           ex_memberships = concat (map (\<lambda>m. case row_of og_id (mb_org m) (ac_orgs w) of
               None \<Rightarrow> []
             | Some o' \<Rightarrow> [\<lparr>xm_org = og_id o', xm_name = og_name o', xm_slug = og_slug o', xm_role = mb_role m, xm_joined = mb_joined m\<rparr>])
             (filter (\<lambda>m. mb_user m = user) (ac_members w))),
           ex_invitations = map export_invitation_of (filter (\<lambda>i. iv_inviter i = user) (ac_invitations w))\<rparr>)"

end
