(* ===== verification/Account_Service.thy ===== *)
theory Account_Service
  imports Account_Store Staff_Correct Canonical_Json Sweep
begin

text \<open>
  Deleting and exporting an account: \<open>modules/rgpd/application/services/rgpd.service.ts\<close>, its settings
  and errors.

  Checking a hash, rendering a template, signing a download and the object store are parameters. Between
  the read with which a method starts and its transaction other transactions commit: \<open>between\<close> is what
  they make of the world.
\<close>

section \<open>Environment and errors\<close>

record account_env =
  gc_steps :: step_up_env
  gc_verify :: "string \<Rightarrow> string \<Rightarrow> bool option"
  gc_render :: "string \<Rightarrow> json \<Rightarrow> string \<Rightarrow> string option"
  gc_mail_id :: ident
  gc_key :: ident
  gc_upload_error :: "string option"
  gc_presign :: "string \<Rightarrow> int \<Rightarrow> (string \<times> instant, string) result"
  gc_list :: "string \<Rightarrow> (string list, string) result throws"
  gc_delete :: "string list \<Rightarrow> (unit, string) result throws"
  gc_app_url :: string
  gc_grace_days :: int
  gc_export_hours :: int
  gc_deadline_ms :: int

abbreviation gc_call :: "account_env \<Rightarrow> call_env" where
  "gc_call env \<equiv> ue_call (gc_steps env)"

abbreviation gc_date :: "account_env \<Rightarrow> instant" where
  "gc_date env \<equiv> x_date (gc_call env)"

datatype account_error =
    DeletionBlocked "sole_owned list" | DeletionLastManager | DeletionNotFound | ExportRateLimited
  | PasswordInvalid | PasswordRequired | WipeNotifyFailed | WipeFailed | StaffProviderFailed
  | AccountStoreFailed | TotpProviderFailed | TwoFactorRequired | TwoFactorInvalid | StorageFailed string

type_synonym 'a account_tx = "(account_world, account_error, 'a) tx"

definition EXPORT_DOWNLOAD_TTL_SECONDS :: int where "EXPORT_DOWNLOAD_TTL_SECONDS = 7 * 24 * 60 * 60"
definition DEFAULT_LOCALE :: string where "DEFAULT_LOCALE = ''en''"

section \<open>What the methods share\<close>

text \<open>A statement of the repository that only writes.\<close>

definition account_write :: "string option \<Rightarrow> (account_world \<Rightarrow> account_world) \<Rightarrow> unit account_tx" where
  "account_write err f w = (if err \<noteq> None then refuse AccountStoreFailed w else give () (f w))"

definition account_wipe_call :: "account_env \<Rightarrow> ident \<Rightarrow> wipe_output account_tx" where
  "account_wipe_call env user w =
     (case execute_wipe (x_error (gc_call env) ''executeWipe'') (gc_date env) (x_fresh (gc_call env)) user w of
        (w', Inl e) \<Rightarrow> refuse AccountStoreFailed w | (w', Inr out) \<Rightarrow> give out w')"

definition emit_scoped :: "call_env \<Rightarrow> string option \<Rightarrow> string \<Rightarrow> string \<Rightarrow> ident \<Rightarrow> json \<Rightarrow> ('w staff_world_scheme, 'e, unit) tx" where
  "emit_scoped x org event kind agg body w =
     (case emit_event (x_schema x) (x_emit x (length (outbox_rows (aw_outbox w)))) event kind agg body
             (no_options\<lparr>op_organization := org\<rparr>) (aw_outbox w) of
        Inl e \<Rightarrow> Inl (Threw e)
      | Inr (ob, _) \<Rightarrow> Inr ((), w\<lparr>aw_outbox := ob\<rparr>))"

text \<open>\<open>sendTemplate\<close>: throws when the template does.\<close>

definition send_template ::
  "account_env \<Rightarrow> string \<Rightarrow> string \<Rightarrow> json \<Rightarrow> string option \<Rightarrow> string option \<Rightarrow> account_world \<Rightarrow> account_world \<times> (unit, string) result throws" where
  "send_template env template to vars key locale w =
     (let l = (case locale of None \<Rightarrow> DEFAULT_LOCALE | Some l \<Rightarrow> l)
      in case gc_render env template vars l of
           None \<Rightarrow> (w, Inl ''render failed'')
         | Some subject \<Rightarrow>
             (case service_enqueue (x_error (gc_call env) ''enqueue'') (gc_date env) (\<lambda>_. gc_mail_id env)
                [\<lparr>ei_kind = TemplateMail, ei_template = Some template, ei_to = to, ei_subject = subject, ei_locale = l,
                  ei_payload = vars, ei_idempotency = batch_row_key key 0\<rparr>] (ac_mail w) of
              (t, r) \<Rightarrow> (w\<lparr>ac_mail := t\<rparr>, Inr r)))"

definition load_deletion_state :: "account_env \<Rightarrow> ident \<Rightarrow> account_world \<Rightarrow> (deletion_state, account_error) result" where
  "load_deletion_state env user w =
     (if x_error (gc_call env) ''getUserDeletionState'' \<noteq> None then fail AccountStoreFailed
      else case get_deletion_state user w of None \<Rightarrow> fail DeletionNotFound | Some s \<Rightarrow> ok s)"

definition blocking_orgs :: "account_env \<Rightarrow> ident \<Rightarrow> account_world \<Rightarrow> (sole_owned list, account_error) result" where
  "blocking_orgs env user w =
     (if x_error (gc_call env) ''findSoleOwnedNonPersonalOrgsWithMembers'' \<noteq> None then fail AccountStoreFailed
      else ok (sole_owned_with_members user w))"

definition preflight_account_deletion :: "account_env \<Rightarrow> ident \<Rightarrow> account_world \<Rightarrow> (sole_owned list, account_error) result" where
  "preflight_account_deletion env user w = blocking_orgs env user w"

section \<open>Asking for a deletion\<close>

record deletion_request =
  dq_user :: ident
  dq_code :: "string option"
  dq_password :: "string option"

text \<open>Confirming who asks, on its own before the transaction; a code that is accepted is used up.\<close>

definition given :: "string option \<Rightarrow> string option" where
  "given s = (if s = Some [] then None else s)"

definition confirm_asker ::
  "account_env \<Rightarrow> deletion_request \<Rightarrow> deletion_state \<Rightarrow> account_world \<Rightarrow> account_world \<times> (unit, account_error) result" where
  "confirm_asker env q s w =
     (if ds_two_factor s
      then case given (dq_code q) of
             None \<Rightarrow> (w, fail TwoFactorRequired)
           | Some code \<Rightarrow>
               (case totp_consume (gc_steps env) (dq_user q) code w of
                  Inl _ \<Rightarrow> (w, fail TotpProviderFailed)
                | Inr (outcome, w') \<Rightarrow> (w', if outcome \<noteq> Accepted then fail TwoFactorInvalid else ok ()))
      else case given (dq_password q) of
             None \<Rightarrow> (w, fail PasswordRequired)
           | Some password \<Rightarrow> (w,
               if x_error (gc_call env) ''verifyPassword'' \<noteq> None then fail AccountStoreFailed
               else case verify_password (gc_verify env) (dq_user q) password w of
                      None \<Rightarrow> fail AccountStoreFailed
                    | Some valid \<Rightarrow> if valid then ok () else fail PasswordInvalid))"

definition refused_last_manager :: "account_env \<Rightarrow> ident \<Rightarrow> unit account_tx" where
  "refused_last_manager env user =
     (if is_listed (gc_call env) user then give ()
      else after (store_read (\<lambda>_. StaffProviderFailed) (x_error (gc_call env) ''findActive'') [] (find_active (gc_date env) user)) (\<lambda>found.
        if \<not> (case granting (x_staff_env (gc_call env)) found of None \<Rightarrow> False | Some r \<Rightarrow> sr_role r = Manager) then give ()
        else after (store_read (\<lambda>_. StaffProviderFailed) (x_error (gc_call env) ''lockActiveManagers'') [] (active_managers (gc_date env))) (\<lambda>managers.
          if \<not> is_last_manager user managers (x_staff_env (gc_call env)) then give () else refuse DeletionLastManager)))"

definition request_deletion_tx :: "account_env \<Rightarrow> ident \<Rightarrow> instant \<Rightarrow> unit account_tx" where
  "request_deletion_tx env user until =
     after (refused_last_manager env user) (\<lambda>_.
     after (account_write (x_error (gc_call env) ''markPendingDeletion'') (mark_pending_deletion (gc_date env) user until)) (\<lambda>_.
       emit (gc_call env) ''user.deletion.requested'' ''user'' user
         (JObj [(''userId'', JStr user), (''pendingDeletionUntil'', JStr (x_iso (gc_call env) until))])))"

definition deletion_due :: "account_env \<Rightarrow> instant" where
  "deletion_due env = gc_date env + gc_grace_days env * 24 * 60 * 60 * 1000"

definition request_account_deletion ::
  "account_env \<Rightarrow> deletion_request \<Rightarrow> (account_world \<Rightarrow> account_world) \<Rightarrow> account_world \<Rightarrow>
   account_world \<times> (instant, account_error) result throws" where
  "request_account_deletion env q between w =
     (case load_deletion_state env (dq_user q) w of
        Inl e \<Rightarrow> (w, Inr (fail e))
      | Inr s \<Rightarrow>
          (case ds_pending s of
             Some until \<Rightarrow> (w, Inr (ok until))
           | None \<Rightarrow>
               (case blocking_orgs env (dq_user q) w of
                  Inl e \<Rightarrow> (w, Inr (fail e))
                | Inr blocking \<Rightarrow>
                    if blocking \<noteq> [] then (w, Inr (fail (DeletionBlocked blocking)))
                    else case confirm_asker env q s w of
                      (w1, Inl e) \<Rightarrow> (w1, Inr (fail e))
                    | (w1, Inr _) \<Rightarrow>
                        (let until = deletion_due env
                         in case run_tx (x_commit_error (gc_call env)) (request_deletion_tx env (dq_user q) until) (between w1) of
                              (w2, Inl e) \<Rightarrow> (w2, Inl e)
                            | (w2, Inr (Inl e)) \<Rightarrow> (w2, Inr (fail e))
                            | (w2, Inr (Inr _)) \<Rightarrow>
                                (case send_template env ''delete_requested'' (ds_email s)
                                   (JObj [(''name'', JStr (ds_name s)), (''cancelUrl'', JStr (gc_app_url env @ ''/settings/account'')),
                                          (''expiresAt'', JStr (x_iso (gc_call env) until))])
                                   (Some (''delete-requested/'' @ dq_user q @ ''/'' @ show_int until)) (ds_locale s) w2 of
                                   (w3, Inl e) \<Rightarrow> (w3, Inl e)
                                 | (w3, Inr _) \<Rightarrow> (w3, Inr (ok until)))))))"

section \<open>Changing one's mind\<close>

definition cancel_deletion_tx :: "account_env \<Rightarrow> ident \<Rightarrow> unit account_tx" where
  "cancel_deletion_tx env user =
     after (account_write (x_error (gc_call env) ''clearPendingDeletion'') (clear_pending_deletion (gc_date env) user)) (\<lambda>_.
       emit (gc_call env) ''user.deletion.cancelled'' ''user'' user (JObj [(''userId'', JStr user)]))"

definition cancel_account_deletion ::
  "account_env \<Rightarrow> ident \<Rightarrow> (account_world \<Rightarrow> account_world) \<Rightarrow> account_world \<Rightarrow> account_world \<times> (unit, account_error) result throws" where
  "cancel_account_deletion env user between w =
     (case load_deletion_state env user w of
        Inl e \<Rightarrow> (w, Inr (fail e))
      | Inr s \<Rightarrow>
          if ds_deleted s \<noteq> None then (w, Inr (fail DeletionNotFound))
          else case ds_pending s of
            None \<Rightarrow> (w, Inr (fail DeletionNotFound))
          | Some until \<Rightarrow>
              (case run_tx (x_commit_error (gc_call env)) (cancel_deletion_tx env user) (between w) of
                 (w1, Inl e) \<Rightarrow> (w1, Inl e)
               | (w1, Inr (Inl e)) \<Rightarrow> (w1, Inr (fail e))
               | (w1, Inr (Inr _)) \<Rightarrow>
                   (case send_template env ''delete_cancelled'' (ds_email s) (JObj [(''name'', JStr (ds_name s))])
                      (Some (''delete-cancelled/'' @ user @ ''/'' @ show_int until)) (ds_locale s) w1 of
                      (w2, Inl e) \<Rightarrow> (w2, Inl e)
                    | (w2, Inr _) \<Rightarrow> (w2, Inr (ok ())))))"

section \<open>Wiping an account\<close>

definition revoke_staff_access :: "account_env \<Rightarrow> ident \<Rightarrow> unit account_tx" where
  "revoke_staff_access env user =
     after (store_read (\<lambda>_. StaffProviderFailed) (x_error (gc_call env) ''findActive'') [] (find_active (gc_date env) user)) (\<lambda>found.
       case found of
         None \<Rightarrow> give ()
       | Some r \<Rightarrow>
           after (store_call (\<lambda>_. StaffProviderFailed) (staff_revoke (x_error (gc_call env) ''revoke'') (gc_date env) user)) (\<lambda>ended.
           after (announce_impersonations_ended (gc_call env) ''revoked'' ended) (\<lambda>_.
             emit (gc_call env) ''admin.staff.revoked'' ''user'' user
               (JObj [(''actorUserId'', JStr user), (''userId'', JStr user), (''role'', role_json (sr_role r))]))))"

definition announce_wipe :: "account_env \<Rightarrow> ident \<Rightarrow> wipe_output \<Rightarrow> unit account_tx" where
  "announce_wipe env user out =
     (let x = gc_call env
      in after (emit x ''user.deleted'' ''user'' user
             (JObj [(''userId'', JStr user), (''deletedAt'', JStr (x_iso (gc_call env) (gc_date env)))])) (\<lambda>_.
         after (each (\<lambda>org. emit_scoped x (Some org) ''org.deleted'' ''organization'' org
             (JObj [(''organizationId'', JStr org), (''actorUserId'', JStr user)])) (wo_orgs out)) (\<lambda>_.
         after (each (\<lambda>(m, org). emit_scoped x (Some org) ''org.member.removed'' ''member'' m
             (JObj [(''organizationId'', JStr org), (''actorUserId'', JStr user), (''userId'', JStr user)])) (wo_removed out)) (\<lambda>_.
           each (\<lambda>(t, org). emit_scoped x org ''api_token.revoked'' ''api_token'' t
             (JObj [(''userId'', JStr user), (''actorUserId'', JStr user), (''organizationId'', JOpt org), (''tokenId'', JStr t),
                    (''reason'', JStr ''user'')])) (wo_tokens out)))))"

definition notify_wiped :: "account_env \<Rightarrow> ident \<Rightarrow> deletion_state \<Rightarrow> unit account_tx" where
  "notify_wiped env user s w =
     (case send_template env ''delete_completed'' (ds_email s) (JObj [(''name'', JStr (ds_name s))]) (Some (''delete-completed/'' @ user))
        (ds_locale s) w of
        (w', Inl e) \<Rightarrow> Inl (Threw e)
      | (w', Inr (Inl _)) \<Rightarrow> refuse WipeNotifyFailed w
      | (w', Inr (Inr _)) \<Rightarrow> give () w')"

definition wipe_tx :: "account_env \<Rightarrow> ident \<Rightarrow> deletion_state \<Rightarrow> wipe_output account_tx" where
  "wipe_tx env user s =
     after (account_wipe_call env user) (\<lambda>out.
       if wo_already out then give out
       else after (announce_impersonations_ended (gc_call env) ''revoked'' (wo_ended out)) (\<lambda>_.
            after (revoke_staff_access env user) (\<lambda>_.
            after (announce_wipe env user out) (\<lambda>_.
            after (notify_wiped env user s) (\<lambda>_. give out)))))"

text \<open>\<open>purgeUserObjects\<close>: how many keys the listing had; a deletion that fails is only logged.\<close>

definition purge_user_objects :: "account_env \<Rightarrow> ident \<Rightarrow> nat throws" where
  "purge_user_objects env user =
     (case gc_list env (user @ ''/'') of
        Inl e \<Rightarrow> Inl e
      | Inr (Inl _) \<Rightarrow> Inr 0
      | Inr (Inr keys) \<Rightarrow> (case gc_delete env keys of Inl e \<Rightarrow> Inl e | Inr _ \<Rightarrow> Inr (length keys)))"

definition wipe_failure :: "account_error throws \<Rightarrow> account_error" where
  "wipe_failure e = (case e of Inr WipeNotifyFailed \<Rightarrow> WipeNotifyFailed | _ \<Rightarrow> WipeFailed)"

definition execute_account_wipe ::
  "account_env \<Rightarrow> ident \<Rightarrow> (account_world \<Rightarrow> account_world) \<Rightarrow> account_world \<Rightarrow>
   account_world \<times> (ident list \<times> nat, account_error) result throws" where
  "execute_account_wipe env user between w =
     (case load_deletion_state env user w of
        Inl e \<Rightarrow> (w, Inr (fail e))
      | Inr s \<Rightarrow>
          if ds_deleted s \<noteq> None then (w, Inr (ok ([], 0)))
          else if (case ds_pending s of None \<Rightarrow> True | Some t \<Rightarrow> gc_date env < t) then (w, Inr (fail DeletionNotFound))
          else case run_tx (x_commit_error (gc_call env)) (wipe_tx env user s) (between w) of
                 (w', Inl e) \<Rightarrow> (w', Inr (fail (wipe_failure (Inl e))))
               | (w', Inr (Inl e)) \<Rightarrow> (w', Inr (fail (wipe_failure (Inr e))))
               | (w', Inr (Inr out)) \<Rightarrow>
                   (w', case purge_user_objects env user of Inl e \<Rightarrow> Inl e | Inr n \<Rightarrow> Inr (ok (wo_orgs out, n))))"

section \<open>The sweep\<close>

text \<open>\<open>wipe\<close> wipes one account; \<open>clock i\<close> is the \<open>i\<close>-th reading of the clock.\<close>

datatype 'e sweep_failure = FailedWith 'e | WipeUncaught

fun wipe_each ::
  "(nat \<Rightarrow> instant) \<Rightarrow> instant \<Rightarrow> (nat \<Rightarrow> ident \<Rightarrow> 'w \<Rightarrow> 'w \<times> ('r, 'e) result throws) \<Rightarrow> nat \<Rightarrow> ident list \<Rightarrow>
   ident list \<times> (ident \<times> 'e sweep_failure) list \<Rightarrow> 'w \<Rightarrow> 'w \<times> (ident list \<times> (ident \<times> 'e sweep_failure) list) \<times> bool" where
  "wipe_each clock deadline wipe i [] acc w = (w, acc, False)"
| "wipe_each clock deadline wipe i (user # rest) acc w =
     (if deadline \<le> clock i then (w, acc, True)
      else case wipe i user w of
        (w', Inl _) \<Rightarrow> wipe_each clock deadline wipe (Suc i) rest (fst acc, snd acc @ [(user, WipeUncaught)]) w'
      | (w', Inr (Inl e)) \<Rightarrow> wipe_each clock deadline wipe (Suc i) rest (fst acc, snd acc @ [(user, FailedWith e)]) w'
      | (w', Inr (Inr _)) \<Rightarrow> wipe_each clock deadline wipe (Suc i) rest (fst acc @ [user], snd acc) w')"

record deletion_sweep =
  dz_processed :: nat
  dz_succeeded :: "ident list"
  dz_failed :: "(ident \<times> account_error sweep_failure) list"
  dz_dry_run :: bool
  dz_truncated :: bool

record deletion_sweep_input =
  di_batch :: "nat option"
  di_dry_run :: "bool option"
  di_deadline_ms :: "int option"

definition process_pending_deletions ::
  "account_env \<Rightarrow> (nat \<Rightarrow> account_env) \<Rightarrow> (nat \<Rightarrow> account_world \<Rightarrow> account_world) \<Rightarrow> (nat \<Rightarrow> instant) \<Rightarrow> deletion_sweep_input \<Rightarrow>
   account_world \<Rightarrow> account_world \<times> (deletion_sweep, account_error) result" where
  "process_pending_deletions env env_of between clock input w =
     (if x_error (gc_call env) ''findUsersReadyForWipe'' \<noteq> None then (w, fail AccountStoreFailed)
      else let batch = users_ready_for_wipe (gc_date env) (case di_batch input of None \<Rightarrow> 50 | Some n \<Rightarrow> n) w
      in if di_dry_run input = Some True
         then (w, ok \<lparr>dz_processed = length batch, dz_succeeded = batch, dz_failed = [], dz_dry_run = True, dz_truncated = False\<rparr>)
         else let deadline = clock 0 + (case di_deadline_ms input of None \<Rightarrow> gc_deadline_ms env | Some ms \<Rightarrow> ms)
              in case wipe_each clock deadline (\<lambda>i user. execute_account_wipe (env_of i) user (between i)) 1 batch ([], []) w of
                   (w', (succeeded, failed), truncated) \<Rightarrow>
                     (w', ok \<lparr>dz_processed = length succeeded + length failed, dz_succeeded = succeeded, dz_failed = failed,
                              dz_dry_run = False, dz_truncated = truncated\<rparr>))"

definition beat_of_deletions :: "deletion_sweep \<Rightarrow> (sweep_outcome \<times> nat) option" where
  "beat_of_deletions out =
     (if dz_dry_run out then None
      else let n = length (dz_succeeded out)
           in if dz_failed out \<noteq> [] then Some (OutcomeBatchError, n)
              else Some (if dz_truncated out then OutcomeTruncated else OutcomeOk, n))"

section \<open>The export\<close>

definition next_export_at :: "account_env \<Rightarrow> deletion_state \<Rightarrow> instant" where
  "next_export_at env s = (case ds_last_export s of None \<Rightarrow> 0 | Some t \<Rightarrow> t + gc_export_hours env * 60 * 60 * 1000)"

definition export_tx :: "account_env \<Rightarrow> ident \<Rightarrow> string \<Rightarrow> instant \<Rightarrow> unit account_tx" where
  "export_tx env user key expires =
     after (account_write (x_error (gc_call env) ''touchExportRequestedAt'') (touch_export_requested (gc_date env) user)) (\<lambda>_.
     after (emit (gc_call env) ''user.export.requested'' ''user'' user (JObj [(''userId'', JStr user)])) (\<lambda>_.
       emit (gc_call env) ''user.export.completed'' ''user'' user
         (JObj [(''userId'', JStr user), (''storageKey'', JStr key), (''expiresAt'', JStr (x_iso (gc_call env) expires))])))"

definition request_data_export ::
  "account_env \<Rightarrow> ident \<Rightarrow> (account_world \<Rightarrow> account_world) \<Rightarrow> account_world \<Rightarrow>
   account_world \<times> (instant \<times> export_payload, account_error) result throws" where
  "request_data_export env user between w =
     (case load_deletion_state env user w of
        Inl e \<Rightarrow> (w, Inr (fail e))
      | Inr s \<Rightarrow>
          if gc_date env < next_export_at env s then (w, Inr (fail ExportRateLimited))
          else if x_error (gc_call env) ''collectUserDataForExport'' \<noteq> None then (w, Inr (fail AccountStoreFailed))
          else case collect_export (gc_date env) user w of
            None \<Rightarrow> (w, Inr (fail DeletionNotFound))
          | Some exported \<Rightarrow>
              (let key = user @ ''/exports/'' @ gc_key env @ ''.json''
               in case gc_upload_error env of
                 Some e \<Rightarrow> (w, Inr (fail (StorageFailed e)))
               | None \<Rightarrow>
                   (case gc_presign env key EXPORT_DOWNLOAD_TTL_SECONDS of
                      Inl e \<Rightarrow> (w, Inr (fail (StorageFailed e)))
                    | Inr (url, expires) \<Rightarrow>
                        (case run_tx (x_commit_error (gc_call env)) (export_tx env user key expires) (between w) of
                           (w1, Inl e) \<Rightarrow> (w1, Inl e)
                         | (w1, Inr (Inl e)) \<Rightarrow> (w1, Inr (fail e))
                         | (w1, Inr (Inr _)) \<Rightarrow>
                             (case send_template env ''data_export_ready'' (ds_email s)
                                (JObj [(''name'', JStr (ds_name s)), (''downloadUrl'', JStr url), (''expiresAt'', JStr (x_iso (gc_call env) expires))])
                                (Some (''data-export/'' @ key)) (ds_locale s) w1 of
                                (w2, Inl e) \<Rightarrow> (w2, Inl e)
                              | (w2, Inr _) \<Rightarrow> (w2, Inr (ok (expires, exported))))))))"

end
