(* ===== verification/Account_Example.thy ===== *)
theory Account_Example
  imports Account_Service
begin

text \<open>
  A small world for the examples of the account theories: Ann, whose deletion is due, alone in her own
  organization and in \<open>solo\<close> and a member of \<open>team\<close>, which Bob owns, the only manager.
\<close>

definition plain_user :: "ident \<Rightarrow> instant option \<Rightarrow> user_row" where
  "plain_user i pending = \<lparr>us_id = i, us_role = MirrorPlain, us_banned = False, us_ban_reason = None, us_ban_expires = None,
     us_deleted = None, us_pending_deletion = pending\<rparr>"

definition plain_profile :: "ident \<Rightarrow> string option \<Rightarrow> profile_row" where
  "plain_profile i new_email = \<lparr>pf_id = i, pf_name = i, pf_email = i @ ''@x.org'', pf_verified = True, pf_image = None, pf_created = 0,
     pf_updated = 0, pf_two_factor = None, pf_last_export = None, pf_pending_email = new_email, pf_locale = None, pf_stripe = None\<rparr>"

definition plain_member :: "ident \<Rightarrow> ident \<Rightarrow> ident \<Rightarrow> string \<Rightarrow> joined_row" where
  "plain_member i user org role = \<lparr>mb_id = i, mb_user = user, mb_org = org, mb_role = role, mb_joined = 0\<rparr>"

definition plain_org :: "ident \<Rightarrow> string \<Rightarrow> organization_row" where
  "plain_org i slug = \<lparr>og_id = i, og_name = i, og_slug = slug, og_created = 0, og_sso = False\<rparr>"

definition example_accounts :: account_world where
  "example_accounts =
     \<lparr>aw_staff = \<lparr>st_members =
         [\<lparr>sm_user = ''bob'', sm_role = Manager, sm_source = FromConsole, sm_created_by = None, sm_created = 0, sm_revoked = None\<rparr>],
       st_overrides = [], st_users = [plain_user ''ann'' (Some 5), plain_user ''bob'' None],
       st_sessions = [\<lparr>se_id = ''s1'', se_user = ''ann'', se_impersonated_by = None, se_created = 1, se_expires = 90\<rparr>]\<rparr>,
      aw_outbox = \<lparr>outbox_rows = [], notified = 0\<rparr>, wu_two_factor = [], wu_counters = [], wu_steps = [],
      ac_profiles = [plain_profile ''ann'' (Some ''ann@new.org''), plain_profile ''bob'' None], ac_clients = [],
      ac_credentials = [\<lparr>cd_id = ''c1'', cd_user = ''ann'', cd_provider = ''credential'', cd_password = Some ''h''\<rparr>],
      ac_passkeys = [],
      ac_members = [plain_member ''m1'' ''ann'' ''own'' ''owner'', plain_member ''m2'' ''ann'' ''solo'' ''owner'',
                    plain_member ''m3'' ''ann'' ''team'' ''member'', plain_member ''m4'' ''bob'' ''team'' ''owner''],
      ac_orgs = [plain_org ''own'' ''personal-ann'', plain_org ''solo'' ''solo'', plain_org ''team'' ''team''],
      ac_invitations = [],
      ac_tokens = [\<lparr>tk_id = ''t1'', tk_user = ''ann'', tk_org = None, tk_name = ''token'', tk_scopes = [''read:profile''],
         tk_hmac = ''h1'', tk_pepper = 1, tk_start = ''start'', tk_used = None, tk_expires = None, tk_revoked = None, tk_reason = None, tk_created = 0\<rparr>],
      ac_notes = [], ac_views = [], ac_mail = []\<rparr>"

definition example_account_call :: "instant \<Rightarrow> call_env" where
  "example_account_call date = \<lparr>x_staff_env = \<lparr>PLATFORM_ADMIN_IDS = [], PLATFORM_ADMIN_REQUIRE_MFA = False\<rparr>,
     x_schema = (\<lambda>_. Some (\<lambda>_. None)), x_error = (\<lambda>_. None),
     x_emit = (\<lambda>n. \<lparr>et_db_error = None, et_request = None, et_fresh = replicate n (CHR ''e''), et_date = date\<rparr>),
     x_date = date, x_fresh = ''o1'', x_iso = (\<lambda>_. ''then''), x_commit_error = None\<rparr>"

definition example_account_env :: "instant \<Rightarrow> account_env" where
  "example_account_env date =
     \<lparr>gc_steps = \<lparr>ue_call = example_account_call date, ue_decrypt = Some, ue_hotp = (\<lambda>_ _. None), ue_ttl_seconds = 600\<rparr>,
      gc_verify = (\<lambda>h p. Some (h = p)), gc_render = (\<lambda>_ _ _. Some ''subject''), gc_mail_id = ''mail1'', gc_key = ''k1'',
      gc_upload_error = None, gc_presign = (\<lambda>_ _. Inr (''url'', 99)), gc_list = (\<lambda>_. Inr (Inr [''ann/1''])),
      gc_delete = (\<lambda>_. Inr (Inr ())), gc_app_url = ''app'', gc_grace_days = 7, gc_export_hours = 24, gc_deadline_ms = 1000\<rparr>"

definition after_example_wipe :: account_world where
  "after_example_wipe = fst (execute_account_wipe (example_account_env 10) ''ann'' id example_accounts)"

end
