(* ===== verification/Account_Correct.thy ===== *)
theory Account_Correct
  imports Account_Example
begin

text \<open>
  What the deletion of an account does: what a wipe erases and leaves, that it is whole or nothing, that
  an account is announced as deleted once however the calls interleave, and what the sweep reports.
\<close>

section \<open>Transactions that only emit\<close>

definition only_outbox :: "('w staff_world_scheme, 'e, 'a) tx \<Rightarrow> bool" where
  "only_outbox m \<longleftrightarrow> (\<forall>w y w'. m w = Inr (y, w') \<longrightarrow> (\<exists>ob. w' = w\<lparr>aw_outbox := ob\<rparr>))"

lemma only_outboxD:
  assumes "only_outbox m" and "m w = Inr (y, w')"
  obtains ob where "w' = w\<lparr>aw_outbox := ob\<rparr>"
  using assms unfolding only_outbox_def by blast

named_theorems emitting \<open>transactions that only write the outbox\<close>

lemma only_outbox_emit [emitting]: "only_outbox (emit x event kind agg body)"
  by (auto simp: only_outbox_def emit_def split: sum.splits)

lemma only_outbox_scoped [emitting]: "only_outbox (emit_scoped x org event kind agg body)"
  by (auto simp: only_outbox_def emit_scoped_def split: sum.splits)

lemma outbox_same: "\<exists>ob. w = w\<lparr>aw_outbox := ob\<rparr>"
  by (rule exI [of _ "aw_outbox w"]) simp

lemma only_outbox_give [emitting]: "only_outbox (give y)"
  by (auto simp: only_outbox_def give_def outbox_same)

lemma only_outbox_after [emitting]:
  assumes "only_outbox m" and "\<And>a. only_outbox (f a)"
  shows "only_outbox (after m f)"
  unfolding only_outbox_def
proof (intro allI impI)
  fix w y w' assume "after m f w = Inr (y, w')"
  then obtain a w1 where 1: "m w = Inr (a, w1)" and 2: "f a w1 = Inr (y, w')" by (rule after_InrE)
  obtain ob where "w1 = w\<lparr>aw_outbox := ob\<rparr>" by (rule only_outboxD [OF assms(1) 1])
  moreover obtain ob' where "w' = w1\<lparr>aw_outbox := ob'\<rparr>" by (rule only_outboxD [OF assms(2) 2])
  ultimately have "w' = w\<lparr>aw_outbox := ob'\<rparr>" by simp
  then show "\<exists>ob. w' = w\<lparr>aw_outbox := ob\<rparr>" by blast
qed

lemma only_outbox_each [emitting]: "(\<And>a. only_outbox (f a)) \<Longrightarrow> only_outbox (each f xs)"
  by (induction xs) (auto intro: emitting)

lemma only_outbox_ended [emitting]: "only_outbox (announce_impersonations_ended x reason ended)"
  unfolding announce_impersonations_ended_def by (intro emitting)

lemma only_outbox_announce [emitting]: "only_outbox (announce_wipe env user out)"
  unfolding announce_wipe_def Let_def by (intro emitting only_outbox_after only_outbox_each) (auto intro: emitting split: prod.split)

section \<open>The effect of a wipe\<close>

lemma updated_row:
  assumes "r' \<in> set (sql_update p f t)"
  obtains r where "r \<in> set t" "p r" "r' = f r" | "r' \<in> set t" "\<not> p r'"
  using assms by (auto simp: set_sql_update)

lemma account_wipe_call_Inr:
  "account_wipe_call env user w = Inr (out, w') \<longleftrightarrow>
     execute_wipe (x_error (gc_call env) ''executeWipe'') (gc_date env) (x_fresh (gc_call env)) user w = (w', Inr out)"
  by (auto simp: account_wipe_call_def tx_simps split: prod.splits sum.splits)

definition staff_left :: "instant \<Rightarrow> ident \<Rightarrow> staff_db \<Rightarrow> staff_db" where
  "staff_left date user db = (if find_active date user db = None then db else fst (staff_revoke None date user db))"

lemma revoke_staff_access_effect:
  assumes "revoke_staff_access env user w = Inr (u, w')"
  obtains ob where "w' = w\<lparr>aw_staff := staff_left (gc_date env) user (aw_staff w), aw_outbox := ob\<rparr>"
proof (cases "find_active (gc_date env) user (aw_staff w)")
  case None
  then have "w' = w\<lparr>aw_staff := staff_left (gc_date env) user (aw_staff w), aw_outbox := aw_outbox w\<rparr>"
    using assms by (auto simp: revoke_staff_access_def after_Inr tx_simps staff_left_def)
  then show ?thesis by (rule that)
next
  case (Some r)
  then have "after (store_call (\<lambda>_. StaffProviderFailed) (staff_revoke (x_error (gc_call env) ''revoke'') (gc_date env) user)) (\<lambda>ended.
           after (announce_impersonations_ended (gc_call env) ''revoked'' ended) (\<lambda>_.
             emit (gc_call env) ''admin.staff.revoked'' ''user'' user
               (JObj [(''actorUserId'', JStr user), (''userId'', JStr user), (''role'', role_json (sr_role r))]))) w = Inr (u, w')"
    using assms by (auto simp: revoke_staff_access_def after_Inr tx_simps)
  then obtain ended w1 w2 where c: "store_call (\<lambda>_. StaffProviderFailed) (staff_revoke (x_error (gc_call env) ''revoke'') (gc_date env) user) w = Inr (ended, w1)"
    and a: "(announce_impersonations_ended (gc_call env) ''revoked'' ended :: unit account_tx) w1 = Inr ((), w2)"
    and e: "(emit (gc_call env) ''admin.staff.revoked'' ''user'' user
               (JObj [(''actorUserId'', JStr user), (''userId'', JStr user), (''role'', role_json (sr_role r))]) :: unit account_tx) w2 = Inr (u, w')"
    by (auto simp: after_Inr)
  have "w1 = w\<lparr>aw_staff := staff_left (gc_date env) user (aw_staff w)\<rparr>"
    using c Some by (auto simp: store_call_def staff_left_def staff_revoke_def Let_def split: prod.splits sum.splits if_splits)
  moreover obtain ob where "w2 = w1\<lparr>aw_outbox := ob\<rparr>" by (rule only_outboxD [OF only_outbox_ended a])
  moreover obtain ob' where "w' = w2\<lparr>aw_outbox := ob'\<rparr>" by (rule only_outboxD [OF only_outbox_emit e])
  ultimately show ?thesis by (intro that [of ob']) simp
qed

lemma send_template_effect:
  assumes "send_template env template to vars key locale w = (w', r)"
  obtains t where "w' = w\<lparr>ac_mail := t\<rparr>"
proof -
  have "w' = w\<lparr>ac_mail := ac_mail w'\<rparr>"
    using assms by (auto simp: send_template_def Let_def split: option.splits prod.splits)
  then show ?thesis by (rule that)
qed

lemma notify_wiped_effect:
  assumes "notify_wiped env user s w = Inr (u, w')"
  obtains t where "w' = w\<lparr>ac_mail := t\<rparr>"
proof -
  obtain w1 r where t: "send_template env ''delete_completed'' (ds_email s) (JObj [(''name'', JStr (ds_name s))])
      (Some (''delete-completed/'' @ user)) (ds_locale s) w = (w1, r)" by fastforce
  have "w' = w1" using assms t by (auto simp: notify_wiped_def tx_simps split: sum.splits)
  then show ?thesis using send_template_effect [OF t] that by blast
qed

text \<open>A committed wipe that found the account: the statements of the wipe, then the staff row.\<close>

lemma wipe_tx_effect:
  assumes "wipe_tx env user s w = Inr (out, w')" and "\<not> wo_already out"
  obtains w1 ob t where "execute_wipe (x_error (gc_call env) ''executeWipe'') (gc_date env) (x_fresh (gc_call env)) user w = (w1, Inr out)"
    and "w' = w1\<lparr>aw_staff := staff_left (gc_date env) user (aw_staff w1), aw_outbox := ob, ac_mail := t\<rparr>"
proof -
  obtain out1 w1 where 1: "execute_wipe (x_error (gc_call env) ''executeWipe'') (gc_date env) (x_fresh (gc_call env)) user w = (w1, Inr out1)"
    and r: "(if wo_already out1 then give out1
       else after (announce_impersonations_ended (gc_call env) ''revoked'' (wo_ended out1)) (\<lambda>_.
            after (revoke_staff_access env user) (\<lambda>_.
            after (announce_wipe env user out1) (\<lambda>_.
            after (notify_wiped env user s) (\<lambda>_. give out1))))) w1 = Inr (out, w')"
    using assms(1) unfolding wipe_tx_def by (auto simp: after_Inr account_wipe_call_Inr)
  have n: "\<not> wo_already out1" using r assms(2) by (auto simp: tx_simps split: if_splits)
  with r have "after (announce_impersonations_ended (gc_call env) ''revoked'' (wo_ended out1)) (\<lambda>_.
            after (revoke_staff_access env user) (\<lambda>_.
            after (announce_wipe env user out1) (\<lambda>_.
            after (notify_wiped env user s) (\<lambda>_. give out1)))) w1 = Inr (out, w')" by simp
  then obtain w2 w3 w4 where
    2: "(announce_impersonations_ended (gc_call env) ''revoked'' (wo_ended out1) :: unit account_tx) w1 = Inr ((), w2)"
    and 3: "revoke_staff_access env user w2 = Inr ((), w3)" and 4: "announce_wipe env user out1 w3 = Inr ((), w4)"
    and 5: "notify_wiped env user s w4 = Inr ((), w')" and e: "out = out1"
    by (auto simp: after_Inr tx_simps)
  obtain a where "w2 = w1\<lparr>aw_outbox := a\<rparr>" by (rule only_outboxD [OF only_outbox_ended 2])
  moreover obtain b where "w3 = w2\<lparr>aw_staff := staff_left (gc_date env) user (aw_staff w2), aw_outbox := b\<rparr>"
    by (rule revoke_staff_access_effect [OF 3])
  moreover obtain c where "w4 = w3\<lparr>aw_outbox := c\<rparr>" by (rule only_outboxD [OF only_outbox_announce 4])
  moreover obtain d where "w' = w4\<lparr>ac_mail := d\<rparr>" by (rule notify_wiped_effect [OF 5])
  ultimately have "w' = w1\<lparr>aw_staff := staff_left (gc_date env) user (aw_staff w1), aw_outbox := c, ac_mail := d\<rparr>" by simp
  then show ?thesis using 1 e by (intro that) simp_all
qed

section \<open>What is erased and what is left\<close>

definition erased :: "ident \<Rightarrow> ident \<Rightarrow> account_world \<Rightarrow> bool" where
  "erased uuid user w \<longleftrightarrow>
     (\<forall>u \<in> set (st_users (aw_staff w)). us_id u = user \<longrightarrow> us_deleted u \<noteq> None \<and> us_pending_deletion u = None)
   \<and> (\<forall>p \<in> set (ac_profiles w). pf_id p = user \<longrightarrow>
        pf_email p = anonymized_email uuid \<and> pf_name p = ANONYMIZED_NAME \<and> pf_image p = None \<and> \<not> pf_verified p
        \<and> pf_two_factor p = Some False \<and> pf_stripe p = None)
   \<and> (\<forall>m \<in> set (st_members (aw_staff w)). sm_user m = user \<longrightarrow> sm_revoked m \<noteq> None)
   \<and> user \<notin> se_user ` set (st_sessions (aw_staff w)) \<and> user \<notin> cd_user ` set (ac_credentials w)
   \<and> user \<notin> tf_user ` set (wu_two_factor w) \<and> user \<notin> pk_user ` set (ac_passkeys w)
   \<and> user \<notin> mb_user ` set (ac_members w) \<and> user \<notin> iv_inviter ` set (ac_invitations w)
   \<and> Some user \<notin> nt_user ` set (ac_notes w) \<and> user \<notin> vw_owner ` set (ac_views w)
   \<and> (\<forall>t \<in> set (ac_tokens w). tk_user t = user \<longrightarrow> tk_revoked t \<noteq> None)"

text \<open>
  What becomes of the columns of the row of \<open>user\<close> itself: those \<open>anonymized_profile\<close> names are overwritten, and
  the others stay, the new address asked for, the language and the date of the last export among them.
\<close>

definition own_profile_left :: "instant \<Rightarrow> ident \<Rightarrow> ident \<Rightarrow> account_world \<Rightarrow> account_world \<Rightarrow> bool" where
  "own_profile_left date uuid user w w' \<longleftrightarrow>
     {p \<in> set (ac_profiles w'). pf_id p = user}
     = (\<lambda>p. (anonymized_profile uuid p)\<lparr>pf_updated := date\<rparr>) ` {p \<in> set (ac_profiles w). pf_id p = user}"

text \<open>The organizations that go: the account's own, and those nobody else is a member of.\<close>

definition goes_with :: "ident \<Rightarrow> account_world \<Rightarrow> organization_row \<Rightarrow> bool" where
  "goes_with user w o' \<longleftrightarrow>
     (\<exists>m \<in> set (ac_members w). mb_user m = user \<and> mb_org m = og_id o')
   \<and> (personal_slug (og_slug o') \<or> (\<forall>m \<in> set (ac_members w). mb_org m = og_id o' \<longrightarrow> mb_user m = user))"

definition gone_orgs :: "ident \<Rightarrow> account_world \<Rightarrow> ident set" where
  "gone_orgs user w = og_id ` {o' \<in> set (ac_orgs w). goes_with user w o'}"

definition others_kept :: "ident \<Rightarrow> account_world \<Rightarrow> account_world \<Rightarrow> bool" where
  "others_kept user w w' \<longleftrightarrow>
     {u \<in> set (st_users (aw_staff w')). us_id u \<noteq> user} = {u \<in> set (st_users (aw_staff w)). us_id u \<noteq> user}
   \<and> {p \<in> set (ac_profiles w'). pf_id p \<noteq> user} = {p \<in> set (ac_profiles w). pf_id p \<noteq> user}
   \<and> {m \<in> set (st_members (aw_staff w')). sm_user m \<noteq> user} = {m \<in> set (st_members (aw_staff w)). sm_user m \<noteq> user}
   \<and> set (st_sessions (aw_staff w')) \<subseteq> set (st_sessions (aw_staff w))
   \<and> {s \<in> set (st_sessions (aw_staff w)). se_user s \<noteq> user \<and> se_impersonated_by s \<noteq> Some user} \<subseteq> set (st_sessions (aw_staff w'))
   \<and> set (ac_credentials w') = {c \<in> set (ac_credentials w). cd_user c \<noteq> user}
   \<and> set (wu_two_factor w') = {t \<in> set (wu_two_factor w). tf_user t \<noteq> user}
   \<and> set (ac_passkeys w') = {p \<in> set (ac_passkeys w). pk_user p \<noteq> user}
   \<and> set (ac_views w') = {v \<in> set (ac_views w). vw_owner v \<noteq> user}
   \<and> set (ac_orgs w') = {o' \<in> set (ac_orgs w). \<not> goes_with user w o'}
   \<and> set (ac_members w') = {m \<in> set (ac_members w). mb_user m \<noteq> user \<and> mb_org m \<notin> gone_orgs user w}
   \<and> set (ac_invitations w') = {i \<in> set (ac_invitations w). iv_inviter i \<noteq> user \<and> iv_org i \<notin> gone_orgs user w}
   \<and> {t \<in> set (ac_tokens w'). tk_user t \<noteq> user} = {t \<in> set (ac_tokens w). tk_user t \<noteq> user \<and> tk_org t \<notin> Some ` gone_orgs user w}
   \<and> set (ac_notes w') = {n \<in> set (ac_notes w). nt_user n \<noteq> Some user \<and> nt_org n \<notin> Some ` gone_orgs user w}"

definition wiped_row :: "instant \<Rightarrow> ident \<Rightarrow> ident \<Rightarrow> account_world \<Rightarrow> account_world" where
  "wiped_row date uuid user =
     update_user date (wipe_hit user) (\<lambda>u. u\<lparr>us_pending_deletion := None, us_deleted := Some date\<rparr>) (anonymized_profile uuid)"

definition emptied :: "instant \<Rightarrow> ident \<Rightarrow> ident \<Rightarrow> account_world \<Rightarrow> account_world" where
  "emptied date uuid user w = erase_belongings date user (fst (delete_sessions_of user (wiped_row date uuid user w)))"

lemma execute_wipe_world:
  assumes "execute_wipe err date uuid user w = (w', Inr out)" and "\<not> wo_already out"
  shows "list_ex (wipe_hit user) (st_users (aw_staff w))"
    and "w' = delete_orgs (wo_orgs out) (emptied date uuid user w)"
    and "wo_orgs out = wiped_orgs (map mb_org (filter (\<lambda>m. mb_user m = user) (ac_members w))) (emptied date uuid user w)"
proof -
  obtain w1 ended where d: "delete_sessions_of user (wiped_row date uuid user w) = (w1, ended)" by fastforce
  have m: "ac_members w1 = ac_members w"
    using d by (auto simp: delete_sessions_of_def wiped_row_def update_user_def Let_def split: prod.splits)
  have e: "emptied date uuid user w = erase_belongings date user w1" by (simp add: emptied_def d)
  have n: "wiped_orgs [] x = []" for x by (simp add: wiped_orgs_def)
  show "list_ex (wipe_hit user) (st_users (aw_staff w))"
    using assms by (auto simp: execute_wipe_def already_wiped_def split: if_splits)
  with assms d show "wo_orgs out = wiped_orgs (map mb_org (filter (\<lambda>m. mb_user m = user) (ac_members w))) (emptied date uuid user w)"
    and "w' = delete_orgs (wo_orgs out) (emptied date uuid user w)"
    by (auto simp: execute_wipe_def wiped_row_def [symmetric] Let_def m e n split: if_splits)
qed

lemma wiped_row_tables:
  "ac_credentials (wiped_row date uuid user w) = ac_credentials w" "wu_two_factor (wiped_row date uuid user w) = wu_two_factor w"
  "ac_passkeys (wiped_row date uuid user w) = ac_passkeys w" "ac_members (wiped_row date uuid user w) = ac_members w"
  "ac_orgs (wiped_row date uuid user w) = ac_orgs w" "ac_invitations (wiped_row date uuid user w) = ac_invitations w"
  "ac_tokens (wiped_row date uuid user w) = ac_tokens w" "ac_notes (wiped_row date uuid user w) = ac_notes w"
  "ac_views (wiped_row date uuid user w) = ac_views w"
  "aw_staff (wiped_row date uuid user w) = (aw_staff w)\<lparr>st_users := sql_update (wipe_hit user)
     (\<lambda>u. u\<lparr>us_pending_deletion := None, us_deleted := Some date\<rparr>) (st_users (aw_staff w))\<rparr>"
  "ac_profiles (wiped_row date uuid user w) = sql_update (\<lambda>p. pf_id p \<in> set (map us_id (filter (wipe_hit user) (st_users (aw_staff w)))))
     (\<lambda>p. (anonymized_profile uuid p)\<lparr>pf_updated := date\<rparr>) (ac_profiles w)"
  by (simp_all add: wiped_row_def update_user_def Let_def)

lemma emptied_tables:
  "ac_credentials (emptied date uuid user w) = sql_delete (\<lambda>c. cd_user c = user) (ac_credentials w)"
  "wu_two_factor (emptied date uuid user w) = sql_delete (\<lambda>t. tf_user t = user) (wu_two_factor w)"
  "ac_passkeys (emptied date uuid user w) = sql_delete (\<lambda>p. pk_user p = user) (ac_passkeys w)"
  "ac_members (emptied date uuid user w) = sql_delete (\<lambda>m. mb_user m = user) (ac_members w)"
  "ac_orgs (emptied date uuid user w) = ac_orgs w"
  "ac_invitations (emptied date uuid user w) = sql_delete (\<lambda>i. iv_inviter i = user) (ac_invitations w)"
  "ac_tokens (emptied date uuid user w) =
     sql_update (live_token_of user) (\<lambda>t. t\<lparr>tk_revoked := Some date, tk_reason := Some ''user''\<rparr>) (ac_tokens w)"
  "ac_notes (emptied date uuid user w) = sql_delete (\<lambda>n. nt_user n = Some user) (ac_notes w)"
  "ac_views (emptied date uuid user w) = sql_delete (\<lambda>v. vw_owner v = user) (ac_views w)"
  "ac_profiles (emptied date uuid user w) = ac_profiles (wiped_row date uuid user w)"
  "aw_staff (emptied date uuid user w) = (aw_staff (wiped_row date uuid user w))\<lparr>st_sessions := sql_delete (\<lambda>s. se_user s = user) (st_sessions (aw_staff w))\<rparr>"
  by (simp_all add: emptied_def erase_belongings_def delete_sessions_of_def delete_sessions_where_def wiped_row_tables)

lemma gone_orgs_wiped:
  assumes "keyed og_id (ac_orgs w)"
  shows "set (wiped_orgs (map mb_org (filter (\<lambda>m. mb_user m = user) (ac_members w))) (emptied date uuid user w)) = gone_orgs user w"
proof -
  have none_left: "members_of i (sql_delete (\<lambda>m. mb_user m = user) t) = 0 \<longleftrightarrow> (\<forall>m \<in> set t. mb_org m = i \<longrightarrow> mb_user m = user)" for i t
    by (auto simp: members_of_def sql_delete_def filter_empty_conv)
  have member: "i \<in> set (map mb_org (filter (\<lambda>m. mb_user m = user) t)) \<longleftrightarrow> (\<exists>m \<in> set t. mb_user m = user \<and> mb_org m = i)"
    for i and t :: "joined_row list" by (induction t) auto
  have "(og_id o' \<in> set (map mb_org (filter (\<lambda>m. mb_user m = user) (ac_members w)))
      \<and> (personal_slug (og_slug o') \<or> members_of (og_id o') (ac_members (emptied date uuid user w)) = 0)) = goes_with user w o'" for o'
    unfolding emptied_tables none_left goes_with_def member by (rule refl)
  then have "wiped_orgs (map mb_org (filter (\<lambda>m. mb_user m = user) (ac_members w))) (emptied date uuid user w)
      = map og_id (filter (goes_with user w) (ac_orgs w))" by (simp add: wiped_orgs_def emptied_tables del: set_map)
  then show ?thesis by (simp only: set_map set_filter gone_orgs_def)
qed

text \<open>What hangs on an organization goes exactly with the organizations that go.\<close>

lemma org_gone_iff:
  assumes "keyed og_id (ac_orgs w)" and "o' \<in> set (ac_orgs w)"
  shows "og_id o' \<in> gone_orgs user w \<longleftrightarrow> goes_with user w o'"
proof
  assume "og_id o' \<in> gone_orgs user w"
  then obtain o2 where "o2 \<in> set (ac_orgs w)" "goes_with user w o2" "og_id o' = og_id o2" by (auto simp: gone_orgs_def)
  then show "goes_with user w o'" using keyed_unique [OF assms(1) assms(2)] by metis
qed (use assms in \<open>auto simp: gone_orgs_def\<close>)

lemma staff_left_tables:
  "st_members (staff_left date user db) =
     (if find_active date user db = None then st_members db
      else sql_update (\<lambda>m. sm_user m = user) (\<lambda>m. m\<lparr>sm_revoked := Some date\<rparr>) (st_members db))"
  "st_sessions (staff_left date user db) =
     (if find_active date user db = None then st_sessions db else sql_delete (\<lambda>s. se_impersonated_by s = Some user) (st_sessions db))"
  "st_users (staff_left date user db) =
     (if find_active date user db = None then st_users db else sql_update (\<lambda>u. us_id u = user) (\<lambda>u. u\<lparr>us_role := MirrorPlain\<rparr>) (st_users db))"
  by (simp_all add: staff_left_def staff_revoke_def delete_sessions_where_def set_mirror_def Let_def)

text \<open>Nobody who has a row in \<open>user\<close> is active staff without \<open>find_active\<close> seeing it.\<close>

lemma no_active_row:
  assumes "find_active date user db = None" and "user \<in> us_id ` set (st_users db)"
  shows "\<forall>m \<in> set (st_members db). sm_user m = user \<longrightarrow> sm_revoked m \<noteq> None"
proof -
  have "row_of us_id user (st_users db) \<noteq> None" using assms(2) by (simp add: row_of_None)
  with assms(1) have "row_of sm_user user (filter (\<lambda>m. sm_revoked m = None) (st_members db)) = None"
    by (auto simp: find_active_def split: option.splits)
  then show ?thesis by (auto simp: row_of_None)
qed

lemma hit_is_the_row:
  assumes "account_tables_ok w" and "list_ex (wipe_hit user) (st_users (aw_staff w))"
  shows "set (map us_id (filter (wipe_hit user) (st_users (aw_staff w)))) = {user}"
    and "\<And>u. u \<in> set (st_users (aw_staff w)) \<Longrightarrow> us_id u = user \<Longrightarrow> wipe_hit user u"
proof -
  obtain r where r: "r \<in> set (st_users (aw_staff w))" "wipe_hit user r" using assms(2) by (auto simp: list_ex_iff)
  then have "us_id r = user" "r \<in> set (filter (wipe_hit user) (st_users (aw_staff w)))" by (simp_all add: wipe_hit_def)
  then have "user \<in> us_id ` set (filter (wipe_hit user) (st_users (aw_staff w)))" by blast
  moreover have "us_id u = user" if "u \<in> set (filter (wipe_hit user) (st_users (aw_staff w)))" for u using that by (simp add: wipe_hit_def)
  ultimately show "set (map us_id (filter (wipe_hit user) (st_users (aw_staff w)))) = {user}" unfolding set_map by blast
  fix u assume "u \<in> set (st_users (aw_staff w))" "us_id u = user"
  moreover have "keyed us_id (st_users (aw_staff w))" using assms(1) by (simp add: account_tables_ok_def)
  ultimately have "u = r" using r by (intro keyed_unique [of us_id "st_users (aw_staff w)" u r]) (simp_all add: wipe_hit_def)
  then show "wipe_hit user u" using r by simp
qed

lemma not_in_rest: "k \<notin> f ` {r \<in> A. f r \<noteq> k}" "k \<notin> f ` {r \<in> A. f r \<noteq> k \<and> P r}"
  by auto

text \<open>The world a wipe leaves, by its two parts.\<close>

definition wipe_leaves :: "instant \<Rightarrow> ident \<Rightarrow> ident \<Rightarrow> account_world \<Rightarrow> ident list \<Rightarrow> account_world \<Rightarrow> bool" where
  "wipe_leaves date uuid user w orgs w' \<longleftrightarrow> (\<exists>ob t. let w1 = delete_orgs orgs (emptied date uuid user w)
     in w' = w1\<lparr>aw_staff := staff_left date user (aw_staff w1), aw_outbox := ob, ac_mail := t\<rparr>)"

lemma wipe_erases_tables:
  assumes "account_tables_ok w" and "list_ex (wipe_hit user) (st_users (aw_staff w))" and "wipe_leaves date uuid user w orgs w'"
  shows "erased uuid user w'"
proof -
  obtain ob t where w': "w' = (delete_orgs orgs (emptied date uuid user w))
      \<lparr>aw_staff := staff_left date user (aw_staff (emptied date uuid user w)), aw_outbox := ob, ac_mail := t\<rparr>"
    using assms(3) by (auto simp: wipe_leaves_def Let_def delete_orgs_def)
  let ?db = "aw_staff (emptied date uuid user w)"
  note hit = hit_is_the_row [OF assms(1,2)]
  have users: "us_deleted u \<noteq> None \<and> us_pending_deletion u = None" if "u \<in> set (st_users (staff_left date user ?db))" "us_id u = user" for u
    using that hit(2) by (auto simp: staff_left_tables emptied_tables wiped_row_tables set_sql_update split: if_splits)
  have "user \<in> us_id ` set (st_users ?db)"
    using assms(2) by (auto simp: emptied_tables wiped_row_tables image_sql_update list_ex_iff wipe_hit_def)
  then have staff: "\<forall>m \<in> set (st_members (staff_left date user ?db)). sm_user m = user \<longrightarrow> sm_revoked m \<noteq> None"
    using no_active_row [of date user ?db] by (auto simp: staff_left_tables set_sql_update)
  have sessions: "user \<notin> se_user ` set (st_sessions (staff_left date user ?db))"
    by (auto simp: staff_left_tables emptied_tables set_sql_delete)
  have profiles: "\<forall>p \<in> set (ac_profiles (wiped_row date uuid user w)). pf_id p = user \<longrightarrow>
        pf_email p = anonymized_email uuid \<and> pf_name p = ANONYMIZED_NAME \<and> pf_image p = None \<and> \<not> pf_verified p
        \<and> pf_two_factor p = Some False \<and> pf_stripe p = None"
    unfolding wiped_row_tables hit(1) by (intro ballI impI, elim updated_row) (simp_all add: anonymized_profile_def)
  have tokens: "\<forall>t \<in> set (ac_tokens (emptied date uuid user w)). tk_user t = user \<longrightarrow> tk_revoked t \<noteq> None"
    unfolding emptied_tables by (intro ballI impI, elim updated_row) (simp_all add: live_token_of_def)
  show ?thesis
    using users staff sessions profiles tokens
    unfolding erased_def w' by (simp add: delete_orgs_def emptied_tables set_sql_delete not_in_rest)
qed

lemma own_after_update:
  assumes "\<And>r. key (f r) = key r"
  shows "{r \<in> set (sql_update (\<lambda>r. key r \<in> {k}) f t). key r = k} = f ` {r \<in> set t. key r = k}"
  by (induction t) (auto simp: sql_update_def assms)

lemma wipe_leaves_profile:
  assumes "account_tables_ok w" and "list_ex (wipe_hit user) (st_users (aw_staff w))" and "wipe_leaves date uuid user w orgs w'"
  shows "own_profile_left date uuid user w w'"
proof -
  have "ac_profiles w' = ac_profiles (wiped_row date uuid user w)"
    using assms(3) by (auto simp: wipe_leaves_def Let_def delete_orgs_def emptied_tables)
  then show ?thesis
    unfolding own_profile_left_def wiped_row_tables hit_is_the_row(1) [OF assms(1,2)]
    by (simp only:) (rule own_after_update, simp add: anonymized_profile_def)
qed

text \<open>What an update of the rows of one key leaves of the others.\<close>

lemma others_after_update:
  assumes "\<And>r. r \<in> set t \<Longrightarrow> p r \<Longrightarrow> key r = k" and "\<And>r. key (f r) = key r"
  shows "{r \<in> set (sql_update p f t). key r \<noteq> k} = {r \<in> set t. key r \<noteq> k}"
proof (intro set_eqI iffI CollectI)
  fix r assume "r \<in> {r \<in> set (sql_update p f t). key r \<noteq> k}"
  then have "r \<in> set (sql_update p f t)" and n: "key r \<noteq> k" by simp_all
  from this(1) show "r \<in> set t \<and> key r \<noteq> k" by (rule updated_row) (use n assms in simp_all)
next
  fix r assume "r \<in> {r \<in> set t. key r \<noteq> k}"
  then show "r \<in> set (sql_update p f t) \<and> key r \<noteq> k" using assms(1) by (auto intro: kept_by_update)
qed

lemma wipe_keeps_others:
  assumes "account_tables_ok w" and "list_ex (wipe_hit user) (st_users (aw_staff w))" and "wipe_leaves date uuid user w orgs w'"
    and "set orgs = gone_orgs user w"
  shows "others_kept user w w'"
proof -
  obtain ob t where w': "w' = (delete_orgs orgs (emptied date uuid user w))
      \<lparr>aw_staff := staff_left date user (aw_staff (emptied date uuid user w)), aw_outbox := ob, ac_mail := t\<rparr>"
    using assms(3) by (auto simp: wipe_leaves_def Let_def delete_orgs_def)
  let ?db = "aw_staff (emptied date uuid user w)"
  have og: "keyed og_id (ac_orgs w)" using assms(1) by (simp add: account_tables_ok_def)
  have u1: "{u \<in> set (st_users ?db). us_id u \<noteq> user} = {u \<in> set (st_users (aw_staff w)). us_id u \<noteq> user}"
    by (simp add: emptied_tables wiped_row_tables) (rule others_after_update, simp_all add: wipe_hit_def)
  have u2: "{u \<in> set (st_users (staff_left date user ?db)). us_id u \<noteq> user} = {u \<in> set (st_users ?db). us_id u \<noteq> user}"
    unfolding staff_left_tables by (cases "find_active date user ?db = None") (simp_all add: others_after_update)
  have profiles: "{p \<in> set (ac_profiles (wiped_row date uuid user w)). pf_id p \<noteq> user} = {p \<in> set (ac_profiles w). pf_id p \<noteq> user}"
    unfolding wiped_row_tables hit_is_the_row(1) [OF assms(1,2)]
    by (rule others_after_update) (simp_all add: anonymized_profile_def)
  have m: "st_members ?db = st_members (aw_staff w)" by (simp add: emptied_tables wiped_row_tables)
  have members: "{m \<in> set (st_members (staff_left date user ?db)). sm_user m \<noteq> user} = {m \<in> set (st_members (aw_staff w)). sm_user m \<noteq> user}"
    unfolding staff_left_tables m by (cases "find_active date user ?db = None") (simp_all add: others_after_update)
  have sessions: "set (st_sessions (staff_left date user ?db)) \<subseteq> set (st_sessions (aw_staff w))"
    "{s \<in> set (st_sessions (aw_staff w)). se_user s \<noteq> user \<and> se_impersonated_by s \<noteq> Some user} \<subseteq> set (st_sessions (staff_left date user ?db))"
    unfolding staff_left_tables emptied_tables by (auto simp: set_sql_delete)
  have orgs: "set (ac_orgs w') = {o' \<in> set (ac_orgs w). \<not> goes_with user w o'}"
    using org_gone_iff [OF og] by (auto simp: w' delete_orgs_def emptied_tables set_sql_delete assms(4))
  have tokens: "{t \<in> set (ac_tokens (emptied date uuid user w)). tk_user t \<noteq> user} = {t \<in> set (ac_tokens w). tk_user t \<noteq> user}"
    unfolding emptied_tables by (rule others_after_update) (simp_all add: live_token_of_def)
  have in_gone: "(case v of None \<Rightarrow> False | Some i \<Rightarrow> i \<in> set orgs) \<longleftrightarrow> v \<in> Some ` gone_orgs user w" for v
    by (cases v) (auto simp: assms(4))
  have tk: "{t \<in> set (ac_tokens w'). tk_user t \<noteq> user} = {t \<in> set (ac_tokens w). tk_user t \<noteq> user \<and> tk_org t \<notin> Some ` gone_orgs user w}"
    using tokens by (auto simp: w' delete_orgs_def set_sql_delete in_gone)
  show ?thesis
    unfolding others_kept_def orgs tk using u1 u2 profiles members sessions
    by (simp add: w' delete_orgs_def emptied_tables set_sql_delete in_gone assms(4))
qed

section \<open>Wiping\<close>

lemma commits:
  assumes "run_tx commit_error m w = (w', Inr (Inr y))"
  shows "m w = Inr (y, w')"
  using assms by (auto simp: run_tx_def split: sum.splits exit.splits option.splits)

lemma rolls_back:
  assumes "run_tx commit_error m w = (w', out)" and "\<nexists>y. out = Inr (Inr y)"
  shows "w' = w"
  using assms by (auto simp: run_tx_def split: sum.splits exit.splits option.splits)

text \<open>Reading a call of \<open>execute_account_wipe\<close> backwards.\<close>

lemma account_wipe_cases:
  assumes "execute_account_wipe env user between w = (w', out)"
  obtains (unread) e where "load_deletion_state env user w = Inl e" "w' = w" "out = Inr (Inl e)"
  | (deleted) s where "load_deletion_state env user w = Inr s" "ds_deleted s \<noteq> None" "w' = w" "out = Inr (Inr ([], 0))"
  | (not_due) s where "load_deletion_state env user w = Inr s" "ds_deleted s = None"
      "case ds_pending s of None \<Rightarrow> True | Some t \<Rightarrow> gc_date env < t" "w' = w" "out = Inr (Inl DeletionNotFound)"
  | (failed) s e where "load_deletion_state env user w = Inr s" "ds_deleted s = None" "w' = between w"
      "out = Inr (Inl (wipe_failure e))"
  | (wiped) s t o' where "load_deletion_state env user w = Inr s" "ds_deleted s = None" "ds_pending s = Some t" "t \<le> gc_date env"
      "wipe_tx env user s (between w) = Inr (o', w')"
      "out = (case purge_user_objects env user of Inl e \<Rightarrow> Inl e | Inr n \<Rightarrow> Inr (Inr (wo_orgs o', n)))"
proof (cases "load_deletion_state env user w")
  case (Inl e)
  then have "w' = w \<and> out = Inr (Inl e)" using assms by (simp add: execute_account_wipe_def)
  then show ?thesis using unread [OF Inl] by blast
next
  case (Inr s)
  show ?thesis
  proof (cases "ds_deleted s \<noteq> None \<or> (case ds_pending s of None \<Rightarrow> True | Some t \<Rightarrow> gc_date env < t)")
    case True
    show ?thesis
    proof (cases "ds_deleted s")
      case (Some d)
      then have "w' = w \<and> out = Inr (Inr ([], 0))" using assms Inr by (simp add: execute_account_wipe_def)
      then show ?thesis using deleted [OF Inr] Some by blast
    next
      case None
      then have late: "case ds_pending s of None \<Rightarrow> True | Some t \<Rightarrow> gc_date env < t" using True by simp
      then have "w' = w \<and> out = Inr (Inl DeletionNotFound)" using assms Inr None by (simp add: execute_account_wipe_def)
      then show ?thesis using not_due [OF Inr None late] by blast
    qed
  next
    case False
    then obtain t where due: "ds_deleted s = None" "ds_pending s = Some t" "t \<le> gc_date env" by (auto split: option.splits)
    obtain w1 r where run: "run_tx (x_commit_error (gc_call env)) (wipe_tx env user s) (between w) = (w1, r)" by fastforce
    have w1: "w' = w1" using assms Inr due run by (auto simp: execute_account_wipe_def split: sum.splits)
    show ?thesis
    proof (cases "\<exists>y. r = Inr (Inr y)")
      case True
      then obtain y where "r = Inr (Inr y)" by blast
      have "run_tx (x_commit_error (gc_call env)) (wipe_tx env user s) (between w) = (w1, Inr (Inr y))" using run \<open>r = Inr (Inr y)\<close> by simp
      then have tx: "wipe_tx env user s (between w) = Inr (y, w')" unfolding w1 by (rule commits)
      have "out = (case purge_user_objects env user of Inl e \<Rightarrow> Inl e | Inr n \<Rightarrow> Inr (Inr (wo_orgs y, n)))"
        using assms Inr due run \<open>r = Inr (Inr y)\<close> by (simp add: execute_account_wipe_def)
      then show ?thesis using wiped [OF Inr due tx] by blast
    next
      case False
      then have "w1 = between w" by (rule rolls_back [OF run])
      moreover have "\<exists>e. out = Inr (Inl (wipe_failure e))"
        using assms Inr due run False by (auto simp: execute_account_wipe_def split: sum.splits)
      ultimately show ?thesis using failed Inr due w1 by blast
    qed
  qed
qed

lemma state_read:
  assumes "load_deletion_state env user w = Inr s" and "account_tables_ok w"
  shows "\<exists>u \<in> set (st_users (aw_staff w)). us_id u = user \<and> us_deleted u = ds_deleted s \<and> us_pending_deletion u = ds_pending s"
  using assms by (auto simp: load_deletion_state_def get_deletion_state_def dest!: row_of_Some split: option.splits if_splits)

text \<open>A wipe whose transaction found the account standing.\<close>

lemma wipe_tx_leaves:
  assumes "wipe_tx env user s w = Inr (out, w')" and "\<not> wo_already out" and "account_tables_ok w"
  shows "list_ex (wipe_hit user) (st_users (aw_staff w))"
    and "wipe_leaves (gc_date env) (x_fresh (gc_call env)) user w (wo_orgs out) w'"
    and "set (wo_orgs out) = gone_orgs user w"
proof -
  obtain w1 ob t where x: "execute_wipe (x_error (gc_call env) ''executeWipe'') (gc_date env) (x_fresh (gc_call env)) user w = (w1, Inr out)"
    and w': "w' = w1\<lparr>aw_staff := staff_left (gc_date env) user (aw_staff w1), aw_outbox := ob, ac_mail := t\<rparr>"
    by (rule wipe_tx_effect [OF assms(1,2)])
  note e = execute_wipe_world [OF x assms(2)]
  show "list_ex (wipe_hit user) (st_users (aw_staff w))" by (rule e(1))
  show "wipe_leaves (gc_date env) (x_fresh (gc_call env)) user w (wo_orgs out) w'"
    unfolding wipe_leaves_def Let_def using e(2) w' by blast
  show "set (wo_orgs out) = gone_orgs user w"
    unfolding e(3) by (rule gone_orgs_wiped) (use assms(3) in \<open>simp add: account_tables_ok_def\<close>)
qed

lemma wipe_tx_already:
  assumes "wipe_tx env user s w = Inr (out, w')" and "wo_already out"
  shows "w' = w" and "out = already_wiped" and "\<not> list_ex (wipe_hit user) (st_users (aw_staff w))"
proof -
  have "account_wipe_call env user w = Inr (out, w')"
    using assms by (auto simp: wipe_tx_def after_Inr tx_simps split: if_splits)
  then have "execute_wipe (x_error (gc_call env) ''executeWipe'') (gc_date env) (x_fresh (gc_call env)) user w = (w', Inr out)"
    by (simp add: account_wipe_call_Inr)
  then show "w' = w" "out = already_wiped" "\<not> list_ex (wipe_hit user) (st_users (aw_staff w))"
    using assms(2) by (auto simp: execute_wipe_def Let_def split: if_splits prod.splits)
qed

text \<open>The confirmation is one row more in the queue, to the address the account had.\<close>

lemma notify_wiped_queues:
  assumes "notify_wiped env user s w = Inr (u, w')"
  shows "\<exists>r. ac_mail w' = ac_mail w @ [r] \<and> em_template r = Some ''delete_completed'' \<and> em_to r = ds_email s"
  using assms
  by (auto simp: notify_wiped_def send_template_def service_enqueue_def email_enqueue_def email_insert_row_def Let_def tx_simps
      split: option.splits sum.splits prod.splits if_splits)

lemma wipe_tx_queues:
  assumes "wipe_tx env user s w = Inr (out, w')" and "\<not> wo_already out"
  shows "\<exists>r. ac_mail w' = ac_mail w @ [r] \<and> em_template r = Some ''delete_completed'' \<and> em_to r = ds_email s"
proof -
  obtain out1 w1 w2 w3 w4 where
    1: "account_wipe_call env user w = Inr (out1, w1)" and
    2: "(announce_impersonations_ended (gc_call env) ''revoked'' (wo_ended out1) :: unit account_tx) w1 = Inr ((), w2)"
    and 3: "revoke_staff_access env user w2 = Inr ((), w3)" and 4: "announce_wipe env user out1 w3 = Inr ((), w4)"
    and 5: "notify_wiped env user s w4 = Inr ((), w')"
    using assms by (auto simp: wipe_tx_def after_Inr tx_simps split: if_splits)
  have "ac_mail w2 = ac_mail w1" by (rule only_outboxD [OF only_outbox_ended 2]) simp
  moreover have "ac_mail w3 = ac_mail w2" by (rule revoke_staff_access_effect [OF 3]) simp
  moreover have "ac_mail w4 = ac_mail w3" by (rule only_outboxD [OF only_outbox_announce 4]) simp
  moreover have "ac_mail w1 = ac_mail w"
    using 1 by (auto simp: account_wipe_call_Inr execute_wipe_def delete_sessions_of_def delete_sessions_where_def update_user_def
        erase_belongings_def delete_orgs_def Let_def split: if_splits prod.splits)
  ultimately show ?thesis using notify_wiped_queues [OF 5] by simp
qed

text \<open>Every row of the account is marked, and there is one.\<close>

definition user_gone :: "ident \<Rightarrow> account_world \<Rightarrow> bool" where
  "user_gone user w \<longleftrightarrow> user \<in> us_id ` set (st_users (aw_staff w))
     \<and> (\<forall>u \<in> set (st_users (aw_staff w)). us_id u = user \<longrightarrow> us_deleted u \<noteq> None)"

lemma wipe_tx_marks:
  assumes "wipe_tx env user s w = Inr (out, w')" and "\<not> wo_already out"
  shows "list_ex (wipe_hit user) (st_users (aw_staff w))" and "user_gone user w'"
proof -
  obtain w1 ob t where x: "execute_wipe (x_error (gc_call env) ''executeWipe'') (gc_date env) (x_fresh (gc_call env)) user w = (w1, Inr out)"
    and w': "w' = w1\<lparr>aw_staff := staff_left (gc_date env) user (aw_staff w1), aw_outbox := ob, ac_mail := t\<rparr>"
    by (rule wipe_tx_effect [OF assms])
  note e = execute_wipe_world [OF x assms(2)]
  show hit: "list_ex (wipe_hit user) (st_users (aw_staff w))" by (rule e(1))
  let ?marked = "sql_update (wipe_hit user) (\<lambda>u. u\<lparr>us_pending_deletion := None, us_deleted := Some (gc_date env)\<rparr>) (st_users (aw_staff w))"
  have users: "st_users (aw_staff w1) = ?marked" by (simp add: e(2) delete_orgs_def emptied_tables wiped_row_tables)
  have "user \<in> us_id ` set ?marked" using hit by (auto simp: image_sql_update list_ex_iff wipe_hit_def)
  moreover have "\<forall>u \<in> set ?marked. us_id u = user \<longrightarrow> us_deleted u \<noteq> None"
    by (auto elim!: updated_row simp: wipe_hit_def)
  moreover from this have "\<forall>u \<in> set (sql_update (\<lambda>u. us_id u = user) (\<lambda>u. u\<lparr>us_role := MirrorPlain\<rparr>) ?marked). us_id u = user \<longrightarrow> us_deleted u \<noteq> None"
    by (intro ballI impI, elim updated_row) (simp_all add: wipe_hit_def)
  ultimately show "user_gone user w'"
    unfolding user_gone_def w' by (simp add: staff_left_tables users image_sql_update)
qed

lemma wipe_leaves_counters: "wipe_leaves date uuid user w orgs w' \<Longrightarrow> wu_counters w' = wu_counters w"
  by (auto simp: wipe_leaves_def Let_def delete_orgs_def emptied_def erase_belongings_def delete_sessions_of_def wiped_row_def
      update_user_def split: prod.splits)


text \<open>
  C37: what a wipe reports is what happened. A failure leaves the database as it found it, or as others left it
  in the meantime. A success, or a throw of the purge of stored objects that follows the commit, means one of
  three things: the account was read as deleted, and nothing is written, no mail queued; it was due but found
  deleted in the transaction, the same; or it was due and still stood, and then its wipe is committed with
  the confirmation queued to the address it had.
\<close>

theorem wipe_all_or_nothing:
  assumes "execute_account_wipe env user between w = (w', out)"
  shows "case out of
      Inr (Inl e) \<Rightarrow> w' = w \<or> w' = between w
    | _ \<Rightarrow> (\<exists>s. get_deletion_state user w = Some s \<and>
        (if ds_deleted s \<noteq> None then w' = w \<and> out = Inr (Inr ([], 0))
         else (\<exists>t. ds_pending s = Some t \<and> t \<le> gc_date env)
          \<and> (if list_ex (wipe_hit user) (st_users (aw_staff (between w)))
              then user_gone user w' \<and> (\<exists>r. ac_mail w' = ac_mail (between w) @ [r]
                \<and> em_template r = Some ''delete_completed'' \<and> em_to r = ds_email s)
              else w' = between w)))"
  using assms
proof (cases rule: account_wipe_cases)
  case (wiped s t o')
  have s: "get_deletion_state user w = Some s" using wiped(1) by (auto simp: load_deletion_state_def split: option.splits if_splits)
  have "if list_ex (wipe_hit user) (st_users (aw_staff (between w)))
      then user_gone user w' \<and> (\<exists>r. ac_mail w' = ac_mail (between w) @ [r] \<and> em_template r = Some ''delete_completed'' \<and> em_to r = ds_email s)
      else w' = between w"
  proof (cases "wo_already o'")
    case True
    then show ?thesis using wipe_tx_already [OF wiped(5)] by simp
  next
    case False
    then show ?thesis using wipe_tx_marks [OF wiped(5)] wipe_tx_queues [OF wiped(5)] by simp
  qed
  then show ?thesis using s wiped(2-4,6) by (auto split: sum.splits)
next
  case (deleted s)
  then show ?thesis by (auto simp: load_deletion_state_def split: option.splits if_splits)
qed simp_all

section \<open>Examples\<close>

lemma example_wipe:
  "execute_account_wipe (example_account_env 10) ''ann'' id example_accounts = (after_example_wipe, Inr (Inr ([''own'', ''solo''], 1)))"
proof -
  have "snd (execute_account_wipe (example_account_env 10) ''ann'' id example_accounts) = Inr (Inr ([''own'', ''solo''], 1))"
    by code_simp
  then show ?thesis by (simp add: after_example_wipe_def prod_eq_iff)
qed

lemma example_accounts_ok: "account_tables_ok (id example_accounts)"
  by code_simp


theorem wipe_all_or_nothing_witness:
  "user_gone ''ann'' after_example_wipe \<and> (\<exists>r. ac_mail after_example_wipe = [r] \<and> em_to r = ''ann@x.org'')"
proof -
  have s: "get_deletion_state ''ann'' example_accounts = Some \<lparr>ds_email = ''ann@x.org'', ds_name = ''ann'', ds_locale = None,
      ds_two_factor = False, ds_pending = Some 5, ds_deleted = None, ds_last_export = None\<rparr>" by code_simp
  have n: "ac_mail (id example_accounts) = []" and hit: "list_ex (wipe_hit ''ann'') (st_users (aw_staff (id example_accounts)))" by code_simp+
  show ?thesis using wipe_all_or_nothing [OF example_wipe] s n hit by auto
qed

end
