(* ===== verification/Event_Counts.thy ===== *)
theory Event_Counts
  imports Account_Correct
begin

text \<open>
  Counting the events of one type about one aggregate that a transaction leaves in the outbox, when the
  ids its emissions get are fresh.
\<close>

section \<open>What a transaction announces\<close>

text \<open>The ids the emissions of a call get: distinct, and none in the outbox yet.\<close>

definition ids_fresh :: "call_env \<Rightarrow> outbox_row list \<Rightarrow> bool" where
  "ids_fresh x t \<longleftrightarrow> inj (\<lambda>n. et_fresh (x_emit x n)) \<and> (\<forall>n \<ge> length t. et_fresh (x_emit x n) \<notin> row_id ` set t)"

definition announced :: "string \<Rightarrow> ident \<Rightarrow> outbox_row list \<Rightarrow> nat" where
  "announced ev i t = length (filter (\<lambda>r. event_type r = ev \<and> aggregate_id r = i) t)"

text \<open>\<open>m\<close> emits the event \<open>ev\<close> about \<open>u\<close> as often as \<open>f y u\<close> says when it gives \<open>y\<close>.\<close>

definition announces :: "call_env \<Rightarrow> string \<Rightarrow> ('a \<Rightarrow> ident \<Rightarrow> nat) \<Rightarrow> ('w staff_world_scheme, 'e, 'a) tx \<Rightarrow> bool" where
  "announces x ev f m \<longleftrightarrow> (\<forall>w y w'. m w = Inr (y, w') \<longrightarrow> ids_fresh x (outbox_rows (aw_outbox w)) \<longrightarrow>
     ids_fresh x (outbox_rows (aw_outbox w'))
     \<and> (\<forall>u. announced ev u (outbox_rows (aw_outbox w')) = announced ev u (outbox_rows (aw_outbox w)) + f y u))"

abbreviation silent :: "call_env \<Rightarrow> string \<Rightarrow> ('w staff_world_scheme, 'e, 'a) tx \<Rightarrow> bool" where
  "silent x ev m \<equiv> announces x ev (\<lambda>_ _. 0) m"

lemma announcesD:
  assumes "announces x ev f m" and "m w = Inr (y, w')" and "ids_fresh x (outbox_rows (aw_outbox w))"
  shows "ids_fresh x (outbox_rows (aw_outbox w'))"
    and "announced ev u (outbox_rows (aw_outbox w')) = announced ev u (outbox_rows (aw_outbox w)) + f y u"
  using assms unfolding announces_def by blast+

lemma emitted_row:
  assumes "emit_event schema (x_emit x (length (outbox_rows db))) event kind agg body (no_options\<lparr>op_organization := org\<rparr>) db = Inr (db', i)"
    and "ids_fresh x (outbox_rows db)"
  shows "\<exists>r. outbox_rows db' = outbox_rows db @ [r] \<and> row_id r = et_fresh (x_emit x (length (outbox_rows db)))
    \<and> event_type r = event \<and> aggregate_id r = agg"
  using assms
  by (auto simp: emit_event_def Let_def enqueue_def emitted_event_def domain_event_to_outbox_row_def no_options_def ids_fresh_def
      split: option.splits if_splits)

lemma ids_fresh_snoc:
  assumes "ids_fresh x t" and "row_id r = et_fresh (x_emit x (length t))"
  shows "ids_fresh x (t @ [r])"
proof -
  have "et_fresh (x_emit x n) \<noteq> et_fresh (x_emit x (length t))" if "Suc (length t) \<le> n" for n
    using assms(1) that unfolding ids_fresh_def by (auto dest: injD)
  then show ?thesis using assms by (auto simp: ids_fresh_def)
qed

definition is_event :: "string \<Rightarrow> string \<Rightarrow> ident \<Rightarrow> ident \<Rightarrow> nat" where
  "is_event ev event agg u = (if event = ev \<and> agg = u then 1 else 0)"

lemma announced_snoc: "announced ev u (t @ [r]) = announced ev u t + is_event ev (event_type r) (aggregate_id r) u"
  by (simp add: announced_def is_event_def)

lemma emit_scoped_announces:
  "announces x ev (\<lambda>_. is_event ev event agg) (emit_scoped x org event kind agg body)"
  unfolding announces_def
proof (intro allI impI)
  fix w :: "'w staff_world_scheme" and y w'
  assume e: "emit_scoped x org event kind agg body w = (Inr (y, w') :: 'e exit + _)" and f: "ids_fresh x (outbox_rows (aw_outbox w))"
  then obtain i where "emit_event (x_schema x) (x_emit x (length (outbox_rows (aw_outbox w)))) event kind agg body
      (no_options\<lparr>op_organization := org\<rparr>) (aw_outbox w) = Inr (aw_outbox w', i)"
    by (auto simp: emit_scoped_def split: sum.splits)
  from emitted_row [OF this f] f
  show "ids_fresh x (outbox_rows (aw_outbox w'))
     \<and> (\<forall>u. announced ev u (outbox_rows (aw_outbox w')) = announced ev u (outbox_rows (aw_outbox w)) + is_event ev event agg u)"
    by (auto simp: ids_fresh_snoc announced_snoc)
qed

lemma emit_is_scoped: "emit x event kind agg body = emit_scoped x None event kind agg body"
  by (rule ext) (simp add: emit_def emit_scoped_def no_options_def)

named_theorems quiet \<open>transactions that do not emit the event\<close>

lemma emit_silent: "event \<noteq> ev \<Longrightarrow> silent x ev (emit x event kind agg body)"
  and emit_scoped_silent: "event \<noteq> ev \<Longrightarrow> silent x ev (emit_scoped x org event kind agg body)"
proof -
  assume "event \<noteq> ev"
  then have e: "(\<lambda>_. is_event ev event agg) = (\<lambda>_ _. 0)" by (simp add: is_event_def fun_eq_iff)
  show "silent x ev (emit_scoped x org event kind agg body)" "silent x ev (emit x event kind agg body)"
    using emit_scoped_announces [of x ev event agg] unfolding e emit_is_scoped by blast+
qed

lemma silent_give [quiet]: "silent x ev (give y)"
  by (auto simp: announces_def give_def)

lemma announces_after:
  assumes "silent x ev m" and "\<And>a. announces x ev f (k a)"
  shows "announces x ev f (after m k)"
  unfolding announces_def
proof (intro allI impI)
  fix w y w' assume r: "after m k w = Inr (y, w')" and f: "ids_fresh x (outbox_rows (aw_outbox w))"
  from r obtain a w1 where 1: "m w = Inr (a, w1)" and 2: "k a w1 = Inr (y, w')" by (rule after_InrE)
  note d1 = announcesD [OF assms(1) 1 f]
  show "ids_fresh x (outbox_rows (aw_outbox w'))
     \<and> (\<forall>u. announced ev u (outbox_rows (aw_outbox w')) = announced ev u (outbox_rows (aw_outbox w)) + f y u)"
    using announcesD [OF assms(2) 2 d1(1)] d1(2) by simp
qed

lemma silent_after [quiet]: "silent x ev m \<Longrightarrow> (\<And>a. silent x ev (k a)) \<Longrightarrow> silent x ev (after m k)"
  by (rule announces_after)

lemma silent_each [quiet]: "(\<And>a. silent x ev (k a)) \<Longrightarrow> silent x ev (each k xs)"
  by (induction xs) (auto intro: quiet)

lemma silent_same_outbox:
  assumes "\<And>w y w'. m w = Inr (y, w') \<Longrightarrow> aw_outbox w' = aw_outbox w"
  shows "silent x ev m"
  using assms unfolding announces_def by (metis add_0_right)

lemma silent_ended: "ev \<noteq> ''admin.impersonation.stopped'' \<Longrightarrow> silent x ev (announce_impersonations_ended x reason ended)"
  unfolding announce_impersonations_ended_def by (intro silent_each emit_silent) simp

lemma announces_then:
  assumes "announces x ev (\<lambda>_. g) m" and "\<And>a. silent x ev (k a)"
  shows "announces x ev (\<lambda>_. g) (after m k)"
  unfolding announces_def
proof (intro allI impI)
  fix w y w' assume r: "after m k w = Inr (y, w')" and f: "ids_fresh x (outbox_rows (aw_outbox w))"
  from r obtain a w1 where 1: "m w = Inr (a, w1)" and 2: "k a w1 = Inr (y, w')" by (rule after_InrE)
  note d1 = announcesD [OF assms(1) 1 f]
  show "ids_fresh x (outbox_rows (aw_outbox w'))
     \<and> (\<forall>u. announced ev u (outbox_rows (aw_outbox w')) = announced ev u (outbox_rows (aw_outbox w)) + g u)"
    using announcesD [OF assms(2) 2 d1(1)] d1(2) by simp
qed

lemma silent_store: "silent x ev (store_read err e msg f)" "silent x ev (store_call err' op)"
  by (rule silent_same_outbox, auto simp: store_read_def store_call_def split: option.splits sum.splits prod.splits)+

lemma silent_write:
  assumes "\<And>w. aw_outbox (f w) = aw_outbox w"
  shows "silent x ev (account_write err f)"
  by (rule silent_same_outbox) (use assms in \<open>auto simp: account_write_def tx_simps split: if_splits\<close>)

text \<open>What two transactions, or those of a list, add up to.\<close>

lemma announces_both:
  assumes "announces x ev (\<lambda>_. g) m" and "\<And>a. announces x ev (\<lambda>_. h) (k a)"
  shows "announces x ev (\<lambda>_ u. g u + h u) (after m k)"
  unfolding announces_def
proof (intro allI impI)
  fix w y w' assume r: "after m k w = Inr (y, w')" and f: "ids_fresh x (outbox_rows (aw_outbox w))"
  from r obtain a w1 where 1: "m w = Inr (a, w1)" and 2: "k a w1 = Inr (y, w')" by (rule after_InrE)
  note d1 = announcesD [OF assms(1) 1 f]
  show "ids_fresh x (outbox_rows (aw_outbox w'))
     \<and> (\<forall>u. announced ev u (outbox_rows (aw_outbox w')) = announced ev u (outbox_rows (aw_outbox w)) + (g u + h u))"
    using announcesD [OF assms(2) 2 d1(1)] d1(2) by simp
qed

lemma announces_each:
  assumes "\<And>a. announces x ev (\<lambda>_. g a) (k a)"
  shows "announces x ev (\<lambda>_ u. sum_list (map (\<lambda>a. g a u) xs)) (each k xs)"
proof (induction xs)
  case (Cons a xs)
  have "announces x ev (\<lambda>_ u. g a u + sum_list (map (\<lambda>a. g a u) xs)) (after (k a) (\<lambda>_. each k xs))"
    by (rule announces_both [OF assms Cons])
  then show ?case by simp
qed (simp add: silent_give)

lemma sum_events: "distinct ids \<Longrightarrow> sum_list (map (\<lambda>i. is_event ev ev i u) ids) = (if u \<in> set ids then 1 else 0)"
  by (induction ids) (auto simp: is_event_def)

end
