(* ===== verification/Account_Runs.thy ===== *)
theory Account_Runs
  imports Event_Counts
begin

text \<open>
  Accounts over time: calls of different requests and of the sweep interleave between their transactions.
  An account that is deleted is announced so exactly once, and a run of the sweep accounts for the batch it
  read.
\<close>

section \<open>What the transactions announce\<close>

lemma silent_revoke:
  assumes "ev \<noteq> ''admin.staff.revoked''" and "ev \<noteq> ''admin.impersonation.stopped''"
  shows "silent (gc_call env) ev (revoke_staff_access env user)"
proof -
  have "silent (gc_call env) ev (case found of None \<Rightarrow> give () | Some r \<Rightarrow>
           after (store_call (\<lambda>_. StaffProviderFailed) (staff_revoke (x_error (gc_call env) ''revoke'') (gc_date env) user)) (\<lambda>ended.
           after (announce_impersonations_ended (gc_call env) ''revoked'' ended) (\<lambda>_.
             emit (gc_call env) ''admin.staff.revoked'' ''user'' user
               (JObj [(''actorUserId'', JStr user), (''userId'', JStr user), (''role'', role_json (sr_role r))]))))" for found
    by (cases found) (use assms in \<open>auto intro!: quiet silent_store silent_ended emit_silent\<close>)
  then show ?thesis unfolding revoke_staff_access_def by (intro silent_after silent_store)
qed

lemma silent_last_manager: "silent (gc_call env) ev (refused_last_manager env user)"
proof -
  have r: "silent (gc_call env) ev (refuse e)" for e by (simp add: announces_def refuse_def)
  show ?thesis unfolding refused_last_manager_def
    by (cases "is_listed (gc_call env) user") (auto intro!: quiet silent_store r)
qed

lemma announce_wipe_announces: "announces (gc_call env) ''user.deleted'' (\<lambda>_. is_event ''user.deleted'' ''user.deleted'' user) (announce_wipe env user out)"
proof -
  have s: "silent (gc_call env) ''user.deleted'' (case p of (a, b) \<Rightarrow> emit_scoped (gc_call env) (h b) event kind a (body a b))" if "event \<noteq> ''user.deleted''" for p event kind h body
    by (cases p) (simp add: emit_scoped_silent that)
  show ?thesis
    unfolding announce_wipe_def Let_def
    by (intro announces_then silent_after silent_each s emit_scoped_silent, unfold emit_is_scoped, rule emit_scoped_announces) simp_all
qed

lemma silent_notify: "silent (gc_call env) ev (notify_wiped env user s)"
  by (rule silent_same_outbox) (auto elim: notify_wiped_effect)

lemma wipe_call_outbox:
  assumes "account_wipe_call env user w = Inr (out, w')"
  shows "aw_outbox w' = aw_outbox w"
  using assms
  by (auto simp: account_wipe_call_Inr execute_wipe_def delete_sessions_of_def delete_sessions_where_def update_user_def
      erase_belongings_def delete_orgs_def Let_def split: if_splits prod.splits)

lemma wipe_tx_announces:
  assumes "wipe_tx env user s w = Inr (out, w')" and "\<not> wo_already out" and f: "ids_fresh (gc_call env) (outbox_rows (aw_outbox w))"
  shows "announced ''user.deleted'' u (outbox_rows (aw_outbox w')) = announced ''user.deleted'' u (outbox_rows (aw_outbox w)) + is_event ''user.deleted'' ''user.deleted'' user u"
proof -
  obtain out1 w1 w2 w3 w4 where
    1: "account_wipe_call env user w = Inr (out1, w1)" and
    2: "(announce_impersonations_ended (gc_call env) ''revoked'' (wo_ended out1) :: unit account_tx) w1 = Inr ((), w2)"
    and 3: "revoke_staff_access env user w2 = Inr ((), w3)" and 4: "announce_wipe env user out1 w3 = Inr ((), w4)"
    and 5: "notify_wiped env user s w4 = Inr ((), w')"
    using assms by (auto simp: wipe_tx_def after_Inr tx_simps split: if_splits)
  have f1: "ids_fresh (gc_call env) (outbox_rows (aw_outbox w1))" using f wipe_call_outbox [OF 1] by simp
  note d2 = announcesD [OF silent_ended [of "''user.deleted''"] 2 f1, simplified]
  note d3 = announcesD [OF silent_revoke [of "''user.deleted''"] 3 d2(1), simplified]
  note d4 = announcesD [OF announce_wipe_announces 4 d3(1)]
  note d5 = announcesD [OF silent_notify [of env "''user.deleted''"] 5 d4(1)]
  show ?thesis using d2(2) d3(2) d4(2) d5(2) wipe_call_outbox [OF 1] by simp
qed

section \<open>Interleavings\<close>

definition user_deleted :: "ident \<Rightarrow> account_world \<Rightarrow> bool" where
  "user_deleted user w \<longleftrightarrow> list_ex (\<lambda>u. us_id u = user \<and> us_deleted u \<noteq> None) (st_users (aw_staff w))"

text \<open>
  One committed or rolled back transaction of a request for deletion, a cancellation, a wipe or an export,
  whatever it had read before; or anything else that neither deletes nor restores an account nor announces
  a deletion.
\<close>

inductive account_step :: "account_world \<Rightarrow> account_world \<Rightarrow> bool" where
  asked: "ids_fresh (gc_call env) (outbox_rows (aw_outbox w)) \<Longrightarrow>
    run_tx commit_error (request_deletion_tx env user until) w = (w', out) \<Longrightarrow> account_step w w'"
| cancelled: "ids_fresh (gc_call env) (outbox_rows (aw_outbox w)) \<Longrightarrow>
    run_tx commit_error (cancel_deletion_tx env user) w = (w', out) \<Longrightarrow> account_step w w'"
| wiped: "ids_fresh (gc_call env) (outbox_rows (aw_outbox w)) \<Longrightarrow>
    run_tx commit_error (wipe_tx env user s) w = (w', out') \<Longrightarrow> account_step w w'"
| exported: "ids_fresh (gc_call env) (outbox_rows (aw_outbox w)) \<Longrightarrow>
    run_tx commit_error (export_tx env user key expires) w = (w', out) \<Longrightarrow> account_step w w'"
| elsewhere: "keyed us_id (st_users (aw_staff w')) \<Longrightarrow> (\<And>u. user_deleted u w' = user_deleted u w) \<Longrightarrow>
    (\<And>u. announced ''user.deleted'' u (outbox_rows (aw_outbox w')) = announced ''user.deleted'' u (outbox_rows (aw_outbox w))) \<Longrightarrow> account_step w w'"

definition accounts_told :: "account_world \<Rightarrow> bool" where
  "accounts_told w \<longleftrightarrow> keyed us_id (st_users (aw_staff w))
     \<and> (\<forall>u. announced ''user.deleted'' u (outbox_rows (aw_outbox w)) = (if user_deleted u w then 1 else 0))"

text \<open>What of the table of users says who is deleted.\<close>

definition status_of :: "account_world \<Rightarrow> (ident \<times> instant option) list" where
  "status_of w = map (\<lambda>u. (us_id u, us_deleted u)) (st_users (aw_staff w))"

lemma by_status:
  "user_deleted user w = list_ex (\<lambda>(i, d). i = user \<and> d \<noteq> None) (status_of w)"
  "keyed us_id (st_users (aw_staff w)) = distinct (map fst (status_of w))"
  by (simp_all add: user_deleted_def status_of_def list_ex_iff keyed_def comp_def)

lemma told_by_status:
  assumes "accounts_told w" and "status_of w' = status_of w"
    and "\<And>u. announced ''user.deleted'' u (outbox_rows (aw_outbox w')) = announced ''user.deleted'' u (outbox_rows (aw_outbox w))"
  shows "accounts_told w'"
  using assms by (simp add: accounts_told_def by_status)

lemma status_update:
  assumes "\<And>u. us_id (f u) = us_id u" and "\<And>u. us_deleted (f u) = us_deleted u"
  shows "status_of (update_user date hit f g w) = status_of w"
  using assms by (simp add: status_of_def update_user_def Let_def sql_update_def)

lemma refused_last_manager_same: "refused_last_manager env user w = Inr (u, w') \<Longrightarrow> w' = w"
  by (auto simp: refused_last_manager_def after_Inr tx_simps split: if_splits)

lemma account_write_Inr: "account_write err f w = Inr (u, w') \<Longrightarrow> w' = f w"
  by (auto simp: account_write_def tx_simps split: if_splits)

lemma emit_status: "(emit x event kind agg body :: unit account_tx) w = Inr (u, w') \<Longrightarrow> status_of w' = status_of w"
  by (rule only_outboxD [OF only_outbox_emit]) (auto simp: status_of_def)

lemma request_quiet:
  assumes "request_deletion_tx env user until w = Inr (u, w')" and "ids_fresh (gc_call env) (outbox_rows (aw_outbox w))"
  shows "status_of w' = status_of w \<and> announced ''user.deleted'' v (outbox_rows (aw_outbox w')) = announced ''user.deleted'' v (outbox_rows (aw_outbox w))"
proof -
  have "silent (gc_call env) ''user.deleted'' (request_deletion_tx env user until)"
    unfolding request_deletion_tx_def
    by (intro silent_after silent_last_manager silent_write emit_silent) (simp_all add: mark_pending_deletion_def update_user_def Let_def)
  from announcesD(2) [OF this assms] have a: "announced ''user.deleted'' v (outbox_rows (aw_outbox w')) = announced ''user.deleted'' v (outbox_rows (aw_outbox w))" by simp
  obtain w1 w2 where "refused_last_manager env user w = Inr ((), w1)"
    and "account_write (x_error (gc_call env) ''markPendingDeletion'') (mark_pending_deletion (gc_date env) user until) w1 = Inr ((), w2)"
    and "(emit (gc_call env) ''user.deletion.requested'' ''user'' user
         (JObj [(''userId'', JStr user), (''pendingDeletionUntil'', JStr (x_iso (gc_call env) until))]) :: unit account_tx) w2 = Inr (u, w')"
    using assms(1) by (auto simp: request_deletion_tx_def after_Inr)
  then have "status_of w' = status_of (mark_pending_deletion (gc_date env) user until w)"
    by (auto dest!: refused_last_manager_same account_write_Inr emit_status)
  then show ?thesis using a by (simp add: mark_pending_deletion_def status_update)
qed

lemma cancel_quiet:
  assumes "cancel_deletion_tx env user w = Inr (u, w')" and "ids_fresh (gc_call env) (outbox_rows (aw_outbox w))"
  shows "status_of w' = status_of w \<and> announced ''user.deleted'' v (outbox_rows (aw_outbox w')) = announced ''user.deleted'' v (outbox_rows (aw_outbox w))"
proof -
  have "silent (gc_call env) ''user.deleted'' (cancel_deletion_tx env user)"
    unfolding cancel_deletion_tx_def
    by (intro silent_after silent_write emit_silent) (simp_all add: clear_pending_deletion_def update_user_def Let_def)
  from announcesD(2) [OF this assms] have a: "announced ''user.deleted'' v (outbox_rows (aw_outbox w')) = announced ''user.deleted'' v (outbox_rows (aw_outbox w))" by simp
  obtain w1 where "account_write (x_error (gc_call env) ''clearPendingDeletion'') (clear_pending_deletion (gc_date env) user) w = Inr ((), w1)"
    and "(emit (gc_call env) ''user.deletion.cancelled'' ''user'' user (JObj [(''userId'', JStr user)]) :: unit account_tx) w1 = Inr (u, w')"
    using assms(1) by (auto simp: cancel_deletion_tx_def after_Inr)
  then have "status_of w' = status_of (clear_pending_deletion (gc_date env) user w)"
    by (auto dest!: account_write_Inr emit_status)
  then show ?thesis using a by (simp add: clear_pending_deletion_def status_update)
qed

lemma export_quiet:
  assumes "export_tx env user key expires w = Inr (u, w')" and "ids_fresh (gc_call env) (outbox_rows (aw_outbox w))"
  shows "status_of w' = status_of w \<and> announced ''user.deleted'' v (outbox_rows (aw_outbox w')) = announced ''user.deleted'' v (outbox_rows (aw_outbox w))"
proof -
  have "silent (gc_call env) ''user.deleted'' (export_tx env user key expires)"
    unfolding export_tx_def
    by (intro silent_after silent_write emit_silent) (simp_all add: touch_export_requested_def update_user_def Let_def)
  from announcesD(2) [OF this assms] have a: "announced ''user.deleted'' v (outbox_rows (aw_outbox w')) = announced ''user.deleted'' v (outbox_rows (aw_outbox w))" by simp
  obtain w1 w2 where "account_write (x_error (gc_call env) ''touchExportRequestedAt'') (touch_export_requested (gc_date env) user) w = Inr ((), w1)"
    and "(emit (gc_call env) ''user.export.requested'' ''user'' user (JObj [(''userId'', JStr user)]) :: unit account_tx) w1 = Inr ((), w2)"
    and "(emit (gc_call env) ''user.export.completed'' ''user'' user
         (JObj [(''userId'', JStr user), (''storageKey'', JStr key), (''expiresAt'', JStr (x_iso (gc_call env) expires))]) :: unit account_tx) w2 = Inr (u, w')"
    using assms(1) by (auto simp: export_tx_def after_Inr)
  then have "status_of w' = status_of (touch_export_requested (gc_date env) user w)"
    by (auto dest!: account_write_Inr emit_status)
  then show ?thesis using a by (simp add: touch_export_requested_def status_update)
qed

text \<open>A wipe that found the account marks it, and nobody else.\<close>

lemma wiped_status:
  assumes "wipe_tx env user s w = Inr (out, w')" and "\<not> wo_already out"
  shows "status_of w' = map (\<lambda>(i, d). (i, if i = user \<and> d = None then Some (gc_date env) else d)) (status_of w)"
    and "list_ex (wipe_hit user) (st_users (aw_staff w))"
proof -
  obtain w1 ob t where x: "execute_wipe (x_error (gc_call env) ''executeWipe'') (gc_date env) (x_fresh (gc_call env)) user w = (w1, Inr out)"
    and w': "w' = w1\<lparr>aw_staff := staff_left (gc_date env) user (aw_staff w1), aw_outbox := ob, ac_mail := t\<rparr>"
    by (rule wipe_tx_effect [OF assms])
  note e = execute_wipe_world [OF x assms(2)]
  show "list_ex (wipe_hit user) (st_users (aw_staff w))" by (rule e(1))
  have "map (\<lambda>u. (us_id u, us_deleted u)) (st_users (staff_left date user db)) = map (\<lambda>u. (us_id u, us_deleted u)) (st_users db)" for date db
    by (simp add: staff_left_tables sql_update_def)
  then have "status_of w' = map (\<lambda>u. (us_id u, us_deleted u)) (st_users (aw_staff w1))" by (simp add: w' status_of_def)
  also have "\<dots> = map (\<lambda>(i, d). (i, if i = user \<and> d = None then Some (gc_date env) else d)) (status_of w)"
    by (simp add: e(2) delete_orgs_def emptied_tables wiped_row_tables status_of_def sql_update_def wipe_hit_def)
  finally show "status_of w' = map (\<lambda>(i, d). (i, if i = user \<and> d = None then Some (gc_date env) else d)) (status_of w)" .
qed

lemma wiped_told:
  assumes "accounts_told w" and "wipe_tx env user s w = Inr (out, w')" and "ids_fresh (gc_call env) (outbox_rows (aw_outbox w))"
  shows "accounts_told w'"
proof (cases "wo_already out")
  case True
  then show ?thesis using wipe_tx_already(1) [OF assms(2)] assms(1) by simp
next
  case False
  note st = wiped_status [OF assms(2) False]
  have k: "keyed us_id (st_users (aw_staff w'))"
    using assms(1) by (simp add: accounts_told_def by_status st(1) comp_def case_prod_unfold)
  obtain r where r: "r \<in> set (st_users (aw_staff w))" "us_id r = user" "us_deleted r = None"
    using st(2) by (auto simp: list_ex_iff wipe_hit_def)
  have not_before: "\<not> user_deleted user w"
  proof
    assume "user_deleted user w"
    then obtain r' where r': "r' \<in> set (st_users (aw_staff w))" "us_id r' = user" "us_deleted r' \<noteq> None"
      by (auto simp: user_deleted_def list_ex_iff)
    have "r' = r" by (rule keyed_unique [of us_id "st_users (aw_staff w)"]) (use assms(1) r r' in \<open>simp_all add: accounts_told_def\<close>)
    then show False using r r' by simp
  qed
  have "(user, None) \<in> set (status_of w)" unfolding status_of_def using r by force
  then have now: "user_deleted user w'" by (force simp: by_status st(1) list_ex_iff)
  have others: "user_deleted u w' = user_deleted u w" if "u \<noteq> user" for u
    using that by (simp add: by_status st(1) list_ex_iff case_prod_unfold) auto
  have "announced ''user.deleted'' u (outbox_rows (aw_outbox w')) = (if user_deleted u w' then 1 else 0)" for u
    using wipe_tx_announces [OF assms(2) False assms(3), of u] assms(1) not_before now others [of u]
    by (cases "u = user") (simp_all add: accounts_told_def is_event_def)
  then show ?thesis using k by (simp add: accounts_told_def)
qed

text \<open>
  C38: however requests, cancellations, wipes and exports interleave, with whichever of them failing, an
  account that is deleted has been announced as deleted exactly once, and one that is not never.
\<close>

theorem deleted_announced_once:
  assumes "account_step\<^sup>*\<^sup>* w w'" and "accounts_told w"
  shows "announced ''user.deleted'' user (outbox_rows (aw_outbox w')) = (if user_deleted user w' then 1 else 0)"
proof -
  have "accounts_told w'"
    using assms
  proof (induction rule: rtranclp_induct)
    case (step v v')
    from step(2) show ?case
    proof cases
      case (asked env commit_error user until out)
      then show ?thesis
        using step.IH [OF step.prems] request_quiet told_by_status
        by (cases "\<exists>y. out = Inr (Inr y)") (metis commits rolls_back)+
    next
      case (cancelled env commit_error user out)
      then show ?thesis
        using step.IH [OF step.prems] cancel_quiet told_by_status
        by (cases "\<exists>y. out = Inr (Inr y)") (metis commits rolls_back)+
    next
      case (wiped env commit_error user s out)
      then show ?thesis
        using step.IH [OF step.prems] wiped_told by (cases "\<exists>y. out = Inr (Inr y)") (metis commits rolls_back)+
    next
      case (exported env commit_error user key expires out)
      then show ?thesis
        using step.IH [OF step.prems] export_quiet told_by_status
        by (cases "\<exists>y. out = Inr (Inr y)") (metis commits rolls_back)+
    next
      case elsewhere
      then show ?thesis using step.IH [OF step.prems] by (simp add: accounts_told_def)
    qed
  qed
  then show ?thesis by (simp add: accounts_told_def)
qed

text \<open>A wipe, whatever committed between its read and its transaction.\<close>

lemma wipe_is_a_step:
  assumes "account_step\<^sup>*\<^sup>* w (between w)" and "ids_fresh (gc_call env) (outbox_rows (aw_outbox (between w)))"
    and "execute_account_wipe env user between w = (w', out)"
  shows "account_step\<^sup>*\<^sup>* w w'"
  using assms(3)
proof (cases rule: account_wipe_cases)
  case (wiped s t o')
  have "run_tx None (wipe_tx env user s) (between w) = (w', Inr (Inr o'))" using wiped(5) by (simp add: run_tx_def)
  then have "account_step (between w) w'" by (rule account_step.wiped [OF assms(2)])
  then show ?thesis using assms(1) by simp
qed (use assms(1) in simp_all)

section \<open>The sweep\<close>

text \<open>What anything between two statements of the sweep leaves: users stay, and who is deleted stays deleted.\<close>

definition keeps_users :: "account_world \<Rightarrow> account_world \<Rightarrow> bool" where
  "keeps_users w w' \<longleftrightarrow> us_id ` set (st_users (aw_staff w)) \<subseteq> us_id ` set (st_users (aw_staff w'))
     \<and> (\<forall>u. user_deleted u w \<longrightarrow> user_deleted u w')"

lemma keeps_users_refl: "keeps_users w w"
  by (simp add: keeps_users_def)

lemma wiped_keeps_users:
  assumes "wipe_tx env user s w = Inr (out, w')"
  shows "keeps_users w w'"
proof (cases "wo_already out")
  case True
  then show ?thesis using wipe_tx_already(1) [OF assms] keeps_users_refl by simp
next
  case False
  note st = wiped_status(1) [OF assms False]
  have ids: "us_id ` set (st_users (aw_staff v)) = fst ` set (status_of v)" for v by (force simp: status_of_def)
  have "user_deleted u w'" if "user_deleted u w" for u
    using that unfolding by_status st by (force simp: list_ex_iff)
  then show ?thesis unfolding keeps_users_def ids st by force
qed

lemma wipe_marks:
  assumes "execute_account_wipe env user between w = (w', out)" and "keeps_users w (between w)"
  shows "\<And>u. user_deleted u w \<Longrightarrow> user_deleted u w'" and "out = Inr (Inr done) \<Longrightarrow> user_deleted user w'"
proof -
  have read: "\<exists>u \<in> set (st_users (aw_staff w)). us_id u = user \<and> us_deleted u = ds_deleted s" if "load_deletion_state env user w = Inr s" for s
    using that by (auto simp: load_deletion_state_def get_deletion_state_def dest!: row_of_Some split: option.splits if_splits)
  from assms(1) have "(\<forall>u. user_deleted u w \<longrightarrow> user_deleted u w') \<and> (out = Inr (Inr done) \<longrightarrow> user_deleted user w')"
  proof (cases rule: account_wipe_cases)
    case (deleted s)
    then show ?thesis using read [OF deleted(1)] by (auto simp: user_deleted_def list_ex_iff)
  next
    case (failed s e)
    then show ?thesis using assms(2) by (auto simp: keeps_users_def)
  next
    case (wiped s t o')
    have k: "\<forall>u. user_deleted u w \<longrightarrow> user_deleted u w'"
      using assms(2) wiped_keeps_users [OF wiped(5)] by (auto simp: keeps_users_def)
    have "user \<in> us_id ` set (st_users (aw_staff (between w)))" using read [OF wiped(1)] assms(2) by (auto simp: keeps_users_def)
    then obtain r where r: "r \<in> set (st_users (aw_staff (between w)))" "us_id r = user" by blast
    have "user_deleted user w'"
    proof (cases "wo_already o'")
      case True
      then have "us_deleted r \<noteq> None" using wipe_tx_already(3) [OF wiped(5)] r by (auto simp: list_ex_iff wipe_hit_def)
      then show ?thesis using r wipe_tx_already(1) [OF wiped(5) True] by (auto simp: user_deleted_def list_ex_iff)
    next
      case False
      have "(user, us_deleted r) \<in> set (status_of (between w))" using r by (force simp: status_of_def)
      then show ?thesis unfolding by_status wiped_status(1) [OF wiped(5) False] by (cases "us_deleted r") (force simp: list_ex_iff)+
    qed
    with k show ?thesis by simp
  qed simp_all
  then show "\<And>u. user_deleted u w \<Longrightarrow> user_deleted u w'" "out = Inr (Inr done) \<Longrightarrow> user_deleted user w'" by blast+
qed

text \<open>The loop accounts for the part of the batch it reached; \<open>D\<close> is what a success leaves.\<close>

lemma wipe_each_reports:
  assumes "wipe_each clock deadline wipe i batch (s0, f0) w = (w', (s, f), truncated)"
    and "\<And>i u v v' out. wipe i u v = (v', out) \<Longrightarrow> (\<forall>x. D x v \<longrightarrow> D x v') \<and> ((\<exists>y. out = Inr (Inr y)) \<longrightarrow> D u v')"
    and "\<forall>u \<in> set s0. D u w"
  shows "\<exists>reached rest. batch = reached @ rest \<and> truncated = (rest \<noteq> [])
    \<and> (\<forall>k < length reached. clock (i + k) < deadline) \<and> (rest \<noteq> [] \<longrightarrow> deadline \<le> clock (i + length reached))
    \<and> mset s + mset (map fst f) = mset s0 + mset (map fst f0) + mset reached \<and> (\<forall>u \<in> set s. D u w')"
  using assms(1,3)
proof (induction batch arbitrary: i s0 f0 w)
  case (Cons user batch)
  show ?case
  proof (cases "deadline \<le> clock i")
    case True
    then have "truncated \<and> s = s0 \<and> f = f0 \<and> w' = w" using Cons.prems(1) by auto
    then show ?thesis using Cons.prems(2) True by (intro exI [of _ "[]"] exI [of _ "user # batch"]) simp
  next
    case False
    obtain w1 out where x: "wipe i user w = (w1, out)" by fastforce
    define s1 where "s1 = (case out of Inr (Inr _) \<Rightarrow> s0 @ [user] | _ \<Rightarrow> s0)"
    define f1 where "f1 = (case out of Inl _ \<Rightarrow> f0 @ [(user, WipeUncaught)] | Inr (Inl e) \<Rightarrow> f0 @ [(user, FailedWith e)] | _ \<Rightarrow> f0)"
    have r: "wipe_each clock deadline wipe (Suc i) batch (s1, f1) w1 = (w', (s, f), truncated)"
      using Cons.prems(1) False x by (auto simp: s1_def f1_def split: sum.splits)
    have d: "\<forall>u \<in> set s1. D u w1" using assms(2) [OF x] Cons.prems(2) by (auto simp: s1_def split: sum.splits)
    have m: "mset s1 + mset (map fst f1) = mset s0 + mset (map fst f0) + {#user#}" by (auto simp: s1_def f1_def split: sum.splits)
    from Cons.IH [OF r d] obtain reached rest where later: "batch = reached @ rest" "truncated = (rest \<noteq> [])"
      "\<forall>k < length reached. clock (Suc i + k) < deadline" "rest \<noteq> [] \<longrightarrow> deadline \<le> clock (Suc i + length reached)"
      "mset s + mset (map fst f) = mset s1 + mset (map fst f1) + mset reached" "\<forall>u \<in> set s. D u w'" by blast
    have "\<forall>k < length (user # reached). clock (i + k) < deadline"
      using later(3) False by (auto simp: less_Suc_eq_0_disj)
    then show ?thesis using m later by (intro exI [of _ "user # reached"] exI [of _ rest]) simp
  qed
qed simp


section \<open>Examples\<close>

lemma replicate_ids_fresh: "ids_fresh (example_account_call date) []"
  by (auto simp: ids_fresh_def example_account_call_def inj_def)

lemma example_account_step: "account_step example_accounts after_example_wipe"
proof -
  obtain s t o' where "wipe_tx (example_account_env 10) ''ann'' s example_accounts = Inr (o', after_example_wipe)"
    by (rule account_wipe_cases [OF example_wipe]) simp_all
  then have "run_tx None (wipe_tx (example_account_env 10) ''ann'' s) example_accounts = (after_example_wipe, Inr (Inr o'))"
    by (simp add: run_tx_def)
  then show ?thesis
    by (rule account_step.wiped [rotated]) (use replicate_ids_fresh [of 10] in \<open>simp add: example_account_env_def example_accounts_def\<close>)
qed

lemma example_told: "accounts_told example_accounts"
proof -
  have "keyed us_id (st_users (aw_staff example_accounts))" and "outbox_rows (aw_outbox example_accounts) = []"
    and "list_all (\<lambda>u. us_deleted u = None) (st_users (aw_staff example_accounts))" by code_simp+
  then show ?thesis by (auto simp: accounts_told_def announced_def user_deleted_def list_ex_iff list_all_iff)
qed

theorem deleted_announced_once_witness:
  "announced ''user.deleted'' ''ann'' (outbox_rows (aw_outbox after_example_wipe)) = 1 \<and> announced ''user.deleted'' ''bob'' (outbox_rows (aw_outbox after_example_wipe)) = 0"
proof -
  have "user_deleted ''ann'' after_example_wipe" "\<not> user_deleted ''bob'' after_example_wipe" by code_simp+
  then show ?thesis using deleted_announced_once [OF r_into_rtranclp [of account_step, OF example_account_step] example_told] by simp
qed

definition example_sweep :: "account_world \<times> (deletion_sweep, account_error) result" where
  "example_sweep = process_pending_deletions (example_account_env 10) (\<lambda>_. example_account_env 10) (\<lambda>_. id) (\<lambda>i. int i)
     \<lparr>di_batch = None, di_dry_run = None, di_deadline_ms = None\<rparr> example_accounts"


section \<open>What the wipe does not look at and does not erase\<close>

text \<open>
  A cancellation that commits between the read of a wipe and its transaction: it reports success, and the
  account is wiped all the same, since the wipe asks only that the account be not deleted yet.
\<close>

definition cancel_example :: "account_world \<Rightarrow> account_world" where
  "cancel_example w = fst (cancel_account_deletion (example_account_env 9) ''ann'' id w)"

lemma cancelled_account_wiped:
  "snd (cancel_account_deletion (example_account_env 9) ''ann'' id example_accounts) = Inr (Inr ())"
  "us_pending_deletion (hd (st_users (aw_staff (cancel_example example_accounts)))) = None"
  "snd (execute_account_wipe (example_account_env 10) ''ann'' cancel_example example_accounts) = Inr (Inr ([''own'', ''solo''], 1))"
  "user_deleted ''ann'' (fst (execute_account_wipe (example_account_env 10) ''ann'' cancel_example example_accounts))"
  by code_simp+

text \<open>The address a user asked to change to stays in the row of the user.\<close>

lemma new_address_survives:
  "map pf_pending_email (ac_profiles (wiped_row date uuid user w)) = map pf_pending_email (ac_profiles w)"
  by (simp add: wiped_row_tables sql_update_def anonymized_profile_def comp_def)

lemma new_address_survives_example: "pf_pending_email (hd (ac_profiles after_example_wipe)) = Some ''ann@new.org''"
  by code_simp

text \<open>Keys that the object store failed to delete are counted as deleted.\<close>

lemma failed_deletion_counted:
  "gc_list env (user @ ''/'') = Inr (Inr keys) \<Longrightarrow> gc_delete env keys = Inr (Inl e) \<Longrightarrow> purge_user_objects env user = Inr (length keys)"
  by (simp add: purge_user_objects_def)

text \<open>
  Who owns an organization is asked when a deletion is requested, not when it happens: an account that has
  become the only owner of a shared one leaves it with members and without an owner.
\<close>

definition owning_ann :: account_world where
  "owning_ann = example_accounts\<lparr>ac_members := [plain_member ''m3'' ''ann'' ''team'' ''owner'', plain_member ''m4'' ''bob'' ''team'' ''member'']\<rparr>"

lemma wiped_owner_leaves_members:
  "sole_owned_with_members ''ann'' owning_ann = [\<lparr>sw_org = ''team'', sw_name = ''team'', sw_others = 1\<rparr>]"
  "snd (execute_account_wipe (example_account_env 10) ''ann'' id owning_ann) = Inr (Inr ([], 1))"
  "(let w = fst (execute_account_wipe (example_account_env 10) ''ann'' id owning_ann)
    in members_of ''team'' (ac_members w) = 1 \<and> owners_of ''team'' (ac_members w) = 0)"
  by code_simp+

end
