(* ===== verification/Account_Requests.thy ===== *)
theory Account_Requests
  imports Account_Runs
begin

text \<open>
  What a request for deletion has passed when it is recorded: nobody is left without an owner, the person
  has confirmed, and somebody can still manage the staff.
\<close>

section \<open>The last manager\<close>

lemma others_same_mark: "others_same user (aw_staff w) (aw_staff (mark_pending_deletion date user until w))"
  by (simp add: others_same_def mark_pending_deletion_def update_user_def Let_def filter_update_other)

lemma request_tx_effect:
  assumes "request_deletion_tx env user until w = Inr (u, w')"
  shows "refused_last_manager env user w = Inr ((), w)"
    and "aw_staff w' = aw_staff (mark_pending_deletion (gc_date env) user until w)"
proof -
  obtain w1 w2 where 1: "refused_last_manager env user w = Inr ((), w1)"
    and 2: "account_write (x_error (gc_call env) ''markPendingDeletion'') (mark_pending_deletion (gc_date env) user until) w1 = Inr ((), w2)"
    and 3: "(emit (gc_call env) ''user.deletion.requested'' ''user'' user
         (JObj [(''userId'', JStr user), (''pendingDeletionUntil'', JStr (x_iso (gc_call env) until))]) :: unit account_tx) w2 = Inr (u, w')"
    using assms by (auto simp: request_deletion_tx_def after_Inr)
  have "w1 = w" by (rule refused_last_manager_same [OF 1])
  then show "refused_last_manager env user w = Inr ((), w)" using 1 by simp
  have "aw_staff w' = aw_staff w2" by (rule only_outboxD [OF only_outbox_emit 3]) simp
  then show "aw_staff w' = aw_staff (mark_pending_deletion (gc_date env) user until w)"
    using account_write_Inr [OF 2] \<open>w1 = w\<close> by simp
qed

lemma request_leaves_a_manager:
  assumes "request_deletion_tx env user until w = Inr (u, w')" and "staff_tables_ok (aw_staff w)"
    and "\<not> is_listed (gc_call env) user" and "able_to_manage (x_staff_env (gc_call env)) (gc_date env) (aw_staff w) v"
  shows "\<exists>v. able_to_manage (x_staff_env (gc_call env)) (gc_date env) (aw_staff w') v"
proof -
  let ?senv = "x_staff_env (gc_call env)" and ?db = "aw_staff w"
  note e = request_tx_effect [OF assms(1)]
  have kept: "able_to_manage ?senv (gc_date env) (aw_staff w') x" if "able_to_manage ?senv (gc_date env) ?db x" "x \<noteq> user" for x
    using able_other [OF others_same_mark that(2)] that(1) e(2) by simp
  show ?thesis
  proof (cases "v = user")
    case True
    obtain m a where m: "m \<in> set (st_members ?db)" "sm_user m = user" "sm_role m = Manager" "sm_revoked m = None"
      "grants_staff_access user (sm_source m) ?senv" and a: "a \<in> set (st_users ?db)" "us_id a = user"
      using assms(4) True by (auto simp: able_to_manage_def)
    have "find_active (gc_date env) user ?db = Some \<lparr>sr_user = user, sr_role = Manager, sr_source = sm_source m,
        sr_banned = ban_is_live (us_banned a) (us_ban_expires a) (gc_date env),
        sr_overrides = map override_of (filter (\<lambda>r. so_user r = user \<and> so_revoked r = None) (st_overrides ?db))\<rparr>"
      using find_active_of [OF assms(2) m(1,4) a(1)] m a by simp
    then have "\<not> is_last_manager user (active_managers (gc_date env) ?db) ?senv"
      using e(1) assms(3) m(5) by (auto simp: refused_last_manager_def after_Inr tx_simps granting_def split: if_splits)
    then show ?thesis using kept unfolding is_last_manager_able by blast
  qed (use kept assms(4) in blast)
qed

section \<open>A request\<close>

text \<open>What counts as confirming: a code the verifier accepted, or the password.\<close>

definition confirmed :: "account_env \<Rightarrow> deletion_request \<Rightarrow> deletion_state \<Rightarrow> account_world \<Rightarrow> bool" where
  "confirmed env q s w \<longleftrightarrow>
     (if ds_two_factor s
      then \<exists>code w'. dq_code q = Some code \<and> totp_consume (gc_steps env) (dq_user q) code w = Inr (Accepted, w')
      else \<exists>c hash password. c \<in> set (ac_credentials w) \<and> cd_user c = dq_user q \<and> cd_provider c = ''credential''
             \<and> cd_password c = Some hash \<and> dq_password q = Some password \<and> gc_verify env hash password = Some True)"

lemma confirm_asker_confirms:
  assumes "confirm_asker env q s w = (w', Inr u)"
  shows "confirmed env q s w"
proof (cases "ds_two_factor s")
  case True
  then obtain code outcome where "dq_code q = Some code" "totp_consume (gc_steps env) (dq_user q) code w = Inr (outcome, w')" "outcome = Accepted"
    using assms by (auto simp: confirm_asker_def given_def split: option.splits if_splits sum.splits)
  then show ?thesis using True by (auto simp: confirmed_def)
next
  case False
  then obtain password where p: "dq_password q = Some password" "verify_password (gc_verify env) (dq_user q) password w = Some True"
    using assms by (auto simp: confirm_asker_def given_def split: option.splits if_splits)
  then obtain c hash where "List.find (\<lambda>c. cd_user c = dq_user q \<and> cd_provider c = ''credential'') (ac_credentials w) = Some c"
    "cd_password c = Some hash" "gc_verify env hash password = Some True"
    by (auto simp: verify_password_def split: option.splits if_splits)
  moreover from this(1) have "c \<in> set (ac_credentials w) \<and> cd_user c = dq_user q \<and> cd_provider c = ''credential''"
    by (auto simp: find_Some_iff)
  ultimately show ?thesis using False p(1) unfolding confirmed_def by auto
qed

lemma send_template_staff: "send_template env template to vars key locale w = (w', r) \<Longrightarrow> aw_staff w' = aw_staff w"
  by (erule send_template_effect) simp

lemma request_succeeds:
  assumes "request_account_deletion env q between w = (w', Inr (Inr until))"
    and "get_deletion_state (dq_user q) w = Some s" and "ds_pending s = None"
  obtains w1 w2 where "sole_owned_with_members (dq_user q) w = []" and "confirm_asker env q s w = (w1, Inr ())"
    and "request_deletion_tx env (dq_user q) until (between w1) = Inr ((), w2)" and "until = deletion_due env"
    and "aw_staff w' = aw_staff w2"
proof -
  have l: "load_deletion_state env (dq_user q) w = Inr s"
    using assms(1,2) by (auto simp: request_account_deletion_def load_deletion_state_def split: if_splits)
  have b: "blocking_orgs env (dq_user q) w = Inr []"
    using assms(1,3) l by (auto simp: request_account_deletion_def split: sum.splits if_splits)
  then have sole: "sole_owned_with_members (dq_user q) w = []" by (auto simp: blocking_orgs_def split: if_splits)
  obtain w1 c where ca: "confirm_asker env q s w = (w1, c)" by fastforce
  have c: "c = Inr ()" using assms(1,3) l b ca by (auto simp: request_account_deletion_def split: sum.splits)
  obtain w2 r where run: "run_tx (x_commit_error (gc_call env)) (request_deletion_tx env (dq_user q) (deletion_due env)) (between w1) = (w2, r)"
    by fastforce
  have r: "r = Inr (Inr ())"
    using assms(1,3) l b ca c run by (auto simp: request_account_deletion_def Let_def split: sum.splits)
  obtain w3 sent where mail: "send_template env ''delete_requested'' (ds_email s)
       (JObj [(''name'', JStr (ds_name s)), (''cancelUrl'', JStr (gc_app_url env @ ''/settings/account'')),
              (''expiresAt'', JStr (x_iso (gc_call env) (deletion_due env)))])
       (Some (''delete-requested/'' @ dq_user q @ ''/'' @ show_int (deletion_due env))) (ds_locale s) w2 = (w3, sent)" by fastforce
  have "until = deletion_due env \<and> w' = w3"
    using assms(1,3) l b ca c run r mail by (auto simp: request_account_deletion_def Let_def split: sum.splits)
  moreover have "request_deletion_tx env (dq_user q) (deletion_due env) (between w1) = Inr ((), w2)"
    using run unfolding r by (rule commits)
  ultimately show ?thesis using that [OF sole] ca c send_template_staff [OF mail] by simp
qed

text \<open>
  C40: a request for deletion of an account that has none pending, when it is recorded, found no shared
  organization that the account alone owns and was confirmed with a code or with the password of the account;
  the date written in the row of the account, and returned, is the end of the whole grace, and no other row of
  the users is touched; and if somebody could manage the staff before, somebody still can, unless the settings
  list the account: one they list is let through whatever becomes of the staff.
\<close>

theorem deletion_request_guarded:
  assumes "request_account_deletion env q between w = (w', Inr (Inr until))"
    and "get_deletion_state (dq_user q) w = Some s" and "ds_pending s = None"
    and "w1 = between (fst (confirm_asker env q s w))"
    and "staff_tables_ok (aw_staff w1)"
    and "able_to_manage (x_staff_env (gc_call env)) (gc_date env) (aw_staff w1) u"
  shows "sole_owned_with_members (dq_user q) w = [] \<and> confirmed env q s w
    \<and> until = gc_date env + gc_grace_days env * 86400000
    \<and> st_users (aw_staff w') = map (\<lambda>r. if us_id r = dq_user q then r\<lparr>us_pending_deletion := Some until\<rparr> else r) (st_users (aw_staff w1))
    \<and> (is_listed (gc_call env) (dq_user q) \<or> (\<exists>u. able_to_manage (x_staff_env (gc_call env)) (gc_date env) (aw_staff w') u))"
proof -
  obtain v w2 where r: "sole_owned_with_members (dq_user q) w = []" "confirm_asker env q s w = (v, Inr ())"
    "request_deletion_tx env (dq_user q) until (between v) = Inr ((), w2)" "until = deletion_due env" "aw_staff w' = aw_staff w2"
    by (rule request_succeeds [OF assms(1-3)])
  have v: "between v = w1" using assms(4) r(2) by simp
  have "\<exists>u. able_to_manage (x_staff_env (gc_call env)) (gc_date env) (aw_staff w') u" if n: "\<not> is_listed (gc_call env) (dq_user q)"
    using request_leaves_a_manager [OF r(3) _ n] assms(5,6) r(5) v by simp
  moreover have "st_users (aw_staff w') = map (\<lambda>r. if us_id r = dq_user q then r\<lparr>us_pending_deletion := Some until\<rparr> else r) (st_users (aw_staff w1))"
    using request_tx_effect(2) [OF r(3)] r(5) v
    by (simp add: mark_pending_deletion_def update_user_def sql_update_def Let_def)
  ultimately show ?thesis using r confirm_asker_confirms [OF r(2)] by (auto simp: deletion_due_def)
qed

section \<open>Example\<close>

definition standing_accounts :: account_world where
  "standing_accounts = clear_pending_deletion 0 ''ann'' example_accounts"

definition example_request :: deletion_request where
  "example_request = \<lparr>dq_user = ''ann'', dq_code = None, dq_password = Some ''h''\<rparr>"

definition example_asked :: "account_world \<times> (instant, account_error) result throws" where
  "example_asked = request_account_deletion (example_account_env 10) example_request (\<lambda>_. standing_accounts) standing_accounts"

lemma example_mail:
  "ac_mail w = [] \<Longrightarrow> key \<noteq> [] \<Longrightarrow> \<exists>w'. send_template (example_account_env d) t to vars (Some key) locale w = (w', Inr (Inr ()))"
  by (simp add: send_template_def example_account_env_def example_account_call_def service_enqueue_def email_enqueue_def
      batch_row_key_def email_insert_row_def Let_def)

lemma example_asked_out: "snd example_asked = Inr (Inr 604800010)"
proof -
  let ?env = "example_account_env 10"
  have l: "load_deletion_state ?env (dq_user example_request) standing_accounts = Inr \<lparr>ds_email = ''ann@x.org'', ds_name = ''ann'',
      ds_locale = None, ds_two_factor = False, ds_pending = None, ds_deleted = None, ds_last_export = None\<rparr>" (is "_ = Inr ?s") by code_simp
  have b: "blocking_orgs ?env (dq_user example_request) standing_accounts = Inr []" by code_simp
  obtain w1 c where ca: "confirm_asker ?env example_request ?s standing_accounts = (w1, c)" by fastforce
  have "snd (confirm_asker ?env example_request ?s standing_accounts) = Inr ()" by code_simp
  then have c: "c = Inr ()" using ca by simp
  have due: "deletion_due ?env = 604800010" by code_simp
  obtain w2 r where run: "run_tx (x_commit_error (gc_call ?env)) (request_deletion_tx ?env (dq_user example_request) 604800010) standing_accounts = (w2, r)"
    by fastforce
  have "snd (run_tx (x_commit_error (gc_call ?env)) (request_deletion_tx ?env (dq_user example_request) 604800010) standing_accounts) = Inr (Inr ())"
    "ac_mail (fst (run_tx (x_commit_error (gc_call ?env)) (request_deletion_tx ?env (dq_user example_request) 604800010) standing_accounts)) = []"
    by code_simp+
  then have r: "r = Inr (Inr ())" "ac_mail w2 = []" using run by simp_all
  have "\<exists>w'. send_template ?env ''delete_requested'' (ds_email ?s)
       (JObj [(''name'', JStr (ds_name ?s)), (''cancelUrl'', JStr (gc_app_url ?env @ ''/settings/account'')),
              (''expiresAt'', JStr (x_iso (gc_call ?env) 604800010))])
       (Some (''delete-requested/'' @ dq_user example_request @ ''/'' @ show_int 604800010)) (ds_locale ?s) w2 = (w', Inr (Inr ()))"
    by (rule example_mail [OF r(2)]) simp
  then obtain w3 where mail: "send_template ?env ''delete_requested'' (ds_email ?s)
       (JObj [(''name'', JStr (ds_name ?s)), (''cancelUrl'', JStr (gc_app_url ?env @ ''/settings/account'')),
              (''expiresAt'', JStr (x_iso (gc_call ?env) 604800010))])
       (Some (''delete-requested/'' @ dq_user example_request @ ''/'' @ show_int 604800010)) (ds_locale ?s) w2 = (w3, Inr (Inr ()))" by blast
  have p: "ds_pending ?s = None" by simp
  show ?thesis
    unfolding example_asked_def request_account_deletion_def l sum.case p option.case b ca c prod.case due Let_def run r(1) mail by simp
qed

theorem deletion_request_guarded_witness:
  "snd example_asked = Inr (Inr 604800010)
   \<and> map us_pending_deletion (filter (\<lambda>u. us_id u = ''ann'') (st_users (aw_staff (fst example_asked)))) = [Some 604800010]
   \<and> (\<exists>u. able_to_manage \<lparr>PLATFORM_ADMIN_IDS = [], PLATFORM_ADMIN_REQUIRE_MFA = False\<rparr> 10 (aw_staff (fst example_asked)) u)"
proof -
  have out: "snd example_asked = Inr (Inr 604800010)" by (rule example_asked_out)
  then have "example_asked = (fst example_asked, Inr (Inr 604800010))" by (simp add: prod_eq_iff)
  then have run: "request_account_deletion (example_account_env 10) example_request (\<lambda>_. standing_accounts) standing_accounts
      = (fst example_asked, Inr (Inr 604800010))" by (simp add: example_asked_def)
  have s: "get_deletion_state (dq_user example_request) standing_accounts = Some \<lparr>ds_email = ''ann@x.org'', ds_name = ''ann'',
      ds_locale = None, ds_two_factor = False, ds_pending = None, ds_deleted = None, ds_last_export = None\<rparr>" by code_simp
  have t: "staff_tables_ok (aw_staff standing_accounts)" by code_simp
  have m: "able_to_manage (x_staff_env (gc_call (example_account_env 10))) (gc_date (example_account_env 10)) (aw_staff standing_accounts) ''bob''"
    by code_simp
  have l: "\<not> is_listed (gc_call (example_account_env 10)) (dq_user example_request)" by code_simp
  have env: "x_staff_env (gc_call (example_account_env 10)) = \<lparr>PLATFORM_ADMIN_IDS = [], PLATFORM_ADMIN_REQUIRE_MFA = False\<rparr>"
    "gc_date (example_account_env 10) = 10"
    by (simp_all add: example_account_env_def example_account_call_def)
  note g = deletion_request_guarded [OF run s _ refl t m]
  have "st_users (aw_staff (fst example_asked))
      = map (\<lambda>r. if us_id r = dq_user example_request then r\<lparr>us_pending_deletion := Some 604800010\<rparr> else r) (st_users (aw_staff standing_accounts))"
    using g by simp
  moreover have "map us_pending_deletion (filter (\<lambda>u. us_id u = ''ann'')
      (map (\<lambda>r. if us_id r = dq_user example_request then r\<lparr>us_pending_deletion := Some 604800010\<rparr> else r)
        (st_users (aw_staff standing_accounts)))) = [Some 604800010]" by code_simp
  moreover have "\<exists>u. able_to_manage (x_staff_env (gc_call (example_account_env 10))) (gc_date (example_account_env 10)) (aw_staff (fst example_asked)) u"
    using g l by simp
  ultimately show ?thesis using out unfolding env by (simp only: simp_thms)
qed

end
