(* ===== verification/Api_Token.thy ===== *)
theory Api_Token
  imports Account_Service Primitives "HOL-Library.Word"
begin

text \<open>
  API tokens: their text (\<open>shared/crypto/api-token.ts\<close>), the reach of an owner
  (\<open>shared/ports/api-token.port.ts\<close>), the repository \<open>drizzle-api-token.repository.ts\<close>, the service
  \<open>modules/api-token/application/services/api-token.service.ts\<close>, the guard of the public API
  (\<open>shared/middleware/api-token.middleware.ts\<close>), the reports of leaked tokens
  (\<open>token-leak.service.ts\<close>) and the handler of lost memberships (\<open>revoke-on-membership-lost.ts\<close>).

  The tokens are those of \<open>Account_Store\<close>, so that what erases an account and what lets a token in
  speak of the same rows. CRC-32, HMAC-SHA-256 and the random bytes are parameters.
\<close>

section \<open>The text of a token\<close>

definition BASE58_ALPHABET :: string where
  "BASE58_ALPHABET = ''123456789ABCDEFGHJKLMNPQRSTUVWXYZabcdefghijkmnopqrstuvwxyz''"

definition TOKEN_BODY_LENGTH :: nat where "TOKEN_BODY_LENGTH = 44"
definition TOKEN_CHECKSUM_LENGTH :: nat where "TOKEN_CHECKSUM_LENGTH = 6"
definition TOKEN_START_BODY_CHARS :: nat where "TOKEN_START_BODY_CHARS = 8"
definition ALPHABET_SIZE :: nat where "ALPHABET_SIZE = length BASE58_ALPHABET"
definition REJECTION_CEILING :: nat where "REJECTION_CEILING = 256 - (256 mod ALPHABET_SIZE)"

text \<open>The bytes are those the buffers get, one after the other; \<open>None\<close> is that they do not suffice.\<close>

fun random_base58 :: "nat \<Rightarrow> 8 word list \<Rightarrow> string option" where
  "random_base58 0 bs = Some []"
| "random_base58 (Suc n) [] = None"
| "random_base58 (Suc n) (b # bs) =
     (if REJECTION_CEILING \<le> unat b then random_base58 (Suc n) bs
      else map_option (\<lambda>s. BASE58_ALPHABET ! (unat b mod ALPHABET_SIZE) # s) (random_base58 n bs))"

fun base58_digits :: "nat \<Rightarrow> nat \<Rightarrow> string \<Rightarrow> string" where
  "base58_digits n 0 out = out"
| "base58_digits n (Suc k) out = base58_digits (n div ALPHABET_SIZE) k (BASE58_ALPHABET ! (n mod ALPHABET_SIZE) # out)"

definition to_base58_fixed :: "32 word \<Rightarrow> nat \<Rightarrow> string" where
  "to_base58_fixed v len = base58_digits (unat v) len []"

definition checksum_of :: "(string \<Rightarrow> 32 word) \<Rightarrow> string \<Rightarrow> string" where
  "checksum_of crc body = to_base58_fixed (crc body) TOKEN_CHECKSUM_LENGTH"

definition token_text :: "(string \<Rightarrow> 32 word) \<Rightarrow> string \<Rightarrow> string \<Rightarrow> string" where
  "token_text crc prefix body = prefix @ body @ checksum_of crc (prefix @ body)"

definition generate_token :: "(string \<Rightarrow> 32 word) \<Rightarrow> string \<Rightarrow> 8 word list \<Rightarrow> (string \<times> string) option" where
  "generate_token crc prefix bs =
     (case random_base58 TOKEN_BODY_LENGTH bs of
        None \<Rightarrow> None
      | Some body \<Rightarrow>
          let raw = token_text crc prefix body in Some (raw, Event_Emit.slice 0 (length prefix + TOKEN_START_BODY_CHARS) raw))"

datatype token_format_error = BadPrefix | BadLength | BadCharacter | BadChecksum

definition parse_token :: "(string \<Rightarrow> 32 word) \<Rightarrow> string \<Rightarrow> string \<Rightarrow> (string, token_format_error) result" where
  "parse_token crc prefix raw =
     (if take (length prefix) raw \<noteq> prefix then fail BadPrefix
      else if length raw \<noteq> length prefix + TOKEN_BODY_LENGTH + TOKEN_CHECKSUM_LENGTH then fail BadLength
      else let body = Event_Emit.slice (length prefix) (length prefix + TOKEN_BODY_LENGTH) raw;
               checksum = drop (length prefix + TOKEN_BODY_LENGTH) raw
           in if list_ex (\<lambda>c. c \<notin> set BASE58_ALPHABET) (body @ checksum) then fail BadCharacter
              else if checksum \<noteq> checksum_of crc (prefix @ body) then fail BadChecksum
              else ok raw)"

section \<open>Owners\<close>

datatype token_owner = PersonalTokens ident | OrgAndPersonal ident ident

fun owner_user :: "token_owner \<Rightarrow> ident" where
  "owner_user (PersonalTokens u) = u"
| "owner_user (OrgAndPersonal u org) = u"

definition owner_reaches :: "token_owner \<Rightarrow> token_row \<Rightarrow> bool" where
  "owner_reaches owner t \<longleftrightarrow>
     tk_user t = owner_user owner
   \<and> (tk_org t = None \<or> (case owner of PersonalTokens u \<Rightarrow> False | OrgAndPersonal u org \<Rightarrow> tk_org t = Some org))"

definition token_owner_for_session :: "ident \<Rightarrow> ident option \<Rightarrow> token_owner" where
  "token_owner_for_session user org = (case org of None \<Rightarrow> PersonalTokens user | Some i \<Rightarrow> OrgAndPersonal user i)"

text \<open>The condition of the queries; a comparison with a missing organization is not satisfied.\<close>

definition visible_tokens_filter :: "token_owner \<Rightarrow> token_row \<Rightarrow> bool" where
  "visible_tokens_filter owner t \<longleftrightarrow> tk_user t = owner_user owner \<and>
     (case owner of
        PersonalTokens u \<Rightarrow> tk_org t = None
      | OrgAndPersonal u org \<Rightarrow> tk_org t = None \<or> (case tk_org t of None \<Rightarrow> False | Some i \<Rightarrow> i = org))"

section \<open>Environment and errors\<close>

record token_env =
  te_account :: account_env
  te_prefix :: string
  te_pepper :: string
  te_pepper_version :: int
  te_pepper_previous :: "string option"
  te_max_days :: int
  te_bucket_min :: int
  te_hmac :: "string \<Rightarrow> string \<Rightarrow> string"
  te_crc :: "string \<Rightarrow> 32 word"
  te_bytes :: "8 word list"
  te_when :: "string \<Rightarrow> string"

abbreviation te_call :: "token_env \<Rightarrow> call_env" where "te_call env \<equiv> gc_call (te_account env)"
abbreviation te_date :: "token_env \<Rightarrow> instant" where "te_date env \<equiv> gc_date (te_account env)"

datatype token_error = TokenProviderFailed | TokenNotFound | TokenExpiryInvalid

type_synonym 'a token_tx = "(account_world, token_error, 'a) tx"

section \<open>The repository\<close>

definition token_insert :: "token_env \<Rightarrow> token_row \<Rightarrow> unit token_tx" where
  "token_insert env t w =
     (if x_error (te_call env) ''insert'' \<noteq> None \<or> tk_id t \<in> tk_id ` set (ac_tokens w) \<or> tk_hmac t \<in> tk_hmac ` set (ac_tokens w)
      then refuse TokenProviderFailed w else give () (w\<lparr>ac_tokens := ac_tokens w @ [t]\<rparr>))"

definition list_by_owner :: "token_env \<Rightarrow> token_owner \<Rightarrow> account_world \<Rightarrow> (token_row list, token_error) result" where
  "list_by_owner env owner w =
     (if x_error (te_call env) ''listByOwner'' \<noteq> None then fail TokenProviderFailed
      else ok (filter (visible_tokens_filter owner) (ac_tokens w)))"

definition find_by_id_for_owner :: "token_env \<Rightarrow> ident \<Rightarrow> token_owner \<Rightarrow> account_world \<Rightarrow> (token_row option, token_error) result" where
  "find_by_id_for_owner env i owner w =
     (if x_error (te_call env) ''findByIdForOwner'' \<noteq> None then fail TokenProviderFailed
      else ok (List.find (\<lambda>t. tk_id t = i \<and> visible_tokens_filter owner t) (ac_tokens w)))"

definition find_by_hmac :: "token_env \<Rightarrow> string \<Rightarrow> account_world \<Rightarrow> (token_row option, token_error) result" where
  "find_by_hmac env h w =
     (if x_error (te_call env) ''findByHmac'' \<noteq> None then fail TokenProviderFailed
      else ok (List.find (\<lambda>t. tk_hmac t = h) (ac_tokens w)))"

definition revoked_row :: "instant \<Rightarrow> string \<Rightarrow> token_row \<Rightarrow> token_row" where
  "revoked_row date reason t = t\<lparr>tk_revoked := Some date, tk_reason := Some reason\<rparr>"

definition token_revoke :: "token_env \<Rightarrow> ident \<Rightarrow> string \<Rightarrow> bool token_tx" where
  "token_revoke env i reason w =
     (if x_error (te_call env) ''revoke'' \<noteq> None then refuse TokenProviderFailed w
      else let hit = (\<lambda>t. tk_id t = i \<and> tk_revoked t = None)
           in give (list_ex hit (ac_tokens w)) (w\<lparr>ac_tokens := sql_update hit (revoked_row (te_date env) reason) (ac_tokens w)\<rparr>))"

definition revoke_all_for_membership :: "token_env \<Rightarrow> ident \<Rightarrow> ident \<Rightarrow> ident list token_tx" where
  "revoke_all_for_membership env user org w =
     (if x_error (te_call env) ''revokeAllForMembership'' \<noteq> None then refuse TokenProviderFailed w
      else let hit = (\<lambda>t. tk_user t = user \<and> tk_org t = Some org \<and> tk_revoked t = None)
           in give (map tk_id (filter hit (ac_tokens w)))
                (w\<lparr>ac_tokens := sql_update hit (revoked_row (te_date env) ''membership_lost'') (ac_tokens w)\<rparr>))"

definition touch_hit :: "ident \<Rightarrow> instant \<Rightarrow> token_row \<Rightarrow> bool" where
  "touch_hit i since t \<longleftrightarrow> tk_id t = i \<and> (case tk_used t of None \<Rightarrow> True | Some u \<Rightarrow> u < since)"

definition touch_last_used :: "token_env \<Rightarrow> ident \<Rightarrow> instant \<Rightarrow> bool token_tx" where
  "touch_last_used env i since w =
     (if x_error (te_call env) ''touchLastUsed'' \<noteq> None then refuse TokenProviderFailed w
      else give (list_ex (touch_hit i since) (ac_tokens w))
             (w\<lparr>ac_tokens := sql_update (touch_hit i since) (\<lambda>t. t\<lparr>tk_used := Some (te_date env)\<rparr>) (ac_tokens w)\<rparr>))"

text \<open>A hash another row has already is refused by the unique index.\<close>

definition token_rehash :: "token_env \<Rightarrow> ident \<Rightarrow> string \<Rightarrow> int \<Rightarrow> account_world \<Rightarrow> account_world \<times> (unit, token_error) result" where
  "token_rehash env i h version w =
     (if x_error (te_call env) ''rehash'' \<noteq> None \<or> list_ex (\<lambda>t. tk_id t \<noteq> i \<and> tk_hmac t = h) (ac_tokens w)
      then (w, fail TokenProviderFailed)
      else (w\<lparr>ac_tokens := sql_update (\<lambda>t. tk_id t = i) (\<lambda>t. t\<lparr>tk_hmac := h, tk_pepper := version\<rparr>) (ac_tokens w)\<rparr>, ok ()))"

section \<open>The service\<close>

text \<open>A unit of work inside a \<open>try\<close>: what it throws is a failure.\<close>

definition run_caught :: "string option \<Rightarrow> 'e \<Rightarrow> ('w, 'e, 'a) tx \<Rightarrow> 'w \<Rightarrow> 'w \<times> ('a, 'e) result" where
  "run_caught commit_error failed m w =
     (case run_tx commit_error m w of (w', Inl e) \<Rightarrow> (w', fail failed) | (w', Inr r) \<Rightarrow> (w', r))"

record token_request =
  tr_user :: ident
  tr_actor :: ident
  tr_name :: string
  tr_scopes :: "string list"
  tr_org :: "ident option"
  tr_days :: "int option"

definition token_record :: "token_env \<Rightarrow> token_request \<Rightarrow> string \<Rightarrow> string \<Rightarrow> token_row" where
  "token_record env q raw start =
     \<lparr>tk_id = x_fresh (te_call env), tk_user = tr_user q, tk_org = tr_org q, tk_name = tr_name q, tk_scopes = tr_scopes q,
      tk_hmac = te_hmac env (te_pepper env) raw, tk_pepper = te_pepper_version env, tk_start = start, tk_used = None,
      tk_expires = map_option (\<lambda>days. te_date env + days * 24 * 60 * 60 * 1000) (tr_days q),
      tk_revoked = None, tk_reason = None, tk_created = te_date env\<rparr>"

definition create_token_tx :: "token_env \<Rightarrow> ident \<Rightarrow> token_row \<Rightarrow> unit token_tx" where
  "create_token_tx env actor t =
     after (token_insert env t) (\<lambda>_.
       emit_scoped (te_call env) (tk_org t) ''api_token.created'' ''api_token'' (tk_id t)
         (JObj [(''userId'', JStr (tk_user t)), (''actorUserId'', JStr actor), (''organizationId'', JOpt (tk_org t)),
                (''tokenId'', JStr (tk_id t)), (''name'', JStr (tk_name t)), (''scopes'', JArr (map JStr (tk_scopes t))),
                (''expiresAt'', JOpt (map_option (x_iso (te_call env)) (tk_expires t)))]))"

definition create_token ::
  "token_env \<Rightarrow> token_request \<Rightarrow> account_world \<Rightarrow> (account_world \<times> (token_row \<times> string, token_error) result) option" where
  "create_token env q w =
     (if (case tr_days q of None \<Rightarrow> False | Some d \<Rightarrow> te_max_days env < d) then Some (w, fail TokenExpiryInvalid)
      else case generate_token (te_crc env) (te_prefix env) (te_bytes env) of
        None \<Rightarrow> None
      | Some (raw, start) \<Rightarrow>
          let t = token_record env q raw start
          in Some (case run_caught (x_commit_error (te_call env)) TokenProviderFailed (create_token_tx env (tr_actor q) t) w of
               (w', Inl e) \<Rightarrow> (w', fail e) | (w', Inr _) \<Rightarrow> (w', ok (t, raw))))"

definition revocation_payload :: "ident \<Rightarrow> ident option \<Rightarrow> ident option \<Rightarrow> ident \<Rightarrow> string \<Rightarrow> json" where
  "revocation_payload user actor org i reason =
     JObj [(''userId'', JStr user), (''actorUserId'', JOpt actor), (''organizationId'', JOpt org), (''tokenId'', JStr i),
           (''reason'', JStr reason)]"

definition revoke_token_tx :: "token_env \<Rightarrow> token_row \<Rightarrow> ident option \<Rightarrow> string \<Rightarrow> bool token_tx" where
  "revoke_token_tx env t actor reason =
     after (token_revoke env (tk_id t) reason) (\<lambda>done.
       if \<not> done then give False
       else after (emit_scoped (te_call env) (tk_org t) ''api_token.revoked'' ''api_token'' (tk_id t)
              (revocation_payload (tk_user t) actor (tk_org t) (tk_id t) reason)) (\<lambda>_. give True))"

definition revoke_token ::
  "token_env \<Rightarrow> ident \<Rightarrow> token_owner \<Rightarrow> ident \<Rightarrow> (account_world \<Rightarrow> account_world) \<Rightarrow> account_world \<Rightarrow>
   account_world \<times> (unit, token_error) result" where
  "revoke_token env i owner actor between w =
     (case find_by_id_for_owner env i owner w of
        Inl e \<Rightarrow> (w, fail e)
      | Inr None \<Rightarrow> (w, fail TokenNotFound)
      | Inr (Some t) \<Rightarrow>
          if \<not> owner_reaches owner t then (w, fail TokenNotFound)
          else if tk_revoked t \<noteq> None then (w, ok ())
          else case run_caught (x_commit_error (te_call env)) TokenProviderFailed (revoke_token_tx env t (Some actor) ''user'') (between w) of
            (w', Inl e) \<Rightarrow> (w', fail e) | (w', Inr _) \<Rightarrow> (w', ok ()))"

definition list_tokens :: "token_env \<Rightarrow> token_owner \<Rightarrow> account_world \<Rightarrow> (token_row list, token_error) result" where
  "list_tokens env owner w =
     (case list_by_owner env owner w of Inl e \<Rightarrow> fail e | Inr rows \<Rightarrow> ok (filter (owner_reaches owner) rows))"

section \<open>Lost memberships\<close>

definition membership_lost_tx :: "token_env \<Rightarrow> ident \<Rightarrow> ident \<Rightarrow> ident option \<Rightarrow> unit token_tx" where
  "membership_lost_tx env user org actor =
     after (revoke_all_for_membership env user org) (\<lambda>ids.
       each (\<lambda>i. emit_scoped (te_call env) (Some org) ''api_token.revoked'' ''api_token'' i
         (revocation_payload user actor (Some org) i ''membership_lost'')) ids)"

section \<open>The guard of the public API\<close>

datatype api_refusal = Unauthorized | Forbidden | Unavailable

record api_caller =
  ca_token :: ident
  ca_user :: ident
  ca_scopes :: "string list"
  ca_org :: "ident option"

definition token_used_tx :: "token_env \<Rightarrow> token_row \<Rightarrow> bool token_tx" where
  "token_used_tx env t =
     after (touch_last_used env (tk_id t) (te_date env - te_bucket_min env * 60000)) (\<lambda>touched.
       if \<not> touched then give False
       else after (emit_scoped (te_call env) (tk_org t) ''api_token.used'' ''api_token'' (tk_id t)
              (JObj [(''userId'', JStr (tk_user t)), (''actorUserId'', JStr (tk_user t)), (''organizationId'', JOpt (tk_org t)),
                     (''tokenId'', JStr (tk_id t)), (''scopes'', JArr (map JStr (tk_scopes t)))])) (\<lambda>_. give True))"

text \<open>The row a token stands for, and whether it was found under the former pepper.\<close>

definition lookup_token :: "token_env \<Rightarrow> string \<Rightarrow> account_world \<Rightarrow> ((token_row \<times> bool) option, token_error) result" where
  "lookup_token env raw w =
     (case find_by_hmac env (te_hmac env (te_pepper env) raw) w of
        Inl e \<Rightarrow> fail e
      | Inr (Some t) \<Rightarrow> ok (Some (t, False))
      | Inr None \<Rightarrow>
          (case given (te_pepper_previous env) of
             None \<Rightarrow> ok None
           | Some previous \<Rightarrow>
               (case find_by_hmac env (te_hmac env previous raw) w of
                  Inl e \<Rightarrow> fail e | Inr found \<Rightarrow> ok (map_option (\<lambda>t. (t, True)) found))))"

definition bearer :: "string option \<Rightarrow> string option" where
  "bearer header = (case header of None \<Rightarrow> None | Some h \<Rightarrow> if take 7 h = ''Bearer '' then Some (drop 7 h) else None)"

definition token_over :: "instant \<Rightarrow> token_row \<Rightarrow> bool" where
  "token_over now t \<longleftrightarrow> tk_revoked t \<noteq> None \<or> (case tk_expires t of None \<Rightarrow> False | Some e \<Rightarrow> e < now)"

definition caller_of :: "token_row \<Rightarrow> api_caller" where
  "caller_of t = \<lparr>ca_token = tk_id t, ca_user = tk_user t, ca_scopes = tk_scopes t, ca_org = tk_org t\<rparr>"

text \<open>What follows once the row is known to be neither revoked nor past its end.\<close>

definition admit_user ::
  "token_env \<Rightarrow> string list \<Rightarrow> token_row \<Rightarrow> account_world \<Rightarrow> account_world \<times> (api_caller, api_refusal) result throws" where
  "admit_user env scopes t w =
     (if \<not> list_all (\<lambda>s. s \<in> set (tk_scopes t)) scopes then (w, Inr (fail Forbidden))
      else case x_error (te_call env) ''findUserById'' of
        Some e \<Rightarrow> (w, Inl e)
      | None \<Rightarrow>
          (case row_of us_id (tk_user t) (st_users (aw_staff w)) of
             None \<Rightarrow> (w, Inr (fail Unauthorized))
           | Some u \<Rightarrow>
               if us_deleted u \<noteq> None \<or> ban_is_live (us_banned u) (us_ban_expires u) (te_date env) then (w, Inr (fail Unauthorized))
               else (fst (run_tx (x_commit_error (te_call env)) (token_used_tx env t) w), Inr (ok (caller_of t)))))"

definition require_api_token ::
  "token_env \<Rightarrow> string list \<Rightarrow> string option \<Rightarrow> account_world \<Rightarrow> account_world \<times> (api_caller, api_refusal) result throws" where
  "require_api_token env scopes header w =
     (case bearer header of
        None \<Rightarrow> (w, Inr (fail Unauthorized))
      | Some raw \<Rightarrow>
          if is_failure (parse_token (te_crc env) (te_prefix env) raw) then (w, Inr (fail Unauthorized))
          else case lookup_token env raw w of
            Inl e \<Rightarrow> (w, Inr (fail Unavailable))
          | Inr None \<Rightarrow> (w, Inr (fail Unauthorized))
          | Inr (Some (t, former)) \<Rightarrow>
              if token_over (te_date env) t then (w, Inr (fail Unauthorized))
              else admit_user env scopes t
                (if former then fst (token_rehash env (tk_id t) (te_hmac env (te_pepper env) raw) (te_pepper_version env) w) else w))"

section \<open>Leaked tokens\<close>

definition find_by_raw_token :: "token_env \<Rightarrow> string \<Rightarrow> account_world \<Rightarrow> (token_row option, token_error) result" where
  "find_by_raw_token env raw w =
     (case find_by_hmac env (te_hmac env (te_pepper env) raw) w of
        Inl e \<Rightarrow> fail e
      | Inr (Some t) \<Rightarrow> ok (Some t)
      | Inr None \<Rightarrow> (case te_pepper_previous env of None \<Rightarrow> ok None | Some previous \<Rightarrow> find_by_hmac env (te_hmac env previous raw) w))"

definition find_contact :: "ident \<Rightarrow> account_world \<Rightarrow> (string \<times> string \<times> string option) option" where
  "find_contact user w = map_option (\<lambda>p. (pf_email p, pf_name p, pf_locale p)) (row_of pf_id user (ac_profiles w))"

definition to_locale :: "string option \<Rightarrow> string" where
  "to_locale v = (case v of None \<Rightarrow> DEFAULT_LOCALE | Some l \<Rightarrow> if is_locale l then l else DEFAULT_LOCALE)"

definition warn_owner :: "token_env \<Rightarrow> token_row \<Rightarrow> account_world \<Rightarrow> account_world throws" where
  "warn_owner env t w =
     (if x_error (te_call env) ''findContact'' \<noteq> None then Inr w
      else case find_contact (tk_user t) w of
        None \<Rightarrow> Inr w
      | Some (email, name, locale) \<Rightarrow>
          (case send_template (te_account env) ''api_token_leaked'' email
             (JObj [(''name'', JStr name), (''tokenName'', JStr (tk_name t)), (''revokedAt'', JStr (te_when env (to_locale locale)))])
             None (Some (to_locale locale)) w of
             (w', Inl e) \<Rightarrow> Inl e
           | (w', Inr _) \<Rightarrow> Inr w'))"

definition revoke_leaked ::
  "token_env \<Rightarrow> (account_world \<Rightarrow> account_world) \<Rightarrow> token_row \<Rightarrow> account_world \<Rightarrow> account_world \<times> (unit, token_error) result throws" where
  "revoke_leaked env between t w =
     (if tk_revoked t \<noteq> None then (w, Inr (ok ()))
      else case run_caught (x_commit_error (te_call env)) TokenProviderFailed (revoke_token_tx env t None ''leaked'') (between w) of
        (w1, Inl e) \<Rightarrow> (w1, Inr (fail e))
      | (w1, Inr done) \<Rightarrow>
          if \<not> done then (w1, Inr (ok ()))
          else case warn_owner env t w1 of Inl e \<Rightarrow> (w1, Inl e) | Inr w2 \<Rightarrow> (w2, Inr (ok ())))"

datatype leak_label = TruePositive | FalsePositive

definition judge_leak ::
  "token_env \<Rightarrow> (account_world \<Rightarrow> account_world) \<Rightarrow> string \<Rightarrow> account_world \<Rightarrow> account_world \<times> (leak_label, token_error) result throws" where
  "judge_leak env between raw w =
     (if is_failure (parse_token (te_crc env) (te_prefix env) raw) then (w, Inr (ok FalsePositive))
      else case find_by_raw_token env raw w of
        Inl e \<Rightarrow> (w, Inr (fail e))
      | Inr None \<Rightarrow> (w, Inr (ok FalsePositive))
      | Inr (Some t) \<Rightarrow>
          (case revoke_leaked env between t w of
             (w', Inl e) \<Rightarrow> (w', Inl e)
           | (w', Inr (Inl e)) \<Rightarrow> (w', Inr (fail e))
           | (w', Inr (Inr _)) \<Rightarrow> (w', Inr (ok TruePositive))))"

text \<open>The verdicts of the entries, once all have settled: the first failure, or all the labels.\<close>

definition report_verdicts :: "(string \<times> string) list \<Rightarrow> (leak_label, token_error) result list \<Rightarrow> ((string \<times> string \<times> leak_label) list, token_error) result" where
  "report_verdicts entries verdicts =
     (case res_combine verdicts of
        Inl e \<Rightarrow> fail e
      | Inr _ \<Rightarrow> ok (map (\<lambda>((token, kind), v). (token, kind, projr v)) (zip entries verdicts)))"

end
