(* ===== verification/Api_Token_Correct.thy ===== *)
theory Api_Token_Correct
  imports Api_Token Account_Correct
begin

text \<open>
  What tokens parse, and what a token lets in: the texts that parse are exactly those the generator makes,
  a caller is let in exactly with the text of a live token of a live user, and an owner reaches exactly
  the tokens the query shows.
\<close>

section \<open>The checksum\<close>

lemma alphabet: "distinct BASE58_ALPHABET" "ALPHABET_SIZE = 58" "length BASE58_ALPHABET = 58"
  by code_simp+

text \<open>Every character of a body is as likely as any other: four bytes stand for each.\<close>

lemma rejection_is_uniform:
  "\<forall>c \<in> set BASE58_ALPHABET. length (filter (\<lambda>n. BASE58_ALPHABET ! (n mod ALPHABET_SIZE) = c) [0..<REJECTION_CEILING]) = 4"
proof
  fix c assume "c \<in> set BASE58_ALPHABET"
  then obtain i where i: "i < 58" "c = BASE58_ALPHABET ! i" by (metis alphabet(3) in_set_conv_nth)
  have char: "BASE58_ALPHABET ! (n mod 58) = c \<longleftrightarrow> n mod 58 = i" for n
    using nth_eq_iff_index_eq [OF alphabet(1), of "n mod 58" i] i by (simp add: alphabet)
  have four: "{n. n < 232 \<and> n mod 58 = i} = {i, i + 58, i + 116, i + 174}"
  proof (intro set_eqI iffI)
    fix n assume "n \<in> {n. n < 232 \<and> n mod 58 = i}"
    then have "n div 58 < 4" "n = n div 58 * 58 + i" by (auto simp: less_mult_imp_div_less)
    moreover from this(1) have "n div 58 = 0 \<or> n div 58 = 1 \<or> n div 58 = 2 \<or> n div 58 = 3" by arith
    ultimately show "n \<in> {i, i + 58, i + 116, i + 174}" by (elim disjE) simp_all
  qed (use i(1) mod_mult_self2 [of i 58 2] mod_mult_self2 [of i 58 3] in auto)
  have r: "REJECTION_CEILING = 232" by (simp add: REJECTION_CEILING_def alphabet)
  show "length (filter (\<lambda>n. BASE58_ALPHABET ! (n mod ALPHABET_SIZE) = c) [0..<REJECTION_CEILING]) = 4"
    unfolding alphabet(2) char r length_filter_conv_card using four by (simp add: conj_commute cong: conj_cong)
qed

lemma base58_digits_append: "base58_digits n k out = base58_digits n k [] @ out"
proof (induction k arbitrary: n out)
  case (Suc k)
  show ?case unfolding base58_digits.simps by (subst Suc, subst (2) Suc) simp
qed simp

lemma base58_digits_Suc: "base58_digits n (Suc k) [] = base58_digits (n div 58) k [] @ [BASE58_ALPHABET ! (n mod 58)]"
  unfolding base58_digits.simps alphabet(2) by (rule base58_digits_append)

lemma length_base58_digits [simp]: "length (base58_digits n k []) = k"
  by (induction k arbitrary: n) (simp_all add: base58_digits_Suc del: base58_digits.simps(2))

lemma set_base58_digits: "set (base58_digits n k []) \<subseteq> set BASE58_ALPHABET"
proof (induction k arbitrary: n)
  case (Suc k)
  have "BASE58_ALPHABET ! (n mod 58) \<in> set BASE58_ALPHABET" by (rule nth_mem) (simp add: alphabet)
  then show ?case using Suc [of "n div 58"] by (simp add: base58_digits_Suc del: base58_digits.simps(2))
qed simp

lemma base58_digits_inj:
  assumes "base58_digits n k [] = base58_digits m k []" and "n < 58 ^ k" and "m < 58 ^ k"
  shows "n = m"
  using assms
proof (induction k arbitrary: n m)
  case (Suc k)
  have e: "base58_digits (n div 58) k [] = base58_digits (m div 58) k []" "BASE58_ALPHABET ! (n mod 58) = BASE58_ALPHABET ! (m mod 58)"
    using Suc.prems(1) by (simp_all add: base58_digits_Suc del: base58_digits.simps(2))
  have "n div 58 < 58 ^ k" "m div 58 < 58 ^ k" using Suc.prems(2,3) by (simp_all add: less_mult_imp_div_less mult.commute)
  then have "n div 58 = m div 58" by (rule Suc.IH [OF e(1)])
  moreover have "n mod 58 = m mod 58"
    using e(2) nth_eq_iff_index_eq [OF alphabet(1), of "n mod 58" "m mod 58"] by (simp add: alphabet)
  ultimately have "n div 58 * 58 + n mod 58 = m div 58 * 58 + m mod 58" by simp
  then show ?case unfolding div_mult_mod_eq .
qed simp

text \<open>Six characters hold the 32 bits of the checksum.\<close>

lemma checksum_faithful:
  assumes "to_base58_fixed u TOKEN_CHECKSUM_LENGTH = to_base58_fixed v TOKEN_CHECKSUM_LENGTH"
  shows "u = v"
proof -
  have "unat x < 58 ^ 6" for x :: "32 word" using unsigned_less [of x, where ?'a = nat] by simp
  then have "unat u = unat v" using assms unfolding to_base58_fixed_def TOKEN_CHECKSUM_LENGTH_def by (intro base58_digits_inj [of _ 6]) simp_all
  then show ?thesis by (rule unsigned_word_eqI)
qed

section \<open>The texts that parse\<close>

lemma checksum_shape: "length (checksum_of crc s) = TOKEN_CHECKSUM_LENGTH" "set (checksum_of crc s) \<subseteq> set BASE58_ALPHABET"
  using set_base58_digits by (simp_all add: checksum_of_def to_base58_fixed_def)

lemma parse_token_iff:
  "parse_token crc prefix raw = Inr r \<longleftrightarrow>
     r = raw \<and> (\<exists>body. raw = token_text crc prefix body \<and> length body = TOKEN_BODY_LENGTH \<and> set body \<subseteq> set BASE58_ALPHABET)"
  (is "?parses \<longleftrightarrow> ?made")
proof
  assume p: ?parses
  let ?body = "Event_Emit.slice (length prefix) (length prefix + TOKEN_BODY_LENGTH) raw"
  let ?sum = "drop (length prefix + TOKEN_BODY_LENGTH) raw"
  have c: "take (length prefix) raw = prefix" "length raw = length prefix + TOKEN_BODY_LENGTH + TOKEN_CHECKSUM_LENGTH"
    "set (?body @ ?sum) \<subseteq> set BASE58_ALPHABET" "?sum = checksum_of crc (prefix @ ?body)" "r = raw"
    using p by (auto simp: parse_token_def Let_def list_ex_iff split: if_splits)
  have "raw = take (length prefix) raw @ ?body @ ?sum"
    by (simp add: Event_Emit.slice_def) (metis append_take_drop_id add.commute drop_drop append_assoc)
  then have "raw = token_text crc prefix ?body" unfolding token_text_def using c(1,4) by simp
  moreover have "length ?body = TOKEN_BODY_LENGTH" using c(2) by (simp add: Event_Emit.slice_def)
  ultimately show ?made using c(3,5) by auto
next
  assume ?made
  then obtain body where b: "r = raw" "raw = token_text crc prefix body" "length body = TOKEN_BODY_LENGTH" "set body \<subseteq> set BASE58_ALPHABET" by blast
  have s: "Event_Emit.slice (length prefix) (length prefix + TOKEN_BODY_LENGTH) raw = body"
    "drop (length prefix + TOKEN_BODY_LENGTH) raw = checksum_of crc (prefix @ body)"
    using b(3) by (simp_all add: b(2) token_text_def Event_Emit.slice_def)
  have "length raw = length prefix + TOKEN_BODY_LENGTH + TOKEN_CHECKSUM_LENGTH" "take (length prefix) raw = prefix"
    using b(3) by (simp_all add: b(2) token_text_def checksum_shape)
  moreover have "\<not> list_ex (\<lambda>c. c \<notin> set BASE58_ALPHABET) (body @ checksum_of crc (prefix @ body))"
    using b(4) checksum_shape(2) by (auto simp: list_ex_iff)
  ultimately show ?parses unfolding parse_token_def Let_def s by (simp add: b(1))
qed

lemma random_base58_shape:
  "random_base58 n bs = Some s \<Longrightarrow> length s = n \<and> set s \<subseteq> set BASE58_ALPHABET"
proof (induction n bs arbitrary: s rule: random_base58.induct)
  case (3 n b bs)
  show ?case
  proof (cases "REJECTION_CEILING \<le> unat b")
    case False
    then obtain s' where "random_base58 n bs = Some s'" "s = BASE58_ALPHABET ! (unat b mod ALPHABET_SIZE) # s'"
      using "3.prems" by auto
    moreover have "BASE58_ALPHABET ! (unat b mod ALPHABET_SIZE) \<in> set BASE58_ALPHABET" by (rule nth_mem) (simp add: alphabet)
    ultimately show ?thesis using "3.IH"(2) [OF False, of s'] by simp
  qed (use 3 in simp)
qed simp_all

text \<open>
  Every token the generator makes parses, its announced start is its first characters, and the texts
  that parse are exactly a prefix, a body of 44 characters of the alphabet and the checksum of both.
\<close>

lemma token_text_roundtrip:
  assumes "generate_token crc prefix bs = Some (raw, start)"
  shows "parse_token crc prefix raw = Inr raw \<and> start = take (length prefix + 8) raw
    \<and> (\<forall>line. (\<exists>r. parse_token crc prefix line = Inr r) \<longleftrightarrow>
         (\<exists>body. line = token_text crc prefix body \<and> length body = 44 \<and> set body \<subseteq> set BASE58_ALPHABET))"
proof -
  obtain body where b: "random_base58 TOKEN_BODY_LENGTH bs = Some body" "raw = token_text crc prefix body"
    "start = Event_Emit.slice 0 (length prefix + TOKEN_START_BODY_CHARS) raw"
    using assms by (auto simp: generate_token_def Let_def split: option.splits)
  have "parse_token crc prefix raw = Inr raw \<and> start = take (length prefix + 8) raw"
    using random_base58_shape [OF b(1)] parse_token_iff [of crc prefix raw raw] b(2,3)
    by (auto simp: Event_Emit.slice_def TOKEN_START_BODY_CHARS_def)
  moreover have "(\<exists>r. parse_token crc prefix line = Inr r) \<longleftrightarrow>
     (\<exists>body. line = token_text crc prefix body \<and> length body = 44 \<and> set body \<subseteq> set BASE58_ALPHABET)" for line
    unfolding parse_token_iff TOKEN_BODY_LENGTH_def by blast
  ultimately show ?thesis by blast
qed

section \<open>What an owner reaches\<close>

lemma filter_is_reach: "visible_tokens_filter owner t = owner_reaches owner t"
  by (cases owner) (auto simp: visible_tokens_filter_def owner_reaches_def split: option.splits)

lemma list_tokens_reach:
  "list_tokens env owner w = (if x_error (te_call env) ''listByOwner'' \<noteq> None then Inl TokenProviderFailed
     else Inr (filter (owner_reaches owner) (ac_tokens w)))"
  by (simp add: list_tokens_def list_by_owner_def filter_is_reach)

section \<open>Who is let in\<close>

lemma bearer_Some:
  assumes "bearer header = Some raw"
  shows "header = Some (''Bearer '' @ raw)"
proof -
  obtain h where h: "header = Some h" "take 7 h = ''Bearer ''" "raw = drop 7 h"
    using assms by (auto simp: bearer_def split: option.splits if_splits)
  then have "h = ''Bearer '' @ raw" using append_take_drop_id [of 7 h] by simp
  then show ?thesis using h(1) by simp
qed

definition stands_for :: "token_env \<Rightarrow> string \<Rightarrow> token_row \<Rightarrow> bool" where
  "stands_for env raw t \<longleftrightarrow> tk_hmac t = te_hmac env (te_pepper env) raw
     \<or> (\<exists>previous. te_pepper_previous env = Some previous \<and> tk_hmac t = te_hmac env previous raw)"

lemma find_by_hmac_Some: "find_by_hmac env h w = Inr (Some t) \<Longrightarrow> t \<in> set (ac_tokens w) \<and> tk_hmac t = h"
  by (auto simp: find_by_hmac_def find_Some_iff split: if_splits)

lemma lookup_token_Some:
  assumes "lookup_token env raw w = Inr (Some (t, former))"
  shows "t \<in> set (ac_tokens w) \<and> stands_for env raw t"
  using assms
  by (auto simp: lookup_token_def stands_for_def given_def split: sum.splits option.splits if_splits dest!: find_by_hmac_Some)

lemma rehash_staff: "aw_staff (fst (token_rehash env i h v w)) = aw_staff w"
  by (simp add: token_rehash_def)

text \<open>A call of the guard that let somebody in, step by step.\<close>

lemma let_in_steps:
  assumes "require_api_token env scopes header w = (w', Inr (Inr caller))"
  obtains raw t u where "header = Some (''Bearer '' @ raw)" and "parse_token (te_crc env) (te_prefix env) raw = Inr raw"
    and "t \<in> set (ac_tokens w)" and "stands_for env raw t" and "\<not> token_over (te_date env) t"
    and "list_all (\<lambda>s. s \<in> set (tk_scopes t)) scopes" and "u \<in> set (st_users (aw_staff w))" and "us_id u = tk_user t"
    and "us_deleted u = None" and "\<not> ban_is_live (us_banned u) (us_ban_expires u) (te_date env)" and "caller = caller_of t"
proof -
  obtain raw where raw: "bearer header = Some raw" using assms by (auto simp: require_api_token_def split: option.splits)
  obtain r where p: "parse_token (te_crc env) (te_prefix env) raw = Inr r"
    using assms raw by (cases "parse_token (te_crc env) (te_prefix env) raw") (auto simp: require_api_token_def)
  have pr: "parse_token (te_crc env) (te_prefix env) raw = Inr raw" using p parse_token_iff [of "te_crc env" "te_prefix env" raw] by auto
  obtain t former where l: "lookup_token env raw w = Inr (Some (t, former))"
    using assms raw pr by (auto simp: require_api_token_def split: sum.splits option.splits)
  let ?w1 = "if former then fst (token_rehash env (tk_id t) (te_hmac env (te_pepper env) raw) (te_pepper_version env) w) else w"
  have a: "\<not> token_over (te_date env) t" "admit_user env scopes t ?w1 = (w', Inr (Inr caller))"
    using assms raw pr l by (auto simp: require_api_token_def split: if_splits)
  have sc: "list_all (\<lambda>s. s \<in> set (tk_scopes t)) scopes" using a(2) by (auto simp: admit_user_def split: if_splits)
  have "aw_staff ?w1 = aw_staff w" by (simp add: rehash_staff)
  then obtain u where u: "row_of us_id (tk_user t) (st_users (aw_staff w)) = Some u"
    and ok: "us_deleted u = None" "\<not> ban_is_live (us_banned u) (us_ban_expires u) (te_date env)" and c: "caller = caller_of t"
    using a(2) sc by (auto simp: admit_user_def split: if_splits option.splits)
  then show ?thesis
    using bearer_Some [OF raw] pr lookup_token_Some [OF l] row_of_Some [OF u] a(1) sc by (intro that [of raw t u]) simp_all
qed

text \<open>
  Whoever the guard lets in presented the text of a token of the table, under the pepper or the former one,
  that is not revoked and not past its end, holds every scope the route asks for and belongs to a user
  who is neither deleted nor banned; the caller it names is that user.
\<close>

lemma caller_let_in:
  assumes "require_api_token env scopes header w = (w', Inr (Inr caller))"
  shows "\<exists>raw t u. header = Some (''Bearer '' @ raw) \<and> parse_token (te_crc env) (te_prefix env) raw = Inr raw
    \<and> t \<in> set (ac_tokens w) \<and> stands_for env raw t \<and> tk_revoked t = None
    \<and> (\<forall>e. tk_expires t = Some e \<longrightarrow> te_date env \<le> e) \<and> set scopes \<subseteq> set (tk_scopes t)
    \<and> u \<in> set (st_users (aw_staff w)) \<and> us_id u = tk_user t \<and> us_deleted u = None
    \<and> \<not> ban_is_live (us_banned u) (us_ban_expires u) (te_date env) \<and> caller = caller_of t"
  by (rule let_in_steps [OF assms]) (auto simp: token_over_def list_all_iff split: option.splits)

text \<open>An erased account has no way in by a token.\<close>

lemma erased_locked_out:
  assumes "erased uuid user w" and "require_api_token env scopes header w = (w', Inr (Inr caller))"
  shows "ca_user caller \<noteq> user"
  by (rule let_in_steps [OF assms(2)]) (use assms(1) in \<open>auto simp: erased_def caller_of_def\<close>)

end
