(* ===== verification/Api_Token_Runs.thy ===== *)
theory Api_Token_Runs
  imports Api_Token_Correct Account_Runs
begin

text \<open>
  Tokens over time: creations, revocations by their owner, by a report of a leak or with a lost membership,
  uses, and the wipes of accounts interleave. A revocation is announced once and lasts.
\<close>

section \<open>Revocations and their events\<close>

abbreviation revocations :: "ident \<Rightarrow> account_world \<Rightarrow> nat" where
  "revocations i w \<equiv> announced ''api_token.revoked'' i (outbox_rows (aw_outbox w))"

definition revocations_told :: "account_world \<Rightarrow> bool" where
  "revocations_told w \<longleftrightarrow> keyed tk_id (ac_tokens w) \<and> (\<forall>i. revocations i w \<le> 1)
     \<and> (\<forall>t \<in> set (ac_tokens w). revocations (tk_id t) w = (if tk_revoked t = None then 0 else 1))"

definition token_kept :: "token_row \<Rightarrow> token_row \<Rightarrow> bool" where
  "token_kept t t' \<longleftrightarrow> tk_id t' = tk_id t \<and> (tk_revoked t \<noteq> None \<longrightarrow> tk_revoked t' = tk_revoked t \<and> tk_reason t' = tk_reason t)"

definition tokens_kept :: "account_world \<Rightarrow> account_world \<Rightarrow> bool" where
  "tokens_kept w w' \<longleftrightarrow> (\<forall>i. revocations i w \<le> revocations i w')
     \<and> (\<forall>t' \<in> set (ac_tokens w'). (\<exists>t \<in> set (ac_tokens w). token_kept t t') \<or> revocations (tk_id t') w = 0)"

text \<open>A step that announces a revocation just of the live tokens it revokes keeps the account of them.\<close>

lemma told_by_counts:
  assumes "revocations_told w" and "keyed tk_id (ac_tokens w')"
    and "\<And>i. revocations i w' = revocations i w + n i"
    and "\<And>t'. t' \<in> set (ac_tokens w') \<Longrightarrow> \<exists>t \<in> set (ac_tokens w). token_kept t t'
           \<and> n (tk_id t) = (if tk_revoked t = None \<and> tk_revoked t' \<noteq> None then 1 else 0)"
    and "\<And>i. n i = 0 \<or> n i = 1 \<and> (\<exists>t \<in> set (ac_tokens w). tk_id t = i \<and> tk_revoked t = None)"
  shows "revocations_told w' \<and> tokens_kept w w'"
proof -
  have told: "revocations i w \<le> 1" "\<And>t. t \<in> set (ac_tokens w) \<Longrightarrow> revocations (tk_id t) w = (if tk_revoked t = None then 0 else 1)" for i
    using assms(1) by (simp_all add: revocations_told_def)
  have "revocations i w' \<le> 1" for i
    using assms(5) [of i] told assms(3) [of i] by auto
  moreover have "revocations (tk_id t') w' = (if tk_revoked t' = None then 0 else 1)" if t': "t' \<in> set (ac_tokens w')" for t'
  proof -
    obtain t where t: "t \<in> set (ac_tokens w)" "token_kept t t'" "n (tk_id t) = (if tk_revoked t = None \<and> tk_revoked t' \<noteq> None then 1 else 0)"
      using assms(4) [OF t'] by blast
    then show ?thesis using told(2) [OF t(1)] assms(3) [of "tk_id t"] by (auto simp: token_kept_def split: if_splits)
  qed
  moreover have "tokens_kept w w'" using assms(3,4) by (auto simp: tokens_kept_def)
  ultimately show ?thesis using assms(2) by (simp add: revocations_told_def)
qed

lemma token_kept_refl [simp]: "token_kept t t"
  by (simp add: token_kept_def)

lemma tokens_kept_refl [simp]: "tokens_kept w w"
  unfolding tokens_kept_def using token_kept_refl by blast

text \<open>An update of live tokens to revoked ones, each announced once.\<close>

definition hits_of :: "(token_row \<Rightarrow> bool) \<Rightarrow> token_row list \<Rightarrow> ident \<Rightarrow> nat" where
  "hits_of hit t i = (if \<exists>r \<in> set t. hit r \<and> tk_id r = i then 1 else 0)"

lemma told_by_update:
  assumes "revocations_told w" and "\<And>i. revocations i w' = revocations i w + hits_of hit (ac_tokens w) i"
    and "\<And>t. hit t \<Longrightarrow> tk_revoked t = None" and "\<And>t. tk_id (f t) = tk_id t" and "\<And>t. tk_revoked (f t) \<noteq> None"
    and "keyed tk_id (ac_tokens w')" and "set (ac_tokens w') \<subseteq> set (sql_update hit f (ac_tokens w))"
  shows "revocations_told w' \<and> tokens_kept w w'"
proof (rule told_by_counts [OF assms(1,6,2)])
  have unique: "r = t" if "r \<in> set (ac_tokens w)" "t \<in> set (ac_tokens w)" "tk_id r = tk_id t" for r t
    by (rule keyed_unique [of tk_id "ac_tokens w"]) (use that assms(1) in \<open>simp_all add: revocations_told_def\<close>)
  fix t' assume "t' \<in> set (ac_tokens w')"
  with assms(7) have "t' \<in> set (sql_update hit f (ac_tokens w))" by blast
  then show "\<exists>t \<in> set (ac_tokens w). token_kept t t'
      \<and> hits_of hit (ac_tokens w) (tk_id t) = (if tk_revoked t = None \<and> tk_revoked t' \<noteq> None then 1 else 0)"
  proof (cases rule: updated_row)
    case (1 t)
    then show ?thesis
      using assms(3) [of t] assms(4,5) by (intro bexI [of _ t]) (auto simp: token_kept_def hits_of_def)
  next
    case 2
    then have "hits_of hit (ac_tokens w) (tk_id t') = 0" using unique by (auto simp: hits_of_def)
    then show ?thesis using 2 by (intro bexI [of _ t']) auto
  qed
next
  fix i show "hits_of hit (ac_tokens w) i = 0
    \<or> hits_of hit (ac_tokens w) i = 1 \<and> (\<exists>t \<in> set (ac_tokens w). tk_id t = i \<and> tk_revoked t = None)"
    using assms(3) by (auto simp: hits_of_def)
qed

lemma told_by_nothing:
  assumes "revocations_told w" and "\<And>i. revocations i w' = revocations i w" and "keyed tk_id (ac_tokens w')"
    and "\<And>t'. t' \<in> set (ac_tokens w') \<Longrightarrow> \<exists>t \<in> set (ac_tokens w). tk_id t' = tk_id t \<and> tk_revoked t' = tk_revoked t \<and> tk_reason t' = tk_reason t"
  shows "revocations_told w' \<and> tokens_kept w w'"
proof (rule told_by_counts [OF assms(1,3), where n = "\<lambda>_. 0"])
  fix t' assume "t' \<in> set (ac_tokens w')"
  then show "\<exists>t \<in> set (ac_tokens w). token_kept t t' \<and> (0::nat) = (if tk_revoked t = None \<and> tk_revoked t' \<noteq> None then 1 else 0)"
    by - (drule assms(4), erule bexE, rule bexI, auto simp: token_kept_def)
qed (simp_all add: assms(2))

section \<open>The transactions\<close>

lemma emit_scoped_counts:
  assumes "(emit_scoped x org event kind agg body :: ('w staff_world_scheme, 'e, unit) tx) w = Inr (u, w')"
    and "ids_fresh x (outbox_rows (aw_outbox w))"
  shows "\<exists>ob. w' = w\<lparr>aw_outbox := ob\<rparr> \<and> ids_fresh x (outbox_rows ob)
    \<and> (\<forall>ev i. announced ev i (outbox_rows ob) = announced ev i (outbox_rows (aw_outbox w)) + is_event ev event agg i)"
proof -
  obtain ob where w': "w' = w\<lparr>aw_outbox := ob\<rparr>" by (rule only_outboxD [OF only_outbox_scoped assms(1)])
  note d = announcesD [OF emit_scoped_announces assms]
  show ?thesis using d w' by auto
qed

lemma create_tells:
  assumes "create_token_tx env actor t w = Inr (u, w')" and "ids_fresh (te_call env) (outbox_rows (aw_outbox w))"
    and "revocations_told w" and "revocations (tk_id t) w = 0" and "tk_revoked t = None"
  shows "revocations_told w' \<and> tokens_kept w w'"
proof -
  obtain w1 where 1: "token_insert env t w = Inr ((), w1)"
    and 2: "(emit_scoped (te_call env) (tk_org t) ''api_token.created'' ''api_token'' (tk_id t)
         (JObj [(''userId'', JStr (tk_user t)), (''actorUserId'', JStr actor), (''organizationId'', JOpt (tk_org t)),
                (''tokenId'', JStr (tk_id t)), (''name'', JStr (tk_name t)), (''scopes'', JArr (map JStr (tk_scopes t))),
                (''expiresAt'', JOpt (map_option (x_iso (te_call env)) (tk_expires t)))]) :: unit token_tx) w1 = Inr (u, w')"
    using assms(1) by (auto simp: create_token_tx_def after_Inr)
  have i: "tk_id t \<notin> tk_id ` set (ac_tokens w)" "w1 = w\<lparr>ac_tokens := ac_tokens w @ [t]\<rparr>"
    using 1 by (auto simp: token_insert_def tx_simps split: if_splits)
  obtain ob where w': "w' = w1\<lparr>aw_outbox := ob\<rparr>"
    "\<And>i. announced ''api_token.revoked'' i (outbox_rows ob) = announced ''api_token.revoked'' i (outbox_rows (aw_outbox w1))"
    using emit_scoped_counts [OF 2] assms(2) i(2) by (auto simp: is_event_def)
  have "ac_tokens w' = ac_tokens w @ [t]" "\<And>i. revocations i w' = revocations i w" using w' i(2) by simp_all
  then show ?thesis using assms(3-5) i(1)
    by (auto simp: revocations_told_def tokens_kept_def keyed_def intro: token_kept_refl)
qed

lemma keyed_update_tokens:
  "keyed tk_id t \<Longrightarrow> (\<And>r. tk_id (f r) = tk_id r) \<Longrightarrow> keyed tk_id (sql_update p f t)"
  by (simp add: keyed_sql_update)

lemma revoke_tells:
  assumes "revoke_token_tx env t actor reason w = Inr (done, w')" and "ids_fresh (te_call env) (outbox_rows (aw_outbox w))"
    and "revocations_told w"
  shows "revocations_told w' \<and> tokens_kept w w'"
proof -
  let ?hit = "\<lambda>r. tk_id r = tk_id t \<and> tk_revoked r = None"
  obtain found w1 where 1: "token_revoke env (tk_id t) reason w = Inr (found, w1)"
    and 2: "(if \<not> found then give False
       else after (emit_scoped (te_call env) (tk_org t) ''api_token.revoked'' ''api_token'' (tk_id t)
              (revocation_payload (tk_user t) actor (tk_org t) (tk_id t) reason)) (\<lambda>_. give True) :: bool token_tx) w1 = Inr (done, w')"
    using assms(1) by (auto simp: revoke_token_tx_def after_Inr)
  have w1: "found = list_ex ?hit (ac_tokens w)"
    "w1 = w\<lparr>ac_tokens := sql_update ?hit (revoked_row (te_date env) reason) (ac_tokens w)\<rparr>"
    using 1 by (auto simp: token_revoke_def Let_def tx_simps split: if_splits)
  have "\<exists>ob. w' = w1\<lparr>aw_outbox := ob\<rparr> \<and> (\<forall>i. announced ''api_token.revoked'' i (outbox_rows ob)
      = announced ''api_token.revoked'' i (outbox_rows (aw_outbox w1)) + (if found \<and> tk_id t = i then 1 else 0))"
  proof (cases found)
    case True
    then obtain u where "(emit_scoped (te_call env) (tk_org t) ''api_token.revoked'' ''api_token'' (tk_id t)
              (revocation_payload (tk_user t) actor (tk_org t) (tk_id t) reason) :: unit token_tx) w1 = Inr (u, w')"
      using 2 by (auto simp: after_Inr tx_simps)
    from emit_scoped_counts [OF this] show ?thesis using assms(2) w1(2) True by (auto simp: is_event_def)
  next
    case False
    then have "w' = w1" using 2 by (simp add: tx_simps)
    then show ?thesis using False by (intro exI [of _ "aw_outbox w1"]) simp
  qed
  then obtain ob where w': "w' = w1\<lparr>aw_outbox := ob\<rparr>" "\<And>i. announced ''api_token.revoked'' i (outbox_rows ob)
      = announced ''api_token.revoked'' i (outbox_rows (aw_outbox w1)) + (if found \<and> tk_id t = i then 1 else 0)" by blast
  have n: "hits_of ?hit (ac_tokens w) i = (if found \<and> tk_id t = i then 1 else 0)" for i
    by (auto simp: hits_of_def w1(1) list_ex_iff)
  show ?thesis
  proof (rule told_by_update [OF assms(3), where hit = ?hit and f = "revoked_row (te_date env) reason"])
    show "revocations i w' = revocations i w + hits_of ?hit (ac_tokens w) i" for i using w' w1(2) n by simp
    show "keyed tk_id (ac_tokens w')"
      using assms(3) w'(1) w1(2) by (simp add: revocations_told_def keyed_update_tokens revoked_row_def)
  qed (use w'(1) w1(2) in \<open>simp_all add: revoked_row_def\<close>)
qed

lemma used_tells:
  assumes "token_used_tx env t w = Inr (done, w')" and "ids_fresh (te_call env) (outbox_rows (aw_outbox w))"
    and "revocations_told w"
  shows "revocations_told w' \<and> tokens_kept w w'"
proof -
  let ?hit = "touch_hit (tk_id t) (te_date env - te_bucket_min env * 60000)"
  have "silent (te_call env) ''api_token.revoked'' (token_used_tx env t)"
    unfolding token_used_tx_def
  proof (rule silent_after)
    show "silent (te_call env) ''api_token.revoked'' (touch_last_used env (tk_id t) (te_date env - te_bucket_min env * 60000))"
      by (rule silent_same_outbox) (auto simp: touch_last_used_def tx_simps split: if_splits)
    fix touched
    show "silent (te_call env) ''api_token.revoked'' (if \<not> touched then give False
        else after (emit_scoped (te_call env) (tk_org t) ''api_token.used'' ''api_token'' (tk_id t)
              (JObj [(''userId'', JStr (tk_user t)), (''actorUserId'', JStr (tk_user t)), (''organizationId'', JOpt (tk_org t)),
                     (''tokenId'', JStr (tk_id t)), (''scopes'', JArr (map JStr (tk_scopes t)))])) (\<lambda>_. give True))"
      by (cases touched) (simp_all add: silent_give silent_after emit_scoped_silent)
  qed
  from announcesD(2) [OF this assms(1,2)] have a: "revocations i w' = revocations i w" for i by simp
  obtain touched w1 where 1: "touch_last_used env (tk_id t) (te_date env - te_bucket_min env * 60000) w = Inr (touched, w1)"
    and 2: "(if \<not> touched then give False
       else after (emit_scoped (te_call env) (tk_org t) ''api_token.used'' ''api_token'' (tk_id t)
              (JObj [(''userId'', JStr (tk_user t)), (''actorUserId'', JStr (tk_user t)), (''organizationId'', JOpt (tk_org t)),
                     (''tokenId'', JStr (tk_id t)), (''scopes'', JArr (map JStr (tk_scopes t)))])) (\<lambda>_. give True) :: bool token_tx) w1 = Inr (done, w')"
    using assms(1) by (auto simp: token_used_tx_def after_Inr)
  have w1: "ac_tokens w1 = sql_update ?hit (\<lambda>t. t\<lparr>tk_used := Some (te_date env)\<rparr>) (ac_tokens w)"
    using 1 by (auto simp: touch_last_used_def tx_simps split: if_splits)
  have "ac_tokens w' = ac_tokens w1"
    using 2 by (auto simp: after_Inr tx_simps elim!: only_outboxD [OF only_outbox_scoped] split: if_splits)
  then show ?thesis using w1 a assms(3)
    by (intro told_by_nothing) (auto simp: revocations_told_def keyed_update_tokens elim!: updated_row)
qed

lemma ids_of_hits: "u \<in> set (map tk_id (filter hit t)) \<longleftrightarrow> hits_of hit t u = 1"
  by (induction t) (auto simp: hits_of_def)

lemma distinct_ids: "keyed tk_id t \<Longrightarrow> distinct (map tk_id (filter hit t))"
  by (simp add: keyed_def distinct_map_filter)

lemma hits_if: "hits_of hit t u = (if u \<in> set (map tk_id (filter hit t)) then 1 else 0)"
  unfolding ids_of_hits by (simp add: hits_of_def)

lemma lost_tells:
  assumes "membership_lost_tx env user org actor w = Inr (u, w')" and "ids_fresh (te_call env) (outbox_rows (aw_outbox w))"
    and "revocations_told w"
  shows "revocations_told w' \<and> tokens_kept w w'"
proof -
  let ?hit = "\<lambda>t. tk_user t = user \<and> tk_org t = Some org \<and> tk_revoked t = None"
  let ?say = "\<lambda>i. emit_scoped (te_call env) (Some org) ''api_token.revoked'' ''api_token'' i
         (revocation_payload user actor (Some org) i ''membership_lost'') :: unit token_tx"
  obtain ids w1 where 1: "revoke_all_for_membership env user org w = Inr (ids, w1)" and 2: "each ?say ids w1 = Inr (u, w')"
    using assms(1) by (auto simp: membership_lost_tx_def after_Inr)
  have w1: "ids = map tk_id (filter ?hit (ac_tokens w))"
    "w1 = w\<lparr>ac_tokens := sql_update ?hit (revoked_row (te_date env) ''membership_lost'') (ac_tokens w)\<rparr>"
    using 1 by (auto simp: revoke_all_for_membership_def Let_def tx_simps split: if_splits)
  obtain ob where w': "w' = w1\<lparr>aw_outbox := ob\<rparr>" by (rule only_outboxD [OF only_outbox_each 2]) (rule only_outbox_scoped)
  have f1: "ids_fresh (te_call env) (outbox_rows (aw_outbox w1))" using assms(2) w1(2) by simp
  have k: "keyed tk_id (ac_tokens w)" using assms(3) by (simp add: revocations_told_def)
  have "announces (te_call env) ''api_token.revoked'' (\<lambda>_ u. sum_list (map (\<lambda>i. is_event ''api_token.revoked'' ''api_token.revoked'' i u) ids))
      (each ?say ids)" by (rule announces_each) (rule emit_scoped_announces)
  from announcesD(2) [OF this 2 f1]
  have n: "revocations i w' = revocations i w + hits_of ?hit (ac_tokens w) i" for i
    using sum_events [OF distinct_ids [OF k, of ?hit]] w1 by (simp add: hits_if)
  show ?thesis
  proof (rule told_by_update [OF assms(3), where hit = ?hit and f = "revoked_row (te_date env) ''membership_lost''"])
    show "revocations i w' = revocations i w + hits_of ?hit (ac_tokens w) i" for i by (rule n)
    show "keyed tk_id (ac_tokens w')" using k w' w1(2) by (simp add: keyed_update_tokens revoked_row_def)
  qed (use w' w1(2) in \<open>simp_all add: revoked_row_def\<close>)
qed

text \<open>The wipe of an account.\<close>

lemma execute_wipe_tokens:
  assumes "execute_wipe err date uuid user w = (w', Inr out)" and "\<not> wo_already out"
  shows "wo_tokens out = map (\<lambda>t. (tk_id t, tk_org t)) (filter (live_token_of user) (ac_tokens w))"
proof -
  obtain w1 ended where d: "delete_sessions_of user (wiped_row date uuid user w) = (w1, ended)" by fastforce
  have "ac_tokens w1 = ac_tokens w"
    using d by (auto simp: delete_sessions_of_def wiped_row_def update_user_def Let_def split: prod.splits)
  then show ?thesis using assms d
    by (auto simp: execute_wipe_def already_wiped_def wiped_row_def [symmetric] Let_def split: if_splits)
qed

lemma announce_wipe_revocations:
  "announces (gc_call env) ''api_token.revoked'' (\<lambda>_ u. sum_list (map (\<lambda>i. is_event ''api_token.revoked'' ''api_token.revoked'' i u) (map fst (wo_tokens out))))
     (announce_wipe env user out)"
proof -
  let ?x = "gc_call env" and ?ev = "''api_token.revoked''"
  have s: "silent ?x ?ev (case p of (a, b) \<Rightarrow> emit_scoped ?x (h b) event kind a (body a b))" if "event \<noteq> ?ev" for p event kind h body
    by (cases p) (simp add: emit_scoped_silent that)
  let ?say = "\<lambda>(t, org). emit_scoped ?x org ?ev ''api_token'' t
             (JObj [(''userId'', JStr user), (''actorUserId'', JStr user), (''organizationId'', JOpt org), (''tokenId'', JStr t),
                    (''reason'', JStr ''user'')]) :: unit account_tx"
  have "announces ?x ?ev (\<lambda>_. is_event ?ev ?ev (fst p)) (?say p)" for p
    by (cases p) (simp add: emit_scoped_announces)
  then have "announces ?x ?ev (\<lambda>_ u. sum_list (map (\<lambda>p. is_event ?ev ?ev (fst p) u) (wo_tokens out))) (each ?say (wo_tokens out))"
    by (rule announces_each)
  then have e: "announces ?x ?ev (\<lambda>_ u. sum_list (map (\<lambda>i. is_event ?ev ?ev i u) (map fst (wo_tokens out)))) (each ?say (wo_tokens out))"
    by (simp add: comp_def)
  show ?thesis
    unfolding announce_wipe_def Let_def
    by (intro announces_after silent_each s emit_scoped_silent emit_silent e) simp_all
qed

lemma wipe_tells:
  assumes "wipe_tx env user s w = Inr (out, w')" and f: "ids_fresh (gc_call env) (outbox_rows (aw_outbox w))"
    and "revocations_told w"
  shows "revocations_told w' \<and> tokens_kept w w'"
proof (cases "wo_already out")
  case True
  then show ?thesis using wipe_tx_already(1) [OF assms(1)] assms(3) by simp
next
  case False
  let ?ev = "''api_token.revoked''" and ?hit = "live_token_of user"
  let ?f = "\<lambda>t. t\<lparr>tk_revoked := Some (gc_date env), tk_reason := Some ''user''\<rparr>"
  have k: "keyed tk_id (ac_tokens w)" using assms(3) by (simp add: revocations_told_def)
  obtain out1 w1 w2 w3 w4 where
    1: "account_wipe_call env user w = Inr (out1, w1)" and
    2: "(announce_impersonations_ended (gc_call env) ''revoked'' (wo_ended out1) :: unit account_tx) w1 = Inr ((), w2)"
    and 3: "revoke_staff_access env user w2 = Inr ((), w3)" and 4: "announce_wipe env user out1 w3 = Inr ((), w4)"
    and 5: "notify_wiped env user s w4 = Inr ((), w')" and o1: "out1 = out"
    using assms False by (auto simp: wipe_tx_def after_Inr tx_simps split: if_splits)
  have f1: "ids_fresh (gc_call env) (outbox_rows (aw_outbox w1))" using f wipe_call_outbox [OF 1] by simp
  note d2 = announcesD [OF silent_ended [of ?ev] 2 f1, simplified]
  note d3 = announcesD [OF silent_revoke [of ?ev] 3 d2(1), simplified]
  note d4 = announcesD [OF announce_wipe_revocations 4 d3(1)]
  note d5 = announcesD [OF silent_notify [of env ?ev] 5 d4(1)]
  have x: "execute_wipe (x_error (gc_call env) ''executeWipe'') (gc_date env) (x_fresh (gc_call env)) user w = (w1, Inr out)"
    using 1 o1 by (simp add: account_wipe_call_Inr)
  have "map fst (wo_tokens out1) = map tk_id (filter ?hit (ac_tokens w))"
    unfolding o1 execute_wipe_tokens [OF x False] by (simp add: comp_def)
  then have n: "revocations i w' = revocations i w + hits_of ?hit (ac_tokens w) i" for i
    using d2(2) d3(2) d4(2) d5(2) wipe_call_outbox [OF 1] sum_events [OF distinct_ids [OF k, of ?hit]] by (simp add: hits_if)
  obtain w1' ob t where x': "execute_wipe (x_error (gc_call env) ''executeWipe'') (gc_date env) (x_fresh (gc_call env)) user w = (w1', Inr out)"
    and w': "w' = w1'\<lparr>aw_staff := staff_left (gc_date env) user (aw_staff w1'), aw_outbox := ob, ac_mail := t\<rparr>"
    by (rule wipe_tx_effect [OF assms(1) False])
  have tokens: "\<exists>p. ac_tokens w' = sql_delete p (sql_update ?hit ?f (ac_tokens w))"
    unfolding w' execute_wipe_world(2) [OF x' False] by (auto simp: delete_orgs_def emptied_tables)
  show ?thesis
  proof (rule told_by_update [OF assms(3), where hit = ?hit and f = ?f])
    show "revocations i w' = revocations i w + hits_of ?hit (ac_tokens w) i" for i by (rule n)
    show "keyed tk_id (ac_tokens w')" using tokens k by (auto simp: keyed_sql_delete keyed_update_tokens)
    show "set (ac_tokens w') \<subseteq> set (sql_update ?hit ?f (ac_tokens w))" using tokens by (auto simp: sql_delete_def)
  qed (simp_all add: live_token_of_def)
qed

lemma rehash_tells:
  assumes "revocations_told w" and "token_rehash env i h version w = (w', r)"
  shows "revocations_told w' \<and> tokens_kept w w'"
proof (cases "w' = w")
  case False
  let ?f = "\<lambda>t. t\<lparr>tk_hmac := h, tk_pepper := version\<rparr>"
  have w': "w' = w\<lparr>ac_tokens := sql_update (\<lambda>t. tk_id t = i) ?f (ac_tokens w)\<rparr>"
    using assms(2) False by (simp add: token_rehash_def split: if_splits)
  show ?thesis
  proof (rule told_by_nothing [OF assms(1)])
    show "revocations j w' = revocations j w" for j by (simp add: w')
    show "keyed tk_id (ac_tokens w')" using assms(1) by (simp add: w' revocations_told_def keyed_update_tokens)
    fix t' assume "t' \<in> set (ac_tokens w')"
    then have "t' \<in> set (sql_update (\<lambda>t. tk_id t = i) ?f (ac_tokens w))" by (simp add: w')
    then show "\<exists>t \<in> set (ac_tokens w). tk_id t' = tk_id t \<and> tk_revoked t' = tk_revoked t \<and> tk_reason t' = tk_reason t"
    proof (cases rule: updated_row)
      case (1 t)
      then show ?thesis by (intro bexI [of _ t]) simp_all
    next
      case 2
      then show ?thesis by (intro bexI [of _ t']) simp_all
    qed
  qed
qed (use assms(1) in simp)

section \<open>Interleavings\<close>

text \<open>A transaction that commits does what its statements do; one that does not changes nothing.\<close>

lemma run_tx_keeps:
  assumes "run_tx commit_error m w = (w', out)" and "\<And>y v. m w = Inr (y, v) \<Longrightarrow> told v \<and> tokens_kept w v" and "told w"
  shows "told w' \<and> tokens_kept w w'"
proof (cases "\<exists>y. out = Inr (Inr y)")
  case True
  then obtain y where "run_tx commit_error m w = (w', Inr (Inr y))" using assms(1) by blast
  from assms(2) [OF commits [OF this]] show ?thesis .
next
  case False
  then have "w' = w" using rolls_back [OF assms(1)] by blast
  then show ?thesis using assms(3) by simp
qed

text \<open>
  One transaction of any of the calls, whatever it had read before; a created token has an id that is new; or
  anything else that creates and revokes no token and announces no revocation, which may delete tokens with
  an organization.
\<close>

inductive token_step :: "account_world \<Rightarrow> account_world \<Rightarrow> bool" where
  created: "ids_fresh (te_call env) (outbox_rows (aw_outbox w)) \<Longrightarrow> revocations (x_fresh (te_call env)) w = 0 \<Longrightarrow>
    run_tx commit_error (create_token_tx env actor (token_record env q raw start)) w = (w', out) \<Longrightarrow> token_step w w'"
| revoked: "ids_fresh (te_call env) (outbox_rows (aw_outbox w)) \<Longrightarrow>
    run_tx commit_error (revoke_token_tx env t revoker reason) w = (w', out') \<Longrightarrow> token_step w w'"
| lost: "ids_fresh (te_call env) (outbox_rows (aw_outbox w)) \<Longrightarrow>
    run_tx commit_error (membership_lost_tx env user org revoker) w = (w', out) \<Longrightarrow> token_step w w'"
| used: "ids_fresh (te_call env) (outbox_rows (aw_outbox w)) \<Longrightarrow>
    run_tx commit_error (token_used_tx env t) w = (w', out') \<Longrightarrow> token_step w w'"
| rehashed: "token_rehash env i h version w = (w', out'') \<Longrightarrow> token_step w w'"
| wiped: "ids_fresh (gc_call aenv) (outbox_rows (aw_outbox w)) \<Longrightarrow>
    run_tx commit_error (wipe_tx aenv user s) w = (w', wout) \<Longrightarrow> token_step w w'"
| elsewhere: "keyed tk_id (ac_tokens w') \<Longrightarrow> set (ac_tokens w') \<subseteq> set (ac_tokens w) \<Longrightarrow>
    (\<And>i. revocations i w' = revocations i w) \<Longrightarrow> token_step w w'"

lemma token_step_told:
  assumes "token_step w w'" and "revocations_told w"
  shows "revocations_told w' \<and> tokens_kept w w'"
  using assms(1)
proof cases
  case (created env commit_error actor q raw start out)
  have "tk_id (token_record env q raw start) = x_fresh (te_call env)" "tk_revoked (token_record env q raw start) = None"
    by (simp_all add: token_record_def)
  then have "revocations_told v \<and> tokens_kept w v" if "create_token_tx env actor (token_record env q raw start) w = Inr (y, v)" for y :: unit and v
    using create_tells [OF that created(1) assms(2)] created(2) by simp
  then show ?thesis using assms(2) by (intro run_tx_keeps [OF created(3)])
next
  case (revoked env commit_error t revoker reason out')
  show ?thesis by (rule run_tx_keeps [OF revoked(2)]) (use assms(2) revoke_tells [OF _ revoked(1)] in simp_all)
next
  case (lost env commit_error user org revoker out)
  show ?thesis by (rule run_tx_keeps [OF lost(2)]) (use assms(2) lost_tells [OF _ lost(1)] in simp_all)
next
  case (used env commit_error t out')
  show ?thesis by (rule run_tx_keeps [OF used(2)]) (use assms(2) used_tells [OF _ used(1)] in simp_all)
next
  case (rehashed env i h version out'')
  then show ?thesis using rehash_tells [OF assms(2)] by blast
next
  case (wiped aenv commit_error user s wout)
  show ?thesis by (rule run_tx_keeps [OF wiped(2)]) (use assms(2) wipe_tells [OF _ wiped(1)] in simp_all)
next
  case elsewhere
  then show ?thesis using assms(2) by (intro told_by_nothing) auto
qed

text \<open>
  However creations, revocations of every kind, uses and wipes interleave, with whichever of them failing, a token
  that was revoked stays revoked, at the date and for the reason it was, as long as it has a row, and its
  revocation has been announced exactly once; no token that is live has been announced as revoked.
\<close>

lemma revocation_lasts:
  assumes "token_step\<^sup>*\<^sup>* w w'" and "revocations_told w" and "t \<in> set (ac_tokens w)" and "tk_revoked t \<noteq> None"
  shows "revocations (tk_id t) w' = 1
    \<and> (\<forall>t' \<in> set (ac_tokens w'). tk_id t' = tk_id t \<longrightarrow> tk_revoked t' = tk_revoked t \<and> tk_reason t' = tk_reason t)
    \<and> (\<forall>t' \<in> set (ac_tokens w'). tk_revoked t' = None \<longrightarrow> revocations (tk_id t') w' = 0)"
proof -
  let ?P = "\<lambda>v. revocations_told v \<and> revocations (tk_id t) v = 1
    \<and> (\<forall>t' \<in> set (ac_tokens v). tk_id t' = tk_id t \<longrightarrow> tk_revoked t' = tk_revoked t \<and> tk_reason t' = tk_reason t)"
  have "?P w'"
    using assms(1)
  proof (induction rule: rtranclp_induct)
    case base
    have "t' = t" if "t' \<in> set (ac_tokens w)" "tk_id t' = tk_id t" for t'
      by (rule keyed_unique [of tk_id "ac_tokens w"]) (use that assms(2,3) in \<open>simp_all add: revocations_told_def\<close>)
    then show ?case using assms(2-4) by (auto simp: revocations_told_def)
  next
    case (step v v')
    have n: "revocations_told v'" "tokens_kept v v'" using token_step_told [OF step(2)] step.IH by blast+
    then have "revocations (tk_id t) v' = 1"
      using step.IH by (intro antisym) (auto simp: revocations_told_def tokens_kept_def dest: spec [of _ "tk_id t"])
    moreover have "tk_revoked t' = tk_revoked t \<and> tk_reason t' = tk_reason t" if t': "t' \<in> set (ac_tokens v')" "tk_id t' = tk_id t" for t'
    proof -
      obtain u where "u \<in> set (ac_tokens v)" "token_kept u t'" using n(2) t' step.IH by (force simp: tokens_kept_def)
      then show ?thesis using step.IH t'(2) assms(4) by (auto simp: token_kept_def)
    qed
    ultimately show ?case using n(1) by blast
  qed
  then show ?thesis by (auto simp: revocations_told_def)
qed

end
