(* ===== verification/Spec2Isabelle.thy ===== *)
theory Spec2Isabelle
  imports Prelude Primitives Watched_List Outbox_Protocol Event_Catalog Unit_Of_Work Event_Dispatch
    Lanes Relay_Correct Relay_Drain Pg_Listener Outbox_Dispatcher Email_Protocol Email_Correct
    Webhook_Tenants Webhook_Pages Env_Bounds Sweep_Correct Staff_Powers Four_Eyes Audit_Chain
    Audit_Pages Admin_Lists Step_Up_Correct Account_Requests Api_Token_Runs
begin

text \<open>
  Verification development for clean-stack, a multi-tenant service in TypeScript on Postgres.

  The program. Domain code collects events; a unit of work commits them with its rows into an outbox
  table; a relay, woken by a Postgres notification or a timer, leases batches of the outbox and hands
  each event to its handlers; two of the handlers queue e-mails and webhook deliveries, which have
  leased queues and workers of their own. Around them: the service by which tenants manage webhooks,
  the retention sweeps that empty the tables, the bounds an environment must satisfy for the workers to
  keep their leases, the ordered shutdown, the administration of the platform by its staff (roles,
  moderation, approvals by a second person, step-up by a code, the audit log and its hash chain), the
  export and erasure of accounts, and the tokens of the public API.

  How it is modelled. A table is a list of rows and a statement a relational operation on it
  (\<open>Prelude\<close>): what one SQL statement does is atomic, and two statements of different processes
  interleave in any order. A method of a class is a function of the state it reads to its result and
  the state it leaves; an exception is the left of a sum (\<open>throws\<close>), a failed \<open>Result\<close> of the program
  too (\<open>result\<close>). The clock, fresh ids, random draws, rows locked by others and the driver's errors are
  arguments. Code that is not in the repository (the zod schemas, SHA-256, HMAC, AES-GCM, the URL
  parser, the resolver, \<open>fetch\<close>, the mail provider) is a parameter; where a property relies on what it
  is documented to do, that is a hypothesis, which the property's witness discharges for a concrete
  function. Numbers of the program are integers; a count that is never negative is a \<open>nat\<close>.

  Parts and theories.

  \<^item> \<open>Prelude\<close>: results, instants, tables, text, loops that await, chunks, buckets.
  \<^item> \<open>Primitives\<close>, \<open>Watched_List\<close>: \<open>packages/ddd-kit/src/primitives\<close> and \<open>domain/watched-list.ts\<close>.
  \<^item> \<open>Lease\<close>, \<open>Lease_Table\<close>: \<open>packages/drizzle/src/lease.ts\<close>, retry schedules and lease budgets of
    \<open>packages/outbox/src\<close>; the locales \<open>leased_queue\<close> and \<open>lease_table\<close> state what a queue's statements
    must satisfy, and prove once that of the leases out for a row at most one can still settle it. The
    outbox, the e-mail queue and the webhook deliveries interpret them.
  \<^item> \<open>Outbox_Store\<close>, \<open>Outbox_Lease\<close>, \<open>Outbox_Protocol\<close>: the outbox table, its laws, and the outbox under
    any interleaving of claims, late settlements, crashes, enqueues and requeues (\<open>outbox_step\<close>), with the
    sweep that deletes delivered rows after their retention added in \<open>outbox_life\<close>.
  \<^item> \<open>Event_Catalog\<close>: the event names, visibilities, retentions, notifications and selectors of
    \<open>packages/events/src\<close>. \<open>Event_Emit\<close>: single events and their actor. \<open>Event_Dispatch\<close>: handlers.
  \<^item> \<open>Unit_Of_Work\<close>: \<open>transaction-manager.service.ts\<close>; nested runs, savepoints, dooming, the flush of
    collected events: all or nothing.
  \<^item> \<open>Lanes\<close>, \<open>Outbox_Relay\<close>, \<open>Relay_Correct\<close>, \<open>Relay_Drain\<close>: \<open>outbox-relay.ts\<close>; every event dispatched after
    all its handlers, every claimed record worked once, each drain a run of the outbox protocol.
  \<^item> \<open>Pg_Listener\<close>, \<open>Outbox_Dispatcher\<close>: the listening connection and the wake, drain and timer machine.
  \<^item> \<open>Email_Queue\<close>, \<open>Email_Protocol\<close>, \<open>Email_Worker\<close>, \<open>Email_Correct\<close>: \<open>packages/email/src\<close>.
  \<^item> \<open>Webhook_Store\<close>, \<open>Webhook_Fanout\<close>, \<open>Webhook_Protocol\<close>, \<open>Ssrf_Guard\<close>, \<open>Webhook_Worker\<close>,
    \<open>Webhook_Correct\<close>: endpoints, deliveries, the destination guard and the delivery worker.
    \<open>Webhook_Service\<close>, \<open>Webhook_Tenants\<close>, \<open>Webhook_Pages\<close>: the tenants' service, its isolation, the
    rotation of secrets and the pages of the delivery list.
  \<^item> \<open>Shutdown\<close>, \<open>Env_Bounds\<close>: \<open>shared/shutdown.ts\<close>, \<open>shared/env-bounds.ts\<close> and \<open>index.ts\<close> of the API.
  \<^item> \<open>Sweep\<close>, \<open>Sweep_Correct\<close>: the retention sweeps of \<open>shared/internal-routes\<close>.
  \<^item> \<open>Access_Control\<close>, \<open>Staff_Store\<close>, \<open>Staff_Service\<close>: roles, permissions and overrides of the staff, the
    tables they live in, and the calls that change them or moderate users. \<open>Staff_Effects\<close> reads a
    committed call backwards; \<open>Staff_Correct\<close> and \<open>Staff_Powers\<close> show that somebody who manages the staff
    is always left, that nobody gives a power they do not hold, and that a call that takes the power to
    impersonate away ends the sessions opened with it.
  \<^item> \<open>Approval_Rows\<close>, \<open>Approval_Store\<close>, \<open>Approvals\<close>: the requests a second person decides, their service
    and the handlers of the four actions. \<open>Approval_Effects\<close>, \<open>Approval_Correct\<close>, \<open>Four_Eyes\<close>: one person
    asks, another decides, once, and the action runs with its mark.
  \<^item> \<open>Canonical_Json\<close>, \<open>Audit_Log\<close>, \<open>Audit_Chain\<close>, \<open>Audit_Pages\<close>: the printer the hashes are taken over,
    the audit log, its hash chain as long as rows are only appended, what a deletion does to it, its list.
  \<^item> \<open>Time_Id_Pages\<close>, \<open>Admin_Lists\<close>: the cursors of \<open>packages/http\<close> and the paged lists of the back office,
    through a locale that states what a page must satisfy.
  \<^item> \<open>Step_Up\<close>, \<open>Step_Up_Correct\<close>: the codes of an authenticator, the counter of the last one used and the
    confirmation of a session. The run keeps the codes a call reported as accepted, and it is proved, not
    presupposed, that they were right and new.
  \<^item> \<open>Account_Store\<close>, \<open>Account_Service\<close>: \<open>modules/rgpd\<close>, the export and erasure of accounts.
    \<open>Account_Correct\<close>: one wipe; \<open>Account_Runs\<close>: interleaved calls and the sweep; \<open>Account_Requests\<close>: the
    request; \<open>Account_Example\<close>: the accounts of the witnesses. \<open>Event_Counts\<close>: how many events of a type
    about one subject a transaction announces, shared with the tokens.
  \<^item> \<open>Api_Token\<close>, \<open>Api_Token_Correct\<close>, \<open>Api_Token_Runs\<close>: the tokens of the public API, their text, service,
    guard and revocation; \<open>revocation_lasts\<close> and \<open>token_step_told\<close> show that a revoked token stays
    revoked and that each revocation was announced once.

  What the groups of lemmas show. Each component has lemmas for its operations branch by branch, an
  invariant of its tables kept by every operation, and the properties numbered C1 to C40, each stated
  in words above its theorem. The protocols (\<open>outbox_step\<close>, \<open>email_step\<close>, \<open>delivery_step\<close>, \<open>staff_step\<close>,
  \<open>audit_step\<close>, \<open>step_up_step\<close>, \<open>token_step\<close>) are inductive relations that allow every interleaving; the workers refine them.

  Bounds and fuel. A drain loop has as fuel the number of records it holds, which each round lowers; a
  sweep runs at most \<open>MAX_BATCHES\<close> = 1000 batches, the program's own cap, so its fuel never ends it
  early. The loops that follow cursors or redirects recurse on what is left. Nothing else is bounded.

  Not modelled: logging, metrics and spans; the HTTP routes and the wiring of the Better Auth, Stripe,
  S3 and React libraries, whose logic is in those libraries; the payload schemas, which zod interprets;
  text and templates; the single-table CRUD of profile, consents, quotas, notes and views.
\<close>

end
